(* ===== verification/Prelude.thy ===== *)
theory Prelude
  imports Main "HOL-Library.Product_Lexorder"
begin

text \<open>
  Shared vocabulary of the development: identifiers, instants and calendar days, the
  error-option discipline of guard sequences, ordered table reads (\<open>ORDER BY\<close>, Python's
  \<open>sort(reverse=True)\<close>, \<open>fetchone\<close>), row updates, ASCII case folding, and the
  generic facts about them that the component theories use.

  A UUID is a natural number: \<open>str(UUID)\<close> is a fixed-width hexadecimal text, so equality
  and the text order agree with those of the number.  An instant is an integer number of
  microseconds and a calendar day is its proleptic ordinal: the ISO texts the tables store
  compare as those numbers do.
\<close>

type_synonym uuid = nat
type_synonym timestamp = int
type_synonym date = int

named_theorems guard_simps "facts that evaluate sequences of guards"
named_theorems table_simps "facts about rows of a table after an update or an insert"

section \<open>Guards\<close>

text \<open>
  A guard of the code (\<open>if c: raise e\<close>) is an optional error; a block of guards raises
  the first error that is there.
\<close>

definition raise_if :: "bool \<Rightarrow> 'e \<Rightarrow> 'e option" where
  "raise_if c e = (if c then Some e else None)"

fun first_error :: "'e option list \<Rightarrow> 'e option" where
  "first_error [] = None"
| "first_error (Some e # _) = Some e"
| "first_error (None # gs) = first_error gs"

lemma raise_if_None [simp, guard_simps]: "raise_if c e = None \<longleftrightarrow> \<not> c"
  by (simp add: raise_if_def)

lemma raise_if_Some [simp, guard_simps]: "raise_if c e = Some e' \<longleftrightarrow> c \<and> e = e'"
  by (simp add: raise_if_def)

lemma raise_if_True [simp]: "raise_if True e = Some e"
  and raise_if_False [simp]: "raise_if False e = None"
  by (simp_all add: raise_if_def)

lemma first_error_None [guard_simps]: "first_error gs = None \<longleftrightarrow> (\<forall>g \<in> set gs. g = None)"
  by (induction gs rule: first_error.induct) auto

lemma first_error_Some_mem: "first_error gs = Some e \<Longrightarrow> Some e \<in> set gs"
  by (induction gs rule: first_error.induct) auto

lemma first_error_Cons:
  "first_error (g # gs) = (case g of Some e \<Rightarrow> Some e | None \<Rightarrow> first_error gs)"
  by (cases g) auto

section \<open>Ordered reads\<close>

text \<open>
  \<open>sort_desc\<close> is the stable descending sort: Python's \<open>sort(key=k, reverse=True)\<close>
  keeps equal elements in their order, which is sorting the reversed list ascending and
  reversing back.  \<open>ORDER BY k DESC\<close> leaves the order of ties open; the model takes the
  row order there.
\<close>

definition sort_desc :: "('a \<Rightarrow> 'k::linorder) \<Rightarrow> 'a list \<Rightarrow> 'a list" where
  "sort_desc k xs = rev (sort_key k (rev xs))"

definition fetchone :: "'a list \<Rightarrow> 'a option" where
  "fetchone xs = (case xs of [] \<Rightarrow> None | x # _ \<Rightarrow> Some x)"

lemma fetchone_simps [simp]: "fetchone [] = None" "fetchone (x # xs) = Some x"
  by (simp_all add: fetchone_def)

lemma fetchone_None [simp]: "fetchone xs = None \<longleftrightarrow> xs = []"
  by (cases xs) auto

lemma fetchone_SomeD: "fetchone xs = Some x \<Longrightarrow> x \<in> set xs"
  by (cases xs) auto

lemma set_sort_desc [simp]: "set (sort_desc k xs) = set xs"
  by (simp add: sort_desc_def)

lemma length_sort_desc [simp]: "length (sort_desc k xs) = length xs"
  by (simp add: sort_desc_def)

lemma sort_desc_Nil_iff [simp]: "sort_desc k xs = [] \<longleftrightarrow> xs = []"
  using length_sort_desc [of k xs] by (metis length_0_conv)

lemma sort_desc_sorted: "sorted_wrt (\<lambda>x y. k y \<le> k x) (sort_desc k xs)"
proof -
  have "sorted_wrt (\<lambda>x y. k x \<le> k y) (sort_key k (rev xs))"
    using sorted_sort_key [of k "rev xs"] by (simp add: sorted_map)
  then show ?thesis by (simp add: sort_desc_def sorted_wrt_rev)
qed

lemma fetchone_sort_desc_max:
  assumes "fetchone (sort_desc k xs) = Some x" and "y \<in> set xs"
  shows "k y \<le> k x"
proof (cases "sort_desc k xs")
  case Nil
  with assms(1) show ?thesis by simp
next
  case (Cons z zs)
  with assms(1) have x: "sort_desc k xs = x # zs" by simp
  have "y \<in> set (x # zs)" using assms(2) set_sort_desc [of k xs] x by simp
  moreover have "sorted_wrt (\<lambda>a b. k b \<le> k a) (x # zs)"
    using sort_desc_sorted [of k xs] x by simp
  ultimately show ?thesis by auto
qed

lemma fetchone_sort_desc_mem: "fetchone (sort_desc k xs) = Some x \<Longrightarrow> x \<in> set xs"
  using fetchone_SomeD set_sort_desc by metis

section \<open>Rows\<close>

definition update_rows :: "('r \<Rightarrow> bool) \<Rightarrow> ('r \<Rightarrow> 'r) \<Rightarrow> 'r list \<Rightarrow> 'r list" where
  "update_rows p f rows = map (\<lambda>r. if p r then f r else r) rows"

lemma update_rows_simps [simp]:
  "update_rows p f [] = []"
  "update_rows p f (r # rows) = (if p r then f r else r) # update_rows p f rows"
  by (simp_all add: update_rows_def)

lemma length_update_rows [simp]: "length (update_rows p f rows) = length rows"
  by (simp add: update_rows_def)

lemma map_update_rows_inv [table_simps]:
  "(\<And>r. p r \<Longrightarrow> g (f r) = g r) \<Longrightarrow> map g (update_rows p f rows) = map g rows"
  by (induction rows) auto

lemma update_rows_id [table_simps]: "(\<And>r. r \<in> set rows \<Longrightarrow> \<not> p r) \<Longrightarrow> update_rows p f rows = rows"
  by (induction rows) auto

lemma set_update_rows [table_simps]:
  "set (update_rows p f rows) = f ` {r \<in> set rows. p r} \<union> {r \<in> set rows. \<not> p r}"
  by (auto simp: update_rows_def)

lemma find_key_unique:
  "distinct (map k rows) \<Longrightarrow> r \<in> set rows \<Longrightarrow> k r = i \<Longrightarrow> find (\<lambda>r. k r = i) rows = Some r"
  by (induction rows) (auto simp: image_iff)

lemma find_SomeD: "find p rows = Some r \<Longrightarrow> r \<in> set rows \<and> p r"
  by (auto simp: find_Some_iff)

lemma find_None_key: "find (\<lambda>r. k r = i) rows = None \<longleftrightarrow> i \<notin> k ` set rows"
  by (auto simp: find_None_iff)

lemma find_update_rows [table_simps]:
  assumes "\<And>r. p r \<Longrightarrow> k (f r) = k r"
  shows "find (\<lambda>r. k r = i) (update_rows p f rows)
    = map_option (\<lambda>r. if p r then f r else r) (find (\<lambda>r. k r = i) rows)"
  by (induction rows) (use assms in auto)

lemma find_append: "find p (xs @ ys) = (case find p xs of Some x \<Rightarrow> Some x | None \<Rightarrow> find p ys)"
  by (induction xs) auto

lemma key_unique: "distinct (map k rows) \<Longrightarrow> x \<in> set rows \<Longrightarrow> y \<in> set rows \<Longrightarrow> k x = k y \<Longrightarrow> x = y"
  by (simp add: distinct_map inj_on_def)

lemma filter_key_unique:
  "distinct (map k rows) \<Longrightarrow> find (\<lambda>r. k r = i) rows = Some r \<Longrightarrow>
     length (filter (\<lambda>r. k r = i \<and> p r) rows) = (if p r then 1 else 0)"
proof (induction rows)
  case (Cons x xs)
  show ?case
  proof (cases "k x = i")
    case True
    then have "filter (\<lambda>r. k r = i \<and> p r) xs = []" using Cons.prems(1) by (auto simp: filter_empty_conv image_iff)
    with True Cons.prems(2) show ?thesis by auto
  next
    case False
    with Cons show ?thesis by auto
  qed
qed simp

text \<open>An \<open>INTEGER PRIMARY KEY AUTOINCREMENT\<close> column: one more than the largest id.\<close>

definition autoincrement :: "nat list \<Rightarrow> nat" where
  "autoincrement ids = Suc (foldr max ids 0)"

lemma autoincrement_gt: "i \<in> set ids \<Longrightarrow> i < autoincrement ids"
  by (induction ids) (auto simp: autoincrement_def le_Suc_eq max_def)

lemma autoincrement_fresh: "autoincrement ids \<notin> set ids"
  using autoincrement_gt by blast

section \<open>Text\<close>

definition upper_char :: "char \<Rightarrow> char" where
  "upper_char c = (if 97 \<le> (of_char c :: nat) \<and> (of_char c :: nat) \<le> 122
     then char_of (of_char c - 32 :: nat) else c)"

definition lower_char :: "char \<Rightarrow> char" where
  "lower_char c = (if 65 \<le> (of_char c :: nat) \<and> (of_char c :: nat) \<le> 90
     then char_of (of_char c + 32 :: nat) else c)"

definition str_upper :: "string \<Rightarrow> string" where
  "str_upper s = map upper_char s"

definition str_lower :: "string \<Rightarrow> string" where
  "str_lower s = map lower_char s"

definition is_space :: "char \<Rightarrow> bool" where
  "is_space c = ((of_char c :: nat) \<in> {9, 10, 11, 12, 13, 28, 29, 30, 31, 32})"

definition is_digit :: "char \<Rightarrow> bool" where
  "is_digit c = (48 \<le> (of_char c :: nat) \<and> (of_char c :: nat) \<le> 57)"

definition is_upper :: "char \<Rightarrow> bool" where
  "is_upper c = (65 \<le> (of_char c :: nat) \<and> (of_char c :: nat) \<le> 90)"

definition is_lower :: "char \<Rightarrow> bool" where
  "is_lower c = (97 \<le> (of_char c :: nat) \<and> (of_char c :: nat) \<le> 122)"

definition str_strip :: "string \<Rightarrow> string" where
  "str_strip s = rev (dropWhile is_space (rev (dropWhile is_space s)))"

text \<open>\<open>" ".join(s.split())\<close>: the maximal runs of non-blank characters, one blank between.\<close>

fun str_words :: "string \<Rightarrow> string \<Rightarrow> string list" where
  "str_words acc [] = (if acc = [] then [] else [rev acc])"
| "str_words acc (c # cs) =
     (if is_space c then (if acc = [] then str_words [] cs else rev acc # str_words [] cs)
      else str_words (c # acc) cs)"

definition join_words :: "string list \<Rightarrow> string" where
  "join_words ws = concat (case ws of [] \<Rightarrow> [] | w # rest \<Rightarrow> w # map (\<lambda>v. CHR '' '' # v) rest)"

definition compact_text :: "string \<Rightarrow> string" where
  "compact_text s = join_words (str_words [] s)"

text \<open>\<open>str(UUID)\<close>: 32 hexadecimal digits in groups of 8, 4, 4, 4 and 12.\<close>

definition hex_digit :: "nat \<Rightarrow> char" where
  "hex_digit d = (if d < 10 then char_of (48 + d) else char_of (87 + d))"

fun hex_digits :: "nat \<Rightarrow> nat \<Rightarrow> string" where
  "hex_digits 0 n = []"
| "hex_digits (Suc k) n = hex_digits k (n div 16) @ [hex_digit (n mod 16)]"

definition str_uuid :: "uuid \<Rightarrow> string" where
  "str_uuid u = (let h = hex_digits 32 u in
     take 8 h @ ''-'' @ take 4 (drop 8 h) @ ''-'' @ take 4 (drop 12 h) @ ''-''
       @ take 4 (drop 16 h) @ ''-'' @ drop 20 h)"

section \<open>Transition systems\<close>

text \<open>
  The states a component can reach from its initial states, and the rule every component's
  safety argument uses: an invariant that holds initially and that every step keeps holds in
  every reachable state.  A component interprets \<open>safe_system\<close> on its own steps.
\<close>

inductive reachable :: "('s \<Rightarrow> bool) \<Rightarrow> ('s \<Rightarrow> 's \<Rightarrow> bool) \<Rightarrow> 's \<Rightarrow> bool"
  for init :: "'s \<Rightarrow> bool" and step :: "'s \<Rightarrow> 's \<Rightarrow> bool" where
  reach_init: "init s \<Longrightarrow> reachable init step s"
| reach_step: "reachable init step s \<Longrightarrow> step s t \<Longrightarrow> reachable init step t"

locale safe_system =
  fixes init :: "'s \<Rightarrow> bool"
    and step :: "'s \<Rightarrow> 's \<Rightarrow> bool"
    and inv :: "'s \<Rightarrow> bool"
  assumes inv_init: "init s \<Longrightarrow> inv s"
    and inv_step: "inv s \<Longrightarrow> step s t \<Longrightarrow> inv t"
begin

lemma reachable_inv: "reachable init step s \<Longrightarrow> inv s"
  by (induction rule: reachable.induct) (auto intro: inv_init inv_step)

lemma run_inv: "step\<^sup>*\<^sup>* s t \<Longrightarrow> inv s \<Longrightarrow> inv t"
  by (induction rule: rtranclp_induct) (auto intro: inv_step)

end

end
