(* ===== verification/Decimals.thy ===== *)
theory Decimals
  imports Complex_Main Prelude
begin

text \<open>
  Python's \<open>decimal\<close> as the budget code uses it (\<open>app/services/budgets.py\<close>,
  \<open>app/services/metric_aggregation.py\<close>): a \<open>Decimal\<close> is the rational number it
  denotes, \<open>quantize(..., ROUND_HALF_UP)\<close> rounds to a multiple of a power of ten with ties
  away from zero, and an arithmetic operation under \<open>getcontext().prec = 28\<close> rounds its
  exact result to 28 significant digits, ties to even (the default context rounding).
\<close>

section \<open>quantize with ROUND_HALF_UP\<close>

definition round_half_up :: "rat \<Rightarrow> int" where
  "round_half_up x = (if 0 \<le> x then \<lfloor>x + 1 / 2\<rfloor> else - \<lfloor>1 / 2 - x\<rfloor>)"

definition quantize :: "rat \<Rightarrow> rat \<Rightarrow> rat" where
  "quantize unit x = of_int (round_half_up (x / unit)) * unit"

text \<open>\<open>_q_money\<close> and \<open>_q_percent\<close>: \<open>MONEY_PLACES = PERCENT_PLACES = Decimal("0.01")\<close>.\<close>

definition q_money :: "rat \<Rightarrow> rat" where
  "q_money value = quantize (1 / 100) value"

definition q_percent :: "rat \<Rightarrow> rat" where
  "q_percent value = quantize (1 / 100) value"

definition cents :: "rat \<Rightarrow> bool" where
  "cents x \<longleftrightarrow> q_money x = x"

lemma round_half_up_of_int [simp]: "round_half_up (of_int n) = n"
proof -
  have "\<lfloor>of_int n + 1 / 2 :: rat\<rfloor> = n" by (rule floor_unique) auto
  moreover have "\<lfloor>1 / 2 - of_int n :: rat\<rfloor> = - n" by (rule floor_unique) auto
  ultimately show ?thesis by (simp add: round_half_up_def)
qed

lemma q_money_eq: "q_money x = of_int (round_half_up (x * 100)) / 100"
  by (simp add: q_money_def quantize_def)

lemma q_money_of_int [simp]: "q_money (of_int n / 100) = of_int n / 100"
proof -
  have "of_int n / 100 * 100 = (of_int n :: rat)" by simp
  then show ?thesis by (simp only: q_money_eq round_half_up_of_int)
qed

lemma q_money_idem [simp]: "q_money (q_money x) = q_money x"
  by (metis q_money_eq q_money_of_int)

lemma cents_q_money [simp]: "cents (q_money x)"
  by (simp add: cents_def)

lemma cents_iff: "cents x \<longleftrightarrow> (\<exists>n. x = of_int n / 100)"
  by (metis cents_def q_money_eq q_money_of_int)

lemma cents_0 [simp]: "cents 0"
  using cents_iff [of 0] by (metis div_0 of_int_0)

lemma cents_add [intro]: "cents x \<Longrightarrow> cents y \<Longrightarrow> cents (x + y)"
  unfolding cents_iff by (metis add_divide_distrib of_int_add)

lemma cents_diff [intro]: "cents x \<Longrightarrow> cents y \<Longrightarrow> cents (x - y)"
  unfolding cents_iff by (metis diff_divide_distrib of_int_diff)

lemma cents_sum_list [intro]: "(\<And>x. x \<in> set xs \<Longrightarrow> cents x) \<Longrightarrow> cents (sum_list xs)"
  by (induction xs) auto

lemma q_money_cents [simp]: "cents x \<Longrightarrow> q_money x = x"
  by (simp add: cents_def)

lemma q_money_0 [simp]: "q_money 0 = 0"
  by simp

lemma q_money_sum_q_money [simp]: "q_money (sum_list (map (\<lambda>x. q_money (f x)) xs)) = sum_list (map (\<lambda>x. q_money (f x)) xs)"
  by (rule q_money_cents) (auto intro!: cents_sum_list)

lemma round_half_up_error: "\<bar>of_int (round_half_up x) - x\<bar> \<le> 1 / 2"
proof (cases "0 \<le> x")
  case True
  have "of_int \<lfloor>x + 1 / 2\<rfloor> \<le> x + 1 / 2" "x + 1 / 2 < of_int \<lfloor>x + 1 / 2\<rfloor> + 1"
    by linarith+
  moreover have "round_half_up x = \<lfloor>x + 1 / 2\<rfloor>" using True by (simp add: round_half_up_def)
  ultimately show ?thesis unfolding abs_le_iff by linarith
next
  case False
  have "of_int \<lfloor>1 / 2 - x\<rfloor> \<le> 1 / 2 - x" "1 / 2 - x < of_int \<lfloor>1 / 2 - x\<rfloor> + 1"
    by linarith+
  moreover have "round_half_up x = - \<lfloor>1 / 2 - x\<rfloor>" using False by (simp add: round_half_up_def)
  ultimately show ?thesis unfolding abs_le_iff of_int_minus by linarith
qed

lemma round_half_up_mono: "x \<le> y \<Longrightarrow> round_half_up x \<le> round_half_up y"
proof -
  assume le: "x \<le> y"
  consider "0 \<le> x" | "x < 0" "0 \<le> y" | "y < 0" using le by linarith
  then show ?thesis
  proof cases
    case 1
    with le show ?thesis by (simp add: round_half_up_def floor_mono)
  next
    case 2
    then have "0 \<le> \<lfloor>y + 1 / 2\<rfloor>" "0 \<le> \<lfloor>1 / 2 - x\<rfloor>" by linarith+
    then have "- \<lfloor>1 / 2 - x\<rfloor> \<le> \<lfloor>y + 1 / 2\<rfloor>" by linarith
    with 2 show ?thesis by (simp add: round_half_up_def)
  next
    case 3
    with le have "\<lfloor>1 / 2 - y\<rfloor> \<le> \<lfloor>1 / 2 - x\<rfloor>" by (intro floor_mono) linarith
    with 3 le show ?thesis by (simp add: round_half_up_def)
  qed
qed

lemma q_money_mono: "x \<le> y \<Longrightarrow> q_money x \<le> q_money y"
  by (simp add: q_money_eq divide_right_mono round_half_up_mono)

lemma q_money_nonneg [intro]: "0 \<le> x \<Longrightarrow> 0 \<le> q_money x"
  using q_money_mono [of 0 x] by simp

lemma q_money_error: "\<bar>q_money x - x\<bar> \<le> 1 / 200"
proof -
  have "q_money x - x = (of_int (round_half_up (x * 100)) - x * 100) / 100"
    by (simp add: q_money_eq field_simps)
  then have "\<bar>q_money x - x\<bar> = \<bar>of_int (round_half_up (x * 100)) - x * 100\<bar> / 100"
    by (simp only: abs_divide abs_numeral)
  also have "\<dots> \<le> (1 / 2) / 100" by (rule divide_right_mono [OF round_half_up_error]) simp
  finally show ?thesis by simp
qed

section \<open>The 28-digit arithmetic context\<close>

definition round_half_even :: "rat \<Rightarrow> int" where
  "round_half_even x =
     (let f = \<lfloor>x\<rfloor>; d = x - of_int f in
      if d < 1 / 2 then f else if 1 / 2 < d then f + 1 else if even f then f else f + 1)"

text \<open>
  The adjusted exponent of a positive number: \<open>10 ^ magnitude x \<le> x < 10 ^ (magnitude x + 1)\<close>,
  found by counting divisions by ten (or multiplications, below one).
\<close>

function mag_big :: "rat \<Rightarrow> nat" where
  "mag_big x = (if x < 10 then 0 else Suc (mag_big (x / 10)))"
  by pat_completeness auto
termination
proof (relation "measure (\<lambda>x. nat \<lfloor>x\<rfloor>)")
  fix x :: rat
  assume "\<not> x < 10"
  then have "\<lfloor>x / 10\<rfloor> < \<lfloor>x\<rfloor>" "0 < \<lfloor>x\<rfloor>" by linarith+
  then show "(x / 10, x) \<in> measure (\<lambda>x. nat \<lfloor>x\<rfloor>)" by simp
qed simp

function mag_small :: "rat \<Rightarrow> nat" where
  "mag_small x = (if 1 \<le> x \<or> x \<le> 0 then 0 else Suc (mag_small (x * 10)))"
  by pat_completeness auto
termination
proof (relation "measure (\<lambda>x. nat \<lceil>1 / x\<rceil>)")
  fix x :: rat
  assume small: "\<not> (1 \<le> x \<or> x \<le> 0)"
  then have y: "1 < 1 / x" by simp
  have m: "2 \<le> \<lceil>1 / x\<rceil>" using y by linarith
  have "1 / x \<le> of_int \<lceil>1 / x\<rceil>" by simp
  moreover have "2 \<le> (of_int \<lceil>1 / x\<rceil> :: rat)" using m by simp
  ultimately have "1 / x + 10 \<le> 10 * of_int \<lceil>1 / x\<rceil>" by linarith
  then have "(1 / x) / 10 \<le> of_int (\<lceil>1 / x\<rceil> - 1)"
    by (simp only: of_int_diff of_int_1 pos_divide_le_eq [of "10::rat"] zero_less_numeral left_diff_distrib)
  then have "\<lceil>(1 / x) / 10\<rceil> \<le> \<lceil>1 / x\<rceil> - 1" by (simp only: ceiling_le_iff)
  then have "\<lceil>(1 / x) / 10\<rceil> < \<lceil>1 / x\<rceil>" by linarith
  moreover have "1 / (x * 10) = (1 / x) / 10" by simp
  ultimately have "\<lceil>1 / (x * 10)\<rceil> < \<lceil>1 / x\<rceil>" by (simp only:)
  with small show "(x * 10, x) \<in> measure (\<lambda>x. nat \<lceil>1 / x\<rceil>)" by simp
qed simp

declare mag_big.simps [simp del] mag_small.simps [simp del]

definition magnitude :: "rat \<Rightarrow> int" where
  "magnitude x = (if 1 \<le> x then int (mag_big x) else - int (mag_small x))"

definition ctx28 :: "rat \<Rightarrow> rat" where
  "ctx28 x = (if x = 0 then 0 else
     let u = 10 powi (magnitude \<bar>x\<bar> - 27) in
     sgn x * of_int (round_half_even (\<bar>x\<bar> / u)) * u)"

definition dec_add :: "rat \<Rightarrow> rat \<Rightarrow> rat" where "dec_add a b = ctx28 (a + b)"
definition dec_sub :: "rat \<Rightarrow> rat \<Rightarrow> rat" where "dec_sub a b = ctx28 (a - b)"
definition dec_mul :: "rat \<Rightarrow> rat \<Rightarrow> rat" where "dec_mul a b = ctx28 (a * b)"
definition dec_div :: "rat \<Rightarrow> rat \<Rightarrow> rat" where "dec_div a b = ctx28 (a / b)"

lemma round_half_even_of_int [simp]: "round_half_even (of_int n) = n"
  by (simp add: round_half_even_def)

lemma round_half_even_bounds: "\<lfloor>x\<rfloor> \<le> round_half_even x" "round_half_even x \<le> \<lfloor>x\<rfloor> + 1"
  by (auto simp: round_half_even_def Let_def)

lemma round_half_even_mono:
  assumes "x \<le> y" shows "round_half_even x \<le> round_half_even y"
proof (cases "\<lfloor>x\<rfloor> = \<lfloor>y\<rfloor>")
  case True
  with assms show ?thesis by (auto simp: round_half_even_def Let_def)
next
  case False
  with floor_mono [OF assms] have "\<lfloor>x\<rfloor> + 1 \<le> \<lfloor>y\<rfloor>" by simp
  with round_half_even_bounds [of x] round_half_even_bounds [of y] show ?thesis by linarith
qed

lemma round_half_even_between:
  "of_int a \<le> x \<Longrightarrow> x \<le> of_int b \<Longrightarrow> a \<le> round_half_even x \<and> round_half_even x \<le> b"
  using round_half_even_mono [of "of_int a" x] round_half_even_mono [of x "of_int b"] by simp

lemma mag_big_bounds: "1 \<le> x \<Longrightarrow> 10 ^ mag_big x \<le> x \<and> x < 10 ^ Suc (mag_big x)"
proof (induction x rule: mag_big.induct)
  case (1 x)
  show ?case
  proof (cases "x < 10")
    case True
    with "1.prems" show ?thesis by (simp add: mag_big.simps [of x])
  next
    case False
    with "1.IH" have "10 ^ mag_big (x / 10) \<le> x / 10 \<and> x / 10 < 10 ^ Suc (mag_big (x / 10))" by simp
    with False show ?thesis by (simp add: mag_big.simps [of x] field_simps)
  qed
qed

lemma mag_small_bounds: "0 < x \<Longrightarrow> x < 1 \<Longrightarrow> 1 \<le> x * 10 ^ mag_small x \<and> x * 10 ^ mag_small x < 10"
proof (induction x rule: mag_small.induct)
  case (1 x)
  show ?case
  proof (cases "1 \<le> x * 10")
    case True
    with "1.prems" show ?thesis
      by (simp add: mag_small.simps [of x] mag_small.simps [of "x * 10"])
  next
    case False
    with "1.IH" "1.prems" have "1 \<le> x * 10 * 10 ^ mag_small (x * 10) \<and> x * 10 * 10 ^ mag_small (x * 10) < 10"
      by simp
    with "1.prems" show ?thesis by (simp add: mag_small.simps [of x] mult.assoc)
  qed
qed

lemma magnitude_bounds:
  assumes "0 < x"
  shows "10 powi magnitude x \<le> x" "x < 10 powi (magnitude x + 1)"
proof -
  have "10 powi magnitude x \<le> x \<and> x < 10 powi (magnitude x + 1)"
  proof (cases "1 \<le> x")
    case True
    have "(10::rat) powi (int (mag_big x) + 1) = 10 ^ Suc (mag_big x)"
      by (metis Suc_as_int nat_int_comparison(1) power_int_of_nat of_nat_Suc add.commute)
    with True mag_big_bounds [OF True] show ?thesis by (simp add: magnitude_def)
  next
    case False
    have "(10::rat) powi (- int (mag_small x) + 1) = 10 / 10 ^ mag_small x"
      by (simp add: power_int_diff)
    moreover have "x < 10 / 10 ^ mag_small x" "1 / 10 ^ mag_small x \<le> x"
      using False assms mag_small_bounds [of x] by (simp_all add: field_simps)
    ultimately show ?thesis using False by (simp add: magnitude_def power_int_minus inverse_eq_divide)
  qed
  then show "10 powi magnitude x \<le> x" "x < 10 powi (magnitude x + 1)" by auto
qed

lemma powi_pos [simp]: "0 < (10::rat) powi k"
  by simp

lemma powi_mono: "a \<le> b \<Longrightarrow> (10::rat) powi a \<le> 10 powi b"
  by (rule power_int_increasing) auto

lemma magnitude_mono_gap:
  assumes "0 < x" and "x \<le> y"
  shows "magnitude x \<le> magnitude y"
proof (rule ccontr)
  assume "\<not> magnitude x \<le> magnitude y"
  then have "(10::rat) powi (magnitude y + 1) \<le> 10 powi magnitude x" by (intro powi_mono) simp
  also have "\<dots> \<le> x" by (rule magnitude_bounds [OF assms(1)])
  also have "x \<le> y" by fact
  also have "y < 10 powi (magnitude y + 1)" using assms by (intro magnitude_bounds) simp
  finally show False by simp
qed

lemma ctx28_pos:
  "0 < x \<Longrightarrow> ctx28 x = of_int (round_half_even (x / 10 powi (magnitude x - 27))) * 10 powi (magnitude x - 27)"
  by (simp add: ctx28_def Let_def)

lemma ctx28_0 [simp]: "ctx28 0 = 0"
  by (simp add: ctx28_def)

lemma ctx28_range:
  assumes "0 < x"
  shows "10 powi magnitude x \<le> ctx28 x" "ctx28 x \<le> 10 powi (magnitude x + 1)"
proof -
  let ?e = "magnitude x" and ?u = "(10::rat) powi (magnitude x - 27)"
  have u: "0 < ?u" by simp
  have lo: "(10::rat) powi ?e = of_int (10 ^ 27) * ?u" by (simp add: power_int_diff)
  have hi: "(10::rat) powi (?e + 1) = of_int (10 ^ 28) * ?u" by (simp add: power_int_diff power_int_add)
  have "of_int (10 ^ 27) \<le> x / ?u" "x / ?u \<le> of_int (10 ^ 28)"
    using magnitude_bounds [OF assms] u unfolding lo hi by (simp_all only: pos_le_divide_eq pos_divide_le_eq less_imp_le)
  then have "10 ^ 27 \<le> round_half_even (x / ?u)" "round_half_even (x / ?u) \<le> 10 ^ 28"
    using round_half_even_between by blast+
  then have "of_int (10 ^ 27) * ?u \<le> of_int (round_half_even (x / ?u)) * ?u"
    "of_int (round_half_even (x / ?u)) * ?u \<le> of_int (10 ^ 28) * ?u"
    using u by (simp_all only: mult_le_cancel_right_pos of_int_le_iff)
  then show "10 powi ?e \<le> ctx28 x" "ctx28 x \<le> 10 powi (?e + 1)"
    unfolding ctx28_pos [OF assms] lo hi by blast+
qed

lemma ctx28_nonneg [intro]: "0 \<le> x \<Longrightarrow> 0 \<le> ctx28 x"
proof (cases "x = 0")
  case False
  assume "0 \<le> x"
  with False have "10 powi magnitude x \<le> ctx28 x" by (intro ctx28_range) simp
  then show ?thesis using powi_pos [of "magnitude x"] by linarith
qed simp

lemma ctx28_mono:
  assumes "0 \<le> x" and "x \<le> y"
  shows "ctx28 x \<le> ctx28 y"
proof (cases "x = 0")
  case True
  with assms show ?thesis by auto
next
  case False
  with assms have x: "0 < x" and y: "0 < y" by auto
  show ?thesis
  proof (cases "magnitude x = magnitude y")
    case True
    let ?u = "(10::rat) powi (magnitude y - 27)"
    have "x / ?u \<le> y / ?u" using assms(2) by (intro divide_right_mono) simp_all
    then have "round_half_even (x / ?u) \<le> round_half_even (y / ?u)" by (rule round_half_even_mono)
    then show ?thesis unfolding ctx28_pos [OF x] ctx28_pos [OF y] True by (simp add: mult_right_mono)
  next
    case False
    with magnitude_mono_gap [OF x assms(2)] have "magnitude x + 1 \<le> magnitude y" by simp
    then have "(10::rat) powi (magnitude x + 1) \<le> 10 powi magnitude y" by (rule powi_mono)
    with ctx28_range(2) [OF x] ctx28_range(1) [OF y] show ?thesis by linarith
  qed
qed

text \<open>
  A number that has at most 28 significant digits is exact: in particular every multiple of a
  cent below \<open>10 ^ 26\<close>, so the additions and subtractions of the stored amounts
  (at most 14 digits each) are exact.
\<close>

lemma ctx28_exact_pos:
  assumes "0 < x" and "x = of_int n * 10 powi k" and "n \<le> 10 ^ 28"
  shows "ctx28 x = x"
proof -
  let ?e = "magnitude x"
  have "?e - 27 \<le> k \<or> x = 10 powi ?e"
  proof (rule disjCI)
    assume ne: "x \<noteq> 10 powi ?e"
    have "10 powi ?e < x" using magnitude_bounds(1) [OF assms(1)] ne by simp
    also have "x \<le> of_int (10 ^ 28) * 10 powi k"
      unfolding assms(2) using assms(3) by (intro mult_right_mono) (simp_all only: of_int_le_iff powi_pos less_imp_le)
    also have "\<dots> = 10 powi (k + 28)" by (simp add: power_int_add)
    finally have "\<not> k + 28 \<le> ?e" using powi_mono [of "k + 28" ?e] by linarith
    then show "?e - 27 \<le> k" by simp
  qed
  then obtain m where "x / 10 powi (?e - 27) = of_int m"
  proof
    assume le: "?e - 27 \<le> k"
    have "x / 10 powi (?e - 27) = of_int n * 10 powi (k - (?e - 27))"
      unfolding assms(2) by (simp add: power_int_diff)
    also have "\<dots> = of_int (n * 10 ^ nat (k - (?e - 27)))"
      using le by (simp add: power_int_def)
    finally show ?thesis by (rule that)
  next
    assume "x = 10 powi ?e"
    then have "x / 10 powi (?e - 27) = 10 powi ?e / 10 powi (?e - 27)" by (rule arg_cong)
    also have "\<dots> = of_int (10 ^ 27)" by (simp add: power_int_diff)
    finally have "x / 10 powi (?e - 27) = of_int (10 ^ 27)" .
    then show ?thesis by (rule that)
  qed
  then have m: "x = of_int m * 10 powi (?e - 27)" "x / 10 powi (?e - 27) = of_int m"
    by (simp_all add: field_simps)
  show ?thesis unfolding ctx28_pos [OF assms(1)] m(2) round_half_even_of_int by (rule m(1) [symmetric])
qed

lemma ctx28_minus [simp]: "ctx28 (- x) = - ctx28 x"
  by (simp add: ctx28_def Let_def)

lemma ctx28_cents:
  assumes "cents x" and "\<bar>x\<bar> \<le> 10 ^ 26"
  shows "ctx28 x = x"
proof -
  have pos: "ctx28 y = y" if "cents y" "0 < y" "y \<le> 10 ^ 26" for y
  proof -
    from that(1) obtain n where n: "y = of_int n / 100" unfolding cents_iff ..
    then have "of_int n \<le> (of_int (10 ^ 28) :: rat)" using that(3) by simp
    then have "n \<le> 10 ^ 28" by (simp only: of_int_le_iff)
    moreover have "y = of_int n * 10 powi (- 2)" using n by (simp add: power_int_minus)
    ultimately show ?thesis using that(2) by (intro ctx28_exact_pos [of y n "- 2"])
  qed
  have "cents (- x)" using assms(1) cents_diff [OF cents_0 assms(1)] by simp
  with pos [of x] pos [of "- x"] assms show ?thesis by (cases "x = 0"; cases "0 < x") auto
qed

end
