(* ===== verification/Budget_Types.thy ===== *)
theory Budget_Types
  imports Decimals
begin

text \<open>
  The data of the planning budgets: the schemas \<open>BudgetCreate\<close>, \<open>BudgetPatch\<close>,
  \<open>BudgetOut\<close>, \<open>BudgetHistoryOut\<close>, \<open>BudgetTransfer*\<close> of \<open>app/schemas.py\<close>, the
  HTTP errors the stores of \<open>app/services/budgets.py\<close> raise, and the helpers both stores
  share.  A money amount is the rational its \<open>Decimal\<close> denotes.
\<close>

datatype budget_scope = ClientScope | AccountScope

datatype period_type = Monthly | Custom

datatype budget_status = Active | Archived

record budget =
  b_id :: uuid
  b_client :: uuid
  b_scope :: budget_scope
  b_account :: "uuid option"
  b_amount :: rat
  b_currency :: string
  b_period :: period_type
  b_start :: date
  b_end :: date
  b_status :: budget_status
  b_version :: int
  b_note :: "string option"
  b_created_by :: "uuid option"
  b_created_at :: timestamp
  b_updated_at :: timestamp

record budget_create =
  c_client :: uuid
  c_scope :: budget_scope
  c_account :: "uuid option"
  c_amount :: rat
  c_currency :: string
  c_period :: period_type
  c_start :: date
  c_end :: date
  c_note :: "string option"
  c_created_by :: "uuid option"

text \<open>
  \<open>BudgetPatch\<close> as \<open>model_dump(exclude_unset=True)\<close> leaves it: \<open>None\<close> is a field
  the request did not set.  The two nullable columns can be set to null, so they carry an
  option of an option.  An explicit null for a \<open>NOT NULL\<close> column is outside the model: the
  code then fails with a \<open>TypeError\<close> or the table's constraint.
\<close>

record budget_patch =
  p_client :: "uuid option"
  p_scope :: "budget_scope option"
  p_account :: "uuid option option"
  p_amount :: "rat option"
  p_currency :: "string option"
  p_period :: "period_type option"
  p_start :: "date option"
  p_end :: "date option"
  p_note :: "string option option"
  p_status :: "budget_status option"
  p_changed_by :: "uuid option"

record transfer_request =
  t_target_account :: uuid
  t_amount :: rat
  t_note :: "string option"
  t_changed_by :: "uuid option"

record transfer_response =
  source_budget :: budget
  target_budget :: budget
  transferred_amount :: rat

record budget_history =
  h_id :: nat
  h_budget :: uuid
  h_changed_at :: timestamp
  h_changed_by :: "uuid option"
  h_previous :: budget
  h_new :: budget

record budget_transfer =
  x_id :: nat
  x_source :: uuid
  x_target :: uuid
  x_amount :: rat
  x_note :: "string option"
  x_changed_by :: "uuid option"
  x_created_at :: timestamp

text \<open>
  One constructor per \<open>raise\<close> of the two stores; \<open>IntegrityError\<close> is the database's
  refusal of a row (primary key or \<open>CHECK\<close>).
\<close>

datatype budget_error =
    PeriodInvalid
  | ClientScopeWithAccount
  | AccountScopeWithoutAccount
  | ActiveOverlap budget_scope "uuid option"
  | ClientBelowAllocated rat rat
  | AllocationExceedsCap date date rat rat uuid
  | BudgetNotFound
  | AmountNegative
  | TransferNotPositive
  | TransferNotAccountScope
  | SourceNotActive
  | SameTargetAccount
  | SourceAmountNegative
  | TransferExceedsSource
  | ClientNotActive
  | SourceClientCurrency
  | SourceAccountNotActive
  | SourceAccountForeign
  | SourceAccountCurrency
  | TargetAccountMissing
  | TargetAccountForeign
  | TargetAccountNotActive
  | TargetAccountCurrency
  | TransferMakesNegative
  | TargetBudgetCurrency
  | TargetAmountNegative
  | IntegrityError

fun http_status :: "budget_error \<Rightarrow> nat" where
  "http_status PeriodInvalid = 400"
| "http_status ClientScopeWithAccount = 400"
| "http_status AccountScopeWithoutAccount = 400"
| "http_status (ActiveOverlap _ _) = 409"
| "http_status (ClientBelowAllocated _ _) = 409"
| "http_status (AllocationExceedsCap _ _ _ _ _) = 409"
| "http_status BudgetNotFound = 404"
| "http_status AmountNegative = 400"
| "http_status TransferNotPositive = 400"
| "http_status TransferNotAccountScope = 400"
| "http_status SourceNotActive = 400"
| "http_status SameTargetAccount = 400"
| "http_status SourceAmountNegative = 409"
| "http_status TransferExceedsSource = 400"
| "http_status ClientNotActive = 409"
| "http_status SourceClientCurrency = 400"
| "http_status SourceAccountNotActive = 409"
| "http_status SourceAccountForeign = 409"
| "http_status SourceAccountCurrency = 400"
| "http_status TargetAccountMissing = 404"
| "http_status TargetAccountForeign = 400"
| "http_status TargetAccountNotActive = 409"
| "http_status TargetAccountCurrency = 400"
| "http_status TransferMakesNegative = 409"
| "http_status TargetBudgetCurrency = 400"
| "http_status TargetAmountNegative = 409"
| "http_status IntegrityError = 500"

section \<open>Shared helpers\<close>

definition validate_period :: "date \<Rightarrow> date \<Rightarrow> budget_error option" where
  "validate_period start_date end_date = raise_if (start_date > end_date) PeriodInvalid"

definition validate_scope :: "budget_scope \<Rightarrow> uuid option \<Rightarrow> budget_error option" where
  "validate_scope scope account_id = first_error
     [raise_if (scope = ClientScope \<and> account_id \<noteq> None) ClientScopeWithAccount,
      raise_if (scope = AccountScope \<and> account_id = None) AccountScopeWithoutAccount]"

definition date_overlap :: "date \<Rightarrow> date \<Rightarrow> date \<Rightarrow> date \<Rightarrow> bool" where
  "date_overlap start_a end_a start_b end_b \<longleftrightarrow> start_a \<le> end_b \<and> end_a \<ge> start_b"

text \<open>\<open>exclude_budget_id\<close>: no exclusion when it is \<open>None\<close>.\<close>

definition not_excluded :: "uuid option \<Rightarrow> uuid \<Rightarrow> bool" where
  "not_excluded excl i \<longleftrightarrow> excl \<noteq> Some i"

lemma validate_period_None [guard_simps]: "validate_period s e = None \<longleftrightarrow> s \<le> e"
  by (auto simp: validate_period_def)

lemma validate_scope_None [guard_simps]:
  "validate_scope sc acc = None \<longleftrightarrow> (sc = ClientScope \<longleftrightarrow> acc = None)"
  by (cases sc) (auto simp: validate_scope_def guard_simps)

lemma date_overlap_sym: "date_overlap a b c d \<longleftrightarrow> date_overlap c d a b"
  by (auto simp: date_overlap_def)

text \<open>The business fields a patch compares: everything but id, version and timestamps.\<close>

record normalized_budget =
  n_client :: uuid
  n_scope :: budget_scope
  n_account :: "uuid option"
  n_amount :: rat
  n_currency :: string
  n_period :: period_type
  n_start :: date
  n_end :: date
  n_status :: budget_status
  n_note :: "string option"
  n_created_by :: "uuid option"

definition normalize_budget :: "budget \<Rightarrow> normalized_budget" where
  "normalize_budget b =
     \<lparr>n_client = b_client b, n_scope = b_scope b, n_account = b_account b,
      n_amount = q_money (b_amount b), n_currency = b_currency b, n_period = b_period b,
      n_start = b_start b, n_end = b_end b, n_status = b_status b, n_note = b_note b,
      n_created_by = b_created_by b\<rparr>"

text \<open>\<open>data = existing.model_dump(); data[key] = value\<close> for every field that is set.\<close>

definition merge_patch :: "budget \<Rightarrow> budget_patch \<Rightarrow> budget" where
  "merge_patch b p = b
     \<lparr>b_client := (case p_client p of None \<Rightarrow> b_client b | Some v \<Rightarrow> v),
      b_scope := (case p_scope p of None \<Rightarrow> b_scope b | Some v \<Rightarrow> v),
      b_account := (case p_account p of None \<Rightarrow> b_account b | Some v \<Rightarrow> v),
      b_amount := (case p_amount p of None \<Rightarrow> b_amount b | Some v \<Rightarrow> v),
      b_currency := (case p_currency p of None \<Rightarrow> b_currency b | Some v \<Rightarrow> v),
      b_period := (case p_period p of None \<Rightarrow> b_period b | Some v \<Rightarrow> v),
      b_start := (case p_start p of None \<Rightarrow> b_start b | Some v \<Rightarrow> v),
      b_end := (case p_end p of None \<Rightarrow> b_end b | Some v \<Rightarrow> v),
      b_note := (case p_note p of None \<Rightarrow> b_note b | Some v \<Rightarrow> v),
      b_status := (case p_status p of None \<Rightarrow> b_status b | Some v \<Rightarrow> v)\<rparr>"

text \<open>\<open>if not patch\<close> after \<open>changed_by\<close> is popped: no business field was sent.\<close>

definition patch_empty :: "budget_patch \<Rightarrow> bool" where
  "patch_empty p \<longleftrightarrow> p_client p = None \<and> p_scope p = None \<and> p_account p = None \<and> p_amount p = None
     \<and> p_currency p = None \<and> p_period p = None \<and> p_start p = None \<and> p_end p = None
     \<and> p_note p = None \<and> p_status p = None"

text \<open>
  The pydantic constraints of the payloads (\<open>decimal_places=2\<close>, \<open>ge=0\<close>, \<open>gt=0\<close>),
  which hold before a store is called.
\<close>

definition create_valid :: "budget_create \<Rightarrow> bool" where
  "create_valid p \<longleftrightarrow> 0 \<le> c_amount p \<and> cents (c_amount p)
     \<and> (c_scope p = ClientScope \<longleftrightarrow> c_account p = None)"

definition patch_valid :: "budget_patch \<Rightarrow> bool" where
  "patch_valid p \<longleftrightarrow> (case p_amount p of None \<Rightarrow> True | Some a \<Rightarrow> 0 \<le> a \<and> cents a)"

definition transfer_valid :: "transfer_request \<Rightarrow> bool" where
  "transfer_valid p \<longleftrightarrow> 0 < t_amount p \<and> cents (t_amount p)"

lemma merge_patch_id [simp]: "b_id (merge_patch b p) = b_id b"
  and merge_patch_version [simp]: "b_version (merge_patch b p) = b_version b"
  by (simp_all add: merge_patch_def)

lemma merge_patch_empty: "patch_empty p \<Longrightarrow> merge_patch b p = b"
  by (simp add: merge_patch_def patch_empty_def)

text \<open>\<open>payload.note or f"Transfer from budget {id}"\<close>: an empty note is falsy.\<close>

definition transfer_note :: "string option \<Rightarrow> uuid \<Rightarrow> string option" where
  "transfer_note note source_id =
     (case note of Some (c # cs) \<Rightarrow> Some (c # cs)
      | _ \<Rightarrow> Some (''Transfer from budget '' @ str_uuid source_id))"

end
