(* ===== verification/Budget_Sqlite.thy ===== *)
theory Budget_Sqlite
  imports Budget_Types
begin

text \<open>
  \<open>SqliteBudgetStore\<close> of \<open>app/services/budgets.py\<close> over the tables it reads and writes.
  A table is the list of its rows in row order.  Every operation runs inside one
  \<open>BEGIN IMMEDIATE\<close> transaction that is rolled back when an exception leaves it, so an
  operation is a function from the database to an error (and the database unchanged) or to its
  result and the new database.  \<open>uuid4()\<close> and the clock are arguments.
\<close>

datatype row_status = RowActive | RowInactive | RowArchived

record client_row =
  cl_id :: uuid
  cl_status :: row_status
  cl_currency :: string

record account_row =
  ac_id :: uuid
  ac_client :: uuid
  ac_status :: row_status
  ac_currency :: string

record budget_db =
  budgets :: "budget list"
  history :: "budget_history list"
  transfers :: "budget_transfer list"
  clients :: "client_row list"
  ad_accounts :: "account_row list"

section \<open>Guards that read the table\<close>

definition overlap_rows ::
  "budget list \<Rightarrow> budget_scope \<Rightarrow> uuid \<Rightarrow> uuid option \<Rightarrow> date \<Rightarrow> date \<Rightarrow> uuid option \<Rightarrow> budget list" where
  "overlap_rows rows scope client_id account_id start_date end_date excl =
     (case scope of
        ClientScope \<Rightarrow> filter (\<lambda>r. b_status r = Active \<and> b_scope r = ClientScope \<and> b_client r = client_id
          \<and> b_start r \<le> end_date \<and> b_end r \<ge> start_date \<and> not_excluded excl (b_id r)) rows
      | AccountScope \<Rightarrow> filter (\<lambda>r. b_status r = Active \<and> b_scope r = AccountScope
          \<and> b_account r \<noteq> None \<and> b_account r = account_id
          \<and> b_start r \<le> end_date \<and> b_end r \<ge> start_date \<and> not_excluded excl (b_id r)) rows)"

definition sql_assert_no_overlap ::
  "budget list \<Rightarrow> budget_scope \<Rightarrow> uuid \<Rightarrow> uuid option \<Rightarrow> date \<Rightarrow> date \<Rightarrow> uuid option \<Rightarrow> budget_error option" where
  "sql_assert_no_overlap rows scope client_id account_id start_date end_date excl =
     raise_if (fetchone (overlap_rows rows scope client_id account_id start_date end_date excl) \<noteq> None)
       (ActiveOverlap scope (if scope = ClientScope then Some client_id else account_id))"

text \<open>The active account budgets of a client whose period meets a given period.\<close>

definition account_rows :: "budget list \<Rightarrow> uuid \<Rightarrow> date \<Rightarrow> date \<Rightarrow> uuid option \<Rightarrow> budget list" where
  "account_rows rows client_id start_date end_date excl =
     filter (\<lambda>r. b_status r = Active \<and> b_scope r = AccountScope \<and> b_client r = client_id
       \<and> b_start r \<le> end_date \<and> b_end r \<ge> start_date \<and> not_excluded excl (b_id r)) rows"

definition amount_total :: "budget list \<Rightarrow> rat" where
  "amount_total rows = q_money (sum_list (map (\<lambda>r. q_money (b_amount r)) rows))"

definition client_cap_rows :: "budget list \<Rightarrow> uuid \<Rightarrow> date \<Rightarrow> date \<Rightarrow> budget list" where
  "client_cap_rows rows client_id start_date end_date =
     sort_key (\<lambda>r. (b_start r, b_id r))
       (filter (\<lambda>r. b_status r = Active \<and> b_scope r = ClientScope \<and> b_client r = client_id
          \<and> b_start r \<le> end_date \<and> b_end r \<ge> start_date) rows)"

definition cap_check :: "budget list \<Rightarrow> uuid \<Rightarrow> rat \<Rightarrow> uuid option \<Rightarrow> budget \<Rightarrow> budget_error option" where
  "cap_check rows client_id amount excl c =
     (let client_budget_amount = q_money (b_amount c);
          account_total = amount_total (account_rows rows client_id (b_start c) (b_end c) excl);
          projected_total = account_total + q_money amount
      in raise_if (projected_total > client_budget_amount)
           (AllocationExceedsCap (b_start c) (b_end c) projected_total client_budget_amount (b_id c)))"

definition sql_assert_allocation ::
  "budget list \<Rightarrow> budget_scope \<Rightarrow> uuid \<Rightarrow> rat \<Rightarrow> date \<Rightarrow> date \<Rightarrow> budget_status \<Rightarrow> uuid option
     \<Rightarrow> budget_error option" where
  "sql_assert_allocation rows scope client_id amount start_date end_date status excl =
     (if status \<noteq> Active then None
      else if scope = ClientScope then
        (let accounts_total = amount_total (account_rows rows client_id start_date end_date excl)
         in raise_if (accounts_total > q_money amount) (ClientBelowAllocated accounts_total (q_money amount)))
      else first_error (map (cap_check rows client_id amount excl)
             (client_cap_rows rows client_id start_date end_date)))"

section \<open>Writes\<close>

text \<open>The \<open>CHECK\<close> constraints and the non-negative triggers of the table.\<close>

definition row_ok :: "budget \<Rightarrow> bool" where
  "row_ok r \<longleftrightarrow> 0 \<le> b_amount r \<and> (b_scope r = ClientScope \<longleftrightarrow> b_account r = None)"

definition insert_budget :: "budget \<Rightarrow> budget_db \<Rightarrow> budget_error + budget_db" where
  "insert_budget r db =
     (if b_id r \<in> b_id ` set (budgets db) \<or> \<not> row_ok r then Inl IntegrityError
      else Inr (db\<lparr>budgets := budgets db @ [r]\<rparr>))"

definition update_budget :: "uuid \<Rightarrow> (budget \<Rightarrow> budget) \<Rightarrow> budget_db \<Rightarrow> budget_error + budget_db" where
  "update_budget i f db =
     (if \<exists>r \<in> set (budgets db). b_id r = i \<and> \<not> row_ok (f r) then Inl IntegrityError
      else Inr (db\<lparr>budgets := update_rows (\<lambda>r. b_id r = i) f (budgets db)\<rparr>))"

definition insert_history :: "uuid \<Rightarrow> timestamp \<Rightarrow> uuid option \<Rightarrow> budget \<Rightarrow> budget \<Rightarrow> budget_db \<Rightarrow> budget_db" where
  "insert_history i now changed_by previous new_values db = db\<lparr>history := history db @
     [\<lparr>h_id = autoincrement (map h_id (history db)), h_budget = i, h_changed_at = now,
       h_changed_by = changed_by, h_previous = previous, h_new = new_values\<rparr>]\<rparr>"

definition insert_transfer ::
  "uuid \<Rightarrow> uuid \<Rightarrow> rat \<Rightarrow> string option \<Rightarrow> uuid option \<Rightarrow> timestamp \<Rightarrow> budget_db \<Rightarrow> budget_db" where
  "insert_transfer src tgt amount note changed_by now db = db\<lparr>transfers := transfers db @
     [\<lparr>x_id = autoincrement (map x_id (transfers db)), x_source = src, x_target = tgt,
       x_amount = amount, x_note = note, x_changed_by = changed_by, x_created_at = now\<rparr>]\<rparr>"

definition sql_get :: "uuid \<Rightarrow> budget_db \<Rightarrow> budget option" where
  "sql_get i db = find (\<lambda>r. b_id r = i) (budgets db)"

section \<open>Operations\<close>

definition new_budget_row :: "uuid \<Rightarrow> timestamp \<Rightarrow> budget_create \<Rightarrow> budget" where
  "new_budget_row budget_id now p =
     \<lparr>b_id = budget_id, b_client = c_client p, b_scope = c_scope p, b_account = c_account p,
      b_amount = q_money (c_amount p), b_currency = c_currency p, b_period = c_period p,
      b_start = c_start p, b_end = c_end p, b_status = Active, b_version = 1, b_note = c_note p,
      b_created_by = c_created_by p, b_created_at = now, b_updated_at = now\<rparr>"

definition sql_create :: "uuid \<Rightarrow> timestamp \<Rightarrow> budget_create \<Rightarrow> budget_db \<Rightarrow> budget_error + (budget \<times> budget_db)" where
  "sql_create budget_id now p db =
     (case first_error
        [validate_period (c_start p) (c_end p),
         validate_scope (c_scope p) (c_account p),
         sql_assert_no_overlap (budgets db) (c_scope p) (c_client p) (c_account p) (c_start p) (c_end p) None,
         sql_assert_allocation (budgets db) (c_scope p) (c_client p) (c_amount p) (c_start p) (c_end p) Active None]
      of Some e \<Rightarrow> Inl e
       | None \<Rightarrow>
          (case insert_budget (new_budget_row budget_id now p) db of
             Inl e \<Rightarrow> Inl e
           | Inr db' \<Rightarrow> Inr (new_budget_row budget_id now p, db')))"

text \<open>\<open>list\<close>: the filters of the query, newest update first.\<close>

datatype status_filter = StatusAll | StatusIs budget_status

definition sql_list ::
  "uuid option \<Rightarrow> uuid option \<Rightarrow> status_filter option \<Rightarrow> date option \<Rightarrow> date option \<Rightarrow> budget_db \<Rightarrow> budget list" where
  "sql_list client_id account_id status date_from date_to db =
     (let effective_status = (case status of None \<Rightarrow> StatusIs Active | Some s \<Rightarrow> s) in
      sort_desc b_updated_at (filter (\<lambda>r.
         (case client_id of None \<Rightarrow> True | Some c \<Rightarrow> b_client r = c)
         \<and> (case account_id of None \<Rightarrow> True | Some a \<Rightarrow> b_account r = Some a)
         \<and> (case effective_status of StatusAll \<Rightarrow> True | StatusIs s \<Rightarrow> b_status r = s)
         \<and> (case date_from of None \<Rightarrow> True | Some d \<Rightarrow> b_end r \<ge> d)
         \<and> (case date_to of None \<Rightarrow> True | Some d \<Rightarrow> b_start r \<le> d)) (budgets db)))"

text \<open>The row a meaningful patch writes.\<close>

definition patched_row :: "timestamp \<Rightarrow> budget \<Rightarrow> budget_patch \<Rightarrow> budget" where
  "patched_row now existing p = (merge_patch existing p)
     \<lparr>b_amount := q_money (b_amount (merge_patch existing p)),
      b_version := b_version existing + 1, b_updated_at := now\<rparr>"

definition sql_patch :: "timestamp \<Rightarrow> uuid \<Rightarrow> budget_patch \<Rightarrow> budget_db \<Rightarrow> budget_error + (budget \<times> budget_db)" where
  "sql_patch now budget_id p db =
     (case sql_get budget_id db of
        None \<Rightarrow> Inl BudgetNotFound
      | Some existing \<Rightarrow>
          if patch_empty p then Inr (existing, db)
          else
            (let data = merge_patch existing p in
             case first_error
               [validate_period (b_start data) (b_end data),
                validate_scope (b_scope data) (b_account data),
                raise_if (q_money (b_amount data) < 0) AmountNegative]
             of Some e \<Rightarrow> Inl e
              | None \<Rightarrow>
                  if normalize_budget data = normalize_budget existing then Inr (existing, db)
                  else
                    (case (if b_status data = Active then first_error
                        [sql_assert_no_overlap (budgets db) (b_scope data) (b_client data) (b_account data)
                           (b_start data) (b_end data) (Some budget_id),
                         sql_assert_allocation (budgets db) (b_scope data) (b_client data)
                           (q_money (b_amount data)) (b_start data) (b_end data) (b_status data) (Some budget_id)]
                        else None)
                     of Some e \<Rightarrow> Inl e
                      | None \<Rightarrow>
                          (case update_budget budget_id (\<lambda>r. patched_row now existing p) db of
                             Inl e \<Rightarrow> Inl e
                           | Inr db' \<Rightarrow>
                               Inr (patched_row now existing p,
                                 insert_history budget_id now (p_changed_by p) existing
                                   (patched_row now existing p) db')))))"

definition archived_row :: "timestamp \<Rightarrow> budget \<Rightarrow> budget" where
  "archived_row now r = r\<lparr>b_status := Archived, b_updated_at := now\<rparr>"

definition sql_archive :: "timestamp \<Rightarrow> uuid \<Rightarrow> budget_db \<Rightarrow> budget_error + (budget \<times> budget_db)" where
  "sql_archive now budget_id db =
     (case sql_get budget_id db of
        None \<Rightarrow> Inl BudgetNotFound
      | Some existing \<Rightarrow>
          Inr (archived_row now existing,
            db\<lparr>budgets := update_rows (\<lambda>r. b_id r = budget_id) (archived_row now) (budgets db)\<rparr>))"

subsection \<open>transfer\<close>

definition transfer_source_guards :: "transfer_request \<Rightarrow> rat \<Rightarrow> budget \<Rightarrow> budget_error option" where
  "transfer_source_guards p transfer_amount src =
     (let source_amount = q_money (b_amount src) in first_error
       [raise_if (b_scope src \<noteq> AccountScope \<or> b_account src = None) TransferNotAccountScope,
        raise_if (b_status src \<noteq> Active) SourceNotActive,
        raise_if (b_account src = Some (t_target_account p)) SameTargetAccount,
        raise_if (source_amount < 0) SourceAmountNegative,
        raise_if (transfer_amount > source_amount) TransferExceedsSource])"

definition find_account :: "uuid option \<Rightarrow> budget_db \<Rightarrow> account_row option" where
  "find_account i db = find (\<lambda>a. Some (ac_id a) = i) (ad_accounts db)"

definition transfer_tenant_guards :: "transfer_request \<Rightarrow> budget \<Rightarrow> budget_db \<Rightarrow> budget_error option" where
  "transfer_tenant_guards p src db =
     (let cur = str_upper (b_currency src) in first_error
       [(case find (\<lambda>c. cl_id c = b_client src) (clients db) of
           None \<Rightarrow> Some ClientNotActive
         | Some c \<Rightarrow> first_error
             [raise_if (cl_status c \<noteq> RowActive) ClientNotActive,
              raise_if (str_upper (cl_currency c) \<noteq> cur) SourceClientCurrency]),
        (case find_account (b_account src) db of
           None \<Rightarrow> Some SourceAccountNotActive
         | Some a \<Rightarrow> first_error
             [raise_if (ac_status a \<noteq> RowActive) SourceAccountNotActive,
              raise_if (ac_client a \<noteq> b_client src) SourceAccountForeign,
              raise_if (str_upper (ac_currency a) \<noteq> cur) SourceAccountCurrency]),
        (case find_account (Some (t_target_account p)) db of
           None \<Rightarrow> Some TargetAccountMissing
         | Some a \<Rightarrow> first_error
             [raise_if (ac_client a \<noteq> b_client src) TargetAccountForeign,
              raise_if (ac_status a \<noteq> RowActive) TargetAccountNotActive,
              raise_if (str_upper (ac_currency a) \<noteq> cur) TargetAccountCurrency])])"

definition transfer_target_row :: "budget list \<Rightarrow> budget \<Rightarrow> uuid \<Rightarrow> budget option" where
  "transfer_target_row rows src target_account = fetchone (sort_desc (\<lambda>r. (b_version r, b_updated_at r))
     (filter (\<lambda>r. b_status r = Active \<and> b_scope r = AccountScope \<and> b_client r = b_client src
        \<and> b_account r = Some target_account \<and> b_start r \<le> b_end src \<and> b_end r \<ge> b_start src) rows))"

text \<open>The values the two \<open>UPDATE\<close>s write: a new amount, the next version, the clock, the note.\<close>

definition moved_row :: "rat \<Rightarrow> timestamp \<Rightarrow> string option \<Rightarrow> budget \<Rightarrow> budget" where
  "moved_row amount now note r = r\<lparr>b_amount := amount, b_version := b_version r + 1,
     b_updated_at := now, b_note := (case note of None \<Rightarrow> b_note r | Some n \<Rightarrow> Some n)\<rparr>"

definition transfer_new_target :: "uuid \<Rightarrow> timestamp \<Rightarrow> rat \<Rightarrow> transfer_request \<Rightarrow> budget \<Rightarrow> budget" where
  "transfer_new_target new_id now transfer_amount p src =
     \<lparr>b_id = new_id, b_client = b_client src, b_scope = AccountScope,
      b_account = Some (t_target_account p), b_amount = transfer_amount,
      b_currency = b_currency src, b_period = b_period src, b_start = b_start src, b_end = b_end src,
      b_status = Active, b_version = 1, b_note = transfer_note (t_note p) (b_id src),
      b_created_by = t_changed_by p, b_created_at = now, b_updated_at = now\<rparr>"

text \<open>Crediting the target, after the source row has been updated in the same transaction.\<close>

definition sql_credit_target ::
  "uuid \<Rightarrow> timestamp \<Rightarrow> transfer_request \<Rightarrow> rat \<Rightarrow> budget \<Rightarrow> budget option \<Rightarrow> budget_db
     \<Rightarrow> budget_error + (budget \<times> budget_db)" where
  "sql_credit_target new_id now p transfer_amount src target_row db =
     (case target_row of
        Some tgt \<Rightarrow>
          (let target_amount = q_money (b_amount tgt);
               target_new_amount = q_money (target_amount + transfer_amount);
               updated = moved_row target_new_amount now (t_note p) tgt
           in case first_error
               [raise_if (str_upper (b_currency tgt) \<noteq> str_upper (b_currency src)) TargetBudgetCurrency,
                raise_if (target_amount < 0) TargetAmountNegative,
                sql_assert_allocation (budgets db) AccountScope (b_client src) target_new_amount
                  (b_start tgt) (b_end tgt) Active (Some (b_id tgt))]
              of Some e \<Rightarrow> Inl e
               | None \<Rightarrow>
                  (case update_budget (b_id tgt) (\<lambda>r. updated) db of
                     Inl e \<Rightarrow> Inl e
                   | Inr db' \<Rightarrow> Inr (updated, insert_history (b_id tgt) now (t_changed_by p) tgt updated db')))
      | None \<Rightarrow>
          (let row = transfer_new_target new_id now transfer_amount p src
           in case first_error
               [sql_assert_no_overlap (budgets db) AccountScope (b_client src) (Some (t_target_account p))
                  (b_start src) (b_end src) None,
                sql_assert_allocation (budgets db) AccountScope (b_client src) transfer_amount
                  (b_start src) (b_end src) Active None]
              of Some e \<Rightarrow> Inl e
               | None \<Rightarrow>
                  (case insert_budget row db of Inl e \<Rightarrow> Inl e | Inr db' \<Rightarrow> Inr (row, db'))))"

definition sql_transfer ::
  "uuid \<Rightarrow> timestamp \<Rightarrow> uuid \<Rightarrow> transfer_request \<Rightarrow> budget_db \<Rightarrow> budget_error + (transfer_response \<times> budget_db)" where
  "sql_transfer new_id now source_id p db =
     (let transfer_amount = q_money (t_amount p) in
      if transfer_amount \<le> 0 then Inl TransferNotPositive
      else case sql_get source_id db of
        None \<Rightarrow> Inl BudgetNotFound
      | Some src \<Rightarrow>
         (case first_error [transfer_source_guards p transfer_amount src, transfer_tenant_guards p src db] of
            Some e \<Rightarrow> Inl e
          | None \<Rightarrow>
             (let target_row = transfer_target_row (budgets db) src (t_target_account p);
                  new_source_amount = q_money (q_money (b_amount src) - transfer_amount);
                  source_updated = moved_row new_source_amount now (t_note p) src
              in if new_source_amount < 0 then Inl TransferMakesNegative
              else case update_budget source_id (\<lambda>r. source_updated) db of
                Inl e \<Rightarrow> Inl e
              | Inr db1 \<Rightarrow>
                 (case sql_credit_target new_id now p transfer_amount src target_row
                         (insert_history source_id now (t_changed_by p) src source_updated db1) of
                    Inl e \<Rightarrow> Inl e
                  | Inr (target_updated, db2) \<Rightarrow>
                      Inr (\<lparr>source_budget = source_updated, target_budget = target_updated,
                            transferred_amount = transfer_amount\<rparr>,
                        insert_transfer source_id (b_id target_updated) transfer_amount (t_note p)
                          (t_changed_by p) now db2)))))"

subsection \<open>Reads\<close>

definition sql_history :: "uuid \<Rightarrow> budget_db \<Rightarrow> budget_history list" where
  "sql_history budget_id db = sort_desc (\<lambda>h. (h_changed_at h, h_id h))
     (filter (\<lambda>h. h_budget h = budget_id) (history db))"

definition sql_list_transfers :: "uuid \<Rightarrow> string \<Rightarrow> int \<Rightarrow> budget_db \<Rightarrow> budget_transfer list" where
  "sql_list_transfers budget_id direction limit db =
     (let safe_limit = max 1 (min limit 200);
          direction' = (if direction \<notin> {''all'', ''incoming'', ''outgoing''} then ''all'' else direction)
      in take (nat safe_limit) (sort_desc (\<lambda>t. (x_created_at t, x_id t))
           (filter (\<lambda>t. if direction' = ''incoming'' then x_target t = budget_id
              else if direction' = ''outgoing'' then x_source t = budget_id
              else x_source t = budget_id \<or> x_target t = budget_id) (transfers db))))"

definition effective_key :: "budget \<Rightarrow> int \<times> timestamp" where
  "effective_key r = (b_version r, b_updated_at r)"

definition sql_resolve_effective ::
  "uuid option \<Rightarrow> uuid option \<Rightarrow> date \<Rightarrow> date \<Rightarrow> budget_db \<Rightarrow> budget option" where
  "sql_resolve_effective client_id account_id period_start period_end db =
     (case client_id of None \<Rightarrow> None
      | Some cl \<Rightarrow>
         (let client_budget = fetchone (sort_desc effective_key (filter (\<lambda>r. b_status r = Active
                \<and> b_scope r = ClientScope \<and> b_client r = cl \<and> b_end r \<ge> period_start
                \<and> b_start r \<le> period_end) (budgets db)))
          in case account_id of None \<Rightarrow> client_budget
           | Some a \<Rightarrow>
              (case fetchone (sort_desc effective_key (filter (\<lambda>r. b_status r = Active
                 \<and> b_scope r = AccountScope \<and> b_client r = cl \<and> b_account r = Some a
                 \<and> b_end r \<ge> period_start \<and> b_start r \<le> period_end) (budgets db))) of
                 Some r \<Rightarrow> Some r
               | None \<Rightarrow> client_budget)))"

end
