(* ===== verification/Budget_Invariants.thy ===== *)
theory Budget_Invariants
  imports Budget_Sqlite
begin

text \<open>
  What the \<open>budgets\<close> table promises between transactions: unique ids, well-formed rows, no
  two active budgets of one slot (a client, or an advertising account) with overlapping
  periods, and no client budget smaller than the account budgets allocated inside its period.
  Every write of the store is one \<open>put_row\<close>; the lemmas here say which checks make it
  keep the promise.
\<close>

section \<open>The invariant\<close>

definition row_wf :: "budget \<Rightarrow> bool" where
  "row_wf r \<longleftrightarrow> 0 \<le> b_amount r \<and> cents (b_amount r) \<and> b_start r \<le> b_end r
     \<and> (b_scope r = ClientScope \<longleftrightarrow> b_account r = None)"

definition same_slot :: "budget \<Rightarrow> budget \<Rightarrow> bool" where
  "same_slot a b \<longleftrightarrow> b_scope a = b_scope b \<and>
     (if b_scope a = ClientScope then b_client a = b_client b else b_account a = b_account b)"

definition no_overlap :: "budget list \<Rightarrow> bool" where
  "no_overlap rows \<longleftrightarrow> (\<forall>a \<in> set rows. \<forall>b \<in> set rows.
     b_id a \<noteq> b_id b \<longrightarrow> b_status a = Active \<longrightarrow> b_status b = Active \<longrightarrow> same_slot a b
       \<longrightarrow> \<not> date_overlap (b_start a) (b_end a) (b_start b) (b_end b))"

definition allocated :: "budget list \<Rightarrow> budget \<Rightarrow> rat" where
  "allocated rows c =
     sum_list (map b_amount (account_rows rows (b_client c) (b_start c) (b_end c) None))"

definition within_caps :: "budget list \<Rightarrow> bool" where
  "within_caps rows \<longleftrightarrow> (\<forall>c \<in> set rows.
     b_status c = Active \<and> b_scope c = ClientScope \<longrightarrow> allocated rows c \<le> b_amount c)"

definition budget_inv :: "budget list \<Rightarrow> bool" where
  "budget_inv rows \<longleftrightarrow> distinct (map b_id rows) \<and> (\<forall>r \<in> set rows. row_wf r)
     \<and> no_overlap rows \<and> within_caps rows"

lemma budget_inv_Nil [simp]: "budget_inv []"
  by (simp add: budget_inv_def no_overlap_def within_caps_def)

lemma budget_invD:
  assumes "budget_inv rows"
  shows "distinct (map b_id rows)" "no_overlap rows" "within_caps rows"
    "\<And>r. r \<in> set rows \<Longrightarrow> row_wf r"
  using assms by (auto simp: budget_inv_def)

section \<open>put_row\<close>

definition rows_except :: "uuid \<Rightarrow> budget list \<Rightarrow> budget list" where
  "rows_except i rows = filter (\<lambda>r. b_id r \<noteq> i) rows"

definition put_row :: "budget \<Rightarrow> budget list \<Rightarrow> budget list" where
  "put_row r rows = (if b_id r \<in> b_id ` set rows
     then update_rows (\<lambda>x. b_id x = b_id r) (\<lambda>_. r) rows else rows @ [r])"

lemma rows_except_fresh: "i \<notin> b_id ` set rows \<Longrightarrow> rows_except i rows = rows"
  by (auto simp: rows_except_def filter_id_conv)

lemma set_rows_except [simp]: "set (rows_except i rows) = {r \<in> set rows. b_id r \<noteq> i}"
  by (simp add: rows_except_def)

lemma set_put_row [table_simps]: "set (put_row r rows) = insert r (set (rows_except (b_id r) rows))"
  by (auto simp: put_row_def set_update_rows image_iff)

lemma map_id_put_row [table_simps]:
  "map b_id (put_row r rows) = (if b_id r \<in> b_id ` set rows then map b_id rows else map b_id rows @ [b_id r])"
  by (simp add: put_row_def update_rows_def)

lemma distinct_put_row [table_simps]:
  "distinct (map b_id rows) \<Longrightarrow> distinct (map b_id (put_row r rows))"
  by (simp add: map_id_put_row)

lemma put_row_update:
  "distinct (map b_id rows) \<Longrightarrow> x \<in> set rows \<Longrightarrow> b_id x = i \<Longrightarrow> b_id r = i \<Longrightarrow>
     update_rows (\<lambda>x. b_id x = i) (\<lambda>_. r) rows = put_row r rows"
  by (auto simp: put_row_def)

lemma sum_filter_put_row:
  fixes f :: "budget \<Rightarrow> rat"
  assumes "distinct (map b_id rows)"
  shows "sum_list (map f (filter P (put_row r rows)))
     = sum_list (map f (filter P (rows_except (b_id r) rows))) + (if P r then f r else 0)"
proof (cases "b_id r \<in> b_id ` set rows")
  case False
  then show ?thesis by (simp add: put_row_def rows_except_fresh)
next
  case True
  have "sum_list (map f (filter P (update_rows (\<lambda>x. b_id x = b_id r) (\<lambda>_. r) rows)))
     = sum_list (map f (filter P (rows_except (b_id r) rows))) + (if P r then f r else 0)"
    using assms True
  proof (induction rows)
    case (Cons x xs)
    show ?case
    proof (cases "b_id x = b_id r")
      case True
      then have "b_id r \<notin> b_id ` set xs" using Cons.prems(1) by auto
      then have "update_rows (\<lambda>x. b_id x = b_id r) (\<lambda>_. r) xs = xs" "rows_except (b_id r) xs = xs"
        by (auto intro!: update_rows_id rows_except_fresh simp: image_iff)
      with True show ?thesis by (simp add: rows_except_def)
    next
      case False
      with Cons show ?thesis by (simp add: rows_except_def)
    qed
  qed simp
  with True show ?thesis by (simp add: put_row_def)
qed

text \<open>The total money in the table, and what a row contributes to it.\<close>

definition total_amount :: "budget list \<Rightarrow> rat" where
  "total_amount rows = sum_list (map b_amount rows)"

lemma total_put_row:
  assumes "distinct (map b_id rows)"
  shows "total_amount (put_row r rows) = total_amount (rows_except (b_id r) rows) + b_amount r"
  using sum_filter_put_row [OF assms, of b_amount "\<lambda>_. True" r] by (simp add: total_amount_def)

lemma total_except:
  assumes "distinct (map b_id rows)" and "r \<in> set rows"
  shows "total_amount rows = total_amount (rows_except (b_id r) rows) + b_amount r"
proof -
  have "put_row r rows = rows"
  proof -
    have "update_rows (\<lambda>x. b_id x = b_id r) (\<lambda>_. r) rows = map (\<lambda>x. x) rows"
      unfolding update_rows_def using assms
      by (intro map_cong) (auto simp: distinct_map dest: inj_onD)
    then show ?thesis using assms(2) by (auto simp: put_row_def)
  qed
  then show ?thesis using total_put_row [OF assms(1), of r] by simp
qed

section \<open>The checks\<close>

lemma account_rows_except:
  "account_rows rows cl s e (Some i) = account_rows (rows_except i rows) cl s e None"
  by (auto simp: account_rows_def rows_except_def not_excluded_def intro!: filter_cong)

lemma amount_total_cents:
  "(\<And>r. r \<in> set rows \<Longrightarrow> cents (b_amount r)) \<Longrightarrow> amount_total rows = sum_list (map b_amount rows)"
proof -
  assume c: "\<And>r. r \<in> set rows \<Longrightarrow> cents (b_amount r)"
  have "map (\<lambda>r. q_money (b_amount r)) rows = map b_amount rows"
    using c by (intro map_cong) auto
  moreover have "cents (sum_list (map b_amount rows))" using c by (auto intro!: cents_sum_list)
  ultimately show ?thesis unfolding amount_total_def by (simp only: q_money_cents)
qed

lemma overlap_rows_empty:
  assumes "sql_assert_no_overlap rows (b_scope r) (b_client r) (b_account r) (b_start r) (b_end r) excl = None"
    and "row_wf r" and "x \<in> set rows" and "excl \<noteq> Some (b_id x)"
    and "b_status x = Active" and "same_slot x r"
  shows "\<not> date_overlap (b_start x) (b_end x) (b_start r) (b_end r)"
proof -
  have empty: "overlap_rows rows (b_scope r) (b_client r) (b_account r) (b_start r) (b_end r) excl = []"
    using assms(1) by (simp add: sql_assert_no_overlap_def)
  show ?thesis
  proof (cases "b_scope r")
    case ClientScope
    with empty assms(3-6) show ?thesis
      by (auto simp: overlap_rows_def same_slot_def not_excluded_def date_overlap_def filter_empty_conv)
  next
    case AccountScope
    with empty assms show ?thesis
      by (auto simp: overlap_rows_def same_slot_def not_excluded_def date_overlap_def filter_empty_conv row_wf_def)
  qed
qed

lemma allocation_client:
  assumes "sql_assert_allocation rows ClientScope cl amt s e Active excl = None"
    and "\<And>x. x \<in> set rows \<Longrightarrow> cents (b_amount x)" and "cents amt"
  shows "sum_list (map b_amount (account_rows rows cl s e excl)) \<le> amt"
proof -
  have "amount_total (account_rows rows cl s e excl) = sum_list (map b_amount (account_rows rows cl s e excl))"
    using assms(2) by (intro amount_total_cents) (auto simp: account_rows_def)
  with assms(1,3) show ?thesis by (simp add: sql_assert_allocation_def Let_def)
qed

lemma allocation_account:
  assumes "sql_assert_allocation rows AccountScope cl amt s e Active excl = None"
    and "\<And>x. x \<in> set rows \<Longrightarrow> cents (b_amount x)" and "cents amt"
    and "c \<in> set rows" "b_status c = Active" "b_scope c = ClientScope" "b_client c = cl"
    and "b_start c \<le> e" "s \<le> b_end c"
  shows "sum_list (map b_amount (account_rows rows cl (b_start c) (b_end c) excl)) + amt \<le> b_amount c"
proof -
  have "c \<in> set (client_cap_rows rows cl s e)" using assms(4-9) by (simp add: client_cap_rows_def)
  with assms(1) have "cap_check rows cl amt excl c = None"
    by (auto simp: sql_assert_allocation_def first_error_None)
  moreover have "amount_total (account_rows rows cl (b_start c) (b_end c) excl)
     = sum_list (map b_amount (account_rows rows cl (b_start c) (b_end c) excl))"
    using assms(2) by (intro amount_total_cents) (auto simp: account_rows_def)
  ultimately show ?thesis using assms(2) [OF assms(4)] assms(3) by (simp add: cap_check_def Let_def)
qed

section \<open>Keeping the invariant\<close>

lemma allocated_put_row:
  assumes "distinct (map b_id rows)"
  shows "allocated (put_row r rows) c = allocated (rows_except (b_id r) rows) c
    + (if b_status r = Active \<and> b_scope r = AccountScope \<and> b_client r = b_client c
         \<and> b_start r \<le> b_end c \<and> b_end r \<ge> b_start c then b_amount r else 0)"
  unfolding allocated_def account_rows_def not_excluded_def
  by (simp add: sum_filter_put_row [OF assms])

lemma allocated_mono:
  assumes "\<forall>x \<in> set rows. 0 \<le> b_amount x"
  shows "allocated (rows_except i rows) c \<le> allocated rows c"
  using assms unfolding allocated_def account_rows_def rows_except_def not_excluded_def
  by (induction rows) (auto intro: add_increasing)

lemma put_row_inv:
  assumes inv: "budget_inv rows" and wf: "row_wf r"
    and overlap: "\<And>x. x \<in> set rows \<Longrightarrow> b_id x \<noteq> b_id r \<Longrightarrow> b_status x = Active \<Longrightarrow> b_status r = Active
        \<Longrightarrow> same_slot x r \<Longrightarrow> \<not> date_overlap (b_start x) (b_end x) (b_start r) (b_end r)"
    and client: "b_status r = Active \<Longrightarrow> b_scope r = ClientScope \<Longrightarrow> allocated (rows_except (b_id r) rows) r \<le> b_amount r"
    and account: "\<And>c. c \<in> set rows \<Longrightarrow> b_id c \<noteq> b_id r \<Longrightarrow> b_status c = Active \<Longrightarrow> b_scope c = ClientScope
        \<Longrightarrow> b_status r = Active \<Longrightarrow> b_scope r = AccountScope \<Longrightarrow> b_client c = b_client r
        \<Longrightarrow> b_start c \<le> b_end r \<Longrightarrow> b_start r \<le> b_end c
        \<Longrightarrow> allocated (rows_except (b_id r) rows) c + b_amount r \<le> b_amount c"
  shows "budget_inv (put_row r rows)"
proof -
  note d = budget_invD(1) [OF inv] and no = budget_invD(2) [OF inv] and caps = budget_invD(3) [OF inv]
  have nonneg: "\<forall>x \<in> set rows. 0 \<le> b_amount x"
    using budget_invD(4) [OF inv] by (simp add: row_wf_def)
  have "no_overlap (put_row r rows)"
    unfolding no_overlap_def
  proof (intro ballI impI)
    fix a b
    assume ab: "a \<in> set (put_row r rows)" "b \<in> set (put_row r rows)" "b_id a \<noteq> b_id b"
      "b_status a = Active" "b_status b = Active" "same_slot a b"
    then consider "a = r" "b \<in> set rows" "b_id b \<noteq> b_id r" | "b = r" "a \<in> set rows" "b_id a \<noteq> b_id r"
      | "a \<in> set rows" "b \<in> set rows" by (auto simp: set_put_row)
    then show "\<not> date_overlap (b_start a) (b_end a) (b_start b) (b_end b)"
    proof cases
      case 1
      have "same_slot b a" using ab(6) by (auto simp: same_slot_def split: if_splits)
      with 1 ab overlap [of b] show ?thesis by (auto simp: date_overlap_sym)
    next
      case 2
      with ab overlap [of a] show ?thesis by auto
    next
      case 3
      with ab no show ?thesis unfolding no_overlap_def by blast
    qed
  qed
  moreover have "within_caps (put_row r rows)"
    unfolding within_caps_def
  proof (intro ballI impI)
    fix c
    assume c: "c \<in> set (put_row r rows)" "b_status c = Active \<and> b_scope c = ClientScope"
    show "allocated (put_row r rows) c \<le> b_amount c"
    proof (cases "c = r")
      case True
      with c client show ?thesis by (simp add: allocated_put_row [OF d])
    next
      case False
      with c have cr: "c \<in> set rows" "b_id c \<noteq> b_id r" by (auto simp: set_put_row)
      have "allocated (rows_except (b_id r) rows) c \<le> b_amount c"
        using caps cr(1) c(2) allocated_mono [OF nonneg, where i = "b_id r" and c = c]
        unfolding within_caps_def by force
      with account [OF cr] c(2) show ?thesis by (auto simp: allocated_put_row [OF d])
    qed
  qed
  ultimately show ?thesis
    using distinct_put_row [OF d] wf budget_invD(4) [OF inv]
    by (auto simp: budget_inv_def set_put_row)
qed

text \<open>The checks \<open>create\<close>, \<open>patch\<close> and \<open>transfer\<close> run are enough.\<close>

lemma put_row_checked:
  assumes inv: "budget_inv rows" and wf: "row_wf r"
    and excl: "excl = Some (b_id r) \<or> excl = None \<and> b_id r \<notin> b_id ` set rows"
    and no: "b_status r = Active \<Longrightarrow>
        sql_assert_no_overlap rows (b_scope r) (b_client r) (b_account r) (b_start r) (b_end r) excl = None"
    and alloc: "b_status r = Active \<Longrightarrow>
        sql_assert_allocation rows (b_scope r) (b_client r) (b_amount r) (b_start r) (b_end r) Active excl = None"
  shows "budget_inv (put_row r rows)"
proof (rule put_row_inv [OF inv wf])
  have cents: "\<And>x. x \<in> set rows \<Longrightarrow> cents (b_amount x)" and rc: "cents (b_amount r)"
    using budget_invD(4) [OF inv] wf by (auto simp: row_wf_def)
  have ar: "account_rows rows cl s e excl = account_rows (rows_except (b_id r) rows) cl s e None" for cl s e
    using excl by (auto simp: account_rows_except rows_except_fresh)
  fix x
  assume "x \<in> set rows" "b_id x \<noteq> b_id r" "b_status x = Active" "b_status r = Active" "same_slot x r"
  moreover from this excl have "excl \<noteq> Some (b_id x)" by auto
  ultimately show "\<not> date_overlap (b_start x) (b_end x) (b_start r) (b_end r)"
    using overlap_rows_empty [OF no wf] by blast
next
  have cents: "\<And>x. x \<in> set rows \<Longrightarrow> cents (b_amount x)" and rc: "cents (b_amount r)"
    using budget_invD(4) [OF inv] wf by (auto simp: row_wf_def)
  have ar: "account_rows rows cl s e excl = account_rows (rows_except (b_id r) rows) cl s e None" for cl s e
    using excl by (auto simp: account_rows_except rows_except_fresh)
  { assume "b_status r = Active" "b_scope r = ClientScope"
    with alloc allocation_client [OF _ cents rc]
    show "allocated (rows_except (b_id r) rows) r \<le> b_amount r" by (simp add: allocated_def ar [symmetric]) }
  { fix c
    assume "c \<in> set rows" "b_id c \<noteq> b_id r" "b_status c = Active" "b_scope c = ClientScope"
      "b_status r = Active" "b_scope r = AccountScope" "b_client c = b_client r"
      "b_start c \<le> b_end r" "b_start r \<le> b_end c"
    with alloc allocation_account [OF _ cents rc]
    show "allocated (rows_except (b_id r) rows) c + b_amount r \<le> b_amount c"
      by (simp add: allocated_def ar [symmetric]) }
qed

text \<open>Lowering an amount, or archiving, needs no check.\<close>

lemma put_row_shrink:
  assumes inv: "budget_inv rows" and old: "old \<in> set rows" and wf: "row_wf r"
    and same: "b_id r = b_id old" "b_scope r = b_scope old" "b_client r = b_client old"
      "b_account r = b_account old" "b_start r = b_start old" "b_end r = b_end old"
    and st: "b_status r = Archived \<or> b_status r = b_status old \<and> b_scope r = AccountScope \<and> b_amount r \<le> b_amount old"
  shows "budget_inv (put_row r rows)"
proof (rule put_row_inv [OF inv wf])
  fix x
  assume x: "x \<in> set rows" "b_id x \<noteq> b_id r" "b_status x = Active" "b_status r = Active" "same_slot x r"
  have "same_slot x old" using x(5) same by (simp add: same_slot_def)
  with x st same old budget_invD(2) [OF inv]
  show "\<not> date_overlap (b_start x) (b_end x) (b_start r) (b_end r)"
    unfolding no_overlap_def by auto
next
  assume "b_status r = Active" "b_scope r = ClientScope"
  with st show "allocated (rows_except (b_id r) rows) r \<le> b_amount r" by simp
next
  fix c
  assume c: "c \<in> set rows" "b_id c \<noteq> b_id r" "b_status c = Active" "b_scope c = ClientScope"
      "b_status r = Active" "b_scope r = AccountScope" "b_client c = b_client r"
      "b_start c \<le> b_end r" "b_start r \<le> b_end c"
  note d = budget_invD(1) [OF inv]
  have put: "put_row old rows = rows"
  proof -
    have "update_rows (\<lambda>x. b_id x = b_id old) (\<lambda>_. old) rows = map (\<lambda>x. x) rows"
      unfolding update_rows_def using d old by (intro map_cong) (auto simp: distinct_map dest: inj_onD)
    then show ?thesis using old by (auto simp: put_row_def)
  qed
  have "allocated rows c = allocated (rows_except (b_id old) rows) c + b_amount old"
    using allocated_put_row [OF d, of old c] c st same by (simp add: put)
  moreover have "allocated rows c \<le> b_amount c"
    using budget_invD(3) [OF inv] c unfolding within_caps_def by blast
  ultimately show "allocated (rows_except (b_id r) rows) c + b_amount r \<le> b_amount c"
    using c st same by simp
qed

text \<open>Raising an amount in place needs the allocation check only.\<close>

lemma put_row_raise:
  assumes inv: "budget_inv rows" and old: "old \<in> set rows" and wf: "row_wf r"
    and same: "b_id r = b_id old" "b_scope r = b_scope old" "b_client r = b_client old"
      "b_account r = b_account old" "b_start r = b_start old" "b_end r = b_end old"
      "b_status r = b_status old" "b_scope r = AccountScope"
    and alloc: "sql_assert_allocation rows AccountScope (b_client r) (b_amount r) (b_start r) (b_end r)
        Active (Some (b_id r)) = None"
  shows "budget_inv (put_row r rows)"
proof (rule put_row_inv [OF inv wf])
  fix x
  assume x: "x \<in> set rows" "b_id x \<noteq> b_id r" "b_status x = Active" "b_status r = Active" "same_slot x r"
  have "same_slot x old" using x(5) same by (simp add: same_slot_def)
  with x same old budget_invD(2) [OF inv]
  show "\<not> date_overlap (b_start x) (b_end x) (b_start r) (b_end r)"
    unfolding no_overlap_def by auto
next
  assume "b_scope r = ClientScope"
  with same show "allocated (rows_except (b_id r) rows) r \<le> b_amount r" by simp
next
  have cents: "\<And>x. x \<in> set rows \<Longrightarrow> cents (b_amount x)" and rc: "cents (b_amount r)"
    using budget_invD(4) [OF inv] wf by (auto simp: row_wf_def)
  fix c
  assume "c \<in> set rows" "b_id c \<noteq> b_id r" "b_status c = Active" "b_scope c = ClientScope"
      "b_status r = Active" "b_scope r = AccountScope" "b_client c = b_client r"
      "b_start c \<le> b_end r" "b_start r \<le> b_end c"
  with allocation_account [OF alloc cents rc]
  show "allocated (rows_except (b_id r) rows) c + b_amount r \<le> b_amount c"
    by (simp add: allocated_def account_rows_except [symmetric])
qed

end
