(* ===== verification/Budget_Safety.thy ===== *)
theory Budget_Safety
  imports Budget_Invariants
begin

text \<open>
  The operations of \<open>SqliteBudgetStore\<close> against the table invariant: what each of them
  writes, that every transaction keeps the invariant, that a transfer moves money without
  creating or losing any, and the version and history discipline of \<open>patch\<close>.
\<close>

section \<open>What the operations write\<close>

lemma insert_budgetD:
  assumes "insert_budget r db = Inr db'"
  shows "db' = db\<lparr>budgets := put_row r (budgets db)\<rparr>" "b_id r \<notin> b_id ` set (budgets db)" "row_ok r"
  using assms by (auto simp: insert_budget_def put_row_def split: if_splits)

lemma update_budgetD:
  assumes "update_budget i (\<lambda>_. r) db = Inr db'" and "distinct (map b_id (budgets db))"
    and "old \<in> set (budgets db)" and "b_id old = i" and "b_id r = i"
  shows "db' = db\<lparr>budgets := put_row r (budgets db)\<rparr>" "row_ok r"
proof -
  show "row_ok r" using assms by (auto simp: update_budget_def split: if_splits)
  show "db' = db\<lparr>budgets := put_row r (budgets db)\<rparr>"
    using assms put_row_update [OF assms(2,3), of i r] by (auto simp: update_budget_def split: if_splits)
qed

lemma sql_getD: "sql_get i db = Some r \<Longrightarrow> r \<in> set (budgets db) \<and> b_id r = i"
  by (auto simp: sql_get_def find_Some_iff)

lemma insert_history_simps [simp]:
  "budgets (insert_history i now cb pv nv db) = budgets db"
  "transfers (insert_history i now cb pv nv db) = transfers db"
  "clients (insert_history i now cb pv nv db) = clients db"
  "ad_accounts (insert_history i now cb pv nv db) = ad_accounts db"
  "length (history (insert_history i now cb pv nv db)) = Suc (length (history db))"
  by (simp_all add: insert_history_def)

lemma insert_transfer_simps [simp]:
  "budgets (insert_transfer s t a n cb now db) = budgets db"
  "history (insert_transfer s t a n cb now db) = history db"
  "length (transfers (insert_transfer s t a n cb now db)) = Suc (length (transfers db))"
  by (simp_all add: insert_transfer_def)

lemma sql_createD:
  assumes "sql_create i now p db = Inr (r, db')"
  shows "r = new_budget_row i now p" "db' = db\<lparr>budgets := put_row r (budgets db)\<rparr>"
    "i \<notin> b_id ` set (budgets db)" "c_start p \<le> c_end p"
    "sql_assert_no_overlap (budgets db) (c_scope p) (c_client p) (c_account p) (c_start p) (c_end p) None = None"
    "sql_assert_allocation (budgets db) (c_scope p) (c_client p) (c_amount p) (c_start p) (c_end p) Active None = None"
proof -
  have g: "c_start p \<le> c_end p"
    "sql_assert_no_overlap (budgets db) (c_scope p) (c_client p) (c_account p) (c_start p) (c_end p) None = None"
    "sql_assert_allocation (budgets db) (c_scope p) (c_client p) (c_amount p) (c_start p) (c_end p) Active None = None"
    and r: "r = new_budget_row i now p" and ins: "insert_budget r db = Inr db'"
    using assms by (auto simp: sql_create_def guard_simps split: option.splits sum.splits)
  show "r = new_budget_row i now p" by (rule r)
  show "db' = db\<lparr>budgets := put_row r (budgets db)\<rparr>" by (rule insert_budgetD(1) [OF ins])
  show "i \<notin> b_id ` set (budgets db)" using insert_budgetD(2) [OF ins] r by (simp add: new_budget_row_def)
  show "c_start p \<le> c_end p" by (rule g(1))
  show "sql_assert_no_overlap (budgets db) (c_scope p) (c_client p) (c_account p) (c_start p) (c_end p) None = None"
    by (rule g(2))
  show "sql_assert_allocation (budgets db) (c_scope p) (c_client p) (c_amount p) (c_start p) (c_end p) Active None = None"
    by (rule g(3))
qed

text \<open>A patch either leaves the database alone or writes one row and one history row.\<close>

lemma sql_patch_cases:
  assumes "sql_patch now i p db = Inr (r, db')" and "distinct (map b_id (budgets db))"
  obtains (noop) "sql_get i db = Some r" "db' = db"
      "patch_empty p \<or> normalize_budget (merge_patch r p) = normalize_budget r"
    | (written) old where "sql_get i db = Some old" "r = patched_row now old p"
      "normalize_budget (merge_patch old p) \<noteq> normalize_budget old"
      "db' = insert_history i now (p_changed_by p) old r (db\<lparr>budgets := put_row r (budgets db)\<rparr>)"
      "b_start r \<le> b_end r" "b_scope r = ClientScope \<longleftrightarrow> b_account r = None" "0 \<le> b_amount r"
      "b_status r = Active \<Longrightarrow> sql_assert_no_overlap (budgets db) (b_scope r) (b_client r) (b_account r)
           (b_start r) (b_end r) (Some i) = None"
      "b_status r = Active \<Longrightarrow> sql_assert_allocation (budgets db) (b_scope r) (b_client r) (b_amount r)
           (b_start r) (b_end r) Active (Some i) = None"
proof -
  obtain old where old: "sql_get i db = Some old"
    using assms(1) by (auto simp: sql_patch_def split: option.splits)
  let ?m = "merge_patch old p" and ?r = "patched_row now old p"
  show ?thesis
  proof (cases "patch_empty p \<or> normalize_budget ?m = normalize_budget old")
    case True
    then have "r = old \<and> db' = db" using assms(1) old
      by (auto simp: sql_patch_def Let_def split: option.splits if_splits)
    with True old noop show ?thesis by auto
  next
    case False
    have id: "b_id ?r = i" using sql_getD [OF old] by (simp add: patched_row_def)
    have f: "b_scope ?r = b_scope ?m" "b_client ?r = b_client ?m" "b_account ?r = b_account ?m"
      "b_start ?r = b_start ?m" "b_end ?r = b_end ?m" "b_status ?r = b_status ?m"
      "b_amount ?r = q_money (b_amount ?m)" by (simp_all add: patched_row_def)
    have g: "first_error [validate_period (b_start ?m) (b_end ?m), validate_scope (b_scope ?m) (b_account ?m),
        raise_if (q_money (b_amount ?m) < 0) AmountNegative] = None"
      and c: "(if b_status ?m = Active then first_error
          [sql_assert_no_overlap (budgets db) (b_scope ?m) (b_client ?m) (b_account ?m) (b_start ?m) (b_end ?m) (Some i),
           sql_assert_allocation (budgets db) (b_scope ?m) (b_client ?m) (q_money (b_amount ?m))
             (b_start ?m) (b_end ?m) (b_status ?m) (Some i)] else None) = None"
      and u: "\<exists>db1. update_budget i (\<lambda>_. ?r) db = Inr db1 \<and> r = ?r
           \<and> db' = insert_history i now (p_changed_by p) old ?r db1"
      using assms(1) old False by (auto simp: sql_patch_def Let_def split: option.splits sum.splits)
    from u obtain db1 where db1: "update_budget i (\<lambda>_. ?r) db = Inr db1" and r: "r = ?r"
      and db': "db' = insert_history i now (p_changed_by p) old ?r db1" by blast
    have "db1 = db\<lparr>budgets := put_row ?r (budgets db)\<rparr>"
      using update_budgetD(1) [OF db1 assms(2)] sql_getD [OF old] id by blast
    with False g c r db' old show ?thesis
      by (intro written [of old]) (auto simp: f guard_simps split: if_splits)
  qed
qed

lemma sql_archiveD:
  assumes "sql_archive now i db = Inr (r, db')" and "distinct (map b_id (budgets db))"
  obtains old where "sql_get i db = Some old" "r = archived_row now old"
    "db' = db\<lparr>budgets := put_row r (budgets db)\<rparr>"
proof -
  obtain old where old: "sql_get i db = Some old" and r: "r = archived_row now old"
    and db': "db' = db\<lparr>budgets := update_rows (\<lambda>x. b_id x = i) (archived_row now) (budgets db)\<rparr>"
    using assms(1) by (auto simp: sql_archive_def split: option.splits)
  from sql_getD [OF old] have o: "old \<in> set (budgets db)" "b_id old = i" by auto
  have "update_rows (\<lambda>x. b_id x = i) (archived_row now) (budgets db)
      = update_rows (\<lambda>x. b_id x = i) (\<lambda>_. r) (budgets db)"
    unfolding update_rows_def r using assms(2) o by (intro map_cong) (auto simp: distinct_map dest: inj_onD)
  also have "\<dots> = put_row r (budgets db)"
    using put_row_update [OF assms(2) o] o(2) by (simp add: r archived_row_def)
  finally show ?thesis using that [OF old r] db' by simp
qed

section \<open>transfer\<close>

lemma transfer_target_rowD:
  assumes "transfer_target_row rows src acc = Some tgt"
  shows "tgt \<in> set rows" "b_status tgt = Active" "b_scope tgt = AccountScope" "b_client tgt = b_client src"
    "b_account tgt = Some acc" "b_start tgt \<le> b_end src" "b_start src \<le> b_end tgt"
  using fetchone_sort_desc_mem [OF assms [unfolded transfer_target_row_def]] by auto

lemma transfer_source_guards_None:
  "transfer_source_guards p a src = None \<longleftrightarrow> b_scope src = AccountScope \<and> b_account src \<noteq> None
     \<and> b_status src = Active \<and> b_account src \<noteq> Some (t_target_account p)
     \<and> 0 \<le> q_money (b_amount src) \<and> a \<le> q_money (b_amount src)"
  by (auto simp: transfer_source_guards_def Let_def guard_simps)

lemma moved_row_simps [simp]:
  "b_id (moved_row a now n r) = b_id r" "b_client (moved_row a now n r) = b_client r"
  "b_scope (moved_row a now n r) = b_scope r" "b_account (moved_row a now n r) = b_account r"
  "b_start (moved_row a now n r) = b_start r" "b_end (moved_row a now n r) = b_end r"
  "b_status (moved_row a now n r) = b_status r" "b_amount (moved_row a now n r) = a"
  "b_version (moved_row a now n r) = b_version r + 1" "b_currency (moved_row a now n r) = b_currency r"
  by (simp_all add: moved_row_def)

lemma new_target_simps [simp]:
  "b_id (transfer_new_target i now a p src) = i" "b_client (transfer_new_target i now a p src) = b_client src"
  "b_scope (transfer_new_target i now a p src) = AccountScope"
  "b_account (transfer_new_target i now a p src) = Some (t_target_account p)"
  "b_start (transfer_new_target i now a p src) = b_start src" "b_end (transfer_new_target i now a p src) = b_end src"
  "b_status (transfer_new_target i now a p src) = Active" "b_amount (transfer_new_target i now a p src) = a"
  by (simp_all add: transfer_new_target_def)

lemma sql_credit_targetD:
  assumes "sql_credit_target new_id now p amt src target_row db = Inr (t, db')"
    and "distinct (map b_id (budgets db))"
    and "\<And>tgt. target_row = Some tgt \<Longrightarrow> tgt \<in> set (budgets db)"
  shows "budgets db' = put_row t (budgets db)" "transfers db' = transfers db"
    "length (history db') = length (history db) + (if target_row = None then 0 else 1)"
    "case target_row of
       Some tgt \<Rightarrow> t = moved_row (q_money (q_money (b_amount tgt) + amt)) now (t_note p) tgt
         \<and> 0 \<le> q_money (b_amount tgt)
         \<and> sql_assert_allocation (budgets db) AccountScope (b_client src) (b_amount t)
              (b_start tgt) (b_end tgt) Active (Some (b_id tgt)) = None
     | None \<Rightarrow> t = transfer_new_target new_id now amt p src \<and> new_id \<notin> b_id ` set (budgets db)
         \<and> sql_assert_no_overlap (budgets db) AccountScope (b_client src) (Some (t_target_account p))
              (b_start src) (b_end src) None = None
         \<and> sql_assert_allocation (budgets db) AccountScope (b_client src) amt
              (b_start src) (b_end src) Active None = None"
proof -
  have "budgets db' = put_row t (budgets db) \<and> transfers db' = transfers db
    \<and> length (history db') = length (history db) + (if target_row = None then 0 else 1)
    \<and> (case target_row of
       Some tgt \<Rightarrow> t = moved_row (q_money (q_money (b_amount tgt) + amt)) now (t_note p) tgt
         \<and> 0 \<le> q_money (b_amount tgt)
         \<and> sql_assert_allocation (budgets db) AccountScope (b_client src) (b_amount t)
              (b_start tgt) (b_end tgt) Active (Some (b_id tgt)) = None
     | None \<Rightarrow> t = transfer_new_target new_id now amt p src \<and> new_id \<notin> b_id ` set (budgets db)
         \<and> sql_assert_no_overlap (budgets db) AccountScope (b_client src) (Some (t_target_account p))
              (b_start src) (b_end src) None = None
         \<and> sql_assert_allocation (budgets db) AccountScope (b_client src) amt
              (b_start src) (b_end src) Active None = None)"
  proof (cases target_row)
    case None
    then have g: "sql_assert_no_overlap (budgets db) AccountScope (b_client src) (Some (t_target_account p))
              (b_start src) (b_end src) None = None"
        "sql_assert_allocation (budgets db) AccountScope (b_client src) amt (b_start src) (b_end src) Active None = None"
      and t: "t = transfer_new_target new_id now amt p src" and ins: "insert_budget t db = Inr db'"
      using assms(1) by (auto simp: sql_credit_target_def Let_def guard_simps split: option.splits sum.splits)
    have "new_id \<notin> b_id ` set (budgets db)" using insert_budgetD(2) [OF ins] t by simp
    with g t None insert_budgetD(1) [OF ins] show ?thesis by simp
  next
    case (Some tgt)
    let ?t = "moved_row (q_money (q_money (b_amount tgt) + amt)) now (t_note p) tgt"
    have g: "0 \<le> q_money (b_amount tgt)"
        "sql_assert_allocation (budgets db) AccountScope (b_client src) (q_money (q_money (b_amount tgt) + amt))
              (b_start tgt) (b_end tgt) Active (Some (b_id tgt)) = None"
      and t: "t = ?t" and u: "\<exists>db1. update_budget (b_id tgt) (\<lambda>_. t) db = Inr db1
           \<and> db' = insert_history (b_id tgt) now (t_changed_by p) tgt t db1"
      using assms(1) Some by (auto simp: sql_credit_target_def Let_def guard_simps split: option.splits sum.splits)
    from u obtain db1 where db1: "update_budget (b_id tgt) (\<lambda>_. t) db = Inr db1"
      and db': "db' = insert_history (b_id tgt) now (t_changed_by p) tgt t db1" by blast
    have "db1 = db\<lparr>budgets := put_row t (budgets db)\<rparr>"
      using update_budgetD(1) [OF db1 assms(2) assms(3) [OF Some]] t by simp
    with g t Some db' show ?thesis by simp
  qed
  then show "budgets db' = put_row t (budgets db)" "transfers db' = transfers db"
    "length (history db') = length (history db) + (if target_row = None then 0 else 1)"
    "case target_row of
       Some tgt \<Rightarrow> t = moved_row (q_money (q_money (b_amount tgt) + amt)) now (t_note p) tgt
         \<and> 0 \<le> q_money (b_amount tgt)
         \<and> sql_assert_allocation (budgets db) AccountScope (b_client src) (b_amount t)
              (b_start tgt) (b_end tgt) Active (Some (b_id tgt)) = None
     | None \<Rightarrow> t = transfer_new_target new_id now amt p src \<and> new_id \<notin> b_id ` set (budgets db)
         \<and> sql_assert_no_overlap (budgets db) AccountScope (b_client src) (Some (t_target_account p))
              (b_start src) (b_end src) None = None
         \<and> sql_assert_allocation (budgets db) AccountScope (b_client src) amt
              (b_start src) (b_end src) Active None = None" by blast+
qed

lemma sql_transferD:
  assumes "sql_transfer new_id now i p db = Inr (resp, db')" and d: "distinct (map b_id (budgets db))"
  obtains src s t db1 db2 where "sql_get i db = Some src"
    "0 < q_money (t_amount p)"
    "transfer_source_guards p (q_money (t_amount p)) src = None"
    "transfer_tenant_guards p src db = None"
    "s = moved_row (q_money (q_money (b_amount src) - q_money (t_amount p))) now (t_note p) src"
    "db1 = insert_history i now (t_changed_by p) src s (db\<lparr>budgets := put_row s (budgets db)\<rparr>)"
    "sql_credit_target new_id now p (q_money (t_amount p)) src
       (transfer_target_row (budgets db) src (t_target_account p)) db1 = Inr (t, db2)"
    "resp = \<lparr>source_budget = s, target_budget = t, transferred_amount = q_money (t_amount p)\<rparr>"
    "db' = insert_transfer i (b_id t) (q_money (t_amount p)) (t_note p) (t_changed_by p) now db2"
proof -
  let ?amt = "q_money (t_amount p)"
  have pos: "0 < ?amt" using assms(1) by (auto simp: sql_transfer_def Let_def split: if_splits)
  obtain src where src: "sql_get i db = Some src"
    using assms(1) by (auto simp: sql_transfer_def Let_def split: if_splits option.splits)
  let ?s = "moved_row (q_money (q_money (b_amount src) - ?amt)) now (t_note p) src"
  have g: "transfer_source_guards p ?amt src = None" "transfer_tenant_guards p src db = None"
    and u: "\<exists>db0 t db2. update_budget i (\<lambda>_. ?s) db = Inr db0 \<and>
       sql_credit_target new_id now p ?amt src (transfer_target_row (budgets db) src (t_target_account p))
         (insert_history i now (t_changed_by p) src ?s db0) = Inr (t, db2)
       \<and> resp = \<lparr>source_budget = ?s, target_budget = t, transferred_amount = ?amt\<rparr>
       \<and> db' = insert_transfer i (b_id t) ?amt (t_note p) (t_changed_by p) now db2"
    using assms(1) src
    by (auto simp: sql_transfer_def Let_def guard_simps split: if_splits option.splits sum.splits)
  from u obtain db0 t db2 where db0: "update_budget i (\<lambda>_. ?s) db = Inr db0" and
    rest: "sql_credit_target new_id now p ?amt src (transfer_target_row (budgets db) src (t_target_account p))
         (insert_history i now (t_changed_by p) src ?s db0) = Inr (t, db2)"
       "resp = \<lparr>source_budget = ?s, target_budget = t, transferred_amount = ?amt\<rparr>"
       "db' = insert_transfer i (b_id t) ?amt (t_note p) (t_changed_by p) now db2" by blast
  have "db0 = db\<lparr>budgets := put_row ?s (budgets db)\<rparr>"
    using update_budgetD(1) [OF db0 d, of src] sql_getD [OF src] by simp
  with src pos g rest show ?thesis by (intro that [of src ?s]) simp_all
qed

text \<open>The rows of a transfer: the source is lowered, then the target is put.\<close>

lemma sql_transfer_rows:
  assumes "sql_transfer new_id now i p db = Inr (resp, db')" and d: "distinct (map b_id (budgets db))"
  obtains src s t where "src \<in> set (budgets db)" "b_id src = i"
    "0 < q_money (t_amount p)" "q_money (t_amount p) \<le> q_money (b_amount src)"
    "b_scope src = AccountScope" "b_status src = Active" "b_account src \<noteq> Some (t_target_account p)"
    "b_account src \<noteq> None"
    "s = moved_row (q_money (q_money (b_amount src) - q_money (t_amount p))) now (t_note p) src"
    "budgets db' = put_row t (put_row s (budgets db))"
    "resp = \<lparr>source_budget = s, target_budget = t, transferred_amount = q_money (t_amount p)\<rparr>"
    "length (transfers db') = Suc (length (transfers db))"
    "case transfer_target_row (budgets db) src (t_target_account p) of
       Some tgt \<Rightarrow> tgt \<in> set (budgets db) \<and> b_id tgt \<noteq> i \<and> b_scope tgt = AccountScope \<and> b_client tgt = b_client src
         \<and> b_status tgt = Active
         \<and> t = moved_row (q_money (q_money (b_amount tgt) + q_money (t_amount p))) now (t_note p) tgt
         \<and> sql_assert_allocation (put_row s (budgets db)) AccountScope (b_client src) (b_amount t)
              (b_start tgt) (b_end tgt) Active (Some (b_id tgt)) = None
         \<and> length (history db') = length (history db) + 2
     | None \<Rightarrow> t = transfer_new_target new_id now (q_money (t_amount p)) p src
         \<and> new_id \<notin> b_id ` set (put_row s (budgets db))
         \<and> sql_assert_no_overlap (put_row s (budgets db)) AccountScope (b_client src) (Some (t_target_account p))
              (b_start src) (b_end src) None = None
         \<and> sql_assert_allocation (put_row s (budgets db)) AccountScope (b_client src) (q_money (t_amount p))
              (b_start src) (b_end src) Active None = None
         \<and> length (history db') = length (history db) + 1"
proof -
  from assms obtain src s t db1 db2 where r: "sql_get i db = Some src" "0 < q_money (t_amount p)"
    "transfer_source_guards p (q_money (t_amount p)) src = None"
    "s = moved_row (q_money (q_money (b_amount src) - q_money (t_amount p))) now (t_note p) src"
    "db1 = insert_history i now (t_changed_by p) src s (db\<lparr>budgets := put_row s (budgets db)\<rparr>)"
    "sql_credit_target new_id now p (q_money (t_amount p)) src
       (transfer_target_row (budgets db) src (t_target_account p)) db1 = Inr (t, db2)"
    "resp = \<lparr>source_budget = s, target_budget = t, transferred_amount = q_money (t_amount p)\<rparr>"
    "db' = insert_transfer i (b_id t) (q_money (t_amount p)) (t_note p) (t_changed_by p) now db2"
    by (rule sql_transferD) blast
  have b1: "budgets db1 = put_row s (budgets db)" "transfers db1 = transfers db"
    "length (history db1) = Suc (length (history db))" using r(5) by simp_all
  have d1: "distinct (map b_id (budgets db1))" using distinct_put_row [OF d] b1 by simp
  have src: "src \<in> set (budgets db)" "b_id src = i" using sql_getD [OF r(1)] by auto
  have g: "b_scope src = AccountScope" "b_account src \<noteq> None" "b_status src = Active"
    "b_account src \<noteq> Some (t_target_account p)" "q_money (t_amount p) \<le> q_money (b_amount src)"
    using r(3) by (auto simp: transfer_source_guards_None)
  have tgt: "tgt \<in> set (budgets db) \<and> b_id tgt \<noteq> i \<and> tgt \<in> set (budgets db1)"
    if "transfer_target_row (budgets db) src (t_target_account p) = Some tgt" for tgt
  proof -
    note t = transfer_target_rowD [OF that]
    have "tgt \<noteq> src" using t(5) g(4) by auto
    with t(1) src d have "b_id tgt \<noteq> i" by (auto simp: distinct_map dest: inj_onD)
    with t(1) r(4) src(2) show ?thesis by (auto simp: b1 set_put_row)
  qed
  note c = sql_credit_targetD [OF r(6) d1]
  have t: "budgets db2 = put_row t (budgets db1)" "transfers db2 = transfers db1"
    "length (history db2) = length (history db1)
       + (if transfer_target_row (budgets db) src (t_target_account p) = None then 0 else 1)"
    using c(1-3) tgt by blast+
  show ?thesis
    using src r(2,4,7,8) g t b1 c(4) tgt transfer_target_rowD [of "budgets db" src "t_target_account p"]
    by (intro that [of src s t]) (auto split: option.splits)
qed

lemma sql_transfer_log:
  assumes ok: "sql_transfer new_id now i p db = Inr (resp, db')" and d: "distinct (map b_id (budgets db))"
  shows "\<exists>n. transfers db' = transfers db @ [\<lparr>x_id = n, x_source = i, x_target = b_id (target_budget resp),
      x_amount = q_money (t_amount p), x_note = t_note p, x_changed_by = t_changed_by p, x_created_at = now\<rparr>]"
proof -
  from assms obtain src s t db1 db2 where r: "sql_get i db = Some src"
    "transfer_source_guards p (q_money (t_amount p)) src = None"
    "s = moved_row (q_money (q_money (b_amount src) - q_money (t_amount p))) now (t_note p) src"
    "db1 = insert_history i now (t_changed_by p) src s (db\<lparr>budgets := put_row s (budgets db)\<rparr>)"
    "sql_credit_target new_id now p (q_money (t_amount p)) src
       (transfer_target_row (budgets db) src (t_target_account p)) db1 = Inr (t, db2)"
    "resp = \<lparr>source_budget = s, target_budget = t, transferred_amount = q_money (t_amount p)\<rparr>"
    "db' = insert_transfer i (b_id t) (q_money (t_amount p)) (t_note p) (t_changed_by p) now db2"
    by (rule sql_transferD) blast
  have d1: "distinct (map b_id (budgets db1))" using distinct_put_row [OF d] r(4) by simp
  have "tgt \<in> set (budgets db1)"
    if tr: "transfer_target_row (budgets db) src (t_target_account p) = Some tgt" for tgt
  proof -
    have "tgt \<noteq> src" using transfer_target_rowD(5) [OF tr] r(2) by (auto simp: transfer_source_guards_None)
    with transfer_target_rowD(1) [OF tr] sql_getD [OF r(1)] d have "b_id tgt \<noteq> b_id src"
      by (auto simp: distinct_map dest: inj_onD)
    with transfer_target_rowD(1) [OF tr] r(3,4) show ?thesis by (simp add: set_put_row)
  qed
  then have "transfers db2 = transfers db" using sql_credit_targetD(2) [OF r(5) d1] r(4) by simp
  then show ?thesis using r(6,7) by (auto simp: insert_transfer_def)
qed

section \<open>Every transaction keeps the invariant\<close>

lemma create_keeps_inv:
  assumes "budget_inv (budgets db)" "create_valid p" "sql_create i now p db = Inr (r, db')"
  shows "budget_inv (budgets db')"
proof -
  note c = sql_createD [OF assms(3)]
  have a: "q_money (c_amount p) = c_amount p" using assms(2) by (simp add: create_valid_def)
  have "budget_inv (put_row r (budgets db))"
    using assms(1,2) c a
    by (intro put_row_checked [where excl = None]) (auto simp: new_budget_row_def row_wf_def create_valid_def)
  with c(2) show ?thesis by simp
qed

lemma patch_keeps_inv:
  assumes inv: "budget_inv (budgets db)" and "sql_patch now i p db = Inr (r, db')"
  shows "budget_inv (budgets db')"
  using assms(2) budget_invD(1) [OF inv]
proof (cases rule: sql_patch_cases)
  case noop
  with inv show ?thesis by simp
next
  case (written old)
  have "b_id r = i" using sql_getD [OF written(1)] written(2) by (simp add: patched_row_def)
  moreover have "row_wf r" using written(2,5-7) by (simp add: row_wf_def patched_row_def)
  ultimately have "budget_inv (put_row r (budgets db))"
    using written(8,9) by (intro put_row_checked [OF inv, where excl = "Some i"]) auto
  with written(4) show ?thesis by simp
qed

lemma archive_keeps_inv:
  assumes inv: "budget_inv (budgets db)" and "sql_archive now i db = Inr (r, db')"
  shows "budget_inv (budgets db')"
proof -
  from assms(2) budget_invD(1) [OF inv] obtain old where old: "sql_get i db = Some old"
    "r = archived_row now old" "db' = db\<lparr>budgets := put_row r (budgets db)\<rparr>" by (rule sql_archiveD)
  from sql_getD [OF old(1)] have o: "old \<in> set (budgets db)" by simp
  with budget_invD(4) [OF inv o] old(2) have "budget_inv (put_row r (budgets db))"
    by (intro put_row_shrink [OF inv o]) (auto simp: archived_row_def row_wf_def)
  with old(3) show ?thesis by simp
qed

lemma transfer_keeps_inv:
  assumes inv: "budget_inv (budgets db)" and "sql_transfer new_id now i p db = Inr (resp, db')"
  shows "budget_inv (budgets db')"
proof -
  note d = budget_invD(1) [OF inv]
  from assms(2) d obtain src s t where r: "src \<in> set (budgets db)" "b_id src = i"
    "0 < q_money (t_amount p)" "q_money (t_amount p) \<le> q_money (b_amount src)"
    "b_scope src = AccountScope" "b_status src = Active"
    "s = moved_row (q_money (q_money (b_amount src) - q_money (t_amount p))) now (t_note p) src"
    "budgets db' = put_row t (put_row s (budgets db))"
    and t: "case transfer_target_row (budgets db) src (t_target_account p) of
       Some tgt \<Rightarrow> tgt \<in> set (budgets db) \<and> b_id tgt \<noteq> i \<and> b_scope tgt = AccountScope \<and> b_client tgt = b_client src
         \<and> b_status tgt = Active
         \<and> t = moved_row (q_money (q_money (b_amount tgt) + q_money (t_amount p))) now (t_note p) tgt
         \<and> sql_assert_allocation (put_row s (budgets db)) AccountScope (b_client src) (b_amount t)
              (b_start tgt) (b_end tgt) Active (Some (b_id tgt)) = None
         \<and> length (history db') = length (history db) + 2
     | None \<Rightarrow> t = transfer_new_target new_id now (q_money (t_amount p)) p src
         \<and> new_id \<notin> b_id ` set (put_row s (budgets db))
         \<and> sql_assert_no_overlap (put_row s (budgets db)) AccountScope (b_client src) (Some (t_target_account p))
              (b_start src) (b_end src) None = None
         \<and> sql_assert_allocation (put_row s (budgets db)) AccountScope (b_client src) (q_money (t_amount p))
              (b_start src) (b_end src) Active None = None
         \<and> length (history db') = length (history db) + 1"
    by (rule sql_transfer_rows) blast
  note wf = budget_invD(4) [OF inv r(1)]
  have sa: "b_amount s = b_amount src - q_money (t_amount p)"
    using wf r(7) by (simp add: row_wf_def cents_diff)
  have wfs: "row_wf s" using wf r sa by (auto simp: row_wf_def cents_diff)
  have inv1: "budget_inv (put_row s (budgets db))"
    using r sa by (intro put_row_shrink [OF inv r(1) wfs]) auto
  have "budget_inv (put_row t (put_row s (budgets db)))"
  proof (cases "transfer_target_row (budgets db) src (t_target_account p)")
    case (Some tgt)
    with t have tt: "tgt \<in> set (budgets db)" "b_id tgt \<noteq> i" "b_scope tgt = AccountScope"
      "b_client tgt = b_client src" "b_status tgt = Active"
      "t = moved_row (q_money (q_money (b_amount tgt) + q_money (t_amount p))) now (t_note p) tgt"
      "sql_assert_allocation (put_row s (budgets db)) AccountScope (b_client src) (b_amount t)
              (b_start tgt) (b_end tgt) Active (Some (b_id tgt)) = None" by auto
    note wft = budget_invD(4) [OF inv tt(1)]
    have "tgt \<in> set (put_row s (budgets db))" using tt(1,2) r(2,7) by (auto simp: set_put_row)
    moreover have "row_wf t" using wft tt(6) r(3) by (auto simp: row_wf_def)
    ultimately show ?thesis using tt(3-7) by (intro put_row_raise [OF inv1]) auto
  next
    case None
    with t have tt: "t = transfer_new_target new_id now (q_money (t_amount p)) p src"
      "new_id \<notin> b_id ` set (put_row s (budgets db))"
      "sql_assert_no_overlap (put_row s (budgets db)) AccountScope (b_client src) (Some (t_target_account p))
              (b_start src) (b_end src) None = None"
      "sql_assert_allocation (put_row s (budgets db)) AccountScope (b_client src) (q_money (t_amount p))
              (b_start src) (b_end src) Active None = None" by auto
    have "row_wf t" using wf tt(1) r(3) by (auto simp: row_wf_def)
    with tt show ?thesis by (intro put_row_checked [OF inv1, where excl = None]) auto
  qed
  with r(8) show ?thesis by simp
qed

end
