(* ===== verification/Budget_Theorems.thy ===== *)
theory Budget_Theorems
  imports Budget_Safety
begin

text \<open>
  The planning budgets as a transition system, its invariant over every reachable database,
  and the functional contracts of the store's operations.
\<close>

section \<open>The transition system\<close>

definition empty_db :: "budget_db \<Rightarrow> bool" where
  "empty_db db \<longleftrightarrow> budgets db = [] \<and> history db = [] \<and> transfers db = []"

text \<open>
  One committed transaction.  \<open>tenants\<close> is any change other components make to the
  client and advertising account tables between two transactions of this store.
\<close>

inductive budget_step :: "budget_db \<Rightarrow> budget_db \<Rightarrow> bool" where
  step_create: "create_valid p \<Longrightarrow> sql_create i now p db = Inr (r, db') \<Longrightarrow> budget_step db db'"
| step_patch: "patch_valid q \<Longrightarrow> sql_patch now i q db = Inr (r, db') \<Longrightarrow> budget_step db db'"
| step_archive: "sql_archive now i db = Inr (r, db') \<Longrightarrow> budget_step db db'"
| step_transfer: "transfer_valid t \<Longrightarrow> sql_transfer new_id now i t db = Inr (resp, db') \<Longrightarrow> budget_step db db'"
| step_tenants: "budget_step db (db\<lparr>clients := cs, ad_accounts := accs\<rparr>)"

interpretation budget_system: safe_system empty_db budget_step "\<lambda>db. budget_inv (budgets db)"
proof unfold_locales
  fix db assume "empty_db db"
  then show "budget_inv (budgets db)" by (simp add: empty_db_def)
next
  fix db db' assume inv: "budget_inv (budgets db)" and "budget_step db db'"
  from this(2) show "budget_inv (budgets db')"
  proof cases
    case step_create
    then show ?thesis by (intro create_keeps_inv [OF inv])
  next
    case step_patch
    then show ?thesis by (intro patch_keeps_inv [OF inv])
  next
    case step_archive
    then show ?thesis by (intro archive_keeps_inv [OF inv])
  next
    case step_transfer
    then show ?thesis by (intro transfer_keeps_inv [OF inv])
  next
    case step_tenants
    with inv show ?thesis by simp
  qed
qed

section \<open>Concrete data for the witnesses\<close>

definition ex_client_budget :: budget_create where
  "ex_client_budget = \<lparr>c_client = 1, c_scope = ClientScope, c_account = None, c_amount = 100,
     c_currency = ''USD'', c_period = Monthly, c_start = 1, c_end = 30, c_note = None, c_created_by = None\<rparr>"

definition ex_account_budget :: "uuid \<Rightarrow> rat \<Rightarrow> budget_create" where
  "ex_account_budget acc amt = \<lparr>c_client = 1, c_scope = AccountScope, c_account = Some acc, c_amount = amt,
     c_currency = ''USD'', c_period = Monthly, c_start = 1, c_end = 30, c_note = None, c_created_by = None\<rparr>"

definition ex_db0 :: budget_db where
  "ex_db0 = \<lparr>budgets = [], history = [], transfers = [],
     clients = [\<lparr>cl_id = 1, cl_status = RowActive, cl_currency = ''usd''\<rparr>],
     ad_accounts = [\<lparr>ac_id = 7, ac_client = 1, ac_status = RowActive, ac_currency = ''USD''\<rparr>,
                    \<lparr>ac_id = 8, ac_client = 1, ac_status = RowActive, ac_currency = ''USD''\<rparr>]\<rparr>"

definition db_of :: "budget_error + ('a \<times> budget_db) \<Rightarrow> budget_db" where
  "db_of x = (case x of Inl _ \<Rightarrow> ex_db0 | Inr (_, db) \<Rightarrow> db)"

definition ex_db1 :: budget_db where "ex_db1 = db_of (sql_create 20 1000 ex_client_budget ex_db0)"
definition ex_db2 :: budget_db where "ex_db2 = db_of (sql_create 21 1001 (ex_account_budget 7 60) ex_db1)"

definition ex_transfer :: transfer_request where
  "ex_transfer = \<lparr>t_target_account = 8, t_amount = 25, t_note = None, t_changed_by = Some 3\<rparr>"

definition ex_patch :: budget_patch where
  "ex_patch = \<lparr>p_client = None, p_scope = None, p_account = None, p_amount = Some 80, p_currency = None,
     p_period = None, p_start = None, p_end = None, p_note = None, p_status = None, p_changed_by = Some 3\<rparr>"

lemma ex_create1: "sql_create 20 1000 ex_client_budget ex_db0 = Inr (new_budget_row 20 1000 ex_client_budget, ex_db1)"
  by code_simp

lemma ex_create2: "sql_create 21 1001 (ex_account_budget 7 60) ex_db1
    = Inr (new_budget_row 21 1001 (ex_account_budget 7 60), ex_db2)"
  by code_simp

lemma ex_reach0: "reachable empty_db budget_step ex_db0"
  by (rule reach_init) (simp add: empty_db_def ex_db0_def)

lemma ex_valid: "create_valid ex_client_budget" "create_valid (ex_account_budget 7 60)"
  by (code_simp, code_simp)

lemma ex_reach1: "reachable empty_db budget_step ex_db1"
  by (rule reach_step [OF ex_reach0 step_create [OF ex_valid(1) ex_create1]])

lemma ex_reach2: "reachable empty_db budget_step ex_db2"
  by (rule reach_step [OF ex_reach1 step_create [OF ex_valid(2) ex_create2]])

section \<open>Safety\<close>

text \<open>
  C37: In every database the store can reach, budget ids are unique, every budget has a
  non-negative amount in whole cents and a period that does not end before it starts, no two
  active budgets of one client, or of one advertising account, overlap in time, and the active
  account budgets inside the period of an active client budget never add up to more than it.
\<close>
theorem budget_tables_safe:
  assumes "reachable empty_db budget_step db"
  shows "distinct (map b_id (budgets db))
    \<and> (\<forall>r \<in> set (budgets db). 0 \<le> b_amount r \<and> cents (b_amount r) \<and> b_start r \<le> b_end r)
    \<and> (\<forall>a \<in> set (budgets db). \<forall>b \<in> set (budgets db). b_id a \<noteq> b_id b \<and> b_status a = Active \<and> b_status b = Active
         \<and> same_slot a b \<longrightarrow> \<not> date_overlap (b_start a) (b_end a) (b_start b) (b_end b))
    \<and> (\<forall>c \<in> set (budgets db). b_status c = Active \<and> b_scope c = ClientScope \<longrightarrow>
         sum_list (map b_amount (account_rows (budgets db) (b_client c) (b_start c) (b_end c) None)) \<le> b_amount c)"
  using budget_system.reachable_inv [OF assms]
  by (simp add: budget_inv_def row_wf_def no_overlap_def within_caps_def allocated_def)

theorem budget_tables_safe_witness:
  "distinct (map b_id (budgets ex_db2)) \<and> length (budgets ex_db2) = 2"
  using budget_tables_safe [OF ex_reach2] by (simp add: ex_db2_def ex_db1_def) code_simp

section \<open>create\<close>
lemma overlap_none_iff:
  assumes "row_wf r"
  shows "sql_assert_no_overlap rows (b_scope r) (b_client r) (b_account r) (b_start r) (b_end r) None = None
    \<longleftrightarrow> (\<forall>x \<in> set rows. b_status x = Active \<longrightarrow> same_slot x r \<longrightarrow>
           \<not> date_overlap (b_start x) (b_end x) (b_start r) (b_end r))"
  using assms by (cases "b_scope r")
    (auto simp: sql_assert_no_overlap_def overlap_rows_def not_excluded_def same_slot_def date_overlap_def
       filter_empty_conv row_wf_def)

lemma allocation_none_iff:
  assumes "\<And>x. x \<in> set rows \<Longrightarrow> cents (b_amount x)" and "cents (b_amount r)"
  shows "sql_assert_allocation rows (b_scope r) (b_client r) (b_amount r) (b_start r) (b_end r) Active None = None
    \<longleftrightarrow> (if b_scope r = ClientScope then allocated rows r \<le> b_amount r
         else \<forall>c \<in> set rows. b_status c = Active \<and> b_scope c = ClientScope \<and> b_client c = b_client r
           \<and> b_start c \<le> b_end r \<and> b_start r \<le> b_end c \<longrightarrow> allocated rows c + b_amount r \<le> b_amount c)"
proof -
  have tot: "amount_total (account_rows rows cl s e None) = sum_list (map b_amount (account_rows rows cl s e None))"
    for cl s e using assms(1) by (intro amount_total_cents) (auto simp: account_rows_def)
  have cap: "cap_check rows (b_client r) (b_amount r) None c = None \<longleftrightarrow> allocated rows c + b_amount r \<le> b_amount c"
    if "c \<in> set rows" "b_client c = b_client r" for c
    using assms(1) [OF that(1)] assms(2) that(2) by (simp add: cap_check_def Let_def tot allocated_def not_less)
  show ?thesis
  proof (cases "b_scope r")
    case ClientScope
    with assms(2) show ?thesis by (simp add: sql_assert_allocation_def Let_def tot allocated_def not_less)
  next
    case AccountScope
    then have "sql_assert_allocation rows (b_scope r) (b_client r) (b_amount r) (b_start r) (b_end r) Active None = None
      \<longleftrightarrow> (\<forall>c \<in> set (client_cap_rows rows (b_client r) (b_start r) (b_end r)).
            cap_check rows (b_client r) (b_amount r) None c = None)"
      by (simp add: sql_assert_allocation_def first_error_None)
    then show ?thesis using AccountScope cap by (auto simp: client_cap_rows_def)
  qed
qed

text \<open>
  \<open>create\<close> accepts a payload exactly when the table with the new active row still
  satisfies the invariant: its overlap and allocation checks neither let a bad row in nor
  refuse a good one.
\<close>
theorem create_accepts_iff:
  assumes inv: "budget_inv (budgets db)" and valid: "create_valid p" and fresh: "i \<notin> b_id ` set (budgets db)"
  shows "(\<exists>r db'. sql_create i now p db = Inr (r, db')) \<longleftrightarrow> budget_inv (budgets db @ [new_budget_row i now p])"
proof
  assume "\<exists>r db'. sql_create i now p db = Inr (r, db')"
  then obtain r db' where c: "sql_create i now p db = Inr (r, db')" by blast
  have "budget_inv (budgets db')" by (rule create_keeps_inv [OF inv valid c])
  with sql_createD(1,2) [OF c] fresh show "budget_inv (budgets db @ [new_budget_row i now p])"
    by (simp add: put_row_def new_budget_row_def)
next
  let ?r = "new_budget_row i now p"
  assume inv': "budget_inv (budgets db @ [?r])"
  have put: "put_row ?r (budgets db) = budgets db @ [?r]" using fresh by (simp add: put_row_def new_budget_row_def)
  have f: "b_scope ?r = c_scope p" "b_client ?r = c_client p" "b_account ?r = c_account p"
    "b_start ?r = c_start p" "b_end ?r = c_end p" "b_amount ?r = c_amount p" "b_status ?r = Active" "b_id ?r = i"
    using valid by (simp_all add: new_budget_row_def create_valid_def)
  have wf: "row_wf ?r" using budget_invD(4) [OF inv', of ?r] by simp
  have cents: "\<And>x. x \<in> set (budgets db) \<Longrightarrow> cents (b_amount x)" "cents (b_amount ?r)"
    using budget_invD(4) [OF inv] wf by (auto simp: row_wf_def)
  have ne: "\<And>x. x \<in> set (budgets db) \<Longrightarrow> b_id x \<noteq> i" using fresh by auto
  have o: "sql_assert_no_overlap (budgets db) (b_scope ?r) (b_client ?r) (b_account ?r) (b_start ?r) (b_end ?r) None = None"
    unfolding overlap_none_iff [OF wf]
    using budget_invD(2) [OF inv'] f ne unfolding no_overlap_def by auto
  have alloc: "b_scope ?r = ClientScope \<Longrightarrow> allocated (budgets db) ?r \<le> b_amount ?r"
    "\<And>c. c \<in> set (budgets db) \<Longrightarrow> b_status c = Active \<and> b_scope c = ClientScope \<and> b_client c = b_client ?r
       \<and> b_start c \<le> b_end ?r \<and> b_start ?r \<le> b_end c \<Longrightarrow> b_scope ?r = AccountScope
       \<Longrightarrow> allocated (budgets db) c + b_amount ?r \<le> b_amount c"
    using budget_invD(3) [OF inv'] f allocated_put_row [OF budget_invD(1) [OF inv], of ?r]
    unfolding within_caps_def put by (auto simp: rows_except_fresh [OF fresh])
  have a: "sql_assert_allocation (budgets db) (b_scope ?r) (b_client ?r) (b_amount ?r) (b_start ?r) (b_end ?r)
      Active None = None"
  proof (rule iffD2 [OF allocation_none_iff [OF cents]])
    show "if b_scope ?r = ClientScope then allocated (budgets db) ?r \<le> b_amount ?r
      else \<forall>c \<in> set (budgets db). b_status c = Active \<and> b_scope c = ClientScope \<and> b_client c = b_client ?r
        \<and> b_start c \<le> b_end ?r \<and> b_start ?r \<le> b_end c \<longrightarrow> allocated (budgets db) c + b_amount ?r \<le> b_amount c"
    proof (cases "b_scope ?r = ClientScope")
      case True
      show ?thesis unfolding if_P [OF True] by (rule alloc(1) [OF True])
    next
      case False
      then have acc: "b_scope ?r = AccountScope" by (cases "b_scope ?r") auto
      show ?thesis unfolding if_not_P [OF False] by (intro ballI impI) (rule alloc(2) [OF _ _ acc])
    qed
  qed
  show "\<exists>r db'. sql_create i now p db = Inr (r, db')"
  proof -
    have "validate_period (c_start p) (c_end p) = None" "validate_scope (c_scope p) (c_account p) = None"
      using wf unfolding row_wf_def f by (simp_all add: guard_simps)
    moreover have "insert_budget ?r db = Inr (db\<lparr>budgets := budgets db @ [?r]\<rparr>)"
      using wf fresh unfolding insert_budget_def row_ok_def row_wf_def f by simp
    ultimately show ?thesis using o a unfolding f by (simp add: sql_create_def)
  qed
qed

theorem create_accepts_iff_witness:
  "(\<exists>r db'. sql_create 22 1002 (ex_account_budget 8 40) ex_db2 = Inr (r, db'))
   \<and> budget_inv (budgets ex_db2 @ [new_budget_row 22 1002 (ex_account_budget 8 40)])"
proof -
  have "create_valid (ex_account_budget 8 40)" by code_simp
  moreover have "22 \<notin> b_id ` set (budgets ex_db2)" by code_simp
  moreover have "\<not> isl (sql_create 22 1002 (ex_account_budget 8 40) ex_db2)" by code_simp
  then have "\<exists>r db'. sql_create 22 1002 (ex_account_budget 8 40) ex_db2 = Inr (r, db')"
    by (cases "sql_create 22 1002 (ex_account_budget 8 40) ex_db2") auto
  ultimately show ?thesis
    using create_accepts_iff [OF budget_system.reachable_inv [OF ex_reach2], of "ex_account_budget 8 40" 22 1002]
    by blast
qed

end
