(* ===== verification/Budget_Contracts.thy ===== *)
theory Budget_Contracts
  imports Budget_Theorems
begin

text \<open>
  What the single operations of the SQL budget store do: a transfer moves money and leaves
  every other row alone, a patch versions and records exactly the changes that are changes,
  the effective budget of a period is the right one, and listings respect their limits.
\<close>

section \<open>Reading a row that was put\<close>

lemma find_update_rows_key:
  "b_id r = i \<Longrightarrow> find (\<lambda>x. b_id x = j) (update_rows (\<lambda>x. b_id x = i) (\<lambda>_. r) rows)
     = (if j = i then (if i \<in> b_id ` set rows then Some r else None) else find (\<lambda>x. b_id x = j) rows)"
proof (induction rows)
  case (Cons x xs)
  then show ?case by (cases "b_id x = i"; cases "j = i") simp_all
qed simp

lemma find_append_key:
  "find (\<lambda>x. b_id x = j) (rows @ [r]) = (case find (\<lambda>x. b_id x = j) rows of Some x \<Rightarrow> Some x
     | None \<Rightarrow> if b_id r = j then Some r else None)"
  by (induction rows) simp_all

lemma find_put_row:
  "find (\<lambda>x. b_id x = j) (put_row r rows) = (if j = b_id r then Some r else find (\<lambda>x. b_id x = j) rows)"
proof (cases "b_id r \<in> b_id ` set rows")
  case True
  then show ?thesis by (simp add: put_row_def find_update_rows_key)
next
  case False
  then have "find (\<lambda>x. b_id x = b_id r) rows = None" by (simp add: find_None_key)
  with False show ?thesis by (cases "j = b_id r") (simp_all add: put_row_def find_append_key split: option.split)
qed

lemma sql_get_put_row [table_simps]:
  "budgets db' = put_row r (budgets db) \<Longrightarrow> sql_get j db' = (if j = b_id r then Some r else sql_get j db)"
  by (simp add: sql_get_def find_put_row)

lemma total_put_old:
  assumes "distinct (map b_id rows)" "r \<in> set rows" "b_id r' = b_id r"
  shows "total_amount (put_row r' rows) = total_amount rows - b_amount r + b_amount r'"
  using total_put_row [OF assms(1), of r'] total_except [OF assms(1,2)] assms(3) by simp

lemma total_put_fresh:
  assumes "b_id r \<notin> b_id ` set rows"
  shows "total_amount (put_row r rows) = total_amount rows + b_amount r"
  using assms by (simp add: put_row_def total_amount_def)

section \<open>transfer\<close>

lemma transfer_facts:
  assumes inv: "budget_inv (budgets db)" and valid: "transfer_valid p"
    and ok: "sql_transfer new_id now i p db = Inr (resp, db')"
  shows "total_amount (budgets db') = total_amount (budgets db)"
    "\<exists>src. sql_get i db = Some src \<and> b_amount (source_budget resp) = b_amount src - t_amount p
        \<and> 0 \<le> b_amount (source_budget resp) \<and> b_client (target_budget resp) = b_client src"
    "b_account (target_budget resp) = Some (t_target_account p)" "b_status (target_budget resp) = Active"
    "sql_get i db' = Some (source_budget resp)"
    "sql_get (b_id (target_budget resp)) db' = Some (target_budget resp)"
    "\<forall>j. j \<noteq> i \<and> j \<noteq> b_id (target_budget resp) \<longrightarrow> sql_get j db' = sql_get j db"
    "\<exists>n. transfers db' = transfers db @ [\<lparr>x_id = n, x_source = i, x_target = b_id (target_budget resp),
        x_amount = t_amount p, x_note = t_note p, x_changed_by = t_changed_by p, x_created_at = now\<rparr>]"
proof -
  note d = budget_invD(1) [OF inv]
  have amt: "q_money (t_amount p) = t_amount p" using valid by (simp add: transfer_valid_def)
  from ok d obtain src s t where src: "src \<in> set (budgets db)" "b_id src = i"
    and le: "q_money (t_amount p) \<le> q_money (b_amount src)"
    and s: "s = moved_row (q_money (q_money (b_amount src) - q_money (t_amount p))) now (t_note p) src"
    and db': "budgets db' = put_row t (put_row s (budgets db))"
    and resp: "resp = \<lparr>source_budget = s, target_budget = t, transferred_amount = q_money (t_amount p)\<rparr>"
    and t: "case transfer_target_row (budgets db) src (t_target_account p) of
       Some tgt \<Rightarrow> tgt \<in> set (budgets db) \<and> b_id tgt \<noteq> i \<and> b_client tgt = b_client src
         \<and> t = moved_row (q_money (q_money (b_amount tgt) + q_money (t_amount p))) now (t_note p) tgt
     | None \<Rightarrow> t = transfer_new_target new_id now (q_money (t_amount p)) p src
         \<and> new_id \<notin> b_id ` set (put_row s (budgets db))"
    by (rule sql_transfer_rows) (auto split: option.splits)
  have cents: "cents (b_amount x)" if "x \<in> set (budgets db)" for x
    using budget_invD(4) [OF inv that] by (simp add: row_wf_def)
  have p: "cents (t_amount p)" using valid by (simp add: transfer_valid_def)
  have s_amt: "b_amount s = b_amount src - t_amount p"
    using s cents [OF src(1)] p by (simp add: amt cents_diff)
  have s_id: "b_id s = i" using s src(2) by simp
  have d1: "distinct (map b_id (put_row s (budgets db)))" by (rule distinct_put_row [OF d])
  have ts: "total_amount (put_row s (budgets db)) = total_amount (budgets db) - t_amount p"
    using total_put_old [OF d src(1), of s] s_id src(2) s_amt by simp
  have tt: "total_amount (put_row t (put_row s (budgets db))) = total_amount (budgets db) \<and> b_id t \<noteq> i
      \<and> b_account t = Some (t_target_account p) \<and> b_status t = Active \<and> b_client t = b_client src"
  proof (cases "transfer_target_row (budgets db) src (t_target_account p)")
    case None
    with t have t': "t = transfer_new_target new_id now (t_amount p) p src"
      "new_id \<notin> b_id ` set (put_row s (budgets db))" by (simp_all add: amt)
    have "i \<in> b_id ` set (put_row s (budgets db))" using s_id by (auto simp: set_put_row)
    with t' have "new_id \<noteq> i" by auto
    with t' ts total_put_fresh [of t "put_row s (budgets db)"] show ?thesis by simp
  next
    case (Some tgt)
    with t have t': "tgt \<in> set (budgets db)" "b_id tgt \<noteq> i" "b_client tgt = b_client src"
      "t = moved_row (q_money (q_money (b_amount tgt) + t_amount p)) now (t_note p) tgt" by (simp_all add: amt)
    have "tgt \<in> set (put_row s (budgets db))" using t'(1,2) s_id by (simp add: set_put_row)
    then have "total_amount (put_row t (put_row s (budgets db)))
        = total_amount (put_row s (budgets db)) - b_amount tgt + b_amount t"
      using t'(4) by (intro total_put_old [OF d1]) auto
    moreover have "b_amount t = b_amount tgt + t_amount p"
      using t'(4) cents [OF t'(1)] p by (simp add: cents_add)
    ultimately show ?thesis using ts t' transfer_target_rowD [OF Some] by simp
  qed
  show "total_amount (budgets db') = total_amount (budgets db)" using tt db' by simp
  show "\<exists>src. sql_get i db = Some src \<and> b_amount (source_budget resp) = b_amount src - t_amount p
        \<and> 0 \<le> b_amount (source_budget resp) \<and> b_client (target_budget resp) = b_client src"
  proof (intro exI [of _ src] conjI)
    show "sql_get i db = Some src" using find_key_unique [OF d src] by (simp add: sql_get_def)
    show "b_amount (source_budget resp) = b_amount src - t_amount p" using resp s_amt by simp
    show "0 \<le> b_amount (source_budget resp)" using resp s_amt le cents [OF src(1)] by (simp add: amt)
    show "b_client (target_budget resp) = b_client src" using resp tt by simp
  qed
  show "b_account (target_budget resp) = Some (t_target_account p)" "b_status (target_budget resp) = Active"
    using resp tt by simp_all
  have get: "sql_get j db' = (if j = b_id t then Some t else if j = i then Some s else sql_get j db)" for j
    using db' s_id by (simp add: sql_get_def find_put_row)
  show "sql_get i db' = Some (source_budget resp)"
    "sql_get (b_id (target_budget resp)) db' = Some (target_budget resp)"
    "\<forall>j. j \<noteq> i \<and> j \<noteq> b_id (target_budget resp) \<longrightarrow> sql_get j db' = sql_get j db"
    using tt resp by (simp_all add: get)
  show "\<exists>n. transfers db' = transfers db @ [\<lparr>x_id = n, x_source = i, x_target = b_id (target_budget resp),
        x_amount = t_amount p, x_note = t_note p, x_changed_by = t_changed_by p, x_created_at = now\<rparr>]"
    using sql_transfer_log [OF ok d] resp by (simp add: amt)
qed

definition ex_db3 :: budget_db where
  "ex_db3 = (case sql_transfer 22 1002 21 ex_transfer ex_db2 of Inl _ \<Rightarrow> ex_db0 | Inr (_, db) \<Rightarrow> db)"

text \<open>
  C38: A transfer moves money and makes none: the source loses exactly the transferred amount
  and keeps a non-negative balance, the budget that receives it is active and belongs to the
  target account of the same client, the total over the table is unchanged, no other budget
  changes, and exactly one transfer row with those ids and that amount is appended.
\<close>
theorem transfer_conserves:
  assumes "budget_inv (budgets db)" and "transfer_valid p"
    and "sql_transfer new_id now i p db = Inr (resp, db')"
  shows "total_amount (budgets db') = total_amount (budgets db)
    \<and> (\<exists>src. sql_get i db = Some src \<and> b_amount (source_budget resp) = b_amount src - t_amount p
        \<and> 0 \<le> b_amount (source_budget resp) \<and> b_client (target_budget resp) = b_client src)
    \<and> b_account (target_budget resp) = Some (t_target_account p) \<and> b_status (target_budget resp) = Active
    \<and> sql_get i db' = Some (source_budget resp)
    \<and> sql_get (b_id (target_budget resp)) db' = Some (target_budget resp)
    \<and> (\<forall>j. j \<noteq> i \<and> j \<noteq> b_id (target_budget resp) \<longrightarrow> sql_get j db' = sql_get j db)
    \<and> (\<exists>n. transfers db' = transfers db @ [\<lparr>x_id = n, x_source = i, x_target = b_id (target_budget resp),
        x_amount = t_amount p, x_note = t_note p, x_changed_by = t_changed_by p, x_created_at = now\<rparr>])"
  by (intro conjI transfer_facts [OF assms])

theorem transfer_conserves_witness:
  "total_amount (budgets ex_db3) = 160 \<and> length (budgets ex_db3) = 3 \<and> total_amount (budgets ex_db2) = 160"
proof -
  obtain resp db' where ok: "sql_transfer 22 1002 21 ex_transfer ex_db2 = Inr (resp, db')"
  proof (cases "sql_transfer 22 1002 21 ex_transfer ex_db2")
    case (Inl e)
    moreover have "\<not> isl (sql_transfer 22 1002 21 ex_transfer ex_db2)" by code_simp
    ultimately show ?thesis by simp
  qed auto
  have "transfer_valid ex_transfer" by code_simp
  from transfer_conserves [OF budget_system.reachable_inv [OF ex_reach2] this ok]
  have "total_amount (budgets ex_db3) = total_amount (budgets ex_db2)" by (simp add: ex_db3_def ok)
  moreover have "total_amount (budgets ex_db2) = 160" "length (budgets ex_db3) = 3" by (code_simp, code_simp)
  ultimately show ?thesis by simp
qed

section \<open>patch\<close>
lemma normalize_patched [simp]:
  "normalize_budget (patched_row now old p) = normalize_budget (merge_patch old p)"
  by (simp add: normalize_budget_def patched_row_def)

text \<open>
  A patch that changes no business field (none sent, or the sent values equal the stored
  ones up to cents) returns the stored row and leaves the database alone.  Any other accepted
  patch stores the merged row with the next version and the clock, appends exactly one history
  row with a new id holding the row before and after, and changes no other budget.
\<close>
theorem patch_discipline:
  assumes d: "distinct (map b_id (budgets db))" and ok: "sql_patch now i p db = Inr (r, db')"
  shows "\<exists>old. sql_get i db = Some old \<and>
    (if patch_empty p \<or> normalize_budget (merge_patch old p) = normalize_budget old
     then r = old \<and> db' = db
     else b_version r = b_version old + 1 \<and> b_updated_at r = now
       \<and> normalize_budget r = normalize_budget (merge_patch old p) \<and> sql_get i db' = Some r
       \<and> (\<exists>h. history db' = history db @ [h] \<and> h_id h \<notin> h_id ` set (history db) \<and> h_budget h = i
            \<and> h_changed_by h = p_changed_by p \<and> h_previous h = old \<and> h_new h = r)
       \<and> (\<forall>j. j \<noteq> i \<longrightarrow> sql_get j db' = sql_get j db) \<and> transfers db' = transfers db)"
  using ok d
proof (cases rule: sql_patch_cases)
  case noop
  then show ?thesis by auto
next
  case (written old)
  have ne: "\<not> (patch_empty p \<or> normalize_budget (merge_patch old p) = normalize_budget old)"
    using written(3) by (auto simp: merge_patch_empty)
  have id: "b_id r = i" using sql_getD [OF written(1)] written(2) by (simp add: patched_row_def)
  have get: "sql_get j db' = (if j = i then Some r else sql_get j db)" for j
    using written(4) id by (simp add: sql_get_def find_put_row)
  have h: "history db' = history db @ [\<lparr>h_id = autoincrement (map h_id (history db)), h_budget = i,
      h_changed_at = now, h_changed_by = p_changed_by p, h_previous = old, h_new = r\<rparr>]"
    using written(4) by (simp add: insert_history_def)
  have fresh: "autoincrement (map h_id (history db)) \<notin> h_id ` set (history db)"
    using autoincrement_fresh [of "map h_id (history db)"] by simp
  have r: "b_version r = b_version old + 1" "b_updated_at r = now"
    "normalize_budget r = normalize_budget (merge_patch old p)"
    unfolding written(2) by (simp_all add: patched_row_def, simp add: patched_row_def [symmetric])
  have x: "transfers db' = transfers db" unfolding written(4) by simp
  show ?thesis
    using ne by (intro exI [of _ old] conjI [OF written(1)]) (simp add: r get h fresh x)
qed

theorem patch_discipline_witness:
  "\<exists>r db'. sql_patch 1003 20 ex_patch ex_db2 = Inr (r, db') \<and> b_version r = 2
     \<and> (\<exists>h. history db' = [h] \<and> h_new h = r \<and> b_amount (h_previous h) = 100)"
proof -
  obtain r db' where ok: "sql_patch 1003 20 ex_patch ex_db2 = Inr (r, db')"
  proof (cases "sql_patch 1003 20 ex_patch ex_db2")
    case (Inl e)
    moreover have "\<not> isl (sql_patch 1003 20 ex_patch ex_db2)" by code_simp
    ultimately show ?thesis by simp
  qed auto
  have d: "distinct (map b_id (budgets ex_db2))" by code_simp
  have old: "sql_get 20 ex_db2 = Some (new_budget_row 20 1000 ex_client_budget)" by code_simp
  have ne: "\<not> (patch_empty ex_patch \<or> normalize_budget (merge_patch (new_budget_row 20 1000 ex_client_budget) ex_patch)
      = normalize_budget (new_budget_row 20 1000 ex_client_budget))" by code_simp
  have h0: "history ex_db2 = []" by code_simp
  have v: "b_version (new_budget_row 20 1000 ex_client_budget) = 1"
    "b_amount (new_budget_row 20 1000 ex_client_budget) = 100" by (code_simp, code_simp)
  from patch_discipline [OF d ok] ok ne h0 v show ?thesis unfolding old by auto
qed

section \<open>resolve_effective_budget\<close>

text \<open>
  The budgets that count for a client, and an account if one is given, in a period; and the
  order among them: an account budget before a client budget, then the larger (version, update
  time).
\<close>

definition effective_candidate :: "uuid \<Rightarrow> uuid option \<Rightarrow> date \<Rightarrow> date \<Rightarrow> budget \<Rightarrow> bool" where
  "effective_candidate cl acc s e r \<longleftrightarrow> b_status r = Active \<and> b_client r = cl
     \<and> date_overlap (b_start r) (b_end r) s e
     \<and> (case b_scope r of ClientScope \<Rightarrow> True | AccountScope \<Rightarrow> acc \<noteq> None \<and> b_account r = acc)"

definition preferred_to :: "budget \<Rightarrow> budget \<Rightarrow> bool" where
  "preferred_to r r' \<longleftrightarrow> (if b_scope r = b_scope r' then effective_key r' \<le> effective_key r
     else b_scope r = AccountScope)"

lemma fetchone_sorted_best:
  "case fetchone (sort_desc k (filter P xs)) of
     None \<Rightarrow> \<forall>x \<in> set xs. \<not> P x
   | Some x \<Rightarrow> x \<in> set xs \<and> P x \<and> (\<forall>y \<in> set xs. P y \<longrightarrow> k y \<le> k x)"
proof (cases "fetchone (sort_desc k (filter P xs))")
  case None
  show ?thesis unfolding None using None by (simp add: filter_empty_conv)
next
  case (Some x)
  show ?thesis unfolding Some option.case using fetchone_sort_desc_mem [OF Some] fetchone_sort_desc_max [OF Some] by auto
qed

text \<open>
  The effective budget of a client (and account) in a period is a stored active budget of
  theirs that meets the period and is preferred to every other such budget; there is none
  exactly when no such budget exists.
\<close>
theorem resolve_effective_best:
  "case sql_resolve_effective (Some cl) acc s e db of
     None \<Rightarrow> \<forall>r \<in> set (budgets db). \<not> effective_candidate cl acc s e r
   | Some r \<Rightarrow> r \<in> set (budgets db) \<and> effective_candidate cl acc s e r
       \<and> (\<forall>r' \<in> set (budgets db). effective_candidate cl acc s e r' \<longrightarrow> preferred_to r r')"
proof -
  let ?C = "\<lambda>r. b_status r = Active \<and> b_scope r = ClientScope \<and> b_client r = cl \<and> b_end r \<ge> s \<and> b_start r \<le> e"
  let ?A = "\<lambda>a r. b_status r = Active \<and> b_scope r = AccountScope \<and> b_client r = cl \<and> b_account r = Some a
     \<and> b_end r \<ge> s \<and> b_start r \<le> e"
  have cand: "effective_candidate cl acc s e r \<longleftrightarrow> ?C r \<or> (\<exists>a. acc = Some a \<and> ?A a r)" for r
    by (cases "b_scope r") (auto simp: effective_candidate_def date_overlap_def)
  define c where "c = fetchone (sort_desc effective_key (filter ?C (budgets db)))"
  define a where "a = (\<lambda>i. fetchone (sort_desc effective_key (filter (?A i) (budgets db))))"
  have C: "case c of None \<Rightarrow> \<forall>x \<in> set (budgets db). \<not> ?C x
      | Some x \<Rightarrow> x \<in> set (budgets db) \<and> ?C x \<and> (\<forall>y \<in> set (budgets db). ?C y \<longrightarrow> effective_key y \<le> effective_key x)"
    unfolding c_def by (rule fetchone_sorted_best)
  have A: "case a i of None \<Rightarrow> \<forall>x \<in> set (budgets db). \<not> ?A i x
      | Some x \<Rightarrow> x \<in> set (budgets db) \<and> ?A i x \<and> (\<forall>y \<in> set (budgets db). ?A i y \<longrightarrow> effective_key y \<le> effective_key x)"
    for i unfolding a_def by (rule fetchone_sorted_best)
  have res: "sql_resolve_effective (Some cl) acc s e db
      = (case acc of None \<Rightarrow> c | Some i \<Rightarrow> (case a i of Some r \<Rightarrow> Some r | None \<Rightarrow> c))"
    unfolding c_def a_def by (cases acc) (simp_all add: sql_resolve_effective_def Let_def)
  show ?thesis
  proof (cases acc)
    case None
    with C show ?thesis unfolding res cand by (cases c) (simp_all add: preferred_to_def)
  next
    case (Some i)
    with C A [of i] show ?thesis unfolding res cand
      by (cases c; cases "a i") (auto simp: preferred_to_def)
  qed
qed

theorem resolve_effective_best_witness:
  "sql_resolve_effective (Some 1) (Some 7) 5 9 ex_db2 = Some (new_budget_row 21 1001 (ex_account_budget 7 60))
   \<and> preferred_to (new_budget_row 21 1001 (ex_account_budget 7 60)) (new_budget_row 20 1000 ex_client_budget)"
proof -
  have r: "sql_resolve_effective (Some 1) (Some 7) 5 9 ex_db2 = Some (new_budget_row 21 1001 (ex_account_budget 7 60))"
    by code_simp
  have "new_budget_row 20 1000 ex_client_budget \<in> set (budgets ex_db2)"
    "effective_candidate 1 (Some 7) 5 9 (new_budget_row 20 1000 ex_client_budget)" by (code_simp, code_simp)
  then show ?thesis using resolve_effective_best [where db = ex_db2 and cl = 1 and acc = "Some 7" and s = 5 and e = 9] r by auto
qed

section \<open>list_transfers\<close>
lemma transfers_window_facts:
  fixes direction limit i db
  defines "P \<equiv> \<lambda>t. (direction \<noteq> ''outgoing'' \<and> x_target t = i) \<or> (direction \<noteq> ''incoming'' \<and> x_source t = i)"
  defines "out \<equiv> sql_list_transfers i direction limit db"
  shows "set out \<subseteq> {t \<in> set (transfers db). P t}"
    "length out = min (nat (max 1 (min limit 200))) (length (filter P (transfers db)))"
    "sorted_wrt (\<lambda>t u. (x_created_at u, x_id u) \<le> (x_created_at t, x_id t)) out"
    "length (filter P (transfers db)) \<le> 1 \<or> length (filter P (transfers db)) \<le> nat limit
       \<and> limit \<le> 200 \<Longrightarrow> set out = {t \<in> set (transfers db). P t}"
proof -
  let ?k = "\<lambda>t. (x_created_at t, x_id t)"
  have f: "out = take (nat (max 1 (min limit 200))) (sort_desc ?k (filter P (transfers db)))"
    unfolding out_def sql_list_transfers_def P_def Let_def
    by (intro arg_cong2 [where f = take] arg_cong [where f = "sort_desc ?k"] filter_cong refl) auto
  show "set out \<subseteq> {t \<in> set (transfers db). P t}"
    using set_take_subset [of _ "sort_desc ?k (filter P (transfers db))"] by (auto simp: f)
  show "length out = min (nat (max 1 (min limit 200))) (length (filter P (transfers db)))"
    by (simp add: f min.commute)
  show "sorted_wrt (\<lambda>t u. ?k u \<le> ?k t) out" unfolding f by (rule sorted_wrt_take [OF sort_desc_sorted])
  show "set out = {t \<in> set (transfers db). P t}"
    if "length (filter P (transfers db)) \<le> 1 \<or> length (filter P (transfers db)) \<le> nat limit \<and> limit \<le> 200"
  proof -
    have "length (filter P (transfers db)) \<le> nat (max 1 (min limit 200))" using that by linarith
    then show ?thesis by (auto simp: f)
  qed
qed

text \<open>
  \<open>list_transfers\<close> returns at least one and at most 200 of the transfers that touch the
  budget (all of them when the clamped limit allows), newest first, and nothing else; an unknown
  direction means both.
\<close>
theorem list_transfers_window:
  fixes direction limit i db
  defines "P \<equiv> \<lambda>t. (direction \<noteq> ''outgoing'' \<and> x_target t = i) \<or> (direction \<noteq> ''incoming'' \<and> x_source t = i)"
  shows "set (sql_list_transfers i direction limit db) \<subseteq> {t \<in> set (transfers db). P t}
    \<and> length (sql_list_transfers i direction limit db)
        = min (nat (max 1 (min limit 200))) (length (filter P (transfers db)))
    \<and> sorted_wrt (\<lambda>t u. (x_created_at u, x_id u) \<le> (x_created_at t, x_id t)) (sql_list_transfers i direction limit db)
    \<and> (length (filter P (transfers db)) \<le> 1 \<or> length (filter P (transfers db)) \<le> nat limit \<and> limit \<le> 200 \<longrightarrow>
        set (sql_list_transfers i direction limit db) = {t \<in> set (transfers db). P t})"
  unfolding P_def by (intro conjI impI transfers_window_facts)

theorem list_transfers_window_witness:
  "length (transfers ex_db3) = 1 \<and> set (sql_list_transfers 21 ''outgoing'' 0 ex_db3) = set (transfers ex_db3)"
proof -
  have l: "length (transfers ex_db3) = 1" by code_simp
  have "filter (\<lambda>t. (''outgoing'' \<noteq> ''outgoing'' \<and> x_target t = 21) \<or> (''outgoing'' \<noteq> ''incoming'' \<and> x_source t = 21))
      (transfers ex_db3) = transfers ex_db3" by code_simp
  then have "\<forall>t \<in> set (transfers ex_db3). x_source t = 21" by (auto simp: filter_id_conv)
  with list_transfers_window [where direction = "''outgoing''" and i = 21 and db = ex_db3 and limit = 0] l show ?thesis by auto
qed

end
