(* ===== verification/Budget_Memory.thy ===== *)
theory Budget_Memory
  imports Budget_Sqlite "HOL-Library.AList"
begin

text \<open>
  \<open>InMemoryBudgetStore\<close> of \<open>app/services/budgets.py\<close>.  A Python \<open>dict\<close> is an
  association list in insertion order: assigning to a present key keeps its place, as
  \<open>AList.update\<close> does.  The operations are written as their methods are; they share the
  validation helpers and the row builders of \<open>Budget_Types\<close> and \<open>Budget_Sqlite\<close> where
  the two classes build the same record.
\<close>

record budget_mem =
  items :: "(uuid \<times> budget) list"
  hist :: "(uuid \<times> budget_history list) list"
  mem_transfers :: "budget_transfer list"

definition mem_values :: "budget_mem \<Rightarrow> budget list" where
  "mem_values st = map snd (items st)"

definition mem_hist_of :: "uuid \<Rightarrow> budget_mem \<Rightarrow> budget_history list" where
  "mem_hist_of i st = (case map_of (hist st) i of None \<Rightarrow> [] | Some hs \<Rightarrow> hs)"

definition mem_set_item :: "uuid \<Rightarrow> budget \<Rightarrow> budget_mem \<Rightarrow> budget_mem" where
  "mem_set_item i r st = st\<lparr>items := AList.update i r (items st)\<rparr>"

definition mem_add_history ::
  "uuid \<Rightarrow> timestamp \<Rightarrow> uuid option \<Rightarrow> budget \<Rightarrow> budget \<Rightarrow> budget_mem \<Rightarrow> budget_mem" where
  "mem_add_history i now changed_by previous new_values st =
     st\<lparr>hist := AList.update i (mem_hist_of i st @
        [\<lparr>h_id = length (mem_hist_of i st) + 1, h_budget = i, h_changed_at = now,
          h_changed_by = changed_by, h_previous = previous, h_new = new_values\<rparr>]) (hist st)\<rparr>"

section \<open>Guards\<close>

definition mem_overlap_at ::
  "budget_scope \<Rightarrow> uuid \<Rightarrow> uuid option \<Rightarrow> date \<Rightarrow> date \<Rightarrow> uuid option \<Rightarrow> budget \<Rightarrow> budget_error option" where
  "mem_overlap_at scope client_id account_id start_date end_date excl b =
     (if b_status b \<noteq> Active then None
      else if excl = Some (b_id b) then None
      else if \<not> date_overlap start_date end_date (b_start b) (b_end b) then None
      else if scope = ClientScope \<and> b_scope b = ClientScope \<and> b_client b = client_id
        then Some (ActiveOverlap ClientScope (Some client_id))
      else if scope = AccountScope \<and> b_scope b = AccountScope \<and> b_account b = account_id
        then Some (ActiveOverlap AccountScope account_id)
      else None)"

definition mem_assert_no_overlap ::
  "budget list \<Rightarrow> budget_scope \<Rightarrow> uuid \<Rightarrow> uuid option \<Rightarrow> date \<Rightarrow> date \<Rightarrow> uuid option \<Rightarrow> budget_error option" where
  "mem_assert_no_overlap values scope client_id account_id start_date end_date excl =
     first_error (map (mem_overlap_at scope client_id account_id start_date end_date excl) values)"

definition mem_accounts_total :: "budget list \<Rightarrow> date \<Rightarrow> date \<Rightarrow> rat" where
  "mem_accounts_total rows start_date end_date =
     q_money (sum_list (map (\<lambda>b. q_money (b_amount b))
       (filter (\<lambda>b. b_scope b = AccountScope \<and> date_overlap start_date end_date (b_start b) (b_end b)) rows)))"

definition mem_assert_allocation ::
  "budget list \<Rightarrow> budget_scope \<Rightarrow> uuid \<Rightarrow> rat \<Rightarrow> date \<Rightarrow> date \<Rightarrow> budget_status \<Rightarrow> uuid option
     \<Rightarrow> budget_error option" where
  "mem_assert_allocation values scope client_id amount start_date end_date status excl =
     (if status \<noteq> Active then None
      else
        (let rows = filter (\<lambda>b. b_status b = Active \<and> (excl = None \<or> excl \<noteq> Some (b_id b))
                       \<and> b_client b = client_id) values in
         if scope = ClientScope then
           (let accounts_total = mem_accounts_total rows start_date end_date
            in raise_if (accounts_total > q_money amount) (ClientBelowAllocated accounts_total (q_money amount)))
         else
           first_error (map (\<lambda>c.
               (let projected_total = mem_accounts_total rows (b_start c) (b_end c) + q_money amount
                in raise_if (projected_total > q_money (b_amount c))
                  (AllocationExceedsCap (b_start c) (b_end c) projected_total (q_money (b_amount c)) (b_id c))))
             (sort_key (\<lambda>x. (b_start x, b_id x))
               (filter (\<lambda>b. b_scope b = ClientScope \<and> date_overlap start_date end_date (b_start b) (b_end b))
                  rows)))))"

section \<open>Operations\<close>

definition mem_get :: "uuid \<Rightarrow> budget_mem \<Rightarrow> budget option" where
  "mem_get i st = map_of (items st) i"

definition mem_create :: "uuid \<Rightarrow> timestamp \<Rightarrow> budget_create \<Rightarrow> budget_mem \<Rightarrow> budget_error + (budget \<times> budget_mem)" where
  "mem_create budget_id now p st =
     (case first_error
        [validate_period (c_start p) (c_end p),
         validate_scope (c_scope p) (c_account p),
         mem_assert_no_overlap (mem_values st) (c_scope p) (c_client p) (c_account p) (c_start p) (c_end p) None,
         mem_assert_allocation (mem_values st) (c_scope p) (c_client p) (c_amount p) (c_start p) (c_end p) Active None]
      of Some e \<Rightarrow> Inl e
       | None \<Rightarrow>
          (let rec = new_budget_row budget_id now p in Inr (rec, mem_set_item (b_id rec) rec st)))"

definition mem_list ::
  "uuid option \<Rightarrow> uuid option \<Rightarrow> status_filter option \<Rightarrow> date option \<Rightarrow> date option \<Rightarrow> budget_mem \<Rightarrow> budget list" where
  "mem_list client_id account_id status date_from date_to st =
     (let rows0 = mem_values st;
          rows1 = (case client_id of None \<Rightarrow> rows0 | Some c \<Rightarrow> filter (\<lambda>r. b_client r = c) rows0);
          rows2 = (case account_id of None \<Rightarrow> rows1 | Some a \<Rightarrow> filter (\<lambda>r. b_account r = Some a) rows1);
          effective_status = (case status of None \<Rightarrow> StatusIs Active | Some s \<Rightarrow> s);
          rows3 = (case effective_status of StatusAll \<Rightarrow> rows2 | StatusIs s \<Rightarrow> filter (\<lambda>r. b_status r = s) rows2);
          rows4 = (case date_from of None \<Rightarrow> rows3 | Some d \<Rightarrow> filter (\<lambda>r. b_end r \<ge> d) rows3);
          rows5 = (case date_to of None \<Rightarrow> rows4 | Some d \<Rightarrow> filter (\<lambda>r. b_start r \<le> d) rows4)
      in sort_desc b_updated_at rows5)"

definition mem_patch :: "timestamp \<Rightarrow> uuid \<Rightarrow> budget_patch \<Rightarrow> budget_mem \<Rightarrow> budget_error + (budget \<times> budget_mem)" where
  "mem_patch now budget_id p st =
     (case mem_get budget_id st of
        None \<Rightarrow> Inl BudgetNotFound
      | Some existing \<Rightarrow>
          if patch_empty p then Inr (existing, st)
          else
            (let merged = merge_patch existing p in
             case first_error
               [validate_period (b_start merged) (b_end merged),
                validate_scope (b_scope merged) (b_account merged)]
             of Some e \<Rightarrow> Inl e
              | None \<Rightarrow>
                  if normalize_budget merged = normalize_budget existing then Inr (existing, st)
                  else
                    (case (if b_status merged = Active then first_error
                        [mem_assert_no_overlap (mem_values st) (b_scope merged) (b_client merged)
                           (b_account merged) (b_start merged) (b_end merged) (Some budget_id),
                         mem_assert_allocation (mem_values st) (b_scope merged) (b_client merged)
                           (q_money (b_amount merged)) (b_start merged) (b_end merged) (b_status merged)
                           (Some budget_id)]
                        else None)
                     of Some e \<Rightarrow> Inl e
                      | None \<Rightarrow>
                          (let rec = patched_row now existing p
                           in Inr (rec, mem_add_history budget_id now (p_changed_by p) existing rec
                                (mem_set_item budget_id rec st))))))"

definition mem_archive :: "timestamp \<Rightarrow> uuid \<Rightarrow> budget_mem \<Rightarrow> budget_error + (budget \<times> budget_mem)" where
  "mem_archive now budget_id st =
     (case mem_get budget_id st of
        None \<Rightarrow> Inl BudgetNotFound
      | Some existing \<Rightarrow>
          (let rec = archived_row now existing in Inr (rec, mem_set_item budget_id rec st)))"

definition mem_transfer_target :: "budget list \<Rightarrow> budget \<Rightarrow> uuid \<Rightarrow> budget option" where
  "mem_transfer_target values source target_account =
     (case filter (\<lambda>b. b_status b = Active \<and> b_scope b = AccountScope \<and> b_client b = b_client source
         \<and> b_account b = Some target_account
         \<and> date_overlap (b_start source) (b_end source) (b_start b) (b_end b)) values of
        [] \<Rightarrow> None
      | c # cs \<Rightarrow> Some (hd (sort_desc (\<lambda>x. (b_version x, b_updated_at x)) (c # cs))))"

definition mem_transfer ::
  "uuid \<Rightarrow> timestamp \<Rightarrow> uuid \<Rightarrow> transfer_request \<Rightarrow> budget_mem \<Rightarrow> budget_error + (transfer_response \<times> budget_mem)" where
  "mem_transfer new_id now source_id p st =
     (case mem_get source_id st of
        None \<Rightarrow> Inl BudgetNotFound
      | Some source \<Rightarrow>
         (let transfer_amount = q_money (t_amount p); source_amount = q_money (b_amount source) in
          case first_error
            [raise_if (b_scope source \<noteq> AccountScope \<or> b_account source = None) TransferNotAccountScope,
             raise_if (b_status source \<noteq> Active) SourceNotActive,
             raise_if (b_account source = Some (t_target_account p)) SameTargetAccount,
             raise_if (transfer_amount \<le> 0) TransferNotPositive,
             raise_if (transfer_amount > source_amount) TransferExceedsSource]
          of Some e \<Rightarrow> Inl e
           | None \<Rightarrow>
              (let source_next = moved_row (q_money (source_amount - transfer_amount)) now (t_note p) source;
                   target = mem_transfer_target (mem_values st) source (t_target_account p);
                   target_next = (case target of
                       Some t \<Rightarrow> moved_row (q_money (q_money (b_amount t) + transfer_amount)) now (t_note p) t
                     | None \<Rightarrow> transfer_new_target new_id now transfer_amount p source);
                   projected = mem_set_item (b_id source) source_next st
               in case first_error
                   [(case target of
                       Some t \<Rightarrow> raise_if (str_upper (b_currency t) \<noteq> str_upper (b_currency source)) TargetBudgetCurrency
                     | None \<Rightarrow> None),
                    mem_assert_allocation (mem_values projected) AccountScope (b_client source)
                      (b_amount target_next) (b_start target_next) (b_end target_next) Active
                      (case target of Some t \<Rightarrow> Some (b_id t) | None \<Rightarrow> None)]
                  of Some e \<Rightarrow> Inl e
                   | None \<Rightarrow>
                      (let st1 = mem_set_item (b_id target_next) target_next projected;
                           st2 = mem_add_history (b_id source) now (t_changed_by p) source source_next st1;
                           st3 = (case target of
                               Some t \<Rightarrow> mem_add_history (b_id t) now (t_changed_by p) t target_next st2
                             | None \<Rightarrow> st2)
                       in Inr (\<lparr>source_budget = source_next, target_budget = target_next,
                                transferred_amount = transfer_amount\<rparr>,
                            st3\<lparr>mem_transfers := mem_transfers st3 @
                              [\<lparr>x_id = length (mem_transfers st3) + 1, x_source = b_id source_next,
                                x_target = b_id target_next, x_amount = transfer_amount, x_note = t_note p,
                                x_changed_by = t_changed_by p, x_created_at = now\<rparr>]\<rparr>)))))"

section \<open>Reads\<close>

definition mem_history :: "uuid \<Rightarrow> budget_mem \<Rightarrow> budget_history list" where
  "mem_history budget_id st = rev (mem_hist_of budget_id st)"

definition mem_list_transfers :: "uuid \<Rightarrow> string \<Rightarrow> int \<Rightarrow> budget_mem \<Rightarrow> budget_transfer list" where
  "mem_list_transfers budget_id direction limit st =
     (let safe_limit = max 1 (min limit 200);
          rows = (if direction = ''incoming'' then filter (\<lambda>t. x_target t = budget_id) (mem_transfers st)
             else if direction = ''outgoing'' then filter (\<lambda>t. x_source t = budget_id) (mem_transfers st)
             else filter (\<lambda>t. x_source t = budget_id \<or> x_target t = budget_id) (mem_transfers st))
      in take (nat safe_limit) (sort_desc x_created_at rows))"

definition mem_resolve_effective ::
  "uuid option \<Rightarrow> uuid option \<Rightarrow> date \<Rightarrow> date \<Rightarrow> budget_mem \<Rightarrow> budget option" where
  "mem_resolve_effective client_id account_id period_start period_end st =
     (case client_id of None \<Rightarrow> None
      | Some cl \<Rightarrow>
         (let candidates = filter (\<lambda>b. b_status b = Active \<and> b_client b = cl
                \<and> b_end b \<ge> period_start \<and> b_start b \<le> period_end) (mem_values st);
              client_rows = sort_desc effective_key
                (filter (\<lambda>b. b_scope b = ClientScope \<and> b_account b = None) candidates)
          in case account_id of
               None \<Rightarrow> fetchone client_rows
             | Some a \<Rightarrow>
                (case sort_desc effective_key
                    (filter (\<lambda>b. b_scope b = AccountScope \<and> b_account b = Some a) candidates) of
                   r # _ \<Rightarrow> Some r
                 | [] \<Rightarrow> fetchone client_rows)))"

end
