(* ===== verification/Dictionaries.thy ===== *)
theory Dictionaries
  imports Prelude "HOL-Library.AList"
begin

text \<open>
  A Python \<open>dict\<close> that holds records under their own key, against the list of those records: what
  the in-memory stores share with the tables of the SQL stores.
\<close>

definition dict_keyed :: "('r \<Rightarrow> 'k) \<Rightarrow> ('k \<times> 'r) list \<Rightarrow> bool" where
  "dict_keyed key al \<longleftrightarrow> (\<forall>e \<in> set al. fst e = key (snd e)) \<and> distinct (map fst al)"

lemma dict_keys: "dict_keyed key al \<Longrightarrow> map key (map snd al) = map fst al"
  by (simp add: dict_keyed_def)

lemma dict_get: "dict_keyed key al \<Longrightarrow> map_of al i = find (\<lambda>r. key r = i) (map snd al)"
  by (induction al) (auto simp: dict_keyed_def)

lemma dict_insert:
  assumes "dict_keyed key al" "i \<notin> key ` set (map snd al)" "key r = i"
  shows "AList.update i r al = al @ [(i, r)]" "dict_keyed key (al @ [(i, r)])"
proof -
  have n: "i \<notin> fst ` set al" using assms(1,2) by (auto simp: dict_keyed_def)
  then show "AList.update i r al = al @ [(i, r)]" by (induction al) auto
  show "dict_keyed key (al @ [(i, r)])" using assms n by (auto simp: dict_keyed_def)
qed

lemma dict_replace:
  assumes "dict_keyed key al" "i \<in> key ` set (map snd al)"
  shows "map snd (AList.update i r al) = update_rows (\<lambda>x. key x = i) (\<lambda>_. r) (map snd al)"
  using assms
proof (induction al)
  case (Cons e al)
  obtain k x where e: "e = (k, x)" by (cases e)
  have tl: "dict_keyed key al" "k = key x" "key x \<notin> key ` set (map snd al)"
    using Cons.prems(1) by (force simp: dict_keyed_def e)+
  show ?case
  proof (cases "i = key x")
    case True
    have "update_rows (\<lambda>x. key x = i) (\<lambda>_. r) (map snd al) = map snd al"
      by (rule update_rows_id) (use tl(3) True in \<open>metis imageI\<close>)
    with True show ?thesis by (simp add: e tl(2))
  next
    case False
    then have "i \<in> key ` set (map snd al)" using Cons.prems(2) by (auto simp: e)
    with False Cons.IH [OF tl(1)] show ?thesis by (simp add: e tl(2))
  qed
qed simp

lemma dict_update:
  assumes "dict_keyed key al" "i \<in> key ` set (map snd al)" "key r = i"
  shows "map snd (AList.update i r al) = update_rows (\<lambda>x. key x = i) (\<lambda>_. r) (map snd al)"
    "dict_keyed key (AList.update i r al)"
proof -
  show "map snd (AList.update i r al) = update_rows (\<lambda>x. key x = i) (\<lambda>_. r) (map snd al)"
    by (rule dict_replace [OF assms(1,2)])
  have "fst e = key (snd e)" if "e \<in> set (AList.update i r al)" for e
    using that assms(1,3) by (induction al) (auto simp: dict_keyed_def split: if_splits)
  then show "dict_keyed key (AList.update i r al)" using assms(1) by (simp add: dict_keyed_def distinct_update)
qed

end
