(* ===== verification/Budget_Refinement.thy ===== *)
theory Budget_Refinement
  imports Budget_Contracts Budget_Memory Dictionaries
begin

text \<open>
  The in-memory store against the SQL store.  \<open>refines\<close> says that a memory state and a
  database hold the same budgets in the same order, the same history per budget and the same
  transfers, up to the row ids the two count differently.  \<open>create\<close>, \<open>archive\<close> and,
  where the scope is kept, \<open>patch\<close> agree on results, errors and states; every transfer
  the SQL store commits the memory store commits too, with the same result.  Both stores satisfy
  the interface \<open>budget_store\<close> that the routes rely on.
\<close>

section \<open>The relation\<close>

definition strip_h :: "budget_history \<Rightarrow> budget_history" where
  "strip_h h = h\<lparr>h_id := 0\<rparr>"

definition strip_x :: "budget_transfer \<Rightarrow> budget_transfer" where
  "strip_x t = t\<lparr>x_id := 0\<rparr>"

definition keyed :: "budget_mem \<Rightarrow> bool" where
  "keyed st \<longleftrightarrow> (\<forall>e \<in> set (items st). fst e = b_id (snd e)) \<and> distinct (map fst (items st))"

definition refines :: "budget_mem \<Rightarrow> budget_db \<Rightarrow> bool" where
  "refines st db \<longleftrightarrow> keyed st \<and> budgets db = mem_values st
     \<and> (\<forall>i. map strip_h (filter (\<lambda>h. h_budget h = i) (history db)) = map strip_h (mem_hist_of i st))
     \<and> map strip_x (transfers db) = map strip_x (mem_transfers st)"

lemma keyed_ids: "keyed st \<Longrightarrow> map b_id (mem_values st) = map fst (items st)"
  by (auto simp: keyed_def mem_values_def)

lemma keyed_distinct: "keyed st \<Longrightarrow> distinct (map b_id (mem_values st))"
  by (simp add: keyed_ids) (simp add: keyed_def)

lemma keyed_get: "keyed st \<Longrightarrow> mem_get i st = find (\<lambda>r. b_id r = i) (mem_values st)"
proof -
  have "(\<forall>e \<in> set xs. fst e = b_id (snd e)) \<Longrightarrow> map_of xs i = find (\<lambda>r. b_id r = i) (map snd xs)" for xs
    by (induction xs) auto
  from this [of "items st"] show "keyed st \<Longrightarrow> mem_get i st = find (\<lambda>r. b_id r = i) (mem_values st)"
    by (simp add: keyed_def mem_get_def mem_values_def)
qed

lemma update_fresh: "i \<notin> fst ` set xs \<Longrightarrow> AList.update i r xs = xs @ [(i, r)]"
  by (induction xs) auto

lemma update_present:
  "(\<forall>e \<in> set xs. fst e = b_id (snd e)) \<Longrightarrow> distinct (map fst xs) \<Longrightarrow> i \<in> fst ` set xs \<Longrightarrow>
     map snd (AList.update i r xs) = update_rows (\<lambda>x. b_id x = i) (\<lambda>_. r) (map snd xs)"
  by (rule dict_replace) (force simp: dict_keyed_def)+

lemma mem_values_set_item:
  assumes "keyed st" and "b_id r = i"
  shows "mem_values (mem_set_item i r st) = put_row r (mem_values st)"
proof -
  have ids: "b_id ` set (mem_values st) = fst ` set (items st)"
    using arg_cong [OF keyed_ids [OF assms(1)], of set] by simp
  show ?thesis
  proof (cases "i \<in> fst ` set (items st)")
    case True
    with assms ids show ?thesis
      by (simp add: mem_set_item_def put_row_def keyed_def update_present mem_values_def)
  next
    case False
    with assms ids show ?thesis by (simp add: mem_set_item_def put_row_def update_fresh mem_values_def)
  qed
qed

lemma set_AList_update: "set (AList.update k v al) \<subseteq> insert (k, v) (set al)"
  by (induction al) auto

lemma keyed_set_item: "keyed st \<Longrightarrow> b_id r = i \<Longrightarrow> keyed (mem_set_item i r st)"
  using set_AList_update [of i r "items st"]
  by (auto simp: keyed_def mem_set_item_def distinct_update)

lemma mem_hist_of_add [simp]:
  "mem_hist_of j (mem_add_history i now cb pv nv st) =
     (if j = i then mem_hist_of i st @ [\<lparr>h_id = length (mem_hist_of i st) + 1, h_budget = i,
        h_changed_at = now, h_changed_by = cb, h_previous = pv, h_new = nv\<rparr>] else mem_hist_of j st)"
  by (simp add: mem_add_history_def mem_hist_of_def update_conv')

lemma mem_add_history_simps [simp]:
  "items (mem_add_history i now cb pv nv st) = items st"
  "mem_transfers (mem_add_history i now cb pv nv st) = mem_transfers st"
  "mem_values (mem_add_history i now cb pv nv st) = mem_values st"
  "keyed (mem_add_history i now cb pv nv st) = keyed st"
  by (simp_all add: mem_add_history_def mem_values_def keyed_def)

lemma mem_set_item_simps [simp]:
  "mem_hist_of j (mem_set_item i r st) = mem_hist_of j st"
  "mem_transfers (mem_set_item i r st) = mem_transfers st"
  by (simp_all add: mem_set_item_def mem_hist_of_def)

lemma refines_put:
  assumes "refines st db" and "b_id r = i"
  shows "refines (mem_set_item i r st) (db\<lparr>budgets := put_row r (budgets db)\<rparr>)"
  using assms mem_values_set_item [of st r i] keyed_set_item [of st r i] by (simp add: refines_def)

lemma refines_history:
  assumes "refines st db"
  shows "refines (mem_add_history i now cb pv nv st) (insert_history i now cb pv nv db)"
  using assms by (simp add: refines_def insert_history_def strip_h_def)

lemma refines_get: "refines st db \<Longrightarrow> mem_get i st = sql_get i db"
  by (simp add: refines_def keyed_get sql_get_def)

section \<open>The guards agree\<close>

lemma first_error_uniform:
  "(\<And>x. x \<in> set xs \<Longrightarrow> f x = raise_if (P x) e) \<Longrightarrow> first_error (map f xs) = raise_if (filter P xs \<noteq> []) e"
proof (induction xs)
  case (Cons x xs)
  then show ?case by (cases "P x") (simp_all add: first_error_Cons raise_if_def)
qed simp

lemma mem_overlap_eq:
  assumes "scope = AccountScope \<Longrightarrow> acc \<noteq> None"
  shows "mem_assert_no_overlap rows scope cl acc s e excl = sql_assert_no_overlap rows scope cl acc s e excl"
proof -
  have "mem_assert_no_overlap rows scope cl acc s e excl
      = raise_if (overlap_rows rows scope cl acc s e excl \<noteq> [])
          (ActiveOverlap scope (if scope = ClientScope then Some cl else acc))"
  proof (cases scope)
    case ClientScope
    show ?thesis unfolding mem_assert_no_overlap_def overlap_rows_def ClientScope budget_scope.case
      by (rule first_error_uniform)
        (auto simp: mem_overlap_at_def raise_if_def date_overlap_def not_excluded_def)
  next
    case AccountScope
    show ?thesis unfolding mem_assert_no_overlap_def overlap_rows_def AccountScope budget_scope.case
      using assms AccountScope
      by (intro first_error_uniform)
        (auto simp: mem_overlap_at_def raise_if_def date_overlap_def not_excluded_def)
  qed
  then show ?thesis by (simp add: sql_assert_no_overlap_def)
qed

lemma mem_accounts_total_eq:
  "mem_accounts_total (filter (\<lambda>b. b_status b = Active \<and> (excl = None \<or> excl \<noteq> Some (b_id b)) \<and> b_client b = cl) rows) s e
     = amount_total (account_rows rows cl s e excl)"
  unfolding mem_accounts_total_def amount_total_def account_rows_def filter_filter
  by (intro arg_cong [where f = q_money] arg_cong [where f = sum_list] arg_cong [where f = "map _"] filter_cong refl)
    (auto simp: date_overlap_def not_excluded_def)

text \<open>
  The SQL check reads every client budget as a cap, the memory check all but the excluded one:
  they agree unless the excluded budget is itself an active client budget.
\<close>

lemma mem_allocation_eq:
  assumes "scope = AccountScope \<Longrightarrow> \<forall>c \<in> set rows. excl = Some (b_id c) \<longrightarrow> b_scope c = AccountScope"
  shows "mem_assert_allocation rows scope cl amt s e stt excl = sql_assert_allocation rows scope cl amt s e stt excl"
proof (cases scope)
  case ClientScope
  then show ?thesis
    by (simp add: mem_assert_allocation_def sql_assert_allocation_def Let_def mem_accounts_total_eq)
next
  case AccountScope
  have "filter (\<lambda>b. b_scope b = ClientScope \<and> date_overlap s e (b_start b) (b_end b))
       (filter (\<lambda>b. b_status b = Active \<and> (excl = None \<or> excl \<noteq> Some (b_id b)) \<and> b_client b = cl) rows)
     = filter (\<lambda>r. b_status r = Active \<and> b_scope r = ClientScope \<and> b_client r = cl
          \<and> b_start r \<le> e \<and> b_end r \<ge> s) rows"
    unfolding filter_filter
  proof (rule filter_cong [OF refl])
    fix x assume x: "x \<in> set rows"
    show "((b_status x = Active \<and> (excl = None \<or> excl \<noteq> Some (b_id x)) \<and> b_client x = cl) \<and>
        b_scope x = ClientScope \<and> date_overlap s e (b_start x) (b_end x))
      = (b_status x = Active \<and> b_scope x = ClientScope \<and> b_client x = cl \<and> b_start x \<le> e \<and> b_end x \<ge> s)"
      using assms [OF AccountScope] x by (auto simp: date_overlap_def)
  qed
  then show ?thesis using AccountScope
    by (simp add: mem_assert_allocation_def sql_assert_allocation_def client_cap_rows_def Let_def
        mem_accounts_total_eq cap_check_def [abs_def])
qed

lemma row_unique:
  "distinct (map b_id rows) \<Longrightarrow> x \<in> set rows \<Longrightarrow> y \<in> set rows \<Longrightarrow> b_id x = b_id y \<Longrightarrow> x = y"
  by (simp add: distinct_map inj_on_def)

section \<open>The operations agree\<close>

text \<open>Both fail alike, or both succeed with the same result in related states.\<close>

definition same_outcome :: "budget_error + ('a \<times> budget_mem) \<Rightarrow> budget_error + ('a \<times> budget_db) \<Rightarrow> bool" where
  "same_outcome m q = (case (m, q) of
      (Inl e, Inl e') \<Rightarrow> e = e'
    | (Inr (r, st'), Inr (r', db')) \<Rightarrow> r = r' \<and> refines st' db'
    | _ \<Rightarrow> False)"

lemma same_outcome_simps [simp]:
  "same_outcome (Inl e) (Inl e') \<longleftrightarrow> e = e'"
  "same_outcome (Inr (r, st')) (Inr (r', db')) \<longleftrightarrow> r = r' \<and> refines st' db'"
  by (simp_all add: same_outcome_def)

text \<open>
  On related states and a fresh id, \<open>create\<close> of the in-memory store and of the SQL store
  raise the same error or return the same budget and stay related.
\<close>
theorem create_refines:
  assumes ref: "refines st db" and valid: "create_valid p" and fresh: "i \<notin> b_id ` set (budgets db)"
  shows "same_outcome (mem_create i now p st) (sql_create i now p db)"
proof -
  have b: "mem_values st = budgets db" using ref by (simp add: refines_def)
  have acc: "c_scope p = AccountScope \<Longrightarrow> c_account p \<noteq> None" using valid by (auto simp: create_valid_def)
  let ?g = "first_error
        [validate_period (c_start p) (c_end p), validate_scope (c_scope p) (c_account p),
         sql_assert_no_overlap (budgets db) (c_scope p) (c_client p) (c_account p) (c_start p) (c_end p) None,
         sql_assert_allocation (budgets db) (c_scope p) (c_client p) (c_amount p) (c_start p) (c_end p) Active None]"
  let ?r = "new_budget_row i now p"
  have m: "mem_create i now p st = (case ?g of Some e \<Rightarrow> Inl e | None \<Rightarrow> Inr (?r, mem_set_item i ?r st))"
    using mem_overlap_eq [OF acc] mem_allocation_eq [where excl = None]
    by (simp add: mem_create_def b Let_def new_budget_row_def cong: option.case_cong)
  have ins: "insert_budget ?r db = Inr (db\<lparr>budgets := put_row ?r (budgets db)\<rparr>)"
    using fresh valid
    by (auto simp: insert_budget_def row_ok_def put_row_def new_budget_row_def create_valid_def)
  show ?thesis
  proof (cases ?g)
    case None
    then show ?thesis using refines_put [OF ref, of ?r i]
      by (simp add: m sql_create_def ins) (simp add: new_budget_row_def)
  next
    case (Some e)
    then show ?thesis by (simp add: m sql_create_def)
  qed
qed

text \<open>
  \<open>archive\<close> of the two stores agree: the same 404, or the same archived row and related
  states.
\<close>
theorem archive_refines:
  assumes ref: "refines st db"
  shows "same_outcome (mem_archive now i st) (sql_archive now i db)"
proof (cases "sql_get i db")
  case None
  then show ?thesis using refines_get [OF ref, of i] by (simp add: mem_archive_def sql_archive_def)
next
  case (Some r)
  have d: "distinct (map b_id (budgets db))" using ref by (simp add: refines_def keyed_distinct)
  have "sql_archive now i db = Inr (archived_row now r,
      db\<lparr>budgets := put_row (archived_row now r) (budgets db)\<rparr>)"
  proof -
    obtain x db' where ok: "sql_archive now i db = Inr (x, db')" using Some by (simp add: sql_archive_def)
    from sql_archiveD [OF ok d] Some ok show ?thesis by (metis option.inject)
  qed
  moreover have "b_id (archived_row now r) = i" using sql_getD [OF Some] by (simp add: archived_row_def)
  ultimately show ?thesis using refines_put [OF ref, of "archived_row now r" i] refines_get [OF ref, of i] Some
    by (simp add: mem_archive_def Let_def)
qed

text \<open>
  \<open>patch\<close> of the two stores agree on every request that does not turn a client budget
  into an account budget, over tables whose amounts are not negative.
\<close>
theorem patch_refines:
  assumes ref: "refines st db" and valid: "patch_valid p" and nonneg: "\<forall>r \<in> set (budgets db). 0 \<le> b_amount r"
    and scope: "\<forall>r. sql_get i db = Some r \<longrightarrow> p_scope p = Some AccountScope \<longrightarrow> b_scope r = AccountScope"
  shows "same_outcome (mem_patch now i p st) (sql_patch now i p db)"
proof (cases "sql_get i db")
  case None
  then show ?thesis using refines_get [OF ref, of i] by (simp add: mem_patch_def sql_patch_def)
next
  case (Some old)
  have b: "mem_values st = budgets db" using ref by (simp add: refines_def)
  have d: "distinct (map b_id (budgets db))" using ref by (simp add: refines_def keyed_distinct)
  from sql_getD [OF Some] have old: "old \<in> set (budgets db)" "b_id old = i" by auto
  let ?m = "merge_patch old p" and ?r = "patched_row now old p"
  have m_amt: "b_amount ?m = (case p_amount p of None \<Rightarrow> b_amount old | Some v \<Rightarrow> v)"
    and m_sc: "b_scope ?m = (case p_scope p of None \<Rightarrow> b_scope old | Some v \<Rightarrow> v)"
    by (simp_all add: merge_patch_def)
  have pos: "0 \<le> q_money (b_amount ?m)"
    using valid nonneg old(1) by (cases "p_amount p") (simp_all add: m_amt patch_valid_def q_money_nonneg)
  have sc: "b_scope ?m = AccountScope \<Longrightarrow> b_scope old = AccountScope"
    using scope Some by (cases "p_scope p") (simp_all add: m_sc)
  have excl: "\<forall>c \<in> set (budgets db). Some i = Some (b_id c) \<longrightarrow> b_scope c = AccountScope"
    if "b_scope ?m = AccountScope"
  proof (intro ballI impI)
    fix c assume "c \<in> set (budgets db)" "Some i = Some (b_id c)"
    then have "c = old" using row_unique [OF d _ old(1), of c] old(2) by simp
    then show "b_scope c = AccountScope" using sc [OF that] by simp
  qed
  show ?thesis
  proof (cases "patch_empty p \<or> validate_period (b_start ?m) (b_end ?m) \<noteq> None
      \<or> validate_scope (b_scope ?m) (b_account ?m) \<noteq> None \<or> normalize_budget ?m = normalize_budget old")
    case True
    then show ?thesis using ref refines_get [OF ref, of i] Some pos
      by (auto simp: mem_patch_def sql_patch_def Let_def first_error_Cons split: option.splits)
  next
    case False
    then have g: "\<not> patch_empty p" "validate_period (b_start ?m) (b_end ?m) = None"
      "validate_scope (b_scope ?m) (b_account ?m) = None" "normalize_budget ?m \<noteq> normalize_budget old" by auto
    have acc: "b_scope ?m = AccountScope \<Longrightarrow> b_account ?m \<noteq> None" using g(3) by (simp add: validate_scope_None)
    define chk where "chk = (if b_status ?m = Active then first_error
        [sql_assert_no_overlap (budgets db) (b_scope ?m) (b_client ?m) (b_account ?m)
           (b_start ?m) (b_end ?m) (Some i),
         sql_assert_allocation (budgets db) (b_scope ?m) (b_client ?m)
           (q_money (b_amount ?m)) (b_start ?m) (b_end ?m) (b_status ?m) (Some i)] else None)"
    have m: "mem_patch now i p st = (case chk of Some e \<Rightarrow> Inl e
        | None \<Rightarrow> Inr (?r, mem_add_history i now (p_changed_by p) old ?r (mem_set_item i ?r st)))"
    proof -
      have o: "mem_assert_no_overlap (budgets db) (b_scope ?m) (b_client ?m) (b_account ?m) (b_start ?m) (b_end ?m) (Some i)
          = sql_assert_no_overlap (budgets db) (b_scope ?m) (b_client ?m) (b_account ?m) (b_start ?m) (b_end ?m) (Some i)"
        by (rule mem_overlap_eq) (rule acc)
      have a: "mem_assert_allocation (budgets db) (b_scope ?m) cl amt s e stt (Some i)
          = sql_assert_allocation (budgets db) (b_scope ?m) cl amt s e stt (Some i)" for cl amt s e stt
        by (rule mem_allocation_eq) (rule excl)
      show ?thesis
        unfolding chk_def mem_patch_def refines_get [OF ref] Some b option.case Let_def o a
        using g by simp
    qed
    have row: "row_ok ?r" using pos g(3) by (auto simp: row_ok_def patched_row_def validate_scope_None)
    have r: "b_id ?r = i" using old(2) by (simp add: patched_row_def)
    have upd: "update_budget i (\<lambda>_. ?r) db = Inr (db\<lparr>budgets := put_row ?r (budgets db)\<rparr>)"
      using row put_row_update [OF d old r] by (simp add: update_budget_def)
    have q: "sql_patch now i p db = (case chk of Some e \<Rightarrow> Inl e
        | None \<Rightarrow> Inr (?r, insert_history i now (p_changed_by p) old ?r (db\<lparr>budgets := put_row ?r (budgets db)\<rparr>)))"
      unfolding chk_def sql_patch_def Some option.case Let_def upd sum.case using g pos by simp
    show ?thesis unfolding m q
      by (cases chk) (simp_all add: refines_history refines_put [OF ref r])
  qed
qed

lemma credit_target_state:
  assumes "sql_credit_target new_id now p amt src target_row db = Inr (t, db')" and d: "distinct (map b_id (budgets db))"
    and tg: "\<And>tgt. target_row = Some tgt \<Longrightarrow> tgt \<in> set (budgets db)"
  shows "db' = (case target_row of None \<Rightarrow> db\<lparr>budgets := put_row t (budgets db)\<rparr>
     | Some tgt \<Rightarrow> insert_history (b_id tgt) now (t_changed_by p) tgt t (db\<lparr>budgets := put_row t (budgets db)\<rparr>))"
    and "target_row = Some tgt \<Longrightarrow> str_upper (b_currency tgt) = str_upper (b_currency src)"
proof -
  have "(db' = (case target_row of None \<Rightarrow> db\<lparr>budgets := put_row t (budgets db)\<rparr>
     | Some tgt \<Rightarrow> insert_history (b_id tgt) now (t_changed_by p) tgt t (db\<lparr>budgets := put_row t (budgets db)\<rparr>)))
     \<and> (\<forall>tgt. target_row = Some tgt \<longrightarrow> str_upper (b_currency tgt) = str_upper (b_currency src))"
  proof (cases target_row)
    case None
    with assms(1) have "insert_budget t db = Inr db'"
      by (auto simp: sql_credit_target_def Let_def split: option.splits sum.splits)
    with None show ?thesis using insert_budgetD(1) by simp
  next
    case (Some g)
    let ?t = "moved_row (q_money (q_money (b_amount g) + amt)) now (t_note p) g"
    from assms(1) Some have cur: "str_upper (b_currency g) = str_upper (b_currency src)" and t: "t = ?t"
      and u: "\<exists>db1. update_budget (b_id g) (\<lambda>_. t) db = Inr db1
           \<and> db' = insert_history (b_id g) now (t_changed_by p) g t db1"
      by (auto simp: sql_credit_target_def Let_def guard_simps split: option.splits sum.splits)
    from u obtain db1 where db1: "update_budget (b_id g) (\<lambda>_. t) db = Inr db1"
      and db': "db' = insert_history (b_id g) now (t_changed_by p) g t db1" by blast
    have "db1 = db\<lparr>budgets := put_row t (budgets db)\<rparr>"
      using update_budgetD(1) [OF db1 d tg [OF Some]] t by simp
    with Some db' cur show ?thesis by simp
  qed
  then show "db' = (case target_row of None \<Rightarrow> db\<lparr>budgets := put_row t (budgets db)\<rparr>
     | Some tgt \<Rightarrow> insert_history (b_id tgt) now (t_changed_by p) tgt t (db\<lparr>budgets := put_row t (budgets db)\<rparr>))"
    and "target_row = Some tgt \<Longrightarrow> str_upper (b_currency tgt) = str_upper (b_currency src)" by blast+
qed

lemma mem_set_add_history:
  "mem_set_item k r (mem_add_history i now cb pv nv st) = mem_add_history i now cb pv nv (mem_set_item k r st)"
  by (simp add: mem_set_item_def mem_add_history_def mem_hist_of_def)

lemma refines_transfer_row:
  assumes "refines st db"
  shows "refines (st\<lparr>mem_transfers := mem_transfers st @ [\<lparr>x_id = n, x_source = a, x_target = c,
      x_amount = amt, x_note = note, x_changed_by = cb, x_created_at = now\<rparr>]\<rparr>)
    (insert_transfer a c amt note cb now db)"
  using assms
  by (simp add: refines_def insert_transfer_def strip_x_def keyed_def mem_values_def mem_hist_of_def)

text \<open>
  Whenever the SQL store commits a transfer, the in-memory store commits it too, returns the
  same budgets and the states stay related; the memory store refuses no transfer the SQL store
  accepts.
\<close>
theorem transfer_refines:
  assumes ref: "refines st db" and ok: "sql_transfer new_id now i p db = Inr (resp, db')"
  shows "\<exists>st'. mem_transfer new_id now i p st = Inr (resp, st') \<and> refines st' db'"
proof -
  let ?amt = "q_money (t_amount p)"
  have b: "mem_values st = budgets db" using ref by (simp add: refines_def)
  have d: "distinct (map b_id (budgets db))" using ref by (simp add: refines_def keyed_distinct)
  from ok d obtain src s t db1 db2 where src: "sql_get i db = Some src" and pos: "0 < ?amt"
    and g: "transfer_source_guards p ?amt src = None"
    and s: "s = moved_row (q_money (q_money (b_amount src) - ?amt)) now (t_note p) src"
    and db1: "db1 = insert_history i now (t_changed_by p) src s (db\<lparr>budgets := put_row s (budgets db)\<rparr>)"
    and c: "sql_credit_target new_id now p ?amt src (transfer_target_row (budgets db) src (t_target_account p)) db1
       = Inr (t, db2)"
    and resp: "resp = \<lparr>source_budget = s, target_budget = t, transferred_amount = ?amt\<rparr>"
    and db': "db' = insert_transfer i (b_id t) ?amt (t_note p) (t_changed_by p) now db2"
    by (rule sql_transferD) blast
  note g = g [unfolded transfer_source_guards_None]
  have id: "b_id src = i" "b_id s = i" using sql_getD [OF src] s by auto
  have r1: "refines (mem_set_item i s st) (db\<lparr>budgets := put_row s (budgets db)\<rparr>)"
    by (rule refines_put [OF ref id(2)])
  have tgt: "mem_transfer_target (budgets db) src acc = transfer_target_row (budgets db) src acc" for acc
  proof -
    have "filter (\<lambda>b. b_status b = Active \<and> b_scope b = AccountScope \<and> b_client b = b_client src
         \<and> b_account b = Some acc \<and> date_overlap (b_start src) (b_end src) (b_start b) (b_end b)) (budgets db)
      = filter (\<lambda>r. b_status r = Active \<and> b_scope r = AccountScope \<and> b_client r = b_client src
        \<and> b_account r = Some acc \<and> b_start r \<le> b_end src \<and> b_end r \<ge> b_start src) (budgets db)" (is "?f = ?g")
      by (rule filter_cong) (auto simp: date_overlap_def)
    then show ?thesis unfolding mem_transfer_target_def transfer_target_row_def
      by (simp add: fetchone_def hd_def split: list.split) (metis list.distinct(1) sort_desc_Nil_iff list.inject)
  qed
  have proj: "mem_values (mem_set_item i s st) = put_row s (budgets db)"
    using mem_values_set_item [of st s i] ref id(2) by (simp add: refines_def)
  have d1: "distinct (map b_id (budgets db1))" using db1 distinct_put_row [OF d] by simp
  have tg1: "x \<in> set (budgets db1) \<and> b_id x \<noteq> i"
    if tr: "transfer_target_row (budgets db) src (t_target_account p) = Some x" for x
  proof -
    have "x \<noteq> src" using transfer_target_rowD(5) [OF tr] g by auto
    then have "b_id x \<noteq> i" using row_unique [OF d transfer_target_rowD(1) [OF tr]] sql_getD [OF src] by metis
    with transfer_target_rowD(1) [OF tr] db1 id(2) show ?thesis by (simp add: set_put_row)
  qed
  note st2 = credit_target_state [OF c d1 conjunct1 [OF tg1]]
  note cd = sql_credit_targetD(4) [OF c d1 conjunct1 [OF tg1]]
  have bd1: "budgets db1 = put_row s (budgets db)" using db1 by simp
  define st1 where "st1 = mem_add_history i now (t_changed_by p) src s (mem_set_item i s st)"
  have r1: "refines st1 db1" unfolding st1_def db1 by (rule refines_history [OF r1])
  have r2: "refines (mem_set_item (b_id t) t st1) (db1\<lparr>budgets := put_row t (budgets db1)\<rparr>)"
    by (rule refines_put [OF r1 refl])
  have alloc: "mem_assert_allocation (put_row s (budgets db)) AccountScope cl am sd ed Active excl = None"
    if "sql_assert_allocation (put_row s (budgets db)) AccountScope cl am sd ed Active excl = None"
      "\<forall>c \<in> set (put_row s (budgets db)). excl = Some (b_id c) \<longrightarrow> b_scope c = AccountScope" for cl am sd ed excl
    using mem_allocation_eq [of AccountScope "put_row s (budgets db)" excl] that by simp
  have gs: "raise_if (b_scope src \<noteq> AccountScope \<or> b_account src = None) TransferNotAccountScope = None"
    "raise_if (b_status src \<noteq> Active) SourceNotActive = None"
    "raise_if (b_account src = Some (t_target_account p)) SameTargetAccount = None"
    "raise_if (?amt \<le> 0) TransferNotPositive = None"
    "raise_if (q_money (b_amount src) < ?amt) TransferExceedsSource = None"
    using g pos by auto
  note unf = mem_transfer_def refines_get [OF ref] src option.case Let_def b tgt gs first_error.simps id(1)
    s [symmetric] proj
  show ?thesis
  proof (cases "transfer_target_row (budgets db) src (t_target_account p)")
    case None
    have t: "t = transfer_new_target new_id now ?amt p src" using cd None by simp
    have a: "mem_assert_allocation (put_row s (budgets db)) AccountScope (b_client src) (b_amount t)
        (b_start t) (b_end t) Active None = None"
      using cd None bd1 by (intro alloc) (simp_all add: t)
    have "mem_transfer new_id now i p st = Inr (resp,
        (mem_set_item (b_id t) t st1)\<lparr>mem_transfers := mem_transfers (mem_set_item (b_id t) t st1) @
           [\<lparr>x_id = length (mem_transfers (mem_set_item (b_id t) t st1)) + 1, x_source = i, x_target = b_id t,
             x_amount = ?amt, x_note = t_note p, x_changed_by = t_changed_by p, x_created_at = now\<rparr>]\<rparr>)"
      unfolding unf None t [symmetric] a id(2) resp st1_def mem_set_add_history by simp
    moreover have "db2 = db1\<lparr>budgets := put_row t (budgets db1)\<rparr>" using st2(1) None by simp
    ultimately show ?thesis using refines_transfer_row [OF r2] db' by auto
  next
    case (Some x)
    have t: "t = moved_row (q_money (q_money (b_amount x) + ?amt)) now (t_note p) x" using cd Some by simp
    have tid: "b_id t = b_id x" by (simp add: t)
    have ex: "\<forall>c \<in> set (put_row s (budgets db)). Some (b_id x) = Some (b_id c) \<longrightarrow> b_scope c = AccountScope"
    proof (intro ballI impI)
      fix c assume "c \<in> set (put_row s (budgets db))" "Some (b_id x) = Some (b_id c)"
      then have "c = x" using row_unique [OF d1, of c x] tg1 [OF Some] bd1 by simp
      then show "b_scope c = AccountScope" using transfer_target_rowD(3) [OF Some] by simp
    qed
    have a: "mem_assert_allocation (put_row s (budgets db)) AccountScope (b_client src) (b_amount t)
        (b_start t) (b_end t) Active (Some (b_id x)) = None"
      using cd Some bd1 ex by (intro alloc) (simp_all add: t)
    have cur: "raise_if (str_upper (b_currency x) \<noteq> str_upper (b_currency src)) TargetBudgetCurrency = None"
      using st2(2) [OF _ Some] by simp
    let ?st2 = "mem_add_history (b_id x) now (t_changed_by p) x t (mem_set_item (b_id t) t st1)"
    have "mem_transfer new_id now i p st = Inr (resp, ?st2\<lparr>mem_transfers := mem_transfers ?st2 @
           [\<lparr>x_id = length (mem_transfers ?st2) + 1, x_source = i, x_target = b_id t,
             x_amount = ?amt, x_note = t_note p, x_changed_by = t_changed_by p, x_created_at = now\<rparr>]\<rparr>)"
      unfolding unf Some t [symmetric] a cur id(2) resp st1_def mem_set_add_history by simp
    moreover have "db2 = insert_history (b_id x) now (t_changed_by p) x t (db1\<lparr>budgets := put_row t (budgets db1)\<rparr>)"
      using st2(1) Some by simp
    moreover note refines_transfer_row [OF refines_history [OF r2]]
    ultimately show ?thesis using db' by auto
  qed
qed

section \<open>Witnesses\<close>

definition ex_mem0 :: budget_mem where "ex_mem0 = \<lparr>items = [], hist = [], mem_transfers = []\<rparr>"

definition mem_of :: "budget_error + ('a \<times> budget_mem) \<Rightarrow> budget_mem" where
  "mem_of x = (case x of Inl _ \<Rightarrow> ex_mem0 | Inr (_, st) \<Rightarrow> st)"

definition ex_mem1 :: budget_mem where "ex_mem1 = mem_of (mem_create 20 1000 ex_client_budget ex_mem0)"
definition ex_mem2 :: budget_mem where "ex_mem2 = mem_of (mem_create 21 1001 (ex_account_budget 7 60) ex_mem1)"

lemma refines_plain:
  assumes "history db = []" "hist st = []" "transfers db = []" "mem_transfers st = []"
    and "budgets db = map snd (items st)" "\<forall>e \<in> set (items st). fst e = b_id (snd e)" "distinct (map fst (items st))"
  shows "refines st db"
  using assms by (simp add: refines_def keyed_def mem_values_def mem_hist_of_def)

lemma ex_refines2: "refines ex_mem2 ex_db2"
  by (rule refines_plain) (code_simp+)

theorem create_refines_witness:
  "refines (mem_of (mem_create 22 1002 (ex_account_budget 8 40) ex_mem2))
     (db_of (sql_create 22 1002 (ex_account_budget 8 40) ex_db2))
   \<and> mem_create 22 1002 (ex_account_budget 8 41) ex_mem2 = Inl (AllocationExceedsCap 1 30 101 100 20)"
proof -
  have v: "create_valid (ex_account_budget 8 40)" "22 \<notin> b_id ` set (budgets ex_db2)" by (code_simp, code_simp)
  have "\<not> isl (sql_create 22 1002 (ex_account_budget 8 40) ex_db2)" by code_simp
  moreover have "mem_create 22 1002 (ex_account_budget 8 41) ex_mem2 = Inl (AllocationExceedsCap 1 30 101 100 20)"
    by code_simp
  ultimately show ?thesis using create_refines [OF ex_refines2 v, of 1002]
    by (cases "mem_create 22 1002 (ex_account_budget 8 40) ex_mem2";
        cases "sql_create 22 1002 (ex_account_budget 8 40) ex_db2")
      (auto simp: same_outcome_def db_of_def mem_of_def)
qed

theorem archive_refines_witness:
  "same_outcome (mem_archive 1005 20 ex_mem2) (sql_archive 1005 20 ex_db2)
   \<and> b_status (hd (budgets (db_of (sql_archive 1005 20 ex_db2)))) = Archived"
proof (rule conjI)
  show "same_outcome (mem_archive 1005 20 ex_mem2) (sql_archive 1005 20 ex_db2)"
    by (rule archive_refines [OF ex_refines2])
  show "b_status (hd (budgets (db_of (sql_archive 1005 20 ex_db2)))) = Archived" by code_simp
qed

theorem patch_refines_witness:
  "same_outcome (mem_patch 1003 20 ex_patch ex_mem2) (sql_patch 1003 20 ex_patch ex_db2)
   \<and> length (history (db_of (sql_patch 1003 20 ex_patch ex_db2))) = 1"
proof -
  have "patch_valid ex_patch" "\<forall>r \<in> set (budgets ex_db2). 0 \<le> b_amount r" "p_scope ex_patch = None"
    by (code_simp, code_simp, code_simp)
  then have "same_outcome (mem_patch 1003 20 ex_patch ex_mem2) (sql_patch 1003 20 ex_patch ex_db2)"
    by (intro patch_refines [OF ex_refines2]) simp_all
  moreover have "length (history (db_of (sql_patch 1003 20 ex_patch ex_db2))) = 1" by code_simp
  ultimately show ?thesis by blast
qed

theorem transfer_refines_witness:
  "\<exists>resp st'. mem_transfer 22 1002 21 ex_transfer ex_mem2 = Inr (resp, st') \<and> refines st' ex_db3"
proof (cases "sql_transfer 22 1002 21 ex_transfer ex_db2")
  case (Inl e)
  moreover have "\<not> isl (sql_transfer 22 1002 21 ex_transfer ex_db2)" by code_simp
  ultimately show ?thesis by simp
next
  case (Inr x)
  then obtain resp db' where ok: "sql_transfer 22 1002 21 ex_transfer ex_db2 = Inr (resp, db')" by (cases x) auto
  from transfer_refines [OF ex_refines2 ok] show ?thesis by (auto simp: ex_db3_def ok)
qed

section \<open>Where the stores differ\<close>

text \<open>The client budget 20 becomes an account budget of 120 for account 7.\<close>

definition ex_rescope :: budget_patch where
  "ex_rescope = ex_patch\<lparr>p_scope := Some AccountScope, p_account := Some (Some 7), p_amount := Some 120\<rparr>"

text \<open>
  The scope condition of the patch refinement is needed: turning the only client budget into
  an account budget is refused by the SQL store, which still counts the budget being patched as
  its own client cap, and accepted by the in-memory store.
\<close>
theorem patch_rescope_diverges:
  "sql_patch 1003 20 ex_rescope ex_db1 = Inl (AllocationExceedsCap 1 30 120 100 20)
   \<and> (\<exists>r st'. mem_patch 1003 20 ex_rescope ex_mem1 = Inr (r, st') \<and> b_amount r = 120)"
proof -
  have "sql_patch 1003 20 ex_rescope ex_db1 = Inl (AllocationExceedsCap 1 30 120 100 20)" by code_simp
  moreover have "case mem_patch 1003 20 ex_rescope ex_mem1 of Inl _ \<Rightarrow> False | Inr (r, _) \<Rightarrow> b_amount r = 120"
    by code_simp
  ultimately show ?thesis by (auto split: sum.splits)
qed

text \<open>Account 8 already carries a budget of client 2 in the same month.\<close>

definition ex_foreign :: budget where
  "ex_foreign = (new_budget_row 30 900 (ex_account_budget 8 10))\<lparr>b_client := 2\<rparr>"

definition ex_mem_foreign :: budget_mem where
  "ex_mem_foreign = mem_set_item 30 ex_foreign ex_mem2"

text \<open>
  The in-memory transfer checks no overlap for the budget it creates: it accepts a transfer
  to an account that another client's active budget already occupies, and the resulting table has
  two overlapping active budgets on one account; the SQL store refuses that transfer.
\<close>
theorem transfer_overlap_diverges:
  "sql_transfer 22 1002 21 ex_transfer (ex_db2\<lparr>budgets := mem_values ex_mem_foreign\<rparr>)
     = Inl (ActiveOverlap AccountScope (Some 8))
   \<and> (\<exists>resp st'. mem_transfer 22 1002 21 ex_transfer ex_mem_foreign = Inr (resp, st')
        \<and> \<not> no_overlap (mem_values st'))"
proof -
  have "sql_transfer 22 1002 21 ex_transfer (ex_db2\<lparr>budgets := mem_values ex_mem_foreign\<rparr>)
     = Inl (ActiveOverlap AccountScope (Some 8))" by code_simp
  moreover have "case mem_transfer 22 1002 21 ex_transfer ex_mem_foreign of Inl _ \<Rightarrow> False
     | Inr (_, st') \<Rightarrow> \<not> no_overlap (mem_values st')" by code_simp
  ultimately show ?thesis by (auto split: sum.splits)
qed

end
