(* ===== verification/Budget_Interface.thy ===== *)
theory Budget_Interface
  imports Budget_Refinement
begin

text \<open>
  The \<open>BudgetStore\<close> protocol of \<open>app/services/budgets.py\<close>: what a caller may rely on
  whichever store is configured.  The laws are proved for the SQL store and for the in-memory
  store; the lemmas are proved once from the laws.
\<close>

section \<open>A run of requests\<close>

datatype store_op =
    OpCreate uuid timestamp budget_create
  | OpPatch timestamp uuid budget_patch
  | OpArchive timestamp uuid

text \<open>A rejected request leaves the state alone, as the rolled-back transaction does.\<close>

definition state_after :: "'s \<Rightarrow> budget_error + (budget \<times> 's) \<Rightarrow> 's" where
  "state_after st x = (case x of Inl _ \<Rightarrow> st | Inr (_, st') \<Rightarrow> st')"

fun run_ops ::
  "(uuid \<Rightarrow> timestamp \<Rightarrow> budget_create \<Rightarrow> 's \<Rightarrow> budget_error + (budget \<times> 's)) \<Rightarrow>
   (timestamp \<Rightarrow> uuid \<Rightarrow> budget_patch \<Rightarrow> 's \<Rightarrow> budget_error + (budget \<times> 's)) \<Rightarrow>
   (timestamp \<Rightarrow> uuid \<Rightarrow> 's \<Rightarrow> budget_error + (budget \<times> 's)) \<Rightarrow> store_op list \<Rightarrow> 's \<Rightarrow> 's" where
  "run_ops cr pa ar [] st = st"
| "run_ops cr pa ar (OpCreate i now p # ops) st = run_ops cr pa ar ops (state_after st (cr i now p st))"
| "run_ops cr pa ar (OpPatch now i q # ops) st = run_ops cr pa ar ops (state_after st (pa now i q st))"
| "run_ops cr pa ar (OpArchive now i # ops) st = run_ops cr pa ar ops (state_after st (ar now i st))"

text \<open>The ids a run of requests creates, and the ids it patches.\<close>

fun created_ids :: "store_op list \<Rightarrow> uuid list" where
  "created_ids [] = []"
| "created_ids (OpCreate i _ _ # ops) = i # created_ids ops"
| "created_ids (_ # ops) = created_ids ops"

fun patched_ids :: "store_op list \<Rightarrow> uuid list" where
  "patched_ids [] = []"
| "patched_ids (OpPatch _ i _ # ops) = i # patched_ids ops"
| "patched_ids (_ # ops) = patched_ids ops"

section \<open>The protocol\<close>

locale budget_store =
  fixes valid :: "'s \<Rightarrow> bool"
    and get :: "uuid \<Rightarrow> 's \<Rightarrow> budget option"
    and create :: "uuid \<Rightarrow> timestamp \<Rightarrow> budget_create \<Rightarrow> 's \<Rightarrow> budget_error + (budget \<times> 's)"
    and patch :: "timestamp \<Rightarrow> uuid \<Rightarrow> budget_patch \<Rightarrow> 's \<Rightarrow> budget_error + (budget \<times> 's)"
    and archive :: "timestamp \<Rightarrow> uuid \<Rightarrow> 's \<Rightarrow> budget_error + (budget \<times> 's)"
    and resolve :: "uuid option \<Rightarrow> uuid option \<Rightarrow> date \<Rightarrow> date \<Rightarrow> 's \<Rightarrow> budget option"
  assumes create_law: "valid st \<Longrightarrow> get i st = None \<Longrightarrow> create i now p st = Inr (r, st') \<Longrightarrow>
      valid st' \<and> b_status r = Active \<and> (\<forall>j. get j st' = (if j = i then Some r else get j st))"
    and patch_law: "valid st \<Longrightarrow> patch now i q st = Inr (r, st') \<Longrightarrow>
      valid st' \<and> get i st \<noteq> None \<and> (\<forall>j. get j st' = (if j = i then Some r else get j st))"
    and archive_law: "valid st \<Longrightarrow> archive now i st = Inr (r, st') \<Longrightarrow>
      valid st' \<and> get i st \<noteq> None \<and> b_status r = Archived
      \<and> (\<forall>j. get j st' = (if j = i then Some r else get j st))"
    and resolve_law: "valid st \<Longrightarrow> resolve cl acc s e st = Some r \<Longrightarrow>
      get (b_id r) st = Some r \<and> b_status r = Active"
begin

text \<open>What one request keeps.\<close>

definition step_keeps :: "uuid list \<Rightarrow> 's \<Rightarrow> 's \<Rightarrow> bool" where
  "step_keeps touched st st1 \<longleftrightarrow> valid st1 \<and> (\<forall>j. get j st \<noteq> None \<longrightarrow> get j st1 \<noteq> None)
     \<and> (\<forall>j r. get j st = Some r \<longrightarrow> b_status r = Archived \<longrightarrow> j \<notin> set touched
          \<longrightarrow> (\<exists>r'. get j st1 = Some r' \<and> b_status r' = Archived))"

lemma create_keeps:
  assumes "valid st" and "get i st = None"
  shows "step_keeps [] st (state_after st (create i now p st))
    \<and> (\<forall>j. j \<noteq> i \<longrightarrow> get j st = None \<longrightarrow> get j (state_after st (create i now p st)) = None)"
  using assms create_law [OF assms, of now p]
  by (cases "create i now p st") (auto simp: step_keeps_def state_after_def)

lemma patch_keeps:
  assumes "valid st"
  shows "step_keeps [i] st (state_after st (patch now i q st))
    \<and> (\<forall>j. get j st = None \<longrightarrow> get j (state_after st (patch now i q st)) = None)"
  using assms patch_law [OF assms, of now i q]
  by (cases "patch now i q st") (auto simp: step_keeps_def state_after_def)

lemma archive_keeps:
  assumes "valid st"
  shows "step_keeps [] st (state_after st (archive now i st))
    \<and> (\<forall>j. get j st = None \<longrightarrow> get j (state_after st (archive now i st)) = None)"
  using assms archive_law [OF assms, of now i]
  by (cases "archive now i st") (auto simp: step_keeps_def state_after_def)

lemma step_keeps_trans:
  "step_keeps a st st1 \<Longrightarrow> step_keeps b st1 st2 \<Longrightarrow> step_keeps (a @ b) st st2"
  unfolding step_keeps_def by (metis Un_iff set_append)

lemma run_keeps:
  assumes "valid st" and "\<forall>i \<in> set (created_ids ops). get i st = None" and "distinct (created_ids ops)"
  shows "step_keeps (patched_ids ops) st (run_ops create patch archive ops st)"
  using assms
proof (induction ops arbitrary: st)
  case Nil
  then show ?case by (simp add: step_keeps_def)
next
  case (Cons op ops)
  show ?case
  proof (cases op)
    case (OpCreate i now p)
    have new: "get i st = None" using Cons.prems(2) OpCreate by simp
    note k = create_keeps [OF Cons.prems(1) new, of now p]
    have "step_keeps (patched_ids ops) (state_after st (create i now p st))
        (run_ops create patch archive ops (state_after st (create i now p st)))"
      using k Cons.prems(2,3) OpCreate by (intro Cons.IH) (auto simp: step_keeps_def)
    from step_keeps_trans [OF conjunct1 [OF k] this] OpCreate show ?thesis by simp
  next
    case (OpPatch now i q)
    note k = patch_keeps [OF Cons.prems(1), of i now q]
    have "step_keeps (patched_ids ops) (state_after st (patch now i q st))
        (run_ops create patch archive ops (state_after st (patch now i q st)))"
      using k Cons.prems(2,3) OpPatch by (intro Cons.IH) (auto simp: step_keeps_def)
    from step_keeps_trans [OF conjunct1 [OF k] this] OpPatch show ?thesis by simp
  next
    case (OpArchive now i)
    note k = archive_keeps [OF Cons.prems(1), of now i]
    have "step_keeps (patched_ids ops) (state_after st (archive now i st))
        (run_ops create patch archive ops (state_after st (archive now i st)))"
      using k Cons.prems(2,3) OpArchive by (intro Cons.IH) (auto simp: step_keeps_def)
    from step_keeps_trans [OF conjunct1 [OF k] this] OpArchive show ?thesis by simp
  qed
qed

lemma archived_not_effective:
  assumes "valid st" and "archive now i st = Inr (r, st')" and "i \<notin> set (patched_ids ops)"
    and "\<forall>j \<in> set (created_ids ops). get j st = None" and "distinct (created_ids ops)"
    and "resolve cl acc s e (run_ops create patch archive ops st') = Some b"
  shows "b_id b \<noteq> i"
proof
  assume b: "b_id b = i"
  note l = archive_law [OF assms(1,2)]
  have v: "valid st'" and arch: "get i st' = Some r" "b_status r = Archived" using l by auto
  have new: "\<forall>j \<in> set (created_ids ops). get j st' = None" using assms(4) l by auto
  from run_keeps [OF v new assms(5), unfolded step_keeps_def] arch assms(3)
  obtain r' where r': "valid (run_ops create patch archive ops st')"
    "get i (run_ops create patch archive ops st') = Some r'" "b_status r' = Archived" by blast
  from resolve_law [OF r'(1) assms(6)] b r'(2,3) show False by simp
qed

end

section \<open>Both stores keep it\<close>

definition sql_valid :: "budget_db \<Rightarrow> bool" where
  "sql_valid db \<longleftrightarrow> distinct (map b_id (budgets db))"

lemma sql_get_in: "sql_valid db \<Longrightarrow> r \<in> set (budgets db) \<Longrightarrow> sql_get (b_id r) db = Some r"
  by (simp add: sql_valid_def sql_get_def find_key_unique)

lemma archived_row_simps [simp]:
  "b_id (archived_row now r) = b_id r" "b_status (archived_row now r) = Archived"
  by (simp_all add: archived_row_def)

lemma sql_resolve_live:
  assumes "sql_valid db" and "sql_resolve_effective cl acc s e db = Some r"
  shows "sql_get (b_id r) db = Some r \<and> b_status r = Active"
proof -
  obtain c where c: "cl = Some c" using assms(2) by (cases cl) (auto simp: sql_resolve_effective_def)
  have "r \<in> set (budgets db) \<and> b_status r = Active"
    using assms(2) unfolding c sql_resolve_effective_def Let_def
    by (auto split: option.splits dest!: fetchone_sort_desc_mem)
  with sql_get_in [OF assms(1)] show ?thesis by simp
qed

interpretation sql_store: budget_store sql_valid sql_get sql_create sql_patch sql_archive sql_resolve_effective
proof unfold_locales
  fix db i now p r db'
  assume "sql_valid db" "sql_create i now p db = Inr (r, db')"
  with sql_createD(1,2) [of i now p db r db'] distinct_put_row [of "budgets db" r]
  show "sql_valid db' \<and> b_status r = Active \<and> (\<forall>j. sql_get j db' = (if j = i then Some r else sql_get j db))"
    by (simp add: sql_valid_def sql_get_def find_put_row) (simp add: new_budget_row_def)
next
  fix db now i q r db'
  assume v: "sql_valid db" and ok: "sql_patch now i q db = Inr (r, db')"
  from ok v [unfolded sql_valid_def]
  show "sql_valid db' \<and> sql_get i db \<noteq> None \<and> (\<forall>j. sql_get j db' = (if j = i then Some r else sql_get j db))"
  proof (cases rule: sql_patch_cases)
    case noop
    with v show ?thesis by auto
  next
    case (written old)
    have "b_id r = i" using sql_getD [OF written(1)] written(2) by (simp add: patched_row_def)
    with written(1,4) v show ?thesis by (simp add: sql_valid_def distinct_put_row sql_get_def find_put_row)
  qed
next
  fix db now i r db'
  assume v: "sql_valid db" and ok: "sql_archive now i db = Inr (r, db')"
  from sql_archiveD [OF ok v [unfolded sql_valid_def]] obtain old where
    "sql_get i db = Some old" "r = archived_row now old" "db' = db\<lparr>budgets := put_row r (budgets db)\<rparr>" by blast
  with sql_getD [of i db old] v
  show "sql_valid db' \<and> sql_get i db \<noteq> None \<and> b_status r = Archived
    \<and> (\<forall>j. sql_get j db' = (if j = i then Some r else sql_get j db))"
    by (simp add: sql_valid_def distinct_put_row sql_get_def find_put_row)
qed (rule sql_resolve_live)

lemma mem_get_set_item: "mem_get j (mem_set_item i r st) = (if j = i then Some r else mem_get j st)"
  by (simp add: mem_get_def mem_set_item_def update_conv')

lemma mem_get_history [simp]: "mem_get j (mem_add_history i now cb pv nv st) = mem_get j st"
  by (simp add: mem_get_def)

lemma mem_resolve_live:
  assumes "keyed st" and "mem_resolve_effective cl acc s e st = Some r"
  shows "mem_get (b_id r) st = Some r \<and> b_status r = Active"
proof -
  obtain c where c: "cl = Some c" using assms(2) by (cases cl) (auto simp: mem_resolve_effective_def)
  have mem: "x \<in> set xs" if "sort_desc effective_key xs = x # ys" for x ys and xs :: "budget list"
  proof -
    have "x \<in> set (sort_desc effective_key xs)" unfolding that by simp
    then show ?thesis by simp
  qed
  have "r \<in> set (mem_values st) \<and> b_status r = Active"
    using assms(2) unfolding c mem_resolve_effective_def Let_def
    by (auto split: option.splits list.splits dest!: fetchone_sort_desc_mem mem)
  then show ?thesis
    using keyed_get [OF assms(1)] find_key_unique [OF keyed_distinct [OF assms(1)]] by simp
qed

interpretation mem_store: budget_store keyed mem_get mem_create mem_patch mem_archive mem_resolve_effective
proof unfold_locales
  fix st i now p r st'
  assume "keyed st" "mem_create i now p st = Inr (r, st')"
  then show "keyed st' \<and> b_status r = Active \<and> (\<forall>j. mem_get j st' = (if j = i then Some r else mem_get j st))"
    by (auto simp: mem_create_def Let_def mem_get_set_item new_budget_row_def intro!: keyed_set_item
        split: option.splits)
next
  fix st now i q r st'
  assume k: "keyed st" and ok: "mem_patch now i q st = Inr (r, st')"
  then have id: "\<And>old. mem_get i st = Some old \<Longrightarrow> b_id old = i" by (auto simp: keyed_get dest: find_SomeD)
  with k ok show "keyed st' \<and> mem_get i st \<noteq> None \<and> (\<forall>j. mem_get j st' = (if j = i then Some r else mem_get j st))"
    by (auto simp: mem_patch_def Let_def mem_get_set_item patched_row_def intro!: keyed_set_item
        split: option.splits if_splits)
next
  fix st now i r st'
  assume k: "keyed st" and ok: "mem_archive now i st = Inr (r, st')"
  then have id: "\<And>old. mem_get i st = Some old \<Longrightarrow> b_id old = i" by (auto simp: keyed_get dest: find_SomeD)
  with k ok show "keyed st' \<and> mem_get i st \<noteq> None \<and> b_status r = Archived
    \<and> (\<forall>j. mem_get j st' = (if j = i then Some r else mem_get j st))"
    by (auto simp: mem_archive_def Let_def mem_get_set_item intro!: keyed_set_item split: option.splits)
qed (rule mem_resolve_live)

text \<open>
  An archived budget never becomes the effective budget of any client or account again,
  whatever requests follow, until a patch names it; this holds for the SQL store.
\<close>
theorem archived_never_effective:
  assumes "distinct (map b_id (budgets db))" and "sql_archive now i db = Inr (r, db')"
    and "i \<notin> set (patched_ids ops)" and "\<forall>j \<in> set (created_ids ops). sql_get j db = None"
    and "distinct (created_ids ops)"
    and "sql_resolve_effective cl acc s e (run_ops sql_create sql_patch sql_archive ops db') = Some b"
  shows "b_id b \<noteq> i"
  using assms by (intro sql_store.archived_not_effective) (simp_all add: sql_valid_def)

theorem archived_never_effective_witness:
  "\<exists>b. sql_resolve_effective (Some 1) (Some 7) 5 9 (run_ops sql_create sql_patch sql_archive
        [OpPatch 1006 20 ex_patch] (db_of (sql_archive 1005 21 ex_db2))) = Some b \<and> b_id b \<noteq> 21"
proof -
  let ?db = "run_ops sql_create sql_patch sql_archive [OpPatch 1006 20 ex_patch] (db_of (sql_archive 1005 21 ex_db2))"
  have d: "distinct (map b_id (budgets ex_db2))" by code_simp
  have "sql_resolve_effective (Some 1) (Some 7) 5 9 ?db \<noteq> None" by code_simp
  then obtain b where b: "sql_resolve_effective (Some 1) (Some 7) 5 9 ?db = Some b" by blast
  have "\<not> isl (sql_archive 1005 21 ex_db2)" by code_simp
  then obtain r db' where ok: "sql_archive 1005 21 ex_db2 = Inr (r, db')"
    by (cases "sql_archive 1005 21 ex_db2") auto
  from archived_never_effective [OF d ok, of "[OpPatch 1006 20 ex_patch]"] b ok
  show ?thesis by (auto simp: db_of_def)
qed

end
