(* ===== verification/Budget_Metrics.thy ===== *)
theory Budget_Metrics
  imports Decimals
begin

text \<open>
  \<open>calculate_financial_metrics\<close> of \<open>app/services/budgets.py\<close>: what a budget means on a
  day of its period.  Every \<open>Decimal\<close> operation is one of the 28-digit context, so the
  roundings the code does are the roundings of the model.
\<close>

datatype pace = Overspending | OnTrack | Underspending

record financial_metrics =
  fm_budget :: "rat option"
  fm_spend :: rat
  fm_remaining :: "rat option"
  fm_usage_percent :: "rat option"
  fm_expected :: "rat option"
  fm_forecast :: "rat option"
  fm_pace :: "pace option"
  fm_pace_delta :: "rat option"
  fm_pace_delta_percent :: "rat option"
  fm_date_policy :: string

definition date_policy :: string where
  "date_policy = ''UTC calendar dates, inclusive period day-count (start/end included).''"

definition elapsed_ratio :: "date \<Rightarrow> date \<Rightarrow> date \<Rightarrow> rat" where
  "elapsed_ratio period_start period_end as_of_date =
     (let total_days = (of_int (max (period_end - period_start + 1) 1) :: rat);
          clamped = min (max as_of_date period_start) period_end;
          elapsed_days = of_int (clamped - period_start + 1)
      in if total_days > 0 then dec_div elapsed_days total_days else 0)"

definition pace_status :: "rat \<Rightarrow> rat \<Rightarrow> rat \<Rightarrow> pace" where
  "pace_status budget_q spend_q expected =
     (if budget_q = 0 then (if spend_q > 0 then Overspending else OnTrack)
      else if expected \<le> 0 then (if spend_q > 0 then Overspending else OnTrack)
      else if spend_q > dec_mul expected (110 / 100) then Overspending
      else if spend_q < dec_mul expected (90 / 100) then Underspending
      else OnTrack)"

definition calculate_financial_metrics ::
  "rat \<Rightarrow> rat option \<Rightarrow> date \<Rightarrow> date \<Rightarrow> date \<Rightarrow> financial_metrics" where
  "calculate_financial_metrics spend budget_amount period_start period_end as_of_date =
     (let spend_q = q_money spend in
      case budget_amount of
        None \<Rightarrow> \<lparr>fm_budget = None, fm_spend = spend_q, fm_remaining = None, fm_usage_percent = None,
           fm_expected = None, fm_forecast = None, fm_pace = None, fm_pace_delta = None,
           fm_pace_delta_percent = None, fm_date_policy = date_policy\<rparr>
      | Some b \<Rightarrow>
         (let budget_q = q_money b;
              ratio = elapsed_ratio period_start period_end as_of_date;
              expected = q_money (dec_mul budget_q ratio);
              forecast = (if ratio > 0 then Some (q_money (dec_div spend_q ratio)) else None);
              remaining = q_money (dec_sub budget_q spend_q);
              usage_percent = (if budget_q = 0 then None
                 else Some (q_percent (dec_mul (dec_div spend_q budget_q) 100)));
              pace_delta = q_money (dec_sub spend_q expected);
              pace_delta_percent = (if expected > 0
                 then Some (q_percent (dec_mul (dec_div pace_delta expected) 100)) else None)
          in \<lparr>fm_budget = Some budget_q, fm_spend = spend_q, fm_remaining = Some remaining,
              fm_usage_percent = usage_percent, fm_expected = Some expected, fm_forecast = forecast,
              fm_pace = Some (pace_status budget_q spend_q expected), fm_pace_delta = Some pace_delta,
              fm_pace_delta_percent = pace_delta_percent, fm_date_policy = date_policy\<rparr>))"

section \<open>Exactness of the context on amounts\<close>

lemma ctx28_scaled:
  assumes "0 \<le> n" and "n \<le> 10 ^ 28"
  shows "ctx28 (of_int n * 10 powi k) = of_int n * 10 powi k"
proof (cases "n = 0")
  case False
  with assms have "0 < (of_int n * 10 powi k :: rat)" by simp
  then show ?thesis using assms(2) by (intro ctx28_exact_pos [where n = n and k = k]) simp_all
qed simp

lemma dec_mul_percent:
  assumes "cents x" and "0 \<le> x" and "x \<le> 10 ^ 20" and "0 \<le> p" and "p \<le> 1000"
  shows "dec_mul x (of_int p / 100) = x * of_int p / 100"
proof -
  from assms(1) obtain m where m: "x = of_int m / 100" unfolding cents_iff ..
  have "0 \<le> m" using assms(2) m by simp
  have "of_int m \<le> (of_int (10 ^ 22) :: rat)" using assms(3) m by simp
  then have "m \<le> 10 ^ 22" by (simp only: of_int_le_iff)
  then have "m * p \<le> 10 ^ 22 * 1000" using assms(4,5) \<open>0 \<le> m\<close> by (intro mult_mono) simp_all
  then have le: "m * p \<le> 10 ^ 28" by simp
  have eq: "x * (of_int p / 100) = of_int (m * p) * 10 powi (- 4)"
    by (simp add: m power_int_minus)
  show ?thesis
    unfolding dec_mul_def eq ctx28_scaled [OF mult_nonneg_nonneg [OF \<open>0 \<le> m\<close> assms(4)] le]
    unfolding eq [symmetric] by (rule times_divide_eq_right)
qed

lemma dec_sub_cents:
  "cents x \<Longrightarrow> cents y \<Longrightarrow> 0 \<le> x \<Longrightarrow> 0 \<le> y \<Longrightarrow> x \<le> 10 ^ 20 \<Longrightarrow> y \<le> 10 ^ 20 \<Longrightarrow> q_money (dec_sub x y) = x - y"
proof -
  assume "cents x" "cents y" "0 \<le> x" "0 \<le> y" "x \<le> 10 ^ 20" "y \<le> 10 ^ 20"
  then have "cents (x - y)" "\<bar>x - y\<bar> \<le> 10 ^ 26" by auto
  then show ?thesis by (simp add: dec_sub_def ctx28_cents)
qed

lemma ctx28_1 [simp]: "ctx28 1 = 1"
  using ctx28_scaled [of 1 0] by simp

lemma elapsed_ratio_eq:
  assumes "s \<le> e"
  shows "elapsed_ratio s e d = ctx28 (of_int (min (max d s) e - s + 1) / of_int (e - s + 1))"
    "0 \<le> (of_int (min (max d s) e - s + 1) / of_int (e - s + 1) :: rat)"
    "of_int (min (max d s) e - s + 1) / of_int (e - s + 1) \<le> (1 :: rat)"
    "d \<le> d' \<Longrightarrow> of_int (min (max d s) e - s + 1) / of_int (e - s + 1)
       \<le> (of_int (min (max d' s) e - s + 1) / of_int (e - s + 1) :: rat)"
proof -
  have t: "max (e - s + 1) 1 = e - s + 1" "0 < e - s + 1" using assms by simp_all
  have t': "0 < (of_int (e - s + 1) :: rat)" using t(2) by (simp only: of_int_0_less_iff)
  show "elapsed_ratio s e d = ctx28 (of_int (min (max d s) e - s + 1) / of_int (e - s + 1))"
    unfolding elapsed_ratio_def Let_def t(1) if_P [OF t'] dec_div_def by (rule refl)
  have "0 \<le> min (max d s) e - s + 1" "min (max d s) e - s + 1 \<le> e - s + 1" using assms by simp_all
  then have "0 \<le> (of_int (min (max d s) e - s + 1) :: rat)"
    and le: "(of_int (min (max d s) e - s + 1) :: rat) \<le> of_int (e - s + 1)"
    by (simp_all only: of_int_le_iff of_int_0_le_iff)
  then show "0 \<le> (of_int (min (max d s) e - s + 1) / of_int (e - s + 1) :: rat)"
    using t' by (intro divide_nonneg_pos)
  show "of_int (min (max d s) e - s + 1) / of_int (e - s + 1) \<le> (1 :: rat)"
    using le t' by (simp only: pos_divide_le_eq mult_1)
  assume "d \<le> d'"
  then have "min (max d s) e - s + 1 \<le> min (max d' s) e - s + 1" by (simp add: min_def max_def)
  then have "(of_int (min (max d s) e - s + 1) :: rat) \<le> of_int (min (max d' s) e - s + 1)"
    by (simp only: of_int_le_iff)
  then show "of_int (min (max d s) e - s + 1) / of_int (e - s + 1)
       \<le> (of_int (min (max d' s) e - s + 1) / of_int (e - s + 1) :: rat)"
    by (rule divide_right_mono) (rule less_imp_le [OF t'])
qed

lemma elapsed_ratio_bounds:
  assumes "s \<le> e"
  shows "0 \<le> elapsed_ratio s e d" "elapsed_ratio s e d \<le> 1"
  unfolding elapsed_ratio_eq(1) [OF assms]
  using ctx28_mono [OF elapsed_ratio_eq(2,3) [OF assms, of d]] elapsed_ratio_eq(2) [OF assms, of d]
  by (simp_all only: ctx28_1 ctx28_nonneg)

lemma elapsed_ratio_mono:
  assumes "s \<le> e" and "d \<le> d'"
  shows "elapsed_ratio s e d \<le> elapsed_ratio s e d'"
  unfolding elapsed_ratio_eq(1) [OF assms(1)]
  by (rule ctx28_mono [OF elapsed_ratio_eq(2) [OF assms(1)] elapsed_ratio_eq(4) [OF assms]])

lemma elapsed_ratio_end:
  assumes "s \<le> e" and "e \<le> d"
  shows "elapsed_ratio s e d = 1"
proof -
  have "min (max d s) e = e" using assms by simp
  moreover have "e - s + 1 \<noteq> 0" using assms(1) by simp
  then have "(of_int (e - s + 1) :: rat) \<noteq> 0" by (simp only: of_int_eq_0_iff not_False_eq_True)
  ultimately show ?thesis unfolding elapsed_ratio_eq(1) [OF assms(1)] by (simp only: divide_self not_False_eq_True ctx28_1)
qed

lemma expected_bounds:
  assumes "0 \<le> b" and "b \<le> 10 ^ 20" and "s \<le> e"
  shows "0 \<le> q_money (dec_mul (q_money b) (elapsed_ratio s e d))"
    "q_money (dec_mul (q_money b) (elapsed_ratio s e d)) \<le> q_money b"
    "d \<le> d' \<Longrightarrow> q_money (dec_mul (q_money b) (elapsed_ratio s e d))
        \<le> q_money (dec_mul (q_money b) (elapsed_ratio s e d'))"
proof -
  let ?b = "q_money b" and ?r = "\<lambda>d. elapsed_ratio s e d"
  have b: "0 \<le> ?b" using assms(1) by auto
  note r = elapsed_ratio_bounds [OF assms(3)]
  have "q_money b \<le> q_money (10 ^ 20)" using assms(2) by (rule q_money_mono)
  also have "q_money (10 ^ 20) = 10 ^ 20" using q_money_of_int [of "10 ^ 22"] by simp
  finally have bb: "?b \<le> 10 ^ 26" by simp
  show "0 \<le> q_money (dec_mul ?b (?r d))" unfolding dec_mul_def
    by (intro q_money_nonneg ctx28_nonneg mult_nonneg_nonneg b r(1))
  have "?b * ?r d \<le> ?b" using b r(2) [of d] by (rule mult_left_le [rotated])
  then have "ctx28 (?b * ?r d) \<le> ctx28 ?b" using b r(1) by (intro ctx28_mono) simp_all
  also have "ctx28 ?b = ?b" using b bb by (intro ctx28_cents) simp_all
  finally have "q_money (ctx28 (?b * ?r d)) \<le> q_money ?b" by (rule q_money_mono)
  then show "q_money (dec_mul ?b (?r d)) \<le> ?b" by (simp add: dec_mul_def)
  show "d \<le> d' \<Longrightarrow> q_money (dec_mul ?b (?r d)) \<le> q_money (dec_mul ?b (?r d'))"
    unfolding dec_mul_def using b r(1) elapsed_ratio_mono [OF assms(3)]
    by (intro q_money_mono ctx28_mono mult_left_mono) simp_all
qed

section \<open>Properties\<close>

lemma expected_spend_facts:
  fixes b spend :: rat and s e d d' :: date
  assumes "0 \<le> b" and "b \<le> 10 ^ 20" and "s \<le> e"
  defines "m \<equiv> calculate_financial_metrics spend (Some b) s e"
  shows "\<exists>x. fm_expected (m d) = Some x \<and> 0 \<le> x \<and> x \<le> q_money b"
    and "d \<le> d' \<Longrightarrow> the (fm_expected (m d)) \<le> the (fm_expected (m d'))"
    and "e \<le> d \<Longrightarrow> \<bar>spend\<bar> \<le> 10 ^ 20 \<Longrightarrow> fm_expected (m d) = Some (q_money b) \<and> fm_forecast (m d) = Some (q_money spend)"
proof -
  have x: "fm_expected (m d) = Some (q_money (dec_mul (q_money b) (elapsed_ratio s e d)))" for d
    by (simp add: m_def calculate_financial_metrics_def Let_def)
  show "\<exists>x. fm_expected (m d) = Some x \<and> 0 \<le> x \<and> x \<le> q_money b"
    using expected_bounds(1,2) [OF assms(1-3)] by (simp add: x)
  show "d \<le> d' \<Longrightarrow> the (fm_expected (m d)) \<le> the (fm_expected (m d'))"
    using expected_bounds(3) [OF assms(1-3)] by (simp add: x)
  assume d: "e \<le> d" and sp: "\<bar>spend\<bar> \<le> 10 ^ 20"
  have big: "\<bar>q_money y\<bar> \<le> 10 ^ 26" if "\<bar>y\<bar> \<le> 10 ^ 20" for y
  proof -
    have "\<bar>y\<bar> \<le> 10 ^ 26 - 1" using that by simp
    with q_money_error [of y] show ?thesis unfolding abs_le_iff by (intro conjI) linarith+
  qed
  have "q_money (dec_mul (q_money b) 1) = q_money b" "q_money (dec_div (q_money spend) 1) = q_money spend"
    using big [of b] big [OF sp] assms(1,2) by (simp_all add: dec_mul_def dec_div_def ctx28_cents)
  then show "fm_expected (m d) = Some (q_money b) \<and> fm_forecast (m d) = Some (q_money spend)"
    using elapsed_ratio_end [OF assms(3) d]
    by (simp add: m_def calculate_financial_metrics_def Let_def)
qed

text \<open>
  Inside a period the expected spend to date lies between zero and the budget, never
  decreases as the day advances, and from the last day on equals the budget, while the forecast
  equals the spend.
\<close>
theorem expected_spend_progress:
  fixes b spend :: rat and s e d d' :: date
  assumes "0 \<le> b" and "b \<le> 10 ^ 20" and "s \<le> e"
  shows "(\<exists>x. fm_expected (calculate_financial_metrics spend (Some b) s e d) = Some x \<and> 0 \<le> x \<and> x \<le> q_money b)
    \<and> (d \<le> d' \<longrightarrow> the (fm_expected (calculate_financial_metrics spend (Some b) s e d))
         \<le> the (fm_expected (calculate_financial_metrics spend (Some b) s e d')))
    \<and> (e \<le> d \<and> \<bar>spend\<bar> \<le> 10 ^ 20 \<longrightarrow>
         fm_expected (calculate_financial_metrics spend (Some b) s e d) = Some (q_money b)
         \<and> fm_forecast (calculate_financial_metrics spend (Some b) s e d) = Some (q_money spend))"
  using expected_spend_facts [OF assms] by blast

theorem expected_spend_progress_witness:
  "fm_expected (calculate_financial_metrics 40 (Some 100) 1 30 12) = Some 40
   \<and> the (fm_expected (calculate_financial_metrics 40 (Some 100) 1 30 12))
       \<le> the (fm_expected (calculate_financial_metrics 40 (Some 100) 1 30 13))
   \<and> fm_forecast (calculate_financial_metrics 40 (Some 100) 1 30 31) = Some 40"
proof -
  have "fm_expected (calculate_financial_metrics 40 (Some 100) 1 30 12) = Some 40" by code_simp
  moreover have "q_money 40 = 40" by code_simp
  ultimately show ?thesis
    using expected_spend_progress [of 100 1 30 40 12 13] expected_spend_progress [of 100 1 30 40 31 31] by simp
qed

lemma pace_facts:
  fixes b spend :: rat and s e d :: date
  assumes "0 \<le> b" and "b \<le> 10 ^ 20" and "cents b" and "0 \<le> spend" and "spend \<le> 10 ^ 20" and "cents spend"
    and "s \<le> e"
  defines "m \<equiv> calculate_financial_metrics spend (Some b) s e d"
  shows "fm_remaining m = Some (b - spend)"
    and "\<exists>x. fm_expected m = Some x \<and> fm_pace_delta m = Some (spend - x)
      \<and> (fm_pace m = Some Overspending \<longleftrightarrow> x * 110 / 100 < spend)
      \<and> (fm_pace m = Some Underspending \<longleftrightarrow> spend < x * 90 / 100)
      \<and> (fm_pace m = Some OnTrack \<longleftrightarrow> x * 90 / 100 \<le> spend \<and> spend \<le> x * 110 / 100)"
proof -
  let ?x = "q_money (dec_mul b (elapsed_ratio s e d))"
  have x: "0 \<le> ?x" "?x \<le> b" using expected_bounds [OF assms(1,2,7), of d] assms(3) by simp_all
  then have x20: "?x \<le> 10 ^ 20" using assms(2) by linarith
  have m: "fm_remaining m = Some (q_money (dec_sub b spend))" "fm_expected m = Some ?x"
    "fm_pace_delta m = Some (q_money (dec_sub spend ?x))" "fm_pace m = Some (pace_status b spend ?x)"
    using assms(3,6) by (simp_all add: m_def calculate_financial_metrics_def Let_def)
  show "fm_remaining m = Some (b - spend)" using assms m(1) by (simp add: dec_sub_cents)
  have pd: "fm_pace_delta m = Some (spend - ?x)"
    using assms x x20 m(3) by (simp add: dec_sub_cents)
  have mul: "dec_mul ?x (110 / 100) = ?x * 110 / 100" "dec_mul ?x (90 / 100) = ?x * 90 / 100"
    using dec_mul_percent [OF cents_q_money x(1) x20, of 110] dec_mul_percent [OF cents_q_money x(1) x20, of 90]
    by simp_all
  have "(pace_status b spend ?x = Overspending \<longleftrightarrow> ?x * 110 / 100 < spend)
      \<and> (pace_status b spend ?x = Underspending \<longleftrightarrow> spend < ?x * 90 / 100)
      \<and> (pace_status b spend ?x = OnTrack \<longleftrightarrow> ?x * 90 / 100 \<le> spend \<and> spend \<le> ?x * 110 / 100)"
    unfolding pace_status_def mul using x assms(4) by (cases "?x = 0") auto
  with pd m(2,4) show "\<exists>x. fm_expected m = Some x \<and> fm_pace_delta m = Some (spend - x)
      \<and> (fm_pace m = Some Overspending \<longleftrightarrow> x * 110 / 100 < spend)
      \<and> (fm_pace m = Some Underspending \<longleftrightarrow> spend < x * 90 / 100)
      \<and> (fm_pace m = Some OnTrack \<longleftrightarrow> x * 90 / 100 \<le> spend \<and> spend \<le> x * 110 / 100)" by auto
qed

text \<open>
  For spends and budgets in whole cents up to 10^20 the remaining amount and the pace delta
  are exact differences, and the pace is overspending exactly when the spend exceeds 110 percent of
  the expected spend, underspending exactly when it is below 90 percent of it, and on track
  otherwise; with nothing expected yet any spend is overspending.
\<close>
theorem pace_classification:
  fixes b spend :: rat and s e d :: date
  assumes "0 \<le> b" and "b \<le> 10 ^ 20" and "cents b" and "0 \<le> spend" and "spend \<le> 10 ^ 20" and "cents spend"
    and "s \<le> e"
  shows "fm_remaining (calculate_financial_metrics spend (Some b) s e d) = Some (b - spend)
    \<and> (\<exists>x. fm_expected (calculate_financial_metrics spend (Some b) s e d) = Some x
      \<and> fm_pace_delta (calculate_financial_metrics spend (Some b) s e d) = Some (spend - x)
      \<and> (fm_pace (calculate_financial_metrics spend (Some b) s e d) = Some Overspending \<longleftrightarrow> x * 110 / 100 < spend)
      \<and> (fm_pace (calculate_financial_metrics spend (Some b) s e d) = Some Underspending \<longleftrightarrow> spend < x * 90 / 100)
      \<and> (fm_pace (calculate_financial_metrics spend (Some b) s e d) = Some OnTrack
           \<longleftrightarrow> x * 90 / 100 \<le> spend \<and> spend \<le> x * 110 / 100))"
  by (intro conjI pace_facts [OF assms])

theorem pace_classification_witness:
  "fm_pace (calculate_financial_metrics 45 (Some 100) 1 30 12) = Some Overspending"
proof -
  have c: "cents 100" "cents 45" by (code_simp, code_simp)
  have "fm_expected (calculate_financial_metrics 45 (Some 100) 1 30 12) = Some 40" by code_simp
  with pace_classification [of 100 45 1 30 12] c show ?thesis by auto
qed

end
