(* ===== verification/Provider_Types.thy ===== *)
theory Provider_Types
  imports Json
begin

text \<open>
  The data of \<open>app/services/provider_budget_commands.py\<close>: the enumerations, the exception
  classes, the validated change request and provider snapshot, the contexts the policy reads, and
  the audit snapshots a command keeps.  Text is ASCII; a UUID field is a UUID by its type, so the
  \<open>isinstance\<close> checks of \<open>_require_uuid\<close> and \<open>_require_bool\<close> have no branch here.
\<close>

section \<open>Enumerations\<close>

datatype target_type = Campaign | AdSet | AccountTarget

datatype budget_field = DailyBudget | LifetimeBudget | SpendCap

datatype command_status = Previewed | Queued | InProgress | Applied | Conflict | Failed | Unknown

datatype actor_role = Admin | Agency | Client | SoloClient

datatype credential_scope = GlobalScope | AgencyScope | ClientScoped

datatype agency_role = Owner | Manager | Member

fun target_value :: "target_type \<Rightarrow> string" where
  "target_value Campaign = ''campaign''"
| "target_value AdSet = ''ad_set''"
| "target_value AccountTarget = ''account''"

fun field_value :: "budget_field \<Rightarrow> string" where
  "field_value DailyBudget = ''daily_budget''"
| "field_value LifetimeBudget = ''lifetime_budget''"
| "field_value SpendCap = ''spend_cap''"

fun status_value :: "command_status \<Rightarrow> string" where
  "status_value Previewed = ''previewed''"
| "status_value Queued = ''queued''"
| "status_value InProgress = ''in_progress''"
| "status_value Applied = ''applied''"
| "status_value Conflict = ''conflict''"
| "status_value Failed = ''failed''"
| "status_value Unknown = ''unknown''"

fun role_value :: "actor_role \<Rightarrow> string" where
  "role_value Admin = ''admin''"
| "role_value Agency = ''agency''"
| "role_value Client = ''client''"
| "role_value SoloClient = ''solo_client''"

fun scope_value :: "credential_scope \<Rightarrow> string" where
  "scope_value GlobalScope = ''global''"
| "scope_value AgencyScope = ''agency''"
| "scope_value ClientScoped = ''client''"

fun agency_role_value :: "agency_role \<Rightarrow> string" where
  "agency_role_value Owner = ''owner''"
| "agency_role_value Manager = ''manager''"
| "agency_role_value Member = ''member''"

definition target_types :: "target_type list" where "target_types = [Campaign, AdSet, AccountTarget]"
definition budget_fields :: "budget_field list" where "budget_fields = [DailyBudget, LifetimeBudget, SpendCap]"
definition actor_roles :: "actor_role list" where "actor_roles = [Admin, Agency, Client, SoloClient]"
definition agency_roles :: "agency_role list" where "agency_roles = [Owner, Manager, Member]"

section \<open>Errors\<close>

record provider_error =
  pe_code :: string
  pe_message :: string
  pe_subcode :: "string option"
  pe_trace :: "string option"
  pe_retryable :: bool

text \<open>
  The exception classes with the code and message they carry.  Every constructor but
  \<open>OtherError\<close> is a \<open>ProviderBudgetCommandError\<close>; \<open>OtherError\<close> is any other
  \<open>Exception\<close>.
\<close>

datatype exn =
    BudgetValidationError string string
  | BudgetPolicyError string string
  | PreviewTokenError string string
  | PreviewExpiredError string string
  | IdempotencyConflictError string string
  | BudgetConflictError string string
  | CommandNotExecutableError string string
  | ProviderBudgetError provider_error
  | ProviderWriteOutcomeUnknown provider_error
  | OtherError

fun exn_code :: "exn \<Rightarrow> string" where
  "exn_code (BudgetValidationError c _) = c"
| "exn_code (BudgetPolicyError c _) = c"
| "exn_code (PreviewTokenError c _) = c"
| "exn_code (PreviewExpiredError c _) = c"
| "exn_code (IdempotencyConflictError c _) = c"
| "exn_code (BudgetConflictError c _) = c"
| "exn_code (CommandNotExecutableError c _) = c"
| "exn_code (ProviderBudgetError e) = pe_code e"
| "exn_code (ProviderWriteOutcomeUnknown e) = pe_code e"
| "exn_code OtherError = []"

fun exn_message :: "exn \<Rightarrow> string" where
  "exn_message (BudgetValidationError _ m) = m"
| "exn_message (BudgetPolicyError _ m) = m"
| "exn_message (PreviewTokenError _ m) = m"
| "exn_message (PreviewExpiredError _ m) = m"
| "exn_message (IdempotencyConflictError _ m) = m"
| "exn_message (BudgetConflictError _ m) = m"
| "exn_message (CommandNotExecutableError _ m) = m"
| "exn_message (ProviderBudgetError e) = pe_message e"
| "exn_message (ProviderWriteOutcomeUnknown e) = pe_message e"
| "exn_message OtherError = []"

section \<open>sanitize_provider_message\<close>

text \<open>
  The three patterns are matched at a position by the functions below, which return the number of
  characters consumed and the replacement; \<open>re_sub\<close> is the left-to-right scan of
  \<open>Pattern.sub\<close>.  \<open>prev\<close> is the character before the position, for \<open>\b\<close>.
\<close>

definition is_word :: "char \<Rightarrow> bool" where
  "is_word c \<longleftrightarrow> is_upper c \<or> is_lower c \<or> is_digit c \<or> c = CHR ''_''"

definition bearer_char :: "char \<Rightarrow> bool" where
  "bearer_char c \<longleftrightarrow> is_upper c \<or> is_lower c \<or> is_digit c \<or> c \<in> set ''._~+/=-''"

definition starts_ci :: "string \<Rightarrow> string \<Rightarrow> bool" where
  "starts_ci p s \<longleftrightarrow> str_lower (take (length p) s) = p"

type_synonym matcher = "char option \<Rightarrow> string \<Rightarrow> (nat \<times> string) option"

fun re_sub :: "nat \<Rightarrow> matcher \<Rightarrow> char option \<Rightarrow> string \<Rightarrow> string" where
  "re_sub 0 m prev s = s"
| "re_sub (Suc n) m prev [] = []"
| "re_sub (Suc n) m prev (c # cs) =
     (case m prev (c # cs) of
        Some (k, r) \<Rightarrow> r @ re_sub n m (Some (last (take (max 1 k) (c # cs)))) (drop (max 1 k) (c # cs))
      | None \<Rightarrow> c # re_sub n m (Some c) cs)"

definition bearer_at :: matcher where
  "bearer_at prev s =
     (if (case prev of None \<Rightarrow> True | Some p \<Rightarrow> \<not> is_word p) \<and> starts_ci ''bearer'' s then
        (let sp = takeWhile is_space (drop 6 s); tok = takeWhile bearer_char (drop (6 + length sp) s)
         in if sp \<noteq> [] \<and> tok \<noteq> [] then Some (6 + length sp + length tok, ''Bearer [REDACTED]'') else None)
      else None)"

definition secret_names :: "string list" where
  "secret_names = [''access_token'', ''client_secret'', ''appsecret_proof'']"

definition query_at :: matcher where
  "query_at prev s =
     (case find (\<lambda>n. starts_ci n s) secret_names of
        None \<Rightarrow> None
      | Some n \<Rightarrow>
         (let k = length n; val = takeWhile (\<lambda>c. c \<noteq> CHR ''&'' \<and> \<not> is_space c) (drop (Suc k) s)
          in if take 1 (drop k s) = ''='' \<and> val \<noteq> [] then Some (Suc k + length val, take k s @ ''=[REDACTED]'')
             else None))"

definition skip_quote :: "string \<Rightarrow> string" where
  "skip_quote s = (case s of c # cs \<Rightarrow> if c = CHR 0x22 \<or> c = CHR 0x27 then cs else s | [] \<Rightarrow> s)"

definition json_secret_char :: "char \<Rightarrow> bool" where
  "json_secret_char c \<longleftrightarrow> \<not> is_space c \<and> c \<notin> {CHR 0x22, CHR 0x27, CHR '','', CHR ''}'', CHR ''&''}"

definition json_secret_at :: matcher where
  "json_secret_at prev s =
     (let s1 = skip_quote s in
      case find (\<lambda>n. starts_ci n s1) secret_names of
        None \<Rightarrow> None
      | Some n \<Rightarrow>
         (let s2 = dropWhile is_space (skip_quote (drop (length n) s1)) in
          case s2 of
            c # s3 \<Rightarrow>
             (if c = CHR '':'' \<or> c = CHR ''='' then
                (let s4 = skip_quote (dropWhile is_space s3); val = takeWhile json_secret_char s4
                 in if val = [] then None
                    else Some (length s - length s4 + length val, take (length s - length s4) s @ ''[REDACTED]''))
              else None)
          | [] \<Rightarrow> None))"

text \<open>\<open>message.replace(secret, "[REDACTED]")\<close>.\<close>

definition literal_at :: "string \<Rightarrow> matcher" where
  "literal_at lit prev s = (if take (length lit) s = lit then Some (length lit, ''[REDACTED]'') else None)"

definition sanitize_text :: "string list \<Rightarrow> nat \<Rightarrow> string \<Rightarrow> string" where
  "sanitize_text secrets_to_redact max_length value =
     (let m0 = compact_text (if value = [] then ''Provider request failed'' else value);
          m1 = re_sub (length m0) bearer_at None m0;
          m2 = re_sub (length m1) query_at None m1;
          m3 = re_sub (length m2) json_secret_at None m2;
          m4 = foldl (\<lambda>m secret. if secret = [] then m else re_sub (length m) (literal_at secret) None m)
                 m3 secrets_to_redact
      in if length m4 > max_length then take (max_length - 3) m4 @ ''...'' else m4)"

definition sanitize_provider_message :: "string \<Rightarrow> string" where
  "sanitize_provider_message value = sanitize_text [] 300 value"

text \<open>The constructors of the two provider exceptions.\<close>

definition provider_budget_error ::
  "string \<Rightarrow> string \<Rightarrow> string option \<Rightarrow> string option \<Rightarrow> bool \<Rightarrow> exn" where
  "provider_budget_error code message subcode trace_id retryable = ProviderBudgetError
     \<lparr>pe_code = (if code = [] then ''provider_error'' else code),
      pe_message = sanitize_provider_message message, pe_subcode = subcode,
      pe_trace = (if trace_id = Some [] then None else trace_id), pe_retryable = retryable\<rparr>"

definition provider_write_outcome_unknown :: "string \<Rightarrow> string \<Rightarrow> string option \<Rightarrow> exn" where
  "provider_write_outcome_unknown code message trace_id = ProviderWriteOutcomeUnknown
     \<lparr>pe_code = (if code = [] then ''provider_write_unknown'' else code),
      pe_message = sanitize_provider_message message, pe_subcode = None,
      pe_trace = (if trace_id = Some [] then None else trace_id), pe_retryable = False\<rparr>"

definition plain_error :: "string \<Rightarrow> string \<Rightarrow> provider_error" where
  "plain_error code message =
     \<lparr>pe_code = code, pe_message = message, pe_subcode = None, pe_trace = None, pe_retryable = False\<rparr>"

lemma take_length_sanitized: "3 \<le> mx \<Longrightarrow> length (if length m > mx then take (mx - 3) m @ ''...'' else m) \<le> mx"
  by (simp, arith)

lemma sanitize_text_length: "3 \<le> mx \<Longrightarrow> length (sanitize_text secrets mx value) \<le> mx"
  unfolding sanitize_text_def Let_def by (rule take_length_sanitized)

end
