(* ===== verification/Provider_Request.thy ===== *)
theory Provider_Request
  imports Provider_Types
begin

text \<open>
  \<open>BudgetChangeRequest\<close> and \<open>BudgetSnapshot\<close>: the values as a caller passes them, the
  checks and normalisations of \<open>__post_init__\<close>, and the canonical payload that is hashed.
\<close>

section \<open>Field validators\<close>

text \<open>\<open>type(value) is not int\<close>: a bool, a float or a string is not an integer.\<close>

datatype py_number = IntNum int | NotInt

definition enum_value :: "('e \<Rightarrow> string) \<Rightarrow> 'e list \<Rightarrow> string \<Rightarrow> string \<Rightarrow> exn + 'e" where
  "enum_value val members value field_name =
     (case find (\<lambda>e. val e = value) members of
        Some e \<Rightarrow> Inr e
      | None \<Rightarrow> Inl (BudgetValidationError ''invalid_enum''
          (field_name @ '' must be one of: '' @
             concat (case map val members of [] \<Rightarrow> [] | v # vs \<Rightarrow> v # map (\<lambda>w. '', '' @ w) vs))))"

definition require_minor_units :: "py_number \<Rightarrow> string \<Rightarrow> bool \<Rightarrow> exn + int" where
  "require_minor_units value field_name allow_zero =
     (case value of
        NotInt \<Rightarrow> Inl (BudgetValidationError ''invalid_minor_units''
          (field_name @ '' must be an integer in account minor units''))
      | IntNum n \<Rightarrow>
          if n < 0 \<or> (\<not> allow_zero \<and> n = 0)
          then Inl (BudgetValidationError ''invalid_minor_units''
                 (field_name @ '' must be '' @ (if allow_zero then ''zero or greater'' else ''greater than zero'')))
          else Inr n)"

definition provider_id_ok :: "string \<Rightarrow> bool" where
  "provider_id_ok s \<longleftrightarrow> s \<noteq> [] \<and> list_all is_digit s"

definition require_provider_id :: "string \<Rightarrow> string \<Rightarrow> exn + string" where
  "require_provider_id value field_name =
     (let normalized = str_strip value in
      if provider_id_ok normalized then Inr normalized
      else Inl (BudgetValidationError ''invalid_provider_id''
        (field_name @ '' must be a normalized numeric Meta object id'')))"

definition currency_ok :: "string \<Rightarrow> bool" where
  "currency_ok s \<longleftrightarrow> length s = 3 \<and> list_all is_upper s"

section \<open>BudgetChangeRequest\<close>

record raw_request =
  rr_client :: uuid
  rr_account :: uuid
  rr_provider_account :: string
  rr_credential :: uuid
  rr_target_type :: string
  rr_target_id :: string
  rr_field :: string
  rr_amount :: py_number
  rr_currency :: string
  rr_reason :: string
  rr_expected :: "py_number option"
  rr_agency :: "uuid option"
  rr_source_action :: "uuid option"

record request =
  rq_client :: uuid
  rq_account :: uuid
  rq_provider_account :: string
  rq_credential :: uuid
  rq_target_type :: target_type
  rq_target_id :: string
  rq_field :: budget_field
  rq_amount :: int
  rq_currency :: string
  rq_reason :: string
  rq_expected :: "int option"
  rq_agency :: "uuid option"
  rq_source_action :: "uuid option"

fun allowed_fields :: "target_type \<Rightarrow> budget_field list" where
  "allowed_fields Campaign = [DailyBudget, LifetimeBudget]"
| "allowed_fields AdSet = [DailyBudget, LifetimeBudget]"
| "allowed_fields AccountTarget = [SpendCap]"

text \<open>The checks of \<open>__post_init__\<close> in their order; a failing one raises.\<close>

definition make_request :: "raw_request \<Rightarrow> exn + request" where
  "make_request r =
     (case enum_value target_value target_types (rr_target_type r) ''target_type'' of Inl e \<Rightarrow> Inl e
      | Inr tt \<Rightarrow>
     (case enum_value field_value budget_fields (rr_field r) ''field'' of Inl e \<Rightarrow> Inl e
      | Inr fld \<Rightarrow>
      if fld \<notin> set (allowed_fields tt) then Inl (BudgetValidationError ''target_field_mismatch''
        (field_value fld @ '' cannot be changed on '' @ target_value tt))
      else
     (case require_provider_id (rr_provider_account r) ''provider_account_id'' of Inl e \<Rightarrow> Inl e
      | Inr account_id \<Rightarrow>
     (case require_provider_id (rr_target_id r) ''provider_target_id'' of Inl e \<Rightarrow> Inl e
      | Inr target_id \<Rightarrow>
      if tt = AccountTarget \<and> target_id \<noteq> account_id then Inl (BudgetValidationError
        ''account_target_mismatch'' ''Account spend_cap target must match provider_account_id'')
      else
     (case require_minor_units (rr_amount r) ''amount_minor'' (fld = SpendCap) of Inl e \<Rightarrow> Inl e
      | Inr amount \<Rightarrow>
     (case (case rr_expected r of None \<Rightarrow> Inr None
            | Some x \<Rightarrow> (case require_minor_units x ''expected_current_minor'' True of
                 Inl e \<Rightarrow> Inl e | Inr n \<Rightarrow> Inr (Some n))) of Inl e \<Rightarrow> Inl e
      | Inr expected \<Rightarrow>
        let currency = str_strip (rr_currency r); reason = compact_text (rr_reason r) in
        if \<not> currency_ok currency then Inl (BudgetValidationError ''invalid_currency''
          ''currency must be an uppercase ISO-style three-letter code'')
        else if reason = [] \<or> length reason > 500 then Inl (BudgetValidationError ''invalid_reason''
          ''reason is required and must be at most 500 characters'')
        else Inr \<lparr>rq_client = rr_client r, rq_account = rr_account r, rq_provider_account = account_id,
               rq_credential = rr_credential r, rq_target_type = tt, rq_target_id = target_id, rq_field = fld,
               rq_amount = amount, rq_currency = currency, rq_reason = reason, rq_expected = expected,
               rq_agency = rr_agency r, rq_source_action = rr_source_action r\<rparr>))))))"

text \<open>The same object passed through the constructor again, as \<open>dataclasses.replace\<close> does.\<close>

definition raw_of :: "request \<Rightarrow> raw_request" where
  "raw_of q = \<lparr>rr_client = rq_client q, rr_account = rq_account q, rr_provider_account = rq_provider_account q,
     rr_credential = rq_credential q, rr_target_type = target_value (rq_target_type q), rr_target_id = rq_target_id q,
     rr_field = field_value (rq_field q), rr_amount = IntNum (rq_amount q), rr_currency = rq_currency q,
     rr_reason = rq_reason q, rr_expected = map_option IntNum (rq_expected q), rr_agency = rq_agency q,
     rr_source_action = rq_source_action q\<rparr>"

definition jopt_uuid :: "uuid option \<Rightarrow> json" where
  "jopt_uuid x = jopt (\<lambda>u. JStr (str_uuid u)) x"

definition request_payload :: "request \<Rightarrow> json" where
  "request_payload q = JObj
     [(''provider'', JStr ''meta''),
      (''client_id'', JStr (str_uuid (rq_client q))),
      (''ad_account_id'', JStr (str_uuid (rq_account q))),
      (''provider_account_id'', JStr (rq_provider_account q)),
      (''credential_id'', JStr (str_uuid (rq_credential q))),
      (''agency_id'', jopt_uuid (rq_agency q)),
      (''target_type'', JStr (target_value (rq_target_type q))),
      (''provider_target_id'', JStr (rq_target_id q)),
      (''field'', JStr (field_value (rq_field q))),
      (''amount_minor'', JInt (rq_amount q)),
      (''currency'', JStr (rq_currency q)),
      (''expected_current_minor'', jopt JInt (rq_expected q)),
      (''reason'', JStr (rq_reason q)),
      (''source_action_id'', jopt_uuid (rq_source_action q))]"

section \<open>BudgetSnapshot and ProviderWriteReceipt\<close>

record snapshot =
  sn_target_type :: target_type
  sn_target_id :: string
  sn_provider_account :: string
  sn_field :: budget_field
  sn_amount :: int
  sn_currency :: string
  sn_observed_at :: timestamp
  sn_trace :: "string option"

definition make_snapshot ::
  "string \<Rightarrow> string \<Rightarrow> string \<Rightarrow> string \<Rightarrow> py_number \<Rightarrow> string \<Rightarrow> timestamp \<Rightarrow> string option \<Rightarrow> exn + snapshot" where
  "make_snapshot tt target_id account_id fld amount currency observed_at trace_id =
     (case enum_value target_value target_types tt ''target_type'' of Inl e \<Rightarrow> Inl e
      | Inr tt' \<Rightarrow>
     (case enum_value field_value budget_fields fld ''field'' of Inl e \<Rightarrow> Inl e
      | Inr fld' \<Rightarrow>
     (case require_provider_id target_id ''provider_target_id'' of Inl e \<Rightarrow> Inl e
      | Inr target_id' \<Rightarrow>
     (case require_provider_id account_id ''provider_account_id'' of Inl e \<Rightarrow> Inl e
      | Inr account_id' \<Rightarrow>
     (case require_minor_units amount ''amount_minor'' True of Inl e \<Rightarrow> Inl e
      | Inr amount' \<Rightarrow>
        if \<not> currency_ok (str_strip currency)
        then Inl (BudgetValidationError ''invalid_currency'' ''Provider snapshot currency is invalid'')
        else Inr \<lparr>sn_target_type = tt', sn_target_id = target_id', sn_provider_account = account_id',
               sn_field = fld', sn_amount = amount', sn_currency = str_strip currency,
               sn_observed_at = observed_at, sn_trace = trace_id\<rparr>)))))"

record receipt =
  rc_accepted :: bool
  rc_trace :: "string option"

section \<open>What validation guarantees\<close>

definition request_wf :: "request \<Rightarrow> bool" where
  "request_wf q \<longleftrightarrow> rq_field q \<in> set (allowed_fields (rq_target_type q))
     \<and> provider_id_ok (rq_provider_account q) \<and> provider_id_ok (rq_target_id q)
     \<and> (rq_target_type q = AccountTarget \<longrightarrow> rq_target_id q = rq_provider_account q)
     \<and> 0 \<le> rq_amount q \<and> (rq_field q \<noteq> SpendCap \<longrightarrow> 0 < rq_amount q)
     \<and> (case rq_expected q of None \<Rightarrow> True | Some n \<Rightarrow> 0 \<le> n)
     \<and> currency_ok (rq_currency q)
     \<and> rq_reason q \<noteq> [] \<and> length (rq_reason q) \<le> 500 \<and> compact_text (rq_reason q) = rq_reason q"

lemma enum_value_member:
  "inj_on val (set ms) \<Longrightarrow> e \<in> set ms \<Longrightarrow> enum_value val ms (val e) fname = Inr e"
proof -
  assume inj: "inj_on val (set ms)" and e: "e \<in> set ms"
  then have "find (\<lambda>x. val x = val e) ms = Some e"
    by (induction ms) (auto simp: inj_on_def)
  then show ?thesis by (simp add: enum_value_def)
qed

lemma target_enum [simp]: "enum_value target_value target_types (target_value t) fname = Inr t"
  by (cases t) (simp_all add: enum_value_def target_types_def)

lemma field_enum [simp]: "enum_value field_value budget_fields (field_value f) fname = Inr f"
  by (cases f) (simp_all add: enum_value_def budget_fields_def)

lemma digit_not_space: "is_digit c \<Longrightarrow> \<not> is_space c"
  by (auto simp: is_digit_def is_space_def)

lemma upper_not_space: "is_upper c \<Longrightarrow> \<not> is_space c"
  by (auto simp: is_upper_def is_space_def)

lemma dropWhile_none: "(\<And>c. c \<in> set s \<Longrightarrow> \<not> p c) \<Longrightarrow> dropWhile p s = s"
  by (cases s) auto

lemma str_strip_none: "(\<And>c. c \<in> set s \<Longrightarrow> \<not> is_space c) \<Longrightarrow> str_strip s = s"
  using dropWhile_none [of s is_space] dropWhile_none [of "rev s" is_space] by (simp add: str_strip_def)

lemma strip_provider_id: "provider_id_ok s \<Longrightarrow> str_strip s = s"
  by (intro str_strip_none) (auto simp: provider_id_ok_def list_all_iff digit_not_space)

lemma strip_currency: "currency_ok s \<Longrightarrow> str_strip s = s"
  by (intro str_strip_none) (auto simp: currency_ok_def list_all_iff upper_not_space)

lemma require_provider_id_Inr:
  "require_provider_id v f = Inr s \<longleftrightarrow> s = str_strip v \<and> provider_id_ok s"
  by (auto simp: require_provider_id_def Let_def)

lemma require_minor_units_Inr:
  "require_minor_units v f z = Inr n \<longleftrightarrow> v = IntNum n \<and> 0 \<le> n \<and> (z \<or> 0 < n)"
  by (cases v) (auto simp: require_minor_units_def)

text \<open>\<open>" ".join(s.split())\<close> is idempotent.\<close>

lemma str_words_word: "list_all (\<lambda>c. \<not> is_space c) w \<Longrightarrow> str_words acc (w @ rest) = str_words (rev w @ acc) rest"
  by (induction w arbitrary: acc) auto

lemma str_words_clean:
  "list_all (\<lambda>c. \<not> is_space c) acc \<Longrightarrow>
     list_all (\<lambda>w. w \<noteq> [] \<and> list_all (\<lambda>c. \<not> is_space c) w) (str_words acc s)"
proof (induction acc s rule: str_words.induct)
  case (2 acc c cs)
  then show ?case by (cases "is_space c"; cases "acc = []") simp_all
qed (simp add: list_all_iff)

lemma str_words_join_tail:
  "list_all (\<lambda>w. w \<noteq> [] \<and> list_all (\<lambda>c. \<not> is_space c) w) ws \<Longrightarrow> acc \<noteq> [] \<Longrightarrow>
     str_words acc (concat (map (\<lambda>v. CHR '' '' # v) ws)) = rev acc # ws"
proof (induction ws arbitrary: acc)
  case (Cons w ws)
  have sp: "is_space CHR '' ''" by (simp add: is_space_def)
  have w: "w \<noteq> []" "list_all (\<lambda>c. \<not> is_space c) w" using Cons.prems(1) by auto
  have "str_words acc (concat (map (\<lambda>v. CHR '' '' # v) (w # ws)))
      = rev acc # str_words [] (w @ concat (map (\<lambda>v. CHR '' '' # v) ws))"
    using Cons.prems(2) sp by simp
  also have "\<dots> = rev acc # str_words (rev w) (concat (map (\<lambda>v. CHR '' '' # v) ws))"
    by (simp add: str_words_word [OF w(2)])
  also have "\<dots> = rev acc # w # ws" using Cons.IH [of "rev w"] Cons.prems(1) w(1) by simp
  finally show ?case .
qed simp

lemma str_words_join:
  assumes "list_all (\<lambda>w. w \<noteq> [] \<and> list_all (\<lambda>c. \<not> is_space c) w) ws"
  shows "str_words [] (join_words ws) = ws"
proof (cases ws)
  case Nil
  then show ?thesis by (simp add: join_words_def)
next
  case (Cons w rest)
  then have w: "w \<noteq> []" "list_all (\<lambda>c. \<not> is_space c) w" using assms by auto
  show ?thesis using Cons assms w(1) str_words_join_tail [of rest "rev w"]
    by (simp add: join_words_def str_words_word [OF w(2)])
qed

lemma compact_text_idem [simp]: "compact_text (compact_text s) = compact_text s"
  by (simp add: compact_text_def str_words_join str_words_clean)

text \<open>
  C39: A change request that the constructor accepts is well formed: its field is one the target
  has, its provider ids are digits, a spend cap targets the account itself, amounts are not
  negative (positive but for a spend cap), the currency is three capitals and the reason is one
  compact line of at most 500 characters; and passing it through the constructor again, as
  \<open>dataclasses.replace\<close> does, gives the same request.
\<close>
theorem make_request_wf:
  assumes "make_request r = Inr q"
  shows "request_wf q \<and> make_request (raw_of q) = Inr q"
proof
  show wf: "request_wf q"
    using assms unfolding make_request_def request_wf_def
    by (auto simp: require_provider_id_Inr require_minor_units_Inr Let_def split: sum.splits if_splits option.splits)
  show "make_request (raw_of q) = Inr q"
    using wf
    by (cases "rq_expected q")
      (auto simp: make_request_def raw_of_def request_wf_def require_provider_id_def require_minor_units_def
        strip_provider_id strip_currency)
qed

section \<open>An example\<close>

text \<open>A daily campaign budget of 120.00 RUB; the raw values still carry the spaces a caller sent.\<close>

definition ex_raw :: raw_request where
  "ex_raw = \<lparr>rr_client = 1, rr_account = 2, rr_provider_account = '' 12345'', rr_credential = 3,
     rr_target_type = ''campaign'', rr_target_id = ''777 '', rr_field = ''daily_budget'', rr_amount = IntNum 12000,
     rr_currency = ''RUB'', rr_reason = ''scale  up'', rr_expected = None, rr_agency = None, rr_source_action = None\<rparr>"

definition ex_request :: request where
  "ex_request = \<lparr>rq_client = 1, rq_account = 2, rq_provider_account = ''12345'', rq_credential = 3,
     rq_target_type = Campaign, rq_target_id = ''777'', rq_field = DailyBudget, rq_amount = 12000,
     rq_currency = ''RUB'', rq_reason = ''scale up'', rq_expected = None, rq_agency = None, rq_source_action = None\<rparr>"

lemma ex_request_made: "make_request ex_raw = Inr ex_request"
  by code_simp

lemma make_request_wf_witness: "request_wf ex_request \<and> make_request (raw_of ex_request) = Inr ex_request"
  by (rule make_request_wf [OF ex_request_made])

end
