(* ===== verification/Provider_Policy.thy ===== *)
theory Provider_Policy
  imports Provider_Request
begin

text \<open>
  Who may change a provider budget: the actor, tenant and credential contexts, the policies
  \<open>authorize_budget_write\<close> and \<open>authorize_budget_reconciliation\<close>, and the immutable
  snapshots of the facts a decision was taken on.
\<close>

section \<open>Contexts\<close>

record actor =
  a_user :: uuid
  a_role :: actor_role
  a_accessible :: "uuid set"
  a_agency :: "uuid option"
  a_agency_active :: bool
  a_member_role :: "agency_role option"
  a_bound :: "uuid set"
  a_solo_client :: "uuid option"
  a_admin_write :: bool
  a_spend_cap :: bool

record tenant =
  tn_client :: uuid
  tn_account :: uuid
  tn_account_client :: uuid
  tn_client_active :: bool
  tn_account_active :: bool
  tn_platform :: string

record credential =
  cr_id :: uuid
  cr_provider :: string
  cr_status :: string
  cr_scope :: credential_scope
  cr_scope_id :: "uuid option"
  cr_created_by :: "uuid option"
  cr_ads_management :: bool
  cr_revision :: int
  cr_app_id :: string
  cr_config_id :: string
  cr_user_id :: string
  cr_permissions :: "string list"
  cr_validation_version :: int
  cr_validated_at :: timestamp
  cr_expired :: bool

text \<open>The normalisations and checks of the two \<open>__post_init__\<close>s.\<close>

definition make_tenant :: "tenant \<Rightarrow> tenant" where
  "make_tenant t = t\<lparr>tn_platform := str_lower (str_strip (tn_platform t))\<rparr>"

definition normalize_permissions :: "string list \<Rightarrow> string list" where
  "normalize_permissions ps = sort_key char_key
     (remdups (map (\<lambda>p. str_lower (str_strip p)) (filter (\<lambda>p. str_strip p \<noteq> []) ps)))"

definition make_credential :: "credential \<Rightarrow> exn + credential" where
  "make_credential c =
     (let c1 = c\<lparr>cr_provider := str_lower (str_strip (cr_provider c)),
                 cr_status := str_lower (str_strip (cr_status c))\<rparr>;
          c2 = c1\<lparr>cr_app_id := str_strip (cr_app_id c), cr_config_id := str_strip (cr_config_id c),
                  cr_user_id := str_strip (cr_user_id c)\<rparr>;
          c3 = c2\<lparr>cr_permissions := normalize_permissions (cr_permissions c)\<rparr>
      in case first_error
          [raise_if (cr_revision c < 1) (BudgetValidationError ''credential_revision_invalid''
             ''credential revision must be a positive integer''),
           raise_if (cr_app_id c2 = [] \<or> cr_config_id c2 = [] \<or> cr_user_id c2 = [])
             (BudgetValidationError ''credential_validation_snapshot_incomplete''
               ''validated Meta app, business configuration and user identities are required''),
           raise_if (cr_permissions c3 = []) (BudgetValidationError ''credential_validation_snapshot_incomplete''
             ''validated Meta permissions are required''),
           raise_if (cr_validation_version c < 1) (BudgetValidationError ''credential_validation_snapshot_incomplete''
             ''credential validation version must be a positive integer'')]
         of Some e \<Rightarrow> Inl e | None \<Rightarrow> Inr c3)"

record exec_auth =
  ea_actor :: actor
  ea_tenant :: tenant
  ea_credential :: credential
  ea_provider_account :: string
  ea_feature :: bool
  ea_rollout :: bool
  ea_binding :: bool
  ea_spend_cap :: bool

section \<open>authorize_budget_write\<close>

definition policy :: "bool \<Rightarrow> string \<Rightarrow> string \<Rightarrow> exn option" where
  "policy bad code message = raise_if bad (BudgetPolicyError code message)"

definition tenant_policy :: "request \<Rightarrow> actor \<Rightarrow> tenant \<Rightarrow> credential \<Rightarrow> exn option" where
  "tenant_policy q a t c = first_error
     [policy (tn_client t \<noteq> rq_client q \<or> tn_account_client t \<noteq> rq_client q) ''tenant_mismatch''
        ''Advertising account does not belong to the requested client'',
      policy (tn_account t \<noteq> rq_account q) ''account_mismatch''
        ''Advertising account identity does not match the request'',
      policy (\<not> tn_client_active t \<or> \<not> tn_account_active t) ''inactive_scope''
        ''Client and advertising account must both be active'',
      policy (tn_platform t \<noteq> ''meta'') ''provider_mismatch'' ''Only Meta accounts are supported by this policy'',
      policy (cr_id c \<noteq> rq_credential q) ''credential_mismatch''
        ''Explicit credential binding does not match the request'',
      policy (cr_provider c \<noteq> ''meta'' \<or> cr_status c \<noteq> ''active'') ''credential_unavailable''
        ''An active Meta credential is required'',
      policy (cr_expired c \<or> \<not> cr_ads_management c) ''credential_permission_missing''
        ''Credential must be current and grant ads_management'',
      policy (a_role a \<noteq> Admin \<and> rq_client q \<notin> a_accessible a) ''tenant_access_denied''
        ''Actor cannot access the requested client'']"

definition solo_policy :: "request \<Rightarrow> actor \<Rightarrow> credential \<Rightarrow> exn option" where
  "solo_policy q a c = first_error
     [policy (a_solo_client a \<noteq> Some (rq_client q)) ''solo_scope_mismatch''
        ''Solo owner may change budgets only in the owned client'',
      policy (rq_agency q \<noteq> None) ''solo_agency_conflict'' ''Solo owner request cannot select an agency'',
      policy (cr_scope c \<noteq> ClientScoped \<or> cr_scope_id c \<noteq> Some (rq_client q) \<or> cr_created_by c \<noteq> Some (a_user a))
        ''solo_credential_mismatch'' ''Solo owner must use a credential created by that owner'',
      policy (rq_field q = SpendCap) ''spend_cap_forbidden'' ''Solo owners cannot change an account spend_cap'']"

definition agency_policy :: "request \<Rightarrow> actor \<Rightarrow> credential \<Rightarrow> exn option" where
  "agency_policy q a c = first_error
     [policy (rq_agency q = None \<or> a_agency a \<noteq> rq_agency q) ''agency_selection_required''
        ''An active selected agency is required'',
      policy (\<not> a_agency_active a \<or> rq_client q \<notin> a_bound a) ''agency_client_access_denied''
        ''Client is not actively bound to the selected agency'',
      policy (a_member_role a \<notin> {Some Owner, Some Manager}) ''agency_manage_forbidden''
        ''Agency owner or manager access is required'',
      policy (cr_scope c \<noteq> AgencyScope \<or> cr_scope_id c \<noteq> rq_agency q) ''agency_credential_mismatch''
        ''Selected agency must use its own Meta credential'',
      policy (rq_field q = SpendCap \<and> \<not> a_spend_cap a) ''spend_cap_forbidden''
        ''Account spend_cap requires an explicit live role capability'']"

definition admin_policy :: "request \<Rightarrow> actor \<Rightarrow> credential \<Rightarrow> exn option" where
  "admin_policy q a c = first_error
     [policy (\<not> a_admin_write a) ''admin_write_not_delegated'' ''Admin provider write capability is required'',
      policy (cr_scope c \<noteq> GlobalScope \<or> cr_scope_id c \<noteq> None) ''admin_credential_mismatch''
        ''Admin writes must use a platform-owned global credential'',
      policy (rq_field q = SpendCap \<and> \<not> a_spend_cap a) ''spend_cap_forbidden''
        ''Admin account spend_cap capability is required'']"

definition authorize_budget_write :: "request \<Rightarrow> actor \<Rightarrow> tenant \<Rightarrow> credential \<Rightarrow> exn option" where
  "authorize_budget_write q a t c = first_error
     [tenant_policy q a t c,
      (case a_role a of
         Client \<Rightarrow> policy True ''client_read_only'' ''Client role cannot change provider budgets''
       | SoloClient \<Rightarrow> solo_policy q a c
       | Agency \<Rightarrow> agency_policy q a c
       | Admin \<Rightarrow> admin_policy q a c)]"

section \<open>authorize_budget_reconciliation\<close>

definition recovery_scope_ok :: "request \<Rightarrow> credential \<Rightarrow> bool" where
  "recovery_scope_ok q c \<longleftrightarrow>
     (cr_scope c = GlobalScope \<and> cr_scope_id c = None)
     \<or> (cr_scope c = ClientScoped \<and> cr_scope_id c = Some (rq_client q))
     \<or> (cr_scope c = AgencyScope \<and> rq_agency q \<noteq> None \<and> cr_scope_id c = rq_agency q)"

definition authorize_budget_reconciliation :: "request \<Rightarrow> actor \<Rightarrow> tenant \<Rightarrow> credential \<Rightarrow> exn option" where
  "authorize_budget_reconciliation q a t c =
     (let current_request = q\<lparr>rq_credential := cr_id c\<rparr> in
      if a_role a \<noteq> Admin then
        (let recovery_actor = (if rq_field q = SpendCap \<and> a_role a = Agency then a\<lparr>a_spend_cap := True\<rparr> else a)
         in authorize_budget_write current_request recovery_actor t c)
      else first_error
        [policy (\<not> a_admin_write a) ''admin_write_not_delegated'' ''Admin provider recovery capability is required'',
         policy (tn_client t \<noteq> rq_client q \<or> tn_account_client t \<noteq> rq_client q) ''tenant_mismatch''
           ''Advertising account does not belong to the requested client'',
         policy (tn_account t \<noteq> rq_account q) ''account_mismatch''
           ''Advertising account identity does not match the request'',
         policy (\<not> tn_client_active t \<or> \<not> tn_account_active t \<or> tn_platform t \<noteq> ''meta'') ''inactive_scope''
           ''An active Meta client and account are required'',
         policy (cr_provider c \<noteq> ''meta'' \<or> cr_status c \<noteq> ''active'') ''credential_unavailable''
           ''An active Meta credential is required'',
         policy (cr_expired c \<or> \<not> cr_ads_management c) ''credential_permission_missing''
           ''Credential must be current and grant ads_management'',
         policy (\<not> recovery_scope_ok q c) ''admin_recovery_credential_mismatch''
           ''The current bound credential scope does not match the command tenant''])"

section \<open>What the policies allow\<close>

lemma policy_None [simp, guard_simps]: "policy b code msg = None \<longleftrightarrow> \<not> b"
  by (simp add: policy_def)

text \<open>Who may write, as one condition per role.\<close>

definition may_write :: "request \<Rightarrow> actor \<Rightarrow> credential \<Rightarrow> bool" where
  "may_write q a c \<longleftrightarrow> (case a_role a of
      Client \<Rightarrow> False
    | SoloClient \<Rightarrow> rq_client q \<in> a_accessible a \<and> a_solo_client a = Some (rq_client q) \<and> rq_agency q = None
        \<and> rq_field q \<noteq> SpendCap \<and> cr_scope c = ClientScoped \<and> cr_scope_id c = Some (rq_client q)
        \<and> cr_created_by c = Some (a_user a)
    | Agency \<Rightarrow> rq_client q \<in> a_accessible a \<and> rq_client q \<in> a_bound a \<and> a_agency_active a
        \<and> rq_agency q \<noteq> None \<and> a_agency a = rq_agency q \<and> a_member_role a \<in> {Some Owner, Some Manager}
        \<and> cr_scope c = AgencyScope \<and> cr_scope_id c = rq_agency q \<and> (rq_field q = SpendCap \<longrightarrow> a_spend_cap a)
    | Admin \<Rightarrow> a_admin_write a \<and> cr_scope c = GlobalScope \<and> cr_scope_id c = None
        \<and> (rq_field q = SpendCap \<longrightarrow> a_spend_cap a))"

text \<open>The tenant and credential facts every write needs.\<close>

definition live_binding :: "request \<Rightarrow> tenant \<Rightarrow> credential \<Rightarrow> bool" where
  "live_binding q t c \<longleftrightarrow> tn_client t = rq_client q \<and> tn_account_client t = rq_client q \<and> tn_account t = rq_account q
     \<and> tn_client_active t \<and> tn_account_active t \<and> tn_platform t = ''meta''
     \<and> cr_provider c = ''meta'' \<and> cr_status c = ''active'' \<and> \<not> cr_expired c \<and> cr_ads_management c"

text \<open>
  \<open>authorize_budget_write\<close> lets a request through exactly when the tenant and credential
  are live and bound to the request and the actor's role may write it: a client never, a solo owner
  in the owned client with the owner's own credential and no spend cap, an agency owner or manager
  of the selected agency with that agency's credential, an admin with the delegated capability and
  the global credential.
\<close>
theorem authorize_write_iff:
  "authorize_budget_write q a t c = None \<longleftrightarrow>
     live_binding q t c \<and> cr_id c = rq_credential q \<and> may_write q a c"
proof (cases "a_role a")
  case Admin
  then show ?thesis
    by (auto simp: authorize_budget_write_def tenant_policy_def admin_policy_def live_binding_def may_write_def guard_simps)
next
  case Agency
  then show ?thesis
    by (auto simp: authorize_budget_write_def tenant_policy_def agency_policy_def live_binding_def may_write_def guard_simps)
next
  case Client
  then show ?thesis
    by (auto simp: authorize_budget_write_def tenant_policy_def live_binding_def may_write_def guard_simps)
next
  case SoloClient
  then show ?thesis
    by (auto simp: authorize_budget_write_def tenant_policy_def solo_policy_def live_binding_def may_write_def guard_simps)
qed

lemma write_None_iff:
  "authorize_budget_write q a t c = None \<longleftrightarrow>
     live_binding q t c \<and> cr_id c = rq_credential q \<and> may_write q a c"
  by (cases "a_role a")
    (auto simp: authorize_budget_write_def tenant_policy_def solo_policy_def agency_policy_def admin_policy_def
       live_binding_def may_write_def guard_simps)

text \<open>
  Read-only recovery never needs more than the write it recovers: whoever may write a request
  with a credential may reconcile it with that credential.
\<close>
theorem reconcile_weaker_than_write:
  assumes "authorize_budget_write q a t c = None"
  shows "authorize_budget_reconciliation q a t c = None"
proof -
  from assms have w: "live_binding q t c" "cr_id c = rq_credential q" "may_write q a c"
    by (simp_all add: write_None_iff)
  show ?thesis
  proof (cases "a_role a = Admin")
    case True
    with w show ?thesis
      by (auto simp: authorize_budget_reconciliation_def Let_def guard_simps live_binding_def may_write_def recovery_scope_ok_def)
  next
    case False
    with w show ?thesis
      by (cases "a_role a")
        (auto simp: authorize_budget_reconciliation_def Let_def write_None_iff live_binding_def may_write_def)
  qed
qed

text \<open>An accepted recovery has a live binding and is never a client's.\<close>

lemma reconcile_needs_binding:
  assumes r: "authorize_budget_reconciliation q a t c = None"
  shows "a_role a \<noteq> Client \<and> live_binding q t c"
proof (cases "a_role a = Admin")
  case True
  with r show ?thesis
    by (auto simp: authorize_budget_reconciliation_def Let_def guard_simps live_binding_def)
next
  case False
  with r have "authorize_budget_write (q\<lparr>rq_credential := cr_id c\<rparr>)
     (if rq_field q = SpendCap \<and> a_role a = Agency then a\<lparr>a_spend_cap := True\<rparr> else a) t c = None"
    by (simp add: authorize_budget_reconciliation_def Let_def)
  then show ?thesis
    by (auto simp: write_None_iff live_binding_def may_write_def split: if_splits)
qed

text \<open>The owner of the example's client, with the credential that owner created.\<close>

definition ex_actor :: actor where
  "ex_actor = \<lparr>a_user = 9, a_role = SoloClient, a_accessible = {1}, a_agency = None, a_agency_active = False,
     a_member_role = None, a_bound = {}, a_solo_client = Some 1, a_admin_write = False, a_spend_cap = False\<rparr>"

definition ex_tenant :: tenant where
  "ex_tenant = \<lparr>tn_client = 1, tn_account = 2, tn_account_client = 1, tn_client_active = True,
     tn_account_active = True, tn_platform = ''meta''\<rparr>"

definition ex_cred :: credential where
  "ex_cred = \<lparr>cr_id = 3, cr_provider = ''meta'', cr_status = ''active'', cr_scope = ClientScoped,
     cr_scope_id = Some 1, cr_created_by = Some 9, cr_ads_management = True, cr_revision = 1, cr_app_id = ''11'',
     cr_config_id = ''22'', cr_user_id = ''33'', cr_permissions = [''ads_management''], cr_validation_version = 1,
     cr_validated_at = 0, cr_expired = False\<rparr>"

lemma ex_may_write: "authorize_budget_write ex_request ex_actor ex_tenant ex_cred = None"
  by (simp add: write_None_iff live_binding_def may_write_def ex_request_def ex_actor_def ex_tenant_def ex_cred_def)

lemma reconcile_weaker_than_write_witness:
  "authorize_budget_reconciliation ex_request ex_actor ex_tenant ex_cred = None"
  by (rule reconcile_weaker_than_write [OF ex_may_write])

section \<open>Snapshots\<close>

record auth_snapshot =
  as_role :: "actor_role option"
  as_agency :: "uuid option"
  as_member_role :: "agency_role option"
  as_agency_active :: bool
  as_admin_write :: bool
  as_spend_cap :: bool
  as_client_access :: bool
  as_client_bound :: bool
  as_solo_owned :: bool
  as_client_active :: "bool option"
  as_account_active :: "bool option"
  as_feature :: "bool option"
  as_rollout :: "bool option"
  as_binding :: "bool option"
  as_provider_account :: "string option"
  as_spend_cap_enabled :: "bool option"
  as_gate_verified :: "bool option"
  as_gate_failure :: "string option"
  as_version :: int
  as_legacy :: bool

record cred_snapshot =
  cs_revision :: int
  cs_app_id :: string
  cs_config_id :: string
  cs_user_id :: string
  cs_permissions :: "string list"
  cs_validation_version :: int
  cs_validated_at :: "timestamp option"
  cs_gate_verified :: "bool option"
  cs_gate_failure :: "string option"
  cs_version :: int
  cs_legacy :: bool

definition budget_authorization_snapshot :: "actor \<Rightarrow> request \<Rightarrow> auth_snapshot" where
  "budget_authorization_snapshot a q =
     \<lparr>as_role = Some (a_role a), as_agency = a_agency a, as_member_role = a_member_role a,
      as_agency_active = a_agency_active a, as_admin_write = a_admin_write a, as_spend_cap = a_spend_cap a,
      as_client_access = (a_role a = Admin \<or> rq_client q \<in> a_accessible a),
      as_client_bound = (rq_client q \<in> a_bound a), as_solo_owned = (a_solo_client a = Some (rq_client q)),
      as_client_active = None, as_account_active = None, as_feature = None, as_rollout = None,
      as_binding = None, as_provider_account = None, as_spend_cap_enabled = None, as_gate_verified = None,
      as_gate_failure = None, as_version = 1, as_legacy = False\<rparr>"

text \<open>\<open>re.fullmatch("[a-z][a-z0-9_]{0,127}", candidate)\<close> with its fallback.\<close>

definition default_failure :: string where
  "default_failure = ''provider_budget_reauthorization_failed''"

definition safe_code_ok :: "string \<Rightarrow> bool" where
  "safe_code_ok s \<longleftrightarrow> (case s of [] \<Rightarrow> False
     | c # cs \<Rightarrow> is_lower c \<and> list_all (\<lambda>x. is_lower x \<or> is_digit x \<or> x = CHR ''_'') cs \<and> length cs \<le> 127)"

definition safe_failure_code :: "string option \<Rightarrow> string" where
  "safe_failure_code code =
     (let candidate = str_lower (str_strip (case code of None \<Rightarrow> default_failure
          | Some c \<Rightarrow> if c = [] then default_failure else c))
      in if safe_code_ok candidate then candidate else default_failure)"

definition budget_execution_authorization_snapshot ::
  "exec_auth \<Rightarrow> request \<Rightarrow> bool \<Rightarrow> string option \<Rightarrow> auth_snapshot" where
  "budget_execution_authorization_snapshot ea q verified failure =
     (budget_authorization_snapshot (ea_actor ea) q)
       \<lparr>as_client_active := Some (tn_client_active (ea_tenant ea)),
        as_account_active := Some (tn_account_active (ea_tenant ea)),
        as_feature := Some (ea_feature ea), as_rollout := Some (ea_rollout ea),
        as_binding := Some (ea_binding ea), as_provider_account := Some (ea_provider_account ea),
        as_spend_cap_enabled := Some (ea_spend_cap ea), as_gate_verified := Some verified,
        as_gate_failure := (if verified then None else Some (safe_failure_code failure)),
        as_version := 2\<rparr>"

definition budget_execution_failure_snapshot :: "string \<Rightarrow> auth_snapshot" where
  "budget_execution_failure_snapshot failure =
     \<lparr>as_role = None, as_agency = None, as_member_role = None, as_agency_active = False,
      as_admin_write = False, as_spend_cap = False, as_client_access = False, as_client_bound = False,
      as_solo_owned = False, as_client_active = None, as_account_active = None, as_feature = None,
      as_rollout = None, as_binding = None, as_provider_account = None, as_spend_cap_enabled = None,
      as_gate_verified = Some False, as_gate_failure = Some (safe_failure_code (Some failure)),
      as_version = 2, as_legacy = True\<rparr>"

definition budget_credential_failure_snapshot :: "string \<Rightarrow> cred_snapshot" where
  "budget_credential_failure_snapshot failure =
     \<lparr>cs_revision = 0, cs_app_id = [], cs_config_id = [], cs_user_id = [], cs_permissions = [],
      cs_validation_version = 0, cs_validated_at = None, cs_gate_verified = Some False,
      cs_gate_failure = Some (safe_failure_code (Some failure)), cs_version = 2, cs_legacy = True\<rparr>"

definition budget_credential_audit_snapshot :: "credential \<Rightarrow> cred_snapshot" where
  "budget_credential_audit_snapshot c =
     \<lparr>cs_revision = cr_revision c, cs_app_id = cr_app_id c, cs_config_id = cr_config_id c,
      cs_user_id = cr_user_id c, cs_permissions = cr_permissions c,
      cs_validation_version = cr_validation_version c, cs_validated_at = Some (cr_validated_at c),
      cs_gate_verified = None, cs_gate_failure = None, cs_version = 1, cs_legacy = False\<rparr>"

definition budget_execution_credential_snapshot :: "credential \<Rightarrow> bool \<Rightarrow> string option \<Rightarrow> cred_snapshot" where
  "budget_execution_credential_snapshot c verified failure =
     (budget_credential_audit_snapshot c)
       \<lparr>cs_gate_verified := Some verified,
        cs_gate_failure := (if verified then None else Some (safe_failure_code failure)), cs_version := 2\<rparr>"

end
