(* ===== verification/Provider_Store.thy ===== *)
theory Provider_Store
  imports Provider_Policy
begin

text \<open>
  The command ledger: \<open>ProviderBudgetCommand\<close>, \<open>BudgetCommandAttempt\<close>, the
  \<open>BudgetCommandStore\<close> protocol as a locale, and its in-memory implementation
  \<open>InMemoryBudgetCommandStore\<close>.  A lookup table whose order is never read is a map.
\<close>

section \<open>Commands\<close>

record attempt =
  at_no :: int
  at_started :: timestamp
  at_finished :: timestamp
  at_outcome :: command_status
  at_before :: "int option"
  at_after :: "int option"
  at_trace :: "string option"
  at_error :: "provider_error option"
  at_reconciliation :: bool
  at_actor :: "uuid option"
  at_credential :: "uuid option"
  at_auth :: "auth_snapshot option"
  at_cred :: "cred_snapshot option"

record command =
  cm_id :: uuid
  cm_request :: request
  cm_actor :: uuid
  cm_auth :: auth_snapshot
  cm_cred :: cred_snapshot
  cm_status :: command_status
  cm_key :: string
  cm_request_hash :: string
  cm_preview_hash :: string
  cm_before :: int
  cm_after :: "int option"
  cm_trace :: "string option"
  cm_error :: "provider_error option"
  cm_attempt_count :: int
  cm_attempts :: "attempt list"
  cm_created :: timestamp
  cm_updated :: timestamp
  cm_completed :: "timestamp option"

record submission =
  sb_command :: command
  sb_replayed :: bool

type_synonym target_key = "string \<times> string \<times> string \<times> string"

definition target_key_of :: "request \<Rightarrow> target_key" where
  "target_key_of q = (''meta'', target_value (rq_target_type q), rq_target_id q, field_value (rq_field q))"

text \<open>The arguments of \<open>create_or_replay\<close>.\<close>

record creation =
  cn_request :: request
  cn_actor :: uuid
  cn_auth :: auth_snapshot
  cn_cred :: cred_snapshot
  cn_key :: string
  cn_request_hash :: string
  cn_preview_hash :: string
  cn_before :: int
  cn_now :: timestamp

text \<open>The arguments of \<open>finish_execution\<close> and of \<open>record_reconciliation\<close>.\<close>

record finish =
  fi_status :: command_status
  fi_attempt :: attempt
  fi_after :: "int option"
  fi_trace :: "string option"
  fi_error :: "provider_error option"
  fi_now :: timestamp

definition key_char :: "char \<Rightarrow> bool" where
  "key_char c \<longleftrightarrow> is_upper c \<or> is_lower c \<or> is_digit c \<or> c \<in> set ''._:-''"

definition validate_idempotency_key :: "string \<Rightarrow> exn + string" where
  "validate_idempotency_key value =
     (let normalized = str_strip value in
      if 8 \<le> length normalized \<and> length normalized \<le> 128 \<and> list_all key_char normalized
      then Inr normalized
      else Inl (BudgetValidationError ''idempotency_key_invalid''
        ''Idempotency-Key must be 8-128 URL-safe characters''))"

definition new_command :: "uuid \<Rightarrow> string \<Rightarrow> creation \<Rightarrow> command" where
  "new_command i key n =
     \<lparr>cm_id = i, cm_request = cn_request n, cm_actor = cn_actor n, cm_auth = cn_auth n, cm_cred = cn_cred n,
      cm_status = Queued, cm_key = key, cm_request_hash = cn_request_hash n, cm_preview_hash = cn_preview_hash n,
      cm_before = cn_before n, cm_after = None, cm_trace = None, cm_error = None, cm_attempt_count = 0,
      cm_attempts = [], cm_created = cn_now n, cm_updated = cn_now n, cm_completed = None\<rparr>"

definition attempt_with_snapshots :: "command \<Rightarrow> attempt \<Rightarrow> attempt" where
  "attempt_with_snapshots c a = a
     \<lparr>at_auth := (case at_auth a of None \<Rightarrow> Some (cm_auth c) | Some s \<Rightarrow> Some s),
      at_cred := (case at_cred a of None \<Rightarrow> Some (cm_cred c) | Some s \<Rightarrow> Some s)\<rparr>"

definition claimed_command :: "timestamp \<Rightarrow> command \<Rightarrow> command" where
  "claimed_command now c =
     c\<lparr>cm_status := InProgress, cm_attempt_count := cm_attempt_count c + 1, cm_updated := now\<rparr>"

definition finished_command :: "finish \<Rightarrow> command \<Rightarrow> command" where
  "finished_command f c = c
     \<lparr>cm_status := fi_status f, cm_after := fi_after f, cm_trace := fi_trace f, cm_error := fi_error f,
      cm_attempts := cm_attempts c @ [attempt_with_snapshots c (fi_attempt f)], cm_updated := fi_now f,
      cm_completed := (if fi_status f \<noteq> Unknown then Some (fi_now f) else None)\<rparr>"

definition reconciled_command :: "finish \<Rightarrow> command \<Rightarrow> command" where
  "reconciled_command f c = c
     \<lparr>cm_status := fi_status f, cm_after := fi_after f,
      cm_trace := (case fi_trace f of None \<Rightarrow> cm_trace c | Some [] \<Rightarrow> cm_trace c | Some s \<Rightarrow> Some s),
      cm_error := fi_error f, cm_attempt_count := cm_attempt_count c + 1,
      cm_attempts := cm_attempts c @ [attempt_with_snapshots c (fi_attempt f)], cm_updated := fi_now f,
      cm_completed := (if fi_status f \<noteq> Unknown then Some (fi_now f) else None)\<rparr>"

definition err_idempotency :: exn where
  "err_idempotency = IdempotencyConflictError ''idempotency_conflict''
     ''Idempotency-Key was already used with a different request''"
definition err_preview_consumed :: exn where
  "err_preview_consumed = IdempotencyConflictError ''preview_already_consumed''
     ''Preview token was already consumed by another budget command''"
definition err_quarantined :: exn where
  "err_quarantined = CommandNotExecutableError ''meta_budget_target_quarantined''
     ''An earlier budget write has an unresolved outcome; reconcile it before another change''"
definition err_not_found :: exn where
  "err_not_found = CommandNotExecutableError ''command_not_found'' ''Budget command was not found''"
definition err_not_executable :: "command_status \<Rightarrow> exn" where
  "err_not_executable s = CommandNotExecutableError ''command_not_executable''
     (''Budget command in '' @ status_value s @ '' state cannot execute again'')"
definition err_not_in_progress :: exn where
  "err_not_in_progress = CommandNotExecutableError ''command_not_in_progress'' ''Budget command is not in progress''"
definition err_not_reconcilable :: exn where
  "err_not_reconcilable = CommandNotExecutableError ''command_not_reconcilable''
     ''Only an unknown command can be reconciled''"
definition err_transition :: exn where
  "err_transition = BudgetValidationError ''invalid_transition''
     ''Execution must finish in a terminal or unknown state''"
definition err_reconciliation :: exn where
  "err_reconciliation = BudgetValidationError ''invalid_reconciliation''
     ''Reconciliation cannot perform or retry a write''"

section \<open>The protocol\<close>

text \<open>
  The facts of a command no transition changes, and the finish arguments the saga builds: the
  attempt number of the command, amounts that are not negative, one status.
\<close>

definition same_facts :: "command \<Rightarrow> command \<Rightarrow> bool" where
  "same_facts c c0 \<longleftrightarrow> cm_id c = cm_id c0 \<and> cm_request c = cm_request c0 \<and> cm_actor c = cm_actor c0
     \<and> cm_auth c = cm_auth c0 \<and> cm_cred c = cm_cred c0 \<and> cm_key c = cm_key c0
     \<and> cm_request_hash c = cm_request_hash c0 \<and> cm_preview_hash c = cm_preview_hash c0
     \<and> cm_before c = cm_before c0 \<and> cm_created c = cm_created c0"

definition nonneg_opt :: "int option \<Rightarrow> bool" where
  "nonneg_opt x \<longleftrightarrow> (case x of None \<Rightarrow> True | Some n \<Rightarrow> 0 \<le> n)"

definition finish_wf :: "finish \<Rightarrow> int \<Rightarrow> bool" where
  "finish_wf f n \<longleftrightarrow> at_no (fi_attempt f) = n \<and> 0 < n \<and> nonneg_opt (at_before (fi_attempt f))
     \<and> nonneg_opt (at_after (fi_attempt f)) \<and> nonneg_opt (fi_after f) \<and> at_outcome (fi_attempt f) = fi_status f"

definition creation_wf :: "creation \<Rightarrow> bool" where
  "creation_wf n \<longleftrightarrow> request_wf (cn_request n) \<and> 0 \<le> cn_before n"

text \<open>
  The store operations the saga calls, and what it may rely on: a replay changes nothing and has
  the same request hash; a new command is queued under a new id; claiming turns a queued command
  into one in progress; only a command in progress finishes and only an unknown one is reconciled,
  and then always; and no operation touches another command.
\<close>

record 's store_ops =
  so_create :: "uuid \<Rightarrow> creation \<Rightarrow> 's \<Rightarrow> (exn + submission) \<times> 's"
  so_get :: "uuid \<Rightarrow> 's \<Rightarrow> command option"
  so_claim :: "uuid \<Rightarrow> timestamp \<Rightarrow> 's \<Rightarrow> (exn + command) \<times> 's"
  so_finish :: "uuid \<Rightarrow> finish \<Rightarrow> 's \<Rightarrow> (exn + command) \<times> 's"
  so_reconcile :: "uuid \<Rightarrow> finish \<Rightarrow> 's \<Rightarrow> (exn + command) \<times> 's"

locale command_store =
  fixes valid :: "'s \<Rightarrow> bool"
    and ops :: "'s store_ops"
  assumes create_new: "valid s \<Longrightarrow> so_get ops i s = None \<Longrightarrow> creation_wf n \<Longrightarrow>
      so_create ops i n s = (Inr sub, s') \<Longrightarrow> \<not> sb_replayed sub \<Longrightarrow>
      valid s' \<and> cm_status (sb_command sub) = Queued \<and> cm_id (sb_command sub) = i
      \<and> cm_request (sb_command sub) = cn_request n \<and> cm_attempt_count (sb_command sub) = 0
      \<and> (\<forall>j. so_get ops j s' = (if j = i then Some (sb_command sub) else so_get ops j s))"
    and create_replay: "valid s \<Longrightarrow> so_create ops i n s = (Inr sub, s') \<Longrightarrow> sb_replayed sub \<Longrightarrow>
      s' = s \<and> so_get ops (cm_id (sb_command sub)) s = Some (sb_command sub)
      \<and> cm_request_hash (sb_command sub) = cn_request_hash n"
    and create_error: "so_create ops i n s = (Inl e, s') \<Longrightarrow> s' = s"
    and claim_ok: "valid s \<Longrightarrow> so_claim ops i now s = (Inr c, s') \<Longrightarrow>
      valid s' \<and> (\<exists>c0. so_get ops i s = Some c0 \<and> cm_status c0 = Queued \<and> same_facts c c0
        \<and> cm_status c = InProgress \<and> cm_attempt_count c = cm_attempt_count c0 + 1)
      \<and> (\<forall>j. so_get ops j s' = (if j = i then Some c else so_get ops j s))"
    and claim_total: "valid s \<Longrightarrow> so_get ops i s = Some c0 \<Longrightarrow> cm_status c0 = Queued \<Longrightarrow>
      \<exists>c s'. so_claim ops i now s = (Inr c, s')"
    and claim_error: "so_claim ops i now s = (Inl e, s') \<Longrightarrow> s' = s"
    and finish_ok: "valid s \<Longrightarrow> so_get ops i s = Some c0 \<Longrightarrow> cm_status c0 = InProgress \<Longrightarrow>
      finish_wf f (cm_attempt_count c0) \<Longrightarrow> fi_status f \<in> {Applied, Conflict, Failed, Unknown} \<Longrightarrow>
      \<exists>c s'. so_finish ops i f s = (Inr c, s') \<and> valid s' \<and> same_facts c c0 \<and> cm_status c = fi_status f
        \<and> cm_after c = fi_after f \<and> cm_attempt_count c = cm_attempt_count c0
        \<and> (\<forall>j. so_get ops j s' = (if j = i then Some c else so_get ops j s))"
    and reconcile_ok: "valid s \<Longrightarrow> so_get ops i s = Some c0 \<Longrightarrow> cm_status c0 = Unknown \<Longrightarrow>
      finish_wf f (cm_attempt_count c0 + 1) \<Longrightarrow> fi_status f \<in> {Applied, Conflict, Unknown} \<Longrightarrow>
      \<exists>c s'. so_reconcile ops i f s = (Inr c, s') \<and> valid s' \<and> same_facts c c0 \<and> cm_status c = fi_status f
        \<and> cm_after c = fi_after f \<and> cm_attempt_count c = cm_attempt_count c0 + 1
        \<and> (\<forall>j. so_get ops j s' = (if j = i then Some c else so_get ops j s))"
    and get_id: "valid s \<Longrightarrow> so_get ops i s = Some c \<Longrightarrow> cm_id c = i \<and> 0 \<le> cm_attempt_count c"

section \<open>InMemoryBudgetCommandStore\<close>

record command_mem =
  mm_items :: "uuid \<Rightarrow> command option"
  mm_idempotency :: "uuid \<times> string \<Rightarrow> uuid option"
  mm_previews :: "string \<Rightarrow> uuid option"
  mm_quarantines :: "target_key \<Rightarrow> uuid option"

definition mem_empty :: command_mem where
  "mem_empty = \<lparr>mm_items = (\<lambda>_. None), mm_idempotency = (\<lambda>_. None), mm_previews = (\<lambda>_. None),
     mm_quarantines = (\<lambda>_. None)\<rparr>"

definition mem_cmd_create :: "uuid \<Rightarrow> creation \<Rightarrow> command_mem \<Rightarrow> (exn + submission) \<times> command_mem" where
  "mem_cmd_create i n s =
     (case validate_idempotency_key (cn_key n) of Inl e \<Rightarrow> (Inl e, s)
      | Inr nkey \<Rightarrow>
         (let key = (rq_client (cn_request n), nkey) in
          case mm_idempotency s key of
            Some existing_id \<Rightarrow>
             (case mm_items s existing_id of
                None \<Rightarrow> (Inl OtherError, s)
              | Some existing \<Rightarrow>
                  if cm_request_hash existing \<noteq> cn_request_hash n then (Inl err_idempotency, s)
                  else (Inr \<lparr>sb_command = existing, sb_replayed = True\<rparr>, s))
          | None \<Rightarrow>
              if mm_previews s (cn_preview_hash n) \<noteq> None then (Inl err_preview_consumed, s)
              else if mm_quarantines s (target_key_of (cn_request n)) \<noteq> None then (Inl err_quarantined, s)
              else
                (let c = new_command i nkey n in
                 (Inr \<lparr>sb_command = c, sb_replayed = False\<rparr>,
                  s\<lparr>mm_items := (mm_items s)(i \<mapsto> c), mm_idempotency := (mm_idempotency s)(key \<mapsto> i),
                    mm_previews := (mm_previews s)(cn_preview_hash n \<mapsto> i)\<rparr>))))"

definition mem_cmd_get :: "uuid \<Rightarrow> command_mem \<Rightarrow> command option" where
  "mem_cmd_get i s = mm_items s i"

definition mem_cmd_quarantine :: "request \<Rightarrow> command_mem \<Rightarrow> uuid option" where
  "mem_cmd_quarantine q s = mm_quarantines s (target_key_of q)"

definition mem_cmd_claim :: "uuid \<Rightarrow> timestamp \<Rightarrow> command_mem \<Rightarrow> (exn + command) \<times> command_mem" where
  "mem_cmd_claim i now s =
     (case mm_items s i of
        None \<Rightarrow> (Inl err_not_found, s)
      | Some c \<Rightarrow>
          if cm_status c \<noteq> Queued then (Inl (err_not_executable (cm_status c)), s)
          else (Inr (claimed_command now c), s\<lparr>mm_items := (mm_items s)(i \<mapsto> claimed_command now c)\<rparr>))"

definition mem_cmd_finish :: "uuid \<Rightarrow> finish \<Rightarrow> command_mem \<Rightarrow> (exn + command) \<times> command_mem" where
  "mem_cmd_finish i f s =
     (if fi_status f \<notin> {Applied, Conflict, Failed, Unknown} then (Inl err_transition, s)
      else case mm_items s i of
        None \<Rightarrow> (Inl err_not_in_progress, s)
      | Some c \<Rightarrow>
          if cm_status c \<noteq> InProgress then (Inl err_not_in_progress, s)
          else
            (let updated = finished_command f c; s1 = s\<lparr>mm_items := (mm_items s)(i \<mapsto> updated)\<rparr>
             in (Inr updated,
                 if fi_status f = Unknown
                 then s1\<lparr>mm_quarantines := (mm_quarantines s1)(target_key_of (cm_request c) \<mapsto> i)\<rparr> else s1)))"

definition mem_cmd_reconcile :: "uuid \<Rightarrow> finish \<Rightarrow> command_mem \<Rightarrow> (exn + command) \<times> command_mem" where
  "mem_cmd_reconcile i f s =
     (if fi_status f \<notin> {Applied, Conflict, Unknown} then (Inl err_reconciliation, s)
      else case mm_items s i of
        None \<Rightarrow> (Inl err_not_reconcilable, s)
      | Some c \<Rightarrow>
          if cm_status c \<noteq> Unknown then (Inl err_not_reconcilable, s)
          else
            (let updated = reconciled_command f c; s1 = s\<lparr>mm_items := (mm_items s)(i \<mapsto> updated)\<rparr>;
                 key = target_key_of (cm_request c)
             in (Inr updated,
                 if fi_status f = Unknown then s1\<lparr>mm_quarantines := (mm_quarantines s1)(key \<mapsto> i)\<rparr>
                 else if mm_quarantines s1 key = Some i
                   then s1\<lparr>mm_quarantines := (mm_quarantines s1)(key := None)\<rparr>
                 else s1)))"

definition mem_cmd_ops :: "command_mem store_ops" where
  "mem_cmd_ops = \<lparr>so_create = mem_cmd_create, so_get = mem_cmd_get, so_claim = mem_cmd_claim,
     so_finish = mem_cmd_finish, so_reconcile = mem_cmd_reconcile\<rparr>"

definition mem_cmd_valid :: "command_mem \<Rightarrow> bool" where
  "mem_cmd_valid s \<longleftrightarrow> (\<forall>i c. mm_items s i = Some c \<longrightarrow> cm_id c = i \<and> 0 \<le> cm_attempt_count c)"

lemma command_id_simps [simp]:
  "cm_id (claimed_command now c) = cm_id c" "cm_id (finished_command f c) = cm_id c"
  "cm_id (reconciled_command f c) = cm_id c" "cm_id (new_command i k n) = i"
  "cm_status (claimed_command now c) = InProgress" "cm_status (finished_command f c) = fi_status f"
  "cm_status (reconciled_command f c) = fi_status f" "cm_status (new_command i k n) = Queued"
  "cm_request (claimed_command now c) = cm_request c" "cm_request (finished_command f c) = cm_request c"
  "cm_request (reconciled_command f c) = cm_request c" "cm_request (new_command i k n) = cn_request n"
  by (simp_all add: claimed_command_def finished_command_def reconciled_command_def new_command_def)

lemma same_facts_simps [simp]:
  "same_facts (claimed_command now c) c" "same_facts (finished_command f c) c" "same_facts (reconciled_command f c) c"
  "cm_attempt_count (claimed_command now c) = cm_attempt_count c + 1"
  "cm_attempt_count (finished_command f c) = cm_attempt_count c"
  "cm_attempt_count (reconciled_command f c) = cm_attempt_count c + 1"
  "cm_attempt_count (new_command i k n) = 0"
  "cm_after (finished_command f c) = fi_after f" "cm_after (reconciled_command f c) = fi_after f"
  by (simp_all add: same_facts_def claimed_command_def finished_command_def reconciled_command_def new_command_def)

lemmas mem_cmd_defs = mem_cmd_ops_def mem_cmd_create_def mem_cmd_claim_def mem_cmd_finish_def
  mem_cmd_reconcile_def mem_cmd_get_def

interpretation mem_commands: command_store mem_cmd_valid mem_cmd_ops
proof unfold_locales
  fix s s' i n sub
  assume "mem_cmd_valid s" "so_get mem_cmd_ops i s = None" "so_create mem_cmd_ops i n s = (Inr sub, s')"
    "\<not> sb_replayed sub"
  then show "mem_cmd_valid s' \<and> cm_status (sb_command sub) = Queued \<and> cm_id (sb_command sub) = i
      \<and> cm_request (sb_command sub) = cn_request n \<and> cm_attempt_count (sb_command sub) = 0
      \<and> (\<forall>j. so_get mem_cmd_ops j s' = (if j = i then Some (sb_command sub) else so_get mem_cmd_ops j s))"
    by (auto simp: mem_cmd_defs mem_cmd_valid_def Let_def split: sum.splits option.splits if_splits)
next
  fix s s' i n sub
  assume "mem_cmd_valid s" "so_create mem_cmd_ops i n s = (Inr sub, s')" "sb_replayed sub"
  then show "s' = s \<and> so_get mem_cmd_ops (cm_id (sb_command sub)) s = Some (sb_command sub)
      \<and> cm_request_hash (sb_command sub) = cn_request_hash n"
    by (auto simp: mem_cmd_defs mem_cmd_valid_def Let_def split: sum.splits option.splits if_splits)
next
  fix s i now c s'
  assume "mem_cmd_valid s" "so_claim mem_cmd_ops i now s = (Inr c, s')"
  then show "mem_cmd_valid s' \<and> (\<exists>c0. so_get mem_cmd_ops i s = Some c0 \<and> cm_status c0 = Queued \<and> same_facts c c0
        \<and> cm_status c = InProgress \<and> cm_attempt_count c = cm_attempt_count c0 + 1)
      \<and> (\<forall>j. so_get mem_cmd_ops j s' = (if j = i then Some c else so_get mem_cmd_ops j s))"
    by (auto simp: mem_cmd_defs mem_cmd_valid_def split: option.splits if_splits)
next
  fix s i c0 and f :: finish
  assume "mem_cmd_valid s" "so_get mem_cmd_ops i s = Some c0" "cm_status c0 = InProgress"
    "fi_status f \<in> {Applied, Conflict, Failed, Unknown}"
  then show "\<exists>c s'. so_finish mem_cmd_ops i f s = (Inr c, s') \<and> mem_cmd_valid s' \<and> same_facts c c0
        \<and> cm_status c = fi_status f \<and> cm_after c = fi_after f \<and> cm_attempt_count c = cm_attempt_count c0
        \<and> (\<forall>j. so_get mem_cmd_ops j s' = (if j = i then Some c else so_get mem_cmd_ops j s))"
    by (auto simp: mem_cmd_defs mem_cmd_valid_def Let_def)
next
  fix s i c0 and f :: finish
  assume "mem_cmd_valid s" "so_get mem_cmd_ops i s = Some c0" "cm_status c0 = Unknown"
    "fi_status f \<in> {Applied, Conflict, Unknown}"
  then show "\<exists>c s'. so_reconcile mem_cmd_ops i f s = (Inr c, s') \<and> mem_cmd_valid s' \<and> same_facts c c0
        \<and> cm_status c = fi_status f \<and> cm_after c = fi_after f \<and> cm_attempt_count c = cm_attempt_count c0 + 1
        \<and> (\<forall>j. so_get mem_cmd_ops j s' = (if j = i then Some c else so_get mem_cmd_ops j s))"
    by (auto simp: mem_cmd_defs mem_cmd_valid_def Let_def)
qed (auto simp: mem_cmd_defs mem_cmd_valid_def Let_def split: sum.splits option.splits if_splits)

end
