(* ===== verification/Provider_Sql.thy ===== *)
theory Provider_Sql
  imports Provider_Store
begin

text \<open>
  \<open>SqliteProviderBudgetCommandStore\<close> of \<open>app/db.py\<close> over its four tables.  A column
  that holds the text of a UUID, an enumeration value or an instant has the type it is read back
  with; the columns of the request and the two snapshot columns hold the request and the
  snapshots whose canonical texts they store (reading them back is the identity, by
  \<open>make_request_wf\<close> and \<open>auth_snapshot_roundtrip\<close>).  Every method runs in one
  \<open>BEGIN IMMEDIATE\<close> transaction: it returns its error with the database unchanged, or its
  result with the new database.  Foreign keys are outside the model.
\<close>

section \<open>Tables\<close>

record cmd_row =
  cw_id :: uuid
  cw_request :: request
  cw_actor :: uuid
  cw_auth :: auth_snapshot
  cw_cred :: cred_snapshot
  cw_status :: command_status
  cw_key :: string
  cw_request_hash :: string
  cw_preview_hash :: string
  cw_before :: int
  cw_after :: "int option"
  cw_trace :: "string option"
  cw_error_code :: "string option"
  cw_error_message :: "string option"
  cw_error_subcode :: "string option"
  cw_error_retryable :: bool
  cw_attempt_count :: int
  cw_created :: timestamp
  cw_updated :: timestamp
  cw_completed :: "timestamp option"

record attempt_row =
  aw_command :: uuid
  aw_no :: int
  aw_started :: timestamp
  aw_finished :: timestamp
  aw_outcome :: command_status
  aw_before :: "int option"
  aw_after :: "int option"
  aw_trace :: "string option"
  aw_error_code :: "string option"
  aw_error_message :: "string option"
  aw_error_subcode :: "string option"
  aw_error_retryable :: bool
  aw_reconciliation :: bool
  aw_actor :: "uuid option"
  aw_credential :: "uuid option"
  aw_auth :: auth_snapshot
  aw_cred :: cred_snapshot

record lock_row =
  lk_key :: target_key
  lk_command :: uuid
  lk_token :: nat
  lk_until :: timestamp
  lk_updated :: timestamp

record quarantine_row =
  qr_key :: target_key
  qr_command :: uuid
  qr_created :: timestamp
  qr_updated :: timestamp

record cmd_db =
  db_commands :: "cmd_row list"
  db_attempts :: "attempt_row list"
  db_locks :: "lock_row list"
  db_quarantines :: "quarantine_row list"

definition row_key :: "cmd_row \<Rightarrow> target_key" where
  "row_key r = target_key_of (cw_request r)"

definition cmd_find :: "uuid \<Rightarrow> cmd_db \<Rightarrow> cmd_row option" where
  "cmd_find i db = find (\<lambda>r. cw_id r = i) (db_commands db)"

definition quarantine_find :: "target_key \<Rightarrow> cmd_db \<Rightarrow> quarantine_row option" where
  "quarantine_find k db = find (\<lambda>r. qr_key r = k) (db_quarantines db)"

definition lock_find :: "target_key \<Rightarrow> cmd_db \<Rightarrow> lock_row option" where
  "lock_find k db = find (\<lambda>r. lk_key r = k) (db_locks db)"

definition db_error :: exn where "db_error = OtherError"

section \<open>Reading\<close>

definition error_from :: "string option \<Rightarrow> string option \<Rightarrow> string option \<Rightarrow> bool \<Rightarrow> string option \<Rightarrow> provider_error option" where
  "error_from code message subcode retryable trace =
     (case code of
        None \<Rightarrow> None
      | Some c \<Rightarrow> if c = [] then None else Some
          \<lparr>pe_code = c, pe_message = (case message of Some (m # ms) \<Rightarrow> m # ms | _ \<Rightarrow> ''Provider request failed''),
           pe_subcode = subcode, pe_trace = (if trace = Some [] then None else trace), pe_retryable = retryable\<rparr>)"

definition row_attempt :: "attempt_row \<Rightarrow> attempt" where
  "row_attempt r =
     \<lparr>at_no = aw_no r, at_started = aw_started r, at_finished = aw_finished r, at_outcome = aw_outcome r,
      at_before = aw_before r, at_after = aw_after r,
      at_trace = (if aw_trace r = Some [] then None else aw_trace r),
      at_error = error_from (aw_error_code r) (aw_error_message r) (aw_error_subcode r) (aw_error_retryable r) (aw_trace r),
      at_reconciliation = aw_reconciliation r, at_actor = aw_actor r, at_credential = aw_credential r,
      at_auth = Some (aw_auth r), at_cred = Some (aw_cred r)\<rparr>"

definition sql_attempts :: "uuid \<Rightarrow> cmd_db \<Rightarrow> attempt list" where
  "sql_attempts i db = map row_attempt (sort_key aw_no (filter (\<lambda>r. aw_command r = i) (db_attempts db)))"

definition sql_to_command :: "cmd_db \<Rightarrow> cmd_row \<Rightarrow> command" where
  "sql_to_command db r =
     \<lparr>cm_id = cw_id r, cm_request = cw_request r, cm_actor = cw_actor r, cm_auth = cw_auth r, cm_cred = cw_cred r,
      cm_status = cw_status r, cm_key = cw_key r, cm_request_hash = cw_request_hash r,
      cm_preview_hash = cw_preview_hash r, cm_before = cw_before r, cm_after = cw_after r,
      cm_trace = (if cw_trace r = Some [] then None else cw_trace r),
      cm_error = error_from (cw_error_code r) (cw_error_message r) (cw_error_subcode r) (cw_error_retryable r) (cw_trace r),
      cm_attempt_count = cw_attempt_count r, cm_attempts = sql_attempts (cw_id r) db,
      cm_created = cw_created r, cm_updated = cw_updated r, cm_completed = cw_completed r\<rparr>"

definition sql_cmd_get :: "uuid \<Rightarrow> cmd_db \<Rightarrow> command option" where
  "sql_cmd_get i db = map_option (sql_to_command db) (cmd_find i db)"

definition sql_target_quarantine_command_id :: "request \<Rightarrow> cmd_db \<Rightarrow> uuid option" where
  "sql_target_quarantine_command_id q db = map_option qr_command (quarantine_find (target_key_of q) db)"

definition sql_cmd_list :: "uuid \<Rightarrow> uuid option \<Rightarrow> uuid option \<Rightarrow> bool \<Rightarrow> int \<Rightarrow> cmd_db \<Rightarrow> command list" where
  "sql_cmd_list client_id ad_account_id agency_id agency_id_is_null limit db =
     map (sql_to_command db) (take (nat (max 1 (min limit 200))) (sort_desc cw_created (filter (\<lambda>r.
        rq_client (cw_request r) = client_id
        \<and> (case ad_account_id of None \<Rightarrow> True | Some a \<Rightarrow> rq_account (cw_request r) = a)
        \<and> (case agency_id of Some g \<Rightarrow> rq_agency (cw_request r) = Some g
           | None \<Rightarrow> agency_id_is_null \<longrightarrow> rq_agency (cw_request r) = None)) (db_commands db))))"

section \<open>Writing\<close>

definition update_command :: "uuid \<Rightarrow> (cmd_row \<Rightarrow> cmd_row) \<Rightarrow> cmd_db \<Rightarrow> cmd_db" where
  "update_command i f db = db\<lparr>db_commands := update_rows (\<lambda>r. cw_id r = i) f (db_commands db)\<rparr>"

text \<open>The \<open>CHECK\<close>s and unique keys of \<open>provider_budget_commands\<close>.\<close>

definition command_row_ok :: "cmd_db \<Rightarrow> cmd_row \<Rightarrow> bool" where
  "command_row_ok db r \<longleftrightarrow> 0 \<le> rq_amount (cw_request r) \<and> nonneg_opt (rq_expected (cw_request r))
     \<and> 0 \<le> cw_before r \<and> (\<forall>x \<in> set (db_commands db). cw_id x \<noteq> cw_id r)
     \<and> (\<forall>x \<in> set (db_commands db). rq_client (cw_request x) = rq_client (cw_request r) \<longrightarrow> cw_key x \<noteq> cw_key r)
     \<and> (\<forall>x \<in> set (db_commands db). cw_preview_hash x \<noteq> cw_preview_hash r)"

definition new_row :: "uuid \<Rightarrow> string \<Rightarrow> creation \<Rightarrow> cmd_row" where
  "new_row i key n =
     \<lparr>cw_id = i, cw_request = cn_request n, cw_actor = cn_actor n, cw_auth = cn_auth n, cw_cred = cn_cred n,
      cw_status = Queued, cw_key = key, cw_request_hash = cn_request_hash n, cw_preview_hash = cn_preview_hash n,
      cw_before = cn_before n, cw_after = None, cw_trace = None, cw_error_code = None, cw_error_message = None,
      cw_error_subcode = None, cw_error_retryable = False, cw_attempt_count = 0, cw_created = cn_now n,
      cw_updated = cn_now n, cw_completed = None\<rparr>"

definition sql_create_or_replay :: "uuid \<Rightarrow> creation \<Rightarrow> cmd_db \<Rightarrow> (exn + submission) \<times> cmd_db" where
  "sql_create_or_replay i n db =
     (case validate_idempotency_key (cn_key n) of Inl e \<Rightarrow> (Inl e, db)
      | Inr key \<Rightarrow>
         (case find (\<lambda>r. rq_client (cw_request r) = rq_client (cn_request n) \<and> cw_key r = key) (db_commands db) of
            Some existing \<Rightarrow>
              if cw_request_hash existing \<noteq> cn_request_hash n then (Inl err_idempotency, db)
              else (Inr \<lparr>sb_command = sql_to_command db existing, sb_replayed = True\<rparr>, db)
          | None \<Rightarrow>
              if find (\<lambda>r. cw_preview_hash r = cn_preview_hash n) (db_commands db) \<noteq> None
                then (Inl err_preview_consumed, db)
              else if quarantine_find (target_key_of (cn_request n)) db \<noteq> None then (Inl err_quarantined, db)
              else if \<not> command_row_ok db (new_row i key n) then (Inl db_error, db)
              else
                (let db' = db\<lparr>db_commands := db_commands db @ [new_row i key n]\<rparr>
                 in (Inr \<lparr>sb_command = sql_to_command db' (new_row i key n), sb_replayed = False\<rparr>, db'))))"

definition claimed_row :: "timestamp \<Rightarrow> cmd_row \<Rightarrow> cmd_row" where
  "claimed_row now r = r\<lparr>cw_status := InProgress, cw_attempt_count := cw_attempt_count r + 1, cw_updated := now\<rparr>"

definition read_command :: "uuid \<Rightarrow> cmd_db \<Rightarrow> (exn + command) \<times> cmd_db" where
  "read_command i db = (case sql_cmd_get i db of None \<Rightarrow> (Inl db_error, db) | Some c \<Rightarrow> (Inr c, db))"

definition sql_claim_queued :: "uuid \<Rightarrow> timestamp \<Rightarrow> cmd_db \<Rightarrow> (exn + command) \<times> cmd_db" where
  "sql_claim_queued i now db =
     (if length (filter (\<lambda>r. cw_id r = i \<and> cw_status r = Queued) (db_commands db)) \<noteq> 1
      then (case cmd_find i db of
          None \<Rightarrow> (Inl err_not_found, db)
        | Some r \<Rightarrow> (Inl (err_not_executable (cw_status r)), db))
      else read_command i
        (db\<lparr>db_commands := update_rows (\<lambda>r. cw_id r = i \<and> cw_status r = Queued) (claimed_row now) (db_commands db)\<rparr>))"

text \<open>\<open>_insert_attempt\<close>: the table's checks and its unique key may refuse the row.\<close>

definition attempt_row_of :: "cmd_row \<Rightarrow> attempt \<Rightarrow> attempt_row" where
  "attempt_row_of r a =
     \<lparr>aw_command = cw_id r, aw_no = at_no a, aw_started = at_started a, aw_finished = at_finished a,
      aw_outcome = at_outcome a, aw_before = at_before a, aw_after = at_after a, aw_trace = at_trace a,
      aw_error_code = map_option pe_code (at_error a), aw_error_message = map_option pe_message (at_error a),
      aw_error_subcode = (case at_error a of None \<Rightarrow> None | Some e \<Rightarrow> pe_subcode e),
      aw_error_retryable = (case at_error a of None \<Rightarrow> False | Some e \<Rightarrow> pe_retryable e),
      aw_reconciliation = at_reconciliation a, aw_actor = at_actor a, aw_credential = at_credential a,
      aw_auth = (case at_auth a of None \<Rightarrow> cw_auth r | Some s \<Rightarrow> s),
      aw_cred = (case at_cred a of None \<Rightarrow> cw_cred r | Some s \<Rightarrow> s)\<rparr>"

definition attempt_ok :: "cmd_db \<Rightarrow> attempt_row \<Rightarrow> bool" where
  "attempt_ok db a \<longleftrightarrow> 0 < aw_no a \<and> aw_outcome a \<in> {Applied, Conflict, Failed, Unknown}
     \<and> nonneg_opt (aw_before a) \<and> nonneg_opt (aw_after a)
     \<and> (\<forall>x \<in> set (db_attempts db). \<not> (aw_command x = aw_command a \<and> aw_no x = aw_no a))"

definition insert_attempt :: "attempt_row \<Rightarrow> cmd_db \<Rightarrow> exn + cmd_db" where
  "insert_attempt a db =
     (if attempt_ok db a then Inr (db\<lparr>db_attempts := db_attempts db @ [a]\<rparr>) else Inl db_error)"

text \<open>
  \<open>_upsert_target_quarantine\<close>: a new row, a newer time on a row of the same command, and
  nothing when another command holds the target; \<open>command_id\<close> is unique.
\<close>

definition upsert_target_quarantine :: "cmd_row \<Rightarrow> timestamp \<Rightarrow> cmd_db \<Rightarrow> exn + cmd_db" where
  "upsert_target_quarantine r now db =
     (case quarantine_find (row_key r) db of
        Some q \<Rightarrow> Inr (db\<lparr>db_quarantines := update_rows (\<lambda>x. qr_key x = row_key r \<and> qr_command x = cw_id r)
                      (\<lambda>x. x\<lparr>qr_updated := now\<rparr>) (db_quarantines db)\<rparr>)
      | None \<Rightarrow>
          if \<exists>x \<in> set (db_quarantines db). qr_command x = cw_id r then Inl db_error
          else Inr (db\<lparr>db_quarantines := db_quarantines db @
                 [\<lparr>qr_key = row_key r, qr_command = cw_id r, qr_created = now, qr_updated = now\<rparr>]\<rparr>))"

definition finished_row :: "finish \<Rightarrow> cmd_row \<Rightarrow> cmd_row" where
  "finished_row f r = r
     \<lparr>cw_status := fi_status f, cw_after := fi_after f, cw_trace := fi_trace f,
      cw_error_code := map_option pe_code (fi_error f), cw_error_message := map_option pe_message (fi_error f),
      cw_error_subcode := (case fi_error f of None \<Rightarrow> None | Some e \<Rightarrow> pe_subcode e),
      cw_error_retryable := (case fi_error f of None \<Rightarrow> False | Some e \<Rightarrow> pe_retryable e),
      cw_updated := fi_now f, cw_completed := (if fi_status f = Unknown then None else Some (fi_now f))\<rparr>"

definition reconciled_row :: "finish \<Rightarrow> cmd_row \<Rightarrow> cmd_row" where
  "reconciled_row f r = (finished_row f r)
     \<lparr>cw_trace := (case fi_trace f of None \<Rightarrow> cw_trace r | Some t \<Rightarrow> Some t),
      cw_attempt_count := cw_attempt_count r + 1\<rparr>"

definition sql_finish_execution :: "uuid \<Rightarrow> finish \<Rightarrow> cmd_db \<Rightarrow> (exn + command) \<times> cmd_db" where
  "sql_finish_execution i f db =
     (if fi_status f \<notin> {Applied, Conflict, Failed, Unknown} then (Inl err_transition, db)
      else case cmd_find i db of
        None \<Rightarrow> (Inl err_not_in_progress, db)
      | Some r \<Rightarrow>
          if cw_status r \<noteq> InProgress then (Inl err_not_in_progress, db)
          else case insert_attempt (attempt_row_of r (fi_attempt f)) db of
            Inl e \<Rightarrow> (Inl e, db)
          | Inr db1 \<Rightarrow>
              if \<not> nonneg_opt (fi_after f) then (Inl db_error, db)
              else
                (let db2 = db1\<lparr>db_commands := update_rows (\<lambda>x. cw_id x = i \<and> cw_status x = InProgress)
                             (finished_row f) (db_commands db1)\<rparr>
                 in case (if fi_status f = Unknown then upsert_target_quarantine r (fi_now f) db2 else Inr db2) of
                      Inl e \<Rightarrow> (Inl e, db)
                    | Inr db3 \<Rightarrow> read_command i db3))"

definition drop_quarantine :: "cmd_row \<Rightarrow> cmd_db \<Rightarrow> cmd_db" where
  "drop_quarantine r db = db\<lparr>db_quarantines :=
     filter (\<lambda>x. \<not> (qr_key x = row_key r \<and> qr_command x = cw_id r)) (db_quarantines db)\<rparr>"

definition sql_record_reconciliation :: "uuid \<Rightarrow> finish \<Rightarrow> cmd_db \<Rightarrow> (exn + command) \<times> cmd_db" where
  "sql_record_reconciliation i f db =
     (if fi_status f \<notin> {Applied, Conflict, Unknown} then (Inl err_reconciliation, db)
      else case cmd_find i db of
        None \<Rightarrow> (Inl err_not_reconcilable, db)
      | Some r \<Rightarrow>
          if cw_status r \<noteq> Unknown then (Inl err_not_reconcilable, db)
          else case insert_attempt (attempt_row_of r (fi_attempt f)) db of
            Inl e \<Rightarrow> (Inl e, db)
          | Inr db1 \<Rightarrow>
              if \<not> nonneg_opt (fi_after f) then (Inl db_error, db)
              else
                (let db2 = db1\<lparr>db_commands := update_rows (\<lambda>x. cw_id x = i \<and> cw_status x = Unknown)
                             (reconciled_row f) (db_commands db1)\<rparr>
                 in case (if fi_status f = Unknown then upsert_target_quarantine r (fi_now f) db2
                          else Inr (drop_quarantine r db2)) of
                      Inl e \<Rightarrow> (Inl e, db)
                    | Inr db3 \<Rightarrow> read_command i db3))"

section \<open>The target lease\<close>

definition lease_length :: int where "lease_length = 600 * 1000000"

definition sql_acquire_target_lock ::
  "command \<Rightarrow> bool \<Rightarrow> timestamp \<Rightarrow> nat \<Rightarrow> cmd_db \<Rightarrow> nat option \<times> cmd_db" where
  "sql_acquire_target_lock c allow_quarantined now token db =
     (let k = target_key_of (cm_request c);
          row = lock_find k db;
          holder = (case row of None \<Rightarrow> None | Some l \<Rightarrow> cmd_find (lk_command l) db)
      in if (case quarantine_find k db of None \<Rightarrow> False
               | Some q \<Rightarrow> \<not> (allow_quarantined \<and> qr_command q = cm_id c)) then (None, db)
         else if \<exists>r \<in> set (db_commands db). row_key r = k \<and> cw_status r = InProgress then (None, db)
         else if (case (row, holder) of (Some l, Some h) \<Rightarrow> lk_until l > now | _ \<Rightarrow> False) then (None, db)
         else if (case (row, holder) of (Some l, Some h) \<Rightarrow> cw_status h = InProgress | _ \<Rightarrow> False) then (None, db)
         else
           (let fresh = \<lparr>lk_key = k, lk_command = cm_id c, lk_token = token, lk_until = now + lease_length,
                         lk_updated = now\<rparr>
            in (Some token,
                db\<lparr>db_locks := (if row = None then db_locks db @ [fresh]
                     else update_rows (\<lambda>l. lk_key l = k) (\<lambda>_. fresh) (db_locks db))\<rparr>)))"

definition sql_release_target_lock :: "command \<Rightarrow> nat \<Rightarrow> cmd_db \<Rightarrow> cmd_db" where
  "sql_release_target_lock c token db =
     db\<lparr>db_locks := filter (\<lambda>l. \<not> (lk_key l = target_key_of (cm_request c) \<and> lk_command l = cm_id c
          \<and> lk_token l = token
          \<and> \<not> (\<exists>r \<in> set (db_commands db). cw_id r = lk_command l \<and> cw_status r = InProgress))) (db_locks db)\<rparr>"

definition renewable :: "command \<Rightarrow> nat \<Rightarrow> cmd_db \<Rightarrow> lock_row \<Rightarrow> bool" where
  "renewable c token db l \<longleftrightarrow> lk_key l = target_key_of (cm_request c) \<and> lk_command l = cm_id c \<and> lk_token l = token
     \<and> (\<exists>r \<in> set (db_commands db). cw_id r = lk_command l \<and> cw_status r = InProgress)
     \<and> \<not> (\<exists>q \<in> set (db_quarantines db). qr_key q = lk_key l)"

definition sql_renew_target_lock :: "command \<Rightarrow> nat \<Rightarrow> timestamp \<Rightarrow> cmd_db \<Rightarrow> bool \<times> cmd_db" where
  "sql_renew_target_lock c token now db =
     (let hits = length (filter (renewable c token db) (db_locks db));
          db1 = db\<lparr>db_locks := update_rows (renewable c token db)
                  (\<lambda>l. l\<lparr>lk_until := now + lease_length, lk_updated := now\<rparr>) (db_locks db)\<rparr>
      in if hits = 1 then
           (if length (filter (\<lambda>r. cw_id r = cm_id c \<and> cw_status r = InProgress) (db_commands db1)) \<noteq> 1
            then (False, db)
            else (True, db1\<lparr>db_commands := update_rows (\<lambda>r. cw_id r = cm_id c \<and> cw_status r = InProgress)
                          (\<lambda>r. r\<lparr>cw_updated := now\<rparr>) (db_commands db1)\<rparr>))
         else (False, db1))"

section \<open>Offline recovery and counts\<close>

definition sql_count_interrupted :: "cmd_db \<Rightarrow> nat" where
  "sql_count_interrupted db = length (filter (\<lambda>r. cw_status r = InProgress) (db_commands db))"

definition interrupted_code :: string where "interrupted_code = ''provider_execution_interrupted''"

definition interrupted_message :: string where
  "interrupted_message = ''Provider write outcome is unknown after an interrupted execution; reconcile by reading only.''"

definition recovery_attempt_no :: "cmd_row \<Rightarrow> cmd_db \<Rightarrow> int" where
  "recovery_attempt_no r db =
     max 1 (max (cw_attempt_count r) (foldr max (map aw_no (filter (\<lambda>a. aw_command a = cw_id r) (db_attempts db))) 0 + 1))"

definition interrupted_attempt :: "cmd_row \<Rightarrow> int \<Rightarrow> timestamp \<Rightarrow> attempt_row" where
  "interrupted_attempt r no checked_at =
     \<lparr>aw_command = cw_id r, aw_no = no, aw_started = cw_updated r, aw_finished = checked_at,
      aw_outcome = Unknown, aw_before = None, aw_after = None, aw_trace = None,
      aw_error_code = Some interrupted_code, aw_error_message = Some interrupted_message,
      aw_error_subcode = None, aw_error_retryable = False, aw_reconciliation = False,
      aw_actor = None, aw_credential = None, aw_auth = cw_auth r, aw_cred = cw_cred r\<rparr>"

definition interrupted_row :: "int \<Rightarrow> timestamp \<Rightarrow> cmd_row \<Rightarrow> cmd_row" where
  "interrupted_row no checked_at r = r
     \<lparr>cw_status := Unknown, cw_attempt_count := no, cw_error_code := Some interrupted_code,
      cw_error_message := Some interrupted_message, cw_error_subcode := None, cw_error_retryable := False,
      cw_updated := checked_at, cw_completed := None\<rparr>"

definition recover_one :: "timestamp \<Rightarrow> cmd_row \<Rightarrow> cmd_db \<Rightarrow> exn + cmd_db" where
  "recover_one checked_at r db =
     (let no = recovery_attempt_no r db in
      case insert_attempt (interrupted_attempt r no checked_at) db of
        Inl e \<Rightarrow> Inl e
      | Inr db1 \<Rightarrow>
         (case upsert_target_quarantine r checked_at
                 (db1\<lparr>db_commands := update_rows (\<lambda>x. cw_id x = cw_id r \<and> cw_status x = InProgress)
                    (interrupted_row no checked_at) (db_commands db1)\<rparr>) of
            Inl e \<Rightarrow> Inl e
          | Inr db2 \<Rightarrow> Inr (db2\<lparr>db_locks := filter (\<lambda>l. lk_command l \<noteq> cw_id r) (db_locks db2)\<rparr>)))"

fun recover_all :: "timestamp \<Rightarrow> cmd_row list \<Rightarrow> nat \<Rightarrow> cmd_db \<Rightarrow> exn + nat \<times> cmd_db" where
  "recover_all checked_at [] n db = Inr (n, db)"
| "recover_all checked_at (r # rs) n db =
     (case recover_one checked_at r db of Inl e \<Rightarrow> Inl e | Inr db' \<Rightarrow> recover_all checked_at rs (n + 1) db')"

definition sql_recover_interrupted :: "bool \<Rightarrow> timestamp \<Rightarrow> cmd_db \<Rightarrow> (exn + nat) \<times> cmd_db" where
  "sql_recover_interrupted all_api_instances_stopped checked_at db =
     (if \<not> all_api_instances_stopped then (Inl OtherError, db)
      else case recover_all checked_at (sort_key cw_updated (filter (\<lambda>r. cw_status r = InProgress) (db_commands db))) 0 db of
        Inl e \<Rightarrow> (Inl e, db)
      | Inr (n, db') \<Rightarrow> (Inr n, db'))"

section \<open>Retention summary\<close>

datatype retention_identity = ActorIdentity uuid | AgencyIdentity uuid | CredentialIdentity uuid

text \<open>\<open>agency_credentials\<close>: the ids of \<open>integration_credentials\<close> rows scoped to the agency.\<close>

definition retention_rows :: "(uuid \<Rightarrow> uuid list) \<Rightarrow> retention_identity \<Rightarrow> cmd_db \<Rightarrow> cmd_row list" where
  "retention_rows agency_credentials who db = (case who of
      ActorIdentity u \<Rightarrow> filter (\<lambda>c. cw_actor c = u
        \<or> (\<exists>a \<in> set (db_attempts db). aw_command a = cw_id c \<and> aw_actor a = Some u)) (db_commands db)
    | AgencyIdentity g \<Rightarrow> filter (\<lambda>c. rq_agency (cw_request c) = Some g
        \<or> rq_credential (cw_request c) \<in> set (agency_credentials g)) (db_commands db)
    | CredentialIdentity k \<Rightarrow> filter (\<lambda>c. rq_credential (cw_request c) = k) (db_commands db))"

definition provider_budget_retention_summary ::
  "(uuid \<Rightarrow> uuid list) \<Rightarrow> retention_identity \<Rightarrow> cmd_db \<Rightarrow> nat \<times> nat" where
  "provider_budget_retention_summary agency_credentials who db =
     (let rows = retention_rows agency_credentials who db
      in (length rows, length (filter (\<lambda>c. cw_status c \<in> {Queued, InProgress, Unknown}) rows)))"

definition sql_cmd_ops :: "cmd_db store_ops" where
  "sql_cmd_ops = \<lparr>so_create = sql_create_or_replay, so_get = sql_cmd_get, so_claim = sql_claim_queued,
     so_finish = sql_finish_execution, so_reconcile = sql_record_reconciliation\<rparr>"

end
