(* ===== verification/Provider_Payload.thy ===== *)
theory Provider_Payload
  imports Provider_Policy
begin

text \<open>
  The canonical payloads of the audit snapshots, the readers that rebuild a snapshot from a
  stored payload, and the digests taken of them.  \<open>isofmt\<close> and \<open>parse_iso\<close> stand for
  \<open>datetime.isoformat\<close> and \<open>datetime.fromisoformat\<close>, \<open>sha256\<close> for the hexadecimal
  SHA-256 digest of a text.
\<close>

section \<open>canonical_payload\<close>

definition auth_payload :: "auth_snapshot \<Rightarrow> (string \<times> json) list" where
  "auth_payload s =
     [(''actor_role'', jopt (\<lambda>r. JStr (role_value r)) (as_role s)),
      (''selected_agency_id'', jopt_uuid (as_agency s)),
      (''agency_member_role'', jopt (\<lambda>r. JStr (agency_role_value r)) (as_member_role s)),
      (''agency_active'', JBool (as_agency_active s)),
      (''can_admin_provider_write'', JBool (as_admin_write s)),
      (''can_manage_spend_cap'', JBool (as_spend_cap s)),
      (''has_client_access'', JBool (as_client_access s)),
      (''agency_client_bound'', JBool (as_client_bound s)),
      (''solo_client_owned'', JBool (as_solo_owned s)),
      (''client_active'', jopt JBool (as_client_active s)),
      (''account_active'', jopt JBool (as_account_active s)),
      (''feature_enabled'', jopt JBool (as_feature s)),
      (''client_rollout_allowed'', jopt JBool (as_rollout s)),
      (''binding_verified'', jopt JBool (as_binding s)),
      (''provider_account_id'', jopt JStr (as_provider_account s)),
      (''spend_cap_enabled'', jopt JBool (as_spend_cap_enabled s)),
      (''final_gate_verified'', jopt JBool (as_gate_verified s)),
      (''final_gate_failure_code'', jopt JStr (as_gate_failure s)),
      (''snapshot_version'', JInt (as_version s)),
      (''legacy_unverified'', JBool (as_legacy s))]"

definition cred_payload :: "(timestamp \<Rightarrow> string) \<Rightarrow> cred_snapshot \<Rightarrow> (string \<times> json) list" where
  "cred_payload isofmt s =
     [(''revision'', JInt (cs_revision s)),
      (''meta_app_id'', JStr (cs_app_id s)),
      (''meta_business_config_id'', JStr (cs_config_id s)),
      (''meta_user_id'', JStr (cs_user_id s)),
      (''granted_permissions'', JList (map JStr (cs_permissions s))),
      (''validation_version'', JInt (cs_validation_version s)),
      (''validated_at'', jopt (\<lambda>t. JStr (isofmt t)) (cs_validated_at s)),
      (''final_gate_verified'', jopt JBool (cs_gate_verified s)),
      (''final_gate_failure_code'', jopt JStr (cs_gate_failure s)),
      (''snapshot_version'', JInt (cs_version s)),
      (''legacy_unverified'', JBool (cs_legacy s))]"

section \<open>The readers\<close>

text \<open>\<open>isinstance(payload, dict)\<close>.\<close>

definition dict_of :: "json \<Rightarrow> (string \<times> json) list" where
  "dict_of v = (case v of JObj kvs \<Rightarrow> kvs | _ \<Rightarrow> [])"

definition get_bool :: "string \<Rightarrow> (string \<times> json) list \<Rightarrow> bool" where
  "get_bool k kvs = truthy (jget_default k (JBool False) kvs)"

text \<open>\<open>bool(values[k]) if k in values and values[k] is not None else None\<close>.\<close>

definition get_opt_bool :: "string \<Rightarrow> (string \<times> json) list \<Rightarrow> bool option" where
  "get_opt_bool k kvs = (case jget k kvs of JNull \<Rightarrow> None | v \<Rightarrow> Some (truthy v))"

text \<open>
  \<open>str(values[k])\<close> and \<open>int(values[k])\<close> for the values the writers store there (strings and
  integers); a value of another type, which no writer stores, is the error \<open>OtherError\<close>.
\<close>

definition get_opt_str :: "string \<Rightarrow> (string \<times> json) list \<Rightarrow> exn + string option" where
  "get_opt_str k kvs = (case jget k kvs of JNull \<Rightarrow> Inr None | JStr s \<Rightarrow> Inr (Some s) | _ \<Rightarrow> Inl OtherError)"

definition get_int :: "string \<Rightarrow> (string \<times> json) list \<Rightarrow> exn + int" where
  "get_int k kvs = (case jget k kvs of JInt n \<Rightarrow> Inr n
     | JNull \<Rightarrow> Inr 0 | JBool b \<Rightarrow> Inr (if b then 1 else 0) | JStr [] \<Rightarrow> Inr 0 | _ \<Rightarrow> Inl OtherError)"

definition hex_value :: "char \<Rightarrow> nat option" where
  "hex_value c = (if is_digit c then Some (of_char c - 48)
     else if of_char (lower_char c) \<in> {97..102::nat} then Some (of_char (lower_char c) - 87) else None)"

definition hex_number :: "string \<Rightarrow> nat option" where
  "hex_number s = foldl (\<lambda>acc c. case (acc, hex_value c) of (Some n, Some d) \<Rightarrow> Some (16 * n + d) | _ \<Rightarrow> None) (Some 0) s"

text \<open>\<open>UUID(text)\<close>: the hyphens are dropped, 32 hexadecimal digits must remain.\<close>

definition parse_uuid :: "string \<Rightarrow> uuid option" where
  "parse_uuid s = (let h = filter (\<lambda>c. c \<noteq> CHR ''-'') s in if length h = 32 then hex_number h else None)"

definition get_opt_uuid :: "string \<Rightarrow> (string \<times> json) list \<Rightarrow> exn + uuid option" where
  "get_opt_uuid k kvs = (case jget k kvs of
      JStr s \<Rightarrow> if s = [] then Inr None else (case parse_uuid s of None \<Rightarrow> Inl OtherError | Some u \<Rightarrow> Inr (Some u))
    | v \<Rightarrow> if truthy v then Inl OtherError else Inr None)"

definition get_opt_enum ::
  "('e \<Rightarrow> string) \<Rightarrow> 'e list \<Rightarrow> string \<Rightarrow> json \<Rightarrow> exn + 'e option" where
  "get_opt_enum val members fname v = (case v of
      JStr s \<Rightarrow> if s = [] then Inr None
        else (case enum_value val members s fname of Inl e \<Rightarrow> Inl e | Inr e \<Rightarrow> Inr (Some e))
    | _ \<Rightarrow> if truthy v then (case enum_value val members [] fname of Inl e \<Rightarrow> Inl e | Inr e \<Rightarrow> Inr (Some e))
           else Inr None)"

definition authorization_snapshot_from_payload :: "json \<Rightarrow> exn + auth_snapshot" where
  "authorization_snapshot_from_payload payload =
     (let v = dict_of payload in
      case get_opt_enum role_value actor_roles ''actor_role''
             (jget_default ''actor_role'' (JStr (role_value Client)) v) of Inl e \<Rightarrow> Inl e
      | Inr role \<Rightarrow>
     (case get_opt_uuid ''selected_agency_id'' v of Inl e \<Rightarrow> Inl e
      | Inr agency \<Rightarrow>
     (case get_opt_enum agency_role_value agency_roles ''agency_member_role'' (jget ''agency_member_role'' v) of
        Inl e \<Rightarrow> Inl e
      | Inr member \<Rightarrow>
     (case get_opt_str ''provider_account_id'' v of Inl e \<Rightarrow> Inl e
      | Inr account \<Rightarrow>
     (case get_opt_str ''final_gate_failure_code'' v of Inl e \<Rightarrow> Inl e
      | Inr failure \<Rightarrow>
     (case get_int ''snapshot_version'' v of Inl e \<Rightarrow> Inl e
      | Inr version \<Rightarrow>
        Inr \<lparr>as_role = role, as_agency = agency, as_member_role = member,
             as_agency_active = get_bool ''agency_active'' v,
             as_admin_write = get_bool ''can_admin_provider_write'' v,
             as_spend_cap = get_bool ''can_manage_spend_cap'' v,
             as_client_access = get_bool ''has_client_access'' v,
             as_client_bound = get_bool ''agency_client_bound'' v,
             as_solo_owned = get_bool ''solo_client_owned'' v,
             as_client_active = get_opt_bool ''client_active'' v,
             as_account_active = get_opt_bool ''account_active'' v,
             as_feature = get_opt_bool ''feature_enabled'' v,
             as_rollout = get_opt_bool ''client_rollout_allowed'' v,
             as_binding = get_opt_bool ''binding_verified'' v,
             as_provider_account = account,
             as_spend_cap_enabled = get_opt_bool ''spend_cap_enabled'' v,
             as_gate_verified = get_opt_bool ''final_gate_verified'' v,
             as_gate_failure = failure, as_version = version,
             as_legacy = truthy (jget_default ''legacy_unverified'' (JBool (v = [])) v)\<rparr>))))))"

definition permission_values :: "json \<Rightarrow> exn + string list" where
  "permission_values v = (case v of
      JList xs \<Rightarrow> (if list_all (\<lambda>x. case x of JStr _ \<Rightarrow> True | _ \<Rightarrow> \<not> truthy x) xs
        then Inr (normalize_permissions (map (\<lambda>x. case x of JStr s \<Rightarrow> s | _ \<Rightarrow> []) xs)) else Inl OtherError)
    | _ \<Rightarrow> Inl OtherError)"

definition credential_snapshot_from_payload ::
  "(string \<Rightarrow> timestamp option) \<Rightarrow> json \<Rightarrow> exn + cred_snapshot" where
  "credential_snapshot_from_payload parse_iso payload =
     (let v = dict_of payload in
      case (case jget ''validated_at'' v of
              JStr s \<Rightarrow> if s = [] then Inr None
                else (case parse_iso s of None \<Rightarrow> Inl OtherError | Some t \<Rightarrow> Inr (Some t))
            | x \<Rightarrow> if truthy x then Inl OtherError else Inr None) of Inl e \<Rightarrow> Inl e
      | Inr validated \<Rightarrow>
     (case get_int ''revision'' v of Inl e \<Rightarrow> Inl e
      | Inr revision \<Rightarrow>
     (case get_opt_str ''meta_app_id'' v of Inl e \<Rightarrow> Inl e
      | Inr app \<Rightarrow>
     (case get_opt_str ''meta_business_config_id'' v of Inl e \<Rightarrow> Inl e
      | Inr config \<Rightarrow>
     (case get_opt_str ''meta_user_id'' v of Inl e \<Rightarrow> Inl e
      | Inr user \<Rightarrow>
     (case permission_values (jget_default ''granted_permissions'' (JList []) v) of Inl e \<Rightarrow> Inl e
      | Inr permissions \<Rightarrow>
     (case get_int ''validation_version'' v of Inl e \<Rightarrow> Inl e
      | Inr validation \<Rightarrow>
     (case get_opt_str ''final_gate_failure_code'' v of Inl e \<Rightarrow> Inl e
      | Inr failure \<Rightarrow>
     (case get_int ''snapshot_version'' v of Inl e \<Rightarrow> Inl e
      | Inr version \<Rightarrow>
        Inr \<lparr>cs_revision = max 0 revision,
             cs_app_id = (case app of None \<Rightarrow> [] | Some s \<Rightarrow> s),
             cs_config_id = (case config of None \<Rightarrow> [] | Some s \<Rightarrow> s),
             cs_user_id = (case user of None \<Rightarrow> [] | Some s \<Rightarrow> s),
             cs_permissions = permissions, cs_validation_version = max 0 validation,
             cs_validated_at = validated, cs_gate_verified = get_opt_bool ''final_gate_verified'' v,
             cs_gate_failure = failure, cs_version = version,
             cs_legacy = truthy (jget_default ''legacy_unverified'' (JBool (v = [])) v)\<rparr>)))))))))"

section \<open>Digests\<close>

definition sha256_payload :: "(string \<Rightarrow> string) \<Rightarrow> json \<Rightarrow> string" where
  "sha256_payload sha256 payload = sha256 (json_dumps payload)"

definition command_idempotency_hash ::
  "(string \<Rightarrow> string) \<Rightarrow> request \<Rightarrow> uuid \<Rightarrow> string \<Rightarrow> int \<Rightarrow> string" where
  "command_idempotency_hash sha256 q actor_user_id preview_request_digest observed_before_minor =
     sha256_payload sha256 (JObj
       [(''actor_user_id'', JStr (str_uuid actor_user_id)),
        (''request'', request_payload q),
        (''preview_request_hash'', JStr preview_request_digest),
        (''observed_before_minor'', JInt observed_before_minor)])"

section \<open>Round trips\<close>

lemma jget_simps [simp]:
  "jget k ((k', v) # kvs) = (if k = k' then v else jget k kvs)" "jget k [] = JNull"
  "jget_default k d ((k', v) # kvs) = (if k = k' then v else jget_default k d kvs)" "jget_default k d [] = d"
  by (auto simp: jget_def jget_default_def)

lemma of_hex_digit: "d < 16 \<Longrightarrow> (of_char (hex_digit d) :: nat) = (if d < 10 then 48 + d else 87 + d)"
  by (simp add: hex_digit_def)

lemma hex_value_digit: "d < 16 \<Longrightarrow> hex_value (hex_digit d) = Some d"
  by (simp add: hex_value_def is_digit_def lower_char_def of_hex_digit)

lemma hex_digit_no_hyphen: "d < 16 \<Longrightarrow> hex_digit d \<noteq> CHR ''-''"
proof
  assume "d < 16" "hex_digit d = CHR ''-''"
  then have "(of_char (CHR ''-'') :: nat) = (if d < 10 then 48 + d else 87 + d)" using of_hex_digit [of d] by simp
  then show False by (simp split: if_splits)
qed

lemma length_hex_digits [simp]: "length (hex_digits k n) = k"
  by (induction k arbitrary: n) simp_all

lemma hex_number_digits: "n < 16 ^ k \<Longrightarrow> hex_number (hex_digits k n) = Some n"
proof (induction k arbitrary: n)
  case 0
  then show ?case by (simp add: hex_number_def)
next
  case (Suc k)
  then have "n div 16 < 16 ^ k" by (simp add: less_mult_imp_div_less mult.commute)
  from Suc.IH [OF this] show ?case
    by (simp add: hex_number_def hex_value_digit)
qed

lemma hex_digits_no_hyphen: "c \<in> set (hex_digits k n) \<Longrightarrow> c \<noteq> CHR ''-''"
proof (induction k arbitrary: n)
  case (Suc k)
  then show ?case using hex_digit_no_hyphen [of "n mod 16"] by auto
qed simp

lemma filter_no_hyphen: "(\<And>c. c \<in> set s \<Longrightarrow> c \<noteq> CHR ''-'') \<Longrightarrow> filter (\<lambda>c. c \<noteq> CHR ''-'') s = s"
  by (simp add: filter_id_conv)

lemma str_uuid_digits: "filter (\<lambda>c. c \<noteq> CHR ''-'') (str_uuid u) = hex_digits 32 u"
proof -
  let ?h = "hex_digits 32 u"
  have sub: "filter (\<lambda>c. c \<noteq> CHR ''-'') s = s" if "set s \<subseteq> set ?h" for s
    using that hex_digits_no_hyphen [of _ 32 u] by (intro filter_no_hyphen) blast
  have t: "set (take a (drop b ?h)) \<subseteq> set ?h" "set (drop b ?h) \<subseteq> set ?h" "set (take a ?h) \<subseteq> set ?h" for a b
    using set_take_subset [of a "drop b ?h"] set_drop_subset [of b ?h] set_take_subset [of a ?h] by blast+
  have "filter (\<lambda>c. c \<noteq> CHR ''-'') (str_uuid u)
      = take 8 ?h @ take 4 (drop 8 ?h) @ take 4 (drop 12 ?h) @ take 4 (drop 16 ?h) @ drop 20 ?h"
    by (simp add: str_uuid_def Let_def sub [OF t(1)] sub [OF t(2)] sub [OF t(3)])
  also have "\<dots> = ?h"
  proof -
    have "take 4 (drop 16 ?h) @ drop 20 ?h = drop 16 ?h"
      using append_take_drop_id [of 4 "drop 16 ?h"] by simp
    moreover have "take 4 (drop 12 ?h) @ drop 16 ?h = drop 12 ?h"
      using append_take_drop_id [of 4 "drop 12 ?h"] by simp
    moreover have "take 4 (drop 8 ?h) @ drop 12 ?h = drop 8 ?h"
      using append_take_drop_id [of 4 "drop 8 ?h"] by simp
    ultimately show ?thesis by (simp only: append_take_drop_id)
  qed
  finally show ?thesis .
qed

lemma parse_str_uuid [simp]: "u < 2 ^ 128 \<Longrightarrow> parse_uuid (str_uuid u) = Some u"
  using hex_number_digits [of u 32] by (simp add: parse_uuid_def str_uuid_digits)

lemma str_uuid_nonempty [simp]: "str_uuid u \<noteq> []"
  by (simp add: str_uuid_def Let_def)

lemma role_enum [simp]: "enum_value role_value actor_roles (role_value r) f = Inr r"
  by (cases r) (simp_all add: enum_value_def actor_roles_def)

lemma agency_role_enum [simp]: "enum_value agency_role_value agency_roles (agency_role_value r) f = Inr r"
  by (cases r) (simp_all add: enum_value_def agency_roles_def)

lemma role_value_nonempty [simp]: "role_value r \<noteq> []" "agency_role_value m \<noteq> []"
  by (cases r; simp) (cases m; simp)

text \<open>
  A stored authorization snapshot is read back unchanged: rebuilding it from its canonical
  payload gives the same snapshot, unknown facts and failure codes included.
\<close>
theorem auth_snapshot_roundtrip:
  assumes "\<forall>u. as_agency s = Some u \<longrightarrow> u < 2 ^ 128"
  shows "authorization_snapshot_from_payload (JObj (auth_payload s)) = Inr s"
proof -
  let ?v = "auth_payload s"
  have role: "get_opt_enum role_value actor_roles ''actor_role''
      (jget_default ''actor_role'' (JStr (role_value Client)) ?v) = Inr (as_role s)"
    by (cases "as_role s") (simp_all add: auth_payload_def get_opt_enum_def)
  have member: "get_opt_enum agency_role_value agency_roles ''agency_member_role''
      (jget ''agency_member_role'' ?v) = Inr (as_member_role s)"
    by (cases "as_member_role s") (simp_all add: auth_payload_def get_opt_enum_def)
  have agency: "get_opt_uuid ''selected_agency_id'' ?v = Inr (as_agency s)"
    using assms by (cases "as_agency s") (simp_all add: auth_payload_def get_opt_uuid_def jopt_uuid_def)
  have strs: "get_opt_str ''provider_account_id'' ?v = Inr (as_provider_account s)"
    "get_opt_str ''final_gate_failure_code'' ?v = Inr (as_gate_failure s)"
    by (cases "as_provider_account s"; simp add: auth_payload_def get_opt_str_def)
      (cases "as_gate_failure s"; simp add: auth_payload_def get_opt_str_def)
  have ver: "get_int ''snapshot_version'' ?v = Inr (as_version s)"
    by (simp add: auth_payload_def get_int_def)
  have opt: "get_opt_bool ''client_active'' ?v = as_client_active s"
    "get_opt_bool ''account_active'' ?v = as_account_active s" "get_opt_bool ''feature_enabled'' ?v = as_feature s"
    "get_opt_bool ''client_rollout_allowed'' ?v = as_rollout s" "get_opt_bool ''binding_verified'' ?v = as_binding s"
    "get_opt_bool ''spend_cap_enabled'' ?v = as_spend_cap_enabled s"
    "get_opt_bool ''final_gate_verified'' ?v = as_gate_verified s"
    by (simp_all add: auth_payload_def get_opt_bool_def jopt_def split: option.split)
  show ?thesis
    unfolding authorization_snapshot_from_payload_def dict_of_def json.case Let_def
      role member agency strs ver opt sum.case
    by (simp add: auth_payload_def get_bool_def)
qed

text \<open>The witness has every optional field filled, with an agency id of 128 bits.\<close>

definition ex_auth :: auth_snapshot where
  "ex_auth = \<lparr>as_role = Some Agency, as_agency = Some (2 ^ 128 - 1), as_member_role = Some Owner, as_agency_active = True,
     as_admin_write = False, as_spend_cap = True, as_client_access = True, as_client_bound = True, as_solo_owned = False,
     as_client_active = Some True, as_account_active = Some False, as_feature = None, as_rollout = Some True,
     as_binding = Some True, as_provider_account = Some ''12345'', as_spend_cap_enabled = None,
     as_gate_verified = Some False, as_gate_failure = Some ''gate_closed'', as_version = 2, as_legacy = False\<rparr>"

lemma auth_snapshot_roundtrip_witness:
  "authorization_snapshot_from_payload (JObj (auth_payload ex_auth)) = Inr ex_auth"
  by (rule auth_snapshot_roundtrip) (simp add: ex_auth_def)

text \<open>What the writers guarantee of a credential snapshot: its permissions are in the normal form.\<close>

definition cred_snapshot_wf :: "cred_snapshot \<Rightarrow> bool" where
  "cred_snapshot_wf s \<longleftrightarrow> 0 \<le> cs_revision s \<and> 0 \<le> cs_validation_version s
     \<and> normalize_permissions (cs_permissions s) = cs_permissions s"

text \<open>
  A stored credential snapshot is read back unchanged: rebuilding it from its canonical payload
  gives the snapshot, for every snapshot with normal permissions, when \<open>fromisoformat\<close> reads
  what \<open>isoformat\<close> printed of its own validation time.
\<close>
theorem cred_snapshot_roundtrip:
  assumes wf: "cred_snapshot_wf s"
    and iso: "\<forall>t. cs_validated_at s = Some t \<longrightarrow> isofmt t \<noteq> [] \<and> parse_iso (isofmt t) = Some t"
  shows "credential_snapshot_from_payload parse_iso (JObj (cred_payload isofmt s)) = Inr s"
proof -
  let ?v = "cred_payload isofmt s"
  have at: "(case jget ''validated_at'' ?v of
        JStr s \<Rightarrow> if s = [] then Inr None else (case parse_iso s of None \<Rightarrow> Inl OtherError | Some t \<Rightarrow> Inr (Some t))
      | x \<Rightarrow> if truthy x then Inl OtherError else Inr None) = Inr (cs_validated_at s)"
    using iso by (cases "cs_validated_at s") (simp_all add: cred_payload_def)
  have ints: "get_int ''revision'' ?v = Inr (cs_revision s)"
    "get_int ''validation_version'' ?v = Inr (cs_validation_version s)"
    "get_int ''snapshot_version'' ?v = Inr (cs_version s)"
    by (simp_all add: cred_payload_def get_int_def)
  have strs: "get_opt_str ''meta_app_id'' ?v = Inr (Some (cs_app_id s))"
    "get_opt_str ''meta_business_config_id'' ?v = Inr (Some (cs_config_id s))"
    "get_opt_str ''meta_user_id'' ?v = Inr (Some (cs_user_id s))"
    "get_opt_str ''final_gate_failure_code'' ?v = Inr (cs_gate_failure s)"
    by (simp_all add: cred_payload_def get_opt_str_def) (cases "cs_gate_failure s"; simp)
  have perms: "permission_values (jget_default ''granted_permissions'' (JList []) ?v) = Inr (cs_permissions s)"
    using wf by (simp add: cred_payload_def permission_values_def cred_snapshot_wf_def comp_def list_all_iff)
  have bools: "get_opt_bool ''final_gate_verified'' ?v = cs_gate_verified s"
    "truthy (jget_default ''legacy_unverified'' (JBool (?v = [])) ?v) = cs_legacy s"
    by (simp_all add: cred_payload_def get_opt_bool_def) (cases "cs_gate_verified s"; simp)
  have d: "dict_of (JObj ?v) = ?v" by (simp add: dict_of_def)
  show ?thesis
    unfolding credential_snapshot_from_payload_def Let_def d at ints strs perms bools sum.case option.case
    using wf by (simp add: cred_snapshot_wf_def)
qed

definition ex_cred_snapshot :: cred_snapshot where
  "ex_cred_snapshot = budget_credential_audit_snapshot ex_cred"

lemma cred_snapshot_roundtrip_witness:
  "credential_snapshot_from_payload (\<lambda>x. if x = ''1970-01-01T00:00:00+00:00'' then Some 0 else None)
     (JObj (cred_payload (\<lambda>t. ''1970-01-01T00:00:00+00:00'') ex_cred_snapshot)) = Inr ex_cred_snapshot"
  by (rule cred_snapshot_roundtrip)
    (simp_all add: ex_cred_snapshot_def budget_credential_audit_snapshot_def ex_cred_def cred_snapshot_wf_def
      normalize_permissions_def str_strip_def is_space_def str_lower_def lower_char_def)

end
