(* ===== verification/Provider_Saga.thy ===== *)
theory Provider_Saga
  imports Provider_Store Provider_Payload
begin

text \<open>
  \<open>ProviderBudgetCommandService.execute\<close> and \<open>reconcile\<close>.  The provider adapter and the
  two callbacks act on a world the model knows nothing about; the store is any
  \<open>store_ops\<close>.  The body of the \<open>try\<close> statement is a sequence of steps over its local
  variables, so that what an exception leaves behind is what the handler sees.  \<open>sg_posts\<close> is
  a ghost: the calls of \<open>adapter.write_budget\<close>, with the command each was made for.
\<close>

section \<open>Environment and state\<close>

record 'w saga_env =
  ev_read :: "request \<Rightarrow> 'w \<Rightarrow> (exn + snapshot) \<times> 'w"
  ev_write :: "request \<Rightarrow> 'w \<Rightarrow> (exn + receipt) \<times> 'w"
  ev_before_write :: "(command \<Rightarrow> 'w \<Rightarrow> exn option \<times> 'w) option"
  ev_reauthorize :: "(command \<Rightarrow> 'w \<Rightarrow> (exn + exec_auth) \<times> 'w) option"
  ev_sha256 :: "string \<Rightarrow> string"
  ev_isofmt :: "timestamp \<Rightarrow> string"

record ('s, 'w) saga =
  sg_store :: 's
  sg_world :: 'w
  sg_posts :: "(uuid \<times> request) list"

section \<open>Checks\<close>

definition snapshot_matches_request :: "snapshot \<Rightarrow> request \<Rightarrow> exn option" where
  "snapshot_matches_request sn q = first_error
     [raise_if (sn_target_type sn \<noteq> rq_target_type q \<or> sn_target_id sn \<noteq> rq_target_id q
          \<or> sn_provider_account sn \<noteq> rq_provider_account q \<or> sn_field sn \<noteq> rq_field q)
        (provider_budget_error ''provider_target_mismatch''
           ''Provider returned a budget target outside the requested advertising account'' None None False),
      raise_if (sn_currency sn \<noteq> rq_currency q)
        (provider_budget_error ''provider_currency_mismatch''
           ''Provider account currency does not match the requested currency'' None None False)]"

definition context_matches :: "(string \<Rightarrow> string) \<Rightarrow> (timestamp \<Rightarrow> string) \<Rightarrow> command \<Rightarrow> actor \<Rightarrow> credential \<Rightarrow> exn option" where
  "context_matches sha256 isofmt c a cr = first_error
     [raise_if (sha256_payload sha256 (JObj (auth_payload (cm_auth c)))
          \<noteq> sha256_payload sha256 (JObj (auth_payload (budget_authorization_snapshot a (cm_request c)))))
        (BudgetConflictError ''provider_budget_authorization_changed''
           ''Authorization changed after preview; no provider write was attempted''),
      raise_if (sha256_payload sha256 (JObj (cred_payload isofmt (cm_cred c)))
          \<noteq> sha256_payload sha256 (JObj (cred_payload isofmt (budget_credential_audit_snapshot cr))))
        (BudgetConflictError ''provider_budget_credential_changed''
           ''Meta connection changed after preview; no provider write was attempted'')]"

definition internal_error :: provider_error where
  "internal_error = plain_error ''provider_internal_error'' ''Unexpected provider adapter failure''"

text \<open>\<open>a or b\<close> on optional texts: an empty text is falsy.\<close>

definition or_str :: "string option \<Rightarrow> string option \<Rightarrow> string option" where
  "or_str a b = (case a of Some (c # cs) \<Rightarrow> Some (c # cs) | _ \<Rightarrow> b)"

section \<open>The local variables of execute\<close>

record locals =
  lo_before :: "int option"
  lo_after :: "int option"
  lo_trace :: "string option"
  lo_error :: "provider_error option"
  lo_status :: command_status
  lo_accepted :: bool
  lo_actor :: actor
  lo_credential :: credential
  lo_final :: "exec_auth option"
  lo_gate_attempted :: bool
  lo_gate_verified :: bool

definition initial_locals :: "actor \<Rightarrow> credential \<Rightarrow> locals" where
  "initial_locals a cr = \<lparr>lo_before = None, lo_after = None, lo_trace = None, lo_error = None, lo_status = Unknown,
     lo_accepted = False, lo_actor = a, lo_credential = cr, lo_final = None, lo_gate_attempted = False,
     lo_gate_verified = False\<rparr>"

type_synonym ('s, 'w) outcome = "exn option \<times> locals \<times> ('s, 'w) saga"

definition and_then :: "('s, 'w) outcome \<Rightarrow> (locals \<Rightarrow> ('s, 'w) saga \<Rightarrow> ('s, 'w) outcome) \<Rightarrow> ('s, 'w) outcome" where
  "and_then m k = (case m of (Some e, l, s) \<Rightarrow> (Some e, l, s) | (None, l, s) \<Rightarrow> k l s)"

section \<open>The body of the try statement\<close>

definition preflight_step :: "'w saga_env \<Rightarrow> command \<Rightarrow> locals \<Rightarrow> ('s, 'w) saga \<Rightarrow> ('s, 'w) outcome" where
  "preflight_step env c l s =
     (case ev_read env (cm_request c) (sg_world s) of
        (Inl e, w) \<Rightarrow> (Some e, l, s\<lparr>sg_world := w\<rparr>)
      | (Inr before, w) \<Rightarrow>
         (case snapshot_matches_request before (cm_request c) of
            Some e \<Rightarrow> (Some e, l, s\<lparr>sg_world := w\<rparr>)
          | None \<Rightarrow>
             (let l1 = l\<lparr>lo_before := Some (sn_amount before), lo_trace := sn_trace before\<rparr>;
                  expected = rq_expected (cm_request c)
              in if sn_amount before \<noteq> cm_before c \<or> (expected \<noteq> None \<and> expected \<noteq> Some (sn_amount before))
                 then (Some (BudgetConflictError ''provider_budget_changed''
                         ''Provider budget changed after preview; no write was attempted''),
                       l1, s\<lparr>sg_world := w\<rparr>)
                 else (None, l1, s\<lparr>sg_world := w\<rparr>))))"

definition hook_step :: "'w saga_env \<Rightarrow> command \<Rightarrow> locals \<Rightarrow> ('s, 'w) saga \<Rightarrow> ('s, 'w) outcome" where
  "hook_step env c l s =
     (case ev_before_write env of
        None \<Rightarrow> (None, l, s)
      | Some hook \<Rightarrow> (case hook c (sg_world s) of (x, w) \<Rightarrow> (x, l, s\<lparr>sg_world := w\<rparr>)))"

definition final_gate :: "'w saga_env \<Rightarrow> command \<Rightarrow> exec_auth \<Rightarrow> exn option" where
  "final_gate env c fa = first_error
     [policy (a_user (ea_actor fa) \<noteq> cm_actor c) ''command_actor_mismatch''
        ''The live execution actor no longer matches the command actor'',
      policy (\<not> ea_feature fa) ''meta_budget_controls_disabled''
        ''Meta budget controls were disabled before provider execution'',
      policy (\<not> ea_rollout fa) ''meta_budget_client_not_allowed''
        ''Meta budget controls are no longer enabled for this client'',
      policy (\<not> ea_binding fa) ''meta_budget_rediscovery_required''
        ''The trusted Meta account binding could not be verified'',
      policy (ea_provider_account fa \<noteq> rq_provider_account (cm_request c)) ''provider_budget_account_binding_changed''
        ''The trusted Meta account binding changed before provider execution'',
      policy (rq_field (cm_request c) = SpendCap \<and> \<not> ea_spend_cap fa) ''meta_spend_cap_disabled''
        ''Account spend_cap controls were disabled before provider execution'',
      authorize_budget_write (cm_request c) (ea_actor fa) (ea_tenant fa) (ea_credential fa),
      context_matches (ev_sha256 env) (ev_isofmt env) c (ea_actor fa) (ea_credential fa)]"

definition gate_step :: "'w saga_env \<Rightarrow> command \<Rightarrow> locals \<Rightarrow> ('s, 'w) saga \<Rightarrow> ('s, 'w) outcome" where
  "gate_step env c l s =
     (case ev_reauthorize env of
        None \<Rightarrow> (None, l, s)
      | Some reauthorize \<Rightarrow>
         (case reauthorize c (sg_world s) of
            (Inl e, w) \<Rightarrow> (Some e, l\<lparr>lo_gate_attempted := True\<rparr>, s\<lparr>sg_world := w\<rparr>)
          | (Inr fa, w) \<Rightarrow>
             (let l1 = l\<lparr>lo_gate_attempted := True, lo_final := Some fa, lo_actor := ea_actor fa,
                         lo_credential := ea_credential fa\<rparr>
              in case final_gate env c fa of
                   Some e \<Rightarrow> (Some e, l1, s\<lparr>sg_world := w\<rparr>)
                 | None \<Rightarrow> (None, l1\<lparr>lo_gate_verified := True\<rparr>, s\<lparr>sg_world := w\<rparr>))))"

definition write_step :: "'w saga_env \<Rightarrow> command \<Rightarrow> locals \<Rightarrow> ('s, 'w) saga \<Rightarrow> ('s, 'w) outcome" where
  "write_step env c l s =
     (let posts = sg_posts s @ [(cm_id c, cm_request c)] in
      case ev_write env (cm_request c) (sg_world s) of
        (Inl e, w) \<Rightarrow> (Some e, l, s\<lparr>sg_world := w, sg_posts := posts\<rparr>)
      | (Inr rcpt, w) \<Rightarrow>
         (let l1 = l\<lparr>lo_accepted := rc_accepted rcpt, lo_trace := or_str (rc_trace rcpt) (lo_trace l)\<rparr>
          in if \<not> rc_accepted rcpt
             then (Some (provider_write_outcome_unknown ''provider_write_unconfirmed''
                     ''Provider did not return a definitive write acknowledgement'' (lo_trace l1)),
                   l1, s\<lparr>sg_world := w, sg_posts := posts\<rparr>)
             else (None, l1, s\<lparr>sg_world := w, sg_posts := posts\<rparr>)))"

definition readback_step :: "'w saga_env \<Rightarrow> command \<Rightarrow> locals \<Rightarrow> ('s, 'w) saga \<Rightarrow> ('s, 'w) outcome" where
  "readback_step env c l s =
     (case ev_read env (cm_request c) (sg_world s) of
        (Inl e, w) \<Rightarrow> (Some e, l, s\<lparr>sg_world := w\<rparr>)
      | (Inr after, w) \<Rightarrow>
         (case snapshot_matches_request after (cm_request c) of
            Some e \<Rightarrow> (Some e, l, s\<lparr>sg_world := w\<rparr>)
          | None \<Rightarrow>
             (let l1 = l\<lparr>lo_after := Some (sn_amount after), lo_trace := or_str (sn_trace after) (lo_trace l)\<rparr>
              in if sn_amount after = rq_amount (cm_request c)
                 then (None, l1\<lparr>lo_status := Applied\<rparr>, s\<lparr>sg_world := w\<rparr>)
                 else (None, l1\<lparr>lo_status := Unknown, lo_error := Some
                        ((plain_error ''provider_readback_mismatch''
                           ''Provider read-back did not confirm the requested value'')\<lparr>pe_trace := lo_trace l1\<rparr>)\<rparr>,
                       s\<lparr>sg_world := w\<rparr>))))"

definition try_body :: "'w saga_env \<Rightarrow> command \<Rightarrow> locals \<Rightarrow> ('s, 'w) saga \<Rightarrow> ('s, 'w) outcome" where
  "try_body env c l s =
     and_then (and_then (and_then (and_then (preflight_step env c l s) (hook_step env c)) (gate_step env c))
       (write_step env c)) (readback_step env c)"

section \<open>The exception handlers\<close>

definition handle_exn :: "exn option \<Rightarrow> locals \<Rightarrow> locals" where
  "handle_exn x l = (case x of
      None \<Rightarrow> l
    | Some (BudgetConflictError code msg) \<Rightarrow> l\<lparr>lo_status := Conflict, lo_error := Some (plain_error code msg)\<rparr>
    | Some (ProviderWriteOutcomeUnknown pe) \<Rightarrow>
        l\<lparr>lo_status := Unknown, lo_error := Some pe, lo_trace := or_str (pe_trace pe) (lo_trace l)\<rparr>
    | Some (ProviderBudgetError pe) \<Rightarrow>
        l\<lparr>lo_status := (if lo_accepted l then Unknown else Failed), lo_error := Some pe,
          lo_trace := or_str (pe_trace pe) (lo_trace l)\<rparr>
    | Some OtherError \<Rightarrow>
        l\<lparr>lo_status := (if lo_accepted l then Unknown else Failed), lo_error := Some internal_error\<rparr>
    | Some e \<Rightarrow> l\<lparr>lo_status := Failed, lo_error := Some (plain_error
          (if exn_code e = [] then default_failure else exn_code e) (sanitize_provider_message (exn_message e)))\<rparr>)"

definition error_code :: "provider_error option \<Rightarrow> string option" where
  "error_code e = map_option pe_code e"

definition attempt_auth_snapshot :: "command \<Rightarrow> locals \<Rightarrow> auth_snapshot" where
  "attempt_auth_snapshot c l = (case lo_final l of
      Some fa \<Rightarrow> budget_execution_authorization_snapshot fa (cm_request c) (lo_gate_verified l) (error_code (lo_error l))
    | None \<Rightarrow> if lo_gate_attempted l
        then budget_execution_failure_snapshot
          (case error_code (lo_error l) of None \<Rightarrow> default_failure | Some code \<Rightarrow> code)
        else budget_authorization_snapshot (lo_actor l) (cm_request c))"

definition attempt_cred_snapshot :: "locals \<Rightarrow> cred_snapshot \<times> uuid option" where
  "attempt_cred_snapshot l = (case lo_final l of
      Some fa \<Rightarrow> (budget_execution_credential_snapshot (ea_credential fa) (lo_gate_verified l)
          (error_code (lo_error l)), Some (cr_id (ea_credential fa)))
    | None \<Rightarrow> if lo_gate_attempted l
        then (budget_credential_failure_snapshot
          (case error_code (lo_error l) of None \<Rightarrow> default_failure | Some code \<Rightarrow> code), None)
        else (budget_credential_audit_snapshot (lo_credential l), Some (cr_id (lo_credential l))))"

definition execution_finish :: "command \<Rightarrow> timestamp \<Rightarrow> timestamp \<Rightarrow> locals \<Rightarrow> finish" where
  "execution_finish c started_at finished_at l =
     \<lparr>fi_status = lo_status l,
      fi_attempt = \<lparr>at_no = cm_attempt_count c, at_started = started_at, at_finished = finished_at,
        at_outcome = lo_status l, at_before = lo_before l, at_after = lo_after l, at_trace = lo_trace l,
        at_error = lo_error l, at_reconciliation = False, at_actor = Some (a_user (lo_actor l)),
        at_credential = snd (attempt_cred_snapshot l), at_auth = Some (attempt_auth_snapshot c l),
        at_cred = Some (fst (attempt_cred_snapshot l))\<rparr>,
      fi_after = (if lo_status l = Applied then lo_after l else None), fi_trace = lo_trace l,
      fi_error = lo_error l, fi_now = finished_at\<rparr>"

section \<open>execute\<close>

definition execute_guards ::
  "'w saga_env \<Rightarrow> command \<Rightarrow> actor \<Rightarrow> tenant \<Rightarrow> credential \<Rightarrow> exn option" where
  "execute_guards env c a t cr = first_error
     [policy (cm_actor c \<noteq> a_user a) ''command_actor_mismatch'' ''Only the command actor may execute this command'',
      authorize_budget_write (cm_request c) a t cr,
      context_matches (ev_sha256 env) (ev_isofmt env) c a cr]"

definition run_attempt :: "'w saga_env \<Rightarrow> command \<Rightarrow> actor \<Rightarrow> credential \<Rightarrow> ('s, 'w) saga \<Rightarrow> locals \<times> ('s, 'w) saga" where
  "run_attempt env c a cr s = (case try_body env c (initial_locals a cr) s of (x, l, s') \<Rightarrow> (handle_exn x l, s'))"

definition saga_execute ::
  "'s store_ops \<Rightarrow> 'w saga_env \<Rightarrow> uuid \<Rightarrow> actor \<Rightarrow> tenant \<Rightarrow> credential \<Rightarrow> timestamp \<Rightarrow> timestamp \<Rightarrow> ('s, 'w) saga
     \<Rightarrow> (exn + command) \<times> ('s, 'w) saga" where
  "saga_execute ops env i a t cr started_at finished_at s =
     (case so_get ops i (sg_store s) of
        None \<Rightarrow> (Inl err_not_found, s)
      | Some existing \<Rightarrow>
         (case execute_guards env existing a t cr of
            Some e \<Rightarrow> (Inl e, s)
          | None \<Rightarrow>
             (case so_claim ops i started_at (sg_store s) of
                (Inl e, st) \<Rightarrow> (Inl e, s\<lparr>sg_store := st\<rparr>)
              | (Inr c, st) \<Rightarrow>
                 (case run_attempt env c a cr (s\<lparr>sg_store := st\<rparr>) of
                    (l, s2) \<Rightarrow>
                     (case so_finish ops i (execution_finish c started_at finished_at l) (sg_store s2) of
                        (r, st2) \<Rightarrow> (r, s2\<lparr>sg_store := st2\<rparr>))))))"

section \<open>reconcile\<close>

definition successor_ok :: "command \<Rightarrow> actor \<Rightarrow> bool" where
  "successor_ok c a \<longleftrightarrow>
     (a_role a = Agency \<and> rq_agency (cm_request c) \<noteq> None \<and> a_agency a = rq_agency (cm_request c)
        \<and> a_member_role a \<in> {Some Owner, Some Manager})
     \<or> (a_role a = Admin \<and> a_admin_write a)"

definition reconcile_guards :: "command \<Rightarrow> actor \<Rightarrow> tenant \<Rightarrow> credential \<Rightarrow> exn option" where
  "reconcile_guards c a t cr = first_error
     [raise_if (cm_status c \<noteq> Unknown) (CommandNotExecutableError ''command_not_reconcilable''
        ''Only unknown commands can be reconciled''),
      policy (cm_actor c \<noteq> a_user a \<and> \<not> successor_ok c a) ''command_actor_mismatch''
        ''Only the original actor or a currently authorized successor may reconcile this command'',
      authorize_budget_reconciliation (cm_request c) a t cr]"

text \<open>Status, observed amount, trace and error after the provider read.\<close>

definition reconcile_read ::
  "command \<Rightarrow> bool \<Rightarrow> exn + snapshot \<Rightarrow> command_status \<times> int option \<times> string option \<times> provider_error option" where
  "reconcile_read c finalize_mismatch r =
     (case (case r of Inl e \<Rightarrow> Inl e
            | Inr sn \<Rightarrow> (case snapshot_matches_request sn (cm_request c) of Some e \<Rightarrow> Inl e | None \<Rightarrow> Inr sn)) of
        Inl (ProviderBudgetError pe) \<Rightarrow> (Unknown, None, or_str (pe_trace pe) (cm_trace c), Some pe)
      | Inl _ \<Rightarrow> (Unknown, None, cm_trace c, Some internal_error)
      | Inr sn \<Rightarrow>
         (let trace = or_str (sn_trace sn) (cm_trace c) in
          if sn_amount sn = rq_amount (cm_request c) then (Applied, Some (sn_amount sn), trace, None)
          else if finalize_mismatch then (Conflict, Some (sn_amount sn), trace,
            Some ((plain_error ''provider_reconciliation_mismatch''
              ''Provider value differs from the requested value after reconciliation'')\<lparr>pe_trace := trace\<rparr>))
          else (Unknown, Some (sn_amount sn), trace,
            Some ((plain_error ''provider_reconciliation_pending''
              ''Provider value is not yet confirmed; command remains unknown'')\<lparr>pe_trace := trace\<rparr>))))"

definition saga_reconcile ::
  "'s store_ops \<Rightarrow> 'w saga_env \<Rightarrow> uuid \<Rightarrow> actor \<Rightarrow> tenant \<Rightarrow> credential \<Rightarrow> bool \<Rightarrow> timestamp \<Rightarrow> timestamp \<Rightarrow> ('s, 'w) saga
     \<Rightarrow> (exn + command) \<times> ('s, 'w) saga" where
  "saga_reconcile ops env i a t cr finalize_mismatch started_at finished_at s =
     (case so_get ops i (sg_store s) of
        None \<Rightarrow> (Inl err_not_found, s)
      | Some c \<Rightarrow>
         (case reconcile_guards c a t cr of
            Some e \<Rightarrow> (Inl e, s)
          | None \<Rightarrow>
             (case ev_read env (cm_request c) (sg_world s) of
                (r, w) \<Rightarrow>
                 (case reconcile_read c finalize_mismatch r of
                    (status, after, trace, error) \<Rightarrow>
                     (case so_reconcile ops i
                        \<lparr>fi_status = status,
                         fi_attempt = \<lparr>at_no = cm_attempt_count c + 1, at_started = started_at,
                           at_finished = finished_at, at_outcome = status, at_before = None,
                           at_after = (if status \<in> {Applied, Conflict} then after else None),
                           at_trace = trace, at_error = error, at_reconciliation = True,
                           at_actor = Some (a_user a), at_credential = Some (cr_id cr),
                           at_auth = Some (budget_authorization_snapshot a (cm_request c)),
                           at_cred = Some (budget_credential_audit_snapshot cr)\<rparr>,
                         fi_after = (if status = Applied then after else None), fi_trace = trace,
                         fi_error = error, fi_now = finished_at\<rparr> (sg_store s) of
                        (res, st) \<Rightarrow> (res, s\<lparr>sg_store := st, sg_world := w\<rparr>))))))"

section \<open>What an attempt can do\<close>

lemma and_then_Some [simp]: "and_then (Some e, l, s) k = (Some e, l, s)"
  and and_then_None [simp]: "and_then (None, l, s) k = k l s"
  by (simp_all add: and_then_def)

lemma preflight_frame:
  "preflight_step env c l s = (x, l', s') \<Longrightarrow> sg_posts s' = sg_posts s \<and> sg_store s' = sg_store s
     \<and> lo_accepted l' = lo_accepted l \<and> lo_after l' = lo_after l \<and> lo_status l' = lo_status l
     \<and> lo_gate_verified l' = lo_gate_verified l \<and> lo_final l' = lo_final l
     \<and> (x = None \<longrightarrow> lo_before l' = Some (cm_before c))"
  by (auto simp: preflight_step_def Let_def split: prod.splits sum.splits option.splits if_splits)

lemma hook_frame:
  "hook_step env c l s = (x, l', s') \<Longrightarrow> sg_posts s' = sg_posts s \<and> sg_store s' = sg_store s \<and> l' = l"
  by (auto simp: hook_step_def split: option.splits prod.splits)

lemma gate_frame:
  "gate_step env c l s = (x, l', s') \<Longrightarrow> sg_posts s' = sg_posts s \<and> sg_store s' = sg_store s
     \<and> lo_accepted l' = lo_accepted l \<and> lo_after l' = lo_after l \<and> lo_status l' = lo_status l
     \<and> lo_before l' = lo_before l
     \<and> (x = None \<longrightarrow> (\<forall>re. ev_reauthorize env = Some re \<longrightarrow> lo_gate_verified l'
          \<and> (\<exists>fa w w'. re c w = (Inr fa, w') \<and> lo_final l' = Some fa \<and> final_gate env c fa = None)))"
  by ((auto simp: gate_step_def Let_def split: option.splits prod.splits sum.splits); blast)

lemma write_frame:
  "write_step env c l s = (x, l', s') \<Longrightarrow> sg_posts s' = sg_posts s @ [(cm_id c, cm_request c)]
     \<and> sg_store s' = sg_store s \<and> lo_after l' = lo_after l \<and> lo_status l' = lo_status l
     \<and> lo_final l' = lo_final l \<and> lo_gate_verified l' = lo_gate_verified l \<and> lo_before l' = lo_before l
     \<and> (x = None \<longrightarrow> lo_accepted l')"
  by (auto simp: write_step_def Let_def split: prod.splits sum.splits if_splits)

lemma readback_frame:
  "readback_step env c l s = (x, l', s') \<Longrightarrow> sg_posts s' = sg_posts s \<and> sg_store s' = sg_store s
     \<and> lo_accepted l' = lo_accepted l \<and> lo_final l' = lo_final l \<and> lo_gate_verified l' = lo_gate_verified l
     \<and> lo_before l' = lo_before l
     \<and> (x = None \<longrightarrow> (lo_status l' = Applied \<and> lo_after l' = Some (rq_amount (cm_request c)))
          \<or> (lo_status l' = Unknown \<and> lo_after l' \<noteq> Some (rq_amount (cm_request c)) \<and> lo_after l' \<noteq> None))
     \<and> (x \<noteq> None \<longrightarrow> lo_status l' = lo_status l)"
  by (auto simp: readback_step_def Let_def split: prod.splits sum.splits option.splits if_splits)

end
