(* ===== verification/Provider_Ledger.thy ===== *)
theory Provider_Ledger
  imports Provider_Saga
begin

text \<open>
  What one execution of a command does, whichever store keeps the ledger: at most one provider
  write, only behind every guard, and a recorded outcome that matches what happened.  The lemmas
  about the ledger are proved in the \<open>command_store\<close> locale from its laws.
\<close>

section \<open>The course of one attempt\<close>

definition gate_passed :: "'w saga_env \<Rightarrow> command \<Rightarrow> locals \<Rightarrow> bool" where
  "gate_passed env c l \<longleftrightarrow> (\<forall>re. ev_reauthorize env = Some re \<longrightarrow>
     lo_gate_verified l \<and> (\<exists>fa w w'. re c w = (Inr fa, w') \<and> lo_final l = Some fa \<and> final_gate env c fa = None))"

definition post_of :: "command \<Rightarrow> uuid \<times> request" where
  "post_of c = (cm_id c, cm_request c)"

text \<open>
  Either the attempt stopped before the write, or the write was sent and rejected or left open,
  or it was accepted and the read-back failed, or it was accepted and read back.
\<close>

lemma try_body_cases:
  assumes "try_body env c (initial_locals a cr) s = (x, l, s')"
  obtains (stopped) e where "x = Some e" "sg_posts s' = sg_posts s" "sg_store s' = sg_store s" "\<not> lo_accepted l"
      "lo_after l = None" "lo_status l = Unknown"
    | (open_write) e where "x = Some e" "sg_posts s' = sg_posts s @ [post_of c]" "sg_store s' = sg_store s"
      "lo_after l = None" "lo_status l = Unknown" "lo_before l = Some (cm_before c)" "gate_passed env c l"
    | (read_back) "x = None" "sg_posts s' = sg_posts s @ [post_of c]" "sg_store s' = sg_store s" "lo_accepted l"
      "(lo_status l = Applied \<and> lo_after l = Some (rq_amount (cm_request c)))
        \<or> (lo_status l = Unknown \<and> lo_after l \<noteq> Some (rq_amount (cm_request c)))"
      "lo_before l = Some (cm_before c)" "gate_passed env c l"
proof -
  let ?l0 = "initial_locals a cr"
  obtain x1 l1 s1 where p: "preflight_step env c ?l0 s = (x1, l1, s1)" by (metis prod_cases3)
  note f1 = preflight_frame [OF p]
  have init: "lo_after ?l0 = None" "lo_status ?l0 = Unknown" "\<not> lo_accepted ?l0" by (simp_all add: initial_locals_def)
  show ?thesis
  proof (cases x1)
    case (Some e)
    with assms p have "x = Some e" "l = l1" "s' = s1" by (simp_all add: try_body_def)
    with f1 init show ?thesis by (intro stopped) auto
  next
    case None
    obtain x2 l2 s2 where h: "hook_step env c l1 s1 = (x2, l2, s2)" by (metis prod_cases3)
    note f2 = hook_frame [OF h]
    show ?thesis
    proof (cases x2)
      case (Some e)
      with assms p None h have "x = Some e" "l = l2" "s' = s2" by (simp_all add: try_body_def)
      with f1 f2 init show ?thesis by (intro stopped) auto
    next
      case N2: None
      obtain x3 l3 s3 where g: "gate_step env c l2 s2 = (x3, l3, s3)" by (metis prod_cases3)
      note f3 = gate_frame [OF g]
      show ?thesis
      proof (cases x3)
        case (Some e)
        with assms p None h N2 g have "x = Some e" "l = l3" "s' = s3" by (simp_all add: try_body_def)
        with f1 f2 f3 init show ?thesis by (intro stopped) auto
      next
        case N3: None
        obtain x4 l4 s4 where w: "write_step env c l3 s3 = (x4, l4, s4)" by (metis prod_cases3)
        note f4 = write_frame [OF w]
        have gp: "gate_passed env c l4" using f3 f4 N3 by (auto simp: gate_passed_def)
        have b4: "lo_before l4 = Some (cm_before c)" "lo_after l4 = None" "lo_status l4 = Unknown"
          "sg_posts s4 = sg_posts s @ [post_of c]" "sg_store s4 = sg_store s"
          using f1 f2 f3 f4 init None by (auto simp: post_of_def)
        show ?thesis
        proof (cases x4)
          case (Some e)
          with assms p None h N2 g N3 w have "x = Some e" "l = l4" "s' = s4" by (simp_all add: try_body_def)
          with b4 gp show ?thesis by (intro open_write) auto
        next
          case N4: None
          have rb: "readback_step env c l4 s4 = (x, l, s')"
            using assms p None h N2 g N3 w N4 by (simp add: try_body_def)
          note f5 = readback_frame [OF rb]
          have gp': "gate_passed env c l" using f5 gp by (auto simp: gate_passed_def)
          show ?thesis
          proof (cases x)
            case (Some e)
            have "lo_after l = None" using rb b4(2) Some
              by (auto simp: readback_step_def Let_def split: prod.splits sum.splits option.splits if_splits)
            with f5 b4 gp' Some show ?thesis by (intro open_write) auto
          next
            case None
            with f5 f4 N4 b4 gp' show ?thesis by (intro read_back) auto
          qed
        qed
      qed
    qed
  qed
qed

lemma handle_exn_keeps [simp]:
  "lo_before (handle_exn x l) = lo_before l" "lo_after (handle_exn x l) = lo_after l"
  "lo_accepted (handle_exn x l) = lo_accepted l" "lo_final (handle_exn x l) = lo_final l"
  "lo_gate_verified (handle_exn x l) = lo_gate_verified l" "lo_actor (handle_exn x l) = lo_actor l"
  by (simp_all add: handle_exn_def split: option.split exn.split)

lemma handle_exn_status:
  "lo_status (handle_exn (Some e) l) \<in> {Conflict, Failed, Unknown}"
  by (cases e) (simp_all add: handle_exn_def)

lemma run_attempt_facts:
  assumes "run_attempt env c a cr s = (l, s')"
  shows "sg_store s' = sg_store s"
    "lo_status l \<in> {Applied, Conflict, Failed, Unknown}"
    "(sg_posts s' = sg_posts s \<and> \<not> lo_accepted l \<and> lo_after l = None \<and> lo_status l \<noteq> Applied)
     \<or> (sg_posts s' = sg_posts s @ [post_of c] \<and> gate_passed env c l \<and> lo_before l = Some (cm_before c))"
    "lo_status l = Applied \<Longrightarrow> lo_accepted l \<and> lo_after l = Some (rq_amount (cm_request c))
       \<and> sg_posts s' = sg_posts s @ [post_of c]"
proof -
  obtain x l0 where t: "try_body env c (initial_locals a cr) s = (x, l0, s')" and l: "l = handle_exn x l0"
    using assms by (auto simp: run_attempt_def split: prod.splits)
  have n: "handle_exn None l0 = l0" by (simp add: handle_exn_def)
  from t have "sg_store s' = sg_store s \<and> lo_status l \<in> {Applied, Conflict, Failed, Unknown}
    \<and> ((sg_posts s' = sg_posts s \<and> \<not> lo_accepted l \<and> lo_after l = None \<and> lo_status l \<noteq> Applied)
     \<or> (sg_posts s' = sg_posts s @ [post_of c] \<and> gate_passed env c l \<and> lo_before l = Some (cm_before c)))
    \<and> (lo_status l = Applied \<longrightarrow> lo_accepted l \<and> lo_after l = Some (rq_amount (cm_request c))
       \<and> sg_posts s' = sg_posts s @ [post_of c])"
  proof (cases rule: try_body_cases)
    case (stopped e)
    with handle_exn_status [of e l0] show ?thesis unfolding l by auto
  next
    case (open_write e)
    with handle_exn_status [of e l0] show ?thesis unfolding l by (auto simp: gate_passed_def)
  next
    case read_back
    then show ?thesis unfolding l n \<open>x = None\<close> by auto
  qed
  then show "sg_store s' = sg_store s"
    "lo_status l \<in> {Applied, Conflict, Failed, Unknown}"
    "(sg_posts s' = sg_posts s \<and> \<not> lo_accepted l \<and> lo_after l = None \<and> lo_status l \<noteq> Applied)
     \<or> (sg_posts s' = sg_posts s @ [post_of c] \<and> gate_passed env c l \<and> lo_before l = Some (cm_before c))"
    "lo_status l = Applied \<Longrightarrow> lo_accepted l \<and> lo_after l = Some (rq_amount (cm_request c))
       \<and> sg_posts s' = sg_posts s @ [post_of c]" by blast+
qed

section \<open>Amounts the attempt records\<close>

text \<open>Every amount a \<open>BudgetSnapshot\<close> carries passed \<open>_require_minor_units\<close>.\<close>

definition env_ok :: "'w saga_env \<Rightarrow> bool" where
  "env_ok env \<longleftrightarrow> (\<forall>q w sn w'. ev_read env q w = (Inr sn, w') \<longrightarrow> 0 \<le> sn_amount sn)"

definition amounts_ok :: "locals \<Rightarrow> bool" where
  "amounts_ok l \<longleftrightarrow> nonneg_opt (lo_before l) \<and> nonneg_opt (lo_after l)"

lemma and_then_keeps:
  assumes "and_then m k = (x, l, s)" and "\<And>x l s. m = (x, l, s) \<Longrightarrow> P l"
    and "\<And>l s x l' s'. P l \<Longrightarrow> k l s = (x, l', s') \<Longrightarrow> P l'"
  shows "P l"
  using assms by (cases m) (auto simp: and_then_def split: option.splits)

lemma env_okD: "env_ok env \<Longrightarrow> ev_read env q w = (Inr sn, w') \<Longrightarrow> 0 \<le> sn_amount sn"
  unfolding env_ok_def by blast

lemma amounts_frame: "amounts_ok l \<Longrightarrow> lo_before l' = lo_before l \<Longrightarrow> lo_after l' = lo_after l \<Longrightarrow> amounts_ok l'"
  by (simp add: amounts_ok_def)

lemma amounts_steps:
  assumes ok: "env_ok env" and l: "amounts_ok l"
  shows "preflight_step env c l s = (x, l', s') \<Longrightarrow> amounts_ok l'"
    "hook_step env c l s = (x, l', s') \<Longrightarrow> amounts_ok l'"
    "gate_step env c l s = (x, l', s') \<Longrightarrow> amounts_ok l'"
    "write_step env c l s = (x, l', s') \<Longrightarrow> amounts_ok l'"
    "readback_step env c l s = (x, l', s') \<Longrightarrow> amounts_ok l'"
proof -
  assume p: "preflight_step env c l s = (x, l', s')"
  obtain rd w where r: "ev_read env (cm_request c) (sg_world s) = (rd, w)" by fastforce
  show "amounts_ok l'"
  proof (cases rd)
    case (Inl e)
    with p r l show ?thesis by (simp add: preflight_step_def)
  next
    case (Inr sn)
    with p r l env_okD [OF ok r [unfolded Inr]] show ?thesis
      by (auto simp: preflight_step_def Let_def amounts_ok_def nonneg_opt_def split: option.splits if_splits)
  qed
next
  assume "hook_step env c l s = (x, l', s')"
  with l hook_frame show "amounts_ok l'" by blast
next
  assume "gate_step env c l s = (x, l', s')"
  from gate_frame [OF this] show "amounts_ok l'" using amounts_frame [OF l] by blast
next
  assume w: "write_step env c l s = (x, l', s')"
  from write_frame [OF w] show "amounts_ok l'" using amounts_frame [OF l] by blast
next
  assume p: "readback_step env c l s = (x, l', s')"
  obtain rd w where r: "ev_read env (cm_request c) (sg_world s) = (rd, w)" by fastforce
  show "amounts_ok l'"
  proof (cases rd)
    case (Inl e)
    with p r l show ?thesis by (simp add: readback_step_def)
  next
    case (Inr sn)
    have "0 \<le> sn_amount sn" by (rule env_okD [OF ok r [unfolded Inr]])
    moreover have "lo_after l' = Some (sn_amount sn) \<or> lo_after l' = lo_after l"
      using p r Inr by (auto simp: readback_step_def Let_def split: option.splits if_splits)
    moreover have "lo_before l' = lo_before l" using readback_frame [OF p] by blast
    ultimately show ?thesis using l by (auto simp: amounts_ok_def nonneg_opt_def)
  qed
qed

lemma run_attempt_amounts:
  assumes ok: "env_ok env" and r: "run_attempt env c a cr s = (l, s')"
  shows "amounts_ok l"
proof -
  obtain x l0 where t: "try_body env c (initial_locals a cr) s = (x, l0, s')" and l: "l = handle_exn x l0"
    using r by (auto simp: run_attempt_def split: prod.splits)
  note step = amounts_steps [OF ok]
  have i0: "amounts_ok (initial_locals a cr)" by (simp add: amounts_ok_def initial_locals_def nonneg_opt_def)
  note step = amounts_steps [OF ok]
  have t1: "amounts_ok l1" if "preflight_step env c (initial_locals a cr) s = (x1, l1, s1)" for x1 l1 s1
    by (rule step(1) [OF i0 that])
  have t2: "amounts_ok l1"
    if "and_then (preflight_step env c (initial_locals a cr) s) (hook_step env c) = (x1, l1, s1)" for x1 l1 s1
    by (rule and_then_keeps [where P = amounts_ok, OF that t1 step(2)])
  have t3: "amounts_ok l1"
    if "and_then (and_then (preflight_step env c (initial_locals a cr) s) (hook_step env c)) (gate_step env c)
       = (x1, l1, s1)" for x1 l1 s1
    by (rule and_then_keeps [where P = amounts_ok, OF that t2 step(3)])
  have t4: "amounts_ok l1"
    if "and_then (and_then (and_then (preflight_step env c (initial_locals a cr) s) (hook_step env c))
       (gate_step env c)) (write_step env c) = (x1, l1, s1)" for x1 l1 s1
    by (rule and_then_keeps [where P = amounts_ok, OF that t3 step(4)])
  have "amounts_ok l0"
    by (rule and_then_keeps [where P = amounts_ok, OF t [unfolded try_body_def] t4 step(5)])
  then show ?thesis by (simp add: l amounts_ok_def)
qed

section \<open>Runs of the service\<close>

text \<open>
  One request to the service: a submission (as \<open>submit\<close> makes it), an execution, an execution
  whose process dies after the claim with the write sent or not, or a reconciliation.  Every
  argument a caller or the clock supplies is arbitrary.
\<close>

inductive saga_step :: "'s store_ops \<Rightarrow> 'w saga_env \<Rightarrow> ('s, 'w) saga \<Rightarrow> ('s, 'w) saga \<Rightarrow> bool"
  for ops :: "'s store_ops" and env :: "'w saga_env" where
  step_submit: "so_get ops i (sg_store s) = None \<Longrightarrow> creation_wf n \<Longrightarrow> so_create ops i n (sg_store s) = (r, st)
     \<Longrightarrow> saga_step ops env s (s\<lparr>sg_store := st\<rparr>)"
| step_execute: "saga_execute ops env i a t cr t0 t1 s = (r, s') \<Longrightarrow> saga_step ops env s s'"
| step_crash: "so_get ops i (sg_store s) = Some c0 \<Longrightarrow> execute_guards env c0 a t cr = None
     \<Longrightarrow> so_claim ops i t0 (sg_store s) = (Inr c, st)
     \<Longrightarrow> posts' = sg_posts s \<or> posts' = sg_posts s @ [post_of c]
     \<Longrightarrow> saga_step ops env s (s\<lparr>sg_store := st, sg_world := w, sg_posts := posts'\<rparr>)"
| step_reconcile: "saga_reconcile ops env i a t cr fm t0 t1 s = (r, s') \<Longrightarrow> saga_step ops env s s'"

definition saga_init :: "('s \<Rightarrow> bool) \<Rightarrow> ('s, 'w) saga \<Rightarrow> bool" where
  "saga_init valid s \<longleftrightarrow> valid (sg_store s) \<and> sg_posts s = []"

text \<open>The writes sent for a command.\<close>

definition posts_for :: "uuid \<Rightarrow> ('s, 'w) saga \<Rightarrow> (uuid \<times> request) list" where
  "posts_for i s = filter (\<lambda>p. fst p = i) (sg_posts s)"

definition saga_inv :: "('s \<Rightarrow> bool) \<Rightarrow> 's store_ops \<Rightarrow> ('s, 'w) saga \<Rightarrow> bool" where
  "saga_inv valid ops s \<longleftrightarrow> valid (sg_store s) \<and> (\<forall>i. length (posts_for i s) \<le> 1)
     \<and> (\<forall>p \<in> set (sg_posts s). \<exists>c. so_get ops (fst p) (sg_store s) = Some c \<and> cm_status c \<noteq> Queued
          \<and> snd p = cm_request c)"

section \<open>The course of execute and reconcile\<close>

lemma reconcile_read_facts:
  assumes "reconcile_read c fm rd = (status, after, trace, error)"
  shows "status \<in> {Applied, Conflict, Unknown} \<and> (after = None \<or> (\<exists>sn. rd = Inr sn \<and> after = Some (sn_amount sn)))
    \<and> (status = Applied \<longrightarrow> after = Some (rq_amount (cm_request c))) \<and> (status = Conflict \<longrightarrow> fm)"
proof (cases rd)
  case (Inl e)
  with assms show ?thesis by (cases e) (auto simp: reconcile_read_def)
next
  case (Inr sn)
  show ?thesis
  proof (cases "snapshot_matches_request sn (cm_request c)")
    case None
    with assms Inr show ?thesis by (auto simp: reconcile_read_def Let_def split: if_splits)
  next
    case (Some e)
    with assms Inr show ?thesis by (cases e) (auto simp: reconcile_read_def)
  qed
qed

context command_store
begin

lemma execute_cases:
  assumes v: "valid (sg_store s)" and ok: "env_ok env"
    and x: "saga_execute ops env i a t cr t0 t1 s = (r, s')"
  obtains (refused) e where "r = Inl e" "s' = s"
      "\<And>c0. so_get ops i (sg_store s) = Some c0 \<Longrightarrow> execute_guards env c0 a t cr \<noteq> None \<or> cm_status c0 \<noteq> Queued"
  | (ran) c0 c1 l st s2 c where "so_get ops i (sg_store s) = Some c0" "cm_status c0 = Queued"
      "execute_guards env c0 a t cr = None" "same_facts c1 c0"
      "run_attempt env c1 a cr (s\<lparr>sg_store := st\<rparr>) = (l, s2)"
      "r = Inr c" "same_facts c c0" "cm_status c = lo_status l"
      "cm_after c = (if lo_status l = Applied then lo_after l else None)"
      "valid (sg_store s')" "sg_posts s' = sg_posts s2"
      "\<And>j. so_get ops j (sg_store s') = (if j = i then Some c else so_get ops j (sg_store s))"
proof (cases "so_get ops i (sg_store s)")
  case None
  with x show ?thesis by (intro refused) (auto simp: saga_execute_def)
next
  case (Some c0)
  show ?thesis
  proof (cases "execute_guards env c0 a t cr")
    case (Some e)
    with x \<open>so_get ops i (sg_store s) = Some c0\<close> show ?thesis by (intro refused) (auto simp: saga_execute_def)
  next
    case guards: None
    obtain q st where cl: "so_claim ops i t0 (sg_store s) = (q, st)" by (cases "so_claim ops i t0 (sg_store s)")
    show ?thesis
    proof (cases q)
      case (Inl e)
      with cl have "so_claim ops i t0 (sg_store s) = (Inl e, st)" by simp
      from claim_error [OF this] have "st = sg_store s" .
      moreover have "cm_status c0 \<noteq> Queued" using claim_total [OF v Some, of t0] cl Inl by auto
      ultimately show ?thesis using x Some guards cl Inl by (intro refused) (auto simp: saga_execute_def)
    next
      case (Inr c1)
      have cl': "so_claim ops i t0 (sg_store s) = (Inr c1, st)" using cl Inr by simp
      note law = claim_ok [OF v cl']
      have c1: "cm_status c0 = Queued" "same_facts c1 c0" "cm_status c1 = InProgress"
        "cm_attempt_count c1 = cm_attempt_count c0 + 1" "valid st" "so_get ops i st = Some c1"
        using law Some by auto
      have n: "0 < cm_attempt_count c1" using get_id [OF v Some] c1(4) by simp
      obtain l s2 where ra: "run_attempt env c1 a cr (s\<lparr>sg_store := st\<rparr>) = (l, s2)" by fastforce
      note facts = run_attempt_facts [OF ra]
      have am: "amounts_ok l" by (rule run_attempt_amounts [OF ok ra])
      let ?f = "execution_finish c1 t0 t1 l"
      have wf: "finish_wf ?f (cm_attempt_count c1)"
        using am n by (auto simp: finish_wf_def execution_finish_def amounts_ok_def nonneg_opt_def)
      have fs: "fi_status ?f = lo_status l" "fi_after ?f = (if lo_status l = Applied then lo_after l else None)"
        by (simp_all add: execution_finish_def)
      have st2: "sg_store s2 = st" using facts(1) by simp
      obtain c s3 where fin: "so_finish ops i ?f st = (Inr c, s3)" "valid s3" "same_facts c c1"
        "cm_status c = lo_status l" "cm_after c = fi_after ?f"
        "\<And>j. so_get ops j s3 = (if j = i then Some c else so_get ops j st)"
        using finish_ok [OF c1(5,6,3) wf] facts(2) unfolding fs(1) by blast
      have s': "s' = s2\<lparr>sg_store := s3\<rparr>" and r: "r = Inr c"
        using x Some guards cl' ra fin(1) st2 by (auto simp: saga_execute_def)
      have get: "so_get ops j s3 = (if j = i then Some c else so_get ops j (sg_store s))" for j
        using fin(6) law by simp
      have "same_facts c c0" using fin(3) c1(2) by (simp add: same_facts_def)
      with Some c1(1,2) guards ra r fin(4,5) fs(2) s' fin(2) get show ?thesis
        by (intro ran [of c0 c1 st l s2 c]) auto
    qed
  qed
qed

lemma reconcile_cases:
  assumes v: "valid (sg_store s)" and ok: "env_ok env"
    and x: "saga_reconcile ops env i a t cr fm t0 t1 s = (r, s')"
  obtains (refused) e where "r = Inl e" "s' = s"
      "\<And>c0. so_get ops i (sg_store s) = Some c0 \<Longrightarrow> reconcile_guards c0 a t cr \<noteq> None"
  | (ran) c0 c rd w where "so_get ops i (sg_store s) = Some c0" "cm_status c0 = Unknown"
      "reconcile_guards c0 a t cr = None" "ev_read env (cm_request c0) (sg_world s) = (rd, w)"
      "r = Inr c" "same_facts c c0" "cm_status c = fst (reconcile_read c0 fm rd)"
      "cm_status c \<in> {Applied, Conflict, Unknown}"
      "valid (sg_store s')" "sg_posts s' = sg_posts s"
      "\<And>j. so_get ops j (sg_store s') = (if j = i then Some c else so_get ops j (sg_store s))"
proof (cases "so_get ops i (sg_store s)")
  case None
  with x show ?thesis by (intro refused) (auto simp: saga_reconcile_def)
next
  case (Some c0)
  show ?thesis
  proof (cases "reconcile_guards c0 a t cr")
    case (Some e)
    with x \<open>so_get ops i (sg_store s) = Some c0\<close> show ?thesis by (intro refused) (auto simp: saga_reconcile_def)
  next
    case guards: None
    obtain rd w where rd: "ev_read env (cm_request c0) (sg_world s) = (rd, w)"
      by (cases "ev_read env (cm_request c0) (sg_world s)")
    obtain status after trace error where rr: "reconcile_read c0 fm rd = (status, after, trace, error)"
      by (metis prod_cases4)
    have u: "cm_status c0 = Unknown" using guards by (auto simp: reconcile_guards_def guard_simps)
    note rf = reconcile_read_facts [OF rr]
    have nn: "0 \<le> sn_amount sn" if "rd = Inr sn" for sn
      using rd ok that unfolding env_ok_def by blast
    have amt: "nonneg_opt after"
      using conjunct1 [OF conjunct2 [OF rf]] nn unfolding nonneg_opt_def by (cases after) auto
    have stt: "status \<in> {Applied, Conflict, Unknown}" using rf by blast
    define f where "f = \<lparr>fi_status = status,
       fi_attempt = \<lparr>at_no = cm_attempt_count c0 + 1, at_started = t0, at_finished = t1, at_outcome = status,
         at_before = None, at_after = (if status \<in> {Applied, Conflict} then after else None),
         at_trace = trace, at_error = error, at_reconciliation = True, at_actor = Some (a_user a),
         at_credential = Some (cr_id cr), at_auth = Some (budget_authorization_snapshot a (cm_request c0)),
         at_cred = Some (budget_credential_audit_snapshot cr)\<rparr>,
       fi_after = (if status = Applied then after else None), fi_trace = trace, fi_error = error, fi_now = t1\<rparr>"
    have wf: "finish_wf f (cm_attempt_count c0 + 1)"
      using amt get_id [OF v Some] by (auto simp: finish_wf_def f_def nonneg_opt_def)
    have fs: "fi_status f = status" by (simp add: f_def)
    obtain c st where rec: "so_reconcile ops i f (sg_store s) = (Inr c, st)" "valid st" "same_facts c c0"
      "cm_status c = status" "\<And>j. so_get ops j st = (if j = i then Some c else so_get ops j (sg_store s))"
      using reconcile_ok [OF v Some u wf] stt unfolding fs by blast
    have "r = Inr c" "s' = s\<lparr>sg_store := st, sg_world := w\<rparr>"
      using x Some guards rd rr rec(1) unfolding f_def by (auto simp: saga_reconcile_def)
    with Some u guards rd rr rec stt show ?thesis by (intro ran [of c0 rd w c]) auto
  qed
qed

text \<open>Past the guards, both operations always record an outcome.\<close>

lemma execute_total:
  assumes v: "valid (sg_store s)" and ok: "env_ok env"
    and g: "so_get ops i (sg_store s) = Some c0" "cm_status c0 = Queued" "execute_guards env c0 a t cr = None"
  shows "\<exists>c s'. saga_execute ops env i a t cr t0 t1 s = (Inr c, s')"
proof -
  obtain r s' where x: "saga_execute ops env i a t cr t0 t1 s = (r, s')" by fastforce
  from v ok x show ?thesis
  proof (cases rule: execute_cases)
    case (refused e)
    from refused(3) [OF g(1)] g(2,3) show ?thesis by simp
  next
    case (ran c0 c1 l st s2 c)
    with x show ?thesis by simp
  qed
qed

lemma reconcile_total:
  assumes v: "valid (sg_store s)" and ok: "env_ok env"
    and g: "so_get ops i (sg_store s) = Some c0" "reconcile_guards c0 a t cr = None"
  shows "\<exists>c s'. saga_reconcile ops env i a t cr finalize t0 t1 s = (Inr c, s')"
proof -
  obtain r s' where x: "saga_reconcile ops env i a t cr finalize t0 t1 s = (r, s')" by fastforce
  from v ok x show ?thesis
  proof (cases rule: reconcile_cases)
    case (refused e)
    from refused(3) [OF g(1)] g(2) show ?thesis by simp
  next
    case (ran c0 c rd w)
    with x show ?thesis by simp
  qed
qed

lemma inv_posted_not_queued:
  "saga_inv valid ops s \<Longrightarrow> so_get ops i (sg_store s) = Some c \<Longrightarrow> cm_status c = Queued \<Longrightarrow> posts_for i s = []"
  by (auto simp: saga_inv_def posts_for_def filter_empty_conv)

text \<open>
  A step that replaces the command \<open>i\<close> (a queued one if the step posts) keeps the invariant.
\<close>

lemma inv_put:
  assumes inv: "saga_inv valid ops s" and v: "valid (sg_store s')"
    and get: "\<And>j. so_get ops j (sg_store s') = (if j = i then Some c else so_get ops j (sg_store s))"
    and c0: "so_get ops i (sg_store s) = Some c0" and same: "cm_request c = cm_request c0"
    and st: "cm_status c \<noteq> Queued"
    and posts: "sg_posts s' = sg_posts s
      \<or> (cm_status c0 = Queued \<and> sg_posts s' = sg_posts s @ [(i, cm_request c0)])"
  shows "saga_inv valid ops s'"
proof -
  have old: "\<exists>c. so_get ops (fst p) (sg_store s') = Some c \<and> cm_status c \<noteq> Queued \<and> snd p = cm_request c"
    if "p \<in> set (sg_posts s)" for p
    using inv that get c0 same st unfolding saga_inv_def by (cases "fst p = i") auto
  have one: "length (posts_for j s) \<le> 1" for j using inv by (simp add: saga_inv_def)
  from posts show ?thesis
  proof
    assume "sg_posts s' = sg_posts s"
    with v old one show ?thesis by (simp add: saga_inv_def posts_for_def)
  next
    assume p: "cm_status c0 = Queued \<and> sg_posts s' = sg_posts s @ [(i, cm_request c0)]"
    have "posts_for i s = []" using inv_posted_not_queued [OF inv c0] p by blast
    with one p have "length (posts_for j s') \<le> 1" for j
      by (cases "j = i") (auto simp: posts_for_def)
    moreover have "\<exists>c. so_get ops i (sg_store s') = Some c \<and> cm_status c \<noteq> Queued \<and> cm_request c0 = cm_request c"
      using get same st by simp
    ultimately show ?thesis using v old p by (auto simp: saga_inv_def)
  qed
qed

lemma step_keeps_inv:
  assumes env: "env_ok env" and inv: "saga_inv valid ops s" and step: "saga_step ops env s s'"
  shows "saga_inv valid ops s'"
proof -
  have v: "valid (sg_store s)" using inv by (simp add: saga_inv_def)
  from step show ?thesis
  proof cases
    case (step_submit i n r st)
    show ?thesis
    proof (cases r)
      case (Inl e)
      with create_error step_submit(4) step_submit(1) inv show ?thesis by fastforce
    next
      case (Inr sub)
      show ?thesis
      proof (cases "sb_replayed sub")
        case True
        with create_replay [OF v] step_submit(4) Inr step_submit(1) inv show ?thesis by fastforce
      next
        case False
        have l: "valid st" "\<And>j. so_get ops j st = (if j = i then Some (sb_command sub) else so_get ops j (sg_store s))"
          using create_new [OF v step_submit(2,3) _ False] step_submit(4) Inr by blast+
        have "fst p \<noteq> i" if "p \<in> set (sg_posts s)" for p
          using inv that step_submit(2) unfolding saga_inv_def by (metis option.distinct(1))
        with l inv step_submit(1) show ?thesis
          by (auto simp: saga_inv_def posts_for_def)
      qed
    qed
  next
    case (step_execute i a t cr t0 t1 r)
    from v env step_execute show ?thesis
    proof (cases rule: execute_cases)
      case (refused e)
      with inv show ?thesis by simp
    next
      case (ran c0 c1 l st s2 c)
      note facts = run_attempt_facts [OF ran(5)]
      have req: "post_of c1 = (i, cm_request c0)"
        using ran(4) get_id [OF v ran(1)] by (simp add: post_of_def same_facts_def)
      have posts: "sg_posts s' = sg_posts s \<or> (cm_status c0 = Queued \<and> sg_posts s' = sg_posts s @ [(i, cm_request c0)])"
        using facts(3) ran(2,11) req by auto
      show ?thesis
        using ran(7,8) facts(2) by (intro inv_put [OF inv ran(10,12) ran(1) _ _ posts]) (auto simp: same_facts_def)
    qed
  next
    case (step_crash i c0 a t cr t0 c st posts' w)
    note law = claim_ok [OF v step_crash(4)]
    have c: "cm_status c0 = Queued" "same_facts c c0" "cm_status c = InProgress" using law step_crash(2) by auto
    have req: "post_of c = (i, cm_request c0)"
      using c(2) get_id [OF v step_crash(2)] by (simp add: post_of_def same_facts_def)
    show ?thesis
      unfolding step_crash(1)
    proof (rule inv_put [OF inv, where i = i and c = c and ?c0.0 = c0])
      show "sg_posts (s\<lparr>sg_store := st, sg_world := w, sg_posts := posts'\<rparr>) = sg_posts s
        \<or> cm_status c0 = Queued \<and> sg_posts (s\<lparr>sg_store := st, sg_world := w, sg_posts := posts'\<rparr>)
            = sg_posts s @ [(i, cm_request c0)]"
        using step_crash(5) req c(1) by auto
      show "cm_request c = cm_request c0" using c(2) by (simp add: same_facts_def)
    qed (use law c step_crash(2) in simp_all)
  next
    case (step_reconcile i a t cr fm t0 t1 r)
    from v env step_reconcile show ?thesis
    proof (cases rule: reconcile_cases)
      case (refused e)
      with inv show ?thesis by simp
    next
      case (ran c0 c rd w)
      show ?thesis
        using ran(6,8,10) by (intro inv_put [OF inv ran(9,11) ran(1)]) (auto simp: same_facts_def)
    qed
  qed
qed

lemma reachable_saga_inv:
  fixes env :: "'w saga_env"
  assumes "env_ok env" and "reachable (saga_init valid) (saga_step ops env) s"
  shows "saga_inv valid ops s"
proof (rule safe_system.reachable_inv [OF _ assms(2)])
  show "safe_system (saga_init valid) (saga_step ops env) (saga_inv valid ops)"
  proof unfold_locales
    fix s :: "('s, 'w) saga"
    assume "saga_init valid s"
    then show "saga_inv valid ops s" by (simp add: saga_init_def saga_inv_def posts_for_def)
  next
    fix s s' :: "('s, 'w) saga"
    assume "saga_inv valid ops s" "saga_step ops env s s'"
    then show "saga_inv valid ops s'" by (rule step_keeps_inv [OF assms(1)])
  qed
qed

end

end
