(* ===== verification/Provider_Sql_Laws.thy ===== *)
theory Provider_Sql_Laws
  imports Provider_Sql Provider_Ledger
begin

text \<open>
  The SQL command store keeps the \<open>BudgetCommandStore\<close> contract: what its tables promise
  between transactions, and the interpretation of the protocol on its operations.
\<close>

section \<open>What the tables promise\<close>

definition attempt_fits :: "cmd_row list \<Rightarrow> attempt_row \<Rightarrow> bool" where
  "attempt_fits rows a \<longleftrightarrow> (\<exists>r \<in> set rows. cw_id r = aw_command a \<and> aw_no a \<le> cw_attempt_count r
     \<and> (cw_status r = InProgress \<longrightarrow> aw_no a < cw_attempt_count r))"

definition quarantine_fits :: "cmd_row list \<Rightarrow> quarantine_row \<Rightarrow> bool" where
  "quarantine_fits rows q \<longleftrightarrow> (\<exists>r \<in> set rows. cw_id r = qr_command q \<and> row_key r = qr_key q)"

definition ledger_valid :: "cmd_db \<Rightarrow> bool" where
  "ledger_valid db \<longleftrightarrow> distinct (map cw_id (db_commands db))
     \<and> (\<forall>r \<in> set (db_commands db). 0 \<le> cw_attempt_count r \<and> (cw_status r = InProgress \<longrightarrow> 0 < cw_attempt_count r))
     \<and> (\<forall>a \<in> set (db_attempts db). attempt_fits (db_commands db) a)
     \<and> (\<forall>q \<in> set (db_quarantines db). quarantine_fits (db_commands db) q)"

lemma ledger_validD:
  assumes "ledger_valid db"
  shows "distinct (map cw_id (db_commands db))"
    "\<And>r. r \<in> set (db_commands db) \<Longrightarrow> 0 \<le> cw_attempt_count r"
    "\<And>r. r \<in> set (db_commands db) \<Longrightarrow> cw_status r = InProgress \<Longrightarrow> 0 < cw_attempt_count r"
    "\<And>a. a \<in> set (db_attempts db) \<Longrightarrow> attempt_fits (db_commands db) a"
    "\<And>q. q \<in> set (db_quarantines db) \<Longrightarrow> quarantine_fits (db_commands db) q"
  using assms by (auto simp: ledger_valid_def)

lemma cmd_findD: "cmd_find i db = Some r \<Longrightarrow> r \<in> set (db_commands db) \<and> cw_id r = i"
  by (auto simp: cmd_find_def dest: find_SomeD)

lemma row_simps [simp]:
  "cw_id (claimed_row now r) = cw_id r" "cw_id (finished_row f r) = cw_id r" "cw_id (reconciled_row f r) = cw_id r"
  "cw_request (claimed_row now r) = cw_request r" "cw_request (finished_row f r) = cw_request r"
  "cw_request (reconciled_row f r) = cw_request r"
  "cw_status (claimed_row now r) = InProgress" "cw_status (finished_row f r) = fi_status f"
  "cw_status (reconciled_row f r) = fi_status f"
  "cw_attempt_count (claimed_row now r) = cw_attempt_count r + 1"
  "cw_attempt_count (finished_row f r) = cw_attempt_count r"
  "cw_attempt_count (reconciled_row f r) = cw_attempt_count r + 1"
  "cw_after (finished_row f r) = fi_after f" "cw_after (reconciled_row f r) = fi_after f"
  "row_key (claimed_row now r) = row_key r" "row_key (finished_row f r) = row_key r"
  "row_key (reconciled_row f r) = row_key r"
  "cw_id (new_row i k n) = i" "cw_status (new_row i k n) = Queued" "cw_attempt_count (new_row i k n) = 0"
  "cw_request (new_row i k n) = cn_request n"
  by (simp_all add: claimed_row_def finished_row_def reconciled_row_def new_row_def row_key_def)

text \<open>
  One update of the row of command \<open>i\<close>: the state a transition leaves, seen through
  \<open>get\<close>.  \<open>as\<close> are the attempts it adds, all for that command.
\<close>

lemma sql_attempts_other:
  "db_attempts db' = db_attempts db @ as \<Longrightarrow> \<forall>a \<in> set as. aw_command a = i \<Longrightarrow> j \<noteq> i \<Longrightarrow>
     sql_attempts j db' = sql_attempts j db"
proof -
  assume "db_attempts db' = db_attempts db @ as" "\<forall>a \<in> set as. aw_command a = i" "j \<noteq> i"
  then have "filter (\<lambda>r. aw_command r = j) (db_attempts db') = filter (\<lambda>r. aw_command r = j) (db_attempts db)"
    by (auto simp: filter_empty_conv)
  then show ?thesis by (simp add: sql_attempts_def)
qed

lemma get_after_update:
  assumes "cmd_find i db = Some r" and "p r" and "\<And>x. cw_id (f x) = cw_id x"
    and "db_commands db' = update_rows (\<lambda>x. cw_id x = i \<and> p x) f (db_commands db)"
    and "db_attempts db' = db_attempts db @ as" and "\<forall>a \<in> set as. aw_command a = i"
  shows "sql_cmd_get j db' = (if j = i then Some (sql_to_command db' (f r)) else sql_cmd_get j db)"
    and "cmd_find i db' = Some (f r)"
proof -
  have f: "cmd_find j db' = map_option (\<lambda>x. if cw_id x = i \<and> p x then f x else x) (cmd_find j db)" for j
    unfolding cmd_find_def assms(4) by (rule find_update_rows) (simp add: assms(3))
  show "cmd_find i db' = Some (f r)" using f [of i] assms(1,2) cmd_findD [OF assms(1)] by simp
  show "sql_cmd_get j db' = (if j = i then Some (sql_to_command db' (f r)) else sql_cmd_get j db)"
  proof (cases "j = i")
    case True
    with f [of i] assms(1,2) cmd_findD [OF assms(1)] show ?thesis by (simp add: sql_cmd_get_def)
  next
    case False
    have "sql_to_command db' x = sql_to_command db x" if "cw_id x = j" for x
      using sql_attempts_other [OF assms(5,6) False] that by (simp add: sql_to_command_def)
    moreover have "cmd_find j db' = cmd_find j db"
      using f [of j] False cmd_findD [of j db] by (cases "cmd_find j db") auto
    ultimately show ?thesis using False cmd_findD [of j db]
      by (cases "cmd_find j db") (simp_all add: sql_cmd_get_def)
  qed
qed

text \<open>The promise is kept when the row grows as the transitions make it grow.\<close>

lemma valid_after_update:
  assumes v: "ledger_valid db" and r: "cmd_find i db = Some r" and p: "p r"
    and f: "\<And>x. cw_id (f x) = cw_id x" "\<And>x. row_key (f x) = row_key x"
    and cmds: "db_commands db' = update_rows (\<lambda>x. cw_id x = i \<and> p x) f (db_commands db)"
    and atts: "db_attempts db' = db_attempts db @ as"
    and new: "\<forall>a \<in> set as. aw_command a = i \<and> aw_no a \<le> cw_attempt_count (f r)
        \<and> (cw_status (f r) = InProgress \<longrightarrow> aw_no a < cw_attempt_count (f r))"
    and grow: "cw_attempt_count r \<le> cw_attempt_count (f r)"
      "cw_status (f r) = InProgress \<Longrightarrow> cw_attempt_count r < cw_attempt_count (f r)"
    and quar: "\<forall>q \<in> set (db_quarantines db'). q \<in> set (db_quarantines db)
        \<or> (\<exists>q0 \<in> set (db_quarantines db). qr_command q = qr_command q0 \<and> qr_key q = qr_key q0)
        \<or> (qr_command q = i \<and> qr_key q = row_key r)"
  shows "ledger_valid db'"
proof -
  note d = ledger_validD [OF v] and rD = cmd_findD [OF r]
  have rows: "set (db_commands db') = insert (f r) {x \<in> set (db_commands db). x \<noteq> r}"
  proof -
    have u: "x = r" if "x \<in> set (db_commands db)" "cw_id x = i" for x
      using key_unique [OF d(1) that(1) conjunct1 [OF rD]] that rD by simp
    have "{x \<in> set (db_commands db). cw_id x = i \<and> p x} = {r}" using u rD p by blast
    moreover have "{x \<in> set (db_commands db). \<not> (cw_id x = i \<and> p x)} = {x \<in> set (db_commands db). x \<noteq> r}"
      using u rD p by blast
    ultimately show ?thesis unfolding cmds set_update_rows by simp
  qed
  have ids: "map cw_id (db_commands db') = map cw_id (db_commands db)"
    unfolding cmds by (rule map_update_rows_inv) (simp add: f)
  have fit: "attempt_fits (db_commands db') a" if "attempt_fits (db_commands db) a" for a
  proof -
    from that obtain x where x: "x \<in> set (db_commands db)" "cw_id x = aw_command a" "aw_no a \<le> cw_attempt_count x"
      "cw_status x = InProgress \<longrightarrow> aw_no a < cw_attempt_count x" by (auto simp: attempt_fits_def)
    show ?thesis
    proof (cases "x = r")
      case True
      with x grow f show ?thesis by (auto simp: attempt_fits_def rows)
    next
      case False
      with x show ?thesis by (auto simp: attempt_fits_def rows)
    qed
  qed
  have fitq: "quarantine_fits (db_commands db') q"
    if q: "quarantine_fits (db_commands db) q0" "qr_command q = qr_command q0" "qr_key q = qr_key q0" for q q0
  proof -
    from q obtain x where x: "x \<in> set (db_commands db)" "cw_id x = qr_command q" "row_key x = qr_key q"
      by (auto simp: quarantine_fits_def)
    show ?thesis
    proof (cases "x = r")
      case True
      with x f show ?thesis by (auto simp: quarantine_fits_def rows)
    next
      case False
      with x show ?thesis by (auto simp: quarantine_fits_def rows)
    qed
  qed
  have fitr: "quarantine_fits (db_commands db') q" if "qr_command q = i" "qr_key q = row_key r" for q
    using that rD f by (auto simp: quarantine_fits_def rows)
  have newfit: "attempt_fits (db_commands db') a" if "a \<in> set as" for a
    using new that rD f by (auto simp: attempt_fits_def rows)
  show ?thesis
    unfolding ledger_valid_def
  proof (intro conjI ballI)
    show "distinct (map cw_id (db_commands db'))" using d(1) ids by simp
  next
    fix x assume "x \<in> set (db_commands db')"
    then consider "x = f r" | "x \<in> set (db_commands db)" unfolding rows by blast
    then show "0 \<le> cw_attempt_count x"
    proof cases
      case 1
      have "0 \<le> cw_attempt_count r" using d(2) rD by blast
      with 1 grow(1) show ?thesis by simp
    qed (rule d(2))
  next
    fix x assume x: "x \<in> set (db_commands db')"
    show "cw_status x = InProgress \<longrightarrow> 0 < cw_attempt_count x"
    proof
      assume s: "cw_status x = InProgress"
      have "0 \<le> cw_attempt_count r" using d(2) rD by blast
      with x s d(3) grow(2) show "0 < cw_attempt_count x" unfolding rows by force
    qed
  next
    fix a assume "a \<in> set (db_attempts db')"
    with fit d(4) newfit show "attempt_fits (db_commands db') a" unfolding atts by auto
  next
    fix q assume "q \<in> set (db_quarantines db')"
    with quar fitq d(5) fitr show "quarantine_fits (db_commands db') q" by blast
  qed
qed

section \<open>The transitions\<close>

lemma claim_state:
  fixes now :: timestamp
  assumes v: "ledger_valid db" and r: "cmd_find i db = Some r" and q: "cw_status r = Queued"
  defines "db' \<equiv> db\<lparr>db_commands := update_rows (\<lambda>x. cw_id x = i \<and> cw_status x = Queued) (claimed_row now) (db_commands db)\<rparr>"
  shows "sql_claim_queued i now db = (Inr (sql_to_command db' (claimed_row now r)), db')"
    and "ledger_valid db'"
    and "sql_cmd_get j db' = (if j = i then Some (sql_to_command db' (claimed_row now r)) else sql_cmd_get j db)"
proof -
  have one: "length (filter (\<lambda>x. cw_id x = i \<and> cw_status x = Queued) (db_commands db)) = 1"
    using filter_key_unique [OF ledger_validD(1) [OF v] r [unfolded cmd_find_def], of "\<lambda>x. cw_status x = Queued"] q
    by simp
  note g = get_after_update [OF r, where p = "\<lambda>x. cw_status x = Queued" and f = "claimed_row now" and db' = db'
      and as = "[]"]
  have get: "sql_cmd_get j db' = (if j = i then Some (sql_to_command db' (claimed_row now r)) else sql_cmd_get j db)" for j
    by (rule g(1)) (simp_all add: q db'_def)
  show "sql_claim_queued i now db = (Inr (sql_to_command db' (claimed_row now r)), db')"
    using one get [of i] by (simp add: sql_claim_queued_def db'_def [symmetric] read_command_def)
  show "sql_cmd_get j db' = (if j = i then Some (sql_to_command db' (claimed_row now r)) else sql_cmd_get j db)"
    by (rule get)
  show "ledger_valid db'"
    by (rule valid_after_update [OF v r, where p = "\<lambda>x. cw_status x = Queued" and f = "claimed_row now" and as = "[]"])
      (auto simp: q db'_def)
qed

text \<open>The quarantine of a target after the command \<open>i\<close> of it became unknown at \<open>now\<close>.\<close>

definition quarantine_after :: "cmd_row \<Rightarrow> timestamp \<Rightarrow> cmd_db \<Rightarrow> target_key \<Rightarrow> quarantine_row option" where
  "quarantine_after r now db k = (case quarantine_find k db of
      Some q \<Rightarrow> Some (if k = row_key r \<and> qr_command q = cw_id r then q\<lparr>qr_updated := now\<rparr> else q)
    | None \<Rightarrow> if k = row_key r then Some \<lparr>qr_key = row_key r, qr_command = cw_id r, qr_created = now, qr_updated = now\<rparr>
              else None)"

lemma upsert_cases:
  assumes v: "ledger_valid db" and r: "cmd_find i db = Some r"
    and same: "db_quarantines db2 = db_quarantines db"
  obtains db3 where "upsert_target_quarantine r now db2 = Inr db3" "db_commands db3 = db_commands db2"
    "db_attempts db3 = db_attempts db2" "db_locks db3 = db_locks db2"
    "\<forall>q \<in> set (db_quarantines db3). q \<in> set (db_quarantines db)
        \<or> (\<exists>q0 \<in> set (db_quarantines db). qr_command q = qr_command q0 \<and> qr_key q = qr_key q0)
        \<or> (qr_command q = i \<and> qr_key q = row_key r)"
    "\<And>k. quarantine_find k db3 = quarantine_after r now db k"
    "distinct (map qr_key (db_quarantines db)) \<Longrightarrow> distinct (map qr_key (db_quarantines db3))"
proof (cases "quarantine_find (row_key r) db")
  case (Some q)
  note rD = cmd_findD [OF r]
  let ?u = "update_rows (\<lambda>x. qr_key x = row_key r \<and> qr_command x = i) (\<lambda>x. x\<lparr>qr_updated := now\<rparr>) (db_quarantines db)"
  have up: "upsert_target_quarantine r now db2 = Inr (db2\<lparr>db_quarantines := ?u\<rparr>)"
    using Some rD same by (simp add: upsert_target_quarantine_def quarantine_find_def)
  have f: "quarantine_find k (db2\<lparr>db_quarantines := ?u\<rparr>)
     = map_option (\<lambda>x. if qr_key x = row_key r \<and> qr_command x = i then x\<lparr>qr_updated := now\<rparr> else x) (quarantine_find k db)"
    for k unfolding quarantine_find_def by (simp add: find_update_rows)
  show ?thesis
  proof (rule that [OF up])
    fix k
    show "quarantine_find k (db2\<lparr>db_quarantines := ?u\<rparr>) = quarantine_after r now db k"
      unfolding f quarantine_after_def using Some rD
      by (cases "quarantine_find k db") (auto simp: quarantine_find_def dest: find_SomeD)
  next
    have "map qr_key ?u = map qr_key (db_quarantines db)" by (rule map_update_rows_inv) simp
    then show "distinct (map qr_key (db_quarantines db)) \<Longrightarrow> distinct (map qr_key (db_quarantines (db2\<lparr>db_quarantines := ?u\<rparr>)))"
      by simp
  qed (auto simp: set_update_rows)
next
  case None
  note rD = cmd_findD [OF r]
  let ?n = "\<lparr>qr_key = row_key r, qr_command = i, qr_created = now, qr_updated = now\<rparr>"
  have "qr_command x \<noteq> i" if x: "x \<in> set (db_quarantines db)" for x
  proof
    assume xi: "qr_command x = i"
    from ledger_validD(5) [OF v x] obtain y where y: "y \<in> set (db_commands db)" "cw_id y = qr_command x" "row_key y = qr_key x"
      by (auto simp: quarantine_fits_def)
    have "y = r" using key_unique [OF ledger_validD(1) [OF v] y(1) conjunct1 [OF rD]] y(2) xi rD by simp
    with y(3) x None show False by (auto simp: quarantine_find_def find_None_iff)
  qed
  then have up: "upsert_target_quarantine r now db2 = Inr (db2\<lparr>db_quarantines := db_quarantines db @ [?n]\<rparr>)"
    using None rD same by (auto simp: upsert_target_quarantine_def quarantine_find_def)
  show ?thesis
  proof (rule that [OF up])
    fix k
    show "quarantine_find k (db2\<lparr>db_quarantines := db_quarantines db @ [?n]\<rparr>) = quarantine_after r now db k"
      unfolding quarantine_after_def using None rD by (auto simp: quarantine_find_def find_append split: option.split)
  next
    show "distinct (map qr_key (db_quarantines db)) \<Longrightarrow>
        distinct (map qr_key (db_quarantines (db2\<lparr>db_quarantines := db_quarantines db @ [?n]\<rparr>)))"
      using None by (auto simp: quarantine_find_def find_None_iff)
  qed auto
qed

lemma attempt_of_row:
  assumes v: "ledger_valid db" and r: "cmd_find i db = Some r" and a: "a \<in> set (db_attempts db)" "aw_command a = i"
  shows "aw_no a \<le> cw_attempt_count r" "cw_status r = InProgress \<Longrightarrow> aw_no a < cw_attempt_count r"
proof -
  note rD = cmd_findD [OF r]
  from ledger_validD(4) [OF v a(1)] obtain y where y: "y \<in> set (db_commands db)" "cw_id y = aw_command a"
    "aw_no a \<le> cw_attempt_count y" "cw_status y = InProgress \<longrightarrow> aw_no a < cw_attempt_count y"
    by (auto simp: attempt_fits_def)
  have "y = r" using key_unique [OF ledger_validD(1) [OF v] y(1) conjunct1 [OF rD]] y(2) a(2) rD by simp
  with y show "aw_no a \<le> cw_attempt_count r" "cw_status r = InProgress \<Longrightarrow> aw_no a < cw_attempt_count r" by auto
qed

lemma attempt_row_simps [simp]:
  "aw_command (attempt_row_of r a) = cw_id r" "aw_no (attempt_row_of r a) = at_no a"
  "aw_outcome (attempt_row_of r a) = at_outcome a" "aw_before (attempt_row_of r a) = at_before a"
  "aw_after (attempt_row_of r a) = at_after a"
  by (simp_all add: attempt_row_of_def)

text \<open>Both finishing transitions: \<open>g\<close> is the row function, \<open>n\<close> the attempt number.\<close>

lemma finishing_state:
  assumes v: "ledger_valid db" and r: "cmd_find i db = Some r" and st: "cw_status r = s0" "s0 \<noteq> Queued"
    and wf: "finish_wf f n" "cw_attempt_count r \<le> n" "s0 = InProgress \<or> cw_attempt_count r < n"
    and fs: "fi_status f \<in> {Applied, Conflict, Failed, Unknown}"
    and g: "\<And>x. cw_id (g x) = cw_id x" "\<And>x. row_key (g x) = row_key x" "cw_status (g r) = fi_status f"
      "cw_attempt_count (g r) = n"
  obtains db1 where "insert_attempt (attempt_row_of r (fi_attempt f)) db = Inr db1" "nonneg_opt (fi_after f)"
    "db1 = db\<lparr>db_attempts := db_attempts db @ [attempt_row_of r (fi_attempt f)]\<rparr>"
    "\<And>db3. db_commands db3 = update_rows (\<lambda>x. cw_id x = i \<and> cw_status x = s0) g (db_commands db) \<Longrightarrow>
       db_attempts db3 = db_attempts db1 \<Longrightarrow>
       \<forall>q \<in> set (db_quarantines db3). q \<in> set (db_quarantines db)
        \<or> (\<exists>q0 \<in> set (db_quarantines db). qr_command q = qr_command q0 \<and> qr_key q = qr_key q0)
        \<or> (qr_command q = i \<and> qr_key q = row_key r) \<Longrightarrow>
       ledger_valid db3 \<and> read_command i db3 = (Inr (sql_to_command db3 (g r)), db3)
       \<and> (\<forall>j. sql_cmd_get j db3 = (if j = i then Some (sql_to_command db3 (g r)) else sql_cmd_get j db))"
proof -
  note rD = cmd_findD [OF r]
  let ?a = "attempt_row_of r (fi_attempt f)"
  have no: "aw_no ?a = n" "aw_command ?a = i" using wf(1) rD by (simp_all add: finish_wf_def)
  have "attempt_ok db ?a"
    unfolding attempt_ok_def
  proof (intro conjI ballI notI)
    fix x assume "x \<in> set (db_attempts db)" "aw_command x = aw_command ?a \<and> aw_no x = aw_no ?a"
    with attempt_of_row [OF v r, of x] no st(1) wf(2,3) show False by auto
  qed (use wf(1) fs in \<open>auto simp: finish_wf_def\<close>)
  then have ins: "insert_attempt ?a db = Inr (db\<lparr>db_attempts := db_attempts db @ [?a]\<rparr>)"
    by (simp add: insert_attempt_def)
  show ?thesis
  proof (rule that [OF ins _ refl])
    show "nonneg_opt (fi_after f)" using wf(1) by (simp add: finish_wf_def)
  next
    fix db3 :: cmd_db
    assume c: "db_commands db3 = update_rows (\<lambda>x. cw_id x = i \<and> cw_status x = s0) g (db_commands db)"
      and a: "db_attempts db3 = db_attempts (db\<lparr>db_attempts := db_attempts db @ [?a]\<rparr>)"
      and q: "\<forall>q \<in> set (db_quarantines db3). q \<in> set (db_quarantines db)
        \<or> (\<exists>q0 \<in> set (db_quarantines db). qr_command q = qr_command q0 \<and> qr_key q = qr_key q0)
        \<or> (qr_command q = i \<and> qr_key q = row_key r)"
    have a': "db_attempts db3 = db_attempts db @ [?a]" using a by simp
    have ni: "cw_status (g r) \<noteq> InProgress" using fs g(3) by auto
    have get: "sql_cmd_get j db3 = (if j = i then Some (sql_to_command db3 (g r)) else sql_cmd_get j db)" for j
      by (rule get_after_update(1) [OF r, where p = "\<lambda>x. cw_status x = s0", OF st(1) g(1) c a']) (use no rD in simp)
    moreover have "ledger_valid db3"
      by (rule valid_after_update [OF v r, where p = "\<lambda>x. cw_status x = s0", OF st(1) g(1,2) c a'])
        (use no ni g(4) wf(2) q in auto)
    ultimately show "ledger_valid db3 \<and> read_command i db3 = (Inr (sql_to_command db3 (g r)), db3)
       \<and> (\<forall>j. sql_cmd_get j db3 = (if j = i then Some (sql_to_command db3 (g r)) else sql_cmd_get j db))"
      by (simp add: read_command_def)
  qed
qed

lemma finish_state:
  assumes v: "ledger_valid db" and r: "cmd_find i db = Some r" and st: "cw_status r = InProgress"
    and wf: "finish_wf f (cw_attempt_count r)" and fs: "fi_status f \<in> {Applied, Conflict, Failed, Unknown}"
  obtains db3 where "sql_finish_execution i f db = (Inr (sql_to_command db3 (finished_row f r)), db3)"
    "ledger_valid db3" "db_locks db3 = db_locks db"
    "db_commands db3 = update_rows (\<lambda>x. cw_id x = i \<and> cw_status x = InProgress) (finished_row f) (db_commands db)"
    "\<And>j. sql_cmd_get j db3 = (if j = i then Some (sql_to_command db3 (finished_row f r)) else sql_cmd_get j db)"
    "\<And>k. quarantine_find k db3 = (if fi_status f = Unknown then quarantine_after r (fi_now f) db k else quarantine_find k db)"
    "distinct (map qr_key (db_quarantines db)) \<Longrightarrow> distinct (map qr_key (db_quarantines db3))"
proof -
  note rD = cmd_findD [OF r]
  obtain db1 where ins: "insert_attempt (attempt_row_of r (fi_attempt f)) db = Inr db1" and nn: "nonneg_opt (fi_after f)"
    and db1: "db1 = db\<lparr>db_attempts := db_attempts db @ [attempt_row_of r (fi_attempt f)]\<rparr>"
    and fin: "\<And>db3. db_commands db3 = update_rows (\<lambda>x. cw_id x = i \<and> cw_status x = InProgress) (finished_row f) (db_commands db) \<Longrightarrow>
       db_attempts db3 = db_attempts db1 \<Longrightarrow>
       \<forall>q \<in> set (db_quarantines db3). q \<in> set (db_quarantines db)
        \<or> (\<exists>q0 \<in> set (db_quarantines db). qr_command q = qr_command q0 \<and> qr_key q = qr_key q0)
        \<or> (qr_command q = i \<and> qr_key q = row_key r) \<Longrightarrow>
       ledger_valid db3 \<and> read_command i db3 = (Inr (sql_to_command db3 (finished_row f r)), db3)
       \<and> (\<forall>j. sql_cmd_get j db3 = (if j = i then Some (sql_to_command db3 (finished_row f r)) else sql_cmd_get j db))"
    by (rule finishing_state [OF v r st _ wf, where g = "finished_row f"]) (use fs in auto)
  define db2 where "db2 = db1\<lparr>db_commands := update_rows (\<lambda>x. cw_id x = i \<and> cw_status x = InProgress)
      (finished_row f) (db_commands db1)\<rparr>"
  have d2: "db_commands db2 = update_rows (\<lambda>x. cw_id x = i \<and> cw_status x = InProgress) (finished_row f) (db_commands db)"
    "db_attempts db2 = db_attempts db1" "db_quarantines db2 = db_quarantines db" "db_locks db2 = db_locks db"
    by (simp_all add: db2_def db1)
  have run: "sql_finish_execution i f db =
      (case (if fi_status f = Unknown then upsert_target_quarantine r (fi_now f) db2 else Inr db2) of
         Inl e \<Rightarrow> (Inl e, db) | Inr db3 \<Rightarrow> read_command i db3)"
    unfolding sql_finish_execution_def r option.case ins sum.case Let_def db2_def [symmetric] using fs st nn by simp
  show ?thesis
  proof (cases "fi_status f = Unknown")
    case True
    obtain db3 where u: "upsert_target_quarantine r (fi_now f) db2 = Inr db3" "db_commands db3 = db_commands db2"
      "db_attempts db3 = db_attempts db2" "db_locks db3 = db_locks db2"
      and uq: "\<forall>q \<in> set (db_quarantines db3). q \<in> set (db_quarantines db)
        \<or> (\<exists>q0 \<in> set (db_quarantines db). qr_command q = qr_command q0 \<and> qr_key q = qr_key q0)
        \<or> (qr_command q = i \<and> qr_key q = row_key r)"
      and uf: "\<And>k. quarantine_find k db3 = quarantine_after r (fi_now f) db k"
      and ud: "distinct (map qr_key (db_quarantines db)) \<Longrightarrow> distinct (map qr_key (db_quarantines db3))"
      by (rule upsert_cases [OF v r d2(3), of "fi_now f"]) blast
    have "ledger_valid db3 \<and> read_command i db3 = (Inr (sql_to_command db3 (finished_row f r)), db3)
       \<and> (\<forall>j. sql_cmd_get j db3 = (if j = i then Some (sql_to_command db3 (finished_row f r)) else sql_cmd_get j db))"
      by (rule fin) (use u d2 uq in simp_all)
    with True run u d2 uf ud show ?thesis by (intro that [of db3]) simp_all
  next
    case False
    have "ledger_valid db2 \<and> read_command i db2 = (Inr (sql_to_command db2 (finished_row f r)), db2)
       \<and> (\<forall>j. sql_cmd_get j db2 = (if j = i then Some (sql_to_command db2 (finished_row f r)) else sql_cmd_get j db))"
      by (rule fin) (use d2 in simp_all)
    with False run d2 show ?thesis by (intro that [of db2]) (simp_all add: quarantine_find_def)
  qed
qed

text \<open>Recording a reconciliation; an applied or conflicting outcome drops the quarantine of the command.\<close>

lemma quarantine_find_drop:
  "distinct (map qr_key (db_quarantines db)) \<Longrightarrow>
   quarantine_find k (drop_quarantine r db) = (case quarantine_find k db of
      None \<Rightarrow> None | Some q \<Rightarrow> if k = row_key r \<and> qr_command q = cw_id r then None else Some q)"
proof -
  have "find (\<lambda>x. qr_key x = k) (filter (\<lambda>x. \<not> (qr_key x = row_key r \<and> qr_command x = cw_id r)) qs)
     = (case find (\<lambda>x. qr_key x = k) qs of
      None \<Rightarrow> None | Some q \<Rightarrow> if k = row_key r \<and> qr_command q = cw_id r then None else Some q)"
    if "distinct (map qr_key qs)" for qs
    using that by (induction qs) (auto simp: find_None_iff image_iff split: option.splits dest: find_SomeD)
  then show "distinct (map qr_key (db_quarantines db)) \<Longrightarrow> ?thesis"
    by (simp add: quarantine_find_def drop_quarantine_def)
qed

lemma reconcile_state:
  assumes v: "ledger_valid db" and r: "cmd_find i db = Some r" and st: "cw_status r = Unknown"
    and wf: "finish_wf f (cw_attempt_count r + 1)" and fs: "fi_status f \<in> {Applied, Conflict, Unknown}"
  obtains db3 where "sql_record_reconciliation i f db = (Inr (sql_to_command db3 (reconciled_row f r)), db3)"
    "ledger_valid db3" "db_locks db3 = db_locks db"
    "db_commands db3 = update_rows (\<lambda>x. cw_id x = i \<and> cw_status x = Unknown) (reconciled_row f) (db_commands db)"
    "\<And>j. sql_cmd_get j db3 = (if j = i then Some (sql_to_command db3 (reconciled_row f r)) else sql_cmd_get j db)"
    "\<And>k. quarantine_find k db3 = (if fi_status f = Unknown then quarantine_after r (fi_now f) db k
        else quarantine_find k (drop_quarantine r db))"
    "distinct (map qr_key (db_quarantines db)) \<Longrightarrow> distinct (map qr_key (db_quarantines db3))"
proof -
  note rD = cmd_findD [OF r]
  obtain db1 where ins: "insert_attempt (attempt_row_of r (fi_attempt f)) db = Inr db1" and nn: "nonneg_opt (fi_after f)"
    and db1: "db1 = db\<lparr>db_attempts := db_attempts db @ [attempt_row_of r (fi_attempt f)]\<rparr>"
    and fin: "\<And>db3. db_commands db3 = update_rows (\<lambda>x. cw_id x = i \<and> cw_status x = Unknown) (reconciled_row f) (db_commands db) \<Longrightarrow>
       db_attempts db3 = db_attempts db1 \<Longrightarrow>
       \<forall>q \<in> set (db_quarantines db3). q \<in> set (db_quarantines db)
        \<or> (\<exists>q0 \<in> set (db_quarantines db). qr_command q = qr_command q0 \<and> qr_key q = qr_key q0)
        \<or> (qr_command q = i \<and> qr_key q = row_key r) \<Longrightarrow>
       ledger_valid db3 \<and> read_command i db3 = (Inr (sql_to_command db3 (reconciled_row f r)), db3)
       \<and> (\<forall>j. sql_cmd_get j db3 = (if j = i then Some (sql_to_command db3 (reconciled_row f r)) else sql_cmd_get j db))"
    by (rule finishing_state [OF v r st _ wf, where g = "reconciled_row f"]) (use fs in auto)
  define db2 where "db2 = db1\<lparr>db_commands := update_rows (\<lambda>x. cw_id x = i \<and> cw_status x = Unknown)
      (reconciled_row f) (db_commands db1)\<rparr>"
  have d2: "db_commands db2 = update_rows (\<lambda>x. cw_id x = i \<and> cw_status x = Unknown) (reconciled_row f) (db_commands db)"
    "db_attempts db2 = db_attempts db1" "db_quarantines db2 = db_quarantines db" "db_locks db2 = db_locks db"
    by (simp_all add: db2_def db1)
  have run: "sql_record_reconciliation i f db =
      (case (if fi_status f = Unknown then upsert_target_quarantine r (fi_now f) db2 else Inr (drop_quarantine r db2)) of
         Inl e \<Rightarrow> (Inl e, db) | Inr db3 \<Rightarrow> read_command i db3)"
    unfolding sql_record_reconciliation_def r option.case ins sum.case Let_def db2_def [symmetric] using fs st nn by auto
  show ?thesis
  proof (cases "fi_status f = Unknown")
    case True
    obtain db3 where u: "upsert_target_quarantine r (fi_now f) db2 = Inr db3" "db_commands db3 = db_commands db2"
      "db_attempts db3 = db_attempts db2" "db_locks db3 = db_locks db2"
      and uq: "\<forall>q \<in> set (db_quarantines db3). q \<in> set (db_quarantines db)
        \<or> (\<exists>q0 \<in> set (db_quarantines db). qr_command q = qr_command q0 \<and> qr_key q = qr_key q0)
        \<or> (qr_command q = i \<and> qr_key q = row_key r)"
      and uf: "\<And>k. quarantine_find k db3 = quarantine_after r (fi_now f) db k"
      and ud: "distinct (map qr_key (db_quarantines db)) \<Longrightarrow> distinct (map qr_key (db_quarantines db3))"
      by (rule upsert_cases [OF v r d2(3), of "fi_now f"]) blast
    have "ledger_valid db3 \<and> read_command i db3 = (Inr (sql_to_command db3 (reconciled_row f r)), db3)
       \<and> (\<forall>j. sql_cmd_get j db3 = (if j = i then Some (sql_to_command db3 (reconciled_row f r)) else sql_cmd_get j db))"
      by (rule fin) (use u d2 uq in simp_all)
    with True run u d2 uf ud show ?thesis by (intro that [of db3]) simp_all
  next
    case False
    let ?db3 = "drop_quarantine r db2"
    have d3: "db_commands ?db3 = db_commands db2" "db_attempts ?db3 = db_attempts db2" "db_locks ?db3 = db_locks db2"
      "set (db_quarantines ?db3) \<subseteq> set (db_quarantines db)"
      using d2 by (auto simp: drop_quarantine_def)
    have "ledger_valid ?db3 \<and> read_command i ?db3 = (Inr (sql_to_command ?db3 (reconciled_row f r)), ?db3)
       \<and> (\<forall>j. sql_cmd_get j ?db3 = (if j = i then Some (sql_to_command ?db3 (reconciled_row f r)) else sql_cmd_get j db))"
      by (rule fin) (use d3 d2 in auto)
    with False run d2 d3 show ?thesis
      by (intro that [of ?db3]) (simp_all add: quarantine_find_def drop_quarantine_def distinct_map_filter)
  qed
qed

text \<open>A new row under a new id.\<close>

lemma create_state:
  assumes v: "ledger_valid db" and new: "sql_cmd_get i db = None"
    and run: "sql_create_or_replay i n db = (Inr sub, db')" "\<not> sb_replayed sub"
  obtains key where "db' = db\<lparr>db_commands := db_commands db @ [new_row i key n]\<rparr>"
    "sb_command sub = sql_to_command db' (new_row i key n)" "ledger_valid db'"
    "quarantine_find (target_key_of (cn_request n)) db = None"
    "\<And>j. sql_cmd_get j db' = (if j = i then Some (sb_command sub) else sql_cmd_get j db)"
proof -
  have fresh: "cmd_find i db = None" using new by (simp add: sql_cmd_get_def)
  then have notin: "i \<notin> cw_id ` set (db_commands db)" by (simp add: cmd_find_def find_None_key)
  obtain key where eq: "db' = db\<lparr>db_commands := db_commands db @ [new_row i key n]\<rparr>"
    "sb_command sub = sql_to_command db' (new_row i key n)"
    and nq: "quarantine_find (target_key_of (cn_request n)) db = None"
    using run by (auto simp: sql_create_or_replay_def Let_def split: sum.splits option.splits if_splits)
  have fits: "attempt_fits (db_commands db') a" if "a \<in> set (db_attempts db)" for a
    using ledger_validD(4) [OF v that] unfolding eq(1) by (auto simp: attempt_fits_def)
  have fitq: "quarantine_fits (db_commands db') q" if "q \<in> set (db_quarantines db)" for q
    using ledger_validD(5) [OF v that] unfolding eq(1) by (auto simp: quarantine_fits_def)
  have valid: "ledger_valid db'"
    unfolding ledger_valid_def
  proof (intro conjI ballI)
    show "distinct (map cw_id (db_commands db'))" using ledger_validD(1) [OF v] notin by (simp add: eq(1))
  next
    fix x assume "x \<in> set (db_commands db')"
    then show "0 \<le> cw_attempt_count x" using ledger_validD(2) [OF v] by (auto simp: eq(1))
  next
    fix x assume "x \<in> set (db_commands db')"
    then show "cw_status x = InProgress \<longrightarrow> 0 < cw_attempt_count x" using ledger_validD(3) [OF v] by (auto simp: eq(1))
  next
    fix a assume "a \<in> set (db_attempts db')"
    then show "attempt_fits (db_commands db') a" by (intro fits) (simp add: eq(1))
  next
    fix q assume "q \<in> set (db_quarantines db')"
    then show "quarantine_fits (db_commands db') q" by (intro fitq) (simp add: eq(1))
  qed
  have same: "sql_to_command db' x = sql_to_command db x" for x
    by (simp add: eq(1) sql_to_command_def sql_attempts_def)
  have get: "sql_cmd_get j db' = (if j = i then Some (sb_command sub) else sql_cmd_get j db)" for j
    using fresh eq(2) same by (auto simp: sql_cmd_get_def cmd_find_def eq(1) find_append split: option.split)
  show ?thesis by (rule that [OF eq valid nq get])
qed

text \<open>What \<open>get\<close> shows of a row.\<close>

lemma sql_get_row:
  assumes "sql_cmd_get i db = Some c"
  obtains r where "cmd_find i db = Some r" "c = sql_to_command db r"
  using assms by (auto simp: sql_cmd_get_def)

lemma sql_to_command_simps [simp]:
  "cm_id (sql_to_command db r) = cw_id r" "cm_request (sql_to_command db r) = cw_request r"
  "cm_actor (sql_to_command db r) = cw_actor r" "cm_status (sql_to_command db r) = cw_status r"
  "cm_attempt_count (sql_to_command db r) = cw_attempt_count r" "cm_after (sql_to_command db r) = cw_after r"
  "cm_request_hash (sql_to_command db r) = cw_request_hash r" "cm_before (sql_to_command db r) = cw_before r"
  "cm_key (sql_to_command db r) = cw_key r"
  by (simp_all add: sql_to_command_def)

lemma same_facts_rows:
  "same_facts (sql_to_command d1 (claimed_row now r)) (sql_to_command d2 r)"
  "same_facts (sql_to_command d1 (finished_row f r)) (sql_to_command d2 r)"
  "same_facts (sql_to_command d1 (reconciled_row f r)) (sql_to_command d2 r)"
  by (simp_all add: same_facts_def sql_to_command_def claimed_row_def finished_row_def reconciled_row_def)

lemma find_request_key:
  "find p rows = Some x \<Longrightarrow> distinct (map cw_id rows) \<Longrightarrow> find (\<lambda>r. cw_id r = cw_id x) rows = Some x"
  by (auto simp: find_key_unique dest!: find_SomeD)

lemma create_replay_state:
  assumes "sql_create_or_replay i n db = (Inr sub, db')" "sb_replayed sub"
  shows "\<exists>key x. find (\<lambda>r. rq_client (cw_request r) = rq_client (cn_request n) \<and> cw_key r = key) (db_commands db) = Some x
    \<and> cw_request_hash x = cn_request_hash n \<and> db' = db \<and> sb_command sub = sql_to_command db x"
proof (cases "validate_idempotency_key (cn_key n)")
  case (Inl e)
  with assms show ?thesis by (simp add: sql_create_or_replay_def)
next
  case (Inr key)
  show ?thesis
  proof (cases "find (\<lambda>r. rq_client (cw_request r) = rq_client (cn_request n) \<and> cw_key r = key) (db_commands db)")
    case None
    with assms Inr show ?thesis by (auto simp: sql_create_or_replay_def Let_def split: if_splits)
  next
    case (Some x)
    with assms Inr show ?thesis
      by (intro exI [of _ key] exI [of _ x]) (auto simp: sql_create_or_replay_def split: if_splits)
  qed
qed

section \<open>The protocol holds of the SQL store\<close>

interpretation sql_commands: command_store ledger_valid sql_cmd_ops
proof unfold_locales
  fix s s' i n sub
  assume v: "ledger_valid s" and new: "so_get sql_cmd_ops i s = None"
    and run: "so_create sql_cmd_ops i n s = (Inr sub, s')" "\<not> sb_replayed sub"
  have "sql_cmd_get i s = None" "sql_create_or_replay i n s = (Inr sub, s')"
    using new run by (simp_all add: sql_cmd_ops_def)
  from create_state [OF v this run(2)] obtain key where "sb_command sub = sql_to_command s' (new_row i key n)"
    "ledger_valid s'" "\<And>j. sql_cmd_get j s' = (if j = i then Some (sb_command sub) else sql_cmd_get j s)" by blast
  then show "ledger_valid s' \<and> cm_status (sb_command sub) = Queued \<and> cm_id (sb_command sub) = i
      \<and> cm_request (sb_command sub) = cn_request n \<and> cm_attempt_count (sb_command sub) = 0
      \<and> (\<forall>j. so_get sql_cmd_ops j s' = (if j = i then Some (sb_command sub) else so_get sql_cmd_ops j s))"
    by (simp add: sql_cmd_ops_def)
next
  fix s s' i n sub
  assume v: "ledger_valid s" and run: "so_create sql_cmd_ops i n s = (Inr sub, s')" "sb_replayed sub"
  then obtain key x where x: "find (\<lambda>r. rq_client (cw_request r) = rq_client (cn_request n) \<and> cw_key r = key)
      (db_commands s) = Some x" "cw_request_hash x = cn_request_hash n" "s' = s" "sb_command sub = sql_to_command s x"
    using create_replay_state [of i n s sub s'] by (auto simp: sql_cmd_ops_def)
  from find_request_key [OF x(1) ledger_validD(1) [OF v]] have "cmd_find (cw_id x) s = Some x"
    by (simp add: cmd_find_def)
  with x show "s' = s \<and> so_get sql_cmd_ops (cm_id (sb_command sub)) s = Some (sb_command sub)
      \<and> cm_request_hash (sb_command sub) = cn_request_hash n"
    by (simp add: sql_cmd_ops_def sql_cmd_get_def)
next
  fix s s' i n e
  assume "so_create sql_cmd_ops i n s = (Inl e, s')"
  then show "s' = s"
    by (auto simp: sql_cmd_ops_def sql_create_or_replay_def Let_def split: sum.splits option.splits if_splits)
next
  fix s i now c s'
  assume v: "ledger_valid s" and run: "so_claim sql_cmd_ops i now s = (Inr c, s')"
  have "filter (\<lambda>r. cw_id r = i \<and> cw_status r = Queued) (db_commands s) \<noteq> []"
    using run by (auto simp: sql_cmd_ops_def sql_claim_queued_def split: if_splits option.splits)
  then obtain r where r: "r \<in> set (db_commands s)" "cw_id r = i" "cw_status r = Queued"
    by (auto simp: filter_empty_conv)
  have f: "cmd_find i s = Some r"
    using find_key_unique [OF ledger_validD(1) [OF v] r(1)] r(2) by (simp add: cmd_find_def)
  note cs = claim_state [OF v f r(3), where now = now]
  show "ledger_valid s' \<and> (\<exists>c0. so_get sql_cmd_ops i s = Some c0 \<and> cm_status c0 = Queued \<and> same_facts c c0
        \<and> cm_status c = InProgress \<and> cm_attempt_count c = cm_attempt_count c0 + 1)
      \<and> (\<forall>j. so_get sql_cmd_ops j s' = (if j = i then Some c else so_get sql_cmd_ops j s))"
    using cs run f r(3) same_facts_rows(1) by (auto simp: sql_cmd_ops_def sql_cmd_get_def)
next
  fix s i c0 now
  assume "ledger_valid s" "so_get sql_cmd_ops i s = Some c0" "cm_status c0 = Queued"
  then show "\<exists>c s'. so_claim sql_cmd_ops i now s = (Inr c, s')"
    using claim_state(1) by (fastforce simp: sql_cmd_ops_def elim!: sql_get_row)
next
  fix s s' i now e
  assume run: "so_claim sql_cmd_ops i now s = (Inl e, s')"
  show "s' = s"
  proof (cases "length (filter (\<lambda>r. cw_id r = i \<and> cw_status r = Queued) (db_commands s)) = 1")
    case False
    with run show ?thesis by (simp add: sql_cmd_ops_def sql_claim_queued_def split: option.splits)
  next
    case True
    then have "filter (\<lambda>r. cw_id r = i \<and> cw_status r = Queued) (db_commands s) \<noteq> []" by auto
    then have "cmd_find i s \<noteq> None" by (auto simp: filter_empty_conv cmd_find_def find_None_iff)
    with True run show ?thesis
      by (auto simp: sql_cmd_ops_def sql_claim_queued_def read_command_def sql_cmd_get_def cmd_find_def find_update_rows)
  qed
next
  fix s i c0 and f :: finish
  assume v: "ledger_valid s" and g: "so_get sql_cmd_ops i s = Some c0" and st: "cm_status c0 = InProgress"
    and wf: "finish_wf f (cm_attempt_count c0)" and fs: "fi_status f \<in> {Applied, Conflict, Failed, Unknown}"
  from g obtain r where r: "cmd_find i s = Some r" "c0 = sql_to_command s r"
    by (auto simp: sql_cmd_ops_def elim: sql_get_row)
  show "\<exists>c s'. so_finish sql_cmd_ops i f s = (Inr c, s') \<and> ledger_valid s' \<and> same_facts c c0
        \<and> cm_status c = fi_status f \<and> cm_after c = fi_after f \<and> cm_attempt_count c = cm_attempt_count c0
        \<and> (\<forall>j. so_get sql_cmd_ops j s' = (if j = i then Some c else so_get sql_cmd_ops j s))"
    by (rule finish_state [OF v r(1), of f]) (use st wf fs r(2) same_facts_rows(2) in \<open>simp_all add: sql_cmd_ops_def\<close>)
next
  fix s i c0 and f :: finish
  assume v: "ledger_valid s" and g: "so_get sql_cmd_ops i s = Some c0" and st: "cm_status c0 = Unknown"
    and wf: "finish_wf f (cm_attempt_count c0 + 1)" and fs: "fi_status f \<in> {Applied, Conflict, Unknown}"
  from g obtain r where r: "cmd_find i s = Some r" "c0 = sql_to_command s r"
    by (auto simp: sql_cmd_ops_def elim: sql_get_row)
  show "\<exists>c s'. so_reconcile sql_cmd_ops i f s = (Inr c, s') \<and> ledger_valid s' \<and> same_facts c c0
        \<and> cm_status c = fi_status f \<and> cm_after c = fi_after f \<and> cm_attempt_count c = cm_attempt_count c0 + 1
        \<and> (\<forall>j. so_get sql_cmd_ops j s' = (if j = i then Some c else so_get sql_cmd_ops j s))"
    by (rule reconcile_state [OF v r(1), of f]) (use st wf fs r(2) same_facts_rows(3) in \<open>simp_all add: sql_cmd_ops_def\<close>)
next
  fix s i c
  assume v: "ledger_valid s" and g: "so_get sql_cmd_ops i s = Some c"
  from g obtain r where r: "cmd_find i s = Some r" "c = sql_to_command s r"
    by (auto simp: sql_cmd_ops_def elim: sql_get_row)
  then show "cm_id c = i \<and> 0 \<le> cm_attempt_count c"
    using cmd_findD [OF r(1)] ledger_validD(2) [OF v] by simp
qed

end
