(* ===== verification/Provider_Runtime.thy ===== *)
theory Provider_Runtime
  imports Provider_Sql_Laws
begin

text \<open>
  Concurrent confirmations of provider budget changes: the lease helpers of \<open>app/main.py\<close>
  around \<open>execute\<close> and \<open>reconcile\<close>, as interleaved transactions of workers on the SQL
  ledger.  A worker of \<open>confirm_meta_budget_change\<close> takes the lease of the target, claims
  the command, renews the lease just before the provider write (the fence), sends the write,
  records the outcome and releases the lease; it may stall for any time between two of these
  transactions, and it may die.
\<close>

section \<open>The lease helpers\<close>

text \<open>\<open>_acquire_meta_budget_target_lock\<close>, with the store's own methods.\<close>

definition acquire_meta_budget_target_lock ::
  "command \<Rightarrow> bool \<Rightarrow> timestamp \<Rightarrow> nat \<Rightarrow> cmd_db \<Rightarrow> nat option \<times> cmd_db" where
  "acquire_meta_budget_target_lock c for_reconciliation now token db =
     (if \<not> for_reconciliation \<and> sql_target_quarantine_command_id (cm_request c) db \<noteq> None then (None, db)
      else sql_acquire_target_lock c for_reconciliation now token db)"

definition release_meta_budget_target_lock :: "command \<Rightarrow> nat \<Rightarrow> cmd_db \<Rightarrow> cmd_db" where
  "release_meta_budget_target_lock c lease_token db = sql_release_target_lock c lease_token db"

definition lock_lost :: exn where
  "lock_lost = BudgetConflictError ''meta_budget_target_lock_lost''
     ''The budget target execution lease was lost; no provider write was attempted''"

definition renew_meta_budget_target_lock :: "command \<Rightarrow> nat \<Rightarrow> timestamp \<Rightarrow> cmd_db \<Rightarrow> exn option \<times> cmd_db" where
  "renew_meta_budget_target_lock c lease_token now db =
     (case sql_renew_target_lock c lease_token now db of
        (valid, db') \<Rightarrow> (raise_if (\<not> valid) lock_lost, db'))"

section \<open>Workers\<close>

text \<open>
  How far the worker that claimed a command has come, with the lease token it holds.  Between
  \<open>Fenced\<close> and the end of its attempt the worker may send the provider write; once sent, the
  write may reach the provider at any time.
\<close>

datatype phase = Idle | Claimed nat | Fenced nat | Posted nat

fun window :: "phase \<Rightarrow> nat option" where
  "window (Fenced tok) = Some tok"
| "window (Posted tok) = Some tok"
| "window _ = None"

record runtime =
  rt_db :: cmd_db
  rt_held :: "(uuid \<times> nat) set"
  rt_phase :: "uuid \<Rightarrow> phase"

definition rt_init :: "runtime \<Rightarrow> bool" where
  "rt_init s \<longleftrightarrow> rt_db s = \<lparr>db_commands = [], db_attempts = [], db_locks = [], db_quarantines = []\<rparr>
     \<and> rt_held s = {} \<and> rt_phase s = (\<lambda>_. Idle)"

text \<open>
  The transactions of the workers.  An attempt ends as unknown only after the write was sent: of
  the adapter's operations only \<open>write_budget\<close> raises \<open>ProviderWriteOutcomeUnknown\<close>,
  see \<open>unknown_needs_post\<close>.
\<close>

inductive worker_step :: "runtime \<Rightarrow> runtime \<Rightarrow> bool" where
  submit: "sql_cmd_get i (rt_db s) = None \<Longrightarrow> sql_create_or_replay i n (rt_db s) = (r, db)
     \<Longrightarrow> worker_step s (s\<lparr>rt_db := db\<rparr>)"
| acquire: "sql_cmd_get i (rt_db s) = Some c
     \<Longrightarrow> acquire_meta_budget_target_lock c for_reconciliation now token (rt_db s) = (Some tok, db)
     \<Longrightarrow> worker_step s (s\<lparr>rt_db := db, rt_held := insert (i, tok) (rt_held s)\<rparr>)"
| claim: "(i, tok) \<in> rt_held s \<Longrightarrow> sql_claim_queued i now (rt_db s) = (Inr c, db)
     \<Longrightarrow> worker_step s (s\<lparr>rt_db := db, rt_phase := (rt_phase s)(i := Claimed tok)\<rparr>)"
| fence: "rt_phase s i = Claimed tok \<Longrightarrow> sql_cmd_get i (rt_db s) = Some c
     \<Longrightarrow> renew_meta_budget_target_lock c tok now (rt_db s) = (None, db)
     \<Longrightarrow> worker_step s (s\<lparr>rt_db := db, rt_phase := (rt_phase s)(i := Fenced tok)\<rparr>)"
| post: "rt_phase s i = Fenced tok \<Longrightarrow> worker_step s (s\<lparr>rt_phase := (rt_phase s)(i := Posted tok)\<rparr>)"
| finish: "rt_phase s i \<noteq> Idle \<Longrightarrow> sql_cmd_get i (rt_db s) = Some c0 \<Longrightarrow> finish_wf f (cm_attempt_count c0)
     \<Longrightarrow> (fi_status f = Unknown \<longrightarrow> (\<exists>tok. rt_phase s i = Posted tok))
     \<Longrightarrow> sql_finish_execution i f (rt_db s) = (Inr c, db)
     \<Longrightarrow> worker_step s (s\<lparr>rt_db := db, rt_phase := (rt_phase s)(i := Idle)\<rparr>)"
| reconcile: "(i, tok) \<in> rt_held s \<Longrightarrow> sql_cmd_get i (rt_db s) = Some c0 \<Longrightarrow> finish_wf f (cm_attempt_count c0 + 1)
     \<Longrightarrow> sql_record_reconciliation i f (rt_db s) = (Inr c, db)
     \<Longrightarrow> worker_step s (s\<lparr>rt_db := db\<rparr>)"
| release: "(i, tok) \<in> rt_held s \<Longrightarrow> sql_cmd_get i (rt_db s) = Some c
     \<Longrightarrow> worker_step s (s\<lparr>rt_db := release_meta_budget_target_lock c tok (rt_db s), rt_held := rt_held s - {(i, tok)}\<rparr>)"

inductive_cases worker_stepE: "worker_step s s'"

text \<open>Offline recovery: every API instance is stopped, so no worker survives it.\<close>

definition recovery_step :: "runtime \<Rightarrow> runtime \<Rightarrow> bool" where
  "recovery_step s s' \<longleftrightarrow> (\<exists>now n db. sql_recover_interrupted True now (rt_db s) = (Inr n, db)
     \<and> s' = s\<lparr>rt_db := db, rt_held := {}, rt_phase := (\<lambda>_. Idle)\<rparr>)"

definition rt_step :: "runtime \<Rightarrow> runtime \<Rightarrow> bool" where
  "rt_step s s' \<longleftrightarrow> worker_step s s' \<or> recovery_step s s'"

text \<open>
  Recovery gives every interrupted command its own fence only when no two interrupted commands
  share a target and no other command's quarantine is on it.
\<close>

definition recoverable :: "cmd_db \<Rightarrow> bool" where
  "recoverable db \<longleftrightarrow> (\<forall>r \<in> set (db_commands db). cw_status r = InProgress \<longrightarrow> quarantine_find (row_key r) db = None
     \<and> (\<forall>x \<in> set (db_commands db). cw_status x = InProgress \<and> row_key x = row_key r \<longrightarrow> x = r))"

definition fenced_step :: "runtime \<Rightarrow> runtime \<Rightarrow> bool" where
  "fenced_step s s' \<longleftrightarrow> worker_step s s' \<or> (recoverable (rt_db s) \<and> recovery_step s s')"

section \<open>The invariants\<close>

definition busy_inv :: "runtime \<Rightarrow> bool" where
  "busy_inv s \<longleftrightarrow> (\<forall>i. rt_phase s i \<noteq> Idle \<longrightarrow> (\<exists>r. cmd_find i (rt_db s) = Some r \<and> cw_status r = InProgress))"

text \<open>A worker in the write window has the lease of its target.\<close>

definition lease_inv :: "runtime \<Rightarrow> bool" where
  "lease_inv s \<longleftrightarrow> (\<forall>i tok r. window (rt_phase s i) = Some tok \<longrightarrow> cmd_find i (rt_db s) = Some r \<longrightarrow>
     (\<exists>l. lock_find (row_key r) (rt_db s) = Some l \<and> lk_command l = i \<and> lk_token l = tok))"

definition lease_state :: "runtime \<Rightarrow> bool" where
  "lease_state s \<longleftrightarrow> ledger_valid (rt_db s) \<and> distinct (map lk_key (db_locks (rt_db s)))
     \<and> distinct (map qr_key (db_quarantines (rt_db s))) \<and> busy_inv s \<and> lease_inv s"

definition clear_inv :: "runtime \<Rightarrow> bool" where
  "clear_inv s \<longleftrightarrow> (\<forall>i tok r. window (rt_phase s i) = Some tok \<longrightarrow> cmd_find i (rt_db s) = Some r \<longrightarrow>
     quarantine_find (row_key r) (rt_db s) = None)"

definition unknown_inv :: "cmd_db \<Rightarrow> bool" where
  "unknown_inv db \<longleftrightarrow> (\<forall>i r. cmd_find i db = Some r \<longrightarrow> cw_status r = Unknown \<longrightarrow>
     (\<exists>q. quarantine_find (row_key r) db = Some q \<and> qr_command q = i))"

definition fenced_state :: "runtime \<Rightarrow> bool" where
  "fenced_state s \<longleftrightarrow> clear_inv s \<and> unknown_inv (rt_db s)"

lemma lease_stateD:
  assumes "lease_state s"
  shows "ledger_valid (rt_db s)" "distinct (map lk_key (db_locks (rt_db s)))"
    "distinct (map qr_key (db_quarantines (rt_db s)))"
    "\<And>i. rt_phase s i \<noteq> Idle \<Longrightarrow> \<exists>r. cmd_find i (rt_db s) = Some r \<and> cw_status r = InProgress"
    "\<And>i tok r. window (rt_phase s i) = Some tok \<Longrightarrow> cmd_find i (rt_db s) = Some r \<Longrightarrow>
       \<exists>l. lock_find (row_key r) (rt_db s) = Some l \<and> lk_command l = i \<and> lk_token l = tok"
  using assms by (simp_all add: lease_state_def busy_inv_def lease_inv_def)

lemma lease_stateI:
  assumes "ledger_valid (rt_db s)" "distinct (map lk_key (db_locks (rt_db s)))"
    "distinct (map qr_key (db_quarantines (rt_db s)))"
    "\<And>i. rt_phase s i \<noteq> Idle \<Longrightarrow> \<exists>r. cmd_find i (rt_db s) = Some r \<and> cw_status r = InProgress"
    "\<And>i tok r. window (rt_phase s i) = Some tok \<Longrightarrow> cmd_find i (rt_db s) = Some r \<Longrightarrow>
       \<exists>l. lock_find (row_key r) (rt_db s) = Some l \<and> lk_command l = i \<and> lk_token l = tok"
  shows "lease_state s"
  using assms by (simp add: lease_state_def busy_inv_def lease_inv_def)

lemma fenced_stateD:
  assumes "fenced_state s"
  shows "\<And>i tok r. window (rt_phase s i) = Some tok \<Longrightarrow> cmd_find i (rt_db s) = Some r \<Longrightarrow>
       quarantine_find (row_key r) (rt_db s) = None"
    "\<And>i r. cmd_find i (rt_db s) = Some r \<Longrightarrow> cw_status r = Unknown \<Longrightarrow>
       \<exists>q. quarantine_find (row_key r) (rt_db s) = Some q \<and> qr_command q = i"
  using assms unfolding fenced_state_def clear_inv_def unknown_inv_def by blast+

lemma fenced_stateI:
  assumes "\<And>i tok r. window (rt_phase s i) = Some tok \<Longrightarrow> cmd_find i (rt_db s) = Some r \<Longrightarrow>
       quarantine_find (row_key r) (rt_db s) = None"
    "\<And>i r. cmd_find i (rt_db s) = Some r \<Longrightarrow> cw_status r = Unknown \<Longrightarrow>
       \<exists>q. quarantine_find (row_key r) (rt_db s) = Some q \<and> qr_command q = i"
  shows "fenced_state s"
  using assms by (simp add: fenced_state_def clear_inv_def unknown_inv_def)

lemma window_busy: "window ph = Some tok \<Longrightarrow> ph \<noteq> Idle"
  by (cases ph) auto

lemma window_row:
  assumes "lease_state s" "window (rt_phase s i) = Some tok"
  obtains r where "cmd_find i (rt_db s) = Some r" "cw_status r = InProgress"
    "\<exists>l. lock_find (row_key r) (rt_db s) = Some l \<and> lk_command l = i \<and> lk_token l = tok"
  using lease_stateD(4,5) [OF assms(1)] assms(2) window_busy by metis

text \<open>A target has one lease row, so one window.\<close>

lemma window_unique:
  assumes "lease_state s" "window (rt_phase s i) = Some tok" "window (rt_phase s j) = Some tok'"
    and "cmd_find i (rt_db s) = Some r" "cmd_find j (rt_db s) = Some r'" "row_key r = row_key r'"
  shows "i = j"
  using lease_stateD(5) [OF assms(1,2,4)] lease_stateD(5) [OF assms(1,3,5)] assms(6) by auto

section \<open>The lock transactions\<close>

lemma lock_findD: "lock_find k db = Some l \<Longrightarrow> l \<in> set (db_locks db) \<and> lk_key l = k"
  by (auto simp: lock_find_def dest: find_SomeD)

lemma acquire_state:
  assumes ok: "acquire_meta_budget_target_lock c fr now token db = (Some tok, db')"
    and d: "distinct (map lk_key (db_locks db))"
  shows "db_commands db' = db_commands db" "db_attempts db' = db_attempts db" "db_quarantines db' = db_quarantines db"
    "distinct (map lk_key (db_locks db'))"
    "\<And>k. k \<noteq> target_key_of (cm_request c) \<Longrightarrow> lock_find k db' = lock_find k db"
    "\<And>r. r \<in> set (db_commands db) \<Longrightarrow> row_key r = target_key_of (cm_request c) \<Longrightarrow> cw_status r \<noteq> InProgress"
    "lock_find (target_key_of (cm_request c)) db'
       = Some \<lparr>lk_key = target_key_of (cm_request c), lk_command = cm_id c, lk_token = tok, lk_until = now + lease_length, lk_updated = now\<rparr>"
proof -
  let ?k = "target_key_of (cm_request c)"
  let ?fresh = "\<lparr>lk_key = ?k, lk_command = cm_id c, lk_token = token, lk_until = now + lease_length, lk_updated = now\<rparr>"
  have run: "sql_acquire_target_lock c fr now token db = (Some tok, db')"
    using ok by (auto simp: acquire_meta_budget_target_lock_def split: if_splits)
  then have none: "\<not> (\<exists>r \<in> set (db_commands db). row_key r = ?k \<and> cw_status r = InProgress)"
    unfolding sql_acquire_target_lock_def Let_def by (auto split: if_splits)
  have db': "tok = token" "db' = db\<lparr>db_locks := (if lock_find ?k db = None then db_locks db @ [?fresh]
        else update_rows (\<lambda>l. lk_key l = ?k) (\<lambda>_. ?fresh) (db_locks db))\<rparr>"
    using run unfolding sql_acquire_target_lock_def Let_def by (auto split: if_splits)
  show "db_commands db' = db_commands db" "db_attempts db' = db_attempts db" "db_quarantines db' = db_quarantines db"
    using db' by simp_all
  show "\<And>r. r \<in> set (db_commands db) \<Longrightarrow> row_key r = ?k \<Longrightarrow> cw_status r \<noteq> InProgress" using none by blast
  show "distinct (map lk_key (db_locks db'))"
  proof (cases "lock_find ?k db = None")
    case True
    then have "?k \<notin> lk_key ` set (db_locks db)" by (simp add: lock_find_def find_None_key)
    with True d show ?thesis by (simp add: db')
  next
    case False
    have "map lk_key (update_rows (\<lambda>l. lk_key l = ?k) (\<lambda>_. ?fresh) (db_locks db)) = map lk_key (db_locks db)"
      by (rule map_update_rows_inv) simp
    with False d show ?thesis by (auto simp: db')
  qed
  show "lock_find k db' = lock_find k db" if "k \<noteq> ?k" for k
  proof (cases "lock_find ?k db = None")
    case True
    with that show ?thesis by (auto simp: db' lock_find_def find_append split: option.split)
  next
    case False
    have "find (\<lambda>r. lk_key r = k) (update_rows (\<lambda>l. lk_key l = ?k) (\<lambda>_. ?fresh) ls) = find (\<lambda>r. lk_key r = k) ls" for ls
      using that by (induction ls) (auto simp: update_rows_def)
    with False show ?thesis by (auto simp: db' lock_find_def)
  qed
  show "lock_find ?k db' = Some \<lparr>lk_key = ?k, lk_command = cm_id c, lk_token = tok, lk_until = now + lease_length, lk_updated = now\<rparr>"
  proof (cases "lock_find ?k db = None")
    case True
    then show ?thesis by (simp add: db' lock_find_def find_append)
  next
    case False
    have "find (\<lambda>r. lk_key r = ?k) ls \<noteq> None \<Longrightarrow>
        find (\<lambda>r. lk_key r = ?k) (update_rows (\<lambda>l. lk_key l = ?k) (\<lambda>_. ?fresh) ls) = Some ?fresh" for ls
      by (induction ls) (auto simp: update_rows_def)
    with False show ?thesis by (auto simp: db' lock_find_def)
  qed
qed

lemma renew_state:
  assumes ok: "renew_meta_budget_target_lock c tok now db = (None, db')"
    and d: "distinct (map lk_key (db_locks db))"
    and r: "cmd_find (cm_id c) db = Some r" "row_key r = target_key_of (cm_request c)"
  shows "quarantine_find (row_key r) db = None"
    "\<exists>l. lock_find (row_key r) db' = Some l \<and> lk_command l = cm_id c \<and> lk_token l = tok"
    "db_commands db' = update_rows (\<lambda>x. cw_id x = cm_id c \<and> cw_status x = InProgress) (\<lambda>x. x\<lparr>cw_updated := now\<rparr>) (db_commands db)"
    "db_attempts db' = db_attempts db" "db_quarantines db' = db_quarantines db" "distinct (map lk_key (db_locks db'))"
    "\<And>k. map_option (\<lambda>l. (lk_command l, lk_token l)) (lock_find k db') = map_option (\<lambda>l. (lk_command l, lk_token l)) (lock_find k db)"
proof -
  let ?k = "target_key_of (cm_request c)"
  let ?u = "\<lambda>l. l\<lparr>lk_until := now + lease_length, lk_updated := now\<rparr>"
  have run: "sql_renew_target_lock c tok now db = (True, db')"
    using ok by (auto simp: renew_meta_budget_target_lock_def split: prod.splits)
  then have hits: "length (filter (renewable c tok db) (db_locks db)) = 1"
    unfolding sql_renew_target_lock_def Let_def by (auto split: if_splits)
  have db': "db' = db\<lparr>db_locks := update_rows (renewable c tok db) ?u (db_locks db),
      db_commands := update_rows (\<lambda>x. cw_id x = cm_id c \<and> cw_status x = InProgress) (\<lambda>x. x\<lparr>cw_updated := now\<rparr>) (db_commands db)\<rparr>"
    using run hits unfolding sql_renew_target_lock_def Let_def by (auto split: if_splits)
  obtain l where l: "l \<in> set (db_locks db)" "renewable c tok db l"
    using hits by (metis One_nat_def filter_empty_conv length_0_conv zero_neq_one)
  then have k: "lk_key l = ?k" "lk_command l = cm_id c" "lk_token l = tok"
    and nq: "\<not> (\<exists>q \<in> set (db_quarantines db). qr_key q = ?k)" by (auto simp: renewable_def)
  have find: "lock_find ?k db = Some l" unfolding lock_find_def by (rule find_key_unique [OF d l(1) k(1)])
  show "quarantine_find (row_key r) db = None" using nq by (auto simp: quarantine_find_def find_None_iff r(2))
  have upd: "lock_find k2 db' = map_option (\<lambda>l. if renewable c tok db l then ?u l else l) (lock_find k2 db)" for k2
    unfolding lock_find_def db' by (simp add: find_update_rows)
  show "\<exists>l. lock_find (row_key r) db' = Some l \<and> lk_command l = cm_id c \<and> lk_token l = tok"
    using find k by (simp add: upd r(2))
  show "map_option (\<lambda>l. (lk_command l, lk_token l)) (lock_find k2 db') = map_option (\<lambda>l. (lk_command l, lk_token l)) (lock_find k2 db)" for k2
    unfolding upd by (cases "lock_find k2 db") simp_all
  have "map lk_key (update_rows (renewable c tok db) ?u (db_locks db)) = map lk_key (db_locks db)"
    by (rule map_update_rows_inv) simp
  with d show "distinct (map lk_key (db_locks db'))" by (simp add: db')
  show "db_attempts db' = db_attempts db" "db_quarantines db' = db_quarantines db"
    "db_commands db' = update_rows (\<lambda>x. cw_id x = cm_id c \<and> cw_status x = InProgress) (\<lambda>x. x\<lparr>cw_updated := now\<rparr>) (db_commands db)"
    by (simp_all add: db')
qed

text \<open>Releasing never touches the lease of a command in progress.\<close>

lemma release_state:
  assumes l: "lock_find k db = Some l" and r: "cmd_find (lk_command l) db = Some r" "cw_status r = InProgress"
  shows "lock_find k (release_meta_budget_target_lock c tok db) = Some l"
proof -
  let ?keep = "\<lambda>l. \<not> (lk_key l = target_key_of (cm_request c) \<and> lk_command l = cm_id c \<and> lk_token l = tok
          \<and> \<not> (\<exists>r \<in> set (db_commands db). cw_id r = lk_command l \<and> cw_status r = InProgress))"
  have "?keep l" using r cmd_findD [OF r(1)] by blast
  moreover have "find p ls = Some l \<Longrightarrow> ?keep l \<Longrightarrow> find p (filter ?keep ls) = Some l" for p ls
    by (induction ls) (auto split: if_splits)
  ultimately show ?thesis using l
    unfolding lock_find_def release_meta_budget_target_lock_def sql_release_target_lock_def by simp
qed


section \<open>Every step keeps the invariants\<close>

text \<open>Steps that rewrite the row of one command and leave the leases alone.\<close>

lemma rows_after:
  assumes "cmd_find i db = Some r" "p r" "\<And>x. cw_id (f x) = cw_id x"
    and "db_commands db' = update_rows (\<lambda>x. cw_id x = i \<and> p x) f (db_commands db)"
  shows "cmd_find j db' = (if j = i then Some (f r) else cmd_find j db)"
proof -
  have f: "cmd_find j db' = map_option (\<lambda>x. if cw_id x = i \<and> p x then f x else x) (cmd_find j db)"
    unfolding cmd_find_def assms(4) by (rule find_update_rows) (simp add: assms(3))
  show ?thesis
  proof (cases "j = i")
    case True
    with f assms(1,2) cmd_findD [OF assms(1)] show ?thesis by simp
  next
    case False
    then have "cw_id x \<noteq> i" if "cmd_find j db = Some x" for x using cmd_findD [OF that] by simp
    with f False show ?thesis by (cases "cmd_find j db") simp_all
  qed
qed

lemma row_step_lease:
  assumes s: "lease_state s" and r: "cmd_find i (rt_db s) = Some r"
    and db: "ledger_valid db" "db_locks db = db_locks (rt_db s)" "distinct (map qr_key (db_quarantines db))"
    and f: "\<And>j. cmd_find j db = (if j = i then Some r' else cmd_find j (rt_db s))" and k: "row_key r' = row_key r"
    and ph: "window ph = None" "ph \<noteq> Idle \<Longrightarrow> cw_status r' = InProgress"
  shows "lease_state (s\<lparr>rt_db := db, rt_held := h, rt_phase := (rt_phase s)(i := ph)\<rparr>)"
proof (rule lease_stateI)
  fix j assume "rt_phase (s\<lparr>rt_db := db, rt_held := h, rt_phase := (rt_phase s)(i := ph)\<rparr>) j \<noteq> Idle"
  then show "\<exists>r. cmd_find j (rt_db (s\<lparr>rt_db := db, rt_held := h, rt_phase := (rt_phase s)(i := ph)\<rparr>)) = Some r
      \<and> cw_status r = InProgress"
    using lease_stateD(4) [OF s, of j] ph f [of j] by (cases "j = i") auto
next
  fix j tok x
  assume "window (rt_phase (s\<lparr>rt_db := db, rt_held := h, rt_phase := (rt_phase s)(i := ph)\<rparr>) j) = Some tok"
    and "cmd_find j (rt_db (s\<lparr>rt_db := db, rt_held := h, rt_phase := (rt_phase s)(i := ph)\<rparr>)) = Some x"
  then have "window (rt_phase s j) = Some tok" "cmd_find j (rt_db s) = Some x"
    using ph f [of j] by (auto split: if_splits)
  from lease_stateD(5) [OF s this] db(2)
  show "\<exists>l. lock_find (row_key x) (rt_db (s\<lparr>rt_db := db, rt_held := h, rt_phase := (rt_phase s)(i := ph)\<rparr>)) = Some l
      \<and> lk_command l = j \<and> lk_token l = tok"
    by (simp add: lock_find_def)
next
  show "distinct (map lk_key (db_locks (rt_db (s\<lparr>rt_db := db, rt_held := h, rt_phase := (rt_phase s)(i := ph)\<rparr>))))"
    using db(2) lease_stateD(2) [OF s] by simp
qed (simp_all add: db(1,3))

lemma row_step_fenced:
  assumes s: "fenced_state s" and r: "cmd_find i (rt_db s) = Some r"
    and f: "\<And>j. cmd_find j db = (if j = i then Some r' else cmd_find j (rt_db s))" and k: "row_key r' = row_key r"
    and q: "\<And>k. k \<noteq> row_key r \<Longrightarrow> quarantine_find k db = quarantine_find k (rt_db s)"
    and clear: "\<And>j tok x. j \<noteq> i \<Longrightarrow> window (rt_phase s j) = Some tok \<Longrightarrow> cmd_find j (rt_db s) = Some x \<Longrightarrow>
       row_key x = row_key r \<Longrightarrow> quarantine_find (row_key r) db = None"
    and mine: "cw_status r' = Unknown \<Longrightarrow> \<exists>q. quarantine_find (row_key r) db = Some q \<and> qr_command q = i"
    and other: "\<And>j x q. j \<noteq> i \<Longrightarrow> cmd_find j (rt_db s) = Some x \<Longrightarrow> row_key x = row_key r \<Longrightarrow>
       quarantine_find (row_key r) (rt_db s) = Some q \<Longrightarrow> qr_command q = j \<Longrightarrow>
       \<exists>q'. quarantine_find (row_key r) db = Some q' \<and> qr_command q' = j"
    and ph: "window ph = None"
  shows "fenced_state (s\<lparr>rt_db := db, rt_held := h, rt_phase := (rt_phase s)(i := ph)\<rparr>)"
proof (rule fenced_stateI)
  fix j tok x
  assume "window (rt_phase (s\<lparr>rt_db := db, rt_held := h, rt_phase := (rt_phase s)(i := ph)\<rparr>) j) = Some tok"
    and "cmd_find j (rt_db (s\<lparr>rt_db := db, rt_held := h, rt_phase := (rt_phase s)(i := ph)\<rparr>)) = Some x"
  then have w: "j \<noteq> i" "window (rt_phase s j) = Some tok" "cmd_find j (rt_db s) = Some x"
    using ph f [of j] by (auto split: if_splits)
  then have "quarantine_find (row_key x) db = None"
    using fenced_stateD(1) [OF s w(2,3)] q clear by (cases "row_key x = row_key r") auto
  then show "quarantine_find (row_key x) (rt_db (s\<lparr>rt_db := db, rt_held := h, rt_phase := (rt_phase s)(i := ph)\<rparr>)) = None"
    by simp
next
  fix j x
  assume x: "cmd_find j (rt_db (s\<lparr>rt_db := db, rt_held := h, rt_phase := (rt_phase s)(i := ph)\<rparr>)) = Some x"
    and u: "cw_status x = Unknown"
  have "\<exists>q. quarantine_find (row_key x) db = Some q \<and> qr_command q = j"
  proof (cases "j = i")
    case True
    with x f mine u k show ?thesis by auto
  next
    case False
    then have old: "cmd_find j (rt_db s) = Some x" using x f [of j] by simp
    from fenced_stateD(2) [OF s old u] obtain q0 where q0: "quarantine_find (row_key x) (rt_db s) = Some q0" "qr_command q0 = j"
      by blast
    show ?thesis
    proof (cases "row_key x = row_key r")
      case True
      then show ?thesis using other [OF False old True _ q0(2)] q0(1) by auto
    next
      case False
      then show ?thesis using q [OF False] q0 by simp
    qed
  qed
  then show "\<exists>q. quarantine_find (row_key x) (rt_db (s\<lparr>rt_db := db, rt_held := h, rt_phase := (rt_phase s)(i := ph)\<rparr>)) = Some q
      \<and> qr_command q = j"
    by simp
qed

lemma claim_keeps:
  assumes s: "lease_state s" and run: "sql_claim_queued i now (rt_db s) = (Inr c, db)"
  shows "lease_state (s\<lparr>rt_db := db, rt_phase := (rt_phase s)(i := Claimed tok)\<rparr>)
    \<and> (fenced_state s \<longrightarrow> fenced_state (s\<lparr>rt_db := db, rt_phase := (rt_phase s)(i := Claimed tok)\<rparr>))"
proof -
  note v = lease_stateD(1) [OF s]
  have "filter (\<lambda>r. cw_id r = i \<and> cw_status r = Queued) (db_commands (rt_db s)) \<noteq> []"
    using run by (auto simp: sql_claim_queued_def split: if_splits option.splits)
  then obtain r where r: "r \<in> set (db_commands (rt_db s))" "cw_id r = i" "cw_status r = Queued"
    by (auto simp: filter_empty_conv)
  have f: "cmd_find i (rt_db s) = Some r"
    using find_key_unique [OF ledger_validD(1) [OF v] r(1)] r(2) by (simp add: cmd_find_def)
  note cs = claim_state [OF v f r(3), where now = now]
  have db: "db = (rt_db s)\<lparr>db_commands := update_rows (\<lambda>x. cw_id x = i \<and> cw_status x = Queued) (claimed_row now) (db_commands (rt_db s))\<rparr>"
    using cs(1) run by simp
  have get: "cmd_find j db = (if j = i then Some (claimed_row now r) else cmd_find j (rt_db s))" for j
    by (rule rows_after [OF f, where p = "\<lambda>x. cw_status x = Queued"]) (simp_all add: r(3) db)
  have q: "quarantine_find k db = quarantine_find k (rt_db s)" for k by (simp add: db quarantine_find_def)
  have "lease_state (s\<lparr>rt_db := db, rt_held := rt_held s, rt_phase := (rt_phase s)(i := Claimed tok)\<rparr>)"
    by (rule row_step_lease [OF s f _ _ _ get]) (use cs(2) lease_stateD(3) [OF s] in \<open>simp_all add: db\<close>)
  moreover have "fenced_state s \<Longrightarrow> fenced_state (s\<lparr>rt_db := db, rt_held := rt_held s, rt_phase := (rt_phase s)(i := Claimed tok)\<rparr>)"
    by (rule row_step_fenced [OF _ f get]) (auto simp: q dest: fenced_stateD(1))
  ultimately show ?thesis by simp
qed

lemma finish_keeps:
  assumes s: "lease_state s" and busy: "rt_phase s i \<noteq> Idle" and g: "sql_cmd_get i (rt_db s) = Some c0"
    and wf: "finish_wf f (cm_attempt_count c0)" and u: "fi_status f = Unknown \<longrightarrow> (\<exists>tok. rt_phase s i = Posted tok)"
    and run: "sql_finish_execution i f (rt_db s) = (Inr c, db)"
  shows "lease_state (s\<lparr>rt_db := db, rt_phase := (rt_phase s)(i := Idle)\<rparr>)
    \<and> (fenced_state s \<longrightarrow> fenced_state (s\<lparr>rt_db := db, rt_phase := (rt_phase s)(i := Idle)\<rparr>))"
proof -
  note v = lease_stateD(1) [OF s]
  from lease_stateD(4) [OF s busy] obtain r where r: "cmd_find i (rt_db s) = Some r" "cw_status r = InProgress" by blast
  have wf': "finish_wf f (cw_attempt_count r)" using wf g r by (auto elim: sql_get_row)
  have fs: "fi_status f \<in> {Applied, Conflict, Failed, Unknown}"
    using run by (auto simp: sql_finish_execution_def split: if_splits)
  obtain db3 where d: "sql_finish_execution i f (rt_db s) = (Inr (sql_to_command db3 (finished_row f r)), db3)"
    "ledger_valid db3" "db_locks db3 = db_locks (rt_db s)"
    "db_commands db3 = update_rows (\<lambda>x. cw_id x = i \<and> cw_status x = InProgress) (finished_row f) (db_commands (rt_db s))"
    and q: "\<And>k. quarantine_find k db3 = (if fi_status f = Unknown then quarantine_after r (fi_now f) (rt_db s) k
      else quarantine_find k (rt_db s))"
    and dq: "distinct (map qr_key (db_quarantines (rt_db s))) \<Longrightarrow> distinct (map qr_key (db_quarantines db3))"
    by (rule finish_state [OF v r wf' fs]) blast
  have db: "db3 = db" using d(1) run by simp
  have get: "cmd_find j db = (if j = i then Some (finished_row f r) else cmd_find j (rt_db s))" for j
    by (rule rows_after [OF r(1), where p = "\<lambda>x. cw_status x = InProgress"]) (use r(2) d(4) db in simp_all)
  have "lease_state (s\<lparr>rt_db := db, rt_held := rt_held s, rt_phase := (rt_phase s)(i := Idle)\<rparr>)"
    by (rule row_step_lease [OF s r(1) _ _ _ get]) (use d dq lease_stateD(3) [OF s] db in simp_all)
  moreover have "fenced_state (s\<lparr>rt_db := db, rt_held := rt_held s, rt_phase := (rt_phase s)(i := Idle)\<rparr>)" if fen: "fenced_state s"
  proof (cases "fi_status f = Unknown")
    case False
    then have "quarantine_find k db = quarantine_find k (rt_db s)" for k using q db by simp
    then show ?thesis
      by (intro row_step_fenced [OF fen r(1) get]) (use False fen in \<open>auto dest: fenced_stateD(1)\<close>)
  next
    case True
    with u obtain tok where w: "window (rt_phase s i) = Some tok" by auto
    have none: "quarantine_find (row_key r) (rt_db s) = None" by (rule fenced_stateD(1) [OF fen w r(1)])
    have alone: "j = i" if "window (rt_phase s j) = Some tok'" "cmd_find j (rt_db s) = Some x" "row_key x = row_key r" for j tok' x
      by (rule window_unique [OF s that(1) w that(2) r(1) that(3)])
    have qk: "quarantine_find k db = (case quarantine_find k (rt_db s) of Some q \<Rightarrow> Some q
      | None \<Rightarrow> if k = row_key r then Some \<lparr>qr_key = row_key r, qr_command = i, qr_created = fi_now f, qr_updated = fi_now f\<rparr> else None)"
      for k using True q [of k] none db cmd_findD [OF r(1)] by (auto simp: quarantine_after_def split: option.split)
    show ?thesis
      by (rule row_step_fenced [OF fen r(1) get]) (use none alone qk in \<open>auto split: option.splits\<close>)
  qed
  ultimately show ?thesis by simp
qed

lemma reconcile_keeps:
  assumes s: "lease_state s" and g: "sql_cmd_get i (rt_db s) = Some c0" and wf: "finish_wf f (cm_attempt_count c0 + 1)"
    and run: "sql_record_reconciliation i f (rt_db s) = (Inr c, db)"
  shows "lease_state (s\<lparr>rt_db := db\<rparr>) \<and> (fenced_state s \<longrightarrow> fenced_state (s\<lparr>rt_db := db\<rparr>))"
proof -
  note v = lease_stateD(1) [OF s]
  from g obtain r where r: "cmd_find i (rt_db s) = Some r" "c0 = sql_to_command (rt_db s) r" by (auto elim: sql_get_row)
  have st: "cw_status r = Unknown"
    using run r(1) by (auto simp: sql_record_reconciliation_def split: if_splits)
  have idle: "rt_phase s i = Idle" using lease_stateD(4) [OF s, of i] r(1) st by fastforce
  have wf': "finish_wf f (cw_attempt_count r + 1)" using wf r(2) by simp
  have fs: "fi_status f \<in> {Applied, Conflict, Unknown}"
    using run by (auto simp: sql_record_reconciliation_def split: if_splits)
  obtain db3 where d: "sql_record_reconciliation i f (rt_db s) = (Inr (sql_to_command db3 (reconciled_row f r)), db3)"
    "ledger_valid db3" "db_locks db3 = db_locks (rt_db s)"
    "db_commands db3 = update_rows (\<lambda>x. cw_id x = i \<and> cw_status x = Unknown) (reconciled_row f) (db_commands (rt_db s))"
    and q: "\<And>k. quarantine_find k db3 = (if fi_status f = Unknown then quarantine_after r (fi_now f) (rt_db s) k
      else quarantine_find k (drop_quarantine r (rt_db s)))"
    and dq: "distinct (map qr_key (db_quarantines (rt_db s))) \<Longrightarrow> distinct (map qr_key (db_quarantines db3))"
    by (rule reconcile_state [OF v r(1) st wf' fs]) blast
  have db: "db3 = db" using d(1) run by simp
  have get: "cmd_find j db = (if j = i then Some (reconciled_row f r) else cmd_find j (rt_db s))" for j
    by (rule rows_after [OF r(1), where p = "\<lambda>x. cw_status x = Unknown"]) (use st d(4) db in simp_all)
  have ph: "s\<lparr>rt_db := db\<rparr> = s\<lparr>rt_db := db, rt_held := rt_held s, rt_phase := (rt_phase s)(i := Idle)\<rparr>"
    using idle by (simp add: fun_upd_idem)
  have "lease_state (s\<lparr>rt_db := db, rt_held := rt_held s, rt_phase := (rt_phase s)(i := Idle)\<rparr>)"
    by (rule row_step_lease [OF s r(1) _ _ _ get]) (use d dq lease_stateD(3) [OF s] db in simp_all)
  moreover have "fenced_state (s\<lparr>rt_db := db, rt_held := rt_held s, rt_phase := (rt_phase s)(i := Idle)\<rparr>)" if fen: "fenced_state s"
  proof -
    from fenced_stateD(2) [OF fen r(1) st] obtain q0 where q0: "quarantine_find (row_key r) (rt_db s) = Some q0" "qr_command q0 = i"
      by blast
    have none: False if "window (rt_phase s j) = Some tok" "cmd_find j (rt_db s) = Some x" "row_key x = row_key r" for j tok x
      using fenced_stateD(1) [OF fen that(1,2)] that(3) q0(1) by simp
    have key: "quarantine_find k db = quarantine_find k (rt_db s)" if "k \<noteq> row_key r" for k
      using that q [of k] db by (simp add: quarantine_after_def quarantine_find_drop [OF lease_stateD(3) [OF s]] split: option.split)
    have mine: "\<exists>q. quarantine_find (row_key r) db = Some q \<and> qr_command q = i" if "fi_status f = Unknown"
      using that q [of "row_key r"] q0 db cmd_findD [OF r(1)] by (simp add: quarantine_after_def)
    show ?thesis
      by (rule row_step_fenced [OF fen r(1) get]) (use none key mine q0 in auto)
  qed
  ultimately show ?thesis unfolding ph [symmetric] by blast
qed

text \<open>Steps that leave every command's row as it was.\<close>

lemma lock_step_lease:
  assumes s: "lease_state s" and db: "db_commands db = db_commands (rt_db s)" "db_attempts db = db_attempts (rt_db s)"
      "db_quarantines db = db_quarantines (rt_db s)" "distinct (map lk_key (db_locks db))"
    and l: "\<And>i r l. cmd_find i (rt_db s) = Some r \<Longrightarrow> cw_status r = InProgress \<Longrightarrow> lock_find (row_key r) (rt_db s) = Some l \<Longrightarrow>
       lk_command l = i \<Longrightarrow> lock_find (row_key r) db = Some l"
  shows "lease_state (s\<lparr>rt_db := db, rt_held := h\<rparr>) \<and> (fenced_state s \<longrightarrow> fenced_state (s\<lparr>rt_db := db, rt_held := h\<rparr>))"
proof -
  have c: "cmd_find i db = cmd_find i (rt_db s)" "quarantine_find k db = quarantine_find k (rt_db s)" for i k
    by (simp_all add: cmd_find_def quarantine_find_def db)
  have v: "ledger_valid db" using lease_stateD(1) [OF s] by (simp add: ledger_valid_def db)
  have "lease_state (s\<lparr>rt_db := db, rt_held := h\<rparr>)"
  proof (rule lease_stateI)
    fix i tok r
    assume a: "window (rt_phase (s\<lparr>rt_db := db, rt_held := h\<rparr>) i) = Some tok" "cmd_find i (rt_db (s\<lparr>rt_db := db, rt_held := h\<rparr>)) = Some r"
    then have w: "window (rt_phase s i) = Some tok" "cmd_find i (rt_db s) = Some r" by (simp_all add: c)
    have p: "cw_status r = InProgress" using lease_stateD(4) [OF s window_busy [OF w(1)]] w(2) by auto
    from lease_stateD(5) [OF s w] l [OF w(2) p]
    show "\<exists>l. lock_find (row_key r) (rt_db (s\<lparr>rt_db := db, rt_held := h\<rparr>)) = Some l \<and> lk_command l = i \<and> lk_token l = tok"
      by auto
  qed (use v db lease_stateD(3,4) [OF s] in \<open>simp_all add: c\<close>)
  moreover have "fenced_state (s\<lparr>rt_db := db, rt_held := h\<rparr>)" if fen: "fenced_state s"
    by (rule fenced_stateI) (use fenced_stateD [OF fen] in \<open>simp_all add: c\<close>)
  ultimately show ?thesis by blast
qed

lemma acquire_keeps:
  assumes s: "lease_state s" and run: "acquire_meta_budget_target_lock c fr now token (rt_db s) = (Some tok, db)"
  shows "lease_state (s\<lparr>rt_db := db, rt_held := h\<rparr>) \<and> (fenced_state s \<longrightarrow> fenced_state (s\<lparr>rt_db := db, rt_held := h\<rparr>))"
proof -
  note a = acquire_state [OF run lease_stateD(2) [OF s]]
  show ?thesis
  proof (rule lock_step_lease [OF s a(1-4)])
    fix i r l
    assume "cmd_find i (rt_db s) = Some r" "cw_status r = InProgress" "lock_find (row_key r) (rt_db s) = Some l" "lk_command l = i"
    then show "lock_find (row_key r) db = Some l" using a(5,6) cmd_findD [of i "rt_db s" r] by metis
  qed
qed

lemma release_keeps:
  assumes s: "lease_state s"
  shows "lease_state (s\<lparr>rt_db := release_meta_budget_target_lock c tok (rt_db s), rt_held := h\<rparr>)
    \<and> (fenced_state s \<longrightarrow> fenced_state (s\<lparr>rt_db := release_meta_budget_target_lock c tok (rt_db s), rt_held := h\<rparr>))"
proof (rule lock_step_lease [OF s])
  show "distinct (map lk_key (db_locks (release_meta_budget_target_lock c tok (rt_db s))))"
    using lease_stateD(2) [OF s]
    by (simp add: release_meta_budget_target_lock_def sql_release_target_lock_def distinct_map_filter)
next
  fix i r l
  assume "cmd_find i (rt_db s) = Some r" "cw_status r = InProgress" "lock_find (row_key r) (rt_db s) = Some l" "lk_command l = i"
  then show "lock_find (row_key r) (release_meta_budget_target_lock c tok (rt_db s)) = Some l"
    by (intro release_state [where r = r]) auto
qed (simp_all add: release_meta_budget_target_lock_def sql_release_target_lock_def)

lemma create_cases:
  assumes v: "ledger_valid db" and new: "sql_cmd_get i db = None" and run: "sql_create_or_replay i n db = (r, db')"
  obtains "db' = db" | key where "db' = db\<lparr>db_commands := db_commands db @ [new_row i key n]\<rparr>" "ledger_valid db'"
proof (cases r)
  case (Inl e)
  with run have "db' = db"
    by (auto simp: sql_create_or_replay_def Let_def split: sum.splits option.splits if_splits)
  then show thesis by (rule that(1))
next
  case (Inr sub)
  show thesis
  proof (cases "sb_replayed sub")
    case True
    with create_replay_state [of i n db sub db'] run Inr that(1) show thesis by auto
  next
    case False
    with create_state [OF v new, of n sub db'] run Inr that(2) show thesis by metis
  qed
qed

lemma submit_keeps:
  assumes s: "lease_state s" and new: "sql_cmd_get i (rt_db s) = None"
    and run: "sql_create_or_replay i n (rt_db s) = (r, db)"
  shows "lease_state (s\<lparr>rt_db := db\<rparr>) \<and> (fenced_state s \<longrightarrow> fenced_state (s\<lparr>rt_db := db\<rparr>))"
  using lease_stateD(1) [OF s] new run
proof (cases rule: create_cases)
  case 1
  with s show ?thesis by simp
next
  case (2 key)
  have find: "cmd_find j db = (if j = i then Some (new_row i key n) else cmd_find j (rt_db s))" for j
    using new by (auto simp: sql_cmd_get_def cmd_find_def 2(1) find_append split: option.splits)
  have idle: "rt_phase s i = Idle" using lease_stateD(4) [OF s, of i] new by (auto simp: sql_cmd_get_def)
  have same: "lock_find k db = lock_find k (rt_db s)" "quarantine_find k db = quarantine_find k (rt_db s)" for k
    by (simp_all add: 2(1) lock_find_def quarantine_find_def)
  have busy: "j \<noteq> i" if "rt_phase s j \<noteq> Idle" for j using that idle by auto
  have "lease_state (s\<lparr>rt_db := db\<rparr>)"
  proof (rule lease_stateI)
    fix j tok x
    assume "window (rt_phase (s\<lparr>rt_db := db\<rparr>) j) = Some tok" "cmd_find j (rt_db (s\<lparr>rt_db := db\<rparr>)) = Some x"
    then have "window (rt_phase s j) = Some tok" "cmd_find j (rt_db s) = Some x"
      using busy [of j] window_busy [of "rt_phase s j" tok] find [of j] by (auto split: if_splits)
    from lease_stateD(5) [OF s this]
    show "\<exists>l. lock_find (row_key x) (rt_db (s\<lparr>rt_db := db\<rparr>)) = Some l \<and> lk_command l = j \<and> lk_token l = tok"
      by (simp add: same)
  qed (use 2 lease_stateD(2-4) [OF s] busy find in \<open>simp_all\<close>)
  moreover have "fenced_state (s\<lparr>rt_db := db\<rparr>)" if fen: "fenced_state s"
  proof (rule fenced_stateI)
    fix j tok x
    assume "window (rt_phase (s\<lparr>rt_db := db\<rparr>) j) = Some tok" "cmd_find j (rt_db (s\<lparr>rt_db := db\<rparr>)) = Some x"
    then have "window (rt_phase s j) = Some tok" "cmd_find j (rt_db s) = Some x"
      using busy [of j] window_busy [of "rt_phase s j" tok] find [of j] by (auto split: if_splits)
    from fenced_stateD(1) [OF fen this] show "quarantine_find (row_key x) (rt_db (s\<lparr>rt_db := db\<rparr>)) = None"
      by (simp add: same)
  next
    fix j x
    assume "cmd_find j (rt_db (s\<lparr>rt_db := db\<rparr>)) = Some x" and u: "cw_status x = Unknown"
    then have "cmd_find j (rt_db s) = Some x" using find [of j] by (auto split: if_splits)
    from fenced_stateD(2) [OF fen this u] show "\<exists>q. quarantine_find (row_key x) (rt_db (s\<lparr>rt_db := db\<rparr>)) = Some q \<and> qr_command q = j"
      by (simp add: same)
  qed
  ultimately show ?thesis by blast
qed

text \<open>The fence: touching rows keeps what the ledger promises, and the lease is confirmed.\<close>

lemma touch_valid:
  assumes v: "ledger_valid db" and c: "db_commands db' = update_rows p (\<lambda>x. x\<lparr>cw_updated := now\<rparr>) (db_commands db)"
    and "db_attempts db' = db_attempts db" "db_quarantines db' = db_quarantines db"
  shows "ledger_valid db'"
proof -
  have ids: "map cw_id (db_commands db') = map cw_id (db_commands db)" unfolding c by (rule map_update_rows_inv) simp
  have rows: "set (db_commands db') = (\<lambda>x. if p x then x\<lparr>cw_updated := now\<rparr> else x) ` set (db_commands db)"
    unfolding c by (auto simp: update_rows_def)
  have fit: "attempt_fits (db_commands db') a" if "attempt_fits (db_commands db) a" for a
  proof -
    from that obtain x where x: "x \<in> set (db_commands db)" "cw_id x = aw_command a" "aw_no a \<le> cw_attempt_count x"
      "cw_status x = InProgress \<longrightarrow> aw_no a < cw_attempt_count x" by (auto simp: attempt_fits_def)
    then show ?thesis unfolding attempt_fits_def rows
      by (intro bexI [of _ "if p x then x\<lparr>cw_updated := now\<rparr> else x"]) auto
  qed
  have fitq: "quarantine_fits (db_commands db') q" if "quarantine_fits (db_commands db) q" for q
  proof -
    from that obtain x where x: "x \<in> set (db_commands db)" "cw_id x = qr_command q" "row_key x = qr_key q"
      by (auto simp: quarantine_fits_def)
    then show ?thesis unfolding quarantine_fits_def rows
      by (intro bexI [of _ "if p x then x\<lparr>cw_updated := now\<rparr> else x"]) (auto simp: row_key_def)
  qed
  show ?thesis
    unfolding ledger_valid_def ids assms(3,4)
  proof (intro conjI ballI)
    show "distinct (map cw_id (db_commands db))" by (rule ledger_validD(1) [OF v])
  next
    fix x assume "x \<in> set (db_commands db')"
    then obtain y where y: "y \<in> set (db_commands db)" "cw_attempt_count x = cw_attempt_count y" "cw_status x = cw_status y"
      unfolding rows by auto
    show "0 \<le> cw_attempt_count x" "cw_status x = InProgress \<longrightarrow> 0 < cw_attempt_count x"
      using ledger_validD(2,3) [OF v y(1)] y(2,3) by simp_all
  next
    fix a assume "a \<in> set (db_attempts db)"
    then show "attempt_fits (db_commands db') a" by (intro fit ledger_validD(4) [OF v])
  next
    fix q assume "q \<in> set (db_quarantines db)"
    then show "quarantine_fits (db_commands db') q" by (intro fitq ledger_validD(5) [OF v])
  qed
qed

lemma fence_keeps:
  assumes s: "lease_state s" and ph: "rt_phase s i = Claimed tok" and g: "sql_cmd_get i (rt_db s) = Some c"
    and run: "renew_meta_budget_target_lock c tok now (rt_db s) = (None, db)"
  shows "lease_state (s\<lparr>rt_db := db, rt_phase := (rt_phase s)(i := Fenced tok)\<rparr>)
    \<and> (fenced_state s \<longrightarrow> fenced_state (s\<lparr>rt_db := db, rt_phase := (rt_phase s)(i := Fenced tok)\<rparr>))"
proof -
  let ?s' = "s\<lparr>rt_db := db, rt_phase := (rt_phase s)(i := Fenced tok)\<rparr>"
  have "rt_phase s i \<noteq> Idle" using ph by simp
  from lease_stateD(4) [OF s this] obtain r where r: "cmd_find i (rt_db s) = Some r" "cw_status r = InProgress" by blast
  have c: "cm_id c = i" "row_key r = target_key_of (cm_request c)"
    using g r cmd_findD [OF r(1)] by (auto elim!: sql_get_row simp: row_key_def)
  note f = renew_state [OF run lease_stateD(2) [OF s], unfolded c(1), OF r(1) c(2)]
  let ?r = "r\<lparr>cw_updated := now\<rparr>"
  have get: "cmd_find j db = (if j = i then Some ?r else cmd_find j (rt_db s))" for j
    by (rule rows_after [OF r(1), where p = "\<lambda>x. cw_status x = InProgress"]) (use r(2) f(3) in simp_all)
  have key: "row_key ?r = row_key r" by (simp add: row_key_def)
  have lock: "\<exists>l. lock_find k db = Some l \<and> lk_command l = j \<and> lk_token l = t"
    if "lock_find k (rt_db s) = Some l" "lk_command l = j" "lk_token l = t" for k l j t
    using f(7) [of k] that by (cases "lock_find k db") auto
  have quar: "quarantine_find k db = quarantine_find k (rt_db s)" for k by (simp add: quarantine_find_def f(5))
  have "lease_state ?s'"
  proof (rule lease_stateI)
    show "ledger_valid (rt_db ?s')" using touch_valid [OF lease_stateD(1) [OF s] f(3-5)] by simp
    fix j tok' x
    assume w: "window (rt_phase ?s' j) = Some tok'" "cmd_find j (rt_db ?s') = Some x"
    show "\<exists>l. lock_find (row_key x) (rt_db ?s') = Some l \<and> lk_command l = j \<and> lk_token l = tok'"
    proof (cases "j = i")
      case True
      then show ?thesis using w get f(2) key by auto
    next
      case False
      then have "window (rt_phase s j) = Some tok'" "cmd_find j (rt_db s) = Some x" using w get [of j] by auto
      then obtain l where l: "lock_find (row_key x) (rt_db s) = Some l" "lk_command l = j" "lk_token l = tok'"
        using lease_stateD(5) [OF s] by blast
      show ?thesis using lock [OF l] by simp
    qed
  next
    fix j assume "rt_phase ?s' j \<noteq> Idle"
    then show "\<exists>r. cmd_find j (rt_db ?s') = Some r \<and> cw_status r = InProgress"
      using get [of j] r(2) lease_stateD(4) [OF s, of j] by (cases "j = i") auto
  qed (use f(5,6) lease_stateD(3) [OF s] in simp_all)
  moreover have "fenced_state ?s'" if fen: "fenced_state s"
  proof (rule fenced_stateI)
    fix j tok' x
    assume w: "window (rt_phase ?s' j) = Some tok'" "cmd_find j (rt_db ?s') = Some x"
    show "quarantine_find (row_key x) (rt_db ?s') = None"
    proof (cases "j = i")
      case True
      then show ?thesis using w get f(1) key quar by auto
    next
      case False
      then have "window (rt_phase s j) = Some tok'" "cmd_find j (rt_db s) = Some x" using w get [of j] by auto
      from fenced_stateD(1) [OF fen this] show ?thesis by (simp add: quar)
    qed
  next
    fix j x
    assume w: "cmd_find j (rt_db ?s') = Some x" and u: "cw_status x = Unknown"
    then have "cmd_find j (rt_db s) = Some x" using get [of j] r(2) by (auto split: if_splits)
    from fenced_stateD(2) [OF fen this u] show "\<exists>q. quarantine_find (row_key x) (rt_db ?s') = Some q \<and> qr_command q = j"
      by (simp add: quar)
  qed
  ultimately show ?thesis by blast
qed

lemma post_keeps:
  assumes s: "lease_state s" and ph: "rt_phase s i = Fenced tok"
  shows "lease_state (s\<lparr>rt_phase := (rt_phase s)(i := Posted tok)\<rparr>)
    \<and> (fenced_state s \<longrightarrow> fenced_state (s\<lparr>rt_phase := (rt_phase s)(i := Posted tok)\<rparr>))"
proof -
  let ?s' = "s\<lparr>rt_phase := (rt_phase s)(i := Posted tok)\<rparr>"
  have w: "window (rt_phase ?s' j) = window (rt_phase s j)" "rt_phase ?s' j \<noteq> Idle \<longleftrightarrow> rt_phase s j \<noteq> Idle" for j
    using ph by auto
  have "lease_state ?s'" by (rule lease_stateI) (use lease_stateD [OF s] w in simp_all)
  moreover have "fenced_state ?s'" if fen: "fenced_state s"
    by (rule fenced_stateI) (use fenced_stateD [OF fen] w in simp_all)
  ultimately show ?thesis by blast
qed

lemma worker_keeps:
  assumes "worker_step s s'" "lease_state s"
  shows "lease_state s' \<and> (fenced_state s \<longrightarrow> fenced_state s')"
  using assms
proof cases
  case submit then show ?thesis using submit_keeps [OF assms(2)] by blast
next
  case acquire then show ?thesis using acquire_keeps [OF assms(2)] by blast
next
  case claim then show ?thesis using claim_keeps [OF assms(2)] by blast
next
  case fence then show ?thesis using fence_keeps [OF assms(2)] by blast
next
  case post then show ?thesis using post_keeps [OF assms(2)] by blast
next
  case finish then show ?thesis using finish_keeps [OF assms(2)] by blast
next
  case reconcile then show ?thesis using reconcile_keeps [OF assms(2)] by blast
next
  case release then show ?thesis using release_keeps [OF assms(2)] by blast
qed

section \<open>Offline recovery\<close>

lemma interrupted_row_simps [simp]:
  "cw_id (interrupted_row no t r) = cw_id r" "row_key (interrupted_row no t r) = row_key r"
  "cw_status (interrupted_row no t r) = Unknown" "cw_attempt_count (interrupted_row no t r) = no"
  by (simp_all add: interrupted_row_def row_key_def)

text \<open>On a valid ledger the recovery attempt takes the number of the interrupted attempt.\<close>

lemma recovery_attempt_no_eq:
  assumes v: "ledger_valid db" and r: "cmd_find i db = Some r" "cw_status r = InProgress"
  shows "recovery_attempt_no r db = cw_attempt_count r"
proof -
  have rD: "r \<in> set (db_commands db)" "cw_id r = i" using cmd_findD [OF r(1)] by auto
  have pos: "0 < cw_attempt_count r" by (rule ledger_validD(3) [OF v rD(1) r(2)])
  have "\<forall>n \<in> set (map aw_no (filter (\<lambda>a. aw_command a = cw_id r) (db_attempts db))). n < cw_attempt_count r"
    using attempt_of_row(2) [OF v r(1) _ _ r(2)] rD(2) by auto
  moreover have "\<forall>n \<in> set ns. n < b \<Longrightarrow> 0 < b \<Longrightarrow> foldr max ns 0 < b" for ns and b :: int
    by (induction ns) auto
  ultimately have "foldr max (map aw_no (filter (\<lambda>a. aw_command a = cw_id r) (db_attempts db))) 0 < cw_attempt_count r"
    using pos by blast
  then show ?thesis using pos by (simp add: recovery_attempt_no_def)
qed

lemma recover_one_state:
  assumes v: "ledger_valid db" and r: "cmd_find i db = Some r" "cw_status r = InProgress"
  obtains db' where "recover_one t r db = Inr db'" "ledger_valid db'"
    "\<And>j. cmd_find j db' = (if j = i then Some (interrupted_row (cw_attempt_count r) t r) else cmd_find j db)"
    "\<And>k. quarantine_find k db' = quarantine_after r t db k" "db_locks db' = filter (\<lambda>l. lk_command l \<noteq> i) (db_locks db)"
    "distinct (map qr_key (db_quarantines db)) \<Longrightarrow> distinct (map qr_key (db_quarantines db'))"
proof -
  have rD: "r \<in> set (db_commands db)" "cw_id r = i" using cmd_findD [OF r(1)] by auto
  let ?no = "cw_attempt_count r" and ?a = "interrupted_attempt r (cw_attempt_count r) t"
  note pos = ledger_validD(3) [OF v rD(1) r(2)]
  have a: "aw_command ?a = i" "aw_no ?a = ?no" "aw_outcome ?a = Unknown" "aw_before ?a = None" "aw_after ?a = None"
    by (simp_all add: interrupted_attempt_def rD(2))
  have "attempt_ok db ?a"
    unfolding attempt_ok_def a
  proof (intro conjI ballI notI)
    fix x assume "x \<in> set (db_attempts db)" "aw_command x = i \<and> aw_no x = ?no"
    with attempt_of_row(2) [OF v r(1), of x] r(2) show False by simp
  qed (use pos in \<open>simp_all add: nonneg_opt_def\<close>)
  then have ins: "insert_attempt ?a db = Inr (db\<lparr>db_attempts := db_attempts db @ [?a]\<rparr>)" by (simp add: insert_attempt_def)
  define db2 where "db2 = db\<lparr>db_attempts := db_attempts db @ [?a],
      db_commands := update_rows (\<lambda>x. cw_id x = cw_id r \<and> cw_status x = InProgress) (interrupted_row ?no t) (db_commands db)\<rparr>"
  have q2: "db_quarantines db2 = db_quarantines db" by (simp add: db2_def)
  obtain db3 where u: "upsert_target_quarantine r t db2 = Inr db3" "db_commands db3 = db_commands db2"
    "db_attempts db3 = db_attempts db2" "db_locks db3 = db_locks db2"
    and uq: "\<forall>q \<in> set (db_quarantines db3). q \<in> set (db_quarantines db)
        \<or> (\<exists>q0 \<in> set (db_quarantines db). qr_command q = qr_command q0 \<and> qr_key q = qr_key q0)
        \<or> (qr_command q = i \<and> qr_key q = row_key r)"
    and uf: "\<And>k. quarantine_find k db3 = quarantine_after r t db k"
    and ud: "distinct (map qr_key (db_quarantines db)) \<Longrightarrow> distinct (map qr_key (db_quarantines db3))"
    by (rule upsert_cases [OF v r(1) q2, of t]) blast
  let ?db' = "db3\<lparr>db_locks := filter (\<lambda>l. lk_command l \<noteq> i) (db_locks db3)\<rparr>"
  have c: "db_commands ?db' = update_rows (\<lambda>x. cw_id x = i \<and> cw_status x = InProgress) (interrupted_row ?no t) (db_commands db)"
    by (simp add: u(2) db2_def rD(2))
  show ?thesis
  proof (rule that [of ?db'])
    show "recover_one t r db = Inr ?db'"
      unfolding recover_one_def recovery_attempt_no_eq [OF v r] Let_def ins sum.case
      using u(1) by (simp add: db2_def rD(2))
    show "ledger_valid ?db'"
      by (rule valid_after_update [OF v r(1), where p = "\<lambda>x. cw_status x = InProgress" and as = "[?a]", OF r(2) _ _ c])
        (use u(3) uq a in \<open>simp_all add: db2_def\<close>)
    show "cmd_find j ?db' = (if j = i then Some (interrupted_row ?no t r) else cmd_find j db)" for j
      by (rule rows_after [OF r(1), where p = "\<lambda>x. cw_status x = InProgress", OF r(2) _ c]) simp
    show "quarantine_find k ?db' = quarantine_after r t db k" for k using uf [of k] by (simp add: quarantine_find_def)
    show "db_locks ?db' = filter (\<lambda>l. lk_command l \<noteq> i) (db_locks db)" by (simp add: u(4) db2_def)
    show "distinct (map qr_key (db_quarantines db)) \<Longrightarrow> distinct (map qr_key (db_quarantines ?db'))" using ud by simp
  qed
qed

definition recovered :: "cmd_row list \<Rightarrow> timestamp \<Rightarrow> cmd_db \<Rightarrow> cmd_db \<Rightarrow> bool" where
  "recovered rs t db db' \<longleftrightarrow> ledger_valid db'
     \<and> (\<forall>j. cmd_find j db' = map_option (\<lambda>x. if x \<in> set rs then interrupted_row (cw_attempt_count x) t x else x) (cmd_find j db))
     \<and> db_locks db' = filter (\<lambda>l. lk_command l \<notin> cw_id ` set rs) (db_locks db)
     \<and> (distinct (map qr_key (db_quarantines db)) \<longrightarrow> distinct (map qr_key (db_quarantines db')))
     \<and> (\<forall>k q. quarantine_find k db = Some q \<longrightarrow> (\<exists>q'. quarantine_find k db' = Some q' \<and> qr_command q' = qr_command q))
     \<and> (\<forall>r \<in> set rs. quarantine_find (row_key r) db' \<noteq> None)
     \<and> (\<forall>r \<in> set rs. quarantine_find (row_key r) db = None \<longrightarrow> (\<forall>x \<in> set rs. row_key x = row_key r \<longrightarrow> x = r) \<longrightarrow>
          (\<exists>q. quarantine_find (row_key r) db' = Some q \<and> qr_command q = cw_id r))"

lemma recoveredD:
  assumes "recovered rs t db db'"
  shows "ledger_valid db'"
    "\<And>j. cmd_find j db' = map_option (\<lambda>x. if x \<in> set rs then interrupted_row (cw_attempt_count x) t x else x) (cmd_find j db)"
    "db_locks db' = filter (\<lambda>l. lk_command l \<notin> cw_id ` set rs) (db_locks db)"
    "distinct (map qr_key (db_quarantines db)) \<Longrightarrow> distinct (map qr_key (db_quarantines db'))"
    "\<And>k q. quarantine_find k db = Some q \<Longrightarrow> \<exists>q'. quarantine_find k db' = Some q' \<and> qr_command q' = qr_command q"
    "\<And>r. r \<in> set rs \<Longrightarrow> quarantine_find (row_key r) db = None \<Longrightarrow> \<forall>x \<in> set rs. row_key x = row_key r \<longrightarrow> x = r \<Longrightarrow>
          \<exists>q. quarantine_find (row_key r) db' = Some q \<and> qr_command q = cw_id r"
  using assms unfolding recovered_def by blast+

lemma recovered_fenced: "recovered rs t db db' \<Longrightarrow> r \<in> set rs \<Longrightarrow> quarantine_find (row_key r) db' \<noteq> None"
  unfolding recovered_def by blast

lemma recover_all_state:
  assumes "ledger_valid db" "distinct (map cw_id rs)"
    and "\<And>r. r \<in> set rs \<Longrightarrow> cmd_find (cw_id r) db = Some r \<and> cw_status r = InProgress"
  shows "\<exists>db'. recover_all t rs n db = Inr (n + length rs, db') \<and> recovered rs t db db'"
  using assms
proof (induction rs arbitrary: n db)
  case Nil
  then show ?case by (simp add: recovered_def option.map_ident)
next
  case (Cons r rs)
  have r: "cmd_find (cw_id r) db = Some r" "cw_status r = InProgress" using Cons.prems(3) [of r] by simp_all
  obtain db1 where one: "recover_one t r db = Inr db1" "ledger_valid db1"
    and f1: "\<And>j. cmd_find j db1 = (if j = cw_id r then Some (interrupted_row (cw_attempt_count r) t r) else cmd_find j db)"
    and q1: "\<And>k. quarantine_find k db1 = quarantine_after r t db k"
    and l1: "db_locks db1 = filter (\<lambda>l. lk_command l \<noteq> cw_id r) (db_locks db)"
    and d1: "distinct (map qr_key (db_quarantines db)) \<Longrightarrow> distinct (map qr_key (db_quarantines db1))"
    by (rule recover_one_state [OF Cons.prems(1) r, of t]) blast
  have ids: "cw_id x \<noteq> cw_id r" if "x \<in> set rs" for x using Cons.prems(2) that by (auto simp: image_iff)
  have rest: "cmd_find (cw_id x) db1 = Some x \<and> cw_status x = InProgress" if "x \<in> set rs" for x
    using Cons.prems(3) [of x] that ids [OF that] by (simp add: f1)
  obtain db' where all: "recover_all t rs (n + 1) db1 = Inr (n + 1 + length rs, db')" "recovered rs t db1 db'"
    using Cons.IH [OF one(2), of "n + 1"] Cons.prems(2) rest by auto
  note rec = all(2) [unfolded recovered_def]
  have find: "cmd_find j db' = map_option (\<lambda>x. if x \<in> set (r # rs) then interrupted_row (cw_attempt_count x) t x else x) (cmd_find j db)"
    for j
  proof (cases "j = cw_id r")
    case True
    have "interrupted_row (cw_attempt_count r) t r \<notin> set rs"
    proof
      assume "interrupted_row (cw_attempt_count r) t r \<in> set rs"
      from ids [OF this] show False by simp
    qed
    with True rec f1 [of j] r(1) show ?thesis by simp
  next
    case False
    have "x \<noteq> r" if "cmd_find j db = Some x" for x using cmd_findD [OF that] False by auto
    with False rec f1 [of j] show ?thesis by (cases "cmd_find j db") auto
  qed
  have keep: "\<exists>q'. quarantine_find k db' = Some q' \<and> qr_command q' = qr_command q" if "quarantine_find k db = Some q" for k q
  proof -
    have "\<exists>q1. quarantine_find k db1 = Some q1 \<and> qr_command q1 = qr_command q"
      using q1 [of k] that by (simp add: quarantine_after_def)
    with rec show ?thesis by metis
  qed
  have own: "\<exists>q. quarantine_find (row_key x) db' = Some q \<and> qr_command q = cw_id x"
    if x: "x \<in> set (r # rs)" "quarantine_find (row_key x) db = None" "\<forall>y \<in> set (r # rs). row_key y = row_key x \<longrightarrow> y = x" for x
  proof (cases "x = r")
    case True
    then have "\<exists>q1. quarantine_find (row_key x) db1 = Some q1 \<and> qr_command q1 = cw_id x"
      using q1 [of "row_key x"] x(2) by (simp add: quarantine_after_def)
    with rec show ?thesis by metis
  next
    case False
    then have "row_key r \<noteq> row_key x" "x \<in> set rs" using x by auto
    moreover from this have "quarantine_find (row_key x) db1 = None" using q1 [of "row_key x"] x(2) by (simp add: quarantine_after_def)
    ultimately show ?thesis using rec x(3) by auto
  qed
  have "recovered (r # rs) t db db'"
    unfolding recovered_def
  proof (intro conjI)
    show "\<forall>j. cmd_find j db' = map_option (\<lambda>x. if x \<in> set (r # rs) then interrupted_row (cw_attempt_count x) t x else x) (cmd_find j db)"
      using find by blast
    have "db_locks db' = filter (\<lambda>l. lk_command l \<notin> cw_id ` set rs) (filter (\<lambda>l. lk_command l \<noteq> cw_id r) (db_locks db))"
      using rec l1 by simp
    then show "db_locks db' = filter (\<lambda>l. lk_command l \<notin> cw_id ` set (r # rs)) (db_locks db)"
      by (simp add: conj_commute)
    show "distinct (map qr_key (db_quarantines db)) \<longrightarrow> distinct (map qr_key (db_quarantines db'))" using rec d1 by blast
    show "\<forall>k q. quarantine_find k db = Some q \<longrightarrow> (\<exists>q'. quarantine_find k db' = Some q' \<and> qr_command q' = qr_command q)"
      using keep by blast
    show "\<forall>x \<in> set (r # rs). quarantine_find (row_key x) db' \<noteq> None"
    proof
      fix x assume x: "x \<in> set (r # rs)"
      show "quarantine_find (row_key x) db' \<noteq> None"
      proof (cases "x = r")
        case True
        then have "quarantine_find (row_key x) db1 \<noteq> None" using q1 [of "row_key x"]
          by (cases "quarantine_find (row_key x) db") (simp_all add: quarantine_after_def)
        with recoveredD(5) [OF all(2)] show ?thesis by fastforce
      next
        case False
        with x recovered_fenced [OF all(2)] show ?thesis by simp
      qed
    qed
    show "\<forall>x \<in> set (r # rs). quarantine_find (row_key x) db = None \<longrightarrow> (\<forall>y \<in> set (r # rs). row_key y = row_key x \<longrightarrow> y = x) \<longrightarrow>
          (\<exists>q. quarantine_find (row_key x) db' = Some q \<and> qr_command q = cw_id x)"
      using own by blast
  qed (use rec in blast)
  with one(1) all(1) show ?case by (intro exI [of _ db']) simp
qed

lemma recovery_state:
  assumes v: "ledger_valid db"
  obtains db' where "sql_recover_interrupted True t db = (Inr (sql_count_interrupted db), db')"
    "recovered (sort_key cw_updated (filter (\<lambda>r. cw_status r = InProgress) (db_commands db))) t db db'"
proof -
  let ?rs = "sort_key cw_updated (filter (\<lambda>r. cw_status r = InProgress) (db_commands db))"
  have "distinct (map cw_id (filter (\<lambda>r. cw_status r = InProgress) (db_commands db)))"
    by (rule distinct_map_filter [OF ledger_validD(1) [OF v]])
  then have d: "distinct (map cw_id ?rs)" by (simp add: distinct_map)
  have m: "cmd_find (cw_id r) db = Some r \<and> cw_status r = InProgress" if "r \<in> set ?rs" for r
    using that find_key_unique [OF ledger_validD(1) [OF v], of r "cw_id r"] by (auto simp: cmd_find_def)
  obtain db' where "recover_all t ?rs 0 db = Inr (0 + length ?rs, db')" "recovered ?rs t db db'"
    using recover_all_state [OF v d m, of t 0] by blast
  then show ?thesis by (intro that [of db']) (simp_all add: sql_recover_interrupted_def sql_count_interrupted_def)
qed

lemma recovery_keeps:
  assumes s: "lease_state s" and step: "recovery_step s s'"
  shows "lease_state s' \<and> (recoverable (rt_db s) \<longrightarrow> fenced_state s \<longrightarrow> fenced_state s')"
proof -
  let ?rs = "sort_key cw_updated (filter (\<lambda>r. cw_status r = InProgress) (db_commands (rt_db s)))"
  from step obtain t n db where run: "sql_recover_interrupted True t (rt_db s) = (Inr n, db)"
    and s': "s' = s\<lparr>rt_db := db, rt_held := {}, rt_phase := (\<lambda>_. Idle)\<rparr>" by (auto simp: recovery_step_def)
  obtain db1 where "sql_recover_interrupted True t (rt_db s) = (Inr (sql_count_interrupted (rt_db s)), db1)"
    "recovered ?rs t (rt_db s) db1" by (rule recovery_state [OF lease_stateD(1) [OF s], of t])
  with run have rec: "recovered ?rs t (rt_db s) db" by simp
  have "lease_state s'"
    by (rule lease_stateI) (use rec lease_stateD(2,3) [OF s] in \<open>simp_all add: s' recovered_def distinct_map_filter\<close>)
  moreover have "fenced_state s'" if ok: "recoverable (rt_db s)" and fen: "fenced_state s"
  proof (rule fenced_stateI)
    fix i r assume r: "cmd_find i (rt_db s') = Some r" and u: "cw_status r = Unknown"
    then obtain x where x: "cmd_find i (rt_db s) = Some x"
      and rx: "r = (if x \<in> set ?rs then interrupted_row (cw_attempt_count x) t x else x)"
      using rec by (auto simp: s' recovered_def)
    have xD: "x \<in> set (db_commands (rt_db s))" "cw_id x = i" using cmd_findD [OF x] by auto
    show "\<exists>q. quarantine_find (row_key r) (rt_db s') = Some q \<and> qr_command q = i"
    proof (cases "x \<in> set ?rs")
      case True
      then have p: "cw_status x = InProgress" by simp
      have "quarantine_find (row_key x) (rt_db s) = None" "\<forall>y \<in> set ?rs. row_key y = row_key x \<longrightarrow> y = x"
        using ok xD(1) p by (auto simp: recoverable_def)
      from recoveredD(6) [OF rec True this] xD(2) rx True show ?thesis by (simp add: s')
    next
      case False
      then have "r = x" by (simp only: rx if_False)
      with u have "cw_status x = Unknown" by simp
      from fenced_stateD(2) [OF fen x this] obtain q where q: "quarantine_find (row_key x) (rt_db s) = Some q" "qr_command q = i"
        by blast
      from recoveredD(5) [OF rec q(1)] q(2) rx False show ?thesis by (simp add: s')
    qed
  qed (simp add: s')
  ultimately show ?thesis by blast
qed

section \<open>Every run\<close>

lemma rt_init_state: "rt_init s \<Longrightarrow> lease_state s \<and> fenced_state s"
  by (simp add: rt_init_def lease_state_def fenced_state_def busy_inv_def lease_inv_def clear_inv_def unknown_inv_def
      ledger_valid_def cmd_find_def)

interpretation leases: safe_system rt_init rt_step lease_state
  by unfold_locales (auto simp: rt_init_state rt_step_def dest: worker_keeps recovery_keeps)

interpretation fences: safe_system rt_init fenced_step "\<lambda>s. lease_state s \<and> fenced_state s"
  by unfold_locales (auto simp: rt_init_state fenced_step_def dest: worker_keeps recovery_keeps)

end
