(* ===== verification/Provider_Theorems.thy ===== *)
theory Provider_Theorems
  imports Provider_Sql_Laws
begin

text \<open>
  What the provider budget service promises over the SQL ledger: the properties of
  \<open>execute\<close>, \<open>reconcile\<close> and the quarantine, read off the lemmas of the
  \<open>command_store\<close> locale through its interpretation \<open>sql_commands\<close>.
\<close>

section \<open>An example run\<close>

text \<open>
  A provider that keeps one amount: a read shows it, a write replaces it.  The clock and the
  digest are the simplest functions of their types; the live re-authorization confirms the
  example's actor.
\<close>

definition ex_exec :: exec_auth where
  "ex_exec = \<lparr>ea_actor = ex_actor, ea_tenant = ex_tenant, ea_credential = ex_cred, ea_provider_account = ''12345'',
     ea_feature = True, ea_rollout = True, ea_binding = True, ea_spend_cap = False\<rparr>"

definition ex_read :: "request \<Rightarrow> nat \<Rightarrow> (exn + snapshot) \<times> nat" where
  "ex_read q w = (Inr \<lparr>sn_target_type = rq_target_type q, sn_target_id = rq_target_id q,
     sn_provider_account = rq_provider_account q, sn_field = rq_field q, sn_amount = int w,
     sn_currency = rq_currency q, sn_observed_at = 0, sn_trace = None\<rparr>, w)"

definition ex_env :: "nat saga_env" where
  "ex_env = \<lparr>ev_read = ex_read, ev_write = (\<lambda>q w. (Inr \<lparr>rc_accepted = True, rc_trace = None\<rparr>, nat (rq_amount q))),
     ev_before_write = None, ev_reauthorize = Some (\<lambda>c w. (Inr ex_exec, w)), ev_sha256 = (\<lambda>s. s),
     ev_isofmt = (\<lambda>t. ''1970-01-01T00:00:00+00:00'')\<rparr>"

text \<open>The same provider, whose write fails with an open outcome after it took effect.\<close>

definition ex_env_lost :: "nat saga_env" where
  "ex_env_lost = ex_env\<lparr>ev_write := (\<lambda>q w. (Inl (provider_write_outcome_unknown ''timeout'' ''lost'' None), nat (rq_amount q)))\<rparr>"

lemma ex_env_ok: "env_ok ex_env" and ex_env_lost_ok: "env_ok ex_env_lost"
  by (simp_all add: env_ok_def ex_env_def ex_env_lost_def ex_read_def)

definition ex_creation :: creation where
  "ex_creation = \<lparr>cn_request = ex_request, cn_actor = 9, cn_auth = budget_authorization_snapshot ex_actor ex_request,
     cn_cred = budget_credential_audit_snapshot ex_cred, cn_key = ''key-0001'', cn_request_hash = ''r'',
     cn_preview_hash = ''p'', cn_before = 5000, cn_now = 0\<rparr>"

definition ex_start :: "(cmd_db, nat) saga" where
  "ex_start = \<lparr>sg_store = \<lparr>db_commands = [], db_attempts = [], db_locks = [], db_quarantines = []\<rparr>,
     sg_world = 5000, sg_posts = []\<rparr>"

definition ex_queued_db :: cmd_db where
  "ex_queued_db = \<lparr>db_commands = [new_row 100 ''key-0001'' ex_creation], db_attempts = [], db_locks = [], db_quarantines = []\<rparr>"

definition ex_queued :: "(cmd_db, nat) saga" where
  "ex_queued = ex_start\<lparr>sg_store := ex_queued_db\<rparr>"

lemma ex_submit: "so_create sql_cmd_ops 100 ex_creation (sg_store ex_start)
    = (Inr \<lparr>sb_command = sql_to_command ex_queued_db (new_row 100 ''key-0001'' ex_creation), sb_replayed = False\<rparr>, ex_queued_db)"
  by code_simp

text \<open>A command whose stored snapshots are those of its present context matches it.\<close>

lemma context_matches_same:
  "cm_auth c = budget_authorization_snapshot a (cm_request c) \<Longrightarrow> cm_cred c = budget_credential_audit_snapshot cr \<Longrightarrow>
     context_matches sha256 isofmt c a cr = None"
  by (simp add: context_matches_def guard_simps)

lemma ex_final_gate:
  "cm_request c = ex_request \<Longrightarrow> cm_actor c = 9 \<Longrightarrow> cm_auth c = budget_authorization_snapshot ex_actor ex_request \<Longrightarrow>
   cm_cred c = budget_credential_audit_snapshot ex_cred \<Longrightarrow> final_gate env c ex_exec = None"
  by (simp add: final_gate_def guard_simps ex_exec_def ex_may_write context_matches_same)
    (simp add: ex_actor_def ex_request_def)

definition ex_claimed_db :: cmd_db where
  "ex_claimed_db = snd (sql_claim_queued 100 10 ex_queued_db)"

definition ex_claimed :: command where
  "ex_claimed = sql_to_command ex_claimed_db (claimed_row 10 (new_row 100 ''key-0001'' ex_creation))"

lemma ex_claim: "so_claim sql_cmd_ops 100 10 ex_queued_db = (Inr ex_claimed, ex_claimed_db)"
  by code_simp

lemma ex_claimed_facts:
  "cm_request ex_claimed = ex_request" "cm_actor ex_claimed = 9" "cm_before ex_claimed = 5000" "cm_id ex_claimed = 100"
  "cm_auth ex_claimed = budget_authorization_snapshot ex_actor ex_request"
  "cm_cred ex_claimed = budget_credential_audit_snapshot ex_cred" "cm_attempt_count ex_claimed = 1"
  by (simp_all add: ex_claimed_def sql_to_command_def claimed_row_def new_row_def ex_creation_def)

lemma ex_amounts: "rq_amount ex_request = 12000" "rq_expected ex_request = None"
  by (simp_all add: ex_request_def)

lemma ex_snapshot_matches:
  "snapshot_matches_request \<lparr>sn_target_type = rq_target_type q, sn_target_id = rq_target_id q,
     sn_provider_account = rq_provider_account q, sn_field = rq_field q, sn_amount = n,
     sn_currency = rq_currency q, sn_observed_at = t, sn_trace = tr\<rparr> q = None"
  by (simp add: snapshot_matches_request_def guard_simps)

lemma ex_gate: "gate_step ex_env ex_claimed l s = (None,
    l\<lparr>lo_gate_attempted := True, lo_final := Some ex_exec, lo_actor := ea_actor ex_exec,
      lo_credential := ea_credential ex_exec, lo_gate_verified := True\<rparr>, s\<lparr>sg_world := sg_world s\<rparr>)"
  by (simp add: gate_step_def ex_env_def ex_final_gate ex_claimed_facts)

definition ex_locals :: locals where
  "ex_locals = \<lparr>lo_before = Some 5000, lo_after = Some 12000, lo_trace = None, lo_error = None, lo_status = Applied,
     lo_accepted = True, lo_actor = ex_actor, lo_credential = ex_cred, lo_final = Some ex_exec,
     lo_gate_attempted = True, lo_gate_verified = True\<rparr>"

lemma ex_attempt:
  "run_attempt ex_env ex_claimed ex_actor ex_cred (ex_queued\<lparr>sg_store := ex_claimed_db\<rparr>)
     = (ex_locals, \<lparr>sg_store = ex_claimed_db, sg_world = 12000, sg_posts = [(100, ex_request)]\<rparr>)"
proof -
  have env: "ev_read ex_env = ex_read" "ev_before_write ex_env = None"
    "ev_write ex_env = (\<lambda>q w. (Inr \<lparr>rc_accepted = True, rc_trace = None\<rparr>, nat (rq_amount q)))"
    by (simp_all add: ex_env_def)
  show ?thesis
    by (simp add: run_attempt_def try_body_def preflight_step_def hook_step_def write_step_def readback_step_def
        env ex_read_def ex_gate ex_snapshot_matches ex_claimed_facts ex_amounts ex_queued_def ex_start_def
        initial_locals_def Let_def handle_exn_def or_str_def ex_locals_def ex_exec_def)
qed

definition ex_executed_db :: cmd_db where
  "ex_executed_db = snd (sql_finish_execution 100 (execution_finish ex_claimed 10 20 ex_locals) ex_claimed_db)"

definition ex_applied :: command where
  "ex_applied = sql_to_command ex_executed_db
     (finished_row (execution_finish ex_claimed 10 20 ex_locals) (claimed_row 10 (new_row 100 ''key-0001'' ex_creation)))"

definition ex_executed :: "(cmd_db, nat) saga" where
  "ex_executed = \<lparr>sg_store = ex_executed_db, sg_world = 12000, sg_posts = [(100, ex_request)]\<rparr>"

lemma ex_finish:
  "so_finish sql_cmd_ops 100 (execution_finish ex_claimed 10 20 ex_locals) ex_claimed_db = (Inr ex_applied, ex_executed_db)"
  by code_simp

lemma ex_guards:
  "cm_request c = ex_request \<Longrightarrow> cm_actor c = 9 \<Longrightarrow> cm_auth c = budget_authorization_snapshot ex_actor ex_request \<Longrightarrow>
   cm_cred c = budget_credential_audit_snapshot ex_cred \<Longrightarrow> execute_guards env c ex_actor ex_tenant ex_cred = None"
  by (simp add: execute_guards_def guard_simps ex_may_write context_matches_same) (simp add: ex_actor_def)

lemma ex_queued_get:
  "so_get sql_cmd_ops 100 ex_queued_db = Some (sql_to_command ex_queued_db (new_row 100 ''key-0001'' ex_creation))"
  by (simp add: sql_cmd_ops_def sql_cmd_get_def cmd_find_def ex_queued_db_def)

lemma ex_queued_guards:
  "execute_guards env (sql_to_command ex_queued_db (new_row 100 ''key-0001'' ex_creation)) ex_actor ex_tenant ex_cred = None"
  by (rule ex_guards) (simp_all add: sql_to_command_def new_row_def ex_creation_def)

lemma ex_execute: "saga_execute sql_cmd_ops ex_env 100 ex_actor ex_tenant ex_cred 10 20 ex_queued = (Inr ex_applied, ex_executed)"
  using ex_attempt ex_finish ex_claim ex_queued_guards [of ex_env] ex_queued_get
  by (simp add: saga_execute_def ex_queued_def ex_executed_def)

lemma ex_executed_facts:
  "cm_status ex_applied = Applied" "sg_posts ex_executed = [(100, ex_request)]" "cm_request ex_applied = ex_request"
  by (simp_all add: ex_applied_def ex_executed_def execution_finish_def ex_locals_def sql_to_command_def finished_row_def
      claimed_row_def new_row_def ex_creation_def)

lemma ex_start_valid: "ledger_valid (sg_store ex_start)"
  by (simp add: ex_start_def ledger_valid_def)

lemma ex_creation_wf: "creation_wf ex_creation"
  by code_simp

lemma ex_submitted: "saga_step sql_cmd_ops env ex_start ex_queued"
proof -
  have "so_get sql_cmd_ops 100 (sg_store ex_start) = None" by code_simp
  from step_submit [OF this ex_creation_wf ex_submit] show ?thesis by (simp add: ex_queued_def)
qed

lemma ex_queued_valid: "ledger_valid (sg_store ex_queued)"
proof -
  have "so_get sql_cmd_ops 100 (sg_store ex_start) = None" by code_simp
  from sql_commands.create_new [OF ex_start_valid this ex_creation_wf ex_submit] show ?thesis by (simp add: ex_queued_def)
qed

lemma ex_reachable:
  "reachable (saga_init ledger_valid) (saga_step sql_cmd_ops ex_env) ex_executed"
proof -
  have "reachable (saga_init ledger_valid) (saga_step sql_cmd_ops ex_env) ex_start"
    by (rule reachable.intros) (simp add: saga_init_def ex_start_valid, simp add: ex_start_def)
  then have "reachable (saga_init ledger_valid) (saga_step sql_cmd_ops ex_env) ex_queued"
    by (rule reachable.intros) (rule ex_submitted)
  then show ?thesis
    by (rule reachable.intros) (rule step_execute [OF ex_execute])
qed

lemma sql_ops_get: "so_get sql_cmd_ops = sql_cmd_get"
  by (simp add: sql_cmd_ops_def)

section \<open>One write per command\<close>

text \<open>
  C1: However requests, executions, crashes and reconciliations interleave over the SQL ledger, at
  most one provider write is ever sent for a command, and only for a command of the ledger that has
  left the queue, with the request the ledger holds.
\<close>
theorem write_at_most_once:
  assumes "env_ok env" and "reachable (saga_init ledger_valid) (saga_step sql_cmd_ops env) s"
  shows "length (posts_for i s) \<le> 1 \<and> (\<forall>p \<in> set (sg_posts s). \<exists>c. sql_cmd_get (fst p) (sg_store s) = Some c
      \<and> cm_status c \<noteq> Queued \<and> snd p = cm_request c)"
  using sql_commands.reachable_saga_inv [OF assms] by (simp add: saga_inv_def sql_cmd_ops_def)

lemma write_at_most_once_witness:
  "posts_for 100 ex_executed = [(100, ex_request)] \<and> length (posts_for 100 ex_executed) \<le> 1"
  using write_at_most_once [OF ex_env_ok ex_reachable, of 100] ex_executed_facts(2) by (simp add: posts_for_def)

section \<open>execute\<close>
lemma sql_get_id: "ledger_valid db \<Longrightarrow> sql_cmd_get i db = Some c \<Longrightarrow> cm_id c = i"
  using sql_commands.get_id [of db i c] by (simp add: sql_cmd_ops_def)





section \<open>reconcile\<close>

text \<open>The status a provider read gives, as one equation.\<close>

definition read_status :: "command \<Rightarrow> bool \<Rightarrow> exn + snapshot \<Rightarrow> command_status" where
  "read_status c finalize rd = (case rd of Inl _ \<Rightarrow> Unknown
     | Inr sn \<Rightarrow> if snapshot_matches_request sn (cm_request c) \<noteq> None then Unknown
         else if sn_amount sn = rq_amount (cm_request c) then Applied
         else if finalize then Conflict else Unknown)"

lemma reconcile_read_status: "fst (reconcile_read c finalize rd) = read_status c finalize rd"
proof (cases rd)
  case (Inl e)
  then show ?thesis by (cases e) (simp_all add: reconcile_read_def read_status_def)
next
  case (Inr sn)
  show ?thesis
  proof (cases "snapshot_matches_request sn (cm_request c)")
    case None
    with Inr show ?thesis by (simp add: reconcile_read_def read_status_def Let_def)
  next
    case (Some e)
    with Inr show ?thesis by (cases e) (simp_all add: reconcile_read_def read_status_def)
  qed
qed

text \<open>
  C9: Reconciliation sends no write, whatever it returns.  It either changes nothing, or it found
  the command unknown and its caller authorized, and records what the provider read shows:
  \<open>applied\<close> exactly when a matching snapshot carries the requested amount, \<open>conflict\<close>
  exactly when it carries another amount and the mismatch was to be finalized, and otherwise
  \<open>unknown\<close> again.
\<close>
theorem reconcile_never_posts:
  assumes v: "ledger_valid (sg_store s)" and ok: "env_ok env"
    and x: "saga_reconcile sql_cmd_ops env i a t cr finalize t0 t1 s = (r, s')"
  shows "sg_posts s' = sg_posts s \<and> (case r of
      Inl e \<Rightarrow> s' = s
    | Inr c \<Rightarrow> \<exists>c0. sql_cmd_get i (sg_store s) = Some c0 \<and> cm_status c0 = Unknown \<and> same_facts c c0
        \<and> authorize_budget_reconciliation (cm_request c0) a t cr = None
        \<and> cm_status c = read_status c0 finalize (fst (ev_read env (cm_request c0) (sg_world s)))
        \<and> (\<forall>j. sql_cmd_get j (sg_store s') = (if j = i then Some c else sql_cmd_get j (sg_store s))))"
  using v ok x
proof (cases rule: sql_commands.reconcile_cases)
  case (ran c0 c rd w)
  have "authorize_budget_reconciliation (cm_request c0) a t cr = None"
    using ran(3) by (simp add: reconcile_guards_def guard_simps)
  with ran show ?thesis by (auto simp: sql_cmd_ops_def reconcile_read_status intro!: exI [of _ c0])
qed simp

text \<open>A lost answer: the provider took the write, the attempt is recorded as unknown.\<close>

definition ex_lost_locals :: locals where
  "ex_lost_locals = ex_locals\<lparr>lo_after := None, lo_status := Unknown, lo_accepted := False,
     lo_error := Some (plain_error ''timeout'' ''lost'')\<rparr>"

definition ex_lost_finish :: finish where
  "ex_lost_finish = execution_finish ex_claimed 10 20 ex_lost_locals"

definition ex_lost_db :: cmd_db where
  "ex_lost_db = snd (sql_finish_execution 100 ex_lost_finish ex_claimed_db)"

definition ex_lost :: "(cmd_db, nat) saga" where
  "ex_lost = \<lparr>sg_store = ex_lost_db, sg_world = 12000, sg_posts = [(100, ex_request)]\<rparr>"

lemma ex_claimed_valid: "ledger_valid ex_claimed_db"
  by code_simp

lemma ex_lost_wf: "finish_wf ex_lost_finish (cm_attempt_count ex_claimed)"
  by (simp add: finish_wf_def ex_lost_finish_def execution_finish_def ex_lost_locals_def ex_locals_def
      ex_claimed_facts nonneg_opt_def)

lemma ex_lost_valid: "ledger_valid ex_lost_db"
  by code_simp

definition ex_unknown :: command where
  "ex_unknown = sql_to_command ex_lost_db (finished_row ex_lost_finish (claimed_row 10 (new_row 100 ''key-0001'' ex_creation)))"

lemma ex_unknown_get: "sql_cmd_get 100 ex_lost_db = Some ex_unknown"
  by code_simp

lemma ex_unknown_guards: "reconcile_guards ex_unknown ex_actor ex_tenant ex_cred = None"
  by code_simp

lemma ex_unknown_facts: "cm_request ex_unknown = ex_request" "cm_status ex_unknown = Unknown"
  by (simp_all add: ex_unknown_def ex_lost_finish_def execution_finish_def ex_lost_locals_def new_row_def
      claimed_row_def finished_row_def ex_creation_def)

lemma reconcile_never_posts_witness:
  "\<exists>c s'. saga_reconcile sql_cmd_ops ex_env 100 ex_actor ex_tenant ex_cred False 30 40 ex_lost = (Inr c, s')
     \<and> sg_posts s' = sg_posts ex_lost \<and> cm_status c = Applied"
proof -
  have v: "ledger_valid (sg_store ex_lost)" by (simp add: ex_lost_def ex_lost_valid)
  have g: "sql_cmd_get 100 (sg_store ex_lost) = Some ex_unknown" by (simp add: ex_lost_def ex_unknown_get)
  obtain c s' where x: "saga_reconcile sql_cmd_ops ex_env 100 ex_actor ex_tenant ex_cred False 30 40 ex_lost = (Inr c, s')"
    using sql_commands.reconcile_total [OF v ex_env_ok _ ex_unknown_guards, of 100 False 30 40] g
    unfolding sql_ops_get by blast
  from reconcile_never_posts [OF v ex_env_ok x] g have p: "sg_posts s' = sg_posts ex_lost"
    and st: "cm_status c = read_status ex_unknown False (fst (ev_read ex_env (cm_request ex_unknown) (sg_world ex_lost)))"
    by auto
  have "read_status ex_unknown False (fst (ev_read ex_env (cm_request ex_unknown) (sg_world ex_lost))) = Applied"
    by (simp add: read_status_def ex_unknown_facts ex_lost_def ex_env_def ex_read_def ex_snapshot_matches ex_amounts)
  with x p st show ?thesis by simp
qed

section \<open>Quarantine\<close>

text \<open>
  A command in progress that finishes as unknown leaves its target quarantined: from then on no
  submission for the target creates a command (it is refused, or replays an old one and changes
  nothing), and no other command can take the target's lease.
\<close>
theorem unknown_fences_target:
  assumes v: "ledger_valid db" and c0: "sql_cmd_get i db = Some c0" "cm_status c0 = InProgress"
    and f: "finish_wf f (cm_attempt_count c0)" "fi_status f = Unknown"
    and run: "sql_finish_execution i f db = (r, db')"
    and n: "target_key_of (cn_request n) = target_key_of (cm_request c0)"
    and d: "target_key_of (cm_request d) = target_key_of (cm_request c0)"
  shows "sql_target_quarantine_command_id (cm_request c0) db' \<noteq> None
    \<and> (case sql_create_or_replay j n db' of (Inl e, db'') \<Rightarrow> db'' = db' | (Inr sub, db'') \<Rightarrow> sb_replayed sub \<and> db'' = db')
    \<and> sql_acquire_target_lock d False now token db' = (None, db')"
proof -
  obtain rw where r: "cmd_find i db = Some rw" "c0 = sql_to_command db rw" using c0(1) by (rule sql_get_row)
  have key: "row_key rw = target_key_of (cm_request c0)" using r(2) by (simp add: row_key_def)
  have q: "quarantine_find (row_key rw) db' \<noteq> None"
  proof -
    obtain db3 where s3: "sql_finish_execution i f db = (Inr (sql_to_command db3 (finished_row f rw)), db3)"
      "\<And>k. quarantine_find k db3 = (if fi_status f = Unknown then quarantine_after rw (fi_now f) db k else quarantine_find k db)"
    proof (rule finish_state [OF v r(1), of f])
      show "cw_status rw = InProgress" "finish_wf f (cw_attempt_count rw)" "fi_status f \<in> {Applied, Conflict, Failed, Unknown}"
        using c0(2) f r(2) by simp_all
    qed blast
    then show ?thesis using run f(2) by (auto simp: quarantine_after_def split: option.splits)
  qed
  have "case sql_create_or_replay j n db' of (Inl e, db'') \<Rightarrow> db'' = db' | (Inr sub, db'') \<Rightarrow> sb_replayed sub \<and> db'' = db'"
    using q key n by (auto simp: sql_create_or_replay_def Let_def split: sum.splits option.splits)
  moreover have "sql_acquire_target_lock d False now token db' = (None, db')"
    using q key d by (auto simp: sql_acquire_target_lock_def Let_def)
  ultimately show ?thesis using q key by (simp add: sql_target_quarantine_command_id_def)
qed

lemma unknown_fences_target_witness:
  "sql_acquire_target_lock ex_claimed False 30 1 ex_lost_db = (None, ex_lost_db)
     \<and> sql_target_quarantine_command_id ex_request ex_lost_db \<noteq> None"
proof -
  have g: "sql_cmd_get 100 ex_claimed_db = Some ex_claimed" by code_simp
  have st: "cm_status ex_claimed = InProgress" by code_simp
  have fs: "fi_status ex_lost_finish = Unknown" by code_simp
  have run: "sql_finish_execution 100 ex_lost_finish ex_claimed_db
      = (fst (sql_finish_execution 100 ex_lost_finish ex_claimed_db), ex_lost_db)"
    by (simp add: ex_lost_db_def)
  have k: "target_key_of (cn_request ex_creation) = target_key_of (cm_request ex_claimed)" by code_simp
  from unknown_fences_target [OF ex_claimed_valid g st ex_lost_wf fs run k refl, of 1 30 1] show ?thesis
    by (simp add: ex_claimed_facts)
qed

section \<open>Submissions\<close>

text \<open>
  C35: An idempotency key creates one command: after a submission created it, the same key of the
  same client replays that command and changes nothing when the request hash is the same, and is
  refused when it differs, whatever id the second call would have used.
\<close>
theorem replay_idempotent:
  assumes v: "ledger_valid db" and new: "sql_cmd_get i db = None"
    and run: "sql_create_or_replay i n db = (Inr sub, db')" "\<not> sb_replayed sub"
    and same: "rq_client (cn_request n2) = rq_client (cn_request n)" "cn_key n2 = cn_key n"
  shows "sql_create_or_replay j n2 db' = (if cn_request_hash n2 = cn_request_hash n
      then (Inr \<lparr>sb_command = sb_command sub, sb_replayed = True\<rparr>, db') else (Inl err_idempotency, db'))"
proof -
  obtain key where key: "validate_idempotency_key (cn_key n) = Inr key"
    using run by (auto simp: sql_create_or_replay_def split: sum.splits)
  have none: "find (\<lambda>r. rq_client (cw_request r) = rq_client (cn_request n) \<and> cw_key r = key) (db_commands db) = None"
    using run key by (auto simp: sql_create_or_replay_def split: option.splits if_splits)
  have db': "db' = db\<lparr>db_commands := db_commands db @ [new_row i key n]\<rparr>"
    and sub: "sb_command sub = sql_to_command db' (new_row i key n)"
    using run key none by (auto simp: sql_create_or_replay_def Let_def split: option.splits if_splits)
  have row: "cw_key (new_row i key n) = key" "cw_request_hash (new_row i key n) = cn_request_hash n"
    by (simp_all add: new_row_def)
  have "find (\<lambda>r. rq_client (cw_request r) = rq_client (cn_request n2) \<and> cw_key r = key) (db_commands db') = Some (new_row i key n)"
    using none same by (simp add: db' find_append row)
  with key same sub row show ?thesis by (auto simp: sql_create_or_replay_def)
qed

lemma replay_idempotent_witness:
  "sql_create_or_replay 101 ex_creation ex_queued_db = (Inr
     \<lparr>sb_command = sql_to_command ex_queued_db (new_row 100 ''key-0001'' ex_creation), sb_replayed = True\<rparr>, ex_queued_db)"
proof -
  have new: "sql_cmd_get 100 (sg_store ex_start) = None" by code_simp
  have run: "sql_create_or_replay 100 ex_creation (sg_store ex_start)
    = (Inr \<lparr>sb_command = sql_to_command ex_queued_db (new_row 100 ''key-0001'' ex_creation), sb_replayed = False\<rparr>, ex_queued_db)"
    using ex_submit by (simp add: sql_cmd_ops_def)
  from replay_idempotent [OF ex_start_valid new run _ refl refl, of 101] show ?thesis by simp
qed

section \<open>Every execution past the guards ends\<close>



section \<open>A write recorded as failed\<close>

text \<open>
  A provider whose read-back snapshot does not pass the snapshot's own validation: the adapter raises
  \<open>BudgetValidationError\<close>, which is a \<open>ProviderBudgetCommandError\<close> but not a
  \<open>ProviderBudgetError\<close>.
\<close>

definition late_error :: exn where
  "late_error = BudgetValidationError ''invalid_currency'' ''Provider snapshot currency is invalid''"

definition ex_env_late :: "nat saga_env" where
  "ex_env_late = ex_env\<lparr>ev_read := (\<lambda>q w. if w = 5000 then ex_read q w else (Inl late_error, w))\<rparr>"

definition ex_late_locals :: locals where
  "ex_late_locals = handle_exn (Some late_error) (ex_locals\<lparr>lo_after := None, lo_status := Unknown\<rparr>)"

lemma ex_late_attempt:
  "run_attempt ex_env_late ex_claimed ex_actor ex_cred (ex_queued\<lparr>sg_store := ex_claimed_db\<rparr>)
     = (ex_late_locals, \<lparr>sg_store = ex_claimed_db, sg_world = 12000, sg_posts = [(100, ex_request)]\<rparr>)"
proof -
  have env: "ev_read ex_env_late = (\<lambda>q w. if w = 5000 then ex_read q w else (Inl late_error, w))"
    "ev_before_write ex_env_late = None"
    "ev_write ex_env_late = (\<lambda>q w. (Inr \<lparr>rc_accepted = True, rc_trace = None\<rparr>, nat (rq_amount q)))"
    by (simp_all add: ex_env_late_def ex_env_def)
  have gate: "gate_step ex_env_late ex_claimed l s = gate_step ex_env ex_claimed l s" for l and s :: "(cmd_db, nat) saga"
    by (simp add: gate_step_def ex_env_late_def ex_env_def final_gate_def)
  show ?thesis
    by (simp add: run_attempt_def try_body_def preflight_step_def hook_step_def write_step_def readback_step_def
        env ex_read_def gate ex_gate ex_snapshot_matches ex_claimed_facts ex_amounts ex_queued_def ex_start_def
        initial_locals_def Let_def or_str_def ex_late_locals_def ex_locals_def ex_exec_def)
qed


end
