(* ===== verification/Provider_Runtime_Theorems.thy ===== *)
theory Provider_Runtime_Theorems
  imports Provider_Runtime Provider_Theorems
begin

text \<open>
  What the lease flow of the provider budget routes promises, and where it stops: the properties
  of every run of the workers of \<open>Provider_Runtime\<close>, and of offline recovery.
\<close>

section \<open>An example run\<close>

text \<open>A command that goes through the flow and loses the answer of its write.\<close>

definition ex_rt0 :: runtime where
  "ex_rt0 = \<lparr>rt_db = sg_store ex_start, rt_held = {}, rt_phase = (\<lambda>_. Idle)\<rparr>"

definition ex_leased_db :: cmd_db where
  "ex_leased_db = snd (acquire_meta_budget_target_lock (sql_to_command ex_queued_db (new_row 100 ''key-0001'' ex_creation))
     False 5 7 ex_queued_db)"

definition ex_running_db :: cmd_db where
  "ex_running_db = snd (sql_claim_queued 100 10 ex_leased_db)"

definition ex_fenced_db :: cmd_db where
  "ex_fenced_db = snd (renew_meta_budget_target_lock ex_claimed 7 12 ex_running_db)"

definition ex_posted :: runtime where
  "ex_posted = \<lparr>rt_db = ex_fenced_db, rt_held = {(100, 7)}, rt_phase = (\<lambda>_. Idle)(100 := Posted 7)\<rparr>"

definition ex_open_db :: cmd_db where
  "ex_open_db = snd (sql_finish_execution 100 ex_lost_finish ex_fenced_db)"

definition ex_open :: runtime where
  "ex_open = \<lparr>rt_db = ex_open_db, rt_held = {(100, 7)}, rt_phase = (\<lambda>_. Idle)\<rparr>"

lemma inr_step: "\<not> isl (fst p) \<Longrightarrow> p = (Inr (projr (fst p)), snd p)"
  by (cases p) (auto simp: isl_def split: sum.splits)

lemma ex_posted_run: "worker_step\<^sup>*\<^sup>* ex_rt0 ex_posted"
proof -
  let ?c = "sql_to_command ex_queued_db (new_row 100 ''key-0001'' ex_creation)"
  let ?s1 = "ex_rt0\<lparr>rt_db := ex_queued_db\<rparr>"
  let ?s2 = "?s1\<lparr>rt_db := ex_leased_db, rt_held := {(100, 7)}\<rparr>"
  let ?s3 = "?s2\<lparr>rt_db := ex_running_db, rt_phase := (\<lambda>_. Idle)(100 := Claimed 7)\<rparr>"
  let ?s4 = "?s3\<lparr>rt_db := ex_fenced_db, rt_phase := (\<lambda>_. Idle)(100 := Fenced 7)\<rparr>"
  have none: "sql_cmd_get 100 (sg_store ex_start) = None" by code_simp
  have "worker_step ex_rt0 ?s1"
    using worker_step.submit [of 100 ex_rt0] none ex_submit by (simp add: ex_rt0_def sql_cmd_ops_def)
  moreover have "worker_step ?s1 ?s2"
  proof -
    have "acquire_meta_budget_target_lock ?c False 5 7 ex_queued_db = (Some 7, ex_leased_db)"
      unfolding ex_leased_db_def by code_simp
    from worker_step.acquire [of 100 ?s1 ?c False 5 7 7 ex_leased_db] this ex_queued_get
    show ?thesis by (simp add: ex_rt0_def sql_cmd_ops_def)
  qed
  moreover have "worker_step ?s2 ?s3"
  proof -
    have "\<not> isl (fst (sql_claim_queued 100 10 ex_leased_db))" by code_simp
    from inr_step [OF this] worker_step.claim [of 100 7 ?s2 10 _ ex_running_db]
    show ?thesis by (simp add: ex_rt0_def ex_running_db_def)
  qed
  moreover have "worker_step ?s3 ?s4"
  proof -
    have "sql_cmd_get 100 ex_running_db = Some ex_claimed" by code_simp
    moreover have "renew_meta_budget_target_lock ex_claimed 7 12 ex_running_db = (None, ex_fenced_db)"
      unfolding ex_fenced_db_def by code_simp
    ultimately show ?thesis using worker_step.fence [of ?s3 100 7 ex_claimed 12 ex_fenced_db] by (simp add: ex_rt0_def)
  qed
  moreover have "worker_step ?s4 ex_posted"
    using worker_step.post [of ?s4 100 7] by (simp add: ex_rt0_def ex_posted_def)
  ultimately show ?thesis by (meson converse_rtranclp_into_rtranclp rtranclp.rtrancl_refl)
qed

lemma ex_open_run: "worker_step\<^sup>*\<^sup>* ex_rt0 ex_open"
proof -
  have g: "sql_cmd_get 100 ex_fenced_db = Some (the (sql_cmd_get 100 ex_fenced_db))" by code_simp
  have wf: "finish_wf ex_lost_finish (cm_attempt_count (the (sql_cmd_get 100 ex_fenced_db)))" by code_simp
  have "\<not> isl (fst (sql_finish_execution 100 ex_lost_finish ex_fenced_db))" by code_simp
  from inr_step [OF this] have f: "sql_finish_execution 100 ex_lost_finish ex_fenced_db
      = (Inr (projr (fst (sql_finish_execution 100 ex_lost_finish ex_fenced_db))), ex_open_db)"
    by (simp add: ex_open_db_def)
  have db: "rt_db ex_posted = ex_fenced_db" by (simp add: ex_posted_def)
  have "worker_step ex_posted (ex_posted\<lparr>rt_db := ex_open_db, rt_phase := (rt_phase ex_posted)(100 := Idle)\<rparr>)"
    by (rule worker_step.finish [OF _ g [folded db] wf [folded db] _ f [folded db]]) (simp_all add: ex_posted_def)
  moreover have "ex_posted\<lparr>rt_db := ex_open_db, rt_phase := (rt_phase ex_posted)(100 := Idle)\<rparr> = ex_open"
    by (auto simp: ex_posted_def ex_open_def)
  ultimately have "worker_step ex_posted ex_open" by simp
  with ex_posted_run show ?thesis by simp
qed

lemma reach_run: "step\<^sup>*\<^sup>* s t \<Longrightarrow> reachable init step s \<Longrightarrow> reachable init step t"
  by (induction rule: rtranclp_induct) (auto intro: reach_step)

lemma ex_rt0_init: "rt_init ex_rt0"
  by (simp add: rt_init_def ex_rt0_def ex_start_def)

lemma workers_run:
  assumes "worker_step\<^sup>*\<^sup>* s t"
  shows "rt_step\<^sup>*\<^sup>* s t" "fenced_step\<^sup>*\<^sup>* s t"
  using assms by (auto elim!: mono_rtranclp [rule_format, rotated] simp: rt_step_def fenced_step_def)

lemma ex_posted_reachable: "reachable rt_init rt_step ex_posted"
  using reach_run [OF workers_run(1) [OF ex_posted_run] reach_init [of rt_init, OF ex_rt0_init]] .

lemma ex_open_reachable: "reachable rt_init fenced_step ex_open"
  using reach_run [OF workers_run(2) [OF ex_open_run] reach_init [of rt_init, OF ex_rt0_init]] .

section \<open>One writer per target\<close>

text \<open>
  C3: However confirmations, stalls, expired leases, reconciliations and offline recoveries
  interleave, two workers whose fence passed and whose attempt has not ended never work on the same
  target: between the fence and the end of its attempt a worker is alone on its target.
\<close>
theorem target_write_exclusion:
  assumes "reachable rt_init rt_step s"
    and "window (rt_phase s i) = Some tok" "window (rt_phase s j) = Some tok'"
    and "sql_cmd_get i (rt_db s) = Some c" "sql_cmd_get j (rt_db s) = Some c'"
    and "target_key_of (cm_request c) = target_key_of (cm_request c')"
  shows "i = j"
proof -
  have s: "lease_state s" by (rule leases.reachable_inv [OF assms(1)])
  obtain r where r: "cmd_find i (rt_db s) = Some r" "c = sql_to_command (rt_db s) r" using assms(4) by (rule sql_get_row)
  obtain r' where r': "cmd_find j (rt_db s) = Some r'" "c' = sql_to_command (rt_db s) r'" using assms(5) by (rule sql_get_row)
  have "row_key r = row_key r'" using assms(6) r(2) r'(2) by (simp add: row_key_def)
  with window_unique [OF s assms(2,3) r(1) r'(1)] show ?thesis by simp
qed

lemma target_write_exclusion_witness:
  "\<exists>c. sql_cmd_get 100 (rt_db ex_posted) = Some c \<and> (\<forall>j tok c'. window (rt_phase ex_posted j) = Some tok
     \<longrightarrow> sql_cmd_get j (rt_db ex_posted) = Some c' \<longrightarrow> target_key_of (cm_request c') = target_key_of (cm_request c) \<longrightarrow> 100 = j)"
proof -
  have g: "sql_cmd_get 100 (rt_db ex_posted) = Some (the (sql_cmd_get 100 ex_fenced_db))" unfolding ex_posted_def by code_simp
  have w: "window (rt_phase ex_posted 100) = Some 7" by (simp add: ex_posted_def)
  have "100 = j" if "window (rt_phase ex_posted j) = Some tok" "sql_cmd_get j (rt_db ex_posted) = Some c'"
    "target_key_of (cm_request c') = target_key_of (cm_request (the (sql_cmd_get 100 ex_fenced_db)))" for j tok c'
    by (rule target_write_exclusion [OF ex_posted_reachable w that(1) g that(2) that(3) [symmetric]])
  with g show ?thesis by blast
qed

text \<open>
  C7: While every offline recovery starts from a recoverable ledger, a command whose outcome is
  unknown owns the quarantine of its target: nobody can take the lease of the target for a new
  write, renew one, or be past its fence on that target.
\<close>
theorem unknown_always_fenced:
  assumes "reachable rt_init fenced_step s"
    and "sql_cmd_get i (rt_db s) = Some c" "cm_status c = Unknown"
    and "target_key_of (cm_request d) = target_key_of (cm_request c)"
  shows "sql_target_quarantine_command_id (cm_request c) (rt_db s) = Some i
    \<and> fst (acquire_meta_budget_target_lock d False now token (rt_db s)) = None
    \<and> fst (renew_meta_budget_target_lock d tok now (rt_db s)) = Some lock_lost
    \<and> (sql_cmd_get j (rt_db s) = Some d \<longrightarrow> window (rt_phase s j) = None)"
proof -
  have s: "lease_state s" "fenced_state s" using fences.reachable_inv [OF assms(1)] by blast+
  obtain r where r: "cmd_find i (rt_db s) = Some r" "c = sql_to_command (rt_db s) r" using assms(2) by (rule sql_get_row)
  have key: "row_key r = target_key_of (cm_request c)" using r(2) by (simp add: row_key_def)
  have "cw_status r = Unknown" using assms(3) r(2) by simp
  from fenced_stateD(2) [OF s(2) r(1) this] obtain q where
    q: "quarantine_find (target_key_of (cm_request c)) (rt_db s) = Some q" "qr_command q = i"
    unfolding key by blast
  have own: "sql_target_quarantine_command_id (cm_request c) (rt_db s) = Some i"
    using q by (simp add: sql_target_quarantine_command_id_def)
  have acq: "fst (acquire_meta_budget_target_lock d False now token (rt_db s)) = None"
    using q assms(4) by (simp add: acquire_meta_budget_target_lock_def sql_target_quarantine_command_id_def)
  have "q \<in> set (db_quarantines (rt_db s)) \<and> qr_key q = target_key_of (cm_request d)"
    using q(1) assms(4) by (auto simp: quarantine_find_def dest: find_SomeD)
  then have "filter (renewable d tok (rt_db s)) (db_locks (rt_db s)) = []"
    by (auto simp: filter_empty_conv renewable_def)
  then have "fst (sql_renew_target_lock d tok now (rt_db s)) = False"
    unfolding sql_renew_target_lock_def Let_def by simp
  then have ren: "fst (renew_meta_budget_target_lock d tok now (rt_db s)) = Some lock_lost"
    by (cases "sql_renew_target_lock d tok now (rt_db s)") (simp add: renew_meta_budget_target_lock_def guard_simps)
  have "window (rt_phase s j) = None" if d: "sql_cmd_get j (rt_db s) = Some d"
  proof (rule ccontr)
    assume "window (rt_phase s j) \<noteq> None"
    then obtain tk where w: "window (rt_phase s j) = Some tk" by auto
    obtain x where x: "cmd_find j (rt_db s) = Some x" "d = sql_to_command (rt_db s) x" using d by (rule sql_get_row)
    then have "row_key x = target_key_of (cm_request c)" using assms(4) by (simp add: row_key_def)
    with fenced_stateD(1) [OF s(2) w x(1)] q(1) show False by simp
  qed
  with own acq ren show ?thesis by blast
qed

lemma unknown_always_fenced_witness:
  "sql_target_quarantine_command_id ex_request (rt_db ex_open) = Some 100
    \<and> fst (acquire_meta_budget_target_lock ex_claimed False 900000000000 8 (rt_db ex_open)) = None"
proof -
  have g: "sql_cmd_get 100 (rt_db ex_open) = Some (the (sql_cmd_get 100 ex_open_db))" unfolding ex_open_def by code_simp
  have u: "cm_status (the (sql_cmd_get 100 ex_open_db)) = Unknown" by code_simp
  have q: "cm_request (the (sql_cmd_get 100 ex_open_db)) = ex_request" by code_simp
  have k: "target_key_of (cm_request ex_claimed) = target_key_of (cm_request (the (sql_cmd_get 100 ex_open_db)))"
    unfolding q ex_claimed_facts ..
  from unknown_always_fenced [OF ex_open_reachable g u k, of 900000000000 8] show ?thesis unfolding q by blast
qed

section \<open>When an attempt ends as unknown\<close>

fun open_outcome :: "exn option \<Rightarrow> bool" where
  "open_outcome (Some (ProviderWriteOutcomeUnknown _)) = True"
| "open_outcome _ = False"

text \<open>Of the calls an execution makes, only the provider write reports an open outcome.\<close>

definition calm_env :: "'w saga_env \<Rightarrow> bool" where
  "calm_env env \<longleftrightarrow> (\<forall>q w e. fst (ev_read env q w) = Inl e \<longrightarrow> \<not> open_outcome (Some e))
     \<and> (\<forall>hook c w. ev_before_write env = Some hook \<longrightarrow> \<not> open_outcome (fst (hook c w)))
     \<and> (\<forall>re c w e. ev_reauthorize env = Some re \<longrightarrow> fst (re c w) = Inl e \<longrightarrow> \<not> open_outcome (Some e))"

lemma open_raise_if [simp]: "open_outcome (raise_if b e) \<longleftrightarrow> b \<and> open_outcome (Some e)"
  by (simp add: raise_if_def)

lemma open_policy [simp]: "\<not> open_outcome (policy b code msg)"
  by (simp add: policy_def)

lemma closed_first_error: "\<forall>g \<in> set gs. \<not> open_outcome g \<Longrightarrow> \<not> open_outcome (first_error gs)"
  by (cases "first_error gs") (auto dest: first_error_Some_mem)

lemma closed_authorize: "\<not> open_outcome (authorize_budget_write q a t cr)"
  unfolding authorize_budget_write_def tenant_policy_def solo_policy_def agency_policy_def admin_policy_def
  by (intro closed_first_error) (cases "a_role a"; simp add: closed_first_error)

lemma closed_snapshot: "\<not> open_outcome (snapshot_matches_request sn q)"
  unfolding snapshot_matches_request_def by (rule closed_first_error) (simp add: provider_budget_error_def)

lemma closed_gate: "\<not> open_outcome (final_gate env c fa)"
proof -
  have "\<not> open_outcome (context_matches sha iso c a cr)" for sha iso a cr
    unfolding context_matches_def by (rule closed_first_error) simp
  then show ?thesis unfolding final_gate_def by (intro closed_first_error) (simp add: closed_authorize)
qed

lemma calm_envD:
  assumes "calm_env env"
  shows "ev_read env q w = (Inl e, w') \<Longrightarrow> \<not> open_outcome (Some e)"
    "ev_before_write env = Some hook \<Longrightarrow> hook c w = (x, w') \<Longrightarrow> \<not> open_outcome x"
    "ev_reauthorize env = Some re \<Longrightarrow> re c w = (Inl e, w') \<Longrightarrow> \<not> open_outcome (Some e)"
  using assms unfolding calm_env_def by (metis fst_conv)+

lemma closed_preflight:
  assumes calm: "calm_env env" and run: "preflight_step env c l s = (x, l', s')"
  shows "\<not> open_outcome x"
proof (cases "ev_read env (cm_request c) (sg_world s)")
  case (Pair rd w)
  show ?thesis
  proof (cases rd)
    case (Inl e)
    with calm_envD(1) [OF calm, of "cm_request c" "sg_world s" e w] Pair run show ?thesis by (auto simp: preflight_step_def)
  next
    case (Inr sn)
    have "\<not> open_outcome (snapshot_matches_request sn (cm_request c))" by (rule closed_snapshot)
    with Inr Pair run show ?thesis
      by (cases "snapshot_matches_request sn (cm_request c)") (auto simp: preflight_step_def Let_def split: if_splits)
  qed
qed

lemma closed_hook: "calm_env env \<Longrightarrow> hook_step env c l s = (x, l', s') \<Longrightarrow> \<not> open_outcome x"
  using calm_envD(2) [of env] by (auto simp: hook_step_def split: prod.splits option.splits)

lemma closed_gate_step:
  assumes calm: "calm_env env" and run: "gate_step env c l s = (x, l', s')"
  shows "\<not> open_outcome x"
proof (cases "ev_reauthorize env")
  case None
  with run show ?thesis by (simp add: gate_step_def)
next
  case (Some re)
  obtain ans w where re: "re c (sg_world s) = (ans, w)" by (cases "re c (sg_world s)")
  show ?thesis
  proof (cases ans)
    case (Inl e)
    with calm_envD(3) [OF calm Some, of c "sg_world s" e w] re Some run show ?thesis by (auto simp: gate_step_def)
  next
    case (Inr fa)
    have "\<not> open_outcome (final_gate env c fa)" by (rule closed_gate)
    with Inr re Some run show ?thesis by (cases "final_gate env c fa") (auto simp: gate_step_def Let_def)
  qed
qed

lemma handle_closed: "\<not> open_outcome (Some e) \<Longrightarrow> \<not> lo_accepted l \<Longrightarrow> lo_status (handle_exn (Some e) l) \<noteq> Unknown"
  by (cases e) (simp_all add: handle_exn_def)

lemma run_attempt_unknown:
  assumes calm: "calm_env env" and run: "run_attempt env c a cr s = (l, s')" and u: "lo_status l = Unknown"
  shows "sg_posts s' = sg_posts s @ [post_of c]"
proof (rule ccontr)
  assume np: "sg_posts s' \<noteq> sg_posts s @ [post_of c]"
  obtain x l0 where t: "try_body env c (initial_locals a cr) s = (x, l0, s')" and l: "l = handle_exn x l0"
    using run by (auto simp: run_attempt_def split: prod.splits)
  from t np obtain e where e: "x = Some e" "\<not> lo_accepted l0" by (cases rule: try_body_cases) auto
  obtain x1 l1 s1 where p: "preflight_step env c (initial_locals a cr) s = (x1, l1, s1)" by (metis prod_cases3)
  obtain x2 l2 s2 where h: "hook_step env c l1 s1 = (x2, l2, s2)" by (metis prod_cases3)
  obtain x3 l3 s3 where g: "gate_step env c l2 s2 = (x3, l3, s3)" by (metis prod_cases3)
  obtain x4 l4 s4 where w: "write_step env c l3 s3 = (x4, l4, s4)" by (metis prod_cases3)
  obtain x5 l5 s5 where b: "readback_step env c l4 s4 = (x5, l5, s5)" by (metis prod_cases3)
  have "\<not> open_outcome x"
  proof (cases "x1 = None \<and> x2 = None \<and> x3 = None")
    case True
    then have "sg_posts s' = sg_posts s @ [post_of c]"
      using t p h g w b preflight_frame [OF p] hook_frame [OF h] gate_frame [OF g] write_frame [OF w] readback_frame [OF b]
      by (cases x4) (auto simp: try_body_def post_of_def)
    with np show ?thesis by simp
  next
    case False
    then show ?thesis
      using t p h g closed_preflight [OF calm p] closed_hook [OF calm h] closed_gate_step [OF calm g]
      by (cases x1; cases x2; cases x3) (auto simp: try_body_def)
  qed
  with handle_closed [of e l0] e l u show False by simp
qed

text \<open>
  An execution that ends as unknown has sent its write, whenever reads, the lease renewal and
  the live re-authorization never report an open write outcome themselves.
\<close>
theorem unknown_needs_post:
  assumes v: "ledger_valid (sg_store s)" and ok: "env_ok env" and calm: "calm_env env"
    and x: "saga_execute sql_cmd_ops env i a t cr t0 t1 s = (Inr c, s')" and u: "cm_status c = Unknown"
  shows "sg_posts s' = sg_posts s @ [(i, cm_request c)]"
  using v ok x
proof (cases rule: sql_commands.execute_cases)
  case (ran c0 c1 l st s2 c2)
  have "lo_status l = Unknown" using ran(6,8) u by simp
  from run_attempt_unknown [OF calm ran(5) this] have p: "sg_posts s' = sg_posts s @ [post_of c1]" using ran(11) by simp
  have "cm_id c0 = i" using sql_get_id [OF v, of i c0] ran(1) by (simp add: sql_cmd_ops_def)
  with p ran(4,6,7) show ?thesis by (simp add: post_of_def same_facts_def)
qed simp

lemma ex_env_lost_calm: "calm_env ex_env_lost"
  by (simp add: calm_env_def ex_env_lost_def ex_env_def ex_read_def)

lemma unknown_needs_post_witness:
  "\<exists>c s'. saga_execute sql_cmd_ops ex_env_lost 100 ex_actor ex_tenant ex_cred 10 20 ex_queued = (Inr c, s')
     \<and> cm_status c = Unknown \<and> sg_posts s' = sg_posts ex_queued @ [(100, cm_request c)]"
proof -
  obtain l s2 where att: "run_attempt ex_env_lost ex_claimed ex_actor ex_cred (ex_queued\<lparr>sg_store := ex_claimed_db\<rparr>) = (l, s2)"
    "lo_status l = Unknown" "sg_store s2 = ex_claimed_db" "lo_before l = Some 5000" "lo_after l = None"
  proof -
    have env: "ev_read ex_env_lost = ex_read" "ev_before_write ex_env_lost = None"
      "ev_write ex_env_lost = (\<lambda>q w. (Inl (provider_write_outcome_unknown ''timeout'' ''lost'' None), nat (rq_amount q)))"
      by (simp_all add: ex_env_lost_def ex_env_def)
    have gate: "gate_step ex_env_lost ex_claimed l s = gate_step ex_env ex_claimed l s" for l and s :: "(cmd_db, nat) saga"
      by (simp add: gate_step_def ex_env_lost_def ex_env_def final_gate_def)
    show ?thesis
      by (rule that [OF surjective_pairing])
        (simp_all add: run_attempt_def try_body_def preflight_step_def hook_step_def write_step_def
          env ex_read_def gate ex_gate ex_snapshot_matches ex_claimed_facts ex_amounts ex_queued_def ex_start_def
          initial_locals_def Let_def handle_exn_def provider_write_outcome_unknown_def)
  qed
  let ?f = "execution_finish ex_claimed 10 20 l"
  have "finish_wf ?f (cm_attempt_count ex_claimed)"
    using att by (simp add: finish_wf_def execution_finish_def nonneg_opt_def ex_claimed_facts)
  moreover have "so_get sql_cmd_ops 100 ex_claimed_db = Some ex_claimed" "cm_status ex_claimed = InProgress"
    by code_simp+
  ultimately obtain c db where fin: "so_finish sql_cmd_ops 100 ?f ex_claimed_db = (Inr c, db)" "cm_status c = fi_status ?f"
    using sql_commands.finish_ok [OF ex_claimed_valid, of 100 ex_claimed ?f] att(2) by (auto simp: execution_finish_def)
  have x: "saga_execute sql_cmd_ops ex_env_lost 100 ex_actor ex_tenant ex_cred 10 20 ex_queued = (Inr c, s2\<lparr>sg_store := db\<rparr>)"
    using att(1,3) ex_claim ex_queued_guards [of ex_env_lost] ex_queued_get fin(1)
    by (simp add: saga_execute_def ex_queued_def)
  have u: "cm_status c = Unknown" using fin(2) att(2) by (simp add: execution_finish_def)
  from unknown_needs_post [OF ex_queued_valid ex_env_lost_ok ex_env_lost_calm x u] x u show ?thesis by blast
qed

section \<open>Offline recovery\<close>

lemma recovered_command:
  assumes "recovered (sort_key cw_updated (filter (\<lambda>r. cw_status r = InProgress) (db_commands db))) t db db'" "sql_cmd_get i db = Some c"
  shows "\<exists>c'. sql_cmd_get i db' = Some c' \<and> same_facts c' c \<and> cm_attempt_count c' = cm_attempt_count c
    \<and> cm_status c' = (if cm_status c = InProgress then Unknown else cm_status c)
    \<and> (cm_status c = InProgress \<longrightarrow> sql_target_quarantine_command_id (cm_request c) db' \<noteq> None
         \<and> (\<forall>l \<in> set (db_locks db'). lk_command l \<noteq> i))"
proof -
  let ?rs = "sort_key cw_updated (filter (\<lambda>r. cw_status r = InProgress) (db_commands db))"
  note rec = assms(1)
  obtain r where r: "cmd_find i db = Some r" "c = sql_to_command db r" using assms(2) by (rule sql_get_row)
  have rD: "r \<in> set (db_commands db)" "cw_id r = i" using cmd_findD [OF r(1)] by auto
  let ?r = "if r \<in> set ?rs then interrupted_row (cw_attempt_count r) t r else r"
  have "cmd_find i db' = Some ?r" unfolding recoveredD(2) [OF rec] r(1) by (simp only: option.map)
  then have g: "sql_cmd_get i db' = Some (sql_to_command db' ?r)" by (simp add: sql_cmd_get_def)
  have "same_facts (sql_to_command db' ?r) c" "cm_attempt_count (sql_to_command db' ?r) = cm_attempt_count c"
    "cm_status (sql_to_command db' ?r) = (if cm_status c = InProgress then Unknown else cm_status c)"
    using rD r(2) by (simp_all add: same_facts_def sql_to_command_def interrupted_row_def)
  moreover have "sql_target_quarantine_command_id (cm_request c) db' \<noteq> None \<and> (\<forall>l \<in> set (db_locks db'). lk_command l \<noteq> i)"
    if p: "cm_status c = InProgress"
  proof -
    have m: "r \<in> set ?rs" using p rD r(2) by simp
    then have "\<forall>l \<in> set (db_locks db'). lk_command l \<noteq> i" using rD(2) by (auto simp: recoveredD(3) [OF rec])
    with recovered_fenced [OF rec m] r(2) show ?thesis
      by (simp add: sql_target_quarantine_command_id_def row_key_def)
  qed
  ultimately show ?thesis using g by blast
qed

lemma recovered_none_running:
  assumes rec: "recovered (sort_key cw_updated (filter (\<lambda>r. cw_status r = InProgress) (db_commands db))) t db db'"
  shows "sql_count_interrupted db' = 0"
proof -
  let ?rs = "sort_key cw_updated (filter (\<lambda>r. cw_status r = InProgress) (db_commands db))"
  have "cw_status x \<noteq> InProgress" if x: "x \<in> set (db_commands db')" for x
  proof -
    have "cmd_find (cw_id x) db' = Some x"
      using find_key_unique [OF ledger_validD(1) [OF recoveredD(1) [OF rec]] x] by (simp add: cmd_find_def)
    then obtain r where r: "cmd_find (cw_id x) db = Some r" "x = (if r \<in> set ?rs then interrupted_row (cw_attempt_count r) t r else r)"
      unfolding recoveredD(2) [OF rec] by auto
    show ?thesis
    proof (cases "r \<in> set ?rs")
      case True
      then have "x = interrupted_row (cw_attempt_count r) t r" by (simp only: r(2) if_True)
      then show ?thesis by simp
    next
      case False
      then have "x = r" by (simp only: r(2) if_False)
      with False cmd_findD [OF r(1)] show ?thesis by simp
    qed
  qed
  then show ?thesis by (auto simp: sql_count_interrupted_def filter_empty_conv)
qed

text \<open>
  C11: Offline recovery of a valid ledger always succeeds and counts what it closed: every command in
  progress becomes unknown with its attempt number kept, no lease of it is left, its target is
  quarantined, and every other command keeps its status, its attempts' count and its facts.
\<close>
theorem recovery_total:
  assumes "ledger_valid db"
  shows "\<exists>db'. sql_recover_interrupted True t db = (Inr (sql_count_interrupted db), db') \<and> ledger_valid db'
    \<and> sql_count_interrupted db' = 0
    \<and> (\<forall>i c. sql_cmd_get i db = Some c \<longrightarrow> (\<exists>c'. sql_cmd_get i db' = Some c' \<and> same_facts c' c
         \<and> cm_attempt_count c' = cm_attempt_count c
         \<and> cm_status c' = (if cm_status c = InProgress then Unknown else cm_status c)
         \<and> (cm_status c = InProgress \<longrightarrow> sql_target_quarantine_command_id (cm_request c) db' \<noteq> None
              \<and> (\<forall>l \<in> set (db_locks db'). lk_command l \<noteq> i))))"
proof -
  let ?rs = "sort_key cw_updated (filter (\<lambda>r. cw_status r = InProgress) (db_commands db))"
  obtain db' where run: "sql_recover_interrupted True t db = (Inr (sql_count_interrupted db), db')"
    and rec: "recovered ?rs t db db'" by (rule recovery_state [OF assms, of t])
  show ?thesis using run recovered_command [OF rec] recovered_none_running [OF rec] recoveredD(1) [OF rec] by blast
qed

lemma recovery_total_witness:
  "\<exists>db'. sql_recover_interrupted True 30 ex_claimed_db = (Inr 1, db') \<and> sql_count_interrupted db' = 0"
proof -
  have n: "sql_count_interrupted ex_claimed_db = 1" by code_simp
  obtain db' where "sql_recover_interrupted True 30 ex_claimed_db = (Inr (sql_count_interrupted ex_claimed_db), db')"
    "sql_count_interrupted db' = 0" using recovery_total [OF ex_claimed_valid, of 30] by blast
  then show ?thesis unfolding n by blast
qed

section \<open>Where recovery loses a fence\<close>

text \<open>
  Two commands of one target, both in progress: the first worker stalls between its lease and its
  claim until the lease expires, the second takes the lease over, claims and passes its fence, and
  the first claims before both die.
\<close>

definition ex_creation2 :: creation where
  "ex_creation2 = ex_creation\<lparr>cn_key := ''key-0002'', cn_request_hash := ''r2'', cn_preview_hash := ''p2''\<rparr>"

definition ex_creation3 :: creation where
  "ex_creation3 = ex_creation\<lparr>cn_key := ''key-0003'', cn_request_hash := ''r3'', cn_preview_hash := ''p3''\<rparr>"

text \<open>The reconciliation of a command whose requested amount was read.\<close>

definition gap_finish :: "int \<Rightarrow> finish" where
  "gap_finish no = (execution_finish ex_claimed (lease_length + 7) (lease_length + 8) ex_locals)
     \<lparr>fi_attempt := (fi_attempt (execution_finish ex_claimed (lease_length + 7) (lease_length + 8) ex_locals))
        \<lparr>at_no := no, at_reconciliation := True\<rparr>\<rparr>"

definition gap_queued :: cmd_db where
  "gap_queued = snd (sql_create_or_replay 101 ex_creation2 ex_queued_db)"

definition gap_cmd :: "uuid \<Rightarrow> cmd_db \<Rightarrow> command" where
  "gap_cmd i db = the (sql_cmd_get i db)"

definition gap_leased1 :: cmd_db where
  "gap_leased1 = snd (acquire_meta_budget_target_lock (gap_cmd 100 gap_queued) False 0 1 gap_queued)"
definition gap_leased2 :: cmd_db where
  "gap_leased2 = snd (acquire_meta_budget_target_lock (gap_cmd 101 gap_leased1) False (lease_length + 1) 2 gap_leased1)"
definition gap_claimed2 :: cmd_db where
  "gap_claimed2 = snd (sql_claim_queued 101 (lease_length + 2) gap_leased2)"
definition gap_claimed1 :: cmd_db where
  "gap_claimed1 = snd (sql_claim_queued 100 (lease_length + 3) gap_claimed2)"
definition gap_fenced2 :: cmd_db where
  "gap_fenced2 = snd (renew_meta_budget_target_lock (gap_cmd 101 gap_claimed1) 2 (lease_length + 4) gap_claimed1)"
definition gap_recovered :: cmd_db where
  "gap_recovered = snd (sql_recover_interrupted True (lease_length + 5) gap_fenced2)"

definition gap_posted :: runtime where
  "gap_posted = \<lparr>rt_db = gap_fenced2, rt_held = {(101, 2), (100, 1)},
     rt_phase = (\<lambda>_. Idle)(101 := Posted 2, 100 := Claimed 1)\<rparr>"

definition gap_state :: runtime where
  "gap_state = \<lparr>rt_db = gap_recovered, rt_held = {}, rt_phase = (\<lambda>_. Idle)\<rparr>"

lemma gap_db_steps:
  "acquire_meta_budget_target_lock (gap_cmd 100 gap_queued) False 0 1 gap_queued = (Some 1, gap_leased1)"
  "acquire_meta_budget_target_lock (gap_cmd 101 gap_leased1) False (lease_length + 1) 2 gap_leased1 = (Some 2, gap_leased2)"
  "renew_meta_budget_target_lock (gap_cmd 101 gap_claimed1) 2 (lease_length + 4) gap_claimed1 = (None, gap_fenced2)"
  "\<not> isl (fst (sql_claim_queued 101 (lease_length + 2) gap_leased2))"
  "\<not> isl (fst (sql_claim_queued 100 (lease_length + 3) gap_claimed2))"
  "\<not> isl (fst (sql_recover_interrupted True (lease_length + 5) gap_fenced2))"
  by code_simp+

lemma gap_posted_run: "worker_step\<^sup>*\<^sup>* ex_rt0 gap_posted"
proof -
  let ?s1 = "ex_rt0\<lparr>rt_db := ex_queued_db\<rparr>"
  let ?s2 = "?s1\<lparr>rt_db := gap_queued\<rparr>"
  let ?s3 = "?s2\<lparr>rt_db := gap_leased1, rt_held := {(100, 1)}\<rparr>"
  let ?s4 = "?s3\<lparr>rt_db := gap_leased2, rt_held := {(101, 2), (100, 1)}\<rparr>"
  let ?s5 = "?s4\<lparr>rt_db := gap_claimed2, rt_phase := (\<lambda>_. Idle)(101 := Claimed 2)\<rparr>"
  let ?s6 = "?s5\<lparr>rt_db := gap_claimed1, rt_phase := (\<lambda>_. Idle)(101 := Claimed 2, 100 := Claimed 1)\<rparr>"
  let ?s7 = "?s6\<lparr>rt_db := gap_fenced2, rt_phase := (\<lambda>_. Idle)(101 := Fenced 2, 100 := Claimed 1)\<rparr>"
  have none: "sql_cmd_get 100 (sg_store ex_start) = None" "sql_cmd_get 101 ex_queued_db = None" by code_simp+
  have got: "sql_cmd_get 100 gap_queued = Some (gap_cmd 100 gap_queued)"
    "sql_cmd_get 101 gap_leased1 = Some (gap_cmd 101 gap_leased1)"
    "sql_cmd_get 101 gap_claimed1 = Some (gap_cmd 101 gap_claimed1)" by code_simp+
  have "worker_step ex_rt0 ?s1"
    using worker_step.submit [of 100 ex_rt0] none(1) ex_submit by (simp add: ex_rt0_def sql_cmd_ops_def)
  moreover have "worker_step ?s1 ?s2"
    using worker_step.submit [of 101 ?s1 ex_creation2, OF _ surjective_pairing] none(2) by (simp add: ex_rt0_def gap_queued_def)
  moreover have "worker_step ?s2 ?s3"
    using worker_step.acquire [of 100 ?s2 "gap_cmd 100 gap_queued" False 0 1 1 gap_leased1] got(1) gap_db_steps(1)
    by (simp add: ex_rt0_def)
  moreover have "worker_step ?s3 ?s4"
    using worker_step.acquire [of 101 ?s3 "gap_cmd 101 gap_leased1" False "lease_length + 1" 2 2 gap_leased2] got(2) gap_db_steps(2)
    by (simp add: ex_rt0_def)
  moreover have "worker_step ?s4 ?s5"
    using worker_step.claim [of 101 2 ?s4 "lease_length + 2" _ gap_claimed2] inr_step [OF gap_db_steps(4)]
    by (simp add: ex_rt0_def gap_claimed2_def)
  moreover have "worker_step ?s5 ?s6"
    using worker_step.claim [of 100 1 ?s5 "lease_length + 3" _ gap_claimed1] inr_step [OF gap_db_steps(5)]
    by (simp add: ex_rt0_def gap_claimed1_def)
  moreover have "worker_step ?s6 ?s7"
    using worker_step.fence [of ?s6 101 2 "gap_cmd 101 gap_claimed1" "lease_length + 4" gap_fenced2] got(3) gap_db_steps(3)
    by (simp add: ex_rt0_def fun_upd_twist)
  moreover have "worker_step ?s7 gap_posted"
    using worker_step.post [of ?s7 101 2] by (simp add: ex_rt0_def gap_posted_def fun_upd_twist)
  ultimately show ?thesis by (meson converse_rtranclp_into_rtranclp rtranclp.rtrancl_refl)
qed

lemma gap_reachable: "reachable rt_init rt_step gap_state"
proof -
  have "sql_recover_interrupted True (lease_length + 5) (rt_db gap_posted)
      = (Inr (projr (fst (sql_recover_interrupted True (lease_length + 5) gap_fenced2))), gap_recovered)"
    using inr_step [OF gap_db_steps(6)] by (simp add: gap_posted_def gap_recovered_def)
  then have "recovery_step gap_posted gap_state"
    unfolding recovery_step_def by (intro exI conjI, assumption) (simp add: gap_posted_def gap_state_def)
  then have "rt_step gap_posted gap_state" by (simp add: rt_step_def)
  moreover have "reachable rt_init rt_step gap_posted"
    by (rule reach_run [OF workers_run(1) [OF gap_posted_run] reach_init [of rt_init, OF ex_rt0_init]])
  ultimately show ?thesis by (rule reach_step [rotated])
qed

text \<open>
  Offline recovery does not fence every command it makes unknown: in a reachable state after a
  recovery, the command whose write may have been sent is unknown, but the quarantine of its target
  belongs to another command of the target; once that one is reconciled as applied the quarantine
  is gone, and the lease of the target is granted for new writes although the first outcome is still
  open.
\<close>
theorem recovery_loses_fence:
  "reachable rt_init rt_step gap_state
    \<and> cm_status (gap_cmd 101 (rt_db gap_state)) = Unknown
    \<and> sql_target_quarantine_command_id ex_request (rt_db gap_state) = Some 100
    \<and> (let db = snd (sql_record_reconciliation 100 (gap_finish 2) (rt_db gap_state)) in
        cm_status (gap_cmd 100 db) = Applied \<and> cm_status (gap_cmd 101 db) = Unknown
        \<and> fst (acquire_meta_budget_target_lock (gap_cmd 102 (snd (sql_create_or_replay 102 ex_creation3 db))) False
            (lease_length + 9) 3 (snd (sql_create_or_replay 102 ex_creation3 db))) = Some 3)"
  by (intro conjI gap_reachable) code_simp+

end
