(* ===== verification/Json_Loads.thy ===== *)
theory Json_Loads
  imports Json "HOL-Library.AList"
begin

text \<open>
  \<open>json.loads\<close> on the values the development writes: a recursive descent parser over the text
  (fuel: its length), and the round trip with \<open>json_dumps\<close>.  A number with a fraction or an
  exponent and an escape beyond one byte are refused: no payload the code writes has one.
\<close>

section \<open>The parser\<close>

definition json_blank :: "char \<Rightarrow> bool" where
  "json_blank c \<longleftrightarrow> (of_char c :: nat) \<in> {9, 10, 13, 32}"

definition skip_ws :: "string \<Rightarrow> string" where
  "skip_ws s = dropWhile json_blank s"

definition hex_val :: "char \<Rightarrow> nat option" where
  "hex_val c = (if is_digit c then Some (of_char c - 48)
     else if 97 \<le> (of_char c :: nat) \<and> (of_char c :: nat) \<le> 102 then Some (of_char c - 87)
     else if 65 \<le> (of_char c :: nat) \<and> (of_char c :: nat) \<le> 70 then Some (of_char c - 55) else None)"

definition hex4 :: "char \<Rightarrow> char \<Rightarrow> char \<Rightarrow> char \<Rightarrow> nat option" where
  "hex4 a b c d = (case (hex_val a, hex_val b, hex_val c, hex_val d) of
     (Some w, Some x, Some y, Some z) \<Rightarrow> Some (4096 * w + 256 * x + 16 * y + z) | _ \<Rightarrow> None)"

definition unescape :: "char \<Rightarrow> char option" where
  "unescape e = (if e = CHR 0x22 \<or> e = CHR 0x5C \<or> e = CHR ''/'' then Some e
     else if e = CHR ''n'' then Some (CHR 0x0A) else if e = CHR ''r'' then Some (CHR 0x0D)
     else if e = CHR ''t'' then Some (CHR 0x09) else if e = CHR ''b'' then Some (CHR 0x08)
     else if e = CHR ''f'' then Some (CHR 0x0C) else None)"

text \<open>The rest of a string after its opening quote.\<close>

fun parse_string :: "string \<Rightarrow> (string \<times> string) option" where
  "parse_string [] = None"
| "parse_string (c # s) =
     (if c = CHR 0x22 then Some ([], s)
      else if (of_char c :: nat) < 32 then None
      else if c \<noteq> CHR 0x5C then map_option (\<lambda>(t, r). (c # t, r)) (parse_string s)
      else (case s of
          [] \<Rightarrow> None
        | e # s1 \<Rightarrow>
            if e = CHR ''u'' then
              (case s1 of
                a # b # x # d # s2 \<Rightarrow>
                  (case hex4 a b x d of
                     None \<Rightarrow> None
                   | Some n \<Rightarrow> if n < 256 then map_option (\<lambda>(t, r). (char_of n # t, r)) (parse_string s2) else None)
              | _ \<Rightarrow> None)
            else (case unescape e of None \<Rightarrow> None
              | Some v \<Rightarrow> map_option (\<lambda>(t, r). (v # t, r)) (parse_string s1))))"

definition digits_value :: "string \<Rightarrow> nat" where
  "digits_value ds = foldl (\<lambda>n d. 10 * n + (of_char d - 48)) 0 ds"

definition parse_nat :: "string \<Rightarrow> (nat \<times> string) option" where
  "parse_nat s = (let ds = takeWhile is_digit s; r = dropWhile is_digit s in
     if ds = [] \<or> (hd ds = CHR ''0'' \<and> length ds > 1) then None
     else if r \<noteq> [] \<and> hd r \<in> {CHR ''.'', CHR ''e'', CHR ''E''} then None
     else Some (digits_value ds, r))"

definition expect :: "char \<Rightarrow> string \<Rightarrow> string option" where
  "expect c s = (case s of [] \<Rightarrow> None | x # r \<Rightarrow> if x = c then Some r else None)"

definition parse_int :: "string \<Rightarrow> (json \<times> string) option" where
  "parse_int s = (case expect (CHR ''-'') s of
      Some r \<Rightarrow> map_option (\<lambda>(n, r). (JInt (- int n), r)) (parse_nat r)
    | None \<Rightarrow> map_option (\<lambda>(n, r). (JInt (int n), r)) (parse_nat s))"

definition after_prefix :: "string \<Rightarrow> string \<Rightarrow> string option" where
  "after_prefix p s = (if take (length p) s = p then Some (drop (length p) s) else None)"

definition parse_atom :: "string \<Rightarrow> (json \<times> string) option" where
  "parse_atom s = (case after_prefix ''null'' s of Some r \<Rightarrow> Some (JNull, r)
     | None \<Rightarrow> (case after_prefix ''true'' s of Some r \<Rightarrow> Some (JBool True, r)
     | None \<Rightarrow> (case after_prefix ''false'' s of Some r \<Rightarrow> Some (JBool False, r)
     | None \<Rightarrow> parse_int s)))"

fun parse_value :: "nat \<Rightarrow> string \<Rightarrow> (json \<times> string) option"
  and parse_items :: "nat \<Rightarrow> json list \<Rightarrow> string \<Rightarrow> (json \<times> string) option"
  and parse_members :: "nat \<Rightarrow> (string \<times> json) list \<Rightarrow> string \<Rightarrow> (json \<times> string) option" where
  "parse_value 0 s = None"
| "parse_value (Suc n) s = (case expect (CHR 0x22) s of
      Some r \<Rightarrow> map_option (\<lambda>(t, r'). (JStr t, r')) (parse_string r)
    | None \<Rightarrow> (case expect (CHR ''['') s of
      Some r \<Rightarrow> (case expect (CHR '']'') (skip_ws r) of
          Some r' \<Rightarrow> Some (JList [], r') | None \<Rightarrow> parse_items n [] (skip_ws r))
    | None \<Rightarrow> (case expect (CHR ''{'') s of
      Some r \<Rightarrow> (case expect (CHR ''}'') (skip_ws r) of
          Some r' \<Rightarrow> Some (JObj [], r') | None \<Rightarrow> parse_members n [] (skip_ws r))
    | None \<Rightarrow> parse_atom s)))"
| "parse_items 0 acc s = None"
| "parse_items (Suc n) acc s = (case parse_value n s of
      None \<Rightarrow> None
    | Some (v, r) \<Rightarrow> (case expect (CHR '']'') (skip_ws r) of
          Some r' \<Rightarrow> Some (JList (acc @ [v]), r')
        | None \<Rightarrow> (case expect (CHR '','') (skip_ws r) of
              Some r' \<Rightarrow> parse_items n (acc @ [v]) (skip_ws r') | None \<Rightarrow> None)))"
| "parse_members 0 acc s = None"
| "parse_members (Suc n) acc s = (case expect (CHR 0x22) s of
      None \<Rightarrow> None
    | Some r \<Rightarrow> (case parse_string r of
          None \<Rightarrow> None
        | Some (k, r1) \<Rightarrow> (case expect (CHR '':'') (skip_ws r1) of
              None \<Rightarrow> None
            | Some r2 \<Rightarrow> (case parse_value n (skip_ws r2) of
                  None \<Rightarrow> None
                | Some (v, r3) \<Rightarrow> (case expect (CHR ''}'') (skip_ws r3) of
                      Some r4 \<Rightarrow> Some (JObj (AList.update k v acc), r4)
                    | None \<Rightarrow> (case expect (CHR '','') (skip_ws r3) of
                          Some r4 \<Rightarrow> parse_members n (AList.update k v acc) (skip_ws r4) | None \<Rightarrow> None))))))"

definition json_loads :: "string \<Rightarrow> json option" where
  "json_loads s = (let t = skip_ws s in case parse_value (length t) t of
      None \<Rightarrow> None
    | Some (v, r) \<Rightarrow> if skip_ws r = [] then Some v else None)"

section \<open>Numbers and strings\<close>

lemma hex_digit_val: "d < 16 \<Longrightarrow> hex_val (hex_digit d) = Some d"
  by (simp add: hex_val_def hex_digit_def is_digit_def)

lemma hex4_digits: "n < 65536 \<Longrightarrow> hex4 (hex_digit (n div 16 div 16 div 16 mod 16)) (hex_digit (n div 16 div 16 mod 16))
    (hex_digit (n div 16 mod 16)) (hex_digit (n mod 16)) = Some n"
proof -
  assume n: "n < 65536"
  define a b c where "a = n div 16" and "b = a div 16" and "c = b div 16"
  have "n = 16 * a + n mod 16" "a = 16 * b + a mod 16" "b = 16 * c + b mod 16" by (simp_all add: a_def b_def c_def)
  moreover have "c < 16" using n by (simp add: a_def b_def c_def)
  ultimately have "4096 * (c mod 16) + 256 * (b mod 16) + 16 * (a mod 16) + n mod 16 = n" by simp
  then show ?thesis by (simp add: hex4_def hex_digit_val a_def [symmetric] b_def [symmetric] c_def [symmetric])
qed

lemma parse_string_escape: "parse_string (json_escape c @ s) = map_option (\<lambda>(t, r). (c # t, r)) (parse_string s)"
proof -
  let ?n = "of_char c :: nat"
  have c: "char_of ?n = c" by simp
  have eq: "?n = k \<Longrightarrow> c = char_of k" for k by (metis c)
  consider "?n \<in> {34, 92, 10, 13, 9, 8, 12}" | "?n \<notin> {34, 92, 10, 13, 9, 8, 12}" "?n < 32 \<or> 126 < ?n"
    | "?n \<notin> {34, 92}" "\<not> (?n < 32 \<or> 126 < ?n)" by blast
  then show ?thesis
  proof cases
    case 1
    have chars: "char_of (34::nat) = CHR 0x22" "char_of (92::nat) = CHR 0x5C" "char_of (10::nat) = CHR 0x0A"
      "char_of (13::nat) = CHR 0x0D" "char_of (9::nat) = CHR 0x09" "char_of (8::nat) = CHR 0x08" "char_of (12::nat) = CHR 0x0C"
      by code_simp+
    from 1 show ?thesis
      by (elim insertE emptyE) (auto simp: json_escape_def Let_def unescape_def chars dest!: eq)
  next
    case 2
    have lt: "?n < 256" by simp
    have h: "hex4 (hex_digit (?n div 16 div 16 div 16 mod 16)) (hex_digit (?n div 16 div 16 mod 16))
      (hex_digit (?n div 16 mod 16)) (hex_digit (?n mod 16)) = Some ?n" using lt by (intro hex4_digits) linarith
    have e: "json_escape c = [CHR 0x5C, CHR ''u''] @ hex_digits 4 ?n" using 2 by (simp add: json_escape_def Let_def)
    have "hex_digits 4 m = [hex_digit (m div 16 div 16 div 16 mod 16), hex_digit (m div 16 div 16 mod 16),
       hex_digit (m div 16 mod 16), hex_digit (m mod 16)]" for m
    proof -
      have four: "(4::nat) = Suc (Suc (Suc (Suc 0)))" by simp
      show ?thesis unfolding four by (simp only: hex_digits.simps append.simps)
    qed
    then have "json_escape c @ s = CHR 0x5C # CHR ''u'' # hex_digit (?n div 16 div 16 div 16 mod 16) # hex_digit (?n div 16 div 16 mod 16)
       # hex_digit (?n div 16 mod 16) # hex_digit (?n mod 16) # s" by (simp only: e append.simps)
    moreover have "parse_string (CHR 0x5C # CHR ''u'' # a # b # x # d # s) = (case hex4 a b x d of None \<Rightarrow> None
        | Some n \<Rightarrow> if n < 256 then map_option (\<lambda>(t, r). (char_of n # t, r)) (parse_string s) else None)" for a b x d
      by simp
    ultimately show ?thesis by (simp only: h option.case lt if_True c)
  next
    case 3
    then have "c \<noteq> CHR 0x22" "c \<noteq> CHR 0x5C" by auto
    with 3 show ?thesis by (simp add: json_escape_def Let_def)
  qed
qed

lemma parse_string_dumps: "parse_string (concat (map json_escape t) @ CHR 0x22 # r) = Some (t, r)"
  by (induction t) (simp_all add: parse_string_escape)

lemma is_digit_hex_digit: "d < 10 \<Longrightarrow> is_digit (hex_digit d)"
  by (simp add: is_digit_def hex_digit_def)

lemma of_hex_digit10: "d < 10 \<Longrightarrow> (of_char (hex_digit d) :: nat) = 48 + d"
  by (simp add: hex_digit_def)

lemma nat_str_digits: "c \<in> set (nat_str n) \<Longrightarrow> is_digit c"
proof (induction n rule: nat_str.induct)
  case (1 n)
  show ?case
  proof (cases "n < 10")
    case True
    with 1(2) show ?thesis by (simp add: nat_str.simps [of n] is_digit_hex_digit)
  next
    case False
    with 1 show ?thesis using nat_str.simps [of n] is_digit_hex_digit [of "n mod 10"] by auto
  qed
qed

lemma nat_str_nonempty: "nat_str n \<noteq> []"
  by (subst nat_str.simps) simp

lemma nat_str_value: "digits_value (nat_str n) = n"
proof (induction n rule: nat_str.induct)
  case (1 n)
  show ?case
  proof (cases "n < 10")
    case True
    then show ?thesis by (simp add: nat_str.simps [of n] digits_value_def of_hex_digit10)
  next
    case False
    then have "nat_str n = nat_str (n div 10) @ [hex_digit (n mod 10)]" by (subst nat_str.simps) simp
    with 1 [OF False] show ?thesis by (simp add: digits_value_def of_hex_digit10)
  qed
qed

lemma nat_str_hd: "10 \<le> n \<Longrightarrow> hd (nat_str n) \<noteq> CHR ''0''"
proof (induction n rule: nat_str.induct)
  case (1 n)
  then have s: "nat_str n = nat_str (n div 10) @ [hex_digit (n mod 10)]" by (subst nat_str.simps) simp
  show ?case
  proof (cases "n div 10 < 10")
    case True
    then have "nat_str (n div 10) = [hex_digit (n div 10)]" by (subst nat_str.simps) simp
    moreover have "hex_digit (n div 10) \<noteq> CHR ''0''"
    proof
      assume "hex_digit (n div 10) = CHR ''0''"
      then have "48 + n div 10 = (of_char (CHR ''0'') :: nat)" using of_hex_digit10 [OF True] by simp
      with 1(2) show False by simp
    qed
    ultimately show ?thesis using s by simp
  next
    case False
    with 1 have "hd (nat_str (n div 10)) \<noteq> CHR ''0''" by simp
    with s nat_str_nonempty [of "n div 10"] show ?thesis by simp
  qed
qed

definition delim :: "string \<Rightarrow> bool" where
  "delim r \<longleftrightarrow> r = [] \<or> hd r \<in> {CHR '','', CHR '']'', CHR ''}''}"

lemma parse_nat_str:
  assumes "delim r"
  shows "parse_nat (nat_str n @ r) = Some (n, r)"
proof -
  have d: "\<forall>c \<in> set (nat_str n). is_digit c" using nat_str_digits by blast
  have r: "r = [] \<or> \<not> is_digit (hd r)" "r = [] \<or> hd r \<notin> {CHR ''.'', CHR ''e'', CHR ''E''}"
    using assms by (auto simp: delim_def is_digit_def)
  have tw: "takeWhile is_digit (nat_str n @ r) = nat_str n" "dropWhile is_digit (nat_str n @ r) = r"
    using d r(1) by (cases r; simp add: takeWhile_append2 dropWhile_append2)+
  have "\<not> (hd (nat_str n) = CHR ''0'' \<and> length (nat_str n) > 1)"
  proof (cases "n < 10")
    case True
    then show ?thesis by (subst (2) nat_str.simps) simp
  next
    case False
    with nat_str_hd [of n] show ?thesis by simp
  qed
  then show ?thesis unfolding parse_nat_def Let_def tw using nat_str_nonempty [of n] r(2) nat_str_value [of n] by auto
qed

lemma digit_not_special: "is_digit c \<Longrightarrow> c \<notin> {CHR ''-'', CHR ''n'', CHR ''t'', CHR ''f'', CHR 0x22, CHR ''['', CHR ''{'', CHR '']'', CHR ''}''}"
  by (auto simp: is_digit_def)

lemma hd_nat_str: "\<exists>c t. nat_str n = c # t \<and> is_digit c"
  using nat_str_nonempty [of n] nat_str_digits [of "hd (nat_str n)" n] by (cases "nat_str n") auto

lemma expect_simps [simp]: "expect c [] = None" "expect c (c # r) = Some r" "x \<noteq> c \<Longrightarrow> expect c (x # r) = None"
  by (simp_all add: expect_def)

lemma parse_atom_int:
  assumes "delim r"
  shows "parse_atom (int_str n @ r) = Some (JInt n, r)"
proof (cases "n < 0")
  case True
  with parse_nat_str [OF assms, of "nat (- n)"] show ?thesis
    by (simp add: parse_atom_def int_str_def after_prefix_def parse_int_def)
next
  case False
  obtain c t where c: "nat_str (nat n) = c # t" "is_digit c" using hd_nat_str by blast
  have c': "c \<noteq> CHR ''-''" "c \<noteq> CHR ''n''" "c \<noteq> CHR ''t''" "c \<noteq> CHR ''f''" using digit_not_special [OF c(2)] by auto
  have "parse_int (c # t @ r) = Some (JInt n, r)"
    using parse_nat_str [OF assms, of "nat n"] False c' c(1) by (simp add: parse_int_def)
  with False c c' show ?thesis by (simp add: parse_atom_def int_str_def after_prefix_def)
qed

text \<open>The text of a value starts with a character that is neither blank nor a closing bracket.\<close>

lemma dumps_hd: "\<exists>c t. json_dumps v = c # t \<and> \<not> json_blank c \<and> c \<notin> {CHR '']'', CHR ''}''}"
proof (cases v)
  case (JInt n)
  show ?thesis
  proof (cases "n < 0")
    case True
    with JInt show ?thesis by (simp add: int_str_def json_blank_def)
  next
    case False
    obtain c t where c: "nat_str (nat n) = c # t" "is_digit c" using hd_nat_str by blast
    have "c \<notin> {CHR '']'', CHR ''}''}" using digit_not_special [OF c(2)] by simp
    moreover have "\<not> json_blank c" using c(2) by (auto simp: json_blank_def is_digit_def)
    ultimately show ?thesis using JInt False c(1) by (simp add: int_str_def)
  qed
qed (simp_all add: json_string_def json_blank_def)

lemma skip_dumps: "skip_ws (json_dumps v @ r) = json_dumps v @ r"
  using dumps_hd [of v] by (auto simp: skip_ws_def)

section \<open>The round trip\<close>

text \<open>\<open>sort_keys\<close> on the value itself; distinct keys, as in every Python dictionary.\<close>

fun json_norm :: "json \<Rightarrow> json" where
  "json_norm (JList xs) = JList (map json_norm xs)"
| "json_norm (JObj kvs) = JObj (sort_key (\<lambda>e. char_key (fst e)) (map (\<lambda>e. (fst e, json_norm (snd e))) kvs))"
| "json_norm JNull = JNull"
| "json_norm (JBool b) = JBool b"
| "json_norm (JInt n) = JInt n"
| "json_norm (JStr s) = JStr s"

fun json_wf :: "json \<Rightarrow> bool" where
  "json_wf (JList xs) \<longleftrightarrow> (\<forall>x \<in> set xs. json_wf x)"
| "json_wf (JObj kvs) \<longleftrightarrow> distinct (map fst kvs) \<and> (\<forall>e \<in> set kvs. json_wf (snd e))"
| "json_wf _ \<longleftrightarrow> True"

lemma insort_key_map: "insort_key f (g x) (map g xs) = map g (insort_key (\<lambda>y. f (g y)) x xs)"
  by (induction xs) auto

lemma sort_key_map: "sort_key f (map g xs) = map g (sort_key (\<lambda>y. f (g y)) xs)"
  by (induction xs) (simp_all add: insort_key_map sort_key_def)

lemma update_new: "k \<notin> fst ` set acc \<Longrightarrow> AList.update k v acc = acc @ [(k, v)]"
  by (induction acc) auto

lemma comma_join_Cons: "comma_join (x # xs) = x @ (if xs = [] then [] else CHR '','' # comma_join xs)"
  by (cases xs) (simp_all add: comma_join_def)

lemma skip_simps [simp]: "\<not> json_blank c \<Longrightarrow> skip_ws (c # r) = c # r"
  by (simp add: skip_ws_def)

lemma not_blank [simp]: "\<not> json_blank (CHR '','')" "\<not> json_blank (CHR '']'')" "\<not> json_blank (CHR ''}'')"
  "\<not> json_blank (CHR '':'')" "\<not> json_blank (CHR 0x22)"
  by (simp_all add: json_blank_def)

lemma parse_items_dumps:
  assumes "\<And>x n r. x \<in> set xs \<Longrightarrow> length (json_dumps x) \<le> n \<Longrightarrow> delim r \<Longrightarrow>
      parse_value n (json_dumps x @ r) = Some (json_norm x, r)"
    and "xs \<noteq> []" and "length (comma_join (map json_dumps xs)) < n"
  shows "parse_items n acc (comma_join (map json_dumps xs) @ CHR '']'' # r) = Some (JList (acc @ map json_norm xs), r)"
  using assms
proof (induction xs arbitrary: acc n)
  case (Cons x xs)
  obtain m where n: "n = Suc m" using Cons.prems(3) by (cases n) auto
  show ?case
  proof (cases "xs = []")
    case True
    have "parse_value m (json_dumps x @ CHR '']'' # r) = Some (json_norm x, CHR '']'' # r)"
      by (rule Cons.prems(1)) (use Cons.prems(3) n True in \<open>simp_all add: comma_join_Cons delim_def\<close>)
    with n True show ?thesis by (simp add: comma_join_Cons)
  next
    case False
    let ?r = "comma_join (map json_dumps xs) @ CHR '']'' # r"
    have v: "parse_value m (json_dumps x @ CHR '','' # ?r) = Some (json_norm x, CHR '','' # ?r)"
      by (rule Cons.prems(1)) (use Cons.prems(3) n False in \<open>simp_all add: comma_join_Cons delim_def\<close>)
    have "skip_ws ?r = ?r"
      using skip_dumps [of "hd xs"] False by (cases xs) (simp_all add: comma_join_Cons)
    moreover have "parse_items m (acc @ [json_norm x]) ?r = Some (JList ((acc @ [json_norm x]) @ map json_norm xs), r)"
      by (rule Cons.IH) (use Cons.prems n False in \<open>simp_all add: comma_join_Cons\<close>)
    ultimately show ?thesis using v n False by (simp add: comma_join_Cons)
  qed
qed simp

definition member_text :: "string \<times> json \<Rightarrow> string" where
  "member_text e = json_string (fst e) @ CHR '':'' # json_dumps (snd e)"

lemma member_text_append:
  "member_text e @ s = CHR 0x22 # concat (map json_escape (fst e)) @ CHR 0x22 # CHR '':'' # json_dumps (snd e) @ s"
  by (simp add: member_text_def json_string_def)

lemma parse_members_dumps:
  assumes "\<And>e n r. e \<in> set es \<Longrightarrow> length (json_dumps (snd e)) \<le> n \<Longrightarrow> delim r \<Longrightarrow>
      parse_value n (json_dumps (snd e) @ r) = Some (json_norm (snd e), r)"
    and "es \<noteq> []" and "length (comma_join (map member_text es)) < n"
    and "distinct (map fst acc @ map fst es)"
  shows "parse_members n acc (comma_join (map member_text es) @ CHR ''}'' # r)
    = Some (JObj (acc @ map (\<lambda>e. (fst e, json_norm (snd e))) es), r)"
  using assms
proof (induction es arbitrary: acc n)
  case (Cons e es)
  obtain m where n: "n = Suc m" using Cons.prems(3) by (cases n) auto
  have k: "AList.update (fst e) v acc = acc @ [(fst e, v)]" for v
    using Cons.prems(4) by (intro update_new) auto
  have skip: "skip_ws (json_dumps (snd e) @ s) = json_dumps (snd e) @ s" for s by (rule skip_dumps)
  show ?case
  proof (cases "es = []")
    case True
    have "parse_value m (json_dumps (snd e) @ CHR ''}'' # r) = Some (json_norm (snd e), CHR ''}'' # r)"
      by (rule Cons.prems(1)) (use Cons.prems(3) n True in \<open>simp_all add: comma_join_Cons delim_def member_text_def\<close>)
    with n True skip k show ?thesis
      by (simp add: comma_join_Cons member_text_append parse_string_dumps)
  next
    case False
    let ?r = "comma_join (map member_text es) @ CHR ''}'' # r"
    have v: "parse_value m (json_dumps (snd e) @ CHR '','' # ?r) = Some (json_norm (snd e), CHR '','' # ?r)"
      by (rule Cons.prems(1)) (use Cons.prems(3) n False in \<open>simp_all add: comma_join_Cons delim_def member_text_def\<close>)
    have "skip_ws ?r = ?r"
      using False by (cases es) (simp_all add: comma_join_Cons member_text_append)
    moreover have "parse_members m (acc @ [(fst e, json_norm (snd e))]) ?r
        = Some (JObj ((acc @ [(fst e, json_norm (snd e))]) @ map (\<lambda>e. (fst e, json_norm (snd e))) es), r)"
      by (rule Cons.IH) (use Cons.prems n False in \<open>auto simp: comma_join_Cons\<close>)
    ultimately show ?thesis using v n False skip k
      by (simp add: comma_join_Cons member_text_append parse_string_dumps)
  qed
qed simp

lemma dumps_JObj: "json_dumps (JObj kvs)
    = CHR ''{'' # comma_join (map member_text (sort_key (\<lambda>e. char_key (fst e)) kvs)) @ ''}''"
proof -
  have "sort_key (\<lambda>e. char_key (fst e)) (map (\<lambda>e. (fst e, json_dumps (snd e))) kvs)
      = map (\<lambda>e. (fst e, json_dumps (snd e))) (sort_key (\<lambda>e. char_key (fst e)) kvs)"
    by (simp add: sort_key_map)
  moreover have "member_text = (\<lambda>x. json_string (fst x) @ CHR '':'' # json_dumps (snd x))"
    by (simp add: fun_eq_iff member_text_def)
  ultimately show ?thesis by (simp add: comp_def case_prod_beta)
qed

text \<open>
  \<open>json.loads(json.dumps(v))\<close> is \<open>v\<close> with the keys of every object in order.
\<close>

lemma parse_dumps:
  "json_wf v \<Longrightarrow> length (json_dumps v) \<le> n \<Longrightarrow> delim r \<Longrightarrow> parse_value n (json_dumps v @ r) = Some (json_norm v, r)"
proof (induction v arbitrary: n r rule: json_norm.induct)
  case (1 xs)
  obtain m where n: "n = Suc m" using 1(3) by (cases n) auto
  show ?case
  proof (cases "xs = []")
    case True
    with n show ?thesis by (simp add: comma_join_def)
  next
    case False
    have "parse_items m [] (comma_join (map json_dumps xs) @ CHR '']'' # r) = Some (JList ([] @ map json_norm xs), r)"
      by (rule parse_items_dumps) (use 1 False n in auto)
    moreover have "skip_ws (comma_join (map json_dumps xs) @ s) = comma_join (map json_dumps xs) @ s"
      "expect (CHR '']'') (comma_join (map json_dumps xs) @ s) = None" for s
      using False dumps_hd [of "hd xs"] by (cases xs; auto simp: comma_join_Cons)+
    ultimately show ?thesis using n by simp
  qed
next
  case (2 kvs)
  obtain m where n: "n = Suc m" using 2(3) by (cases n) auto
  let ?es = "sort_key (\<lambda>e. char_key (fst e)) kvs"
  show ?case
  proof (cases "kvs = []")
    case True
    with n show ?thesis by (simp add: comma_join_def)
  next
    case False
    then have ne: "?es \<noteq> []" by (metis set_empty set_sort)
    have len: "length (comma_join (map member_text ?es)) < m" using 2(3) n by (simp only: dumps_JObj) simp
    have d: "distinct (map fst ?es)" using 2(2) by (simp add: distinct_map)
    have "parse_members m [] (comma_join (map member_text ?es) @ CHR ''}'' # r)
        = Some (JObj ([] @ map (\<lambda>e. (fst e, json_norm (snd e))) ?es), r)"
      by (rule parse_members_dumps) (use 2(1,2) ne len d in auto)
    moreover have "map (\<lambda>e. (fst e, json_norm (snd e))) ?es
        = sort_key (\<lambda>e. char_key (fst e)) (map (\<lambda>e. (fst e, json_norm (snd e))) kvs)"
      by (simp add: sort_key_map)
    moreover have "skip_ws (comma_join (map member_text ?es) @ s) = comma_join (map member_text ?es) @ s"
      "expect (CHR ''}'') (comma_join (map member_text ?es) @ s) = None" for s
      using ne by (cases ?es; simp add: comma_join_Cons member_text_append)+
    ultimately show ?thesis using n by (simp add: dumps_JObj del: json_dumps.simps)
  qed
next
  case 3
  then show ?case by (cases n) (auto simp: expect_def parse_atom_def after_prefix_def)
next
  case (4 b)
  then show ?case by (cases n; cases b) (auto simp: expect_def parse_atom_def after_prefix_def)
next
  case (5 i)
  obtain c t where c: "int_str i = c # t" using dumps_hd [of "JInt i"] by auto
  have "c \<noteq> CHR 0x22 \<and> c \<noteq> CHR ''['' \<and> c \<noteq> CHR ''{''"
  proof (cases "i < 0")
    case True
    with c show ?thesis by (auto simp: int_str_def)
  next
    case False
    with c hd_nat_str [of "nat i"] digit_not_special show ?thesis by (auto simp: int_str_def)
  qed
  with c parse_atom_int [OF 5(3), of i] 5(2) show ?case by (cases n) simp_all
next
  case (6 t)
  then show ?case by (cases n) (simp_all add: json_string_def parse_string_dumps)
qed

lemma json_loads_dumps: "json_wf v \<Longrightarrow> json_loads (json_dumps v) = Some (json_norm v)"
  using parse_dumps [of v "length (json_dumps v)" "[]"] skip_dumps [of v "[]"]
  by (simp add: json_loads_def delim_def Let_def skip_ws_def)

end
