(* ===== verification/Base64.thy ===== *)
theory Base64
  imports Prelude
begin

text \<open>
  The token alphabet of \<open>provider_budget_commands.py\<close>: \<open>_b64encode\<close> (URL-safe base64
  without padding) and \<open>_b64decode\<close>, over byte strings, and the hexadecimal text of bytes.
\<close>

definition b64_char :: "nat \<Rightarrow> char" where
  "b64_char v = (if v < 26 then char_of (65 + v) else if v < 52 then char_of (71 + v)
     else if v < 62 then char_of (v - 4) else if v = 62 then CHR ''-'' else CHR ''_'')"

definition b64_val :: "char \<Rightarrow> nat option" where
  "b64_val c = (let n = (of_char c :: nat) in
     if 65 \<le> n \<and> n \<le> 90 then Some (n - 65) else if 97 \<le> n \<and> n \<le> 122 then Some (n - 71)
     else if 48 \<le> n \<and> n \<le> 57 then Some (n + 4) else if c = CHR ''-'' then Some 62
     else if c = CHR ''_'' then Some 63 else None)"

fun sextets :: "nat list \<Rightarrow> nat list" where
  "sextets (a # b # c # bs) = a div 4 # (a mod 4 * 16 + b div 16) # (b mod 16 * 4 + c div 64) # c mod 64 # sextets bs"
| "sextets [a, b] = [a div 4, a mod 4 * 16 + b div 16, b mod 16 * 4]"
| "sextets [a] = [a div 4, a mod 4 * 16]"
| "sextets [] = []"

fun octets :: "nat list \<Rightarrow> nat list" where
  "octets (w # x # y # z # vs) = (w * 4 + x div 16) # (x mod 16 * 16 + y div 4) # (y mod 4 * 64 + z) # octets vs"
| "octets [w, x, y] = [w * 4 + x div 16, x mod 16 * 16 + y div 4]"
| "octets [w, x] = [w * 4 + x div 16]"
| "octets _ = []"

definition b64encode :: "string \<Rightarrow> string" where
  "b64encode bytes = map b64_char (sextets (map of_char bytes))"

text \<open>The padded text, which \<open>base64.b64decode\<close> accepts, has the value \<open>octets\<close> of its digits.\<close>

definition b64decode :: "string \<Rightarrow> string option" where
  "b64decode v =
     (if v = [] \<or> (\<exists>c \<in> set v. b64_val c = None) \<or> length v mod 4 = 1 then None
      else (let decoded = map char_of (octets (map (the \<circ> b64_val) v)) in
            if b64encode decoded \<noteq> v then None else Some decoded))"

definition hex_bytes :: "string \<Rightarrow> string" where
  "hex_bytes bs = concat (map (\<lambda>c. hex_digits 2 (of_char c)) bs)"

section \<open>Round trip\<close>

lemma b64_val_char: "v < 64 \<Longrightarrow> b64_val (b64_char v) = Some v"
proof -
  assume v: "v < 64"
  consider "v < 26" | "26 \<le> v" "v < 52" | "52 \<le> v" "v < 62" | "v = 62" | "v = 63" using v by linarith
  then show ?thesis by cases (auto simp: b64_val_def b64_char_def Let_def)
qed

lemma sextets_lt: "\<forall>b \<in> set bs. b < 256 \<Longrightarrow> v \<in> set (sextets bs) \<Longrightarrow> v < 64"
  by (induction bs rule: sextets.induct) auto

lemma pack:
  "b < 256 \<Longrightarrow> a div 4 * 4 + (a mod 4 * 16 + b div 16) div 16 = (a::nat)"
  "b < 256 \<Longrightarrow> c < 256 \<Longrightarrow> (a mod 4 * 16 + b div 16) mod 16 * 16 + (b mod 16 * 4 + c div 64) div 4 = (b::nat)"
  "c < 256 \<Longrightarrow> (b mod 16 * 4 + c div 64) mod 4 * 64 + c mod 64 = (c::nat)"
proof -
  show "b < 256 \<Longrightarrow> a div 4 * 4 + (a mod 4 * 16 + b div 16) div 16 = (a::nat)"
  proof -
    assume "b < 256"
    then have "b div 16 < 16" by simp
    then show ?thesis by simp
  qed
  show "b < 256 \<Longrightarrow> c < 256 \<Longrightarrow> (a mod 4 * 16 + b div 16) mod 16 * 16 + (b mod 16 * 4 + c div 64) div 4 = (b::nat)"
  proof -
    assume "b < 256" "c < 256"
    then have "b div 16 < 16" "c div 64 < 4" by simp_all
    then show ?thesis by simp
  qed
  show "c < 256 \<Longrightarrow> (b mod 16 * 4 + c div 64) mod 4 * 64 + c mod 64 = (c::nat)"
  proof -
    assume "c < 256"
    then have "c div 64 < 4" by simp
    then show ?thesis by simp
  qed
qed

lemma octets_sextets: "\<forall>b \<in> set bs. b < 256 \<Longrightarrow> octets (sextets bs) = bs"
proof (induction bs rule: sextets.induct)
  case (1 a b c bs)
  have "a div 4 * 4 + (a mod 4 * 16 + b div 16) div 16 = a" "(a mod 4 * 16 + b div 16) mod 16 * 16 + (b mod 16 * 4 + c div 64) div 4 = b"
    "(b mod 16 * 4 + c div 64) mod 4 * 64 + c mod 64 = c"
    using pack(1) [of b a] pack(2) [of b c a] pack(3) [of c b] 1(2) by simp_all
  with 1 show ?case by simp
next
  case (2 a b)
  have "a div 4 * 4 + (a mod 4 * 16 + b div 16) div 16 = a" "(a mod 4 * 16 + b div 16) mod 16 * 16 + b mod 16 * 4 div 4 = b"
    using pack(1) [of b a] pack(2) [of b 0 a] 2 by simp_all
  then show ?case by simp
qed simp_all

lemma length_sextets: "length (sextets bs) mod 4 \<noteq> 1"
  by (induction bs rule: sextets.induct) auto

lemma b64decode_encode: "bs \<noteq> [] \<Longrightarrow> b64decode (b64encode bs) = Some bs"
proof -
  assume ne: "bs \<noteq> []"
  let ?ns = "map of_char bs :: nat list"
  have lt: "\<forall>b \<in> set ?ns. b < 256" by auto
  have vals: "map (the \<circ> b64_val) (b64encode bs) = sextets ?ns"
    unfolding b64encode_def map_map by (rule map_idI) (use sextets_lt [OF lt] b64_val_char in simp)
  have ok: "\<not> (\<exists>c \<in> set (b64encode bs). b64_val c = None)"
    using sextets_lt [OF lt] b64_val_char by (auto simp: b64encode_def)
  have "b64encode bs \<noteq> []" using ne by (cases ?ns rule: sextets.cases) (auto simp: b64encode_def)
  moreover have "length (b64encode bs) mod 4 \<noteq> 1" using length_sextets [of ?ns] by (simp add: b64encode_def)
  moreover have "map char_of (octets (map (the \<circ> b64_val) (b64encode bs))) = bs"
    unfolding vals octets_sextets [OF lt] by (simp add: comp_def)
  ultimately show ?thesis using ok unfolding b64decode_def Let_def by simp
qed

text \<open>The text of a decoded value is the only one that decodes to it.\<close>

lemma b64decode_canonical: "b64decode v = Some bs \<Longrightarrow> v = b64encode bs"
  by (auto simp: b64decode_def Let_def split: if_splits)

lemma b64encode_no_dot: "CHR ''.'' \<notin> set (b64encode bs)"
proof
  let ?ns = "map of_char bs :: nat list"
  assume "CHR ''.'' \<in> set (b64encode bs)"
  then obtain v where v: "v \<in> set (sextets ?ns)" "b64_char v = CHR ''.''" by (auto simp: b64encode_def)
  have "v < 64" by (rule sextets_lt [OF _ v(1)]) auto
  from b64_val_char [OF this] v(2) show False by (simp add: b64_val_def)
qed

end
