(* ===== verification/Provider_Preview.thy ===== *)
theory Provider_Preview
  imports Provider_Saga Json_Loads Base64
begin

text \<open>
  Preview tokens: \<open>PreviewSigner\<close>, and the two operations of the service that use them,
  \<open>preview\<close> and \<open>submit\<close>.  \<open>hmac\<close> stands for the raw HMAC-SHA-256 of a key and a
  message; \<open>sha256\<close> and \<open>isofmt\<close> are as in \<open>Provider_Payload\<close>; the nonce is an argument.
\<close>

section \<open>PreviewSigner\<close>

record signer =
  sg_secret :: string
  sg_ttl :: int

definition make_signer :: "string \<Rightarrow> py_number \<Rightarrow> exn + signer" where
  "make_signer secret_bytes ttl_seconds =
     (case ttl_seconds of
        NotInt \<Rightarrow> Inl (BudgetValidationError ''preview_ttl_invalid'' ''Preview TTL must be an integer number of seconds'')
      | IntNum ttl \<Rightarrow>
          if length secret_bytes < 32
          then Inl (BudgetValidationError ''preview_secret_weak'' ''Preview signing secret must be at least 32 bytes'')
          else if \<not> (30 \<le> ttl \<and> ttl \<le> 900)
          then Inl (BudgetValidationError ''preview_ttl_invalid'' ''Preview TTL must be between 30 and 900 seconds'')
          else Inr \<lparr>sg_secret = secret_bytes, sg_ttl = ttl\<rparr>)"

type_synonym mac = "string \<Rightarrow> string \<Rightarrow> string"

definition context_proof :: "mac \<Rightarrow> signer \<Rightarrow> string \<Rightarrow> json \<Rightarrow> string" where
  "context_proof hmac sg label payload = hex_bytes (hmac (sg_secret sg) (label @ CHR 0x00 # json_dumps payload))"

record bound_context =
  bc_request :: request
  bc_actor :: uuid
  bc_auth :: auth_snapshot
  bc_cred :: cred_snapshot

definition auth_proof :: "mac \<Rightarrow> signer \<Rightarrow> bound_context \<Rightarrow> string" where
  "auth_proof hmac sg b = context_proof hmac sg ''authorization'' (JObj (auth_payload (bc_auth b)))"

definition cred_proof :: "mac \<Rightarrow> (timestamp \<Rightarrow> string) \<Rightarrow> signer \<Rightarrow> bound_context \<Rightarrow> string" where
  "cred_proof hmac isofmt sg b = context_proof hmac sg ''credential'' (JObj (cred_payload isofmt (bc_cred b)))"

definition bound_payload :: "(timestamp \<Rightarrow> string) \<Rightarrow> bound_context \<Rightarrow> json" where
  "bound_payload isofmt b = JObj
     [(''actor_user_id'', JStr (str_uuid (bc_actor b))),
      (''request'', request_payload (bc_request b)),
      (''authorization_snapshot'', JObj (auth_payload (bc_auth b))),
      (''credential_snapshot'', JObj (cred_payload isofmt (bc_cred b)))]"

text \<open>The message whose MAC the request proof is.\<close>

definition request_material :: "(timestamp \<Rightarrow> string) \<Rightarrow> bound_context \<Rightarrow> string" where
  "request_material isofmt b = ''request'' @ CHR 0x00 # json_dumps (bound_payload isofmt b)"

definition request_proof :: "mac \<Rightarrow> (timestamp \<Rightarrow> string) \<Rightarrow> signer \<Rightarrow> bound_context \<Rightarrow> string" where
  "request_proof hmac isofmt sg b = context_proof hmac sg ''request'' (bound_payload isofmt b)"

text \<open>\<open>int(moment.timestamp())\<close> truncates towards zero.\<close>

definition int_seconds :: "timestamp \<Rightarrow> int" where
  "int_seconds t = (if 0 \<le> t then t div 1000000 else - ((- t) div 1000000))"

record budget_preview =
  pv_request :: request
  pv_observed :: int
  pv_token :: string
  pv_request_hash :: string
  pv_preview_hash :: string
  pv_issued :: timestamp
  pv_expires :: timestamp

definition token_payload :: "string \<Rightarrow> string \<Rightarrow> string \<Rightarrow> int \<Rightarrow> int \<Rightarrow> int \<Rightarrow> string \<Rightarrow> json" where
  "token_payload request_digest auth_hash cred_hash observed issued expires nonce = JObj
     [(''v'', JInt 2), (''request_hash'', JStr request_digest), (''authorization_snapshot_hash'', JStr auth_hash),
      (''credential_snapshot_hash'', JStr cred_hash), (''observed_before_minor'', JInt observed),
      (''issued_at'', JInt issued), (''expires_at'', JInt expires), (''nonce'', JStr nonce)]"

definition sign_body :: "mac \<Rightarrow> signer \<Rightarrow> string \<Rightarrow> string" where
  "sign_body hmac sg body = b64encode (hmac (sg_secret sg) body)"

definition issue_preview ::
  "mac \<Rightarrow> (string \<Rightarrow> string) \<Rightarrow> (timestamp \<Rightarrow> string) \<Rightarrow> signer \<Rightarrow> bound_context \<Rightarrow> int \<Rightarrow> timestamp \<Rightarrow> string
     \<Rightarrow> exn + budget_preview" where
  "issue_preview hmac sha256 isofmt sg b observed_before_minor now nonce =
     (let expires_at = now + sg_ttl sg * 1000000 in
      case require_minor_units (IntNum observed_before_minor) ''observed_before_minor'' True of
        Inl e \<Rightarrow> Inl e
      | Inr observed \<Rightarrow>
          (let body = b64encode (json_dumps (token_payload (request_proof hmac isofmt sg b) (auth_proof hmac sg b)
                 (cred_proof hmac isofmt sg b) observed (int_seconds now) (int_seconds expires_at) nonce));
               token = body @ CHR ''.'' # sign_body hmac sg body
           in Inr \<lparr>pv_request = bc_request b, pv_observed = observed_before_minor, pv_token = token,
                  pv_request_hash = request_proof hmac isofmt sg b, pv_preview_hash = sha256 token,
                  pv_issued = now, pv_expires = expires_at\<rparr>))"

section \<open>verify\<close>

definition malformed :: exn where
  "malformed = PreviewTokenError ''preview_invalid'' ''Preview token is malformed''"

definition bad_payload :: exn where
  "bad_payload = PreviewTokenError ''preview_invalid'' ''Preview token payload is invalid''"

text \<open>\<open>token.split(".", 1)\<close>, unpacked into two parts.\<close>

definition split_token :: "string \<Rightarrow> (string \<times> string) option" where
  "split_token token = (case dropWhile (\<lambda>c. c \<noteq> CHR ''.'') token of
      [] \<Rightarrow> None | _ # rest \<Rightarrow> Some (takeWhile (\<lambda>c. c \<noteq> CHR ''.'') token, rest))"

definition ascii :: "string \<Rightarrow> bool" where
  "ascii s \<longleftrightarrow> (\<forall>c \<in> set s. (of_char c :: nat) < 128)"

text \<open>
  \<open>payload[k]\<close> as \<open>int(...)\<close>, as \<open>str(...)\<close> and as minor units: a missing key and a value
  that cannot be converted raise; so do, in the model, the values \<open>issue\<close> never writes whose
  conversion is not modelled (a text as \<open>int\<close>, a list or an object as \<open>str\<close>).
\<close>

definition item_int :: "string \<Rightarrow> (string \<times> json) list \<Rightarrow> int option" where
  "item_int k kvs = (case map_of kvs k of Some (JInt n) \<Rightarrow> Some n | Some (JBool b) \<Rightarrow> Some (if b then 1 else 0) | _ \<Rightarrow> None)"

definition item_str :: "string \<Rightarrow> (string \<times> json) list \<Rightarrow> string option" where
  "item_str k kvs = (case map_of kvs k of Some (JStr s) \<Rightarrow> Some s | Some (JInt n) \<Rightarrow> Some (int_str n)
     | Some (JBool b) \<Rightarrow> Some (if b then ''True'' else ''False'') | Some JNull \<Rightarrow> Some ''None'' | _ \<Rightarrow> None)"

definition item_minor :: "string \<Rightarrow> (string \<times> json) list \<Rightarrow> int option" where
  "item_minor k kvs = (case map_of kvs k of Some (JInt n) \<Rightarrow> if 0 \<le> n then Some n else None | _ \<Rightarrow> None)"

text \<open>\<open>datetime.fromtimestamp(seconds, tz=timezone.utc)\<close>: the years 1 to 9999.\<close>

definition from_seconds :: "int \<Rightarrow> timestamp option" where
  "from_seconds n = (if -62135596800 \<le> n \<and> n \<le> 253402300799 then Some (n * 1000000) else None)"

record token_facts =
  tf_observed :: int
  tf_issued :: timestamp
  tf_expires :: timestamp
  tf_request_hash :: string
  tf_auth_hash :: string
  tf_cred_hash :: string

definition read_payload :: "string \<Rightarrow> token_facts option" where
  "read_payload body =
     (if \<not> ascii body then None
      else case json_loads body of
        Some (JObj kvs) \<Rightarrow>
          (if map_of kvs ''v'' \<noteq> Some (JInt 2) then None
           else case (item_minor ''observed_before_minor'' kvs, Option.bind (item_int ''issued_at'' kvs) from_seconds,
                  Option.bind (item_int ''expires_at'' kvs) from_seconds, item_str ''request_hash'' kvs,
                  item_str ''authorization_snapshot_hash'' kvs, item_str ''credential_snapshot_hash'' kvs) of
             (Some obs, Some iss, Some ex, Some rh, Some ah, Some ch) \<Rightarrow>
               Some \<lparr>tf_observed = obs, tf_issued = iss, tf_expires = ex, tf_request_hash = rh, tf_auth_hash = ah,
                 tf_cred_hash = ch\<rparr>
           | _ \<Rightarrow> None)
      | _ \<Rightarrow> None)"

record verified_preview =
  vp_request_hash :: string
  vp_actor :: uuid
  vp_observed :: int
  vp_issued :: timestamp
  vp_expires :: timestamp
  vp_preview_hash :: string
  vp_auth_hash :: string
  vp_cred_hash :: string

text \<open>\<open>hmac.compare_digest\<close> of two texts raises on a character outside ASCII.\<close>

definition digest_check :: "string \<Rightarrow> string \<Rightarrow> exn \<Rightarrow> exn option" where
  "digest_check given expected e = first_error
     [raise_if (\<not> ascii given \<or> \<not> ascii expected) OtherError, raise_if (given \<noteq> expected) e]"

definition verify_preview ::
  "mac \<Rightarrow> (string \<Rightarrow> string) \<Rightarrow> (timestamp \<Rightarrow> string) \<Rightarrow> signer \<Rightarrow> string \<Rightarrow> bound_context \<Rightarrow> timestamp
     \<Rightarrow> exn + verified_preview" where
  "verify_preview hmac sha256 isofmt sg token b now =
     (case split_token token of
        None \<Rightarrow> Inl malformed
      | Some (body, provided_signature) \<Rightarrow>
         (case (b64decode body, b64decode provided_signature) of
            (Some decoded_body, Some _) \<Rightarrow>
              (if provided_signature \<noteq> sign_body hmac sg body
               then Inl (PreviewTokenError ''preview_tampered'' ''Preview token signature is invalid'')
               else case read_payload decoded_body of
                 None \<Rightarrow> Inl bad_payload
               | Some f \<Rightarrow>
                  (case first_error
                     [raise_if (tf_expires f \<le> now) (PreviewExpiredError ''preview_expired'' ''Preview token has expired''),
                      raise_if (tf_issued f > now + 60 * 1000000 \<or> tf_expires f \<le> tf_issued f)
                        (PreviewTokenError ''preview_invalid'' ''Preview token timestamps are invalid''),
                      digest_check (tf_auth_hash f) (auth_proof hmac sg b)
                        (PreviewTokenError ''preview_authorization_changed''
                           ''Authorization changed after preview; create a new preview''),
                      digest_check (tf_cred_hash f) (cred_proof hmac isofmt sg b)
                        (PreviewTokenError ''preview_credential_changed''
                           ''Meta connection changed after preview; create a new preview''),
                      digest_check (tf_request_hash f) (request_proof hmac isofmt sg b)
                        (PreviewTokenError ''preview_request_mismatch'' ''Preview does not match the actor or request'')] of
                     Some e \<Rightarrow> Inl e
                   | None \<Rightarrow> Inr \<lparr>vp_request_hash = tf_request_hash f, vp_actor = bc_actor b, vp_observed = tf_observed f,
                       vp_issued = tf_issued f, vp_expires = tf_expires f, vp_preview_hash = sha256 token,
                       vp_auth_hash = tf_auth_hash f, vp_cred_hash = tf_cred_hash f\<rparr>))
          | _ \<Rightarrow> Inl malformed))"

section \<open>preview and submit\<close>

definition signer_unavailable :: exn where
  "signer_unavailable = BudgetValidationError ''preview_signer_unavailable'' ''Budget preview signing is unavailable''"

definition current_context :: "request \<Rightarrow> actor \<Rightarrow> credential \<Rightarrow> bound_context" where
  "current_context q a cr = \<lparr>bc_request = q, bc_actor = a_user a, bc_auth = budget_authorization_snapshot a q,
     bc_cred = budget_credential_audit_snapshot cr\<rparr>"

definition saga_preview ::
  "mac \<Rightarrow> 'w saga_env \<Rightarrow> signer option \<Rightarrow> request \<Rightarrow> actor \<Rightarrow> tenant \<Rightarrow> credential \<Rightarrow> timestamp \<Rightarrow> string
     \<Rightarrow> ('s, 'w) saga \<Rightarrow> (exn + budget_preview) \<times> ('s, 'w) saga" where
  "saga_preview hmac env preview_signer q a t cr now nonce s =
     (case preview_signer of
        None \<Rightarrow> (Inl signer_unavailable, s)
      | Some sg \<Rightarrow>
         (case authorize_budget_write q a t cr of
            Some e \<Rightarrow> (Inl e, s)
          | None \<Rightarrow>
             (case ev_read env q (sg_world s) of
                (Inl e, w) \<Rightarrow> (Inl e, s\<lparr>sg_world := w\<rparr>)
              | (Inr sn, w) \<Rightarrow>
                 (case first_error
                    [snapshot_matches_request sn q,
                     raise_if (sn_amount sn = rq_amount q) (BudgetConflictError ''provider_budget_no_change''
                       ''Requested budget already matches the current provider value''),
                     raise_if (rq_expected q \<noteq> None \<and> rq_expected q \<noteq> Some (sn_amount sn))
                       (BudgetConflictError ''expected_budget_changed''
                         ''Provider budget changed before preview; refresh and confirm the new value'')] of
                    Some e \<Rightarrow> (Inl e, s\<lparr>sg_world := w\<rparr>)
                  | None \<Rightarrow> (issue_preview hmac (ev_sha256 env) (ev_isofmt env) sg (current_context q a cr) (sn_amount sn)
                      now nonce, s\<lparr>sg_world := w\<rparr>)))))"

definition saga_submit ::
  "'s store_ops \<Rightarrow> mac \<Rightarrow> 'w saga_env \<Rightarrow> signer option \<Rightarrow> uuid \<Rightarrow> request \<Rightarrow> string \<Rightarrow> string \<Rightarrow> actor \<Rightarrow> tenant
     \<Rightarrow> credential \<Rightarrow> timestamp \<Rightarrow> ('s, 'w) saga \<Rightarrow> (exn + submission) \<times> ('s, 'w) saga" where
  "saga_submit ops hmac env preview_signer i q preview_token idempotency_key a t cr now s =
     (case preview_signer of
        None \<Rightarrow> (Inl signer_unavailable, s)
      | Some sg \<Rightarrow>
         (case authorize_budget_write q a t cr of
            Some e \<Rightarrow> (Inl e, s)
          | None \<Rightarrow>
             (case verify_preview hmac (ev_sha256 env) (ev_isofmt env) sg preview_token (current_context q a cr) now of
                Inl e \<Rightarrow> (Inl e, s)
              | Inr v \<Rightarrow>
                 (case validate_idempotency_key idempotency_key of
                    Inl e \<Rightarrow> (Inl e, s)
                  | Inr key \<Rightarrow>
                     (case so_create ops i
                        \<lparr>cn_request = q, cn_actor = a_user a, cn_auth = budget_authorization_snapshot a q,
                         cn_cred = budget_credential_audit_snapshot cr, cn_key = key,
                         cn_request_hash = command_idempotency_hash (ev_sha256 env) q (a_user a) (vp_request_hash v)
                           (vp_observed v),
                         cn_preview_hash = vp_preview_hash v, cn_before = vp_observed v, cn_now = now\<rparr> (sg_store s) of
                        (r, st) \<Rightarrow> (r, s\<lparr>sg_store := st\<rparr>))))))"

section \<open>Reading back what was issued\<close>

lemma ascii_simps [simp]: "ascii []" "ascii (c # s) \<longleftrightarrow> (of_char c :: nat) < 128 \<and> ascii s" "ascii (s @ t) \<longleftrightarrow> ascii s \<and> ascii t"
  by (auto simp: ascii_def)

lemma ascii_hex_digit: "d < 16 \<Longrightarrow> (of_char (hex_digit d) :: nat) < 128"
  by (simp add: of_hex_digit)

lemma ascii_hex_digits [simp]: "ascii (hex_digits k n)"
  by (induction k arbitrary: n) (simp_all add: ascii_hex_digit)

lemma ascii_concat: "\<forall>x \<in> set xs. ascii x \<Longrightarrow> ascii (concat xs)"
  by (induction xs) simp_all

lemma ascii_hex_bytes [simp]: "ascii (hex_bytes bs)"
  unfolding hex_bytes_def by (rule ascii_concat) simp

lemma ascii_escape: "ascii (json_escape c)"
  by (auto simp: json_escape_def Let_def)

lemma ascii_json_string [simp]: "ascii (json_string s)"
  unfolding json_string_def by (simp add: ascii_concat ascii_escape)

lemma ascii_nat_str [simp]: "ascii (nat_str n)"
  using nat_str_digits [of _ n] by (force simp: ascii_def is_digit_def)

lemma ascii_comma_join: "\<forall>x \<in> set xs. ascii x \<Longrightarrow> ascii (comma_join xs)"
  by (cases xs) (auto simp: comma_join_def intro!: ascii_concat)

lemma ascii_dumps: "ascii (json_dumps v)"
  by (induction v rule: json_dumps.induct)
    (auto simp: int_str_def intro!: ascii_comma_join)

lemma map_of_sort_key: "distinct (map fst kvs) \<Longrightarrow> map_of (sort_key f kvs) = map_of kvs"
  by (rule map_of_inject_set [THEN iffD2]) (auto simp: distinct_map)

text \<open>What a parsed object holds under its keys.\<close>

lemma json_loads_obj:
  assumes "json_wf (JObj kvs)"
  obtains kvs' where "json_loads (json_dumps (JObj kvs)) = Some (JObj kvs')"
    "\<And>k. map_of kvs' k = map_option json_norm (map_of kvs k)"
proof -
  let ?kvs' = "sort_key (\<lambda>e. char_key (fst e)) (map (\<lambda>e. (fst e, json_norm (snd e))) kvs)"
  have "json_loads (json_dumps (JObj kvs)) = Some (JObj ?kvs')" using json_loads_dumps [OF assms] by simp
  moreover have "map_of ?kvs' k = map_option json_norm (map_of kvs k)" for k
  proof -
    have "distinct (map fst (map (\<lambda>e. (fst e, json_norm (snd e))) kvs))" using assms by (simp add: comp_def)
    then have "map_of ?kvs' k = map_of (map (\<lambda>e. (fst e, json_norm (snd e))) kvs) k" by (simp only: map_of_sort_key)
    also have "\<dots> = map_option json_norm (map_of kvs k)" by (induction kvs) auto
    finally show ?thesis .
  qed
  ultimately show ?thesis by (rule that)
qed

lemma read_token_payload:
  assumes "0 \<le> obs" "from_seconds iss = Some ti" "from_seconds ex = Some te"
  shows "read_payload (json_dumps (token_payload rh ah ch obs iss ex nonce)) =
    Some \<lparr>tf_observed = obs, tf_issued = ti, tf_expires = te, tf_request_hash = rh, tf_auth_hash = ah, tf_cred_hash = ch\<rparr>"
proof -
  let ?kvs = "[(''v'', JInt 2), (''request_hash'', JStr rh), (''authorization_snapshot_hash'', JStr ah),
      (''credential_snapshot_hash'', JStr ch), (''observed_before_minor'', JInt obs),
      (''issued_at'', JInt iss), (''expires_at'', JInt ex), (''nonce'', JStr nonce)]"
  have p: "token_payload rh ah ch obs iss ex nonce = JObj ?kvs" by (simp add: token_payload_def)
  obtain kvs' where l: "json_loads (json_dumps (JObj ?kvs)) = Some (JObj kvs')"
    "\<And>k. map_of kvs' k = map_option json_norm (map_of ?kvs k)"
    by (rule json_loads_obj [of ?kvs]) simp_all
  show ?thesis unfolding p read_payload_def l(1)
    using ascii_dumps [of "JObj ?kvs"] assms by (simp add: l(2) item_minor_def item_int_def item_str_def del: json_dumps.simps)
qed

lemma split_token_body: "CHR ''.'' \<notin> set body \<Longrightarrow> split_token (body @ CHR ''.'' # sig) = Some (body, sig)"
proof -
  assume "CHR ''.'' \<notin> set body"
  then have "\<forall>c \<in> set body. c \<noteq> CHR ''.''" by auto
  then show ?thesis by (simp add: split_token_def takeWhile_append2 dropWhile_append2)
qed

lemma ascii_proofs [simp]: "ascii (auth_proof hmac sg b)" "ascii (cred_proof hmac isofmt sg b)" "ascii (request_proof hmac isofmt sg b)"
  by (simp_all add: auth_proof_def cred_proof_def request_proof_def context_proof_def)

text \<open>Verifying an issued token is checking its times and the proofs of the present context.\<close>

lemma verify_issued:
  assumes mac: "\<And>k m. hmac k m \<noteq> []"
    and iss: "issue_preview hmac sha256 isofmt sg b obs now nonce = Inr p"
    and rng: "from_seconds (int_seconds now) = Some ti" "from_seconds (int_seconds (now + sg_ttl sg * 1000000)) = Some te"
  shows "verify_preview hmac sha256 isofmt sg (pv_token p) b' now' =
    (case first_error
       [raise_if (te \<le> now') (PreviewExpiredError ''preview_expired'' ''Preview token has expired''),
        raise_if (ti > now' + 60 * 1000000 \<or> te \<le> ti)
          (PreviewTokenError ''preview_invalid'' ''Preview token timestamps are invalid''),
        raise_if (auth_proof hmac sg b \<noteq> auth_proof hmac sg b')
          (PreviewTokenError ''preview_authorization_changed'' ''Authorization changed after preview; create a new preview''),
        raise_if (cred_proof hmac isofmt sg b \<noteq> cred_proof hmac isofmt sg b')
          (PreviewTokenError ''preview_credential_changed'' ''Meta connection changed after preview; create a new preview''),
        raise_if (request_proof hmac isofmt sg b \<noteq> request_proof hmac isofmt sg b')
          (PreviewTokenError ''preview_request_mismatch'' ''Preview does not match the actor or request'')] of
       Some e \<Rightarrow> Inl e
     | None \<Rightarrow> Inr \<lparr>vp_request_hash = pv_request_hash p, vp_actor = bc_actor b', vp_observed = obs, vp_issued = ti,
         vp_expires = te, vp_preview_hash = pv_preview_hash p, vp_auth_hash = auth_proof hmac sg b,
         vp_cred_hash = cred_proof hmac isofmt sg b\<rparr>)"
proof -
  have obs: "0 \<le> obs"
    using iss by (auto simp: issue_preview_def require_minor_units_Inr Let_def split: sum.splits)
  let ?text = "json_dumps (token_payload (request_proof hmac isofmt sg b) (auth_proof hmac sg b)
      (cred_proof hmac isofmt sg b) obs (int_seconds now) (int_seconds (now + sg_ttl sg * 1000000)) nonce)"
  let ?body = "b64encode ?text"
  have p: "pv_token p = ?body @ CHR ''.'' # sign_body hmac sg ?body" "pv_request_hash p = request_proof hmac isofmt sg b"
    "pv_preview_hash p = sha256 (pv_token p)"
    using iss obs by (auto simp: issue_preview_def require_minor_units_def Let_def)
  have ne: "?text \<noteq> []" using dumps_hd by (metis list.distinct(1))
  have sig: "b64decode (sign_body hmac sg ?body) \<noteq> None"
    unfolding sign_body_def using b64decode_encode [OF mac] by simp
  have chk: "digest_check x y e = raise_if (x \<noteq> y) e" if "ascii x" "ascii y" for x y e
    using that by (simp add: digest_check_def raise_if_def)
  show ?thesis
    unfolding verify_preview_def p(1) split_token_body [OF b64encode_no_dot] option.case prod.case
      b64decode_encode [OF ne]
    using sig read_token_payload [OF obs rng] p(2,3)
    by (auto simp: chk p(1) split: option.split)
qed

end
