(* ===== verification/Provider_Preview_Theorems.thy ===== *)
theory Provider_Preview_Theorems
  imports Provider_Preview Provider_Theorems
begin

text \<open>
  What a preview token promises: it is accepted for the context it was issued for until it
  expires, for no other request, only with a valid signature, and it pays for one command.
\<close>

section \<open>Collisions\<close>

lemma hex_digits_two_inj: "m < 256 \<Longrightarrow> n < 256 \<Longrightarrow> hex_digits 2 m = hex_digits 2 n \<Longrightarrow> m = n"
proof -
  assume m: "m < 256" and n: "n < 256" and eq: "hex_digits 2 m = hex_digits 2 n"
  have "hex_number (hex_digits 2 m) = Some m" "hex_number (hex_digits 2 n) = Some n"
    by (rule hex_number_digits, use m n in simp)+
  with eq show ?thesis by (metis option.inject)
qed

lemma hex_bytes_inj: "hex_bytes a = hex_bytes b \<Longrightarrow> a = b"
proof (induction a arbitrary: b)
  case Nil
  show ?case
  proof (cases b)
    case (Cons x ys)
    have "length (hex_bytes b) \<ge> 2" unfolding Cons hex_bytes_def by simp
    moreover have "length (hex_bytes b) = 0" using Nil by (metis hex_bytes_def list.simps(8) concat.simps(1) list.size(3))
    ultimately show ?thesis by simp
  qed simp
next
  case (Cons x xs)
  then obtain y ys where b: "b = y # ys" by (cases b) (auto simp: hex_bytes_def dest: arg_cong [where f = length])
  have "hex_digits 2 (of_char x) @ hex_bytes xs = hex_digits 2 (of_char y) @ hex_bytes ys"
    using Cons(2) unfolding b hex_bytes_def by simp
  then have h: "hex_digits 2 (of_char x) = hex_digits 2 (of_char y)" "hex_bytes xs = hex_bytes ys"
    by (simp_all add: append_eq_append_conv)
  have "(of_char x :: nat) = of_char y" by (rule hex_digits_two_inj [OF _ _ h(1)]) simp_all
  then have "x = y" by (metis char_of_char)
  with Cons(1) [OF h(2)] b show ?case by simp
qed

text \<open>Two values with one text are the same up to the order of keys.\<close>

lemma json_dumps_inj: "json_wf v \<Longrightarrow> json_wf w \<Longrightarrow> json_dumps v = json_dumps w \<Longrightarrow> json_norm v = json_norm w"
  using json_loads_dumps [of v] json_loads_dumps [of w] by simp

lemma json_norm_obj:
  assumes "json_norm (JObj kvs) = json_norm (JObj kvs')" "distinct (map fst kvs)" "distinct (map fst kvs')"
  shows "map_option json_norm (map_of kvs k) = map_option json_norm (map_of kvs' k)"
proof -
  have m: "map_of (sort_key (\<lambda>e. char_key (fst e)) (map (\<lambda>e. (fst e, json_norm (snd e))) xs)) k
      = map_option json_norm (map_of xs k)" if "distinct (map fst xs)" for xs
  proof -
    have "distinct (map fst (map (\<lambda>e. (fst e, json_norm (snd e))) xs))" using that by (simp add: comp_def)
    then have "map_of (sort_key (\<lambda>e. char_key (fst e)) (map (\<lambda>e. (fst e, json_norm (snd e))) xs)) k
        = map_of (map (\<lambda>e. (fst e, json_norm (snd e))) xs) k" by (simp only: map_of_sort_key)
    also have "\<dots> = map_option json_norm (map_of xs k)" by (induction xs) auto
    finally show ?thesis .
  qed
  show ?thesis using m [OF assms(2)] m [OF assms(3)] assms(1) by simp
qed

lemma payload_wf [simp]: "json_wf (request_payload q)" "json_wf (JObj (auth_payload sa))" "json_wf (JObj (cred_payload f sc))"
proof -
  have opt: "json_wf (jopt f x)" if "\<And>y. json_wf (f y)" for f :: "'z \<Rightarrow> json" and x
    using that by (cases x) simp_all
  show "json_wf (request_payload q)" by (simp add: request_payload_def jopt_uuid_def opt)
  show "json_wf (JObj (auth_payload sa))" by (simp add: auth_payload_def jopt_uuid_def opt)
  show "json_wf (JObj (cred_payload f sc))" by (simp add: cred_payload_def opt)
qed

lemma bound_payload_wf: "json_wf (bound_payload f b)"
  using payload_wf by (simp add: bound_payload_def)

section \<open>The token\<close>

text \<open>
  C32: An accepted token carries the signer's MAC of its body and nothing else verifies: the token is
  the body, a dot and the encoded MAC; it has not expired; its proofs are those of the present
  request, actor, authorization and credential; and the amount it carries is not negative.
\<close>
theorem verify_sound:
  assumes "verify_preview hmac sha256 isofmt sg token b now = Inr v"
  shows "\<exists>body raw. token = body @ CHR ''.'' # b64encode (hmac (sg_secret sg) body) \<and> body = b64encode raw
    \<and> read_payload raw = Some \<lparr>tf_observed = vp_observed v, tf_issued = vp_issued v, tf_expires = vp_expires v,
        tf_request_hash = request_proof hmac isofmt sg b, tf_auth_hash = auth_proof hmac sg b,
        tf_cred_hash = cred_proof hmac isofmt sg b\<rparr>
    \<and> now < vp_expires v \<and> vp_issued v < vp_expires v \<and> vp_issued v \<le> now + 60 * 1000000
    \<and> 0 \<le> vp_observed v \<and> vp_preview_hash v = sha256 token \<and> vp_request_hash v = request_proof hmac isofmt sg b"
proof -
  obtain body sig where st: "split_token token = Some (body, sig)"
    using assms by (cases "split_token token") (auto simp: verify_preview_def)
  obtain raw where t: "b64decode body = Some raw"
    using assms st by (cases "b64decode body") (auto simp: verify_preview_def)
  obtain s2 where s2: "b64decode sig = Some s2"
    using assms st t by (cases "b64decode sig") (auto simp: verify_preview_def)
  have sig: "sig = sign_body hmac sg body"
    using assms st t s2 by (auto simp: verify_preview_def split: if_splits)
  obtain f where f: "read_payload raw = Some f"
    using assms st t s2 sig by (cases "read_payload raw") (auto simp: verify_preview_def)
  have ok: "\<not> tf_expires f \<le> now" "\<not> (tf_issued f > now + 60 * 1000000 \<or> tf_expires f \<le> tf_issued f)"
    "tf_auth_hash f = auth_proof hmac sg b" "tf_cred_hash f = cred_proof hmac isofmt sg b"
    "tf_request_hash f = request_proof hmac isofmt sg b"
    and v: "v = \<lparr>vp_request_hash = tf_request_hash f, vp_actor = bc_actor b, vp_observed = tf_observed f,
      vp_issued = tf_issued f, vp_expires = tf_expires f, vp_preview_hash = sha256 token,
      vp_auth_hash = tf_auth_hash f, vp_cred_hash = tf_cred_hash f\<rparr>"
    using assms st t s2 sig f by (auto simp: verify_preview_def digest_check_def guard_simps split: option.splits)
  have tok: "token = body @ CHR ''.'' # sig"
  proof -
    obtain c rest where d: "dropWhile (\<lambda>c. c \<noteq> CHR ''.'') token = c # rest"
      using st by (cases "dropWhile (\<lambda>c. c \<noteq> CHR ''.'') token") (auto simp: split_token_def)
    have "c = CHR ''.''" using hd_dropWhile [of "\<lambda>c. c \<noteq> CHR ''.''" token] d by simp
    with d st show ?thesis using takeWhile_dropWhile_id [of "\<lambda>c. c \<noteq> CHR ''.''" token]
      by (auto simp: split_token_def)
  qed
  have obs: "0 \<le> tf_observed f"
    using f by (auto simp: read_payload_def item_minor_def split: if_splits option.splits json.splits)
  show ?thesis
    by (intro exI [of _ body] exI [of _ raw])
      (use tok sig b64decode_canonical [OF t] f ok v obs in \<open>simp add: sign_body_def\<close>)
qed

text \<open>
  C33: A preview is accepted for the context it was issued for, with the amount and hashes it was
  issued with, from a minute before its issue until the second it expires in, and refused as expired
  from then on.
\<close>
theorem preview_accepted:
  assumes mac: "\<And>k m. hmac k m \<noteq> []"
    and iss: "issue_preview hmac sha256 isofmt sg b obs now nonce = Inr p"
    and ttl: "1 \<le> sg_ttl sg" and t: "0 \<le> now" "now + sg_ttl sg * 1000000 < 253402300800 * 1000000"
    and late: "now \<le> now' + 60 * 1000000"
  shows "verify_preview hmac sha256 isofmt sg (pv_token p) b now' =
    (if (now + sg_ttl sg * 1000000) div 1000000 * 1000000 \<le> now'
     then Inl (PreviewExpiredError ''preview_expired'' ''Preview token has expired'')
     else Inr \<lparr>vp_request_hash = pv_request_hash p, vp_actor = bc_actor b, vp_observed = obs,
         vp_issued = now div 1000000 * 1000000, vp_expires = (now + sg_ttl sg * 1000000) div 1000000 * 1000000,
         vp_preview_hash = pv_preview_hash p, vp_auth_hash = auth_proof hmac sg b,
         vp_cred_hash = cred_proof hmac isofmt sg b\<rparr>)"
proof -
  have e: "(now + sg_ttl sg * 1000000) div 1000000 = now div 1000000 + sg_ttl sg" by simp
  have bound: "now div 1000000 + sg_ttl sg \<le> 253402300799" "0 \<le> now div 1000000" using t e by linarith+
  have sec: "int_seconds now = now div 1000000" "int_seconds (now + sg_ttl sg * 1000000) = now div 1000000 + sg_ttl sg"
    using t ttl by (simp_all add: int_seconds_def)
  have rng: "from_seconds (int_seconds now) = Some (now div 1000000 * 1000000)"
    "from_seconds (int_seconds (now + sg_ttl sg * 1000000)) = Some ((now div 1000000 + sg_ttl sg) * 1000000)"
    using bound ttl by (simp_all add: sec from_seconds_def)
  have le: "now div 1000000 * 1000000 \<le> now' + 60 * 1000000" using late by linarith
  show ?thesis
    unfolding verify_issued [OF mac iss rng] e
    using le ttl by (auto simp: first_error_Cons raise_if_def)
qed

text \<open>
  A preview is spent on nothing else: when the MAC does not collide on the two request
  proofs, a token issued for one context verifies in another only if actor, amount, target, field, currency, accounts and the
  expected value are the same.
\<close>
theorem preview_bound:
  assumes mac: "\<And>k m. hmac k m \<noteq> []" 
    and inj: "hmac (sg_secret sg) (request_material isofmt b) = hmac (sg_secret sg) (request_material isofmt b') \<Longrightarrow>
      request_material isofmt b = request_material isofmt b'"
    and iss: "issue_preview hmac sha256 isofmt sg b obs now nonce = Inr p"
    and rng: "from_seconds (int_seconds now) = Some ti" "from_seconds (int_seconds (now + sg_ttl sg * 1000000)) = Some te"
    and ok: "verify_preview hmac sha256 isofmt sg (pv_token p) b' now' = Inr v"
  shows "str_uuid (bc_actor b) = str_uuid (bc_actor b') \<and> rq_amount (bc_request b) = rq_amount (bc_request b')
    \<and> rq_target_id (bc_request b) = rq_target_id (bc_request b')
    \<and> rq_target_type (bc_request b) = rq_target_type (bc_request b') \<and> rq_field (bc_request b) = rq_field (bc_request b')
    \<and> rq_currency (bc_request b) = rq_currency (bc_request b')
    \<and> rq_provider_account (bc_request b) = rq_provider_account (bc_request b')
    \<and> str_uuid (rq_client (bc_request b)) = str_uuid (rq_client (bc_request b'))
    \<and> str_uuid (rq_credential (bc_request b)) = str_uuid (rq_credential (bc_request b'))
    \<and> rq_expected (bc_request b) = rq_expected (bc_request b')"
proof -
  have "request_proof hmac isofmt sg b = request_proof hmac isofmt sg b'"
    using ok unfolding verify_issued [OF mac iss rng] by (auto simp: guard_simps split: option.splits)
  then have "hmac (sg_secret sg) (request_material isofmt b) = hmac (sg_secret sg) (request_material isofmt b')"
    unfolding request_proof_def context_proof_def request_material_def by (rule hex_bytes_inj)
  from inj [OF this] have "json_dumps (bound_payload isofmt b) = json_dumps (bound_payload isofmt b')"
    by (simp add: request_material_def)
  then have n: "json_norm (bound_payload isofmt b) = json_norm (bound_payload isofmt b')"
    by (rule json_dumps_inj [OF bound_payload_wf bound_payload_wf])
  have key: "map_option json_norm (map_of [(''actor_user_id'', JStr (str_uuid (bc_actor b))),
      (''request'', request_payload (bc_request b)), (''authorization_snapshot'', JObj (auth_payload (bc_auth b))),
      (''credential_snapshot'', JObj (cred_payload isofmt (bc_cred b)))] k)
    = map_option json_norm (map_of [(''actor_user_id'', JStr (str_uuid (bc_actor b'))),
      (''request'', request_payload (bc_request b')), (''authorization_snapshot'', JObj (auth_payload (bc_auth b'))),
      (''credential_snapshot'', JObj (cred_payload isofmt (bc_cred b')))] k)" for k
    by (rule json_norm_obj [OF n [unfolded bound_payload_def]]) simp_all
  have a: "str_uuid (bc_actor b) = str_uuid (bc_actor b')" using key [of "''actor_user_id''"] by simp
  have r: "json_norm (request_payload (bc_request b)) = json_norm (request_payload (bc_request b'))"
    using key [of "''request''"] by simp
  note q = json_norm_obj [OF r [unfolded request_payload_def]]
  have opt: "jopt JInt x = jopt JInt y \<longleftrightarrow> x = y" for x y by (cases x; cases y) simp_all
  have nopt: "json_norm (jopt JInt x) = jopt JInt x" for x by (cases x) simp_all
  have tt: "target_value x = target_value y \<Longrightarrow> x = y" for x y by (cases x; cases y) simp_all
  have ff: "field_value x = field_value y \<Longrightarrow> x = y" for x y by (cases x; cases y) simp_all
  show ?thesis
    using a q [of "''amount_minor''"] q [of "''provider_target_id''"] q [of "''target_type''"] q [of "''field''"]
      q [of "''currency''"] q [of "''provider_account_id''"] q [of "''client_id''"] q [of "''credential_id''"]
      q [of "''expected_current_minor''"]
    by (simp add: nopt opt tt ff)
qed

section \<open>An example token\<close>

definition ex_mac :: mac where
  "ex_mac = (\<lambda>k m. CHR ''h'' # m)"

definition ex_signer :: signer where
  "ex_signer = \<lparr>sg_secret = replicate 32 (CHR ''s''), sg_ttl = 300\<rparr>"

definition ex_bound :: bound_context where
  "ex_bound = current_context ex_request ex_actor ex_cred"

abbreviation ex_issue :: "exn + budget_preview" where
  "ex_issue \<equiv> issue_preview ex_mac (ev_sha256 ex_env) (ev_isofmt ex_env) ex_signer ex_bound 5000 7000000 ''nonce''"

definition ex_preview :: budget_preview where
  "ex_preview = projr ex_issue"

lemma ex_mac_nonempty: "ex_mac k m \<noteq> []"
  by (simp add: ex_mac_def)

lemma ex_issued: "ex_issue = Inr ex_preview"
  unfolding ex_preview_def by (simp add: issue_preview_def Let_def require_minor_units_def del: json_dumps.simps)

lemma ex_range: "from_seconds (int_seconds 7000000) = Some 7000000"
  "from_seconds (int_seconds (7000000 + sg_ttl ex_signer * 1000000)) = Some 307000000"
  by (simp_all add: int_seconds_def from_seconds_def ex_signer_def)

definition ex_verified :: verified_preview where
  "ex_verified = \<lparr>vp_request_hash = pv_request_hash ex_preview, vp_actor = 9, vp_observed = 5000, vp_issued = 7000000,
     vp_expires = 307000000, vp_preview_hash = pv_preview_hash ex_preview,
     vp_auth_hash = auth_proof ex_mac ex_signer ex_bound, vp_cred_hash = cred_proof ex_mac (ev_isofmt ex_env) ex_signer ex_bound\<rparr>"

lemma ex_verify: "verify_preview ex_mac (ev_sha256 ex_env) (ev_isofmt ex_env) ex_signer (pv_token ex_preview) ex_bound 8000000 = Inr ex_verified"
  unfolding verify_issued [OF ex_mac_nonempty ex_issued ex_range]
  by (simp add: ex_verified_def ex_bound_def current_context_def ex_actor_def)

lemma verify_sound_witness:
  "\<exists>body. pv_token ex_preview = body @ CHR ''.'' # b64encode (ex_mac (sg_secret ex_signer) body)"
  using verify_sound [OF ex_verify] by blast

lemma preview_accepted_witness:
  "\<exists>v. verify_preview ex_mac (ev_sha256 ex_env) (ev_isofmt ex_env) ex_signer (pv_token ex_preview) ex_bound 306999999 = Inr v
     \<and> vp_observed v = 5000"
  using preview_accepted [OF ex_mac_nonempty ex_issued, of 306999999] by (simp add: ex_signer_def)

lemma preview_bound_witness:
  "rq_amount (bc_request ex_bound) = 12000 \<and> str_uuid (bc_actor ex_bound) = str_uuid (bc_actor ex_bound)"
  using preview_bound [OF ex_mac_nonempty _ ex_issued ex_range ex_verify]
  by (simp add: ex_bound_def current_context_def ex_amounts)

section \<open>Submissions\<close>

text \<open>
  C34: A submission that creates a command had an authorized caller and an accepted preview token:
  the new command is queued with the caller as its actor, the previewed amount, the token's hash and
  the caller's present snapshots; nothing is sent to the provider, and every other command stays.
\<close>
theorem submit_binds_preview:
  assumes v: "ledger_valid (sg_store s)" and new: "sql_cmd_get i (sg_store s) = None"
    and run: "saga_submit sql_cmd_ops hmac env (Some sg) i q token key a t cr now s = (Inr sub, s')" "\<not> sb_replayed sub"
  shows "authorize_budget_write q a t cr = None
    \<and> (\<exists>vp. verify_preview hmac (ev_sha256 env) (ev_isofmt env) sg token (current_context q a cr) now = Inr vp
        \<and> cm_before (sb_command sub) = vp_observed vp \<and> cm_preview_hash (sb_command sub) = ev_sha256 env token)
    \<and> cm_status (sb_command sub) = Queued \<and> cm_request (sb_command sub) = q \<and> cm_actor (sb_command sub) = a_user a
    \<and> cm_auth (sb_command sub) = budget_authorization_snapshot a q \<and> cm_cred (sb_command sub) = budget_credential_audit_snapshot cr
    \<and> sg_posts s' = sg_posts s \<and> sg_world s' = sg_world s
    \<and> (\<forall>j. sql_cmd_get j (sg_store s') = (if j = i then Some (sb_command sub) else sql_cmd_get j (sg_store s)))"
proof -
  have auth: "authorize_budget_write q a t cr = None"
    using run(1) by (cases "authorize_budget_write q a t cr") (auto simp: saga_submit_def)
  obtain vp where vp: "verify_preview hmac (ev_sha256 env) (ev_isofmt env) sg token (current_context q a cr) now = Inr vp"
    using run(1) auth by (cases "verify_preview hmac (ev_sha256 env) (ev_isofmt env) sg token (current_context q a cr) now")
      (auto simp: saga_submit_def)
  obtain k where k: "validate_idempotency_key key = Inr k"
    using run(1) auth vp by (cases "validate_idempotency_key key") (auto simp: saga_submit_def)
  let ?n = "\<lparr>cn_request = q, cn_actor = a_user a, cn_auth = budget_authorization_snapshot a q,
     cn_cred = budget_credential_audit_snapshot cr, cn_key = k,
     cn_request_hash = command_idempotency_hash (ev_sha256 env) q (a_user a) (vp_request_hash vp) (vp_observed vp),
     cn_preview_hash = vp_preview_hash vp, cn_before = vp_observed vp, cn_now = now\<rparr>"
  have c: "sql_create_or_replay i ?n (sg_store s) = (Inr sub, sg_store s')"
    and frame: "sg_posts s' = sg_posts s" "sg_world s' = sg_world s"
    using run(1) auth vp k by (auto simp: saga_submit_def sql_cmd_ops_def split: prod.splits)
  obtain key' where row: "sb_command sub = sql_to_command (sg_store s') (new_row i key' ?n)"
    and get: "\<And>j. sql_cmd_get j (sg_store s') = (if j = i then Some (sb_command sub) else sql_cmd_get j (sg_store s))"
    using create_state [OF v new c run(2)] by metis
  have h: "vp_preview_hash vp = ev_sha256 env token"
    using vp by (auto simp: verify_preview_def split: option.splits prod.splits if_splits)
  show ?thesis
    using auth vp h get frame unfolding row by (simp add: sql_to_command_def new_row_def)
qed

lemma submit_binds_preview_witness:
  "\<exists>sub s'. saga_submit sql_cmd_ops ex_mac ex_env (Some ex_signer) 100 ex_request (pv_token ex_preview) ''key-0001''
      ex_actor ex_tenant ex_cred 8000000 ex_start = (Inr sub, s') \<and> cm_status (sb_command sub) = Queued
      \<and> cm_before (sb_command sub) = 5000 \<and> cm_request (sb_command sub) = ex_request"
proof -
  have key: "validate_idempotency_key ''key-0001'' = Inr ''key-0001''" by code_simp
  have new: "sql_cmd_get 100 (sg_store ex_start) = None" by code_simp
  have auth: "authorize_budget_write ex_request ex_actor ex_tenant ex_cred = None" by (rule ex_may_write)
  have ver: "verify_preview ex_mac (ev_sha256 ex_env) (ev_isofmt ex_env) ex_signer (pv_token ex_preview)
      (current_context ex_request ex_actor ex_cred) 8000000 = Inr ex_verified"
    using ex_verify by (simp add: ex_bound_def)
  obtain sub s' where x: "saga_submit sql_cmd_ops ex_mac ex_env (Some ex_signer) 100 ex_request (pv_token ex_preview) ''key-0001''
      ex_actor ex_tenant ex_cred 8000000 ex_start = (Inr sub, s')" "\<not> sb_replayed sub"
  proof -
    have q: "0 \<le> rq_amount ex_request" "nonneg_opt (rq_expected ex_request)" by (simp_all add: ex_amounts nonneg_opt_def)
    have "\<exists>sub s'. saga_submit sql_cmd_ops ex_mac ex_env (Some ex_signer) 100 ex_request (pv_token ex_preview) ''key-0001''
        ex_actor ex_tenant ex_cred 8000000 ex_start = (Inr sub, s') \<and> \<not> sb_replayed sub"
      using q by (simp add: saga_submit_def auth ver key sql_cmd_ops_def sql_create_or_replay_def Let_def ex_start_def
          command_row_ok_def new_row_def quarantine_find_def ex_verified_def)
    with that show ?thesis by blast
  qed
  from submit_binds_preview [OF ex_start_valid new x] ver have "cm_status (sb_command sub) = Queued"
    "cm_before (sb_command sub) = 5000" "cm_request (sb_command sub) = ex_request" by (auto simp: ex_verified_def)
  with x(1) show ?thesis by blast
qed

text \<open>
  A preview pays for one command: once a submission created a command, the same token under
  another idempotency key is refused, whatever the request, and nothing changes.
\<close>
theorem preview_single_use:
  assumes run: "sql_create_or_replay i n db = (Inr sub, db')" "\<not> sb_replayed sub"
    and same: "cn_preview_hash n2 = cn_preview_hash n"
    and key: "validate_idempotency_key (cn_key n2) = Inr key2"
    and other: "find (\<lambda>r. rq_client (cw_request r) = rq_client (cn_request n2) \<and> cw_key r = key2) (db_commands db') = None"
  shows "sql_create_or_replay j n2 db' = (Inl err_preview_consumed, db')"
proof -
  obtain key where db': "db' = db\<lparr>db_commands := db_commands db @ [new_row i key n]\<rparr>"
    using run by (auto simp: sql_create_or_replay_def Let_def split: sum.splits option.splits if_splits)
  have "cw_preview_hash (new_row i key n) = cn_preview_hash n2" using same by (simp add: new_row_def)
  then have "find (\<lambda>r. cw_preview_hash r = cn_preview_hash n2) (db_commands db') \<noteq> None"
    by (auto simp: db' find_None_iff)
  with key other show ?thesis by (auto simp: sql_create_or_replay_def)
qed

lemma preview_single_use_witness:
  "sql_create_or_replay 101 (ex_creation\<lparr>cn_key := ''key-0002''\<rparr>) ex_queued_db = (Inl err_preview_consumed, ex_queued_db)"
proof -
  have run: "sql_create_or_replay 100 ex_creation (sg_store ex_start)
    = (Inr \<lparr>sb_command = sql_to_command ex_queued_db (new_row 100 ''key-0001'' ex_creation), sb_replayed = False\<rparr>, ex_queued_db)"
    using ex_submit by (simp add: sql_cmd_ops_def)
  have key: "validate_idempotency_key ''key-0002'' = Inr ''key-0002''" by code_simp
  have none: "find (\<lambda>r. rq_client (cw_request r) = rq_client (cn_request (ex_creation\<lparr>cn_key := ''key-0002''\<rparr>)) \<and> cw_key r = ''key-0002'')
      (db_commands ex_queued_db) = None" by code_simp
  show ?thesis by (rule preview_single_use [OF run _ _ _ none]) (simp_all add: key)
qed

end
