(* ===== verification/Sync_Diagnostics.thy ===== *)
theory Sync_Diagnostics
  imports Provider_Types
begin

text \<open>
  \<open>sync_diagnostics.py\<close> and the classification of errors of \<open>ad_account_sync.py\<close>: the fixed
  public messages, and the code, category and retry decision of a provider error.
\<close>

section \<open>Public messages\<close>

definition sync_error_messages :: "(string \<times> string) list" where
  "sync_error_messages =
    [(''provider_payload_invalid'', ''The provider returned invalid metric data. No rows were saved; check the account and requested date range.''),
     (''provider_credentials_missing'', ''Provider credentials are missing or incomplete. Connect the advertising account before syncing.''),
     (''provider_reconnect_required'', ''Reconnect Meta Ads and grant advertising access before syncing.''),
     (''auth_failed'', ''Provider authorization failed. Reconnect the advertising account and verify its permissions.''),
     (''rate_limited'', ''The provider rate limit was reached. Synchronization will retry after the scheduled delay.''),
     (''provider_unavailable'', ''The provider is temporarily unavailable. Synchronization will retry after the scheduled delay.''),
     (''invalid_request'', ''The provider rejected the sync request. Check the advertising account and requested date range.''),
     (''provider_not_supported'', ''Synchronization is not supported for this advertising provider.''),
     (''unknown_error'', ''Synchronization failed. Contact support with the sync job ID.'')]"

definition reconnect_default :: string where
  "reconnect_default = ''meta_reconnect_required''"

definition meta_reconnect_messages :: "(string \<times> string) list" where
  "meta_reconnect_messages =
    [(''meta_access_token_missing'', ''Meta Ads is not connected. Connect Meta Ads to continue.''),
     (''meta_connection_unverified'', ''This Meta connection predates verification. Reconnect Meta Ads to verify it.''),
     (''meta_token_app_mismatch'', ''This Meta connection belongs to a different application. Reconnect Meta Ads.''),
     (''meta_business_config_mismatch'', ''This Meta connection uses an outdated Business Login configuration. Reconnect Meta Ads.''),
     (''meta_token_user_missing'', ''The Meta account owner could not be verified. Reconnect Meta Ads.''),
     (''meta_permissions_missing'', ''Meta Ads permissions are incomplete. Reconnect Meta Ads and grant advertising access.''),
     (''meta_token_expiry_missing'', ''The Meta connection expiry cannot be verified. Reconnect Meta Ads.''),
     (''meta_token_expired'', ''The Meta authorization has expired. Reconnect Meta Ads.''),
     (''meta_bound_credential_missing'', ''The Meta connection assigned to this ad account is no longer active. Reconnect Meta Ads and rediscover the account.''),
     (''meta_credential_selection_required'', ''This Meta ad account is not assigned to one connection. Rediscover the account before syncing.''),
     (''meta_rediscovery_required'', ''This Meta ad account moved to another client. Rediscover it before syncing.''),
     (reconnect_default, ''Reconnect Meta Ads and grant advertising access before syncing.'')]"

definition google_manager_message :: string where
  "google_manager_message = ''Metrics cannot be requested for a manager account. Select an individual Google advertising account.''"

definition blocked_account_message :: string where
  "blocked_account_message = ''The provider customer account is blocked, disabled, or not enabled. Check its status in the provider console before syncing.''"

definition permission_message :: string where
  "permission_message = ''Provider permissions are incomplete. Check the required API scopes for this advertising account.''"

definition public_messages :: "string list" where
  "public_messages = map snd sync_error_messages @ map snd meta_reconnect_messages
     @ [google_manager_message, blocked_account_message, permission_message]"

definition unknown_message :: string where
  "unknown_message = ''Synchronization failed. Contact support with the sync job ID.''"

text \<open>\<open>marker in raw\<close>.\<close>

fun contains :: "string \<Rightarrow> string \<Rightarrow> bool" where
  "contains marker [] \<longleftrightarrow> marker = []"
| "contains marker (c # s) \<longleftrightarrow> take (length marker) (c # s) = marker \<or> contains marker s"

definition has_any :: "string list \<Rightarrow> string \<Rightarrow> bool" where
  "has_any markers raw \<longleftrightarrow> (\<exists>m \<in> set markers. contains m raw)"

text \<open>A value that is not a text is \<open>None\<close> here.\<close>

definition safe_meta_reconnect_code :: "string option \<Rightarrow> string" where
  "safe_meta_reconnect_code code = (case code of
      Some c \<Rightarrow> if c \<in> set (map fst meta_reconnect_messages) then c else reconnect_default
    | None \<Rightarrow> reconnect_default)"

definition blocked_markers :: "string list" where
  "blocked_markers = [''customer_not_enabled'', ''not enabled'', ''blocked'', ''disabled'', ''suspended'']"

definition manager_markers :: "string list" where
  "manager_markers = [''requested_metrics_for_manager'', ''metrics cannot be requested for a manager account'']"

definition message_for_code :: "string option \<Rightarrow> string" where
  "message_for_code code = (case code of
      Some c \<Rightarrow> (case map_of sync_error_messages c of Some m \<Rightarrow> m | None \<Rightarrow> unknown_message)
    | None \<Rightarrow> unknown_message)"

definition safe_sync_error_message :: "string option \<Rightarrow> string option \<Rightarrow> string" where
  "safe_sync_error_message code message = (case message of
      None \<Rightarrow> message_for_code code
    | Some m \<Rightarrow>
        if m \<in> set public_messages then m
        else (let raw = str_lower m in
          if has_any blocked_markers raw then blocked_account_message
          else if code = Some ''invalid_request'' \<and> has_any manager_markers raw then google_manager_message
          else if has_any [''scope'', ''permission'', ''forbidden''] raw then permission_message
          else message_for_code code))"

lemma message_for_code_public: "message_for_code code \<in> set public_messages"
proof -
  have u: "unknown_message \<in> set public_messages"
    by (simp add: public_messages_def sync_error_messages_def unknown_message_def)
  show ?thesis
  proof (cases code)
    case (Some c)
    then show ?thesis using u map_of_SomeD [of sync_error_messages c]
      by (cases "map_of sync_error_messages c") (force simp: message_for_code_def public_messages_def)+
  qed (simp add: message_for_code_def u)
qed

lemma safe_message_public: "safe_sync_error_message code message \<in> set public_messages"
proof -
  have p: "blocked_account_message \<in> set public_messages" "google_manager_message \<in> set public_messages"
    "permission_message \<in> set public_messages" by (simp_all add: public_messages_def)
  show ?thesis
    unfolding safe_sync_error_message_def Let_def
    using p message_for_code_public by (auto split: option.split)
qed

lemma safe_message_fixed: "m \<in> set public_messages \<Longrightarrow> safe_sync_error_message code (Some m) = m"
  by (simp add: safe_sync_error_message_def)

section \<open>Errors of a synchronisation\<close>

text \<open>
  The exceptions \<open>run_sync\<close> distinguishes; the text is \<open>_classification_text\<close> of the
  exception.  \<open>BadSignature\<close> is \<open>TypeError\<close>.
\<close>

datatype sync_error =
    PayloadInvalid string
  | CredentialsMissing string
  | ReconnectRequired string string
  | HttpError int string
  | BadSignature string
  | OtherFailure string

fun classification_text :: "sync_error \<Rightarrow> string" where
  "classification_text (PayloadInvalid m) = m"
| "classification_text (CredentialsMissing m) = m"
| "classification_text (ReconnectRequired c m) = m"
| "classification_text (HttpError st m) = m"
| "classification_text (BadSignature m) = m"
| "classification_text (OtherFailure m) = m"

text \<open>The words of a text as \<open>\b\<close> delimits them.\<close>

fun word_runs :: "string \<Rightarrow> string \<Rightarrow> string list" where
  "word_runs acc [] = [rev acc]"
| "word_runs acc (c # s) = (if is_word c then word_runs (c # acc) s else rev acc # word_runs [] s)"

definition unavailable_words :: "string list" where
  "unavailable_words = [''timeout'', ''temporar'', ''temporary'', ''temporarily'', ''unavailable'', ''connection'', ''gateway'']"

type_synonym classification = "string \<times> string \<times> bool"

definition classify_text :: "string \<Rightarrow> classification" where
  "classify_text raw =
     (if has_any manager_markers raw then (''invalid_request'', ''validation'', False)
      else if has_any [''unauthorized'', ''forbidden'', ''scope'', ''permission'', ''token''] raw
        then (''auth_failed'', ''auth'', False)
      else if has_any [''user_permission_denied'', ''customer_not_enabled''] raw then (''auth_failed'', ''auth'', False)
      else if has_any [''rate limit'', ''rate-limited'', ''rate_limited'', ''quota'', ''throttl'', ''too many requests'',
          ''resource exhausted''] raw then (''rate_limited'', ''rate_limit'', True)
      else if \<exists>w \<in> set (word_runs [] raw). w \<in> set unavailable_words then (''provider_unavailable'', ''provider'', True)
      else if has_any [''invalid'', ''bad request'', ''missing''] raw then (''invalid_request'', ''validation'', False)
      else (''unknown_error'', ''unknown'', False))"

definition classify_error :: "sync_error \<Rightarrow> classification" where
  "classify_error e =
     (let raw = str_lower (classification_text e) in
      case e of
        PayloadInvalid _ \<Rightarrow> (''provider_payload_invalid'', ''validation'', False)
      | CredentialsMissing _ \<Rightarrow> (''provider_credentials_missing'', ''configuration'', False)
      | ReconnectRequired _ _ \<Rightarrow> (''provider_reconnect_required'', ''auth'', False)
      | HttpError status _ \<Rightarrow>
          (if status \<in> {401, 403} then (''auth_failed'', ''auth'', False)
           else if status = 429 then (''rate_limited'', ''rate_limit'', True)
           else if status \<in> {500, 502, 503, 504} then (''provider_unavailable'', ''provider'', True)
           else if status \<in> {400, 404, 422} then (''invalid_request'', ''validation'', False)
           else classify_text raw)
      | _ \<Rightarrow> classify_text raw)"

definition to_error_message :: "sync_error \<Rightarrow> string" where
  "to_error_message e = (case e of
      ReconnectRequired code _ \<Rightarrow> the (map_of meta_reconnect_messages (safe_meta_reconnect_code (Some code)))
    | _ \<Rightarrow> safe_sync_error_message (Some (fst (classify_error e))) (Some (classification_text e)))"

lemma reconnect_known: "safe_meta_reconnect_code c \<in> set (map fst meta_reconnect_messages)"
  by (cases c) (simp_all add: safe_meta_reconnect_code_def meta_reconnect_messages_def)

lemma to_error_message_public: "to_error_message e \<in> set public_messages"
proof (cases e)
  case (ReconnectRequired code m)
  obtain x where x: "map_of meta_reconnect_messages (safe_meta_reconnect_code (Some code)) = Some x"
    using reconnect_known [of "Some code"] by (metis map_of_eq_None_iff list.set_map not_None_eq)
  then have "x \<in> snd ` set meta_reconnect_messages" by (force dest: map_of_SomeD)
  with x ReconnectRequired show ?thesis by (simp add: to_error_message_def public_messages_def)
qed (simp_all add: to_error_message_def safe_message_public)

section \<open>Retries\<close>

definition retry_delay :: "int \<Rightarrow> int" where
  "retry_delay attempt = min 60 (max 1 (2 ^ nat (max 0 (attempt - 1))))"

definition next_retry_at :: "timestamp \<Rightarrow> int \<Rightarrow> timestamp" where
  "next_retry_at now attempt = now + retry_delay attempt * 60 * 1000000"

lemma retry_delay_bounds: "1 \<le> retry_delay attempt" "retry_delay attempt \<le> 60"
  by (simp_all add: retry_delay_def)

lemma retry_delay_mono: "a \<le> b \<Longrightarrow> retry_delay a \<le> retry_delay b"
proof -
  assume "a \<le> b"
  then have "(2::int) ^ nat (max 0 (a - 1)) \<le> 2 ^ nat (max 0 (b - 1))" by (intro power_increasing) auto
  then show ?thesis unfolding retry_delay_def by (intro min.mono max.mono order.refl)
qed

end
