(* ===== verification/Sync_Store.thy ===== *)
theory Sync_Store
  imports Sync_Diagnostics Dictionaries
begin

text \<open>
  The job stores of \<open>ad_account_sync.py\<close>: jobs and leases of \<open>SqliteAdAccountSyncJobStore\<close>
  and of \<open>InMemoryAdAccountSyncJobStore\<close>, the interface the service uses, and what its leases
  guarantee.
\<close>

section \<open>Jobs\<close>

datatype sync_status = SyncSuccess | SyncError

record request_meta =
  rm_from :: date
  rm_to :: date
  rm_rows :: nat
  rm_empty :: bool
  rm_latest :: "date option"

record sync_job =
  sj_id :: uuid
  sj_account :: uuid
  sj_provider :: string
  sj_status :: sync_status
  sj_started :: timestamp
  sj_finished :: "timestamp option"
  sj_records :: int
  sj_error_message :: "string option"
  sj_error_code :: "string option"
  sj_error_category :: "string option"
  sj_retryable :: bool
  sj_attempt :: int
  sj_next_retry :: "timestamp option"
  sj_meta :: "request_meta option"
  sj_created_by :: "uuid option"
  sj_created :: timestamp

definition public_sync_job :: "sync_job \<Rightarrow> sync_job" where
  "public_sync_job j = (case sj_error_message j of None \<Rightarrow> j
     | Some m \<Rightarrow> j\<lparr>sj_error_message := Some (safe_sync_error_message (sj_error_code j) (Some m))\<rparr>)"

record lease_row =
  lr_key :: string
  lr_token :: nat
  lr_until :: timestamp
  lr_updated :: timestamp

record sync_db =
  sy_jobs :: "sync_job list"
  sy_leases :: "lease_row list"

text \<open>\<open>id\<close> is the primary key of the jobs.\<close>

definition sql_job_create :: "sync_job \<Rightarrow> sync_db \<Rightarrow> sync_job option \<times> sync_db" where
  "sql_job_create job db =
     (if \<exists>j \<in> set (sy_jobs db). sj_id j = sj_id job then (None, db)
      else (Some (public_sync_job job), db\<lparr>sy_jobs := sy_jobs db @ [job]\<rparr>))"

text \<open>A status filter other than \<open>all\<close>.\<close>

definition job_matches :: "uuid option \<Rightarrow> sync_status option \<Rightarrow> sync_job \<Rightarrow> bool" where
  "job_matches account_id status j \<longleftrightarrow> (case account_id of None \<Rightarrow> True | Some a \<Rightarrow> sj_account j = a)
     \<and> (case status of None \<Rightarrow> True | Some st \<Rightarrow> sj_status j = st)"

definition clamp_limit :: "int \<Rightarrow> nat" where
  "clamp_limit limit = nat (max 1 (min limit 500))"

definition sql_job_list :: "uuid option \<Rightarrow> sync_status option \<Rightarrow> int \<Rightarrow> sync_db \<Rightarrow> sync_job list" where
  "sql_job_list account_id status limit db =
     map public_sync_job (take (clamp_limit limit) (sort_desc sj_started (filter (job_matches account_id status) (sy_jobs db))))"

definition sql_latest :: "sync_db \<Rightarrow> uuid \<Rightarrow> sync_job option" where
  "sql_latest db account_id =
     map_option public_sync_job (fetchone (sort_desc sj_started (filter (\<lambda>j. sj_account j = account_id) (sy_jobs db))))"

definition sql_latest_by_account_ids :: "uuid list \<Rightarrow> sync_db \<Rightarrow> uuid \<Rightarrow> sync_job option" where
  "sql_latest_by_account_ids account_ids db =
     foldl (\<lambda>m a. case sql_latest db a of None \<Rightarrow> m | Some j \<Rightarrow> m(a \<mapsto> j)) (\<lambda>_. None) account_ids"

section \<open>Leases\<close>

definition lease_end :: "timestamp \<Rightarrow> int \<Rightarrow> timestamp" where
  "lease_end now ttl_seconds = now + max 30 ttl_seconds * 1000000"

definition lease_row_of :: "string \<Rightarrow> sync_db \<Rightarrow> lease_row option" where
  "lease_row_of k db = find (\<lambda>r. lr_key r = k) (sy_leases db)"

definition sql_acquire_lease :: "string \<Rightarrow> timestamp \<Rightarrow> int \<Rightarrow> nat \<Rightarrow> sync_db \<Rightarrow> nat option \<times> sync_db" where
  "sql_acquire_lease k now ttl_seconds token db =
     (let fresh = \<lparr>lr_key = k, lr_token = token, lr_until = lease_end now ttl_seconds, lr_updated = now\<rparr> in
      case lease_row_of k db of
        Some r \<Rightarrow> if lr_until r > now then (None, db)
          else (Some token, db\<lparr>sy_leases := update_rows (\<lambda>x. lr_key x = k) (\<lambda>_. fresh) (sy_leases db)\<rparr>)
      | None \<Rightarrow> (Some token, db\<lparr>sy_leases := sy_leases db @ [fresh]\<rparr>))"

definition sql_release_lease :: "string \<Rightarrow> nat \<Rightarrow> sync_db \<Rightarrow> sync_db" where
  "sql_release_lease k token db =
     db\<lparr>sy_leases := filter (\<lambda>r. \<not> (lr_key r = k \<and> lr_token r = token)) (sy_leases db)\<rparr>"

definition sql_renew_lease :: "string \<Rightarrow> nat \<Rightarrow> timestamp \<Rightarrow> int \<Rightarrow> sync_db \<Rightarrow> bool \<times> sync_db" where
  "sql_renew_lease k token now ttl_seconds db =
     (length (filter (\<lambda>r. lr_key r = k \<and> lr_token r = token) (sy_leases db)) = 1,
      db\<lparr>sy_leases := update_rows (\<lambda>r. lr_key r = k \<and> lr_token r = token)
          (\<lambda>r. r\<lparr>lr_until := lease_end now ttl_seconds, lr_updated := now\<rparr>) (sy_leases db)\<rparr>)"

section \<open>InMemoryAdAccountSyncJobStore\<close>

record sync_mem =
  sm_items :: "(uuid \<times> sync_job) list"
  sm_leases :: "string \<Rightarrow> (nat \<times> timestamp) option"

definition mem_job_create :: "sync_job \<Rightarrow> sync_mem \<Rightarrow> sync_job \<times> sync_mem" where
  "mem_job_create job s = (public_sync_job job, s\<lparr>sm_items := AList.update (sj_id job) job (sm_items s)\<rparr>)"

definition mem_job_list :: "uuid option \<Rightarrow> sync_status option \<Rightarrow> int \<Rightarrow> sync_mem \<Rightarrow> sync_job list" where
  "mem_job_list account_id status limit s =
     (let rows0 = map snd (sm_items s);
          rows1 = (case account_id of None \<Rightarrow> rows0 | Some a \<Rightarrow> filter (\<lambda>r. sj_account r = a) rows0);
          rows2 = (case status of None \<Rightarrow> rows1 | Some st \<Rightarrow> filter (\<lambda>r. sj_status r = st) rows1)
      in map public_sync_job (take (clamp_limit limit) (sort_desc sj_started rows2)))"

fun first_per_account :: "uuid set \<Rightarrow> sync_job list \<Rightarrow> (uuid \<Rightarrow> sync_job option) \<Rightarrow> uuid \<Rightarrow> sync_job option" where
  "first_per_account wanted [] m = m"
| "first_per_account wanted (r # rs) m =
     (if sj_account r \<in> wanted \<and> m (sj_account r) = None
      then first_per_account wanted rs (m(sj_account r \<mapsto> public_sync_job r))
      else first_per_account wanted rs m)"

definition mem_latest_by_account_ids :: "uuid list \<Rightarrow> sync_mem \<Rightarrow> uuid \<Rightarrow> sync_job option" where
  "mem_latest_by_account_ids account_ids s =
     first_per_account (set account_ids) (sort_desc sj_started (map snd (sm_items s))) (\<lambda>_. None)"

definition mem_acquire_lease :: "string \<Rightarrow> timestamp \<Rightarrow> int \<Rightarrow> nat \<Rightarrow> sync_mem \<Rightarrow> nat option \<times> sync_mem" where
  "mem_acquire_lease k now ttl_seconds token s =
     (case sm_leases s k of
        Some (t, until) \<Rightarrow> if until > now then (None, s)
          else (Some token, s\<lparr>sm_leases := (sm_leases s)(k \<mapsto> (token, lease_end now ttl_seconds))\<rparr>)
      | None \<Rightarrow> (Some token, s\<lparr>sm_leases := (sm_leases s)(k \<mapsto> (token, lease_end now ttl_seconds))\<rparr>))"

definition mem_release_lease :: "string \<Rightarrow> nat \<Rightarrow> sync_mem \<Rightarrow> sync_mem" where
  "mem_release_lease k token s =
     (case sm_leases s k of
        Some (t, until) \<Rightarrow> if t = token then s\<lparr>sm_leases := (sm_leases s)(k := None)\<rparr> else s
      | None \<Rightarrow> s)"

definition mem_renew_lease :: "string \<Rightarrow> nat \<Rightarrow> timestamp \<Rightarrow> int \<Rightarrow> sync_mem \<Rightarrow> bool \<times> sync_mem" where
  "mem_renew_lease k token now ttl_seconds s =
     (case sm_leases s k of
        Some (t, until) \<Rightarrow> if t \<noteq> token then (False, s)
          else (True, s\<lparr>sm_leases := (sm_leases s)(k \<mapsto> (token, lease_end now ttl_seconds))\<rparr>)
      | None \<Rightarrow> (False, s))"

section \<open>The lease interface\<close>

text \<open>What the service calls, and the view the laws speak of: the token and the end of a lease.\<close>

record 's lease_ops =
  lo_acquire :: "string \<Rightarrow> timestamp \<Rightarrow> int \<Rightarrow> nat \<Rightarrow> 's \<Rightarrow> nat option \<times> 's"
  lo_release :: "string \<Rightarrow> nat \<Rightarrow> 's \<Rightarrow> 's"
  lo_renew :: "string \<Rightarrow> nat \<Rightarrow> timestamp \<Rightarrow> int \<Rightarrow> 's \<Rightarrow> bool \<times> 's"
  lo_holder :: "string \<Rightarrow> 's \<Rightarrow> (nat \<times> timestamp) option"

definition sql_lease_ops :: "sync_db lease_ops" where
  "sql_lease_ops = \<lparr>lo_acquire = sql_acquire_lease, lo_release = sql_release_lease, lo_renew = sql_renew_lease,
     lo_holder = (\<lambda>k db. map_option (\<lambda>r. (lr_token r, lr_until r)) (lease_row_of k db))\<rparr>"

definition mem_lease_ops :: "sync_mem lease_ops" where
  "mem_lease_ops = \<lparr>lo_acquire = mem_acquire_lease, lo_release = mem_release_lease, lo_renew = mem_renew_lease,
     lo_holder = (\<lambda>k s. sm_leases s k)\<rparr>"

text \<open>
  Workers of one lease.  \<open>lw_running\<close> gives, for the token of each running worker, the end of
  the lease it last obtained; the clock only moves forward, and tokens are fresh.
\<close>

record 's lease_world =
  lw_store :: 's
  lw_now :: timestamp
  lw_running :: "nat \<Rightarrow> timestamp option"

definition lease_start :: "'s lease_ops \<Rightarrow> ('s \<Rightarrow> bool) \<Rightarrow> 's lease_world \<Rightarrow> bool" where
  "lease_start ops valid s \<longleftrightarrow> valid (lw_store s) \<and> lw_running s = (\<lambda>_. None)"

inductive lease_step :: "'s lease_ops \<Rightarrow> string \<Rightarrow> 's lease_world \<Rightarrow> 's lease_world \<Rightarrow> bool"
  for ops :: "'s lease_ops" and k :: string where
  ls_tick: "lw_now s \<le> t \<Longrightarrow> lease_step ops k s (s\<lparr>lw_now := t\<rparr>)"
| ls_acquire: "lw_running s token = None \<Longrightarrow> (\<forall>u. lo_holder ops k (lw_store s) \<noteq> Some (token, u)) \<Longrightarrow>
    lo_acquire ops k (lw_now s) ttl token (lw_store s) = (Some token, st) \<Longrightarrow>
    lease_step ops k s (s\<lparr>lw_store := st, lw_running := (lw_running s)(token \<mapsto> lease_end (lw_now s) ttl)\<rparr>)"
| ls_heartbeat: "lw_running s token = Some u \<Longrightarrow> lo_renew ops k token (lw_now s) ttl (lw_store s) = (True, st) \<Longrightarrow>
    lease_step ops k s (s\<lparr>lw_store := st, lw_running := (lw_running s)(token \<mapsto> lease_end (lw_now s) ttl)\<rparr>)"
| ls_done: "lw_running s token = Some u \<Longrightarrow>
    lease_step ops k s (s\<lparr>lw_store := lo_release ops k token (lw_store s), lw_running := (lw_running s)(token := None)\<rparr>)"

locale lease_store =
  fixes valid :: "'s \<Rightarrow> bool"
    and ops :: "'s lease_ops"
  assumes acquire_law: "valid s \<Longrightarrow> lo_acquire ops k now ttl token s = (r, s') \<Longrightarrow> valid s' \<and>
      (case lo_holder ops k s of
         Some (t, u) \<Rightarrow> if u > now then r = None \<and> s' = s
           else r = Some token \<and> lo_holder ops k s' = Some (token, lease_end now ttl)
       | None \<Rightarrow> r = Some token \<and> lo_holder ops k s' = Some (token, lease_end now ttl))"
    and release_law: "valid s \<Longrightarrow> valid (lo_release ops k token s) \<and> lo_holder ops k (lo_release ops k token s) =
      (case lo_holder ops k s of Some (t, u) \<Rightarrow> if t = token then None else Some (t, u) | None \<Rightarrow> None)"
    and renew_law: "valid s \<Longrightarrow> lo_renew ops k token now ttl s = (b, s') \<Longrightarrow> valid s' \<and>
      (b \<longleftrightarrow> (\<exists>u. lo_holder ops k s = Some (token, u)))
      \<and> lo_holder ops k s' = (if b then Some (token, lease_end now ttl) else lo_holder ops k s)"
    and frame_law: "valid s \<Longrightarrow> j \<noteq> k \<Longrightarrow> lo_holder ops j (snd (lo_acquire ops k now ttl token s)) = lo_holder ops j s
      \<and> lo_holder ops j (lo_release ops k token s) = lo_holder ops j s
      \<and> lo_holder ops j (snd (lo_renew ops k token now ttl s)) = lo_holder ops j s"
begin

text \<open>An unexpired lease a worker obtained is the one the store holds.\<close>

definition exclusive :: "string \<Rightarrow> 's lease_world \<Rightarrow> bool" where
  "exclusive k s \<longleftrightarrow> valid (lw_store s)
     \<and> (\<forall>t u. lw_running s t = Some u \<longrightarrow> u > lw_now s \<longrightarrow> lo_holder ops k (lw_store s) = Some (t, u))"

lemma exclusive_step:
  assumes "exclusive k s" "lease_step ops k s s'"
  shows "exclusive k s'"
  using assms(2)
proof cases
  case (ls_tick t)
  with assms(1) show ?thesis by (auto simp: exclusive_def)
next
  case (ls_acquire token ttl st)
  have v: "valid (lw_store s)" using assms(1) by (simp add: exclusive_def)
  note law = acquire_law [OF v ls_acquire(4)]
  have free: "\<not> (\<exists>t u. lo_holder ops k (lw_store s) = Some (t, u) \<and> u > lw_now s)" using law by (auto split: option.splits)
  have new: "lo_holder ops k st = Some (token, lease_end (lw_now s) ttl)" using law by (auto split: option.splits if_splits)
  have "\<not> u > lw_now s" if "lw_running s t = Some u" for t u
    using assms(1) that free unfolding exclusive_def by blast
  with law new show ?thesis unfolding exclusive_def ls_acquire(1) by auto
next
  case (ls_heartbeat token u ttl st)
  have v: "valid (lw_store s)" using assms(1) by (simp add: exclusive_def)
  note law = renew_law [OF v ls_heartbeat(3)]
  have "t = token" if "lw_running s t = Some x" "x > lw_now s" for t x
  proof -
    have "lo_holder ops k (lw_store s) = Some (t, x)" using assms(1) that unfolding exclusive_def by blast
    with law show ?thesis by auto
  qed
  with law show ?thesis unfolding exclusive_def ls_heartbeat(1) by auto
next
  case (ls_done token u)
  have v: "valid (lw_store s)" using assms(1) by (simp add: exclusive_def)
  have "lo_holder ops k (lo_release ops k token (lw_store s)) = Some (t, x)"
    if "lw_running s t = Some x" "x > lw_now s" "t \<noteq> token" for t x
  proof -
    have "lo_holder ops k (lw_store s) = Some (t, x)" using assms(1) that unfolding exclusive_def by blast
    with release_law [OF v, of k token] that(3) show ?thesis by simp
  qed
  with release_law [OF v, of k token] show ?thesis unfolding exclusive_def ls_done(1) by auto
qed

lemma start_exclusive: "lease_start ops valid s \<Longrightarrow> exclusive k s"
  by (simp add: lease_start_def exclusive_def)

lemma one_worker:
  assumes "reachable (lease_start ops valid) (lease_step ops k) s"
    and "lw_running s t = Some u" "u > lw_now s" "lw_running s t' = Some u'" "u' > lw_now s"
  shows "t = t'"
proof -
  have "exclusive k s" using assms(1)
    by (induction rule: reachable.induct) (auto intro: start_exclusive exclusive_step)
  then have "lo_holder ops k (lw_store s) = Some (t, u)" "lo_holder ops k (lw_store s) = Some (t', u')"
    using assms(2-5) unfolding exclusive_def by blast+
  then show ?thesis by simp
qed

end

section \<open>Both stores provide it\<close>

definition leases_valid :: "sync_db \<Rightarrow> bool" where
  "leases_valid db \<longleftrightarrow> distinct (map lr_key (sy_leases db))"

interpretation mem_leases: lease_store "\<lambda>_. True" mem_lease_ops
  by unfold_locales
    (auto simp: mem_lease_ops_def mem_acquire_lease_def mem_release_lease_def mem_renew_lease_def split: option.splits if_splits)

lemma lease_row_update:
  "(\<And>r. lr_key r = k \<Longrightarrow> lr_key (f r) = k) \<Longrightarrow> lease_row_of j (db\<lparr>sy_leases := update_rows (\<lambda>r. lr_key r = k \<and> p r) f (sy_leases db)\<rparr>)
    = map_option (\<lambda>r. if lr_key r = k \<and> p r then f r else r) (lease_row_of j db)"
  unfolding lease_row_of_def by (simp, rule find_update_rows) auto

lemma lease_row_key: "lease_row_of k db = Some r \<Longrightarrow> lr_key r = k \<and> r \<in> set (sy_leases db)"
  by (auto simp: lease_row_of_def dest: find_SomeD)

lemma acquire_view:
  assumes "leases_valid db"
  shows "leases_valid (snd (sql_acquire_lease k now ttl token db))"
    "lo_holder sql_lease_ops j (snd (sql_acquire_lease k now ttl token db)) =
      (if j = k \<and> fst (sql_acquire_lease k now ttl token db) \<noteq> None then Some (token, lease_end now ttl)
       else lo_holder sql_lease_ops j db)"
    "fst (sql_acquire_lease k now ttl token db) = (case lo_holder sql_lease_ops k db of
       Some (t, u) \<Rightarrow> if u > now then None else Some token | None \<Rightarrow> Some token)"
proof -
  let ?fresh = "\<lparr>lr_key = k, lr_token = token, lr_until = lease_end now ttl, lr_updated = now\<rparr>"
  have keys: "map lr_key (update_rows (\<lambda>x. lr_key x = k) (\<lambda>_. ?fresh) rs) = map lr_key rs" for rs :: "lease_row list"
    by (rule map_update_rows_inv) simp
  have new: "k \<notin> lr_key ` set (sy_leases db)" if "lease_row_of k db = None"
    using that by (simp add: lease_row_of_def find_None_key)
  show "leases_valid (snd (sql_acquire_lease k now ttl token db))"
    using assms new by (auto simp: sql_acquire_lease_def leases_valid_def Let_def keys split: option.split)
  show "lo_holder sql_lease_ops j (snd (sql_acquire_lease k now ttl token db)) =
      (if j = k \<and> fst (sql_acquire_lease k now ttl token db) \<noteq> None then Some (token, lease_end now ttl)
       else lo_holder sql_lease_ops j db)"
  proof (cases "lease_row_of k db")
    case None
    then show ?thesis
      by (auto simp: sql_acquire_lease_def sql_lease_ops_def lease_row_of_def find_append split: option.splits)
  next
    case (Some r)
    show ?thesis
    proof (cases "lr_until r > now")
      case True
      with Some show ?thesis by (simp add: sql_acquire_lease_def sql_lease_ops_def)
    next
      case False
      have u: "lease_row_of j (db\<lparr>sy_leases := update_rows (\<lambda>x. lr_key x = k) (\<lambda>_. ?fresh) (sy_leases db)\<rparr>)
          = map_option (\<lambda>r. if lr_key r = k then ?fresh else r) (lease_row_of j db)"
        using lease_row_update [of k "\<lambda>_. ?fresh" j "\<lambda>_. True" db] by simp
      show ?thesis
      proof (cases "j = k")
        case True
        with Some False u lease_row_key [OF Some] show ?thesis by (simp add: sql_acquire_lease_def sql_lease_ops_def Let_def)
      next
        case diff: False
        have "lr_key x \<noteq> k" if "lease_row_of j db = Some x" for x using lease_row_key [OF that] diff by simp
        with Some False u diff show ?thesis
          by (cases "lease_row_of j db") (simp_all add: sql_acquire_lease_def sql_lease_ops_def Let_def)
      qed
    qed
  qed
  show "fst (sql_acquire_lease k now ttl token db) = (case lo_holder sql_lease_ops k db of
       Some (t, u) \<Rightarrow> if u > now then None else Some token | None \<Rightarrow> Some token)"
    by (simp add: sql_acquire_lease_def sql_lease_ops_def Let_def split: option.split)
qed

lemma release_view:
  assumes "leases_valid db"
  shows "leases_valid (sql_release_lease k token db)"
    "lo_holder sql_lease_ops j (sql_release_lease k token db) = (case lo_holder sql_lease_ops j db of
       Some (t, u) \<Rightarrow> if j = k \<and> t = token then None else Some (t, u) | None \<Rightarrow> None)"
proof -
  show "leases_valid (sql_release_lease k token db)"
    using assms by (simp add: leases_valid_def sql_release_lease_def distinct_map_filter)
  have "find (\<lambda>r. lr_key r = j) (filter (\<lambda>r. \<not> (lr_key r = k \<and> lr_token r = token)) rs)
      = (case find (\<lambda>r. lr_key r = j) rs of Some r \<Rightarrow> if j = k \<and> lr_token r = token then None else Some r | None \<Rightarrow> None)"
    if "distinct (map lr_key rs)" for rs
    using that by (induction rs) (auto simp: find_None_iff image_iff split: option.splits dest: find_SomeD)
  from this [OF assms [unfolded leases_valid_def]]
  show "lo_holder sql_lease_ops j (sql_release_lease k token db) = (case lo_holder sql_lease_ops j db of
       Some (t, u) \<Rightarrow> if j = k \<and> t = token then None else Some (t, u) | None \<Rightarrow> None)"
    by (simp add: sql_lease_ops_def sql_release_lease_def lease_row_of_def split: option.split)
qed

lemma renew_view:
  assumes "leases_valid db"
  shows "leases_valid (snd (sql_renew_lease k token now ttl db))"
    "fst (sql_renew_lease k token now ttl db) \<longleftrightarrow> (\<exists>u. lo_holder sql_lease_ops k db = Some (token, u))"
    "lo_holder sql_lease_ops j (snd (sql_renew_lease k token now ttl db)) =
      (if j = k \<and> fst (sql_renew_lease k token now ttl db) then Some (token, lease_end now ttl) else lo_holder sql_lease_ops j db)"
proof -
  let ?f = "\<lambda>r. r\<lparr>lr_until := lease_end now ttl, lr_updated := now\<rparr>"
  have "map lr_key (update_rows (\<lambda>r. lr_key r = k \<and> lr_token r = token) ?f rs) = map lr_key rs" for rs :: "lease_row list"
    by (rule map_update_rows_inv) simp
  with assms show "leases_valid (snd (sql_renew_lease k token now ttl db))" by (simp add: leases_valid_def sql_renew_lease_def)
  have hits: "length (filter (\<lambda>r. lr_key r = k \<and> lr_token r = token) (sy_leases db)) = 1
      \<longleftrightarrow> (\<exists>r. lease_row_of k db = Some r \<and> lr_token r = token)"
  proof (cases "lease_row_of k db")
    case None
    then have "filter (\<lambda>r. lr_key r = k \<and> lr_token r = token) (sy_leases db) = []"
      by (auto simp: lease_row_of_def find_None_iff filter_empty_conv)
    with None show ?thesis by simp
  next
    case (Some r)
    with filter_key_unique [OF assms [unfolded leases_valid_def] Some [unfolded lease_row_of_def], of "\<lambda>r. lr_token r = token"]
    show ?thesis by simp
  qed
  then show "fst (sql_renew_lease k token now ttl db) \<longleftrightarrow> (\<exists>u. lo_holder sql_lease_ops k db = Some (token, u))"
    by (auto simp: sql_renew_lease_def sql_lease_ops_def)
  have u: "lease_row_of j (snd (sql_renew_lease k token now ttl db))
      = map_option (\<lambda>r. if lr_key r = k \<and> lr_token r = token then ?f r else r) (lease_row_of j db)"
    using lease_row_update [of k ?f j "\<lambda>r. lr_token r = token" db] by (simp add: sql_renew_lease_def)
  show "lo_holder sql_lease_ops j (snd (sql_renew_lease k token now ttl db)) =
      (if j = k \<and> fst (sql_renew_lease k token now ttl db) then Some (token, lease_end now ttl) else lo_holder sql_lease_ops j db)"
  proof (cases "lease_row_of j db")
    case None
    with hits u show ?thesis by (auto simp: sql_renew_lease_def sql_lease_ops_def)
  next
    case (Some r)
    with hits u lease_row_key [OF Some] show ?thesis by (auto simp: sql_renew_lease_def sql_lease_ops_def)
  qed
qed

lemma sql_ops_simps: "lo_acquire sql_lease_ops = sql_acquire_lease" "lo_release sql_lease_ops = sql_release_lease"
  "lo_renew sql_lease_ops = sql_renew_lease"
  by (simp_all add: sql_lease_ops_def)

interpretation sql_leases: lease_store leases_valid sql_lease_ops
proof unfold_locales
  fix s s' :: sync_db and k now ttl token r
  assume v: "leases_valid s" and run: "lo_acquire sql_lease_ops k now ttl token s = (r, s')"
  have r: "r = fst (sql_acquire_lease k now ttl token s)" "s' = snd (sql_acquire_lease k now ttl token s)"
    using run by (simp_all add: sql_ops_simps)
  have stay: "s' = s" if "r = None"
    using that run by (auto simp: sql_ops_simps sql_acquire_lease_def Let_def split: option.splits if_splits)
  show "leases_valid s' \<and> (case lo_holder sql_lease_ops k s of
         Some (t, u) \<Rightarrow> if u > now then r = None \<and> s' = s
           else r = Some token \<and> lo_holder sql_lease_ops k s' = Some (token, lease_end now ttl)
       | None \<Rightarrow> r = Some token \<and> lo_holder sql_lease_ops k s' = Some (token, lease_end now ttl))"
    using acquire_view(1) [OF v, of k now ttl token] acquire_view(2) [OF v, of k k now ttl token]
      acquire_view(3) [OF v, of k now ttl token] stay r by (auto split: option.splits)
next
  fix s :: sync_db and k token
  assume v: "leases_valid s"
  show "leases_valid (lo_release sql_lease_ops k token s) \<and> lo_holder sql_lease_ops k (lo_release sql_lease_ops k token s) =
      (case lo_holder sql_lease_ops k s of Some (t, u) \<Rightarrow> if t = token then None else Some (t, u) | None \<Rightarrow> None)"
    using release_view(1) [OF v, of k token] release_view(2) [OF v, of k k token] by (simp add: sql_ops_simps split: option.split)
next
  fix s s' :: sync_db and k token now ttl b
  assume v: "leases_valid s" and run: "lo_renew sql_lease_ops k token now ttl s = (b, s')"
  show "leases_valid s' \<and> (b \<longleftrightarrow> (\<exists>u. lo_holder sql_lease_ops k s = Some (token, u)))
      \<and> lo_holder sql_lease_ops k s' = (if b then Some (token, lease_end now ttl) else lo_holder sql_lease_ops k s)"
    using renew_view(1,2) [OF v, of k token now ttl] renew_view(3) [OF v, of k k token now ttl] run
    by (simp add: sql_ops_simps)
next
  fix s :: sync_db and j k :: string and now ttl token
  assume v: "leases_valid s" and "j \<noteq> k"
  then show "lo_holder sql_lease_ops j (snd (lo_acquire sql_lease_ops k now ttl token s)) = lo_holder sql_lease_ops j s
      \<and> lo_holder sql_lease_ops j (lo_release sql_lease_ops k token s) = lo_holder sql_lease_ops j s
      \<and> lo_holder sql_lease_ops j (snd (lo_renew sql_lease_ops k token now ttl s)) = lo_holder sql_lease_ops j s"
    using acquire_view(2) [OF v, of j k now ttl token] release_view(2) [OF v, of j k token]
      renew_view(3) [OF v, of j k token now ttl] by (auto simp: sql_ops_simps split: option.split)
qed

section \<open>The two stores agree\<close>

definition sync_refines :: "sync_mem \<Rightarrow> sync_db \<Rightarrow> bool" where
  "sync_refines s db \<longleftrightarrow> dict_keyed sj_id (sm_items s) \<and> map snd (sm_items s) = sy_jobs db \<and> leases_valid db
     \<and> (\<forall>k. sm_leases s k = lo_holder sql_lease_ops k db)"

lemma filter_sort_desc: "filter p (sort_desc f xs) = sort_desc f (filter p xs)"
  by (simp add: sort_desc_def rev_filter [symmetric] filter_sort)

lemma fetchone_filter: "fetchone (filter p xs) = find p xs"
  by (induction xs) auto

lemma job_list_agrees: "sync_refines s db \<Longrightarrow> mem_job_list account_id status limit s = sql_job_list account_id status limit db"
proof -
  assume "sync_refines s db"
  then have j: "map snd (sm_items s) = sy_jobs db" by (simp add: sync_refines_def)
  have "(case status of None \<Rightarrow> (case account_id of None \<Rightarrow> xs | Some a \<Rightarrow> filter (\<lambda>r. sj_account r = a) xs)
      | Some st \<Rightarrow> filter (\<lambda>r. sj_status r = st) (case account_id of None \<Rightarrow> xs | Some a \<Rightarrow> filter (\<lambda>r. sj_account r = a) xs))
      = filter (job_matches account_id status) xs" for xs
    by (cases account_id; cases status) (auto simp: job_matches_def intro!: filter_cong)
  then show ?thesis unfolding mem_job_list_def sql_job_list_def Let_def j by simp
qed

lemma first_per_account_eq:
  "first_per_account wanted rs m a = (case m a of Some j \<Rightarrow> Some j
     | None \<Rightarrow> if a \<in> wanted then map_option public_sync_job (find (\<lambda>r. sj_account r = a) rs) else None)"
  by (induction rs arbitrary: m) (auto split: option.splits)

lemma sql_latest_all: "sql_latest_by_account_ids ids db a = (if a \<in> set ids then sql_latest db a else None)"
proof -
  have "foldl (\<lambda>m a. case sql_latest db a of None \<Rightarrow> m | Some j \<Rightarrow> m(a \<mapsto> j)) m ids a
      = (if a \<in> set ids \<and> sql_latest db a \<noteq> None then sql_latest db a else m a)" for m
    by (induction ids arbitrary: m) (auto split: option.split)
  then show ?thesis by (auto simp: sql_latest_by_account_ids_def)
qed

lemma latest_agrees: "sync_refines s db \<Longrightarrow> mem_latest_by_account_ids ids s = sql_latest_by_account_ids ids db"
proof
  fix a
  assume "sync_refines s db"
  then have j: "map snd (sm_items s) = sy_jobs db" by (simp add: sync_refines_def)
  have "find (\<lambda>r. sj_account r = a) (sort_desc sj_started (sy_jobs db))
      = fetchone (sort_desc sj_started (filter (\<lambda>r. sj_account r = a) (sy_jobs db)))"
    by (simp add: fetchone_filter [symmetric] filter_sort_desc)
  then show "mem_latest_by_account_ids ids s a = sql_latest_by_account_ids ids db a"
    by (simp add: mem_latest_by_account_ids_def first_per_account_eq sql_latest_all sql_latest_def j)
qed

text \<open>The writing requests of the two stores, and their replies.\<close>

datatype sync_request =
    CreateJob sync_job
  | AcquireLease string timestamp int nat
  | ReleaseLease string nat
  | RenewLease string nat timestamp int

datatype sync_reply = JobReply sync_job | TokenReply "nat option" | DoneReply | RenewedReply bool

text \<open>\<open>None\<close> is the primary key of the jobs refusing a row.\<close>

fun sql_sync_request :: "sync_request \<Rightarrow> sync_db \<Rightarrow> (sync_reply \<times> sync_db) option" where
  "sql_sync_request (CreateJob j) db = (case sql_job_create j db of (None, _) \<Rightarrow> None | (Some r, db') \<Rightarrow> Some (JobReply r, db'))"
| "sql_sync_request (AcquireLease k now ttl token) db = (case sql_acquire_lease k now ttl token db of (r, db') \<Rightarrow> Some (TokenReply r, db'))"
| "sql_sync_request (ReleaseLease k token) db = Some (DoneReply, sql_release_lease k token db)"
| "sql_sync_request (RenewLease k token now ttl) db = (case sql_renew_lease k token now ttl db of (r, db') \<Rightarrow> Some (RenewedReply r, db'))"

fun mem_sync_request :: "sync_request \<Rightarrow> sync_mem \<Rightarrow> sync_reply \<times> sync_mem" where
  "mem_sync_request (CreateJob j) s = (case mem_job_create j s of (r, s') \<Rightarrow> (JobReply r, s'))"
| "mem_sync_request (AcquireLease k now ttl token) s = (case mem_acquire_lease k now ttl token s of (r, s') \<Rightarrow> (TokenReply r, s'))"
| "mem_sync_request (ReleaseLease k token) s = (DoneReply, mem_release_lease k token s)"
| "mem_sync_request (RenewLease k token now ttl) s = (case mem_renew_lease k token now ttl s of (r, s') \<Rightarrow> (RenewedReply r, s'))"

lemma lease_jobs [simp]:
  "sy_jobs (snd (sql_acquire_lease k now ttl token db)) = sy_jobs db"
  "sy_jobs (sql_release_lease k token db) = sy_jobs db"
  "sy_jobs (snd (sql_renew_lease k token now ttl db)) = sy_jobs db"
  by (simp_all add: sql_acquire_lease_def sql_release_lease_def sql_renew_lease_def Let_def split: option.split)

lemma lease_items [simp]:
  "sm_items (snd (mem_acquire_lease k now ttl token s)) = sm_items s"
  "sm_items (mem_release_lease k token s) = sm_items s"
  "sm_items (snd (mem_renew_lease k token now ttl s)) = sm_items s"
  by (simp_all add: mem_acquire_lease_def mem_release_lease_def mem_renew_lease_def split: option.split)

lemma create_job_agrees:
  assumes "sync_refines s db" "sql_job_create j db = (Some r, db')"
  shows "\<exists>s'. mem_job_create j s = (r, s') \<and> sync_refines s' db'"
proof -
  have new: "sj_id j \<notin> sj_id ` set (sy_jobs db)" and r: "r = public_sync_job j" and db': "db' = db\<lparr>sy_jobs := sy_jobs db @ [j]\<rparr>"
    using assms(2) by (auto simp: sql_job_create_def split: if_splits)
  have k: "dict_keyed sj_id (sm_items s)" "map snd (sm_items s) = sy_jobs db" using assms(1) by (simp_all add: sync_refines_def)
  have "sj_id j \<notin> sj_id ` set (map snd (sm_items s))" using new k by simp
  from dict_insert [OF k(1) this refl] show ?thesis
    using assms(1) k by (simp add: mem_job_create_def r db' sync_refines_def leases_valid_def sql_lease_ops_def lease_row_of_def)
qed

lemma acquire_agrees:
  assumes "sync_refines s db"
  shows "fst (mem_acquire_lease k now ttl token s) = fst (sql_acquire_lease k now ttl token db)
    \<and> sync_refines (snd (mem_acquire_lease k now ttl token s)) (snd (sql_acquire_lease k now ttl token db))"
proof -
  have v: "leases_valid db" and h: "\<And>j. sm_leases s j = lo_holder sql_lease_ops j db" using assms by (simp_all add: sync_refines_def)
  note view = acquire_view [OF v, where k = k and now = now and ttl = ttl and token = token]
  have f: "fst (mem_acquire_lease k now ttl token s) = fst (sql_acquire_lease k now ttl token db)"
    by (simp add: view(3) mem_acquire_lease_def h split: option.split)
  have "sm_leases (snd (mem_acquire_lease k now ttl token s)) j = lo_holder sql_lease_ops j (snd (sql_acquire_lease k now ttl token db))" for j
    unfolding view(2) by (simp add: f [symmetric]) (simp add: mem_acquire_lease_def h split: option.split)
  with f show ?thesis using assms view(1) by (simp add: sync_refines_def)
qed

lemma release_agrees:
  assumes "sync_refines s db"
  shows "sync_refines (mem_release_lease k token s) (sql_release_lease k token db)"
proof -
  have v: "leases_valid db" and h: "\<And>j. sm_leases s j = lo_holder sql_lease_ops j db" using assms by (simp_all add: sync_refines_def)
  have "sm_leases (mem_release_lease k token s) j = lo_holder sql_lease_ops j (sql_release_lease k token db)" for j
    unfolding release_view(2) [OF v] by (auto simp: mem_release_lease_def h split: option.split)
  then show ?thesis using assms release_view(1) [OF v] by (simp add: sync_refines_def)
qed

lemma renew_agrees:
  assumes "sync_refines s db"
  shows "fst (mem_renew_lease k token now ttl s) = fst (sql_renew_lease k token now ttl db)
    \<and> sync_refines (snd (mem_renew_lease k token now ttl s)) (snd (sql_renew_lease k token now ttl db))"
proof -
  have v: "leases_valid db" and h: "\<And>j. sm_leases s j = lo_holder sql_lease_ops j db" using assms by (simp_all add: sync_refines_def)
  note view = renew_view [OF v, where k = k and now = now and ttl = ttl and token = token]
  have f: "fst (mem_renew_lease k token now ttl s) = fst (sql_renew_lease k token now ttl db)"
    unfolding view(2) by (auto simp: mem_renew_lease_def h split: option.split)
  have "sm_leases (snd (mem_renew_lease k token now ttl s)) j = lo_holder sql_lease_ops j (snd (sql_renew_lease k token now ttl db))" for j
    unfolding view(3) by (simp add: f [symmetric]) (auto simp: mem_renew_lease_def h split: option.split)
  with f show ?thesis using assms view(1) by (simp add: sync_refines_def)
qed

lemma sync_request_agrees:
  assumes "sync_refines s db" "sql_sync_request q db = Some (r, db')"
  shows "\<exists>s'. mem_sync_request q s = (r, s') \<and> sync_refines s' db'"
proof (cases q)
  case (CreateJob j)
  then obtain x where "sql_job_create j db = (Some x, db')" "r = JobReply x"
    using assms(2) by (auto split: prod.splits option.splits)
  with create_job_agrees [OF assms(1)] CreateJob show ?thesis by fastforce
next
  case (AcquireLease k now ttl token)
  with assms(2) acquire_agrees [OF assms(1), of k now ttl token] show ?thesis
    by (auto simp: case_prod_unfold prod_eq_iff)
next
  case (ReleaseLease k token)
  with assms(2) release_agrees [OF assms(1), of k token] show ?thesis by simp
next
  case (RenewLease k token now ttl)
  with assms(2) renew_agrees [OF assms(1), of k token now ttl] show ?thesis
    by (auto simp: case_prod_unfold prod_eq_iff)
qed

end
