(* ===== verification/Accounts.thy ===== *)
theory Accounts
  imports Sync_Diagnostics Json "HOL-Library.AList"
begin

text \<open>
  Clients and ad accounts: \<open>app/services/clients.py\<close> and \<open>app/services/ad_accounts.py\<close> over the
  two tables and the three assignment triggers of \<open>app/db.py\<close>, and their in-memory twins.  The
  \<open>sync_*\<close> columns of \<open>AdAccountOut\<close> are projections of \<open>metadata\<close> and are left out; texts are
  ASCII, so \<open>strip\<close>, \<open>lower\<close> and \<open>isdigit\<close> are the ASCII ones.
\<close>

section \<open>Data\<close>

datatype record_status = RActive | RInactive | RArchived

text \<open>The \<open>status\<close> argument of the listings: absent, \<open>all\<close>, or a status.\<close>

datatype status_arg = NoStatus | AllStatus | OnlyStatus record_status

fun status_ok :: "status_arg \<Rightarrow> record_status \<Rightarrow> bool" where
  "status_ok NoStatus s \<longleftrightarrow> s = RActive"
| "status_ok AllStatus s \<longleftrightarrow> True"
| "status_ok (OnlyStatus t) s \<longleftrightarrow> s = t"

type_synonym metadata = "(string \<times> json) list option"

record client =
  cl_id :: uuid
  cl_name :: string
  cl_legal_name :: "string option"
  cl_status :: record_status
  cl_currency :: string
  cl_timezone :: "string option"
  cl_notes :: "string option"
  cl_created :: timestamp
  cl_updated :: timestamp

record client_create =
  cc_name :: string
  cc_legal_name :: "string option"
  cc_status :: record_status
  cc_currency :: string
  cc_timezone :: "string option"
  cc_notes :: "string option"

text \<open>\<open>None\<close> is a field the request did not set; a nullable field can be set to null.\<close>

record client_patch =
  cp_name :: "string option"
  cp_legal_name :: "string option option"
  cp_status :: "record_status option"
  cp_currency :: "string option"
  cp_timezone :: "string option option"
  cp_notes :: "string option option"

record account =
  ac_id :: uuid
  ac_client :: uuid
  ac_platform :: string
  ac_external :: string
  ac_name :: string
  ac_currency :: string
  ac_timezone :: "string option"
  ac_status :: record_status
  ac_meta :: metadata
  ac_created :: timestamp
  ac_updated :: timestamp

record account_create =
  an_client :: uuid
  an_platform :: string
  an_external :: string
  an_name :: string
  an_currency :: string
  an_timezone :: "string option"
  an_status :: record_status
  an_meta :: metadata

record account_patch =
  ap_client :: "uuid option"
  ap_platform :: "string option"
  ap_external :: "string option"
  ap_name :: "string option"
  ap_currency :: "string option"
  ap_timezone :: "string option option"
  ap_status :: "record_status option"
  ap_meta :: "metadata option"

datatype account_error =
    ClientIdMissing
  | AccountNotFound
  | ClientNotFound
  | DuplicateIdentity
  | AssignmentConflict string string
  | RestoreConflict
  | AccountConflict

section \<open>The identity of a provider account\<close>

definition normalize_account_platform :: "string \<Rightarrow> string" where
  "normalize_account_platform v = (let p = str_lower (str_strip v) in if p = ''facebook'' then ''meta'' else p)"

definition canonical_external_account_id :: "string \<Rightarrow> string \<Rightarrow> string" where
  "canonical_external_account_id platform v =
     (let p = normalize_account_platform platform; raw = str_strip v in
      if p = ''meta'' then (if starts_ci ''act_'' raw then str_strip (drop 4 raw) else raw)
      else if p \<in> {''google'', ''tiktok''} then
        (let digits = filter is_digit raw in if digits \<noteq> [] then digits else raw)
      else raw)"

definition account_identity :: "account \<Rightarrow> string \<times> string" where
  "account_identity a = (normalize_account_platform (ac_platform a),
     canonical_external_account_id (ac_platform a) (ac_external a))"

text \<open>The identity as the SQL triggers compute it: \<open>lower\<close>, \<open>trim\<close>, \<open>GLOB\<close>, \<open>substr\<close>, \<open>replace\<close>.\<close>

definition sql_trim :: "string \<Rightarrow> string" where
  "sql_trim s = rev (dropWhile (\<lambda>c. c = CHR '' '') (rev (dropWhile (\<lambda>c. c = CHR '' '') s)))"

definition sql_identity :: "account \<Rightarrow> string \<times> string" where
  "sql_identity a =
     (let p = str_lower (ac_platform a); e = sql_trim (ac_external a) in
      if p \<in> {''meta'', ''facebook''} then (''meta'', if starts_ci ''act_'' e then drop 4 e else e)
      else if p \<in> {''google'', ''tiktok''} then (p, filter (\<lambda>c. c \<notin> set ''- _.'') e)
      else (p, e))"

section \<open>What a reader sees\<close>

definition json_str :: "json \<Rightarrow> string option" where
  "json_str v = (case v of JStr s \<Rightarrow> Some s | _ \<Rightarrow> None)"

definition safe_sync_metadata :: "metadata \<Rightarrow> metadata" where
  "safe_sync_metadata m = (case m of
      None \<Rightarrow> None
    | Some kvs \<Rightarrow> if jget ''sync_error'' kvs = JNull then Some kvs
        else Some (AList.update ''sync_error'' (JStr (safe_sync_error_message
          (json_str (jget ''sync_error_code'' kvs)) (json_str (jget ''sync_error'' kvs)))) kvs))"

definition to_account :: "account \<Rightarrow> account" where
  "to_account a = a\<lparr>ac_meta := safe_sync_metadata (ac_meta a)\<rparr>"

section \<open>The tables\<close>

record account_db =
  ad_clients :: "client list"
  ad_accounts :: "account list"

definition sql_client_get :: "uuid \<Rightarrow> account_db \<Rightarrow> client option" where
  "sql_client_get i db = find (\<lambda>c. cl_id c = i) (ad_clients db)"

definition sql_client_list :: "status_arg \<Rightarrow> account_db \<Rightarrow> client list" where
  "sql_client_list st db = sort_desc cl_updated (filter (\<lambda>c. status_ok st (cl_status c)) (ad_clients db))"

definition client_active :: "account_db \<Rightarrow> uuid \<Rightarrow> bool" where
  "client_active db i \<longleftrightarrow> (\<exists>c \<in> set (ad_clients db). cl_id c = i \<and> cl_status c = RActive)"

definition sql_account_get :: "uuid \<Rightarrow> account_db \<Rightarrow> account option" where
  "sql_account_get i db = map_option to_account (find (\<lambda>a. ac_id a = i) (ad_accounts db))"

definition sql_account_list :: "uuid option \<Rightarrow> status_arg \<Rightarrow> account_db \<Rightarrow> account list" where
  "sql_account_list client_id st db = map to_account (sort_desc ac_updated (filter (\<lambda>a.
     (case client_id of None \<Rightarrow> True | Some c \<Rightarrow> ac_client a = c) \<and> status_ok st (ac_status a)) (ad_accounts db)))"

section \<open>Triggers and guards\<close>

definition trigger_conflict :: "account_db \<Rightarrow> (account \<Rightarrow> bool) \<Rightarrow> account \<Rightarrow> bool" where
  "trigger_conflict db p new \<longleftrightarrow> (\<exists>a \<in> set (ad_accounts db). p a \<and> sql_identity a = sql_identity new
     \<and> ac_status a = RActive \<and> ac_client a \<noteq> ac_client new \<and> client_active db (ac_client a))"

definition insert_trigger :: "account \<Rightarrow> account_db \<Rightarrow> bool" where
  "insert_trigger new db \<longleftrightarrow> ac_status new = RActive \<and> trigger_conflict db (\<lambda>_. True) new"

definition update_trigger :: "account \<Rightarrow> account \<Rightarrow> account_db \<Rightarrow> bool" where
  "update_trigger old new db \<longleftrightarrow> ac_status new = RActive
     \<and> (ac_status old \<noteq> RActive \<or> ac_client old \<noteq> ac_client new
        \<or> str_lower (ac_platform old) \<noteq> str_lower (ac_platform new) \<or> ac_external old \<noteq> ac_external new)
     \<and> trigger_conflict db (\<lambda>a. ac_id a \<noteq> ac_id old) new"

definition restore_trigger :: "client \<Rightarrow> client \<Rightarrow> account_db \<Rightarrow> bool" where
  "restore_trigger old new db \<longleftrightarrow> cl_status new = RActive \<and> cl_status old \<noteq> RActive
     \<and> (\<exists>own \<in> set (ad_accounts db). ac_client own = cl_id new \<and> ac_status own = RActive
         \<and> (\<exists>other \<in> set (ad_accounts db). ac_client other \<noteq> cl_id new \<and> ac_status other = RActive
            \<and> client_active db (ac_client other) \<and> sql_identity own = sql_identity other))"

text \<open>\<open>uq_ad_accounts_client_platform_external_id\<close> and the primary key.\<close>

definition unique_row :: "account \<Rightarrow> account list \<Rightarrow> bool" where
  "unique_row r rows \<longleftrightarrow> (\<forall>x \<in> set rows. \<not> (ac_client x = ac_client r \<and> ac_platform x = ac_platform r \<and> ac_external x = ac_external r))"

definition active_assignment :: "uuid \<Rightarrow> string \<Rightarrow> string \<Rightarrow> uuid option \<Rightarrow> account_db \<Rightarrow> account option" where
  "active_assignment client_id platform ext exclude db =
     (let np = normalize_account_platform platform; ne = canonical_external_account_id np ext in
      map_option to_account (find (\<lambda>a. client_active db (ac_client a) \<and> account_identity a = (np, ne))
        (sort_key ac_created (filter (\<lambda>a. ac_status a = RActive \<and> ac_client a \<noteq> client_id \<and> Some (ac_id a) \<noteq> exclude) (ad_accounts db)))))"

definition assert_client_exists :: "uuid \<Rightarrow> account_db \<Rightarrow> account_error option" where
  "assert_client_exists client_id db = raise_if (sql_client_get client_id db = None) ClientIdMissing"

definition assert_unique_identity :: "uuid \<Rightarrow> string \<Rightarrow> string \<Rightarrow> uuid option \<Rightarrow> account_db \<Rightarrow> account_error option" where
  "assert_unique_identity client_id platform ext exclude db =
     (let np = normalize_account_platform platform; ne = canonical_external_account_id np ext in
      raise_if (\<exists>a \<in> set (ad_accounts db). ac_client a = client_id \<and> Some (ac_id a) \<noteq> exclude \<and> account_identity a = (np, ne)) DuplicateIdentity)"

definition assignment_conflict :: "account \<Rightarrow> account_error" where
  "assignment_conflict a = AssignmentConflict (ac_platform a) (ac_external a)"

definition assert_active_assignment :: "uuid \<Rightarrow> string \<Rightarrow> string \<Rightarrow> uuid option \<Rightarrow> account_db \<Rightarrow> account_error option" where
  "assert_active_assignment client_id platform ext exclude db =
     map_option assignment_conflict (active_assignment client_id platform ext exclude db)"

text \<open>The error of a statement the database refused.\<close>

definition db_refusal :: "bool \<Rightarrow> uuid \<Rightarrow> string \<Rightarrow> string \<Rightarrow> uuid option \<Rightarrow> account_db \<Rightarrow> account_error" where
  "db_refusal fired client_id platform ext exclude db =
     (if fired then (case active_assignment client_id platform ext exclude db of
        Some e \<Rightarrow> assignment_conflict e | None \<Rightarrow> AccountConflict)
      else AccountConflict)"

definition stored_meta :: "metadata \<Rightarrow> metadata" where
  "stored_meta m = (if m = Some [] then None else m)"

section \<open>\<open>SqliteAdAccountStore\<close>\<close>

definition sql_account_create :: "account_create \<Rightarrow> uuid \<Rightarrow> timestamp \<Rightarrow> account_db \<Rightarrow> account_error + account \<times> account_db" where
  "sql_account_create p i now db =
     (let platform = normalize_account_platform (an_platform p);
          ext = canonical_external_account_id platform (an_external p);
          row = \<lparr>ac_id = i, ac_client = an_client p, ac_platform = platform, ac_external = ext, ac_name = an_name p,
                 ac_currency = an_currency p, ac_timezone = an_timezone p, ac_status = an_status p,
                 ac_meta = stored_meta (an_meta p), ac_created = now, ac_updated = now\<rparr>
      in case first_error [assert_client_exists (an_client p) db,
           assert_unique_identity (an_client p) platform ext None db,
           if an_status p = RActive then assert_active_assignment (an_client p) platform ext None db else None] of
        Some e \<Rightarrow> Inl e
      | None \<Rightarrow>
          if insert_trigger row db then Inl (db_refusal True (an_client p) platform ext None db)
          else if i \<in> ac_id ` set (ad_accounts db) \<or> \<not> unique_row row (ad_accounts db)
            then Inl (db_refusal False (an_client p) platform ext None db)
          else Inr (to_account row, db\<lparr>ad_accounts := ad_accounts db @ [row]\<rparr>))"

definition apatch_empty :: "account_patch \<Rightarrow> bool" where
  "apatch_empty p \<longleftrightarrow> ap_client p = None \<and> ap_platform p = None \<and> ap_external p = None \<and> ap_name p = None
     \<and> ap_currency p = None \<and> ap_timezone p = None \<and> ap_status p = None \<and> ap_meta p = None"

definition set_or :: "'a option \<Rightarrow> 'a \<Rightarrow> 'a" where
  "set_or p x = (case p of None \<Rightarrow> x | Some y \<Rightarrow> y)"

text \<open>\<open>data\<close> of \<open>patch\<close>: the platform and the external id after normalisation.\<close>

definition data_platform :: "account_patch \<Rightarrow> account \<Rightarrow> string" where
  "data_platform p a = (case ap_platform p of None \<Rightarrow> ac_platform a | Some v \<Rightarrow> normalize_account_platform v)"

definition data_external :: "account_patch \<Rightarrow> account \<Rightarrow> string" where
  "data_external p a = (let e = set_or (ap_external p) (ac_external a) in
     if ap_platform p = None \<and> ap_external p = None then e else canonical_external_account_id (data_platform p a) e)"

definition identity_changed :: "account_patch \<Rightarrow> account \<Rightarrow> bool" where
  "identity_changed p a \<longleftrightarrow> set_or (ap_client p) (ac_client a) \<noteq> ac_client a
     \<or> set_or (ap_platform p) (ac_platform a) \<noteq> ac_platform a
     \<or> set_or (ap_external p) (ac_external a) \<noteq> ac_external a
     \<or> set_or (ap_status p) (ac_status a) \<noteq> ac_status a"

definition patched_account :: "account_patch \<Rightarrow> timestamp \<Rightarrow> account \<Rightarrow> account" where
  "patched_account p now a = a\<lparr>ac_client := set_or (ap_client p) (ac_client a),
     ac_platform := data_platform p a, ac_external := data_external p a,
     ac_name := set_or (ap_name p) (ac_name a), ac_currency := set_or (ap_currency p) (ac_currency a),
     ac_timezone := set_or (ap_timezone p) (ac_timezone a), ac_status := set_or (ap_status p) (ac_status a),
     ac_meta := (case ap_meta p of None \<Rightarrow> ac_meta a | Some m \<Rightarrow> stored_meta m), ac_updated := now\<rparr>"

definition sql_account_patch :: "uuid \<Rightarrow> account_patch \<Rightarrow> timestamp \<Rightarrow> account_db \<Rightarrow> account_error + account \<times> account_db" where
  "sql_account_patch i p now db =
     (case find (\<lambda>a. ac_id a = i) (ad_accounts db) of
        None \<Rightarrow> Inl AccountNotFound
      | Some old \<Rightarrow>
          if apatch_empty p then Inr (to_account old, db)
          else
            (let client = set_or (ap_client p) (ac_client old); platform = data_platform p old;
                 ext = data_external p old; status = set_or (ap_status p) (ac_status old);
                 changed = identity_changed p old; new = patched_account p now old
             in case first_error [assert_client_exists client db,
                  if changed then assert_unique_identity client platform ext (Some i) db else None,
                  if changed \<and> status = RActive then assert_active_assignment client platform ext (Some i) db else None] of
               Some e \<Rightarrow> Inl e
             | None \<Rightarrow>
                 if update_trigger old new db then Inl (db_refusal True client platform ext (Some i) db)
                 else if \<not> unique_row new (filter (\<lambda>a. ac_id a \<noteq> i) (ad_accounts db))
                   then Inl (db_refusal False client platform ext (Some i) db)
                 else Inr (to_account new, db\<lparr>ad_accounts := update_rows (\<lambda>a. ac_id a = i) (\<lambda>_. new) (ad_accounts db)\<rparr>)))"

definition sql_account_archive :: "uuid \<Rightarrow> timestamp \<Rightarrow> account_db \<Rightarrow> account_error + account \<times> account_db" where
  "sql_account_archive i now db =
     (case find (\<lambda>a. ac_id a = i) (ad_accounts db) of
        None \<Rightarrow> Inl AccountNotFound
      | Some old \<Rightarrow> (let new = old\<lparr>ac_status := RArchived, ac_updated := now\<rparr> in
          Inr (to_account new, db\<lparr>ad_accounts := update_rows (\<lambda>a. ac_id a = i) (\<lambda>_. new) (ad_accounts db)\<rparr>)))"

section \<open>\<open>SqliteClientStore\<close>\<close>

definition new_client :: "client_create \<Rightarrow> uuid \<Rightarrow> timestamp \<Rightarrow> client" where
  "new_client p i now = \<lparr>cl_id = i, cl_name = cc_name p, cl_legal_name = cc_legal_name p, cl_status = cc_status p,
     cl_currency = cc_currency p, cl_timezone = cc_timezone p, cl_notes = cc_notes p, cl_created = now, cl_updated = now\<rparr>"

definition patched_client :: "client_patch \<Rightarrow> timestamp \<Rightarrow> client \<Rightarrow> client" where
  "patched_client p now c = c\<lparr>cl_name := set_or (cp_name p) (cl_name c),
     cl_legal_name := set_or (cp_legal_name p) (cl_legal_name c), cl_status := set_or (cp_status p) (cl_status c),
     cl_currency := set_or (cp_currency p) (cl_currency c), cl_timezone := set_or (cp_timezone p) (cl_timezone c),
     cl_notes := set_or (cp_notes p) (cl_notes c), cl_updated := now\<rparr>"

definition cpatch_empty :: "client_patch \<Rightarrow> bool" where
  "cpatch_empty p \<longleftrightarrow> cp_name p = None \<and> cp_legal_name p = None \<and> cp_status p = None \<and> cp_currency p = None
     \<and> cp_timezone p = None \<and> cp_notes p = None"

text \<open>An id that is taken is the database's error, which the route does not handle.\<close>

definition sql_client_create :: "client_create \<Rightarrow> uuid \<Rightarrow> timestamp \<Rightarrow> account_db \<Rightarrow> account_error + client \<times> account_db" where
  "sql_client_create p i now db =
     (if i \<in> cl_id ` set (ad_clients db) then Inl AccountConflict
      else Inr (new_client p i now, db\<lparr>ad_clients := ad_clients db @ [new_client p i now]\<rparr>))"

definition sql_client_patch :: "uuid \<Rightarrow> client_patch \<Rightarrow> timestamp \<Rightarrow> account_db \<Rightarrow> account_error + client \<times> account_db" where
  "sql_client_patch i p now db =
     (case sql_client_get i db of
        None \<Rightarrow> Inl ClientNotFound
      | Some old \<Rightarrow>
          if cpatch_empty p then Inr (old, db)
          else (let new = patched_client p now old in
            if cp_status p \<noteq> None \<and> restore_trigger old new db then Inl RestoreConflict
            else Inr (new, db\<lparr>ad_clients := update_rows (\<lambda>c. cl_id c = i) (\<lambda>_. new) (ad_clients db)\<rparr>)))"

definition sql_client_archive :: "uuid \<Rightarrow> timestamp \<Rightarrow> account_db \<Rightarrow> account_error + client \<times> account_db" where
  "sql_client_archive i now db =
     (case sql_client_get i db of
        None \<Rightarrow> Inl ClientNotFound
      | Some old \<Rightarrow> (let new = old\<lparr>cl_status := RArchived, cl_updated := now\<rparr> in
          Inr (new, db\<lparr>ad_clients := update_rows (\<lambda>c. cl_id c = i) (\<lambda>_. new) (ad_clients db)\<rparr>)))"

section \<open>Ambiguous assignments\<close>

definition live_accounts :: "account_db \<Rightarrow> account list" where
  "live_accounts db = (let actives = map cl_id (sql_client_list (OnlyStatus RActive) db) in
     filter (\<lambda>a. ac_client a \<in> set actives) (sql_account_list None (OnlyStatus RActive) db))"

fun group_by_identity :: "((string \<times> string) \<times> account list) list \<Rightarrow> account list \<Rightarrow> ((string \<times> string) \<times> account list) list" where
  "group_by_identity groups [] = groups"
| "group_by_identity groups (a # as) =
     group_by_identity (AList.update (account_identity a)
       ((case map_of groups (account_identity a) of None \<Rightarrow> [] | Some g \<Rightarrow> g) @ [a]) groups) as"

definition active_assignment_conflict_ids :: "account_db \<Rightarrow> uuid list" where
  "active_assignment_conflict_ids db =
     map ac_id (concat (map snd (filter (\<lambda>g. length (snd g) > 1) (group_by_identity [] (live_accounts db)))))"

text \<open>\<open>_eligible_active_accounts\<close> of \<open>ad_account_sync.py\<close>.\<close>

definition eligible_active_accounts :: "account_db \<Rightarrow> account list" where
  "eligible_active_accounts db =
     filter (\<lambda>a. ac_id a \<notin> set (active_assignment_conflict_ids db)) (live_accounts db)"

end
