(* ===== verification/Sync_Run.thy ===== *)
theory Sync_Run
  imports Sync_Store Accounts Decimals
begin

text \<open>
  \<open>AdAccountSyncService\<close>: the validation of provider rows, the date range of an account, the
  choice of its credential, \<open>run_sync\<close>, \<open>run_sync_exclusive\<close> and \<open>run_due_sync\<close>.  The
  provider fetchers, the credential resolvers, the check of Meta credentials and the statistics
  store are parameters acting on a world; so are \<open>Decimal(text)\<close>, \<open>date.fromisoformat\<close>,
  \<open>datetime.fromisoformat\<close> and the rendering of dates, and the clock and the ids a run draws
  for each account.  A date is its day number.
\<close>

section \<open>Provider numbers\<close>

datatype decimal_value = Finite rat | NonFinite

datatype pvalue = PNone | PBool bool | PNum decimal_value | PText string | POther

datatype pitem = PRow "(string \<times> pvalue) list" | NotObject

definition max_count :: int where "max_count = 2 ^ 63 - 1"

definition provider_decimal :: "(string \<Rightarrow> decimal_value option) \<Rightarrow> pvalue \<Rightarrow> string \<Rightarrow> sync_error + rat" where
  "provider_decimal parse v field =
     (let numeric = Inl (PayloadInvalid (''Provider '' @ field @ '' must be numeric''));
          finite = Inl (PayloadInvalid (''Provider '' @ field @ '' must be finite and nonnegative'')) in
      case (case v of PNum d \<Rightarrow> Some d | PText t \<Rightarrow> parse (str_strip t) | _ \<Rightarrow> None) of
        None \<Rightarrow> numeric
      | Some NonFinite \<Rightarrow> finite
      | Some (Finite x) \<Rightarrow> if x < 0 then finite else Inr x)"

definition provider_count :: "(string \<Rightarrow> decimal_value option) \<Rightarrow> pvalue \<Rightarrow> string \<Rightarrow> sync_error + int" where
  "provider_count parse v field =
     (case provider_decimal parse v field of
        Inl e \<Rightarrow> Inl e
      | Inr x \<Rightarrow> if x > of_int max_count \<or> x \<noteq> of_int \<lfloor>x\<rfloor>
          then Inl (PayloadInvalid (''Provider '' @ field @ '' must be a nonnegative 64-bit integer''))
          else Inr \<lfloor>x\<rfloor>)"

definition provider_money :: "(string \<Rightarrow> decimal_value option) \<Rightarrow> pvalue \<Rightarrow> string \<Rightarrow> sync_error + rat" where
  "provider_money parse v field =
     (let bad = Inl (PayloadInvalid (''Provider '' @ field @ '' exceeds supported numeric(14,2) range'')) in
      case provider_decimal parse v field of
        Inl e \<Rightarrow> Inl e
      | Inr x \<Rightarrow> if x \<ge> 1000000000000 then bad
          else if q_money x > 99999999999999 / 100 then bad else Inr (q_money x))"

section \<open>Provider rows\<close>

record metric_row =
  mr_date :: date
  mr_impressions :: int
  mr_clicks :: int
  mr_spend :: rat
  mr_conversions :: "rat option"

definition date_fields :: "string list" where
  "date_fields = [''date'', ''date_start'', ''day'', ''stat_time_day'']"

definition iso_shape :: "string \<Rightarrow> bool" where
  "iso_shape s \<longleftrightarrow> length s = 10 \<and> (\<forall>i < 10. if i = 4 \<or> i = 7 then s ! i = CHR ''-'' else is_digit (s ! i))"

definition row_error :: "nat \<Rightarrow> string \<Rightarrow> sync_error" where
  "row_error index what = PayloadInvalid (''Provider payload row '' @ nat_str index @ what)"

definition pget :: "string \<Rightarrow> (string \<times> pvalue) list \<Rightarrow> pvalue" where
  "pget k row = (case map_of row k of None \<Rightarrow> PNone | Some v \<Rightarrow> v)"

fun parse_row_dates ::
  "(string \<Rightarrow> date option) \<Rightarrow> nat \<Rightarrow> (string \<times> pvalue) list \<Rightarrow> string list \<Rightarrow> sync_error + date list" where
  "parse_row_dates parse_date index row [] = Inr []"
| "parse_row_dates parse_date index row (f # fs) =
     (case pget f row of
        PNone \<Rightarrow> parse_row_dates parse_date index row fs
      | PText raw \<Rightarrow>
          (let value = str_strip raw in
           if value = [] then parse_row_dates parse_date index row fs
           else if \<not> iso_shape value then Inl (row_error index ('' has invalid ISO date in '' @ f))
           else case parse_date value of
             None \<Rightarrow> Inl (row_error index ('' has invalid calendar date in '' @ f))
           | Some d \<Rightarrow> (case parse_row_dates parse_date index row fs of Inl e \<Rightarrow> Inl e | Inr ds \<Rightarrow> Inr (d # ds)))
      | _ \<Rightarrow> Inl (row_error index ('' has a non-string '' @ f)))"

text \<open>A metric field: missing is an error for the built-in fetchers, zero for a custom one.\<close>

definition metric_value :: "nat \<Rightarrow> bool \<Rightarrow> (string \<times> pvalue) list \<Rightarrow> string \<Rightarrow> sync_error + pvalue" where
  "metric_value index require_metrics row field = (case map_of row field of
      None \<Rightarrow> if require_metrics then Inl (row_error index ('' is missing '' @ field)) else Inr (PNum (Finite 0))
    | Some v \<Rightarrow> Inr v)"

definition row_field :: "nat \<Rightarrow> string \<Rightarrow> string" where
  "row_field index field = ''row '' @ nat_str index @ '' '' @ field"

definition bind_sum :: "'e + 'a \<Rightarrow> ('a \<Rightarrow> 'e + 'b) \<Rightarrow> 'e + 'b" where
  "bind_sum m k = (case m of Inl e \<Rightarrow> Inl e | Inr x \<Rightarrow> k x)"

lemma bind_sum_Inr [simp]: "bind_sum m k = Inr y \<longleftrightarrow> (\<exists>x. m = Inr x \<and> k x = Inr y)"
  by (cases m) (auto simp: bind_sum_def)

definition row_numbers ::
  "(string \<Rightarrow> decimal_value option) \<Rightarrow> bool \<Rightarrow> nat \<Rightarrow> (string \<times> pvalue) list \<Rightarrow> date \<Rightarrow> sync_error + metric_row" where
  "row_numbers parse_dec require_metrics index row d =
     bind_sum (metric_value index require_metrics row ''impressions'') (\<lambda>vi.
     bind_sum (provider_count parse_dec vi (row_field index ''impressions'')) (\<lambda>ni.
     bind_sum (metric_value index require_metrics row ''clicks'') (\<lambda>vc.
     bind_sum (provider_count parse_dec vc (row_field index ''clicks'')) (\<lambda>nc.
     bind_sum (metric_value index require_metrics row ''spend'') (\<lambda>vs.
     bind_sum (provider_money parse_dec vs (row_field index ''spend'')) (\<lambda>ns.
     bind_sum (if pget ''conversions'' row = PNone then Inr None
         else bind_sum (provider_money parse_dec (pget ''conversions'' row) (row_field index ''conversions'')) (\<lambda>x. Inr (Some x))) (\<lambda>cv.
       Inr \<lparr>mr_date = d, mr_impressions = ni, mr_clicks = nc, mr_spend = ns, mr_conversions = cv\<rparr>)))))))"

definition validated_row ::
  "(string \<Rightarrow> date option) \<Rightarrow> (string \<Rightarrow> decimal_value option) \<Rightarrow> date \<Rightarrow> date \<Rightarrow> bool \<Rightarrow> nat \<Rightarrow> pitem \<Rightarrow> sync_error + metric_row" where
  "validated_row parse_date parse_dec range_from range_to require_metrics index item =
     (case item of
        NotObject \<Rightarrow> Inl (row_error index '' is not an object'')
      | PRow row \<Rightarrow>
          bind_sum (parse_row_dates parse_date index row date_fields) (\<lambda>dates.
            (case dates of
               [] \<Rightarrow> Inl (row_error index '' is missing a date'')
             | d # ds \<Rightarrow>
                if \<exists>x \<in> set ds. x \<noteq> d then Inl (row_error index '' contains conflicting dates'')
                else if d < range_from \<or> d > range_to then Inl (row_error index '' date is outside the requested range'')
                else row_numbers parse_dec require_metrics index row d)))"

fun validated_from ::
  "(string \<Rightarrow> date option) \<Rightarrow> (string \<Rightarrow> decimal_value option) \<Rightarrow> date \<Rightarrow> date \<Rightarrow> bool \<Rightarrow> nat \<Rightarrow> pitem list
     \<Rightarrow> sync_error + metric_row list" where
  "validated_from pd pn lo hi req index [] = Inr []"
| "validated_from pd pn lo hi req index (r # rs) =
     bind_sum (validated_row pd pn lo hi req index r) (\<lambda>x.
       bind_sum (validated_from pd pn lo hi req (Suc index) rs) (\<lambda>xs. Inr (x # xs)))"

definition validated_provider_rows where
  "validated_provider_rows pd pn lo hi req rows = validated_from pd pn lo hi req 0 rows"

section \<open>The range of an account\<close>

text \<open>\<open>account.metadata or {}\<close>.\<close>

definition meta_of :: "account \<Rightarrow> (string \<times> json) list" where
  "meta_of a = (case ac_meta a of None \<Rightarrow> [] | Some kvs \<Rightarrow> kvs)"

text \<open>\<open>str(value)\<close>; the text of a list or an object is no date, and no id: it is empty here.\<close>

fun json_text :: "json \<Rightarrow> string" where
  "json_text (JStr s) = s"
| "json_text (JInt n) = int_str n"
| "json_text (JBool b) = (if b then ''True'' else ''False'')"
| "json_text _ = []"

definition parse_last_sync_date :: "(string \<Rightarrow> date option) \<Rightarrow> json \<Rightarrow> date option" where
  "parse_last_sync_date parse_dt raw = (case raw of JNull \<Rightarrow> None
     | v \<Rightarrow> (let value = str_strip (json_text v) in if value = [] then None else parse_dt value))"

text \<open>The day of \<open>account.last_sync_at\<close>, which the stores read from the metadata.\<close>

definition last_sync_day :: "(string \<Rightarrow> date option) \<Rightarrow> account \<Rightarrow> date option" where
  "last_sync_day parse_dt a = (case jget ''last_sync_at'' (meta_of a) of JStr s \<Rightarrow> parse_dt s | _ \<Rightarrow> None)"

definition or_else :: "'a option \<Rightarrow> 'a option \<Rightarrow> 'a option" where
  "or_else a b = (case a of None \<Rightarrow> b | Some x \<Rightarrow> Some x)"

definition resolve_date_range ::
  "(string \<Rightarrow> date option) \<Rightarrow> int \<Rightarrow> int \<Rightarrow> account \<Rightarrow> date option \<Rightarrow> date \<Rightarrow> date \<times> date" where
  "resolve_date_range parse_dt lookback overlap a explicit_from explicit_to =
     (let m = meta_of a; pl = parse_last_sync_date parse_dt;
          whole = explicit_to - (lookback - 1);
          latest = or_else (pl (jget ''latest_data_date'' m)) (or_else (pl (jget ''last_data_at'' m))
            (or_else (last_sync_day parse_dt a) (pl (jget ''last_sync_at'' m))));
          from_date = (case explicit_from of
              Some d \<Rightarrow> d
            | None \<Rightarrow> (case pl (jget ''history_backfill_completed_at'' m) of
                None \<Rightarrow> whole
              | Some _ \<Rightarrow> (case latest of Some d \<Rightarrow> d - (overlap - 1) | None \<Rightarrow> whole)))
      in (if from_date > explicit_to then explicit_to else from_date, explicit_to))"

section \<open>Credentials\<close>

type_synonym candidate = "(string \<times> json) list"

definition candidate_id :: "candidate option \<Rightarrow> string" where
  "candidate_id c = (case c of None \<Rightarrow> [] | Some kvs \<Rightarrow>
     (let v = jget ''__credential_id'' kvs in if truthy v then json_text v else []))"

definition provider_credentials :: "candidate option \<Rightarrow> candidate option" where
  "provider_credentials c = map_option (filter (\<lambda>e. take 2 (fst e) \<noteq> ''__'')) c"

definition preferred_id :: "account \<Rightarrow> string" where
  "preferred_id a = (let v = jget ''integration_credential_id'' (meta_of a) in
     if truthy v then str_strip (json_text v) else [])"

definition choose_candidates ::
  "string \<Rightarrow> uuid option \<Rightarrow> account \<Rightarrow> candidate option list \<Rightarrow> sync_error + candidate option list" where
  "choose_candidates provider user_id a resolved =
     (let cands0 = (if user_id = None then resolved else filter (\<lambda>c. c \<noteq> None) resolved);
          preferred = preferred_id a in
      if cands0 = [] \<and> user_id \<noteq> None
      then Inl (CredentialsMissing ''Provider credentials are missing or incomplete.'')
      else (let cands = (if cands0 = [] then [None] else cands0) in
        if provider = ''meta'' \<and> preferred \<noteq> [] then
          (case filter (\<lambda>c. candidate_id c = preferred) cands of
             [] \<Rightarrow> Inl (ReconnectRequired ''meta_bound_credential_missing''
               ''The Meta connection assigned to this ad account is no longer active. Reconnect Meta Ads and rediscover the account.'')
           | c # _ \<Rightarrow> Inr [c])
        else if preferred \<noteq> [] then
          Inr (filter (\<lambda>c. candidate_id c = preferred) cands @ filter (\<lambda>c. candidate_id c \<noteq> preferred) cands)
        else if provider = ''meta'' \<and> length cands > 1 then
          Inl (ReconnectRequired ''meta_credential_selection_required''
            ''This Meta ad account is not assigned to one connection. Rediscover the account before syncing.'')
        else Inr cands))"

end
