(* ===== verification/Sync_Service.thy ===== *)
theory Sync_Service
  imports Sync_Run
begin

text \<open>
  \<open>AdAccountSyncService.run_sync\<close>, \<open>run_sync_exclusive\<close> and \<open>run_due_sync\<close> over the SQL stores of
  jobs and accounts.  What the service calls outside the stores is a field of \<open>sync_env\<close> and acts
  on a world; the clock and the job ids are fields of \<open>sync_clock\<close>, by account.  The heartbeat
  thread of \<open>run_sync_exclusive\<close> is a step of \<open>lease_step\<close> and is left out here.
\<close>

section \<open>Environment and state\<close>

text \<open>
  A fetcher gets the external id, the range and the credentials; \<open>None\<close> is the legacy call without
  credentials.  \<open>se_require\<close> returns the status and the code of a usable Meta credential.
\<close>

type_synonym 'w fetcher =
  "string \<Rightarrow> date \<Rightarrow> date \<Rightarrow> candidate option option \<Rightarrow> 'w \<Rightarrow> (sync_error + pitem list) \<times> 'w"

record 'w sync_env =
  se_fetch :: "string \<Rightarrow> 'w fetcher option"
  se_builtin :: "string \<Rightarrow> bool"
  se_candidates :: "(string \<Rightarrow> uuid \<Rightarrow> uuid option \<Rightarrow> 'w \<Rightarrow> sync_error + candidate option list) option"
  se_single :: "(string \<Rightarrow> uuid \<Rightarrow> uuid option \<Rightarrow> 'w \<Rightarrow> sync_error + candidate option) option"
  se_require :: "candidate \<Rightarrow> sync_error + (string \<times> json)"
  se_ingest :: "uuid \<Rightarrow> string \<Rightarrow> metric_row list \<Rightarrow> 'w \<Rightarrow> (sync_error + int) \<times> 'w"
  se_parse_date :: "string \<Rightarrow> date option"
  se_parse_dt :: "string \<Rightarrow> date option"
  se_parse_dec :: "string \<Rightarrow> decimal_value option"
  se_iso_ts :: "timestamp \<Rightarrow> string"
  se_iso_date :: "date \<Rightarrow> string"
  se_lookback :: int
  se_overlap :: int

record sync_clock =
  ck_started :: "uuid \<Rightarrow> timestamp"
  ck_finished :: "uuid \<Rightarrow> timestamp"
  ck_patched :: "uuid \<Rightarrow> timestamp"
  ck_job :: "uuid \<Rightarrow> uuid"

text \<open>\<open>ss_calls\<close> records the fetcher calls; the code keeps no such record.\<close>

record fetch_call =
  fc_account :: uuid
  fc_provider :: string
  fc_creds :: "candidate option option"

record 'w sync_state =
  ss_jobs :: sync_db
  ss_db :: account_db
  ss_world :: 'w
  ss_calls :: "fetch_call list"

section \<open>Fetching\<close>

record 'w fetching =
  ft_used :: "string option"
  ft_diag :: "(string \<times> json) option"
  ft_last :: "sync_error option"
  ft_rows :: "pitem list"
  ft_world :: 'w
  ft_calls :: "fetch_call list"

definition non_empty :: "string \<Rightarrow> string option" where
  "non_empty s = (if s = [] then None else Some s)"

definition resolve_candidates :: "'w sync_env \<Rightarrow> string \<Rightarrow> account \<Rightarrow> uuid option \<Rightarrow> 'w \<Rightarrow> sync_error + candidate option list" where
  "resolve_candidates env provider a user_id w =
     (case se_candidates env of
        Some f \<Rightarrow> f provider (ac_client a) user_id w
      | None \<Rightarrow> (case se_single env of
          Some g \<Rightarrow> bind_sum (g provider (ac_client a) user_id w) (\<lambda>c. Inr (if c = None then [] else [c]))
        | None \<Rightarrow> Inr []))"

definition call_fetcher ::
  "'w fetcher \<Rightarrow> account \<Rightarrow> string \<Rightarrow> date \<Rightarrow> date \<Rightarrow> candidate option option \<Rightarrow> 'w fetching \<Rightarrow> (sync_error + pitem list) \<times> 'w fetching" where
  "call_fetcher f a provider lo hi arg s =
     (case f (ac_external a) lo hi arg (ft_world s) of (r, w) \<Rightarrow>
        (r, s\<lparr>ft_world := w, ft_calls := ft_calls s @ [\<lparr>fc_account = ac_id a, fc_provider = provider, fc_creds = arg\<rparr>]\<rparr>))"

definition fetched :: "(sync_error + pitem list) \<times> 'w fetching \<Rightarrow> 'w fetching" where
  "fetched rs = (case rs of (Inr rows, s) \<Rightarrow> s\<lparr>ft_rows := rows, ft_last := None\<rparr> | (Inl e, s) \<Rightarrow> s\<lparr>ft_last := Some e\<rparr>)"

text \<open>The check of a Meta credential, and the call with the legacy call after a \<open>TypeError\<close>.\<close>

definition check_credential ::
  "'w sync_env \<Rightarrow> string \<Rightarrow> candidate option \<Rightarrow> (string \<times> json) option \<Rightarrow> sync_error + (string \<times> json) option" where
  "check_credential env provider creds diag =
     (case creds of
        Some (e # kvs) \<Rightarrow> if provider = ''meta'' then bind_sum (se_require env (e # kvs)) (\<lambda>d. Inr (Some d)) else Inr diag
      | _ \<Rightarrow> Inr diag)"

definition call_with_fallback ::
  "'w fetcher \<Rightarrow> account \<Rightarrow> string \<Rightarrow> date \<Rightarrow> date \<Rightarrow> candidate option \<Rightarrow> 'w fetching \<Rightarrow> 'w fetching" where
  "call_with_fallback f a provider lo hi creds s =
     (case call_fetcher f a provider lo hi (Some creds) s of
        (Inl (BadSignature _), s) \<Rightarrow> fetched (call_fetcher f a provider lo hi None s)
      | r \<Rightarrow> fetched r)"

definition fetch_with ::
  "'w sync_env \<Rightarrow> 'w fetcher \<Rightarrow> account \<Rightarrow> string \<Rightarrow> date \<Rightarrow> date \<Rightarrow> candidate option \<Rightarrow> 'w fetching \<Rightarrow> 'w fetching" where
  "fetch_with env f a provider lo hi c s =
     (let s = s\<lparr>ft_used := non_empty (str_strip (candidate_id c))\<rparr> in
      case check_credential env provider (provider_credentials c) (ft_diag s) of
        Inl e \<Rightarrow> s\<lparr>ft_last := Some e\<rparr>
      | Inr d \<Rightarrow> call_with_fallback f a provider lo hi (provider_credentials c) (s\<lparr>ft_diag := d\<rparr>))"

fun try_candidates ::
  "'w sync_env \<Rightarrow> 'w fetcher \<Rightarrow> account \<Rightarrow> string \<Rightarrow> date \<Rightarrow> date \<Rightarrow> candidate option list \<Rightarrow> 'w fetching \<Rightarrow> 'w fetching" where
  "try_candidates env f a provider lo hi [] s = s"
| "try_candidates env f a provider lo hi (c # cs) s =
     (let s = fetch_with env f a provider lo hi c s in
      if ft_last s = None then s else try_candidates env f a provider lo hi cs s)"

definition rediscovery_required :: "string \<Rightarrow> account \<Rightarrow> bool" where
  "rediscovery_required provider a \<longleftrightarrow> provider = ''meta'' \<and> truthy (jget ''meta_rediscovery_required'' (meta_of a))"

definition fetch_start :: "'w \<Rightarrow> 'w fetching" where
  "fetch_start w = \<lparr>ft_used = None, ft_diag = None, ft_last = None, ft_rows = [], ft_world = w, ft_calls = []\<rparr>"

definition fetch_phase ::
  "'w sync_env \<Rightarrow> uuid option \<Rightarrow> account \<Rightarrow> string \<Rightarrow> 'w fetcher \<Rightarrow> date \<Rightarrow> date \<Rightarrow> 'w \<Rightarrow> sync_error option \<times> 'w fetching" where
  "fetch_phase env user_id a provider f lo hi w =
     (if rediscovery_required provider a
      then (Some (ReconnectRequired ''meta_rediscovery_required''
        ''This Meta ad account moved to another client. Rediscover it before syncing.''), fetch_start w)
      else case bind_sum (resolve_candidates env provider a user_id w) (choose_candidates provider user_id a) of
        Inl e \<Rightarrow> (Some e, fetch_start w)
      | Inr cands \<Rightarrow>
          (let s = try_candidates env f a provider lo hi cands (fetch_start w) in (ft_last s, s)))"

section \<open>Storing\<close>

text \<open>\<open>_ingest_provider_rows\<close> converts the validated numbers once more.\<close>

definition ingest_row :: "(string \<Rightarrow> decimal_value option) \<Rightarrow> metric_row \<Rightarrow> sync_error + metric_row" where
  "ingest_row parse r =
     bind_sum (provider_count parse (PNum (Finite (of_int (mr_impressions r)))) ''count'') (\<lambda>i.
     bind_sum (provider_count parse (PNum (Finite (of_int (mr_clicks r)))) ''count'') (\<lambda>c.
     bind_sum (provider_money parse (PNum (Finite (mr_spend r))) ''amount'') (\<lambda>sp.
     bind_sum (case mr_conversions r of None \<Rightarrow> Inr None
         | Some v \<Rightarrow> bind_sum (provider_money parse (PNum (Finite v)) ''amount'') (\<lambda>x. Inr (Some x))) (\<lambda>cv.
       Inr \<lparr>mr_date = mr_date r, mr_impressions = i, mr_clicks = c, mr_spend = sp, mr_conversions = cv\<rparr>))))"

fun ingest_rows :: "(string \<Rightarrow> decimal_value option) \<Rightarrow> metric_row list \<Rightarrow> sync_error + metric_row list" where
  "ingest_rows parse [] = Inr []"
| "ingest_rows parse (r # rs) = bind_sum (ingest_row parse r) (\<lambda>x. bind_sum (ingest_rows parse rs) (\<lambda>xs. Inr (x # xs)))"

definition ingest_provider_rows ::
  "'w sync_env \<Rightarrow> uuid \<Rightarrow> string \<Rightarrow> metric_row list \<Rightarrow> 'w \<Rightarrow> (sync_error + int) \<times> 'w" where
  "ingest_provider_rows env i provider rows w =
     (if rows = [] then (Inr 0, w)
      else case ingest_rows (se_parse_dec env) rows of Inl e \<Rightarrow> (Inl e, w) | Inr xs \<Rightarrow> se_ingest env i provider xs w)"

definition latest_of :: "metric_row list \<Rightarrow> date option" where
  "latest_of rows = (case map mr_date rows of [] \<Rightarrow> None | d # ds \<Rightarrow> Some (foldl max d ds))"

definition store_phase ::
  "'w sync_env \<Rightarrow> account \<Rightarrow> string \<Rightarrow> date \<Rightarrow> date \<Rightarrow> pitem list \<Rightarrow> 'w \<Rightarrow> (sync_error + int \<times> date option) \<times> 'w" where
  "store_phase env a provider lo hi items w =
     (case validated_provider_rows (se_parse_date env) (se_parse_dec env) lo hi (se_builtin env provider) items of
        Inl e \<Rightarrow> (Inl e, w)
      | Inr rows \<Rightarrow> (case ingest_provider_rows env (ac_id a) provider rows w of
          (Inl e, w) \<Rightarrow> (Inl e, w)
        | (Inr n, w) \<Rightarrow> (Inr (n, latest_of rows), w)))"

section \<open>The outcome of an account\<close>

record run_outcome =
  oc_status :: sync_status
  oc_records :: int
  oc_message :: "string option"
  oc_code :: "string option"
  oc_category :: "string option"
  oc_retryable :: bool
  oc_attempt :: int
  oc_next_retry :: "timestamp option"
  oc_used :: "string option"
  oc_rows :: nat
  oc_latest :: "date option"
  oc_diag :: "(string \<times> json) option"
  oc_diag_code :: "string option"

definition not_supported :: "int \<Rightarrow> run_outcome" where
  "not_supported attempt = \<lparr>oc_status = SyncError, oc_records = 0,
     oc_message = Some (safe_sync_error_message (Some ''provider_not_supported'') None),
     oc_code = Some ''provider_not_supported'', oc_category = Some ''configuration'', oc_retryable = False, oc_attempt = attempt,
     oc_next_retry = None, oc_used = None, oc_rows = 0, oc_latest = None, oc_diag = None, oc_diag_code = None\<rparr>"

definition failed_outcome :: "sync_error \<Rightarrow> timestamp \<Rightarrow> int \<Rightarrow> nat \<Rightarrow> 'w fetching \<Rightarrow> run_outcome" where
  "failed_outcome e s_at attempt rows s =
     (case classify_error e of (code, category, retryable) \<Rightarrow>
       \<lparr>oc_status = SyncError, oc_records = 0, oc_message = Some (to_error_message e), oc_code = Some code,
        oc_category = Some category, oc_retryable = retryable, oc_attempt = attempt,
        oc_next_retry = (if retryable then Some (next_retry_at s_at attempt) else None), oc_used = ft_used s,
        oc_rows = rows, oc_latest = None, oc_diag = ft_diag s,
        oc_diag_code = (case e of ReconnectRequired c _ \<Rightarrow> Some (safe_meta_reconnect_code (Some c)) | _ \<Rightarrow> None)\<rparr>)"

definition success_outcome :: "int \<Rightarrow> date option \<Rightarrow> nat \<Rightarrow> 'w fetching \<Rightarrow> run_outcome" where
  "success_outcome records latest rows s = \<lparr>oc_status = SyncSuccess, oc_records = records, oc_message = None, oc_code = None,
     oc_category = None, oc_retryable = False, oc_attempt = 1, oc_next_retry = None, oc_used = ft_used s, oc_rows = rows,
     oc_latest = latest, oc_diag = ft_diag s, oc_diag_code = None\<rparr>"

definition account_outcome ::
  "'w sync_env \<Rightarrow> uuid option \<Rightarrow> account \<Rightarrow> string \<Rightarrow> date \<Rightarrow> date \<Rightarrow> int \<Rightarrow> timestamp \<Rightarrow> 'w \<Rightarrow> run_outcome \<times> 'w \<times> fetch_call list" where
  "account_outcome env user_id a provider lo hi attempt s_at w =
     (case se_fetch env provider of
        None \<Rightarrow> (not_supported attempt, w, [])
      | Some f \<Rightarrow>
         (case fetch_phase env user_id a provider f lo hi w of
            (Some e, s) \<Rightarrow> (failed_outcome e s_at attempt 0 s, ft_world s, ft_calls s)
          | (None, s) \<Rightarrow>
             (case store_phase env a provider lo hi (ft_rows s) (ft_world s) of
                (Inl e, w) \<Rightarrow> (failed_outcome e s_at attempt (length (ft_rows s)) s, w, ft_calls s)
              | (Inr (n, latest), w) \<Rightarrow> (success_outcome n latest (length (ft_rows s)) s, w, ft_calls s))))"

section \<open>Recording\<close>

definition new_job ::
  "sync_clock \<Rightarrow> uuid option \<Rightarrow> account \<Rightarrow> string \<Rightarrow> date \<Rightarrow> date \<Rightarrow> run_outcome \<Rightarrow> sync_job" where
  "new_job ck created_by a provider lo hi oc =
     \<lparr>sj_id = ck_job ck (ac_id a), sj_account = ac_id a, sj_provider = provider, sj_status = oc_status oc,
      sj_started = ck_started ck (ac_id a), sj_finished = Some (ck_finished ck (ac_id a)), sj_records = oc_records oc,
      sj_error_message = oc_message oc, sj_error_code = oc_code oc, sj_error_category = oc_category oc,
      sj_retryable = oc_retryable oc, sj_attempt = oc_attempt oc, sj_next_retry = oc_next_retry oc,
      sj_meta = Some \<lparr>rm_from = lo, rm_to = hi, rm_rows = oc_rows oc,
        rm_empty = (oc_status oc = SyncSuccess \<and> oc_rows oc = 0), rm_latest = oc_latest oc\<rparr>,
      sj_created_by = created_by, sj_created = ck_finished ck (ac_id a)\<rparr>"

definition opt_str :: "string option \<Rightarrow> json" where
  "opt_str v = (case v of None \<Rightarrow> JNull | Some s \<Rightarrow> JStr s)"

definition put_all :: "(string \<times> json) list \<Rightarrow> (string \<times> json) list \<Rightarrow> (string \<times> json) list" where
  "put_all kvs m = foldl (\<lambda>m e. AList.update (fst e) (snd e) m) m kvs"

definition status_fields :: "'w sync_env \<Rightarrow> timestamp \<Rightarrow> uuid \<Rightarrow> run_outcome \<Rightarrow> (string \<times> json) list" where
  "status_fields env s_at job_id oc =
     [(''last_sync_attempt_at'', JStr (se_iso_ts env s_at)),
      (''sync_status'', JStr (if oc_status oc = SyncSuccess then ''success'' else ''error'')),
      (''sync_error'', opt_str (oc_message oc)), (''sync_error_code'', opt_str (oc_code oc)),
      (''sync_error_category'', opt_str (oc_category oc)), (''sync_retryable'', JBool (oc_retryable oc)),
      (''sync_next_retry_at'', opt_str (map_option (se_iso_ts env) (oc_next_retry oc))),
      (''sync_attempt'', JInt (oc_attempt oc)), (''last_sync_job_id'', JStr (str_uuid job_id)),
      (''sync_data_status'', JStr (if oc_status oc = SyncSuccess \<and> oc_rows oc > 0 then ''received''
         else if oc_status oc = SyncSuccess then ''empty'' else ''error''))]"

definition connection_fields :: "string \<Rightarrow> run_outcome \<Rightarrow> (string \<times> json) list" where
  "connection_fields provider oc =
     (if provider \<noteq> ''meta'' then []
      else case oc_diag oc of
        Some (status, code) \<Rightarrow> [(''meta_connection_status'', JStr status), (''meta_connection_diagnostic_code'', code)]
      | None \<Rightarrow> if oc_code oc = Some ''provider_reconnect_required''
          then [(''meta_connection_status'', JStr ''error''),
            (''meta_connection_diagnostic_code'', JStr (case oc_diag_code oc of Some c \<Rightarrow> c | None \<Rightarrow> reconnect_default))]
          else [])"

definition success_fields :: "'w sync_env \<Rightarrow> timestamp \<Rightarrow> bool \<Rightarrow> account \<Rightarrow> run_outcome \<Rightarrow> (string \<times> json) list" where
  "success_fields env f_at initial a oc =
     (if oc_status oc \<noteq> SyncSuccess then []
      else [(''last_sync_success_at'', JStr (se_iso_ts env f_at))]
        @ (if oc_rows oc > 0
           then [(''last_sync_at'', JStr (se_iso_ts env f_at)),
                 (''last_data_at'', opt_str (map_option (se_iso_date env) (oc_latest oc))),
                 (''latest_data_date'', opt_str (map_option (se_iso_date env) (oc_latest oc)))] else [])
        @ (case oc_used oc of Some u \<Rightarrow> [(''integration_credential_id'', JStr u)] | None \<Rightarrow> [])
        @ (if oc_rows oc > 0 \<and> initial \<and> \<not> truthy (jget ''history_backfill_completed_at'' (meta_of a))
           then [(''history_backfill_completed_at'', JStr (se_iso_ts env f_at)),
                 (''history_backfill_window_days'', JInt (se_lookback env))] else []))"

definition next_metadata :: "'w sync_env \<Rightarrow> sync_clock \<Rightarrow> bool \<Rightarrow> account \<Rightarrow> string \<Rightarrow> uuid \<Rightarrow> run_outcome \<Rightarrow> (string \<times> json) list" where
  "next_metadata env ck initial a provider job_id oc =
     put_all (status_fields env (ck_started ck (ac_id a)) job_id oc @ connection_fields provider oc
       @ success_fields env (ck_finished ck (ac_id a)) initial a oc) (meta_of a)"

definition metadata_patch :: "(string \<times> json) list \<Rightarrow> account_patch" where
  "metadata_patch m = \<lparr>ap_client = None, ap_platform = None, ap_external = None, ap_name = None, ap_currency = None,
     ap_timezone = None, ap_status = None, ap_meta = Some (Some m)\<rparr>"

end
