(* ===== verification/Sync_Batch.thy ===== *)
theory Sync_Batch
  imports Sync_Service
begin

text \<open>
  \<open>run_sync\<close> over a batch of accounts, under the lease of \<open>run_sync_exclusive\<close>, and the batch that
  \<open>run_due_sync\<close> selects.
\<close>

section \<open>One account\<close>

definition waits_for_retry :: "bool \<Rightarrow> sync_job option \<Rightarrow> timestamp \<Rightarrow> bool" where
  "waits_for_retry force prev s_at \<longleftrightarrow> \<not> force \<and> (case prev of None \<Rightarrow> False
     | Some j \<Rightarrow> sj_status j = SyncError \<and> sj_retryable j \<and> (case sj_next_retry j of None \<Rightarrow> False | Some t \<Rightarrow> s_at < t))"

definition next_attempt :: "sync_job option \<Rightarrow> int" where
  "next_attempt prev = (case prev of None \<Rightarrow> 1
     | Some j \<Rightarrow> if sj_status j = SyncError \<and> sj_retryable j then (if sj_attempt j = 0 then 1 else sj_attempt j) + 1 else 1)"

record sync_args =
  sa_account_ids :: "uuid list option"
  sa_platform :: string
  sa_from :: "date option"
  sa_to :: "date option"
  sa_created_by :: "uuid option"
  sa_user :: "uuid option"
  sa_force :: bool

definition provider_of :: "account \<Rightarrow> string" where
  "provider_of a = str_strip (str_lower (ac_platform a))"

definition is_initial :: "'w sync_env \<Rightarrow> sync_args \<Rightarrow> account \<Rightarrow> bool" where
  "is_initial env args a \<longleftrightarrow> sa_from args = None
     \<and> parse_last_sync_date (se_parse_dt env) (jget ''history_backfill_completed_at'' (meta_of a)) = None"

datatype account_run = SkippedAccount | RecordedJob sync_job | RaisedError

text \<open>\<open>RaisedError\<close> is an exception of the two stores, which ends the run.\<close>

definition run_account ::
  "'w sync_env \<Rightarrow> sync_clock \<Rightarrow> sync_args \<Rightarrow> date \<Rightarrow> sync_job option \<Rightarrow> account \<Rightarrow> 'w sync_state \<Rightarrow> account_run \<times> 'w sync_state" where
  "run_account env ck args sync_to prev a s =
     (let s_at = ck_started ck (ac_id a); provider = provider_of a in
      if waits_for_retry (sa_force args) prev s_at then (SkippedAccount, s)
      else
        (case resolve_date_range (se_parse_dt env) (se_lookback env) (se_overlap env) a (sa_from args) sync_to of (lo, hi) \<Rightarrow>
         (case account_outcome env (sa_user args) a provider lo hi (next_attempt prev) s_at (ss_world s) of (oc, w, calls) \<Rightarrow>
          (let s = s\<lparr>ss_world := w, ss_calls := ss_calls s @ calls\<rparr> in
           case sql_job_create (new_job ck (sa_created_by args) a provider lo hi oc) (ss_jobs s) of
             (None, _) \<Rightarrow> (RaisedError, s)
           | (Some job, jobs) \<Rightarrow>
              (let s = s\<lparr>ss_jobs := jobs\<rparr> in
               case sql_account_patch (ac_id a) (metadata_patch
                   (next_metadata env ck (is_initial env args a) a provider (sj_id job) oc)) (ck_patched ck (ac_id a)) (ss_db s) of
                 Inl _ \<Rightarrow> (RaisedError, s)
               | Inr (_, db) \<Rightarrow> (RecordedJob job, s\<lparr>ss_db := db\<rparr>))))))"

section \<open>\<open>run_sync\<close>\<close>

record sync_result =
  sr_requested :: nat
  sr_processed :: nat
  sr_skipped :: nat
  sr_success :: nat
  sr_failed :: nat
  sr_retry_scheduled :: nat
  sr_jobs :: "sync_job list"

definition count_job :: "sync_job \<Rightarrow> sync_result \<Rightarrow> sync_result" where
  "count_job j r = (let r = r\<lparr>sr_processed := sr_processed r + 1, sr_jobs := sr_jobs r @ [j]\<rparr> in
     if sj_status j = SyncSuccess then r\<lparr>sr_success := sr_success r + 1\<rparr>
     else let r = r\<lparr>sr_failed := sr_failed r + 1\<rparr> in
       if sj_retryable j \<and> sj_next_retry j \<noteq> None then r\<lparr>sr_retry_scheduled := sr_retry_scheduled r + 1\<rparr> else r)"

fun run_accounts ::
  "'w sync_env \<Rightarrow> sync_clock \<Rightarrow> sync_args \<Rightarrow> date \<Rightarrow> (uuid \<Rightarrow> sync_job option) \<Rightarrow> account list \<Rightarrow> sync_result \<Rightarrow> 'w sync_state
     \<Rightarrow> sync_result option \<times> 'w sync_state" where
  "run_accounts env ck args sync_to latest [] r s = (Some r, s)"
| "run_accounts env ck args sync_to latest (a # as) r s =
     (case run_account env ck args sync_to (latest (ac_id a)) a s of
        (RaisedError, s) \<Rightarrow> (None, s)
      | (SkippedAccount, s) \<Rightarrow> run_accounts env ck args sync_to latest as (r\<lparr>sr_skipped := sr_skipped r + 1\<rparr>) s
      | (RecordedJob j, s) \<Rightarrow> run_accounts env ck args sync_to latest as (count_job j r) s)"

definition batch_accounts :: "sync_args \<Rightarrow> account_db \<Rightarrow> account list" where
  "batch_accounts args db =
     (let accounts = eligible_active_accounts db;
          accounts = (case sa_account_ids args of None \<Rightarrow> accounts | Some ids \<Rightarrow> filter (\<lambda>a. ac_id a \<in> set ids) accounts)
      in if sa_platform args = [] then accounts else filter (\<lambda>a. ac_platform a = sa_platform args) accounts)"

definition day_of :: "timestamp \<Rightarrow> date" where
  "day_of t = t div (86400 * 1000000)"

definition empty_result :: "nat \<Rightarrow> nat \<Rightarrow> sync_result" where
  "empty_result requested skipped = \<lparr>sr_requested = requested, sr_processed = 0, sr_skipped = skipped, sr_success = 0,
     sr_failed = 0, sr_retry_scheduled = 0, sr_jobs = []\<rparr>"

definition run_sync ::
  "'w sync_env \<Rightarrow> sync_clock \<Rightarrow> sync_args \<Rightarrow> timestamp \<Rightarrow> 'w sync_state \<Rightarrow> sync_result option \<times> 'w sync_state" where
  "run_sync env ck args started_at s =
     (let sync_to = (case sa_to args of Some d \<Rightarrow> d | None \<Rightarrow> day_of started_at);
          accounts = batch_accounts args (ss_db s);
          latest = sql_latest_by_account_ids (map ac_id accounts) (ss_jobs s);
          requested = (case sa_account_ids args of Some ids \<Rightarrow> length ids | None \<Rightarrow> length accounts)
      in run_accounts env ck args sync_to latest accounts (empty_result requested 0) s)"

text \<open>\<open>lease_seconds\<close> is the value of \<open>AD_SYNC_RUN_LEASE_SECONDS\<close>, \<open>None\<close> when it is no number.\<close>

definition run_lease_key :: string where "run_lease_key = ''ad-account-sync-run''"

definition run_lease_seconds :: "int option \<Rightarrow> int" where
  "run_lease_seconds v = (case v of None \<Rightarrow> 1800 | Some n \<Rightarrow> max 60 n)"

definition run_sync_exclusive ::
  "'w sync_env \<Rightarrow> sync_clock \<Rightarrow> int option \<Rightarrow> nat \<Rightarrow> sync_args \<Rightarrow> timestamp \<Rightarrow> 'w sync_state \<Rightarrow> sync_result option \<times> 'w sync_state" where
  "run_sync_exclusive env ck lease_env token args started_at s =
     (case sql_acquire_lease run_lease_key started_at (run_lease_seconds lease_env) token (ss_jobs s) of
        (None, jobs) \<Rightarrow>
          (let n = (case sa_account_ids args of None \<Rightarrow> 0 | Some ids \<Rightarrow> length ids) in
           (Some (empty_result n n), s\<lparr>ss_jobs := jobs\<rparr>))
      | (Some t, jobs) \<Rightarrow>
          (case run_sync env ck args started_at (s\<lparr>ss_jobs := jobs\<rparr>) of (r, s) \<Rightarrow>
            (r, s\<lparr>ss_jobs := sql_release_lease run_lease_key t (ss_jobs s)\<rparr>)))"

section \<open>\<open>run_due_sync\<close>\<close>

text \<open>\<open>datetime.min\<close>, in microseconds from the epoch.\<close>

definition datetime_min :: timestamp where "datetime_min = - 62135596800 * 1000000"

text \<open>The priority and the instant of a due account.\<close>

definition due_entry :: "timestamp \<Rightarrow> int \<Rightarrow> sync_job option \<Rightarrow> (int \<times> timestamp) option" where
  "due_entry started_at stale_after_hours job =
     (let stale_cutoff = started_at - max 1 stale_after_hours * 3600 * 1000000 in
      case job of
        None \<Rightarrow> Some (1, datetime_min)
      | Some j \<Rightarrow>
          if sj_status j = SyncError then
            (if sj_retryable j \<and> (case sj_next_retry j of None \<Rightarrow> True | Some t \<Rightarrow> t \<le> started_at)
             then Some (0, (case sj_next_retry j of Some t \<Rightarrow> t | None \<Rightarrow> sj_started j)) else None)
          else
            (let completed_at = (case sj_finished j of Some t \<Rightarrow> t | None \<Rightarrow> sj_started j) in
             if completed_at \<le> stale_cutoff then Some (2, completed_at) else None))"

fun due_list :: "timestamp \<Rightarrow> int \<Rightarrow> (uuid \<Rightarrow> sync_job option) \<Rightarrow> account list \<Rightarrow> (int \<times> timestamp \<times> account) list" where
  "due_list now hours latest [] = []"
| "due_list now hours latest (a # as) =
     (case due_entry now hours (latest (ac_id a)) of
        None \<Rightarrow> due_list now hours latest as
      | Some (p, t) \<Rightarrow> (p, t, a) # due_list now hours latest as)"

definition due_key :: "int \<times> timestamp \<times> account \<Rightarrow> int \<times> timestamp \<times> uuid" where
  "due_key e = (case e of (p, t, a) \<Rightarrow> (p, t, ac_id a))"

definition batch_limit :: "int \<Rightarrow> nat" where
  "batch_limit batch_size = nat (max 1 (min batch_size 100))"

definition select_due :: "timestamp \<Rightarrow> int \<Rightarrow> int \<Rightarrow> (uuid \<Rightarrow> sync_job option) \<Rightarrow> account list \<Rightarrow> account list" where
  "select_due now hours batch_size latest accounts =
     map (\<lambda>e. snd (snd e)) (take (batch_limit batch_size) (sort_key due_key (due_list now hours latest accounts)))"

record due_result =
  dr_lease_acquired :: bool
  dr_selected :: "uuid list"
  dr_result :: "sync_result option"

definition due_lease_key :: string where "due_lease_key = ''ad-account-sync-due''"

definition due_args :: "uuid list \<Rightarrow> sync_args" where
  "due_args ids = \<lparr>sa_account_ids = Some ids, sa_platform = [], sa_from = None, sa_to = None, sa_created_by = None,
     sa_user = None, sa_force = False\<rparr>"

text \<open>\<open>None\<close> is an exception of the run; the lease is released then, too.\<close>

definition run_due_sync ::
  "'w sync_env \<Rightarrow> sync_clock \<Rightarrow> int option \<Rightarrow> nat \<Rightarrow> nat \<Rightarrow> int \<Rightarrow> int \<Rightarrow> int \<Rightarrow> timestamp \<Rightarrow> timestamp \<Rightarrow> 'w sync_state
     \<Rightarrow> due_result option \<times> 'w sync_state" where
  "run_due_sync env ck lease_env token run_token batch_size hours lease_seconds started_at run_at s =
     (case sql_acquire_lease due_lease_key started_at (max 30 lease_seconds) token (ss_jobs s) of
        (None, jobs) \<Rightarrow> (Some \<lparr>dr_lease_acquired = False, dr_selected = [], dr_result = None\<rparr>, s\<lparr>ss_jobs := jobs\<rparr>)
      | (Some t, jobs) \<Rightarrow>
          (let s = s\<lparr>ss_jobs := jobs\<rparr>;
               accounts = eligible_active_accounts (ss_db s);
               latest = sql_latest_by_account_ids (map ac_id accounts) (ss_jobs s);
               ids = map ac_id (select_due started_at hours batch_size latest accounts)
           in case (if ids = [] then (Some \<lparr>dr_lease_acquired = True, dr_selected = [], dr_result = None\<rparr>, s)
               else (case run_sync_exclusive env ck lease_env run_token (due_args ids) run_at s of
                   (None, s) \<Rightarrow> (None, s)
                 | (Some r, s) \<Rightarrow> (Some \<lparr>dr_lease_acquired = True, dr_selected = ids, dr_result = Some r\<rparr>, s))) of
             (r, s) \<Rightarrow> (r, s\<lparr>ss_jobs := sql_release_lease due_lease_key t (ss_jobs s)\<rparr>)))"

end
