(* ===== verification/Sync_Laws.thy ===== *)
theory Sync_Laws
  imports Sync_Batch
begin

text \<open>
  Lemmas of the synchronisation: what a validated row is, which credentials a fetcher sees, which
  messages are stored, and what a run adds to the jobs.
\<close>

section \<open>Validated rows\<close>

definition money_ok :: "rat \<Rightarrow> bool" where
  "money_ok x \<longleftrightarrow> 0 \<le> x \<and> x \<le> 99999999999999 / 100 \<and> q_money x = x"

definition row_ok :: "date \<Rightarrow> date \<Rightarrow> metric_row \<Rightarrow> bool" where
  "row_ok lo hi r \<longleftrightarrow> lo \<le> mr_date r \<and> mr_date r \<le> hi \<and> 0 \<le> mr_impressions r \<and> mr_impressions r \<le> max_count
     \<and> 0 \<le> mr_clicks r \<and> mr_clicks r \<le> max_count \<and> money_ok (mr_spend r)
     \<and> (case mr_conversions r of None \<Rightarrow> True | Some v \<Rightarrow> money_ok v)"

lemma provider_decimal_nonneg: "provider_decimal parse v f = Inr x \<Longrightarrow> 0 \<le> x"
  by (auto simp: provider_decimal_def Let_def split: option.splits decimal_value.splits if_splits)

lemma provider_count_ok: "provider_count parse v f = Inr n \<Longrightarrow> 0 \<le> n \<and> n \<le> max_count"
proof -
  assume c: "provider_count parse v f = Inr n"
  then obtain x where x: "provider_decimal parse v f = Inr x" "\<not> x > of_int max_count" "n = \<lfloor>x\<rfloor>"
    by (auto simp: provider_count_def split: sum.splits if_splits)
  have "0 \<le> \<lfloor>x\<rfloor>" using provider_decimal_nonneg [OF x(1)] by simp
  moreover have "\<lfloor>x\<rfloor> \<le> max_count" using x(2) by (meson floor_le_iff le_less_trans less_add_one linorder_not_less of_int_floor_le of_int_le_iff order_trans)
  ultimately show ?thesis using x(3) by simp
qed

lemma provider_money_ok: "provider_money parse v f = Inr x \<Longrightarrow> money_ok x"
proof -
  assume m: "provider_money parse v f = Inr x"
  then obtain y where y: "provider_decimal parse v f = Inr y" "\<not> q_money y > 99999999999999 / 100" "x = q_money y"
    by (auto simp: provider_money_def Let_def split: sum.splits if_splits)
  have "0 \<le> q_money y" using provider_decimal_nonneg [OF y(1)] by (rule q_money_nonneg)
  then show ?thesis using y by (simp add: money_ok_def)
qed

lemma row_numbers_ok:
  assumes "row_numbers pn req i row d = Inr r" "lo \<le> d" "d \<le> hi"
  shows "row_ok lo hi r"
  using assms unfolding row_numbers_def row_ok_def
  by (auto split: if_splits dest!: provider_count_ok provider_money_ok)

lemma validated_row_ok:
  assumes "validated_row pd pn lo hi req i item = Inr r"
  shows "row_ok lo hi r"
proof -
  obtain row dates where item: "item = PRow row" and dates: "parse_row_dates pd i row date_fields = Inr dates"
    using assms by (cases item) (auto simp: validated_row_def)
  obtain d ds where d: "dates = d # ds"
    using assms item dates by (cases dates) (auto simp: validated_row_def bind_sum_def)
  have "row_numbers pn req i row d = Inr r" "lo \<le> d" "d \<le> hi"
    using assms unfolding validated_row_def item d by (simp_all add: dates d bind_sum_def not_less split: if_splits)
  then show ?thesis by (rule row_numbers_ok)
qed

lemma validated_rows_ok: "validated_from pd pn lo hi req i items = Inr rows \<Longrightarrow> list_all (row_ok lo hi) rows"
  by (induction items arbitrary: i rows) (auto dest: validated_row_ok)

text \<open>The second conversion of a validated row changes nothing and never fails.\<close>

lemma count_again: "0 \<le> n \<Longrightarrow> n \<le> max_count \<Longrightarrow> provider_count parse (PNum (Finite (of_int n))) f = Inr n"
  by (simp add: provider_count_def provider_decimal_def)

lemma money_again: "money_ok x \<Longrightarrow> provider_money parse (PNum (Finite x)) f = Inr x"
  by (simp add: provider_money_def provider_decimal_def money_ok_def Let_def)

lemma ingest_row_id: "row_ok lo hi r \<Longrightarrow> ingest_row parse r = Inr r"
  unfolding row_ok_def ingest_row_def
  by (cases "mr_conversions r") (simp_all add: count_again money_again bind_sum_def)

lemma ingest_rows_id: "list_all (row_ok lo hi) rows \<Longrightarrow> ingest_rows parse rows = Inr rows"
  by (induction rows) (simp_all add: ingest_row_id [of lo hi] bind_sum_def)

text \<open>Either nothing of a payload is ingested, or all of it was valid.\<close>

lemma store_phase_cases:
  assumes "store_phase env a provider lo hi items w = (r, w')"
  shows "w' = w \<or> (\<exists>rows. list_all (row_ok lo hi) rows \<and> length rows = length items
    \<and> w' = snd (se_ingest env (ac_id a) provider rows w))"
proof (cases "validated_provider_rows (se_parse_date env) (se_parse_dec env) lo hi (se_builtin env provider) items")
  case (Inr rows)
  then have ok: "list_all (row_ok lo hi) rows" by (auto simp: validated_provider_rows_def dest: validated_rows_ok)
  have "length rows = length items" if "validated_from pd pn lo hi req i items = Inr rows" for pd pn req i
    using that by (induction items arbitrary: i rows) auto
  then have len: "length rows = length items" using Inr by (simp add: validated_provider_rows_def)
  have "w' = w \<or> w' = snd (se_ingest env (ac_id a) provider rows w)"
    using assms Inr unfolding store_phase_def
    by (auto simp: ingest_provider_rows_def ingest_rows_id [OF ok] split: if_splits prod.splits sum.splits)
  with ok len show ?thesis by blast
qed (use assms in \<open>simp add: store_phase_def\<close>)

section \<open>Credentials a fetcher sees\<close>

definition call_of :: "account \<Rightarrow> string \<Rightarrow> candidate option list \<Rightarrow> fetch_call \<Rightarrow> bool" where
  "call_of a provider cands c \<longleftrightarrow> fc_account c = ac_id a \<and> fc_provider c = provider
     \<and> (fc_creds c = None \<or> (\<exists>cand \<in> set cands. fc_creds c = Some (provider_credentials cand)))"

lemma fetched_calls [simp]: "ft_calls (fetched (r, s)) = ft_calls s"
  by (cases r) (simp_all add: fetched_def)

lemma call_fetcher_calls:
  "call_fetcher f a provider lo hi arg t = (r, s') \<Longrightarrow>
     ft_calls s' = ft_calls t @ [\<lparr>fc_account = ac_id a, fc_provider = provider, fc_creds = arg\<rparr>]"
  by (auto simp: call_fetcher_def split: prod.splits)

lemma fallback_calls:
  "\<exists>cs. ft_calls (call_with_fallback f a provider lo hi (provider_credentials c) s) = ft_calls s @ cs \<and> list_all (call_of a provider [c]) cs"
proof -
  obtain r s1 where r: "call_fetcher f a provider lo hi (Some (provider_credentials c)) s = (r, s1)" by fastforce
  obtain r2 s2 where r2: "call_fetcher f a provider lo hi None s1 = (r2, s2)" by fastforce
  have "ft_calls (call_with_fallback f a provider lo hi (provider_credentials c) s) \<in> {ft_calls s1, ft_calls s2}"
    unfolding call_with_fallback_def r using r2 by (auto split: sum.split sync_error.split)
  then show ?thesis using call_fetcher_calls [OF r] call_fetcher_calls [OF r2] by (auto simp: call_of_def)
qed

lemma fetch_with_calls:
  "\<exists>cs. ft_calls (fetch_with env f a provider lo hi c s) = ft_calls s @ cs \<and> list_all (call_of a provider [c]) cs"
proof (cases "check_credential env provider (provider_credentials c) (ft_diag s)")
  case (Inr d)
  then show ?thesis
    using fallback_calls [of f a provider lo hi c "s\<lparr>ft_used := non_empty (str_strip (candidate_id c)), ft_diag := d\<rparr>"]
    by (simp add: fetch_with_def)
qed (simp add: fetch_with_def)

lemma try_calls: "\<exists>cs. ft_calls (try_candidates env f a provider lo hi cands s) = ft_calls s @ cs \<and> list_all (call_of a provider cands) cs"
proof (induction cands arbitrary: s)
  case (Cons c cands)
  let ?s = "fetch_with env f a provider lo hi c s"
  obtain cs where cs: "ft_calls ?s = ft_calls s @ cs" "list_all (call_of a provider [c]) cs" using fetch_with_calls by blast
  obtain ds where ds: "ft_calls (try_candidates env f a provider lo hi cands ?s) = ft_calls ?s @ ds" "list_all (call_of a provider cands) ds"
    using Cons.IH by blast
  have "list_all (call_of a provider (c # cands)) (cs @ ds)" "list_all (call_of a provider (c # cands)) cs"
    using cs(2) ds(2) by (auto simp: list_all_iff call_of_def)
  then show ?case using cs(1) ds(1) by (cases "ft_last ?s = None") (auto simp: Let_def)
qed (simp add: call_of_def)

lemma choose_bound:
  assumes run: "choose_candidates ''meta'' user_id a resolved = Inr cands" and p: "preferred_id a \<noteq> []"
  shows "\<exists>c. cands = [c] \<and> candidate_id c = preferred_id a"
proof -
  define cands0 where "cands0 = (if user_id = None then resolved else filter (\<lambda>c. c \<noteq> None) resolved)"
  define pool where "pool = (if cands0 = [] then [None] else cands0)"
  have "(cands0 = [] \<and> user_id \<noteq> None) = False"
    using run unfolding choose_candidates_def Let_def cands0_def [symmetric] by (metis Inl_Inr_False)
  then have "(case filter (\<lambda>c. candidate_id c = preferred_id a) pool of
      [] \<Rightarrow> Inl (ReconnectRequired ''meta_bound_credential_missing''
        ''The Meta connection assigned to this ad account is no longer active. Reconnect Meta Ads and rediscover the account.'')
    | c # _ \<Rightarrow> Inr [c]) = (Inr cands :: sync_error + candidate option list)"
    using run p unfolding choose_candidates_def Let_def cands0_def [symmetric] pool_def [symmetric]
    by (simp only: if_False if_True simp_thms)
  then show ?thesis
    by (cases "filter (\<lambda>c. candidate_id c = preferred_id a) pool") (auto dest!: filter_eq_ConsD)
qed

lemma outcome_calls:
  assumes "account_outcome env user_id a provider lo hi attempt s_at w = (oc, w', calls)" "calls \<noteq> []"
  shows "\<exists>resolved cands. choose_candidates provider user_id a resolved = Inr cands \<and> list_all (call_of a provider cands) calls"
proof -
  obtain f where f: "se_fetch env provider = Some f" using assms by (auto simp: account_outcome_def split: option.splits)
  obtain e s where fs: "fetch_phase env user_id a provider f lo hi w = (e, s)" by fastforce
  have c: "calls = ft_calls s"
    using assms f fs by (auto simp: account_outcome_def split: option.splits prod.splits sum.splits)
  have "\<not> rediscovery_required provider a"
    using fs assms(2) by (auto simp: c fetch_phase_def fetch_start_def)
  then obtain resolved cands where rc: "choose_candidates provider user_id a resolved = Inr cands"
      and s: "s = try_candidates env f a provider lo hi cands (fetch_start w)"
    using fs assms(2) by (auto simp: c fetch_phase_def fetch_start_def Let_def split: sum.splits)
  have "list_all (call_of a provider cands) calls"
    using try_calls [of env f a provider lo hi cands "fetch_start w"] by (auto simp: c s fetch_start_def)
  with rc show ?thesis by blast
qed

section \<open>What a run of one account changes\<close>

lemma run_account_cases:
  assumes "run_account env ck args sync_to prev a s = (res, s')"
  obtains (skip) "res = SkippedAccount" "s' = s" "waits_for_retry (sa_force args) prev (ck_started ck (ac_id a))"
  | (run) lo hi oc w calls where "\<not> waits_for_retry (sa_force args) prev (ck_started ck (ac_id a))"
      "resolve_date_range (se_parse_dt env) (se_lookback env) (se_overlap env) a (sa_from args) sync_to = (lo, hi)"
      "account_outcome env (sa_user args) a (provider_of a) lo hi (next_attempt prev) (ck_started ck (ac_id a)) (ss_world s) = (oc, w, calls)"
      "ss_calls s' = ss_calls s @ calls"
      "(res = RaisedError \<and> ss_jobs s' = ss_jobs s \<and> ss_db s' = ss_db s)
       \<or> (sy_jobs (ss_jobs s') = sy_jobs (ss_jobs s) @ [new_job ck (sa_created_by args) a (provider_of a) lo hi oc]
          \<and> sy_leases (ss_jobs s') = sy_leases (ss_jobs s)
          \<and> (res = RaisedError \<and> ss_db s' = ss_db s
             \<or> res = RecordedJob (public_sync_job (new_job ck (sa_created_by args) a (provider_of a) lo hi oc))
               \<and> (\<exists>acc. sql_account_patch (ac_id a) (metadata_patch (next_metadata env ck (is_initial env args a) a (provider_of a)
                    (ck_job ck (ac_id a)) oc)) (ck_patched ck (ac_id a)) (ss_db s) = Inr (acc, ss_db s'))))"
proof (cases "waits_for_retry (sa_force args) prev (ck_started ck (ac_id a))")
  case True
  with assms skip show thesis by (simp add: run_account_def)
next
  case False
  obtain lo hi where r: "resolve_date_range (se_parse_dt env) (se_lookback env) (se_overlap env) a (sa_from args) sync_to = (lo, hi)" by fastforce
  obtain oc w calls where o: "account_outcome env (sa_user args) a (provider_of a) lo hi (next_attempt prev) (ck_started ck (ac_id a)) (ss_world s) = (oc, w, calls)"
    by (metis prod_cases3)
  have id: "sj_id (public_sync_job j) = sj_id j" for j by (simp add: public_sync_job_def split: option.split)
  have idn: "sj_id (new_job ck (sa_created_by args) a (provider_of a) lo hi oc) = ck_job ck (ac_id a)" by (simp add: new_job_def)
  show thesis
    by (rule run [OF False r o]; use assms False r o in
        \<open>auto simp: run_account_def Let_def sql_job_create_def id idn split: if_splits sum.splits prod.splits\<close>)
qed

section \<open>What a run changes\<close>

text \<open>\<open>calls_from s s'\<close> are the fetcher calls between two states.\<close>

lemma run_accounts_calls:
  assumes "run_accounts env ck args sync_to latest as r s = (r', s')"
  shows "\<exists>cs. ss_calls s' = ss_calls s @ cs \<and> (\<forall>c \<in> set cs. \<exists>a \<in> set as.
    \<not> waits_for_retry (sa_force args) (latest (ac_id a)) (ck_started ck (ac_id a))
    \<and> (\<exists>resolved cands. choose_candidates (provider_of a) (sa_user args) a resolved = Inr cands \<and> call_of a (provider_of a) cands c))"
  using assms
proof (induction as arbitrary: r s)
  case (Cons a as)
  obtain res s1 where one: "run_account env ck args sync_to (latest (ac_id a)) a s = (res, s1)" by fastforce
  let ?Q = "\<lambda>a c. \<not> waits_for_retry (sa_force args) (latest (ac_id a)) (ck_started ck (ac_id a))
    \<and> (\<exists>resolved cands. choose_candidates (provider_of a) (sa_user args) a resolved = Inr cands \<and> call_of a (provider_of a) cands c)"
  obtain cs where cs: "ss_calls s1 = ss_calls s @ cs" "\<forall>c \<in> set cs. ?Q a c"
    using one
  proof (cases rule: run_account_cases)
    case skip
    then show thesis using that [of "[]"] by simp
  next
    case (run lo hi oc w calls)
    have "\<forall>c \<in> set calls. ?Q a c"
    proof
      fix c
      assume "c \<in> set calls"
      with outcome_calls [OF run(3)] run(1) show "?Q a c" by (fastforce simp: list_all_iff)
    qed
    with run(4) that show thesis by blast
  qed
  have rest: "\<exists>ds. ss_calls s' = ss_calls s1 @ ds \<and> (\<forall>c \<in> set ds. \<exists>a \<in> set as. ?Q a c)"
  proof (cases res)
    case RaisedError
    then have "s' = s1" using Cons.prems one by simp
    then show ?thesis by simp
  qed (use Cons.prems one in \<open>auto intro!: Cons.IH\<close>)
  then obtain ds where "ss_calls s' = ss_calls s @ cs @ ds" "\<forall>c \<in> set ds. \<exists>a \<in> set as. ?Q a c" using cs(1) by auto
  with cs(2) show ?case by (intro exI [of _ "cs @ ds"]) auto
qed simp

section \<open>Public texts\<close>

definition job_public :: "sync_job \<Rightarrow> bool" where
  "job_public j \<longleftrightarrow> (case sj_error_message j of None \<Rightarrow> True | Some m \<Rightarrow> m \<in> set public_messages)"

definition sync_error_public :: "account \<Rightarrow> bool" where
  "sync_error_public a \<longleftrightarrow> (case jget ''sync_error'' (meta_of a) of JNull \<Rightarrow> True | JStr m \<Rightarrow> m \<in> set public_messages | _ \<Rightarrow> False)"

definition public_state :: "'w sync_state \<Rightarrow> bool" where
  "public_state s \<longleftrightarrow> list_all job_public (sy_jobs (ss_jobs s)) \<and> list_all sync_error_public (ad_accounts (ss_db s))"

definition outcome_public :: "run_outcome \<Rightarrow> bool" where
  "outcome_public oc \<longleftrightarrow> (case oc_message oc of None \<Rightarrow> True | Some m \<Rightarrow> m \<in> set public_messages)"

lemma outcomes_public [simp]: "outcome_public (not_supported k)" "outcome_public (failed_outcome e t k n s)" "outcome_public (success_outcome m d n s)"
  by (simp_all add: outcome_public_def not_supported_def failed_outcome_def success_outcome_def safe_message_public
      to_error_message_public split: prod.split)

lemma account_outcome_public: "account_outcome env u a p lo hi k t w = (oc, r) \<Longrightarrow> outcome_public oc"
  by (auto simp: account_outcome_def split: option.splits prod.splits sum.splits)

lemma map_of_put_all: "map_of (put_all kvs m) k = (case map_of (rev kvs) k of Some v \<Rightarrow> Some v | None \<Rightarrow> map_of m k)"
proof (induction kvs arbitrary: m)
  case (Cons e kvs)
  have "put_all (e # kvs) m = put_all kvs (AList.update (fst e) (snd e) m)" by (simp add: put_all_def)
  then show ?case using Cons.IH [of "AList.update (fst e) (snd e) m"]
    by (auto simp: update_conv map_add_def split: option.split)
qed (simp add: put_all_def)

lemma next_sync_error: "jget ''sync_error'' (next_metadata env ck i a p j oc) = opt_str (oc_message oc)"
proof -
  have c: "map_of (rev (connection_fields p oc)) ''sync_error'' = None"
    by (auto simp: connection_fields_def split: option.split)
  have s: "map_of (rev (success_fields env t i a oc)) ''sync_error'' = None" for t
    by (auto simp: success_fields_def split: option.split)
  have f: "map_of (rev (status_fields env t j oc)) ''sync_error'' = Some (opt_str (oc_message oc))" for t
    by (simp add: status_fields_def)
  show ?thesis unfolding next_metadata_def jget_def map_of_put_all rev_append map_of_append map_add_def
    by (simp add: c s f)
qed

lemma next_metadata_nonempty: "next_metadata env ck i a p j oc \<noteq> []"
proof -
  have n: "put_all kvs m \<noteq> []" if "kvs \<noteq> []" for kvs and m :: "(string \<times> json) list"
    using that
  proof (induction kvs arbitrary: m)
    case (Cons e kvs)
    have "AList.update (fst e) (snd e) m \<noteq> []" by (cases m) auto
    then show ?case using Cons.IH by (cases kvs) (simp_all add: put_all_def)
  qed simp
  show ?thesis unfolding next_metadata_def by (rule n) (simp add: status_fields_def)
qed

lemma patched_public:
  assumes "sql_account_patch i (metadata_patch m) now db = Inr (acc, db')" "m \<noteq> []"
    and "list_all sync_error_public (ad_accounts db)"
    and "case jget ''sync_error'' m of JNull \<Rightarrow> True | JStr x \<Rightarrow> x \<in> set public_messages | _ \<Rightarrow> False"
  shows "list_all sync_error_public (ad_accounts db')"
proof -
  obtain old where old: "find (\<lambda>a. ac_id a = i) (ad_accounts db) = Some old"
    using assms(1) by (auto simp: sql_account_patch_def split: option.splits)
  have ne: "\<not> apatch_empty (metadata_patch m)" by (simp add: apatch_empty_def metadata_patch_def)
  have db': "db' = db\<lparr>ad_accounts := update_rows (\<lambda>a. ac_id a = i) (\<lambda>_. patched_account (metadata_patch m) now old) (ad_accounts db)\<rparr>"
    using assms(1) old ne by (auto simp: sql_account_patch_def Let_def split: option.splits if_splits)
  have "sync_error_public (patched_account (metadata_patch m) now old)"
    using assms(2,4) by (simp add: sync_error_public_def meta_of_def patched_account_def metadata_patch_def stored_meta_def)
  then show ?thesis using assms(3) by (auto simp: db' list_all_iff set_update_rows)
qed

lemma run_account_public:
  assumes "run_account env ck args sync_to prev a s = (res, s')" "public_state s"
  shows "public_state s'"
  using assms(1)
proof (cases rule: run_account_cases)
  case (run lo hi oc w calls)
  have oc: "outcome_public oc" by (rule account_outcome_public [OF run(3)])
  then have j: "job_public (new_job ck c a p lo hi oc)" for c p by (simp add: job_public_def outcome_public_def new_job_def)
  have m: "case jget ''sync_error'' (next_metadata env ck b a p i oc) of JNull \<Rightarrow> True | JStr x \<Rightarrow> x \<in> set public_messages | _ \<Rightarrow> False" for b p i
    using oc by (simp add: next_sync_error outcome_public_def opt_str_def split: option.splits)
  show ?thesis
    using run(5) assms(2) j patched_public [OF _ next_metadata_nonempty _ m] unfolding public_state_def by auto
qed (use assms(2) in simp)

lemma run_accounts_public:
  "run_accounts env ck args sync_to latest as r s = (r', s') \<Longrightarrow> public_state s \<Longrightarrow> public_state s'"
proof (induction as arbitrary: r s)
  case (Cons a as)
  obtain res s1 where one: "run_account env ck args sync_to (latest (ac_id a)) a s = (res, s1)" by fastforce
  have "public_state s1" by (rule run_account_public [OF one Cons.prems(2)])
  with Cons one show ?case by (cases res) auto
qed simp

end
