(* ===== verification/Accounts_Laws.thy ===== *)
theory Accounts_Laws
  imports Accounts Provider_Request
begin

text \<open>
  What the \<open>clients\<close> and \<open>ad_accounts\<close> tables promise: unique ids, canonical identities, one row
  per identity in a client, and one active owner of an identity among the active clients; and
  that every operation of the two SQL stores keeps it.
\<close>

section \<open>Identities\<close>

lemma lower_char_cases: "lower_char c = c \<or> (65 \<le> (of_char c :: nat) \<and> of_char c \<le> (90 :: nat) \<and> (of_char (lower_char c) :: nat) = of_char c + 32)"
  by (auto simp: lower_char_def of_char_of)

lemma is_space_lower [simp]: "is_space (lower_char c) = is_space c"
proof (cases "lower_char c = c")
  case False
  have small: "(of_char d :: nat) \<le> 32" if "is_space d" for d using that unfolding is_space_def by auto
  have "\<not> is_space c" "\<not> is_space (lower_char c)"
    using small [of c] small [of "lower_char c"] lower_char_cases [of c] False by linarith+
  then show ?thesis by simp
qed simp

lemma lower_char_idem [simp]: "lower_char (lower_char c) = lower_char c"
proof (cases "lower_char c = c")
  case False
  then show ?thesis using lower_char_cases [of c] by (auto simp: lower_char_def [of "lower_char c"])
qed simp

lemma str_lower_idem [simp]: "str_lower (str_lower s) = str_lower s"
  by (simp add: str_lower_def)

lemma str_strip_lower: "str_strip (str_lower s) = str_lower (str_strip s)"
proof -
  have d: "dropWhile is_space (map lower_char xs) = map lower_char (dropWhile is_space xs)" for xs
    by (induction xs) simp_all
  show ?thesis by (simp add: str_strip_def str_lower_def d rev_map)
qed

lemma strip_ends:
  assumes "str_strip s \<noteq> []"
  shows "\<not> is_space (hd (str_strip s)) \<and> \<not> is_space (last (str_strip s))"
proof -
  define u where "u = dropWhile is_space s"
  define w where "w = dropWhile is_space (rev u)"
  have v: "str_strip s = rev w" by (simp add: str_strip_def u_def w_def)
  with assms have w: "w \<noteq> []" by simp
  then have u: "u \<noteq> []" by (auto simp: w_def)
  have "rev u = takeWhile is_space (rev u) @ w" by (simp add: w_def)
  then have "u = rev w @ rev (takeWhile is_space (rev u))" by (metis rev_append rev_rev_ident)
  with w have "hd (rev w) = hd u" by (metis hd_append2 rev_is_Nil_conv)
  moreover have "\<not> is_space (hd u)" using u hd_dropWhile [of is_space s] by (simp add: u_def)
  moreover have "\<not> is_space (hd w)" using w hd_dropWhile [of is_space "rev u"] by (simp add: w_def)
  ultimately show ?thesis using w by (simp add: v last_rev)
qed

lemma strip_fixed: "s = [] \<or> \<not> is_space (hd s) \<and> \<not> is_space (last s) \<Longrightarrow> str_strip s = s"
  by (cases "s = []") (simp_all add: str_strip_def dropWhile_eq_self_iff [THEN iffD2] hd_rev)

lemma str_strip_idem [simp]: "str_strip (str_strip s) = str_strip s"
  using strip_ends [of s] by (intro strip_fixed) auto

lemma normalize_idem [simp]: "normalize_account_platform (normalize_account_platform v) = normalize_account_platform v"
proof (cases "str_lower (str_strip v) = ''facebook''")
  case True
  then have "normalize_account_platform v = ''meta''" by (simp add: normalize_account_platform_def)
  moreover have "normalize_account_platform ''meta'' = ''meta''" by code_simp
  ultimately show ?thesis by simp
next
  case False
  then have "normalize_account_platform v = str_lower (str_strip v)" by (simp add: normalize_account_platform_def)
  with False show ?thesis by (simp add: normalize_account_platform_def str_strip_lower)
qed

lemma canonical_normalize [simp]: "canonical_external_account_id (normalize_account_platform p) v = canonical_external_account_id p v"
  by (simp add: canonical_external_account_id_def)

text \<open>The stored form of a row, and the one platform where storing again may change it.\<close>

definition canonical_row :: "account \<Rightarrow> bool" where
  "canonical_row a \<longleftrightarrow> normalize_account_platform (ac_platform a) = ac_platform a
     \<and> canonical_external_account_id (ac_platform a) (ac_external a) = ac_external a"

definition plain_row :: "account \<Rightarrow> bool" where
  "plain_row a \<longleftrightarrow> (ac_platform a = ''meta'' \<longrightarrow> \<not> starts_ci ''act_'' (ac_external a))"

lemma strip_digits: "str_strip (filter is_digit s) = filter is_digit s"
proof (rule strip_fixed)
  have "\<not> is_space c" if "is_digit c" for c using that by (auto simp: is_digit_def is_space_def)
  then have n: "\<not> is_space c" if "c \<in> set (filter is_digit s)" for c using that by auto
  show "filter is_digit s = [] \<or> \<not> is_space (hd (filter is_digit s)) \<and> \<not> is_space (last (filter is_digit s))"
  proof (cases "filter is_digit s = []")
    case False
    then show ?thesis using n [OF hd_in_set [OF False]] n [OF last_in_set [OF False]] by simp
  qed simp
qed

lemma canonical_settled:
  assumes "normalize_account_platform p = ''meta'' \<longrightarrow> \<not> starts_ci ''act_'' (canonical_external_account_id p e)"
  shows "canonical_external_account_id p (canonical_external_account_id p e) = canonical_external_account_id p e"
proof (cases "normalize_account_platform p = ''meta''")
  case True
  let ?c = "canonical_external_account_id p e"
  have "str_strip ?c = ?c" using True by (simp add: canonical_external_account_id_def Let_def)
  then show ?thesis using True assms by (simp add: canonical_external_account_id_def [of p ?c] Let_def)
next
  case False
  then show ?thesis by (simp add: canonical_external_account_id_def Let_def strip_digits)
qed

lemma identity_canonical: "canonical_row a \<Longrightarrow> account_identity a = (ac_platform a, ac_external a)"
  by (simp add: canonical_row_def account_identity_def)

lemma sql_identity_cong: "ac_platform a = ac_platform b \<Longrightarrow> ac_external a = ac_external b \<Longrightarrow> sql_identity a = sql_identity b"
  by (simp add: sql_identity_def)

section \<open>The invariant\<close>

definition same_identity :: "account \<Rightarrow> account \<Rightarrow> bool" where
  "same_identity a b \<longleftrightarrow> ac_platform a = ac_platform b \<and> ac_external a = ac_external b"

lemma same_identity_sym: "same_identity a b \<Longrightarrow> same_identity b a"
  by (simp add: same_identity_def)

definition live :: "account_db \<Rightarrow> account \<Rightarrow> bool" where
  "live db a \<longleftrightarrow> ac_status a = RActive \<and> client_active db (ac_client a)"

text \<open>Two rows clash when they are one identity in one client, or live for two clients.\<close>

definition clash :: "account_db \<Rightarrow> account \<Rightarrow> account \<Rightarrow> bool" where
  "clash db a b \<longleftrightarrow> same_identity a b \<and> (ac_client a = ac_client b \<or> live db a \<and> live db b)"

definition accounts_ok :: "account_db \<Rightarrow> bool" where
  "accounts_ok db \<longleftrightarrow> distinct (map cl_id (ad_clients db)) \<and> distinct (map ac_id (ad_accounts db))
     \<and> (\<forall>a \<in> set (ad_accounts db). canonical_row a \<and> ac_client a \<in> cl_id ` set (ad_clients db))
     \<and> (\<forall>a \<in> set (ad_accounts db). \<forall>b \<in> set (ad_accounts db). clash db a b \<longrightarrow> a = b)"

lemma clash_sym: "clash db a b \<longleftrightarrow> clash db b a"
  by (auto simp: clash_def same_identity_def)

lemma client_active_accounts [simp]: "client_active (db\<lparr>ad_accounts := x\<rparr>) = client_active db"
  by (simp add: client_active_def fun_eq_iff)

lemma clash_accounts [simp]: "clash (db\<lparr>ad_accounts := x\<rparr>) = clash db"
  by (simp add: clash_def live_def fun_eq_iff)

text \<open>A row may be written when it clashes with no other row.\<close>

definition fits :: "account_db \<Rightarrow> account \<Rightarrow> bool" where
  "fits db r \<longleftrightarrow> canonical_row r \<and> ac_client r \<in> cl_id ` set (ad_clients db) \<and> (\<forall>b \<in> set (ad_accounts db). ac_id b \<noteq> ac_id r \<longrightarrow> \<not> clash db b r)"

lemma accounts_ok_insert:
  assumes "accounts_ok db" "fits db r" "ac_id r \<notin> ac_id ` set (ad_accounts db)"
  shows "accounts_ok (db\<lparr>ad_accounts := ad_accounts db @ [r]\<rparr>)"
proof -
  have "\<not> clash db b r \<and> \<not> clash db r b" if "b \<in> set (ad_accounts db)" for b
  proof -
    have "ac_id b \<noteq> ac_id r" using assms(3) that by (metis imageI)
    then show ?thesis using assms(2) that by (simp add: fits_def clash_sym [of db r])
  qed
  then show ?thesis using assms by (auto simp: accounts_ok_def fits_def)
qed

lemma accounts_ok_update:
  assumes "accounts_ok db" "fits db r" "ac_id r = i"
  shows "accounts_ok (db\<lparr>ad_accounts := update_rows (\<lambda>a. ac_id a = i) (\<lambda>_. r) (ad_accounts db)\<rparr>)"
proof -
  let ?rows = "update_rows (\<lambda>a. ac_id a = i) (\<lambda>_. r) (ad_accounts db)"
  have ids: "map ac_id ?rows = map ac_id (ad_accounts db)"
    by (rule map_update_rows_inv) (simp add: assms(3))
  have mem: "b = r \<or> b \<in> set (ad_accounts db) \<and> ac_id b \<noteq> ac_id r" if "b \<in> set ?rows" for b
    using that assms(3) by (auto simp: set_update_rows)
  have no: "\<not> clash db b r \<and> \<not> clash db r b" if "b \<in> set (ad_accounts db)" "ac_id b \<noteq> ac_id r" for b
    using assms(2) that by (auto simp: fits_def clash_sym [of db r])
  have pair: "a = b" if "a \<in> set ?rows" "b \<in> set ?rows" "clash db a b" for a b
    using mem [OF that(1)] mem [OF that(2)] that(3) no assms(1) unfolding accounts_ok_def by blast
  have "canonical_row b \<and> ac_client b \<in> cl_id ` set (ad_clients db)" if "b \<in> set ?rows" for b
    using mem [OF that] assms(1,2) by (auto simp: accounts_ok_def fits_def)
  with ids pair assms(1) show ?thesis unfolding accounts_ok_def by simp
qed

text \<open>What the guards of the code establish.\<close>

lemma unique_guard:
  assumes "accounts_ok db" "assert_unique_identity c p e x db = None" "normalize_account_platform p = p"
    and "canonical_external_account_id p e = e" "b \<in> set (ad_accounts db)" "Some (ac_id b) \<noteq> x" "ac_platform b = p" "ac_external b = e"
  shows "ac_client b \<noteq> c"
proof -
  have "canonical_row b" using assms(1,5) by (simp add: accounts_ok_def)
  then have "account_identity b = (p, e)" by (simp add: identity_canonical assms(7,8))
  then show ?thesis using assms(2-6) by (auto simp: assert_unique_identity_def)
qed

lemma active_guard:
  assumes "accounts_ok db" "assert_active_assignment c p e x db = None" "normalize_account_platform p = p"
    and "canonical_external_account_id p e = e" "b \<in> set (ad_accounts db)" "Some (ac_id b) \<noteq> x" "ac_platform b = p" "ac_external b = e"
    and "ac_client b \<noteq> c"
  shows "\<not> live db b"
proof
  assume l: "live db b"
  have "canonical_row b" using assms(1,5) by (simp add: accounts_ok_def)
  then have i: "account_identity b = (p, e)" by (simp add: identity_canonical assms(7,8))
  then have "find (\<lambda>a. client_active db (ac_client a) \<and> account_identity a = (p, e))
        (sort_key ac_created (filter (\<lambda>a. ac_status a = RActive \<and> ac_client a \<noteq> c \<and> Some (ac_id a) \<noteq> x) (ad_accounts db))) = None"
    using assms(2) by (simp add: assert_active_assignment_def active_assignment_def Let_def assms(3,4))
  then show False using i l assms(5,6,9) by (auto simp: find_None_iff live_def)
qed

lemma client_guard: "assert_client_exists c db = None \<Longrightarrow> c \<in> cl_id ` set (ad_clients db)"
  by (auto simp: assert_client_exists_def sql_client_get_def find_None_key)

text \<open>Both guards passed: the row fits.\<close>

lemma guards_fit:
  assumes ok: "accounts_ok db" and row: "canonical_row r"
    and g: "assert_client_exists (ac_client r) db = None"
      "assert_unique_identity (ac_client r) (ac_platform r) (ac_external r) x db = None"
      "ac_status r = RActive \<Longrightarrow> assert_active_assignment (ac_client r) (ac_platform r) (ac_external r) x db = None"
    and x: "\<And>b. b \<in> set (ad_accounts db) \<Longrightarrow> ac_id b \<noteq> ac_id r \<Longrightarrow> Some (ac_id b) \<noteq> x"
  shows "fits db r"
  unfolding fits_def
proof (intro conjI ballI impI)
  fix b
  assume b: "b \<in> set (ad_accounts db)" "ac_id b \<noteq> ac_id r"
  have n: "normalize_account_platform (ac_platform r) = ac_platform r"
    "canonical_external_account_id (ac_platform r) (ac_external r) = ac_external r"
    using row by (simp_all add: canonical_row_def)
  show "\<not> clash db b r"
  proof
    assume c: "clash db b r"
    then have s: "ac_platform b = ac_platform r" "ac_external b = ac_external r" by (simp_all add: clash_def same_identity_def)
    have u: "ac_client b \<noteq> ac_client r" by (rule unique_guard [OF ok g(2) n b(1) x [OF b] s])
    then have "live db b" "live db r" using c by (simp_all add: clash_def)
    moreover have "\<not> live db b" if "ac_status r = RActive"
      by (rule active_guard [OF ok g(3) [OF that] n b(1) x [OF b] s u])
    ultimately show False by (simp add: live_def)
  qed
qed (use row client_guard [OF g(1)] in simp_all)

section \<open>Every operation keeps it\<close>

lemma plain_to_account [simp]: "plain_row (to_account a) = plain_row a"
  by (simp add: plain_row_def to_account_def)

lemma account_create_keeps:
  assumes ok: "accounts_ok db" and run: "sql_account_create p i now db = Inr (a, db')" and plain: "plain_row a"
  shows "accounts_ok db'"
proof -
  define platform where "platform = normalize_account_platform (an_platform p)"
  define ext where "ext = canonical_external_account_id platform (an_external p)"
  define row where "row = \<lparr>ac_id = i, ac_client = an_client p, ac_platform = platform, ac_external = ext, ac_name = an_name p,
                 ac_currency = an_currency p, ac_timezone = an_timezone p, ac_status = an_status p,
                 ac_meta = stored_meta (an_meta p), ac_created = now, ac_updated = now\<rparr>"
  have g: "assert_client_exists (an_client p) db = None" "assert_unique_identity (an_client p) platform ext None db = None"
    "an_status p = RActive \<Longrightarrow> assert_active_assignment (an_client p) platform ext None db = None"
    and new: "i \<notin> ac_id ` set (ad_accounts db)" and a: "a = to_account row"
    and db': "db' = db\<lparr>ad_accounts := ad_accounts db @ [row]\<rparr>"
    using run unfolding sql_account_create_def Let_def platform_def [symmetric] ext_def [symmetric] row_def [symmetric]
    by (auto simp: first_error_Cons split: option.splits if_splits)
  have "plain_row row" using plain a by simp
  then have "canonical_row row"
    using canonical_settled [of "an_platform p" "an_external p"]
    by (simp add: canonical_row_def plain_row_def row_def platform_def ext_def)
  then have "fits db row" by (rule guards_fit [OF ok, where x = None]) (use g in \<open>simp_all add: row_def\<close>)
  then show ?thesis unfolding db' using new by (intro accounts_ok_insert [OF ok]) (simp_all add: row_def)
qed

lemma patched_simps [simp]: "ac_id (patched_account p now a) = ac_id a" "ac_client (patched_account p now a) = set_or (ap_client p) (ac_client a)"
  "ac_platform (patched_account p now a) = data_platform p a" "ac_external (patched_account p now a) = data_external p a"
  "ac_status (patched_account p now a) = set_or (ap_status p) (ac_status a)"
  by (simp_all add: patched_account_def)

lemma unchanged_data:
  assumes "canonical_row a" "\<not> identity_changed p a"
  shows "data_platform p a = ac_platform a" "data_external p a = ac_external a"
    "set_or (ap_client p) (ac_client a) = ac_client a" "set_or (ap_status p) (ac_status a) = ac_status a"
proof -
  show p: "data_platform p a = ac_platform a"
    using assms by (auto simp: identity_changed_def data_platform_def canonical_row_def set_or_def split: option.splits)
  show "data_external p a = ac_external a"
    using assms by (simp add: data_external_def Let_def p identity_changed_def canonical_row_def)
qed (use assms in \<open>simp_all add: identity_changed_def\<close>)

lemma patched_canonical:
  assumes "canonical_row a" "plain_row (patched_account p now a)"
  shows "canonical_row (patched_account p now a)"
proof -
  have n: "normalize_account_platform (data_platform p a) = data_platform p a"
    using assms(1) by (simp add: data_platform_def canonical_row_def split: option.split)
  show ?thesis
  proof (cases "ap_platform p = None \<and> ap_external p = None")
    case True
    then show ?thesis using assms(1) by (simp add: canonical_row_def data_platform_def data_external_def set_or_def)
  next
    case False
    then have "data_external p a = canonical_external_account_id (data_platform p a) (set_or (ap_external p) (ac_external a))"
      by (auto simp: data_external_def)
    then show ?thesis using n assms(2) canonical_settled [of "data_platform p a" "set_or (ap_external p) (ac_external a)"]
      by (simp add: canonical_row_def plain_row_def)
  qed
qed

lemma same_core_fits:
  assumes ok: "accounts_ok db" and old: "old \<in> set (ad_accounts db)" and id: "ac_id new = ac_id old"
    and same: "same_identity new old" "ac_client new = ac_client old" "ac_status new = RActive \<Longrightarrow> ac_status old = RActive"
  shows "fits db new"
proof -
  have "canonical_row new" "ac_client new \<in> cl_id ` set (ad_clients db)"
    using ok old same by (auto simp: accounts_ok_def canonical_row_def same_identity_def)
  moreover have "clash db b old" if "clash db b new" for b
    using that same by (auto simp: clash_def same_identity_def live_def)
  ultimately show ?thesis using ok old id unfolding fits_def accounts_ok_def by metis
qed

lemma account_patch_keeps:
  assumes ok: "accounts_ok db" and run: "sql_account_patch i p now db = Inr (a, db')" and plain: "plain_row a"
  shows "accounts_ok db'"
proof (cases "find (\<lambda>a. ac_id a = i) (ad_accounts db)")
  case None
  with run show ?thesis by (simp add: sql_account_patch_def)
next
  case (Some old)
  note old = find_SomeD [OF this]
  let ?new = "patched_account p now old"
  show ?thesis
  proof (cases "apatch_empty p")
    case True
    with run Some ok show ?thesis by (simp add: sql_account_patch_def)
  next
    case False
    have g: "assert_client_exists (ac_client ?new) db = None"
      "identity_changed p old \<Longrightarrow> assert_unique_identity (ac_client ?new) (ac_platform ?new) (ac_external ?new) (Some i) db = None"
      "identity_changed p old \<Longrightarrow> ac_status ?new = RActive \<Longrightarrow>
         assert_active_assignment (ac_client ?new) (ac_platform ?new) (ac_external ?new) (Some i) db = None"
      and a: "a = to_account ?new" and db': "db' = db\<lparr>ad_accounts := update_rows (\<lambda>a. ac_id a = i) (\<lambda>_. ?new) (ad_accounts db)\<rparr>"
      using run Some False unfolding sql_account_patch_def Let_def
      by (auto simp: first_error_Cons split: option.splits if_splits)
    have c: "canonical_row old" using ok old by (simp add: accounts_ok_def)
    have "fits db ?new"
    proof (cases "identity_changed p old")
      case True
      show ?thesis
      proof (rule guards_fit [OF ok _ g(1) g(2) [OF True] g(3) [OF True]])
        show "canonical_row ?new" using patched_canonical [OF c] plain a by simp
      qed (use old in simp_all)
    next
      case False
      note u = unchanged_data [OF c False]
      show ?thesis
        by (rule same_core_fits [OF ok conjunct1 [OF old]]) (simp_all add: u same_identity_def)
    qed
    then show ?thesis unfolding db' using old by (intro accounts_ok_update [OF ok]) simp_all
  qed
qed

lemma account_archive_keeps:
  assumes ok: "accounts_ok db" and run: "sql_account_archive i now db = Inr (a, db')"
  shows "accounts_ok db'"
proof (cases "find (\<lambda>a. ac_id a = i) (ad_accounts db)")
  case (Some old)
  note old = find_SomeD [OF this]
  have "fits db (old\<lparr>ac_status := RArchived, ac_updated := now\<rparr>)"
    by (rule same_core_fits [OF ok conjunct1 [OF old]]) (simp_all add: same_identity_def)
  then show ?thesis using run Some old accounts_ok_update [OF ok, of "old\<lparr>ac_status := RArchived, ac_updated := now\<rparr>" i]
    by (simp add: sql_account_archive_def Let_def)
qed (use run in \<open>simp add: sql_account_archive_def\<close>)

lemma accounts_ok_clients:
  assumes ok: "accounts_ok db" and ids: "distinct (map cl_id cs)" "cl_id ` set (ad_clients db) \<subseteq> cl_id ` set cs"
    and free: "\<And>a b. a \<in> set (ad_accounts db) \<Longrightarrow> b \<in> set (ad_accounts db) \<Longrightarrow> same_identity a b \<Longrightarrow>
      live (db\<lparr>ad_clients := cs\<rparr>) a \<Longrightarrow> live (db\<lparr>ad_clients := cs\<rparr>) b \<Longrightarrow> ac_client a = ac_client b"
  shows "accounts_ok (db\<lparr>ad_clients := cs\<rparr>)"
proof -
  have "a = b" if "a \<in> set (ad_accounts db)" "b \<in> set (ad_accounts db)" "clash (db\<lparr>ad_clients := cs\<rparr>) a b" for a b
  proof -
    have "clash db a b" using that free [OF that(1,2)] by (auto simp: clash_def)
    with that ok show ?thesis by (simp add: accounts_ok_def)
  qed
  with ok ids show ?thesis unfolding accounts_ok_def by auto
qed

lemma live_owner: "accounts_ok db \<Longrightarrow> a \<in> set (ad_accounts db) \<Longrightarrow> b \<in> set (ad_accounts db) \<Longrightarrow>
    same_identity a b \<Longrightarrow> live db a \<Longrightarrow> live db b \<Longrightarrow> a = b"
  by (simp add: accounts_ok_def clash_def)

lemma client_create_keeps:
  assumes ok: "accounts_ok db" and run: "sql_client_create p i now db = Inr (c, db')"
  shows "accounts_ok db'"
proof -
  have new: "i \<notin> cl_id ` set (ad_clients db)" and db': "db' = db\<lparr>ad_clients := ad_clients db @ [new_client p i now]\<rparr>"
    using run by (auto simp: sql_client_create_def split: if_splits)
  have "live db a" if "a \<in> set (ad_accounts db)" "live (db\<lparr>ad_clients := ad_clients db @ [new_client p i now]\<rparr>) a" for a
  proof -
    have "ac_client a \<noteq> i" using ok that(1) new by (auto simp: accounts_ok_def)
    then show ?thesis using that(2) by (auto simp: live_def client_active_def new_client_def)
  qed
  then have "ac_client a = ac_client b" if "a \<in> set (ad_accounts db)" "b \<in> set (ad_accounts db)" "same_identity a b"
      "live (db\<lparr>ad_clients := ad_clients db @ [new_client p i now]\<rparr>) a"
      "live (db\<lparr>ad_clients := ad_clients db @ [new_client p i now]\<rparr>) b" for a b
    using that live_owner [OF ok that(1,2,3)] by blast
  moreover have "distinct (map cl_id (ad_clients db @ [new_client p i now]))"
    using ok new by (simp add: accounts_ok_def new_client_def)
  ultimately show ?thesis unfolding db' by (intro accounts_ok_clients [OF ok]) auto
qed

lemma client_update_active:
  assumes "cl_id new = i" "i \<in> cl_id ` set (ad_clients db)"
  shows "client_active (db\<lparr>ad_clients := update_rows (\<lambda>c. cl_id c = i) (\<lambda>_. new) (ad_clients db)\<rparr>) j
    \<longleftrightarrow> (if j = i then cl_status new = RActive else client_active db j)"
  using assms by (auto simp: client_active_def set_update_rows)

lemma client_update_keeps:
  assumes ok: "accounts_ok db" and old: "old \<in> set (ad_clients db)" "cl_id old = i" and id: "cl_id new = i"
    and go: "cl_status new \<noteq> RActive \<or> cl_status old = RActive \<or> \<not> restore_trigger old new db"
  shows "accounts_ok (db\<lparr>ad_clients := update_rows (\<lambda>c. cl_id c = i) (\<lambda>_. new) (ad_clients db)\<rparr>)"
proof (rule accounts_ok_clients [OF ok])
  let ?db = "db\<lparr>ad_clients := update_rows (\<lambda>c. cl_id c = i) (\<lambda>_. new) (ad_clients db)\<rparr>"
  have known: "i \<in> cl_id ` set (ad_clients db)" using old by blast
  note act = client_update_active [OF id known]
  have keys: "map cl_id (update_rows (\<lambda>c. cl_id c = i) (\<lambda>_. new) (ad_clients db)) = map cl_id (ad_clients db)"
    by (rule map_update_rows_inv) (simp add: id)
  show "distinct (map cl_id (update_rows (\<lambda>c. cl_id c = i) (\<lambda>_. new) (ad_clients db)))"
    using ok keys by (simp add: accounts_ok_def)
  show "cl_id ` set (ad_clients db) \<subseteq> cl_id ` set (update_rows (\<lambda>c. cl_id c = i) (\<lambda>_. new) (ad_clients db))"
    using keys by (metis list.set_map order_refl)
  have was: "client_active db i" if "cl_status old = RActive" using old that by (auto simp: client_active_def)
  fix a b
  assume ab: "a \<in> set (ad_accounts db)" "b \<in> set (ad_accounts db)" "same_identity a b" "live ?db a" "live ?db b"
  show "ac_client a = ac_client b"
  proof (rule ccontr)
    assume ne: "ac_client a \<noteq> ac_client b"
    have other: "live db x" if "live ?db x" "ac_client x \<noteq> i" for x using that act by (simp add: live_def)
    have restored: "restore_trigger old new db"
      if "x \<in> set (ad_accounts db)" "y \<in> set (ad_accounts db)" "same_identity x y" "live ?db x" "live db y"
        "ac_client x = i" "ac_client y \<noteq> i" "cl_status old \<noteq> RActive" for x y
    proof -
      have "sql_identity x = sql_identity y" using that(3) by (intro sql_identity_cong) (simp_all add: same_identity_def)
      moreover have x: "client_active ?db (ac_client x)" "ac_status x = RActive" using that(4) unfolding live_def by blast+
      moreover have "cl_status new = RActive" using x(1) unfolding act that(6) by simp
      ultimately show ?thesis using that(1,2,5-8) id unfolding restore_trigger_def
        by (intro conjI bexI [of _ x] bexI [of _ y]) (simp_all add: live_def)
    qed
    have stuck: False if "x \<in> set (ad_accounts db)" "y \<in> set (ad_accounts db)" "same_identity x y" "live ?db x" "live ?db y"
        "ac_client x = i" "ac_client y \<noteq> i" for x y
    proof (cases "cl_status old = RActive")
      case True
      then have "live db x" "live db y" using that was other by (auto simp: live_def)
      then show False using live_owner [OF ok that(1,2,3)] that by blast
    next
      case False
      have "cl_status new = RActive" using that act by (simp add: live_def)
      with go False restored [OF that(1,2,3,4) other [OF that(5,7)] that(6,7)] show False by simp
    qed
    show False
    proof (cases "ac_client a = i")
      case True
      with stuck ab ne show False by metis
    next
      case a: False
      show False
      proof (cases "ac_client b = i")
        case True
        with stuck [OF ab(2,1) same_identity_sym [OF ab(3)] ab(5,4)] a show False by simp
      next
        case False
        with a other ab live_owner [OF ok ab(1,2,3)] ne show False by blast
      qed
    qed
  qed
qed

lemma client_patch_keeps:
  assumes ok: "accounts_ok db" and run: "sql_client_patch i p now db = Inr (c, db')"
  shows "accounts_ok db'"
proof (cases "sql_client_get i db")
  case (Some old)
  then have old: "old \<in> set (ad_clients db)" "cl_id old = i" by (auto simp: sql_client_get_def dest: find_SomeD)
  have "cl_id (patched_client p now old) = i" using old by (simp add: patched_client_def)
  moreover have "cl_status (patched_client p now old) = cl_status old" if "cp_status p = None"
    using that by (simp add: patched_client_def set_or_def)
  ultimately show ?thesis
    using run Some ok client_update_keeps [OF ok old, of "patched_client p now old"]
    by (auto simp: sql_client_patch_def Let_def split: if_splits)
qed (use run in \<open>simp add: sql_client_patch_def\<close>)

lemma client_archive_keeps:
  assumes ok: "accounts_ok db" and run: "sql_client_archive i now db = Inr (c, db')"
  shows "accounts_ok db'"
proof (cases "sql_client_get i db")
  case (Some old)
  then have old: "old \<in> set (ad_clients db)" "cl_id old = i" by (auto simp: sql_client_get_def dest: find_SomeD)
  show ?thesis using run Some old client_update_keeps [OF ok old, of "old\<lparr>cl_status := RArchived, cl_updated := now\<rparr>"]
    by (auto simp: sql_client_archive_def Let_def)
qed (use run in \<open>simp add: sql_client_archive_def\<close>)

section \<open>The tables as a transition system\<close>

text \<open>
  One committed request.  A Meta id is stored without its \<open>act_\<close> prefix unless the request spelled
  the prefix twice (\<open>plain_row\<close>).
\<close>

definition empty_accounts :: "account_db \<Rightarrow> bool" where
  "empty_accounts db \<longleftrightarrow> ad_clients db = [] \<and> ad_accounts db = []"

inductive account_step :: "account_db \<Rightarrow> account_db \<Rightarrow> bool" where
  as_create: "sql_account_create p i now db = Inr (a, db') \<Longrightarrow> plain_row a \<Longrightarrow> account_step db db'"
| as_patch: "sql_account_patch i q now db = Inr (a, db') \<Longrightarrow> plain_row a \<Longrightarrow> account_step db db'"
| as_archive: "sql_account_archive i now db = Inr (a, db') \<Longrightarrow> account_step db db'"
| as_client_create: "sql_client_create cp i now db = Inr (c, db') \<Longrightarrow> account_step db db'"
| as_client_patch: "sql_client_patch i cq now db = Inr (c, db') \<Longrightarrow> account_step db db'"
| as_client_archive: "sql_client_archive i now db = Inr (c, db') \<Longrightarrow> account_step db db'"

interpretation assignments: safe_system empty_accounts account_step accounts_ok
proof
  show "accounts_ok s" if "empty_accounts s" for s using that by (simp add: empty_accounts_def accounts_ok_def)
  show "accounts_ok t" if "accounts_ok s" "account_step s t" for s t
    using that(2,1)
    by cases (blast intro: account_create_keeps account_patch_keeps account_archive_keeps client_create_keeps client_patch_keeps client_archive_keeps)+
qed

end
