(* ===== verification/Accounts_Memory.thy ===== *)
theory Accounts_Memory
  imports Accounts_Laws Dictionaries
begin

text \<open>
  \<open>InMemoryClientStore\<close> and \<open>InMemoryAdAccountStore\<close>: dictionaries in insertion order, and no
  triggers; and how far they agree with the SQL stores.
\<close>

section \<open>The stores\<close>

record account_mem =
  am_clients :: "(uuid \<times> client) list"
  am_accounts :: "(uuid \<times> account) list"

definition mem_client_create :: "client_create \<Rightarrow> uuid \<Rightarrow> timestamp \<Rightarrow> account_mem \<Rightarrow> client \<times> account_mem" where
  "mem_client_create p i now s =
     (new_client p i now, s\<lparr>am_clients := AList.update i (new_client p i now) (am_clients s)\<rparr>)"

definition mem_client_get :: "uuid \<Rightarrow> account_mem \<Rightarrow> client option" where
  "mem_client_get i s = map_of (am_clients s) i"

definition mem_client_list :: "status_arg \<Rightarrow> account_mem \<Rightarrow> client list" where
  "mem_client_list st s = sort_desc cl_updated (filter (\<lambda>c. status_ok st (cl_status c)) (map snd (am_clients s)))"

definition mem_client_patch :: "uuid \<Rightarrow> client_patch \<Rightarrow> timestamp \<Rightarrow> account_mem \<Rightarrow> account_error + client \<times> account_mem" where
  "mem_client_patch i p now s =
     (case mem_client_get i s of
        None \<Rightarrow> Inl ClientNotFound
      | Some old \<Rightarrow> if cpatch_empty p then Inr (old, s)
          else Inr (patched_client p now old, s\<lparr>am_clients := AList.update i (patched_client p now old) (am_clients s)\<rparr>))"

definition mem_client_archive :: "uuid \<Rightarrow> timestamp \<Rightarrow> account_mem \<Rightarrow> account_error + client \<times> account_mem" where
  "mem_client_archive i now s =
     (case mem_client_get i s of
        None \<Rightarrow> Inl ClientNotFound
      | Some old \<Rightarrow> (let new = old\<lparr>cl_status := RArchived, cl_updated := now\<rparr> in
          Inr (new, s\<lparr>am_clients := AList.update i new (am_clients s)\<rparr>)))"

definition mem_account_get :: "uuid \<Rightarrow> account_mem \<Rightarrow> account option" where
  "mem_account_get i s = map_option to_account (map_of (am_accounts s) i)"

definition mem_account_list :: "uuid option \<Rightarrow> status_arg \<Rightarrow> account_mem \<Rightarrow> account list" where
  "mem_account_list client_id st s =
     (let rows0 = map snd (am_accounts s);
          rows1 = (case client_id of None \<Rightarrow> rows0 | Some c \<Rightarrow> filter (\<lambda>x. ac_client x = c) rows0);
          rows2 = filter (\<lambda>x. status_ok st (ac_status x)) rows1
      in map to_account (sort_desc ac_updated rows2))"

definition mem_assert_client :: "uuid \<Rightarrow> account_mem \<Rightarrow> account_error option" where
  "mem_assert_client c s = raise_if (mem_client_get c s = None) ClientIdMissing"

definition mem_assert_unique :: "uuid \<Rightarrow> string \<Rightarrow> string \<Rightarrow> uuid option \<Rightarrow> account_mem \<Rightarrow> account_error option" where
  "mem_assert_unique c platform ext exclude s =
     (let np = normalize_account_platform platform; ne = canonical_external_account_id np ext in
      raise_if (\<exists>a \<in> set (map snd (am_accounts s)). Some (ac_id a) \<noteq> exclude \<and> ac_client a = c \<and> account_identity a = (np, ne)) DuplicateIdentity)"

definition mem_assert_active :: "uuid \<Rightarrow> string \<Rightarrow> string \<Rightarrow> uuid option \<Rightarrow> account_mem \<Rightarrow> account_error option" where
  "mem_assert_active c platform ext exclude s =
     (let np = normalize_account_platform platform; ne = canonical_external_account_id np ext;
          actives = map cl_id (mem_client_list (OnlyStatus RActive) s) in
      map_option assignment_conflict (find (\<lambda>a. Some (ac_id a) \<noteq> exclude \<and> ac_status a = RActive \<and> ac_client a \<in> set actives
        \<and> ac_client a \<noteq> c \<and> account_identity a = (np, ne)) (map snd (am_accounts s))))"

definition mem_account_create :: "account_create \<Rightarrow> uuid \<Rightarrow> timestamp \<Rightarrow> account_mem \<Rightarrow> account_error + account \<times> account_mem" where
  "mem_account_create p i now s =
     (let platform = normalize_account_platform (an_platform p);
          ext = canonical_external_account_id platform (an_external p);
          row = \<lparr>ac_id = i, ac_client = an_client p, ac_platform = platform, ac_external = ext, ac_name = an_name p,
                 ac_currency = an_currency p, ac_timezone = an_timezone p, ac_status = an_status p,
                 ac_meta = an_meta p, ac_created = now, ac_updated = now\<rparr>
      in case first_error [mem_assert_client (an_client p) s, mem_assert_unique (an_client p) platform ext None s,
           if an_status p = RActive then mem_assert_active (an_client p) platform ext None s else None] of
        Some e \<Rightarrow> Inl e
      | None \<Rightarrow> Inr (to_account row, s\<lparr>am_accounts := AList.update i row (am_accounts s)\<rparr>))"

definition mem_patched_account :: "account_patch \<Rightarrow> timestamp \<Rightarrow> account \<Rightarrow> account" where
  "mem_patched_account p now a = (patched_account p now a)\<lparr>ac_meta := set_or (ap_meta p) (ac_meta a)\<rparr>"

definition mem_account_patch :: "uuid \<Rightarrow> account_patch \<Rightarrow> timestamp \<Rightarrow> account_mem \<Rightarrow> account_error + account \<times> account_mem" where
  "mem_account_patch i p now s =
     (case map_of (am_accounts s) i of
        None \<Rightarrow> Inl AccountNotFound
      | Some old \<Rightarrow>
          if apatch_empty p then Inr (to_account old, s)
          else
            (let client = set_or (ap_client p) (ac_client old); platform = data_platform p old;
                 ext = data_external p old; status = set_or (ap_status p) (ac_status old);
                 new = mem_patched_account p now old
             in case first_error [mem_assert_client client s, mem_assert_unique client platform ext (Some i) s,
                  if identity_changed p old \<and> status = RActive then mem_assert_active client platform ext (Some i) s else None] of
               Some e \<Rightarrow> Inl e
             | None \<Rightarrow> Inr (to_account new, s\<lparr>am_accounts := AList.update i new (am_accounts s)\<rparr>)))"

definition mem_account_archive :: "uuid \<Rightarrow> timestamp \<Rightarrow> account_mem \<Rightarrow> account_error + account \<times> account_mem" where
  "mem_account_archive i now s =
     (case map_of (am_accounts s) i of
        None \<Rightarrow> Inl AccountNotFound
      | Some old \<Rightarrow> (let new = old\<lparr>ac_status := RArchived, ac_updated := now\<rparr> in
          Inr (to_account new, s\<lparr>am_accounts := AList.update i new (am_accounts s)\<rparr>)))"

section \<open>Agreement\<close>

text \<open>The tables hold an empty metadata object as null.\<close>

definition stored_view :: "account \<Rightarrow> account" where
  "stored_view a = a\<lparr>ac_meta := stored_meta (ac_meta a)\<rparr>"

definition accounts_refine :: "account_mem \<Rightarrow> account_db \<Rightarrow> bool" where
  "accounts_refine s db \<longleftrightarrow> dict_keyed cl_id (am_clients s) \<and> dict_keyed ac_id (am_accounts s)
     \<and> map snd (am_clients s) = ad_clients db \<and> map stored_view (map snd (am_accounts s)) = ad_accounts db"

lemma stored_view_simps [simp]: "ac_id (stored_view a) = ac_id a" "ac_client (stored_view a) = ac_client a"
  "ac_status (stored_view a) = ac_status a" "ac_platform (stored_view a) = ac_platform a"
  "ac_external (stored_view a) = ac_external a" "account_identity (stored_view a) = account_identity a"
  by (simp_all add: stored_view_def account_identity_def)

lemma to_stored: "to_account (stored_view a) = stored_view (to_account a)"
proof -
  have n: "AList.update k v kvs \<noteq> []" for k and v :: json and kvs by (cases kvs) auto
  show ?thesis
    by (cases "ac_meta a") (auto simp: to_account_def stored_view_def stored_meta_def safe_sync_metadata_def n jget_def)
qed

lemma ref_clients: "accounts_refine s db \<Longrightarrow> mem_client_get c s = sql_client_get c db"
  using dict_get [of cl_id "am_clients s" c] by (simp add: mem_client_get_def sql_client_get_def accounts_refine_def)

lemma ref_rows: "accounts_refine s db \<Longrightarrow> ad_accounts db = map stored_view (map snd (am_accounts s))"
  by (simp add: accounts_refine_def)

lemma ref_active: "accounts_refine s db \<Longrightarrow> c \<in> set (map cl_id (mem_client_list (OnlyStatus RActive) s)) \<longleftrightarrow> client_active db c"
  by (auto simp: mem_client_list_def client_active_def accounts_refine_def)

lemma ref_assert_client: "accounts_refine s db \<Longrightarrow> mem_assert_client c s = assert_client_exists c db"
  by (simp add: mem_assert_client_def assert_client_exists_def ref_clients)

lemma ref_assert_unique: "accounts_refine s db \<Longrightarrow> mem_assert_unique c p e x s = assert_unique_identity c p e x db"
  by (auto simp: mem_assert_unique_def assert_unique_identity_def ref_rows raise_if_def Let_def)

lemma ref_assert_active:
  assumes "accounts_refine s db"
  shows "mem_assert_active c p e x s = None \<longleftrightarrow> assert_active_assignment c p e x db = None"
  unfolding mem_assert_active_def assert_active_assignment_def active_assignment_def Let_def ref_active [OF assms] ref_rows [OF assms]
  by (auto simp: find_None_iff)

lemma ref_find:
  assumes "accounts_refine s db"
  shows "find (\<lambda>a. ac_id a = i) (ad_accounts db) = map_option stored_view (map_of (am_accounts s) i)"
proof -
  have "find (\<lambda>a. ac_id a = i) (map stored_view xs) = map_option stored_view (find (\<lambda>a. ac_id a = i) xs)" for xs
    by (induction xs) auto
  then show ?thesis using assms dict_get [of ac_id "am_accounts s" i]
    by (simp add: accounts_refine_def ref_rows [OF assms] del: map_map)
qed

lemma ref_insert:
  assumes "accounts_refine s db" "i \<notin> ac_id ` set (ad_accounts db)" "ac_id r = i"
  shows "accounts_refine (s\<lparr>am_accounts := AList.update i r (am_accounts s)\<rparr>) (db\<lparr>ad_accounts := ad_accounts db @ [stored_view r]\<rparr>)"
proof -
  have "dict_keyed ac_id (am_accounts s)" "i \<notin> ac_id ` set (map snd (am_accounts s))"
    using assms by (auto simp: accounts_refine_def ref_rows [OF assms(1)] image_iff)
  from dict_insert [OF this assms(3)] assms(1) show ?thesis by (simp add: accounts_refine_def)
qed

lemma map_update_rows: "(\<And>x. key (g x) = key x) \<Longrightarrow>
    map g (update_rows (\<lambda>x. key x = i) (\<lambda>_. r) xs) = update_rows (\<lambda>x. key x = i) (\<lambda>_. g r) (map g xs)"
  by (induction xs) auto

lemma ref_update:
  assumes "accounts_refine s db" "map_of (am_accounts s) i = Some old" "ac_id r = i"
  shows "accounts_refine (s\<lparr>am_accounts := AList.update i r (am_accounts s)\<rparr>)
    (db\<lparr>ad_accounts := update_rows (\<lambda>a. ac_id a = i) (\<lambda>_. stored_view r) (ad_accounts db)\<rparr>)"
proof -
  have k: "dict_keyed ac_id (am_accounts s)" using assms(1) by (simp add: accounts_refine_def)
  then have "i \<in> ac_id ` set (map snd (am_accounts s))"
    using map_of_SomeD [OF assms(2)] by (force simp: dict_keyed_def)
  from dict_update [OF k this assms(3)] assms(1) show ?thesis
    by (simp add: accounts_refine_def map_update_rows ref_rows [OF assms(1)] del: map_map)
qed

lemma account_create_agrees:
  assumes ref: "accounts_refine s db" and run: "sql_account_create p i now db = Inr (a, db')"
  shows "\<exists>b s'. mem_account_create p i now s = Inr (b, s') \<and> a = stored_view b \<and> accounts_refine s' db'"
proof -
  define platform where "platform = normalize_account_platform (an_platform p)"
  define ext where "ext = canonical_external_account_id platform (an_external p)"
  define row where "row = \<lparr>ac_id = i, ac_client = an_client p, ac_platform = platform, ac_external = ext, ac_name = an_name p,
                 ac_currency = an_currency p, ac_timezone = an_timezone p, ac_status = an_status p,
                 ac_meta = an_meta p, ac_created = now, ac_updated = now\<rparr>"
  note agree = ref_assert_client [OF ref] ref_assert_unique [OF ref] ref_assert_active [OF ref, THEN iffD2]
  have st: "stored_view row = \<lparr>ac_id = i, ac_client = an_client p, ac_platform = platform, ac_external = ext, ac_name = an_name p,
                 ac_currency = an_currency p, ac_timezone = an_timezone p, ac_status = an_status p,
                 ac_meta = stored_meta (an_meta p), ac_created = now, ac_updated = now\<rparr>"
    by (simp add: row_def stored_view_def)
  have g: "assert_client_exists (an_client p) db = None" "assert_unique_identity (an_client p) platform ext None db = None"
    "an_status p = RActive \<Longrightarrow> assert_active_assignment (an_client p) platform ext None db = None"
    and new: "i \<notin> ac_id ` set (ad_accounts db)" and a: "a = to_account (stored_view row)"
    and db': "db' = db\<lparr>ad_accounts := ad_accounts db @ [stored_view row]\<rparr>"
    using run unfolding sql_account_create_def Let_def platform_def [symmetric] ext_def [symmetric] st [symmetric]
    by (auto simp: first_error_Cons split: option.splits if_splits)
  have "mem_account_create p i now s = Inr (to_account row, s\<lparr>am_accounts := AList.update i row (am_accounts s)\<rparr>)"
    unfolding mem_account_create_def Let_def platform_def [symmetric] ext_def [symmetric] row_def [symmetric]
    using g by (simp add: first_error_Cons agree)
  moreover have "ac_id row = i" by (simp add: row_def)
  ultimately show ?thesis using ref_insert [OF ref new] unfolding a db' to_stored by blast
qed

lemma view_patch:
  "data_platform p (stored_view a) = data_platform p a" "data_external p (stored_view a) = data_external p a"
  "identity_changed p (stored_view a) = identity_changed p a"
  "stored_view (mem_patched_account p now a) = patched_account p now (stored_view a)"
  by (simp_all add: data_platform_def data_external_def identity_changed_def mem_patched_account_def patched_account_def
      stored_view_def set_or_def Let_def split: option.split)

lemma unchanged_unique:
  assumes ok: "accounts_ok db" and old: "old \<in> set (ad_accounts db)" and same: "\<not> identity_changed p old"
  shows "assert_unique_identity (set_or (ap_client p) (ac_client old)) (data_platform p old) (data_external p old)
    (Some (ac_id old)) db = None"
proof -
  have c: "canonical_row old" using ok old by (simp add: accounts_ok_def)
  have "a = old" if "a \<in> set (ad_accounts db)" "ac_client a = ac_client old" "account_identity a = account_identity old" for a
  proof -
    have "canonical_row a" using ok that(1) by (simp add: accounts_ok_def)
    then have "same_identity a old" using c that(3) by (simp add: identity_canonical same_identity_def)
    with ok old that show ?thesis by (simp add: accounts_ok_def clash_def)
  qed
  moreover have "canonical_external_account_id (normalize_account_platform (ac_platform old)) (ac_external old) = ac_external old"
    "normalize_account_platform (ac_platform old) = ac_platform old" using c by (simp_all add: canonical_row_def)
  ultimately show ?thesis unfolding unchanged_data [OF c same] assert_unique_identity_def Let_def
    using identity_canonical [OF c] by auto
qed

lemma account_patch_agrees:
  assumes ok: "accounts_ok db" and ref: "accounts_refine s db" and run: "sql_account_patch i p now db = Inr (a, db')"
  shows "\<exists>b s'. mem_account_patch i p now s = Inr (b, s') \<and> a = stored_view b \<and> accounts_refine s' db'"
proof (cases "map_of (am_accounts s) i")
  case None
  with run show ?thesis by (simp add: sql_account_patch_def ref_find [OF ref])
next
  case (Some old)
  then have f: "find (\<lambda>a. ac_id a = i) (ad_accounts db) = Some (stored_view old)" by (simp add: ref_find [OF ref])
  note o = find_SomeD [OF f]
  show ?thesis
  proof (cases "apatch_empty p")
    case True
    with run Some f ref show ?thesis by (auto simp: sql_account_patch_def mem_account_patch_def to_stored)
  next
    case False
    let ?c = "set_or (ap_client p) (ac_client old)" and ?p = "data_platform p old" and ?e = "data_external p old"
    let ?new = "mem_patched_account p now old"
    note agree = ref_assert_client [OF ref] ref_assert_unique [OF ref] ref_assert_active [OF ref, THEN iffD2]
    have g: "assert_client_exists ?c db = None"
      "identity_changed p old \<Longrightarrow> assert_unique_identity ?c ?p ?e (Some i) db = None"
      "identity_changed p old \<Longrightarrow> set_or (ap_status p) (ac_status old) = RActive \<Longrightarrow> assert_active_assignment ?c ?p ?e (Some i) db = None"
      and a: "a = to_account (stored_view ?new)"
      and db': "db' = db\<lparr>ad_accounts := update_rows (\<lambda>a. ac_id a = i) (\<lambda>_. stored_view ?new) (ad_accounts db)\<rparr>"
      using run f False unfolding sql_account_patch_def Let_def view_patch
      by (auto simp: first_error_Cons view_patch split: option.splits if_splits)
    have u: "assert_unique_identity ?c ?p ?e (Some i) db = None"
      using g(2) unchanged_unique [OF ok conjunct1 [OF o], of p] o by (cases "identity_changed p old") (simp_all add: view_patch)
    have "mem_account_patch i p now s = Inr (to_account ?new, s\<lparr>am_accounts := AList.update i ?new (am_accounts s)\<rparr>)"
      using Some False g(1,3) u unfolding mem_account_patch_def Let_def by (auto simp: first_error_Cons agree)
    moreover have "ac_id ?new = i" using o by (simp add: mem_patched_account_def)
    ultimately show ?thesis using ref_update [OF ref Some] unfolding a db' to_stored by blast
  qed
qed

lemma account_archive_agrees:
  assumes ref: "accounts_refine s db" and run: "sql_account_archive i now db = Inr (a, db')"
  shows "\<exists>b s'. mem_account_archive i now s = Inr (b, s') \<and> a = stored_view b \<and> accounts_refine s' db'"
proof (cases "map_of (am_accounts s) i")
  case None
  with run show ?thesis by (simp add: sql_account_archive_def ref_find [OF ref])
next
  case (Some old)
  let ?new = "old\<lparr>ac_status := RArchived, ac_updated := now\<rparr>"
  have f: "find (\<lambda>a. ac_id a = i) (ad_accounts db) = Some (stored_view old)" by (simp add: ref_find [OF ref] Some)
  have v: "(stored_view old)\<lparr>ac_status := RArchived, ac_updated := now\<rparr> = stored_view ?new" by (simp add: stored_view_def)
  have "ac_id ?new = i" using find_SomeD [OF f] by simp
  from ref_update [OF ref Some this] run Some f v show ?thesis
    by (auto simp: sql_account_archive_def mem_account_archive_def Let_def to_stored)
qed

text \<open>The three writing requests of the account store.\<close>

datatype account_request =
    CreateAccount account_create uuid
  | PatchAccount uuid account_patch
  | ArchiveAccount uuid

fun sql_request :: "account_request \<Rightarrow> timestamp \<Rightarrow> account_db \<Rightarrow> account_error + account \<times> account_db" where
  "sql_request (CreateAccount p i) now db = sql_account_create p i now db"
| "sql_request (PatchAccount i p) now db = sql_account_patch i p now db"
| "sql_request (ArchiveAccount i) now db = sql_account_archive i now db"

fun mem_request :: "account_request \<Rightarrow> timestamp \<Rightarrow> account_mem \<Rightarrow> account_error + account \<times> account_mem" where
  "mem_request (CreateAccount p i) now s = mem_account_create p i now s"
| "mem_request (PatchAccount i p) now s = mem_account_patch i p now s"
| "mem_request (ArchiveAccount i) now s = mem_account_archive i now s"

lemma request_agrees:
  "accounts_ok db \<Longrightarrow> accounts_refine s db \<Longrightarrow> sql_request r now db = Inr (a, db') \<Longrightarrow>
     \<exists>b s'. mem_request r now s = Inr (b, s') \<and> a = stored_view b \<and> accounts_refine s' db'"
  by (cases r) (simp_all add: account_create_agrees account_patch_agrees account_archive_agrees)

end
