(* ===== verification/Accounts_Theorems.thy ===== *)
theory Accounts_Theorems
  imports Accounts_Memory
begin

text \<open>
  What ownership of provider accounts promises: one active owner in every database the stores can
  reach, no ambiguous account in a synchronisation, and the gaps: ids that spell their prefix
  twice, and the in-memory client store.
\<close>

section \<open>Groups of one identity\<close>

lemma map_of_update: "map_of (AList.update k v xs) = (map_of xs)(k \<mapsto> v)"
  by (rule ext) (simp add: update_conv)

lemma group_of:
  "map_of (group_by_identity groups as) k =
     (if map_of groups k = None \<and> filter (\<lambda>a. account_identity a = k) as = [] then None
      else Some ((case map_of groups k of None \<Rightarrow> [] | Some g \<Rightarrow> g) @ filter (\<lambda>a. account_identity a = k) as))"
proof (induction as arbitrary: groups)
  case Nil
  then show ?case by (cases "map_of groups k") auto
next
  case (Cons a as)
  show ?case unfolding group_by_identity.simps Cons.IH map_of_update
    by (cases "map_of groups k") (auto split: option.splits)
qed

lemma group_distinct: "distinct (map fst groups) \<Longrightarrow> distinct (map fst (group_by_identity groups as))"
  by (induction as arbitrary: groups) (simp_all add: distinct_update)

lemma group_mem:
  "(k, g) \<in> set (group_by_identity [] as) \<longleftrightarrow> g = filter (\<lambda>a. account_identity a = k) as \<and> g \<noteq> []"
proof -
  have "(k, g) \<in> set (group_by_identity [] as) \<longleftrightarrow> map_of (group_by_identity [] as) k = Some g"
    using group_distinct [of "[]" as] by (simp add: map_of_eq_Some_iff)
  then show ?thesis unfolding group_of by (cases "filter (\<lambda>a. account_identity a = k) as = []") auto
qed

lemma conflict_ids:
  "i \<in> set (active_assignment_conflict_ids db) \<longleftrightarrow> (\<exists>a \<in> set (live_accounts db). ac_id a = i
     \<and> length (filter (\<lambda>b. account_identity b = account_identity a) (live_accounts db)) > 1)"
    (is "?l \<longleftrightarrow> ?r")
proof
  assume ?l
  then obtain k g where g: "(k, g) \<in> set (group_by_identity [] (live_accounts db))" "length g > 1" "i \<in> ac_id ` set g"
    unfolding active_assignment_conflict_ids_def by fastforce
  from g(3) obtain a where "a \<in> set g" "ac_id a = i" by blast
  with g(1,2) show ?r unfolding group_mem by (intro bexI [of _ a]) auto
next
  assume ?r
  then obtain a where a: "a \<in> set (live_accounts db)" "ac_id a = i"
    "length (filter (\<lambda>b. account_identity b = account_identity a) (live_accounts db)) > 1" by blast
  let ?g = "filter (\<lambda>b. account_identity b = account_identity a) (live_accounts db)"
  have "a \<in> set ?g" using a(1) by simp
  then have "(account_identity a, ?g) \<in> set (group_by_identity [] (live_accounts db))"
    unfolding group_mem by (metis empty_iff list.set(1))
  then show ?l unfolding active_assignment_conflict_ids_def using a \<open>a \<in> set ?g\<close>
    by (auto intro!: image_eqI [of _ _ a] bexI [of _ "(account_identity a, ?g)"])
qed

lemma distinct_filtered:
  "(\<And>x. x \<in> set xs \<Longrightarrow> P x \<Longrightarrow> length (filter (\<lambda>b. f b = f x) xs) \<le> 1) \<Longrightarrow> distinct (map f (filter P xs))"
proof (induction xs)
  case (Cons x xs)
  have rest: "length (filter (\<lambda>b. f b = f y) xs) \<le> 1" if "y \<in> set xs" "P y" for y
    using Cons.prems [of y] that by (simp split: if_splits)
  have "f y \<noteq> f x" if "P x" "y \<in> set xs" for y
    using Cons.prems [of x] that by (auto simp: filter_empty_conv)
  then have "f x \<notin> f ` set (filter P xs)" if "P x" using that by fastforce
  then show ?case using Cons.IH [OF rest] by simp
qed simp

lemma distinct_sort_desc: "distinct (map k xs) \<Longrightarrow> distinct (map k (sort_desc f xs))"
  unfolding sort_desc_def by (simp add: distinct_map rev_map [symmetric])

lemma live_unique:
  assumes ok: "accounts_ok db" and ab: "a \<in> set (ad_accounts db)" "b \<in> set (ad_accounts db)" "live db a" "live db b"
    and i: "account_identity a = account_identity b"
  shows "a = b"
proof -
  have "canonical_row a" "canonical_row b" using ok ab by (simp_all add: accounts_ok_def)
  then have "same_identity a b" using i by (simp add: identity_canonical same_identity_def)
  then show ?thesis using live_owner [OF ok ab(1,2) _ ab(3,4)] by simp
qed

section \<open>Properties\<close>


text \<open>
  The accounts a synchronisation may touch have pairwise different identities, whatever the
  tables hold, legacy duplicates included.
\<close>
theorem eligible_unambiguous: "distinct (map account_identity (eligible_active_accounts db))"
  unfolding eligible_active_accounts_def
proof (rule distinct_filtered)
  fix x
  assume "x \<in> set (live_accounts db)" "ac_id x \<notin> set (active_assignment_conflict_ids db)"
  then show "length (filter (\<lambda>b. account_identity b = account_identity x) (live_accounts db)) \<le> 1"
    unfolding conflict_ids using not_le by blast
qed

lemma identity_view [simp]: "account_identity (to_account a) = account_identity a"
  by (simp add: account_identity_def to_account_def)

lemma live_accounts_mem: "x \<in> set (live_accounts db) \<longleftrightarrow> (\<exists>a \<in> set (ad_accounts db). live db a \<and> x = to_account a)"
proof -
  have c: "i \<in> set (map cl_id (sql_client_list (OnlyStatus RActive) db)) \<longleftrightarrow> client_active db i" for i
    by (auto simp: sql_client_list_def client_active_def)
  have "ac_client (to_account a) = ac_client a" for a by (simp add: to_account_def)
  then show ?thesis unfolding live_accounts_def Let_def set_filter mem_Collect_eq c
    by (auto simp: sql_account_list_def live_def)
qed

lemma length_single: "distinct xs \<Longrightarrow> set xs \<subseteq> {b} \<Longrightarrow> length xs \<le> 1"
  using card_mono [of "{b}" "set xs"] by (simp add: distinct_card)

text \<open>Where every row came through the stores the guard holds nothing back.\<close>

lemma nothing_held_back:
  assumes "reachable empty_accounts account_step db"
  shows "eligible_active_accounts db = live_accounts db"
proof -
  have ok: "accounts_ok db" by (rule assignments.reachable_inv [OF assms])
  have "distinct (map ac_id (live_accounts db))"
  proof -
    have "distinct (map ac_id (sort_desc ac_updated (filter (\<lambda>a. ac_status a = RActive) (ad_accounts db))))"
      using ok by (intro distinct_sort_desc distinct_map_filter) (simp add: accounts_ok_def)
    moreover have "map ac_id (filter p (map to_account xs)) = map ac_id (filter (p \<circ> to_account) xs)" for p xs
      by (simp add: filter_map comp_def to_account_def)
    ultimately show ?thesis unfolding live_accounts_def sql_account_list_def Let_def
      by (simp add: distinct_map_filter)
  qed
  then have d: "distinct (live_accounts db)" by (simp add: distinct_map)
  have "ac_id a \<notin> set (active_assignment_conflict_ids db)" if a: "a \<in> set (live_accounts db)" for a
  proof
    assume "ac_id a \<in> set (active_assignment_conflict_ids db)"
    then obtain b where b: "b \<in> set (live_accounts db)"
      "length (filter (\<lambda>x. account_identity x = account_identity b) (live_accounts db)) > 1"
      unfolding conflict_ids by blast
    have one: "x = b" if x: "x \<in> set (live_accounts db)" and e: "account_identity x = account_identity b" for x
    proof -
      obtain u where u: "u \<in> set (ad_accounts db)" "live db u" "x = to_account u" using x unfolding live_accounts_mem by blast
      obtain v where v: "v \<in> set (ad_accounts db)" "live db v" "b = to_account v" using b(1) unfolding live_accounts_mem by blast
      have "u = v" using live_unique [OF ok u(1) v(1) u(2) v(2)] e u(3) v(3) by simp
      with u v show ?thesis by simp
    qed
    have "set (filter (\<lambda>x. account_identity x = account_identity b) (live_accounts db)) \<subseteq> {b}" using one by auto
    then have "length (filter (\<lambda>x. account_identity x = account_identity b) (live_accounts db)) \<le> 1"
      using d by (intro length_single) simp_all
    with b(2) show False by simp
  qed
  then show ?thesis unfolding eligible_active_accounts_def by (simp add: filter_id_conv)
qed

section \<open>Gaps\<close>

definition demo_client :: "uuid \<Rightarrow> record_status \<Rightarrow> client" where
  "demo_client i st = \<lparr>cl_id = i, cl_name = ''c'', cl_legal_name = None, cl_status = st, cl_currency = ''USD'',
     cl_timezone = None, cl_notes = None, cl_created = 0, cl_updated = 0\<rparr>"

definition demo_payload :: "uuid \<Rightarrow> string \<Rightarrow> account_create" where
  "demo_payload c ext = \<lparr>an_client = c, an_platform = ''meta'', an_external = ext, an_name = ''a'', an_currency = ''USD'',
     an_timezone = None, an_status = RActive, an_meta = None\<rparr>"

definition demo_account :: "uuid \<Rightarrow> uuid \<Rightarrow> string \<Rightarrow> account" where
  "demo_account i c ext = \<lparr>ac_id = i, ac_client = c, ac_platform = ''meta'', ac_external = ext, ac_name = ''a'',
     ac_currency = ''USD'', ac_timezone = None, ac_status = RActive, ac_meta = None, ac_created = 0, ac_updated = 0\<rparr>"

definition set_status :: "record_status \<Rightarrow> client_patch" where
  "set_status st = \<lparr>cp_name = None, cp_legal_name = None, cp_status = Some st, cp_currency = None, cp_timezone = None, cp_notes = None\<rparr>"

definition two_clients :: "record_status \<Rightarrow> account_db" where
  "two_clients st = \<lparr>ad_clients = [demo_client 1 st, demo_client 2 RActive], ad_accounts = []\<rparr>"

definition run2 :: "account_error + 'a \<times> account_db \<Rightarrow> (account_db \<Rightarrow> account_error + 'b \<times> account_db) \<Rightarrow> account_error + 'b \<times> account_db" where
  "run2 r k = (case r of Inl e \<Rightarrow> Inl e | Inr (_, db) \<Rightarrow> k db)"

definition prefix_story :: "account_error + client \<times> account_db" where
  "prefix_story =
     run2 (sql_account_create (demo_payload 1 ''act_act_ 5'') 10 0 (two_clients RActive)) (\<lambda>db.
     run2 (sql_client_archive 1 1 db) (\<lambda>db.
     run2 (sql_account_create (demo_payload 2 ''5'') 20 2 db) (\<lambda>db.
       sql_client_patch 1 (set_status RActive) 3 db)))"

text \<open>
  The restore trigger computes identities without the inner \<open>strip\<close> of the code.  An id that
  spells its prefix twice is stored with it once, and restoring its archived client next to
  another owner of the account is accepted: both accounts then count as ambiguous and no longer
  synchronise.
\<close>
theorem restore_misses_identity:
  "case prefix_story of Inl _ \<Rightarrow> False
   | Inr (_, db) \<Rightarrow> length (live_accounts db) = 2 \<and> eligible_active_accounts db = []"
  by code_simp

definition archived_owner :: account_db where
  "archived_owner = \<lparr>ad_clients = [demo_client 1 RArchived, demo_client 2 RActive],
     ad_accounts = [demo_account 10 1 ''5'', demo_account 20 2 ''5'']\<rparr>"

definition archived_owner_mem :: account_mem where
  "archived_owner_mem = \<lparr>am_clients = [(1, demo_client 1 RArchived), (2, demo_client 2 RActive)],
     am_accounts = [(10, demo_account 10 1 ''5''), (20, demo_account 20 2 ''5'')]\<rparr>"

text \<open>
  Restoring an archived client whose account has another active owner is refused by the SQL
  store and accepted by the in-memory store.
\<close>
theorem client_restore_diverges:
  "sql_client_patch 1 (set_status RActive) 9 archived_owner = Inl RestoreConflict
   \<and> (case mem_client_patch 1 (set_status RActive) 9 archived_owner_mem of Inl _ \<Rightarrow> False
      | Inr (c, _) \<Rightarrow> cl_status c = RActive)"
  by code_simp

section \<open>Both stores\<close>


definition demo_create :: client_create where
  "demo_create = \<lparr>cc_name = ''c'', cc_legal_name = None, cc_status = RActive, cc_currency = ''USD'', cc_timezone = None, cc_notes = None\<rparr>"

definition one_client :: account_db where
  "one_client = \<lparr>ad_clients = [demo_client 1 RActive], ad_accounts = []\<rparr>"

definition one_account :: account_db where
  "one_account = \<lparr>ad_clients = [demo_client 1 RActive], ad_accounts = [demo_account 10 1 ''5'']\<rparr>"

lemma one_client_reachable: "reachable empty_accounts account_step one_client"
proof -
  have "sql_client_create demo_create 1 0 \<lparr>ad_clients = [], ad_accounts = []\<rparr> = Inr (demo_client 1 RActive, one_client)"
    by (simp add: sql_client_create_def new_client_def demo_create_def demo_client_def one_client_def)
  then have "account_step \<lparr>ad_clients = [], ad_accounts = []\<rparr> one_client" by (rule as_client_create)
  moreover have "empty_accounts \<lparr>ad_clients = [], ad_accounts = []\<rparr>" by (simp add: empty_accounts_def)
  ultimately show ?thesis by (blast intro: reach_init reach_step)
qed

lemma demo_create_runs: "sql_account_create (demo_payload 1 ''5'') 10 0 one_client = Inr (demo_account 10 1 ''5'', one_account)"
  by code_simp

lemma one_account_reachable: "reachable empty_accounts account_step one_account"
  by (rule reach_step [OF one_client_reachable as_create [OF demo_create_runs]]) code_simp



end
