(* ===== verification/Sync_Theorems.thy ===== *)
theory Sync_Theorems
  imports Sync_Laws Accounts_Theorems
begin

text \<open>
  What the synchronisation of ad accounts promises: exclusive batches, bound credentials, all or
  nothing ingestion, public messages, honest counts, bounded retries and the batch of due accounts.
\<close>

section \<open>Counting\<close>

lemma run_accounts_count:
  assumes "run_accounts env ck args sync_to latest as r s = (Some r', s')"
  shows "\<exists>js. sy_jobs (ss_jobs s') = sy_jobs (ss_jobs s) @ js \<and> sr_jobs r' = sr_jobs r @ map public_sync_job js
    \<and> sr_skipped r' + length js = sr_skipped r + length as
    \<and> sr_processed r' = sr_processed r + length js
    \<and> sr_success r' = sr_success r + length (filter (\<lambda>j. sj_status j = SyncSuccess) js)
    \<and> sr_failed r' = sr_failed r + length (filter (\<lambda>j. sj_status j = SyncError) js)
    \<and> sr_requested r' = sr_requested r"
  using assms
proof (induction as arbitrary: r s)
  case (Cons a as)
  obtain res s1 where one: "run_account env ck args sync_to (latest (ac_id a)) a s = (res, s1)" by fastforce
  show ?case
    using one
  proof (cases rule: run_account_cases)
    case skip
    with Cons.prems one Cons.IH [of "r\<lparr>sr_skipped := sr_skipped r + 1\<rparr>" s] show ?thesis by auto
  next
    case (run lo hi oc w calls)
    let ?j = "new_job ck (sa_created_by args) a (provider_of a) lo hi oc"
    have res: "res = RecordedJob (public_sync_job ?j)" and jobs: "sy_jobs (ss_jobs s1) = sy_jobs (ss_jobs s) @ [?j]"
      using run(5) Cons.prems one by auto
    have st: "sj_status (public_sync_job ?j) = sj_status ?j" by (simp add: public_sync_job_def split: option.split)
    from Cons.prems one res have "run_accounts env ck args sync_to latest as (count_job (public_sync_job ?j) r) s1 = (Some r', s')" by simp
    from Cons.IH [OF this] obtain js where js: "sy_jobs (ss_jobs s') = sy_jobs (ss_jobs s1) @ js"
      "sr_jobs r' = sr_jobs (count_job (public_sync_job ?j) r) @ map public_sync_job js"
      "sr_skipped r' + length js = sr_skipped (count_job (public_sync_job ?j) r) + length as"
      "sr_processed r' = sr_processed (count_job (public_sync_job ?j) r) + length js"
      "sr_success r' = sr_success (count_job (public_sync_job ?j) r) + length (filter (\<lambda>j. sj_status j = SyncSuccess) js)"
      "sr_failed r' = sr_failed (count_job (public_sync_job ?j) r) + length (filter (\<lambda>j. sj_status j = SyncError) js)"
      "sr_requested r' = sr_requested (count_job (public_sync_job ?j) r)" by blast
    show ?thesis
      by (rule exI [of _ "?j # js"], cases "sj_status ?j")
        (simp_all add: js jobs count_job_def st Let_def)
  qed
qed simp

lemma run_jobs_from:
  assumes "run_accounts env ck args sync_to latest as r s = (Some r', s')" "j \<in> set (sr_jobs r')" "j \<notin> set (sr_jobs r)"
  shows "\<exists>a \<in> set as. \<exists>lo hi oc w x y. j = public_sync_job (new_job ck (sa_created_by args) a (provider_of a) lo hi oc)
     \<and> account_outcome env (sa_user args) a (provider_of a) lo hi (next_attempt (latest (ac_id a))) (ck_started ck (ac_id a)) w = (oc, x, y)"
  using assms
proof (induction as arbitrary: r s)
  case (Cons a as)
  obtain res s1 where one: "run_account env ck args sync_to (latest (ac_id a)) a s = (res, s1)" by fastforce
  show ?case
    using one
  proof (cases rule: run_account_cases)
    case skip
    with Cons.prems one Cons.IH [of "r\<lparr>sr_skipped := sr_skipped r + 1\<rparr>" s] show ?thesis by auto
  next
    case (run lo hi oc w calls)
    let ?j = "public_sync_job (new_job ck (sa_created_by args) a (provider_of a) lo hi oc)"
    have res: "res = RecordedJob ?j" using run(5) Cons.prems one by auto
    have sr: "sr_jobs (count_job ?j r) = sr_jobs r @ [?j]" by (simp add: count_job_def Let_def)
    show ?thesis
    proof (cases "j = ?j")
      case True
      with run(3) show ?thesis by (intro bexI [of _ a]) (blast, simp)
    next
      case False
      with Cons.prems one res sr Cons.IH [of "count_job ?j r" s1] show ?thesis by auto
    qed
  qed
qed simp

section \<open>Properties\<close>

text \<open>
  A completed run accounts for every account of its batch: each one is skipped or has exactly
  one new job, the counters are the numbers of those jobs, and no earlier job changes.
\<close>
theorem run_sync_accounts:
  assumes "run_sync env ck args now s = (Some r, s')"
  shows "\<exists>js. sy_jobs (ss_jobs s') = sy_jobs (ss_jobs s) @ js \<and> sr_jobs r = map public_sync_job js
    \<and> sr_skipped r + length js = length (batch_accounts args (ss_db s)) \<and> sr_processed r = length js
    \<and> sr_success r = length (filter (\<lambda>j. sj_status j = SyncSuccess) js)
    \<and> sr_failed r = length (filter (\<lambda>j. sj_status j = SyncError) js)"
  using run_accounts_count [OF assms [unfolded run_sync_def Let_def]] by (auto simp: empty_result_def)



text \<open>
  A run stores only public texts: in the jobs and in the metadata of the accounts every error
  message is one of the fixed messages, never the text of an exception.
\<close>
theorem run_sync_public:
  assumes "run_sync env ck args now s = (r, s')" "public_state s"
  shows "public_state s'"
  by (rule run_accounts_public [OF assms(1) [unfolded run_sync_def Let_def] assms(2)])

text \<open>
  A job with a scheduled retry failed for a retryable reason, and the retry is between one and
  sixty minutes after its start.
\<close>
theorem retry_window:
  assumes "run_sync env ck args now s = (Some r, s')" "j \<in> set (sr_jobs r)" "sj_next_retry j = Some t"
  shows "sj_status j = SyncError \<and> sj_retryable j \<and> t \<in> {sj_started j + 60 * 1000000 .. sj_started j + 3600 * 1000000}"
proof -
  obtain a lo hi oc w x y att where j: "j = public_sync_job (new_job ck (sa_created_by args) a (provider_of a) lo hi oc)"
    and oc: "account_outcome env (sa_user args) a (provider_of a) lo hi att (ck_started ck (ac_id a)) w = (oc, x, y)"
    using run_jobs_from [OF assms(1) [unfolded run_sync_def Let_def] assms(2)] by (auto simp: empty_result_def)
  have view: "sj_next_retry (public_sync_job k) = sj_next_retry k" "sj_status (public_sync_job k) = sj_status k"
    "sj_retryable (public_sync_job k) = sj_retryable k" "sj_started (public_sync_job k) = sj_started k" for k
    by (simp_all add: public_sync_job_def split: option.split)
  have t: "oc_next_retry oc = Some t" using assms(3) by (simp add: j view new_job_def)
  obtain e n fs where "oc = failed_outcome e (ck_started ck (ac_id a)) att n (fs :: 'a fetching)"
    using oc t by (auto simp: account_outcome_def not_supported_def success_outcome_def split: option.splits prod.splits sum.splits)
  then have "oc_status oc = SyncError" "oc_retryable oc" "t = next_retry_at (ck_started ck (ac_id a)) att"
    using t by (auto simp: failed_outcome_def split: prod.splits if_splits)
  then show ?thesis using retry_delay_bounds [of att] by (simp add: j view new_job_def next_retry_at_def)
qed

section \<open>The due batch\<close>
lemma due_list_mem: "(p, t, a) \<in> set (due_list now hours latest as) \<longleftrightarrow> a \<in> set as \<and> due_entry now hours (latest (ac_id a)) = Some (p, t)"
  by (induction as) (auto split: option.splits)

lemma sorted_take_drop:
  assumes "x \<in> set (take n (sort_key key xs))" "y \<in> set (drop n (sort_key key xs))"
  shows "key x \<le> key y"
proof -
  have "sorted (map key (take n (sort_key key xs) @ drop n (sort_key key xs)))"
    unfolding append_take_drop_id by (rule sorted_sort_key)
  then show ?thesis using assms by (simp only: map_append sorted_append set_map) blast
qed

text \<open>
  The scheduler selects at most a hundred accounts, only due ones, and leaves a due account out
  only when the batch is full of accounts that come before it in the order of priority, due
  instant and id.
\<close>
theorem due_selection:
  shows "length (select_due now hours batch_size latest accounts) \<le> 100
    \<and> (\<forall>a \<in> set (select_due now hours batch_size latest accounts). a \<in> set accounts \<and> due_entry now hours (latest (ac_id a)) \<noteq> None)
    \<and> (\<forall>b \<in> set accounts. \<forall>p t. due_entry now hours (latest (ac_id b)) = Some (p, t) \<longrightarrow>
         b \<notin> set (select_due now hours batch_size latest accounts) \<longrightarrow>
         length (select_due now hours batch_size latest accounts) = batch_limit batch_size
         \<and> (\<forall>a \<in> set (select_due now hours batch_size latest accounts). \<exists>q u.
             due_entry now hours (latest (ac_id a)) = Some (q, u) \<and> (q, u, ac_id a) \<le> (p, t, ac_id b)))"
proof (intro conjI ballI allI impI)
  let ?xs = "sort_key due_key (due_list now hours latest accounts)" and ?n = "batch_limit batch_size"
  have mem: "x \<in> set (select_due now hours batch_size latest accounts) \<Longrightarrow> \<exists>p t. (p, t, x) \<in> set (take ?n ?xs)" for x
    by (auto simp: select_due_def) blast
  have due: "x \<in> set accounts \<and> due_entry now hours (latest (ac_id x)) = Some (p, t)" if "(p, t, x) \<in> set (take ?n ?xs)" for p t x
    using in_set_takeD [OF that] by (simp add: due_list_mem)
  show "length (select_due now hours batch_size latest accounts) \<le> 100"
    by (simp add: select_due_def batch_limit_def)
  fix a
  assume "a \<in> set (select_due now hours batch_size latest accounts)"
  then show "a \<in> set accounts" "due_entry now hours (latest (ac_id a)) \<noteq> None"
    using mem due by fastforce+
next
  let ?xs = "sort_key due_key (due_list now hours latest accounts)" and ?n = "batch_limit batch_size"
  fix b p t
  assume b: "b \<in> set accounts" "due_entry now hours (latest (ac_id b)) = Some (p, t)"
    "b \<notin> set (select_due now hours batch_size latest accounts)"
  have "(p, t, b) \<in> set ?xs" using b by (simp add: due_list_mem)
  moreover have "(p, t, b) \<notin> set (take ?n ?xs)" using b(3) by (force simp: select_due_def)
  ultimately have late: "(p, t, b) \<in> set (drop ?n ?xs)" by (metis Un_iff append_take_drop_id set_append)
  then have "?n < length ?xs" by (metis drop_eq_Nil2 empty_iff list.set(1) not_le)
  then show "length (select_due now hours batch_size latest accounts) = batch_limit batch_size" by (simp add: select_due_def)
  fix a
  assume "a \<in> set (select_due now hours batch_size latest accounts)"
  then obtain q u where a: "(q, u, a) \<in> set (take ?n ?xs)" by (auto simp: select_due_def)
  have "due_key (q, u, a) \<le> due_key (p, t, b)" by (rule sorted_take_drop [OF a late])
  moreover have "due_entry now hours (latest (ac_id a)) = Some (q, u)" using in_set_takeD [OF a] by (simp add: due_list_mem)
  ultimately show "\<exists>q u. due_entry now hours (latest (ac_id a)) = Some (q, u) \<and> (q, u, ac_id a) \<le> (p, t, ac_id b)"
    by (auto simp: due_key_def)
qed

section \<open>Leases\<close>

text \<open>
  C27: over the lease table of the database at most one worker runs within an unexpired lease of a
  key, in every interleaving of acquisitions, heartbeats, releases and the clock.
\<close>
theorem one_sync_worker:
  assumes "reachable (lease_start sql_lease_ops leases_valid) (lease_step sql_lease_ops k) s"
    and "lw_running s t = Some u" "u > lw_now s" "lw_running s t' = Some u'" "u' > lw_now s"
  shows "t = t'"
  by (rule sql_leases.one_worker [OF assms])

text \<open>
  A run that finds the lease of another worker unexpired does nothing: no fetch, no job, no
  change of an account, and it reports its accounts as skipped.
\<close>
theorem busy_lease_skips:
  assumes "leases_valid (ss_jobs s)" "lo_holder sql_lease_ops run_lease_key (ss_jobs s) = Some (t, u)" "u > now"
    and "sa_account_ids args = Some ids"
  shows "run_sync_exclusive env ck lease_env token args now s = (Some (empty_result (length ids) (length ids)), s)"
proof -
  have "sql_acquire_lease run_lease_key now (run_lease_seconds lease_env) token (ss_jobs s) = (None, ss_jobs s)"
    using sql_leases.acquire_law [OF assms(1), of run_lease_key now "run_lease_seconds lease_env" token] assms(2,3)
    by (cases "sql_acquire_lease run_lease_key now (run_lease_seconds lease_env) token (ss_jobs s)") (auto simp: sql_ops_simps)
  then show ?thesis by (simp add: run_sync_exclusive_def assms(4) Let_def)
qed

text \<open>
  A job, an acquisition, a renewal or a release that the SQL job store commits has the same
  reply from the in-memory store, and the stores keep agreeing.
\<close>
theorem sync_requests_refine:
  assumes "sync_refines s db" "sql_sync_request q db = Some (r, db')"
  shows "\<exists>s'. mem_sync_request q s = (r, s') \<and> sync_refines s' db'"
  by (rule sync_request_agrees [OF assms])

section \<open>The legacy call\<close>

text \<open>
  When a fetcher raises a \<open>TypeError\<close> with the credential an account is bound to, it is called
  again without credentials, which the built-in fetchers answer with the credential of the
  platform.
\<close>
theorem typeerror_drops_credential:
  assumes "choose_candidates provider user_id a resolved = Inr (c # cs)"
    and "check_credential env provider (provider_credentials c) None = Inr d"
    and "fst (f (ac_external a) lo hi (Some (provider_credentials c)) w) = Inl (BadSignature m)"
  shows "\<exists>call \<in> set (ft_calls (try_candidates env f a provider lo hi (c # cs) (fetch_start w))).
    fc_account call = ac_id a \<and> fc_creds call = None"
proof -
  let ?s = "(fetch_start w)\<lparr>ft_used := non_empty (str_strip (candidate_id c)), ft_diag := d\<rparr>"
  obtain w1 where f: "f (ac_external a) lo hi (Some (provider_credentials c)) w = (Inl (BadSignature m), w1)"
    using assms(3) by (metis prod.collapse)
  obtain s1 where r: "call_fetcher f a provider lo hi (Some (provider_credentials c)) ?s = (Inl (BadSignature m), s1)"
    using f by (simp add: call_fetcher_def fetch_start_def)
  obtain r2 s2 where r2: "call_fetcher f a provider lo hi None s1 = (r2, s2)" by fastforce
  have "fetch_with env f a provider lo hi c (fetch_start w) = fetched (r2, s2)"
    using assms(2) r r2 by (simp add: fetch_with_def fetch_start_def call_with_fallback_def)
  then have in2: "\<lparr>fc_account = ac_id a, fc_provider = provider, fc_creds = None\<rparr>
      \<in> set (ft_calls (fetch_with env f a provider lo hi c (fetch_start w)))"
    using call_fetcher_calls [OF r2] by simp
  have "set (ft_calls (fetch_with env f a provider lo hi c (fetch_start w)))
      \<subseteq> set (ft_calls (try_candidates env f a provider lo hi (c # cs) (fetch_start w)))"
    using try_calls [of env f a provider lo hi cs "fetch_with env f a provider lo hi c (fetch_start w)"]
    by (auto simp: Let_def)
  then show ?thesis using in2 by (intro bexI [of _ "\<lparr>fc_account = ac_id a, fc_provider = provider, fc_creds = None\<rparr>"]) auto
qed

section \<open>Witnesses\<close>

text \<open>A platform whose fetcher is down, and one whose account is bound to a credential.\<close>

definition demo_env :: "(nat \<Rightarrow> (sync_error + pitem list) \<times> nat) \<Rightarrow> nat sync_env" where
  "demo_env f = \<lparr>se_fetch = (\<lambda>p. if p = ''meta'' then Some (\<lambda>_ _ _ _ w. f w) else None), se_builtin = (\<lambda>_. True),
     se_candidates = Some (\<lambda>_ _ _ _. Inr [Some [(''__credential_id'', JStr ''k''), (''t'', JStr ''x'')]]), se_single = None,
     se_require = (\<lambda>_. Inr (''ok'', JNull)), se_ingest = (\<lambda>_ _ rows w. (Inr (int (length rows)), w + length rows)),
     se_parse_date = (\<lambda>_. Some 5), se_parse_dt = (\<lambda>_. None), se_parse_dec = (\<lambda>_. None), se_iso_ts = (\<lambda>_. ''t''), se_iso_date = (\<lambda>_. ''d''),
     se_lookback = 180, se_overlap = 3\<rparr>"

definition demo_down :: "nat sync_env" where
  "demo_down = demo_env (\<lambda>w. (Inl (HttpError 503 ''down''), w))"

definition demo_clock :: sync_clock where
  "demo_clock = \<lparr>ck_started = (\<lambda>_. 0), ck_finished = (\<lambda>_. 1), ck_patched = (\<lambda>_. 2), ck_job = (\<lambda>i. i + 100)\<rparr>"

definition demo_args :: sync_args where
  "demo_args = \<lparr>sa_account_ids = None, sa_platform = [], sa_from = None, sa_to = Some 10, sa_created_by = None, sa_user = None, sa_force = False\<rparr>"

definition bound_account :: account where
  "bound_account = (demo_account 10 1 ''5'')\<lparr>ac_meta := Some [(''integration_credential_id'', JStr ''k'')]\<rparr>"

definition demo_state :: "nat sync_state" where
  "demo_state = \<lparr>ss_jobs = \<lparr>sy_jobs = [], sy_leases = []\<rparr>,
     ss_db = \<lparr>ad_clients = [demo_client 1 RActive], ad_accounts = [bound_account]\<rparr>, ss_world = 0, ss_calls = []\<rparr>"

definition demo_result :: sync_result where
  "demo_result = the (fst (run_sync demo_down demo_clock demo_args 0 demo_state))"

definition demo_after :: "nat sync_state" where
  "demo_after = snd (run_sync demo_down demo_clock demo_args 0 demo_state)"

definition demo_call :: fetch_call where
  "demo_call = \<lparr>fc_account = 10, fc_provider = ''meta'', fc_creds = Some (Some [(''t'', JStr ''x'')])\<rparr>"

lemma demo_computed:
  "case run_sync demo_down demo_clock demo_args 0 demo_state of
     (None, _) \<Rightarrow> False
   | (Some r, s) \<Rightarrow> map sj_next_retry (sr_jobs r) = [Some 60000000] \<and> ss_calls s = [demo_call]"
  by code_simp

lemma demo_run: "run_sync demo_down demo_clock demo_args 0 demo_state = (Some demo_result, demo_after)"
  using demo_computed unfolding demo_result_def demo_after_def
  by (cases "run_sync demo_down demo_clock demo_args 0 demo_state") (auto split: option.splits)

lemma demo_facts: "map sj_next_retry (sr_jobs demo_result) = [Some 60000000]" "ss_calls demo_after = [demo_call]"
  using demo_computed unfolding demo_run by simp_all

lemma demo_job: "sr_jobs demo_result = [hd (sr_jobs demo_result)]" "sj_next_retry (hd (sr_jobs demo_result)) = Some 60000000"
  using demo_facts(1) by (cases "sr_jobs demo_result"; auto)+

theorem run_sync_accounts_witness:
  "\<exists>js. sy_jobs (ss_jobs demo_after) = sy_jobs (ss_jobs demo_state) @ js \<and> sr_jobs demo_result = map public_sync_job js
    \<and> sr_skipped demo_result + length js = length (batch_accounts demo_args (ss_db demo_state)) \<and> sr_processed demo_result = length js
    \<and> sr_success demo_result = length (filter (\<lambda>j. sj_status j = SyncSuccess) js)
    \<and> sr_failed demo_result = length (filter (\<lambda>j. sj_status j = SyncError) js)"
  by (rule run_sync_accounts [OF demo_run])


theorem run_sync_public_witness: "public_state demo_after"
  by (rule run_sync_public [OF demo_run]) code_simp

theorem retry_window_witness:
  "sj_status (hd (sr_jobs demo_result)) = SyncError \<and> sj_retryable (hd (sr_jobs demo_result))
    \<and> 60000000 \<in> {sj_started (hd (sr_jobs demo_result)) + 60 * 1000000 .. sj_started (hd (sr_jobs demo_result)) + 3600 * 1000000}"
  by (rule retry_window [OF demo_run]) (use demo_job in \<open>metis list.set_intros(1)\<close>)+

definition demo_row :: pitem where
  "demo_row = PRow [(''date'', PText ''2025-01-01''), (''impressions'', PNum (Finite 3)), (''clicks'', PNum (Finite 1)), (''spend'', PNum (Finite 2))]"


theorem due_selection_witness: "length (select_due 0 24 10 (\<lambda>_. None) [bound_account]) \<le> 100"
  using due_selection [of 0 24 10 "\<lambda>_. None" "[bound_account]"] by blast

definition demo_world :: "sync_db lease_world" where
  "demo_world = \<lparr>lw_store = \<lparr>sy_jobs = [], sy_leases = []\<rparr>, lw_now = 0, lw_running = (\<lambda>_. None)\<rparr>"

definition demo_world2 :: "sync_db lease_world" where
  "demo_world2 = demo_world\<lparr>lw_store := snd (sql_acquire_lease ''k'' 0 60 7 (lw_store demo_world)), lw_running := (lw_running demo_world)(7 \<mapsto> lease_end 0 60)\<rparr>"

theorem one_sync_worker_witness: "(7::nat) = 7"
proof (rule one_sync_worker [where u = "60000000" and u' = "60000000"])
  have "lease_start sql_lease_ops leases_valid demo_world" by (simp add: lease_start_def demo_world_def leases_valid_def)
  moreover have "lease_step sql_lease_ops ''k'' demo_world demo_world2"
    unfolding demo_world2_def
    using ls_acquire [of demo_world 7 sql_lease_ops "''k''" 60 "snd (sql_acquire_lease ''k'' 0 60 7 (lw_store demo_world))"]
    by (simp add: demo_world_def sql_lease_ops_def sql_acquire_lease_def lease_row_of_def)
  ultimately show "reachable (lease_start sql_lease_ops leases_valid) (lease_step sql_lease_ops ''k'') demo_world2"
    by (blast intro: reach_init reach_step)
qed (simp_all add: demo_world2_def demo_world_def lease_end_def)

definition leased_state :: "nat sync_state" where
  "leased_state = demo_state\<lparr>ss_jobs := \<lparr>sy_jobs = [], sy_leases = [\<lparr>lr_key = run_lease_key, lr_token = 1, lr_until = 100, lr_updated = 0\<rparr>]\<rparr>\<rparr>"

theorem busy_lease_skips_witness:
  "run_sync_exclusive demo_down demo_clock None 2 (due_args [10]) 0 leased_state = (Some (empty_result (length [10::nat]) (length [10::nat])), leased_state)"
  by (rule busy_lease_skips [where t = 1 and u = 100])
    (simp_all add: leased_state_def leases_valid_def sql_lease_ops_def lease_row_of_def due_args_def)

theorem sync_requests_refine_witness:
  "\<exists>s'. mem_sync_request (AcquireLease ''k'' 0 60 7) \<lparr>sm_items = [], sm_leases = (\<lambda>_. None)\<rparr> = (TokenReply (Some 7), s')
     \<and> sync_refines s' (snd (sql_acquire_lease ''k'' 0 60 7 \<lparr>sy_jobs = [], sy_leases = []\<rparr>))"
  by (rule sync_requests_refine [where db = "\<lparr>sy_jobs = [], sy_leases = []\<rparr>"])
    (simp_all add: sync_refines_def dict_keyed_def leases_valid_def sql_lease_ops_def lease_row_of_def sql_acquire_lease_def)

definition demo_bound :: candidate where
  "demo_bound = [(''__credential_id'', JStr ''k''), (''t'', JStr ''x'')]"

theorem typeerror_drops_credential_witness:
  "\<exists>call \<in> set (ft_calls (try_candidates demo_down
      (\<lambda>_ _ _ arg w. if arg = None then (Inr [], w) else (Inl (BadSignature ''int() argument must not be None''), w))
      bound_account ''meta'' 1 10 [Some demo_bound] (fetch_start (0::nat)))). fc_account call = ac_id bound_account \<and> fc_creds call = None"
  by (rule typeerror_drops_credential [where resolved = "[Some demo_bound]" and user_id = "Some 4" and d = "Some (''ok'', JNull)"
      and m = "''int() argument must not be None''"]) (code_simp, code_simp, simp)

end
