(* ===== verification/Floats.thy ===== *)
theory Floats
  imports Decimals "HOL-Library.Log_Nat"
begin

text \<open>
  Binary floating point where the code passes amounts through \<open>float\<close>: the \<open>NUMERIC\<close> columns of
  SQLite, \<open>public_metrics\<close> and the percentages.  A finite double is the rational it denotes;
  \<open>float64\<close> rounds to 53 significant bits, ties to even, and \<open>float_decimal\<close> is the number that
  \<open>repr\<close> prints, the shortest decimal that rounds to the double.  Overflow and subnormal numbers
  are outside the range of the amounts and left out.
\<close>

section \<open>Rounding to a double\<close>

text \<open>\<open>2 ^ binade x \<le> x < 2 ^ (binade x + 1)\<close>.\<close>

definition binade :: "rat \<Rightarrow> int" where
  "binade x = (if 1 \<le> x then bitlen \<lfloor>x\<rfloor> - 1 else - int (ceillog2 (nat \<lceil>1 / x\<rceil>)))"

definition float64 :: "rat \<Rightarrow> rat" where
  "float64 x = (if x = 0 then 0 else
     let u = 2 powi (binade \<bar>x\<bar> - 52) in sgn x * of_int (round_half_even (\<bar>x\<bar> / u)) * u)"

lemma binade_le:
  assumes "0 < x" shows "2 powi binade x \<le> x"
proof (cases "1 \<le> x")
  case True
  then have pos: "0 < \<lfloor>x\<rfloor>" by simp
  then have b: "0 \<le> bitlen \<lfloor>x\<rfloor> - 1" using bitlen_eq_zero_iff [of "\<lfloor>x\<rfloor>"] bitlen_nonneg [of "\<lfloor>x\<rfloor>"] by linarith
  have "(2::rat) powi binade x = of_int (2 ^ nat (bitlen \<lfloor>x\<rfloor> - 1))"
    using b True by (simp add: binade_def power_int_def)
  also have "\<dots> \<le> of_int \<lfloor>x\<rfloor>" using bitlen_bounds [OF pos] by (simp only: of_int_le_iff)
  also have "\<dots> \<le> x" by simp
  finally show ?thesis .
next
  case False
  let ?n = "nat \<lceil>1 / x\<rceil>"
  have "1 / x \<le> of_nat ?n" using assms by linarith
  also have "\<dots> \<le> (of_nat (2 ^ ceillog2 ?n) :: rat)" by (simp only: of_nat_le_iff le_two_power_ceillog2)
  finally have "1 / x \<le> 2 ^ ceillog2 ?n" by simp
  then have "1 / 2 ^ ceillog2 ?n \<le> x" using assms by (simp add: field_simps)
  then show ?thesis using False by (simp add: binade_def power_int_minus inverse_eq_divide)
qed

lemma round_half_even_error: "\<bar>of_int (round_half_even x) - x\<bar> \<le> 1 / 2"
proof -
  have "of_int \<lfloor>x\<rfloor> \<le> x" "x < of_int \<lfloor>x\<rfloor> + 1" by linarith+
  then show ?thesis by (auto simp: round_half_even_def Let_def abs_le_iff)
qed

lemma float64_0 [simp]: "float64 0 = 0"
  by (simp add: float64_def)

lemma float64_minus [simp]: "float64 (- x) = - float64 x"
  by (simp add: float64_def Let_def)

lemma float64_error:
  assumes "0 < x" shows "\<bar>float64 x - x\<bar> \<le> x / 2 ^ 53"
proof -
  let ?u = "(2::rat) powi (binade x - 52)"
  have u: "0 < ?u" by simp
  have "float64 x - x = (of_int (round_half_even (x / ?u)) - x / ?u) * ?u"
    using assms u by (simp add: float64_def Let_def left_diff_distrib)
  then have "\<bar>float64 x - x\<bar> = \<bar>of_int (round_half_even (x / ?u)) - x / ?u\<bar> * ?u"
    by (simp add: abs_mult)
  also have "\<dots> \<le> 1 / 2 * ?u" using round_half_even_error u by (intro mult_right_mono) simp_all
  also have "\<dots> = 2 powi binade x / 2 ^ 53" by (simp add: power_int_diff)
  also have "\<dots> \<le> x / 2 ^ 53" by (rule divide_right_mono [OF binade_le [OF assms]]) simp
  finally show ?thesis .
qed

lemma float64_pos: "0 < x \<Longrightarrow> 0 < float64 x"
proof -
  assume x: "0 < x"
  have "x / 2 ^ 53 < x" using x by (simp add: field_simps)
  with float64_error [OF x] show ?thesis unfolding abs_le_iff by linarith
qed

section \<open>The decimal of a double\<close>

definition digits_unit :: "nat \<Rightarrow> rat \<Rightarrow> rat" where
  "digits_unit n f = 10 powi (magnitude f - int n + 1)"

text \<open>The neighbours of \<open>f\<close> with \<open>n\<close> significant digits that read back as \<open>f\<close>.\<close>

definition repr_candidates :: "nat \<Rightarrow> rat \<Rightarrow> rat list" where
  "repr_candidates n f = (let u = digits_unit n f in
     filter (\<lambda>c. float64 c = f) [of_int \<lfloor>f / u\<rfloor> * u, of_int \<lceil>f / u\<rceil> * u])"

definition closest :: "rat \<Rightarrow> rat list \<Rightarrow> rat" where
  "closest f cs = (case cs of [] \<Rightarrow> f | [a] \<Rightarrow> a | a # b # _ \<Rightarrow> if \<bar>b - f\<bar> < \<bar>a - f\<bar> then b else a)"

definition repr_pos :: "rat \<Rightarrow> rat" where
  "repr_pos f = (case find (\<lambda>n. repr_candidates n f \<noteq> []) [1 ..< 18] of
     None \<Rightarrow> f | Some n \<Rightarrow> closest f (repr_candidates n f))"

definition float_decimal :: "rat \<Rightarrow> rat" where
  "float_decimal f = (if f = 0 then 0 else sgn f * repr_pos \<bar>f\<bar>)"

section \<open>Fifteen digits survive\<close>

lemma multiple_between:
  assumes "0 < (u :: rat)" "x = of_int m * u" "\<bar>x - f\<bar> < u"
  shows "x = of_int \<lfloor>f / u\<rfloor> * u \<or> x = of_int \<lceil>f / u\<rceil> * u"
proof -
  have "of_int m - f / u = (x - f) / u" using assms(1,2) by (simp add: diff_divide_distrib)
  then have "\<bar>of_int m - f / u\<bar> = \<bar>x - f\<bar> / u" using assms(1) by (simp add: abs_divide)
  also have "\<dots> < 1" using assms(1,3) by simp
  finally have "m = \<lfloor>f / u\<rfloor> \<or> m = \<lceil>f / u\<rceil>" unfolding abs_less_iff by linarith
  then show ?thesis using assms(2) by auto
qed

lemma multiples_equal:
  assumes "0 < (u :: rat)" "x = of_int m * u" "y = of_int n * u" "\<bar>x - y\<bar> < u"
  shows "x = y"
proof -
  have "\<bar>x - y\<bar> = of_int \<bar>m - n\<bar> * u" using assms(1-3) by (simp add: left_diff_distrib [symmetric] abs_mult)
  with assms(1,4) have "of_int \<bar>m - n\<bar> < (1 :: rat)" by (simp add: mult_less_cancel_right2)
  then have "m = n" by simp
  with assms(2,3) show ?thesis by simp
qed

lemma powi_multiple:
  assumes "b \<le> a" shows "\<exists>m. of_int n * (10::rat) powi a = of_int m * 10 powi b"
proof
  have "(10::rat) powi a = 10 powi (a - b) * 10 powi b" by (simp add: power_int_diff)
  also have "10 powi (a - b) = (of_int (10 ^ nat (a - b)) :: rat)" using assms by (simp add: power_int_def)
  finally show "of_int n * (10::rat) powi a = of_int (n * 10 ^ nat (a - b)) * 10 powi b" by simp
qed

text \<open>A double close to a number of fifteen digits has room for it between its neighbours.\<close>

lemma fifteen_digits_unit:
  assumes d: "0 < d" "d = of_int n * 10 powi k" "n < 10 ^ 15" and f: "\<bar>f - d\<bar> \<le> d / 2 ^ 53"
  shows "\<exists>m. d = of_int m * digits_unit 15 f" "4 * (d / 2 ^ 53) < digits_unit 15 f" "0 < f"
proof -
  have fpos: "0 < f" using f d(1) unfolding abs_le_iff by (simp add: field_simps)
  then show "0 < f" .
  let ?M = "magnitude f" and ?D = "magnitude d"
  have D: "10 powi ?D \<le> d" "d < 10 powi (?D + 1)" using magnitude_bounds [OF d(1)] by auto
  have M: "10 powi ?M \<le> f" "f < 10 powi (?M + 1)" using magnitude_bounds [OF fpos] by auto
  have "d < of_int (10 ^ 15) * 10 powi k"
    unfolding d(2) using d(3) by (simp only: mult_less_cancel_right_pos of_int_less_iff powi_pos)
  then have "d < 10 powi (k + 15)" by (simp add: power_int_add)
  with D(1) have "\<not> k + 15 \<le> ?D" using powi_mono [of "k + 15" ?D] by linarith
  then have "?D - 14 \<le> k" by simp
  then obtain m where m: "d = of_int m * 10 powi (?D - 14)" using powi_multiple d(2) by metis
  have "?M \<le> ?D"
  proof (rule ccontr)
    assume "\<not> ?M \<le> ?D"
    then have "(10::rat) powi (?D + 1) \<le> 10 powi ?M" by (intro powi_mono) simp
    then have df: "10 powi (?D + 1) \<le> f" using M(1) by linarith
    have e: "(10::rat) powi (?D + 1) = of_int (10 ^ 15) * 10 powi (?D - 14)"
      by (simp add: power_int_diff power_int_add)
    have "of_int m * 10 powi (?D - 14) < of_int (10 ^ 15) * (10::rat) powi (?D - 14)"
      using D(2) unfolding e m [symmetric] .
    then have "m + 1 \<le> 10 ^ 15" by (simp only: mult_less_cancel_right_pos of_int_less_iff powi_pos zless_imp_add1_zle)
    then have "of_int (m + 1) * (10::rat) powi (?D - 14) \<le> 10 powi (?D + 1)"
      unfolding e by (intro mult_right_mono) (simp_all only: of_int_le_iff powi_pos less_imp_le)
    then have "d + 10 powi (?D - 14) \<le> f" using df m by (simp add: distrib_right)
    moreover have "of_int (10 ^ 15) * 10 powi (?D - 14) < 2 ^ 53 * (10::rat) powi (?D - 14)"
      by (rule mult_strict_right_mono) simp_all
    then have "d < 2 ^ 53 * 10 powi (?D - 14)" using D(2) unfolding e by (rule less_trans [rotated])
    then have "d / 2 ^ 53 < 10 powi (?D - 14)" by (simp add: divide_less_eq mult.commute)
    ultimately show False using f unfolding abs_le_iff by linarith
  qed
  then have "?M - int 15 + 1 \<le> ?D - 14" by simp
  then obtain i where "of_int m * (10::rat) powi (?D - 14) = of_int i * 10 powi (?M - int 15 + 1)"
    using powi_multiple by blast
  then have "d = of_int i * digits_unit 15 f" unfolding digits_unit_def by (rule trans [OF m])
  then show "\<exists>m. d = of_int m * digits_unit 15 f" ..
  have "d \<le> f + d / 2 ^ 53" using f unfolding abs_le_iff by linarith
  then have "d * (2 ^ 53 - 1) \<le> f * 2 ^ 53" by (simp add: field_simps)
  moreover have "f < of_int (10 ^ 15) * digits_unit 15 f"
    using M(2) by (simp add: digits_unit_def power_int_diff power_int_add)
  moreover have "0 < digits_unit 15 f" by (simp add: digits_unit_def)
  ultimately have "d * 4 < digits_unit 15 f * 2 ^ 53" by simp
  then show "4 * (d / 2 ^ 53) < digits_unit 15 f" by (simp add: field_simps)
qed

lemma repr_candidates_unit:
  assumes "c \<in> set (repr_candidates n f)" "n \<le> 15"
  shows "\<exists>m. c = of_int m * digits_unit 15 f" "float64 c = f"
proof -
  have "c \<in> {of_int \<lfloor>f / digits_unit n f\<rfloor> * digits_unit n f, of_int \<lceil>f / digits_unit n f\<rceil> * digits_unit n f}"
    using assms(1) unfolding repr_candidates_def Let_def set_filter by auto
  then obtain i where "c = of_int i * digits_unit n f" by blast
  moreover have "magnitude f - int 15 + 1 \<le> magnitude f - int n + 1" using assms(2) by simp
  ultimately show "\<exists>m. c = of_int m * digits_unit 15 f"
    unfolding digits_unit_def using powi_multiple by metis
  show "float64 c = f" using assms(1) unfolding repr_candidates_def Let_def set_filter by simp
qed

lemma repr_pos_exact:
  assumes d: "0 < d" "d = of_int n * 10 powi k" "n < 10 ^ 15"
  shows "repr_pos (float64 d) = d"
proof -
  let ?f = "float64 d" and ?u = "digits_unit 15 (float64 d)"
  have u: "0 < ?u" by (simp add: digits_unit_def)
  note unit = fifteen_digits_unit [OF d float64_error [OF d(1)]]
  obtain m where m: "d = of_int m * ?u" using unit(1) ..
  have near: "\<bar>d - ?f\<bar> < ?u"
    using float64_error [OF d(1)] unit(2) d(1) unfolding abs_minus_commute [of d] by linarith
  have only: "c = d" if c: "c \<in> set (repr_candidates j ?f)" "j \<le> 15" for c j
  proof -
    obtain i where i: "c = of_int i * ?u" using repr_candidates_unit(1) [OF c] ..
    have eq: "float64 c = ?f" by (rule repr_candidates_unit(2) [OF c])
    then have cpos: "0 < c" using unit(3) float64_pos [of "- c"] by (cases c "0::rat" rule: linorder_cases) auto
    have "\<bar>?f - c\<bar> \<le> c / 2 ^ 53" using float64_error [OF cpos] eq by simp
    then have "\<bar>c - d\<bar> \<le> c / 2 ^ 53 + d / 2 ^ 53" using float64_error [OF d(1)] unfolding abs_le_iff by linarith
    then have "\<bar>c - d\<bar> < ?u" using unit(2) unfolding abs_le_iff abs_less_iff by (simp add: field_simps)
    then show ?thesis by (rule multiples_equal [OF u i m])
  qed
  have "d \<in> set (repr_candidates 15 ?f)"
    using multiple_between [OF u m near] by (auto simp: repr_candidates_def Let_def)
  then have "find (\<lambda>n. repr_candidates n ?f \<noteq> []) [1 ..< 18] \<noteq> None"
    by (auto simp: find_None_iff intro!: exI [of _ 15] simp del: upt_Suc)
  then obtain j where j: "find (\<lambda>n. repr_candidates n ?f \<noteq> []) [1 ..< 18] = Some j" by blast
  then obtain i where i: "i < 17" "j = Suc i" "repr_candidates j ?f \<noteq> []"
      "\<forall>l < i. repr_candidates (Suc l) ?f = []"
    by (auto simp: find_Some_iff simp del: upt_Suc)
  have "i \<le> 14"
  proof (rule ccontr)
    assume "\<not> i \<le> 14"
    then have "repr_candidates (Suc 14) ?f = []" using i(4) by (metis not_le_imp_less)
    with \<open>d \<in> set (repr_candidates 15 ?f)\<close> show False by simp
  qed
  then have all: "c = d" if "c \<in> set (repr_candidates j ?f)" for c using only that i(2) by simp
  then have "closest ?f (repr_candidates j ?f) = d"
    using i(3) by (auto simp: closest_def split: list.split)
  with j show ?thesis by (simp add: repr_pos_def)
qed

theorem float_decimal_exact:
  assumes "\<bar>x\<bar> = of_int n * 10 powi k" "n < 10 ^ 15"
  shows "float_decimal (float64 x) = x"
proof -
  consider "x = 0" | "0 < x" | "x < 0" by linarith
  then show ?thesis
  proof cases
    case 2
    with assms repr_pos_exact [of x n k] float64_pos [OF 2] show ?thesis by (simp add: float_decimal_def)
  next
    case 3
    then have pos: "0 < - x" by simp
    then have "repr_pos (float64 (- x)) = - x" using assms 3 by (intro repr_pos_exact [of "- x" n k]) simp_all
    with float64_pos [OF pos] show ?thesis by (simp add: float_decimal_def)
  qed (simp add: float_decimal_def)
qed

corollary float_decimal_cents:
  assumes "cents x" "\<bar>x\<bar> < 10 ^ 13"
  shows "float_decimal (float64 x) = x"
proof -
  obtain n where n: "x = of_int n / 100" using assms(1) unfolding cents_iff ..
  then have "of_int \<bar>n\<bar> < (of_int (10 ^ 15) :: rat)" using assms(2) by simp
  then have "\<bar>n\<bar> < 10 ^ 15" by (simp only: of_int_less_iff)
  moreover have "\<bar>x\<bar> = of_int \<bar>n\<bar> * 10 powi (- 2)" using n by (simp add: power_int_minus)
  ultimately show ?thesis by (intro float_decimal_exact)
qed

end
