(* ===== verification/Aggregation.thy ===== *)
theory Aggregation
  imports Floats "HOL-Library.AList" "HOL-Library.Multiset" "HOL-Library.List_Lexorder" "HOL-Library.Char_ord"
begin

text \<open>
  \<open>app/services/metric_aggregation.py\<close>: totals of daily rows and of account totals, per currency,
  platform, client and account.  A row is a dictionary with the same keys in both cases; its
  amounts are a \<open>Decimal\<close> in a daily row and a \<open>float\<close> in an account total.
\<close>

section \<open>Rows and totals\<close>

datatype number = Dec rat | Flt rat

text \<open>\<open>_decimal\<close>: \<open>str\<close> of a \<open>float\<close> is its shortest decimal.\<close>

fun decimal_of :: "number option \<Rightarrow> rat" where
  "decimal_of None = 0"
| "decimal_of (Some (Dec x)) = x"
| "decimal_of (Some (Flt f)) = float_decimal f"

record spend_row =
  sp_account :: "string option"
  sp_client :: "string option"
  sp_name :: "string option"
  sp_platform :: "string option"
  sp_currency :: "string option"
  sp_spend :: "number option"
  sp_impressions :: int
  sp_clicks :: int
  sp_conversions :: "number option"

definition spend_of :: "spend_row \<Rightarrow> rat" where "spend_of r = decimal_of (sp_spend r)"
definition conversions_of :: "spend_row \<Rightarrow> rat" where "conversions_of r = decimal_of (sp_conversions r)"

record metric_totals =
  mt_currency :: "string option"
  mt_spend :: "rat option"
  mt_impressions :: int
  mt_clicks :: int
  mt_conversions :: rat
  mt_ctr :: rat
  mt_cpc :: "rat option"
  mt_cpm :: "rat option"

definition decimal_sum :: "rat list \<Rightarrow> rat" where
  "decimal_sum xs = foldl dec_add 0 xs"

definition single_currency :: "spend_row list \<Rightarrow> string option" where
  "single_currency rows = (case remdups (map sp_currency rows) of [c] \<Rightarrow> c | _ \<Rightarrow> None)"

definition money_ratio :: "rat option \<Rightarrow> int \<Rightarrow> int \<Rightarrow> rat option" where
  "money_ratio spend denominator multiplier = (case spend of None \<Rightarrow> None
     | Some s \<Rightarrow> Some (q_money (if denominator \<noteq> 0 then dec_div (dec_mul s (of_int multiplier)) (of_int denominator) else 0)))"

definition sum_metric_rows :: "spend_row list \<Rightarrow> string option \<Rightarrow> metric_totals" where
  "sum_metric_rows rows empty_currency =
     (let currency = (if rows = [] then empty_currency else single_currency rows);
          comparable = (rows = [] \<or> currency \<noteq> None \<and> (\<forall>r \<in> set rows. sp_spend r \<noteq> None));
          spend = (if comparable then Some (decimal_sum (map spend_of rows)) else None);
          impressions = sum_list (map sp_impressions rows);
          clicks = sum_list (map sp_clicks rows);
          conversions = decimal_sum (map conversions_of rows)
      in \<lparr>mt_currency = currency, mt_spend = map_option q_money spend, mt_impressions = impressions, mt_clicks = clicks,
          mt_conversions = q_money conversions,
          mt_ctr = quantize (1 / 10 ^ 8) (if impressions \<noteq> 0 then dec_div (of_int clicks) (of_int impressions) else 0),
          mt_cpc = money_ratio spend clicks 1, mt_cpm = money_ratio spend impressions 1000\<rparr>)"

text \<open>\<open>public_metrics\<close> turns every \<open>Decimal\<close> into a \<open>float\<close>.\<close>

definition public_metrics :: "metric_totals \<Rightarrow> metric_totals" where
  "public_metrics t = t\<lparr>mt_spend := map_option float64 (mt_spend t), mt_conversions := float64 (mt_conversions t),
     mt_ctr := float64 (mt_ctr t), mt_cpc := map_option float64 (mt_cpc t), mt_cpm := map_option float64 (mt_cpm t)\<rparr>"

section \<open>Groups\<close>

fun collect :: "('r \<Rightarrow> 'k) \<Rightarrow> ('k \<times> 'r list) list \<Rightarrow> 'r list \<Rightarrow> ('k \<times> 'r list) list" where
  "collect f groups [] = groups"
| "collect f groups (r # rs) =
     collect f (AList.update (f r) ((case map_of groups (f r) of None \<Rightarrow> [] | Some g \<Rightarrow> g) @ [r]) groups) rs"

text \<open>A group has its key, the identity fields of its first row, and its totals as floats.\<close>

record group_row =
  gr_key :: "string option"
  gr_first :: spend_row
  gr_totals :: metric_totals

definition group_text :: "string option \<Rightarrow> string" where
  "group_text k = (case k of None \<Rightarrow> [] | Some t \<Rightarrow> t)"

definition grouped :: "(spend_row \<Rightarrow> string option) \<Rightarrow> spend_row list \<Rightarrow> group_row list" where
  "grouped field rows = map (\<lambda>(k, g). \<lparr>gr_key = k, gr_first = hd g, gr_totals = public_metrics (sum_metric_rows g None)\<rparr>)
     (sort_key (\<lambda>e. group_text (fst e)) (collect field [] rows))"

record aggregate =
  ag_totals :: metric_totals
  ag_currency :: "group_row list"
  ag_platform :: "group_row list"
  ag_client :: "group_row list"
  ag_account :: "group_row list"

definition aggregate_metric_rows :: "spend_row list \<Rightarrow> string option \<Rightarrow> aggregate" where
  "aggregate_metric_rows rows empty_currency =
     \<lparr>ag_totals = sum_metric_rows rows empty_currency, ag_currency = grouped sp_currency rows, ag_platform = grouped sp_platform rows,
      ag_client = grouped sp_client rows, ag_account = grouped sp_account rows\<rparr>"

text \<open>An account total, read as a row again.\<close>

definition account_total_row :: "group_row \<Rightarrow> spend_row" where
  "account_total_row g =
     \<lparr>sp_account = gr_key g, sp_client = sp_client (gr_first g), sp_name = sp_name (gr_first g), sp_platform = sp_platform (gr_first g),
      sp_currency = mt_currency (gr_totals g), sp_spend = map_option Flt (mt_spend (gr_totals g)),
      sp_impressions = mt_impressions (gr_totals g), sp_clicks = mt_clicks (gr_totals g),
      sp_conversions = Some (Flt (mt_conversions (gr_totals g)))\<rparr>"

section \<open>Exact sums\<close>

lemma decimal_sum_exact:
  assumes "\<And>x. x \<in> set xs \<Longrightarrow> cents x \<and> 0 \<le> x" "sum_list xs \<le> 10 ^ 26"
  shows "decimal_sum xs = sum_list xs"
  using assms
proof (induction xs rule: rev_induct)
  case (snoc x xs)
  have nn: "0 \<le> sum_list xs" "0 \<le> x" using snoc.prems(1) by (auto intro!: sum_list_nonneg)
  have "cents (sum_list xs + x)" using snoc.prems(1) by (intro cents_add cents_sum_list) auto
  moreover have "\<bar>sum_list xs + x\<bar> \<le> 10 ^ 26" using snoc.prems(2) nn by simp
  ultimately have "ctx28 (sum_list xs + x) = sum_list xs + x" by (rule ctx28_cents)
  moreover have "sum_list xs \<le> 10 ^ 26" using snoc.prems(2) nn(2) by simp
  then have "decimal_sum xs = sum_list xs" using snoc.prems(1) by (intro snoc.IH) auto
  ultimately show ?case by (simp add: decimal_sum_def dec_add_def)
qed (simp add: decimal_sum_def)

section \<open>The groups partition the rows\<close>

lemma collect_keys: "distinct (map fst gs) \<Longrightarrow> distinct (map fst (collect f gs rs))"
  by (induction rs arbitrary: gs) (simp_all add: distinct_update)

lemma map_of_collect:
  "map_of (collect f gs rs) k = (case map_of gs k of
     None \<Rightarrow> if k \<in> f ` set rs then Some (filter (\<lambda>r. f r = k) rs) else None
   | Some g \<Rightarrow> Some (g @ filter (\<lambda>r. f r = k) rs))"
proof (induction rs arbitrary: gs)
  case (Cons r rs)
  show ?case by (simp add: Cons.IH update_conv' split: option.split)
qed (auto split: option.split)

lemma collect_entries:
  "(k, g) \<in> set (collect f [] rs) \<longleftrightarrow> k \<in> f ` set rs \<and> g = filter (\<lambda>r. f r = k) rs"
  using map_of_eq_Some_iff [OF collect_keys [of "[]" f rs], of k g] by (auto simp: map_of_collect split: if_splits)

lemma sum_list_filter_split:
  "sum_list (map h (filter p xs)) + sum_list (map h (filter (\<lambda>x. \<not> p x) xs)) = (sum_list (map h xs) :: 'a::comm_monoid_add)"
  by (induction xs) (simp_all add: ac_simps)

text \<open>A sum over distinct keys of the sums of their rows is the sum over the rows with such a key.\<close>

lemma sum_over_keys:
  "distinct ks \<Longrightarrow> sum_list (map (\<lambda>k. sum_list (map h (filter (\<lambda>r. f r = k) rs))) ks)
     = (sum_list (map h (filter (\<lambda>r. f r \<in> set ks) rs)) :: 'a::comm_monoid_add)"
proof (induction ks)
  case (Cons k ks)
  let ?in = "filter (\<lambda>r. f r \<in> set (k # ks)) rs"
  have "filter (\<lambda>r. f r = k) ?in = filter (\<lambda>r. f r = k) rs"
    by (simp add: conj_commute cong: conj_cong)
  moreover have "filter (\<lambda>r. f r \<noteq> k) ?in = filter (\<lambda>r. f r \<in> set ks) rs"
    using Cons.prems by (auto intro!: filter_cong)
  ultimately show ?case using Cons sum_list_filter_split [of h "\<lambda>r. f r = k" ?in] by simp
qed simp

lemma sum_sort_key: "sum_list (map h (sort_key k xs)) = (sum_list (map h xs) :: 'a::comm_monoid_add)"
proof -
  have "mset (map h (sort_key k xs)) = mset (map h xs)" by simp
  then show ?thesis by (metis sum_mset_sum_list)
qed

section \<open>Aggregating account totals again\<close>

text \<open>A daily row has amounts of whole cents; an account has one client and one currency.\<close>

definition daily_row :: "spend_row \<Rightarrow> bool" where
  "daily_row r \<longleftrightarrow> (case sp_spend r of Some (Dec x) \<Rightarrow> cents x \<and> 0 \<le> x | _ \<Rightarrow> False)
     \<and> (case sp_conversions r of None \<Rightarrow> True | Some (Dec x) \<Rightarrow> cents x \<and> 0 \<le> x | _ \<Rightarrow> False)"

definition account_facts :: "spend_row list \<Rightarrow> bool" where
  "account_facts rows \<longleftrightarrow> (\<forall>r \<in> set rows. \<forall>r' \<in> set rows. sp_account r = sp_account r' \<longrightarrow>
     sp_client r = sp_client r' \<and> sp_currency r = sp_currency r')"

lemma daily_amounts:
  assumes "daily_row r"
  shows "cents (spend_of r)" "0 \<le> spend_of r" "cents (conversions_of r)" "0 \<le> conversions_of r" "sp_spend r \<noteq> None"
  using assms by (auto simp: daily_row_def spend_of_def conversions_of_def split: option.splits number.splits)

lemma daily_sums:
  assumes "list_all daily_row rows" "sum_list (map spend_of rows) < 10 ^ 13" "sum_list (map conversions_of rows) < 10 ^ 13"
  shows "decimal_sum (map spend_of rows) = sum_list (map spend_of rows)"
    "decimal_sum (map conversions_of rows) = sum_list (map conversions_of rows)"
    "float_decimal (float64 (sum_list (map spend_of rows))) = sum_list (map spend_of rows)"
    "float_decimal (float64 (sum_list (map conversions_of rows))) = sum_list (map conversions_of rows)"
    "0 \<le> sum_list (map spend_of rows)" "0 \<le> sum_list (map conversions_of rows)"
    "cents (sum_list (map spend_of rows))" "cents (sum_list (map conversions_of rows))"
proof -
  have d: "daily_row r" if "r \<in> set rows" for r using assms(1) that by (simp add: list_all_iff)
  show nn: "0 \<le> sum_list (map spend_of rows)" "0 \<le> sum_list (map conversions_of rows)"
    using daily_amounts [OF d] by (auto intro!: sum_list_nonneg)
  show c: "cents (sum_list (map spend_of rows))" "cents (sum_list (map conversions_of rows))"
    using daily_amounts [OF d] by (auto intro!: cents_sum_list)
  show "decimal_sum (map spend_of rows) = sum_list (map spend_of rows)"
    "decimal_sum (map conversions_of rows) = sum_list (map conversions_of rows)"
    using daily_amounts [OF d] assms(2,3) by (auto intro!: decimal_sum_exact)
  show "float_decimal (float64 (sum_list (map spend_of rows))) = sum_list (map spend_of rows)"
    "float_decimal (float64 (sum_list (map conversions_of rows))) = sum_list (map conversions_of rows)"
    using nn c assms(2,3) by (simp_all add: float_decimal_cents)
qed

lemma single_currency_eq:
  assumes "set (map sp_currency rows) = set (map sp_currency rows')"
  shows "single_currency rows = single_currency rows'"
proof -
  have one: "remdups (map sp_currency xs) = [c]" if "set (map sp_currency xs) = {c}" for xs c
  proof -
    have "set (remdups (map sp_currency xs)) = {c}" using that by simp
    moreover have "distinct (remdups (map sp_currency xs))" by simp
    ultimately show ?thesis by (cases "remdups (map sp_currency xs)") (auto simp: subset_singleton_iff)
  qed
  have other: "single_currency xs = None" if "\<nexists>c. set (map sp_currency xs) = {c}" for xs
    using that unfolding single_currency_def
    by (metis (no_types, lifting) list.case_eq_if list.collapse list.set(1,2) set_remdups)
  show ?thesis
  proof (cases "\<exists>c. set (map sp_currency rows) = {c}")
    case True
    then obtain c where "set (map sp_currency rows) = {c}" ..
    with one [of rows c] one [of rows' c] assms show ?thesis by (simp add: single_currency_def)
  next
    case False
    with other [of rows] other [of rows'] assms show ?thesis by simp
  qed
qed

lemma single_currency_const: "rows \<noteq> [] \<Longrightarrow> (\<And>r. r \<in> set rows \<Longrightarrow> sp_currency r = c) \<Longrightarrow> single_currency rows = c"
proof -
  assume ne: "rows \<noteq> []" and c: "\<And>r. r \<in> set rows \<Longrightarrow> sp_currency r = c"
  have "sp_currency ` set rows = {c}"
  proof
    show "sp_currency ` set rows \<subseteq> {c}" using c by auto
    have "sp_currency (hd rows) = c" "hd rows \<in> set rows" using ne c by simp_all
    then show "{c} \<subseteq> sp_currency ` set rows" by (metis empty_subsetI image_eqI insert_subset)
  qed
  moreover have "sp_currency (hd rows) = c" using ne c by simp
  ultimately have "single_currency rows = single_currency [hd rows]" by (intro single_currency_eq) simp
  with \<open>sp_currency (hd rows) = c\<close> show "single_currency rows = c" by (simp add: single_currency_def)
qed

lemma single_currency_SomeD: "single_currency rows = Some c \<Longrightarrow> set (map sp_currency rows) = {Some c}"
proof -
  assume "single_currency rows = Some c"
  then have "remdups (map sp_currency rows) = [Some c]" by (auto simp: single_currency_def split: list.splits)
  then show ?thesis using set_remdups [of "map sp_currency rows"] by (simp only: list.set)
qed

lemma sum_metric_rows_cong:
  assumes "rows = [] \<longleftrightarrow> rows' = []" "set (map sp_currency rows) = set (map sp_currency rows')"
    "single_currency rows' \<noteq> None \<Longrightarrow> (\<forall>r \<in> set rows. sp_spend r \<noteq> None) \<longleftrightarrow> (\<forall>r \<in> set rows'. sp_spend r \<noteq> None)"
    "single_currency rows' \<noteq> None \<Longrightarrow> decimal_sum (map spend_of rows) = decimal_sum (map spend_of rows')"
    "sum_list (map sp_impressions rows) = sum_list (map sp_impressions rows')"
    "sum_list (map sp_clicks rows) = sum_list (map sp_clicks rows')"
    "decimal_sum (map conversions_of rows) = decimal_sum (map conversions_of rows')"
  shows "sum_metric_rows rows e = sum_metric_rows rows' e"
proof (cases "rows' = []")
  case False
  have "single_currency rows = single_currency rows'" by (rule single_currency_eq) fact
  moreover have "rows \<noteq> []" using assms(1) False by simp
  moreover note False assms(3-7)
  ultimately show ?thesis
    by (cases "single_currency rows' \<noteq> None"; cases "\<forall>r \<in> set rows'. sp_spend r \<noteq> None")
      (simp_all only: sum_metric_rows_def Let_def if_True if_False simp_thms map_option_case)
qed (use assms(1) in simp)

definition total_row :: "string option \<times> spend_row list \<Rightarrow> spend_row" where
  "total_row e = account_total_row \<lparr>gr_key = fst e, gr_first = hd (snd e), gr_totals = public_metrics (sum_metric_rows (snd e) None)\<rparr>"

lemma account_total_simps [simp]:
  "sp_client (account_total_row g) = sp_client (gr_first g)"
  "sp_currency (account_total_row g) = mt_currency (gr_totals g)"
  "sp_spend (account_total_row g) = map_option Flt (mt_spend (gr_totals g))"
  "sp_impressions (account_total_row g) = mt_impressions (gr_totals g)"
  "sp_clicks (account_total_row g) = mt_clicks (gr_totals g)"
  "spend_of (account_total_row g) = (case mt_spend (gr_totals g) of None \<Rightarrow> 0 | Some f \<Rightarrow> float_decimal f)"
  "conversions_of (account_total_row g) = float_decimal (mt_conversions (gr_totals g))"
  by (simp_all add: account_total_row_def spend_of_def conversions_of_def split: option.split)

lemma total_row_amounts:
  assumes "snd e \<noteq> []" "list_all daily_row (snd e)" "sum_list (map spend_of (snd e)) < 10 ^ 13"
    "sum_list (map conversions_of (snd e)) < 10 ^ 13"
  shows "sp_spend (total_row e) = None \<longleftrightarrow> single_currency (snd e) = None"
    "single_currency (snd e) \<noteq> None \<Longrightarrow> spend_of (total_row e) = sum_list (map spend_of (snd e))"
    "conversions_of (total_row e) = sum_list (map conversions_of (snd e))"
    "sp_currency (total_row e) = single_currency (snd e)"
    "sp_impressions (total_row e) = sum_list (map sp_impressions (snd e))"
    "sp_clicks (total_row e) = sum_list (map sp_clicks (snd e))"
proof -
  have "\<forall>r \<in> set (snd e). sp_spend r \<noteq> None" using assms(2) daily_amounts(5) by (auto simp: list_all_iff)
  note facts = assms(1) this daily_sums [OF assms(2-4)]
    total_row_def public_metrics_def sum_metric_rows_def Let_def
  show "sp_spend (total_row e) = None \<longleftrightarrow> single_currency (snd e) = None"
    "single_currency (snd e) \<noteq> None \<Longrightarrow> spend_of (total_row e) = sum_list (map spend_of (snd e))"
    "conversions_of (total_row e) = sum_list (map conversions_of (snd e))"
    "sp_currency (total_row e) = single_currency (snd e)"
    "sp_impressions (total_row e) = sum_list (map sp_impressions (snd e))"
    "sp_clicks (total_row e) = sum_list (map sp_clicks (snd e))"
    by (simp_all add: facts)
qed

text \<open>The account totals that belong to some clients, and their groups.\<close>

definition totals_of_clients :: "(string option \<Rightarrow> bool) \<Rightarrow> spend_row list \<Rightarrow> spend_row list" where
  "totals_of_clients p rows = filter (\<lambda>r. p (sp_client r)) (map account_total_row (grouped sp_account rows))"

definition client_groups :: "(string option \<Rightarrow> bool) \<Rightarrow> spend_row list \<Rightarrow> (string option \<times> spend_row list) list" where
  "client_groups p rows = filter (\<lambda>e. p (sp_client (hd (snd e)))) (sort_key (\<lambda>e. group_text (fst e)) (collect sp_account [] rows))"

lemma totals_of_clients_eq: "totals_of_clients p rows = map total_row (client_groups p rows)"
  unfolding totals_of_clients_def grouped_def client_groups_def total_row_def case_prod_beta filter_map o_def map_map
  by simp

lemma account_factsD:
  "account_facts rows \<Longrightarrow> r \<in> set rows \<Longrightarrow> r' \<in> set rows \<Longrightarrow> sp_account r = sp_account r' \<Longrightarrow> sp_client r = sp_client r' \<and> sp_currency r = sp_currency r'"
  unfolding account_facts_def by blast

lemma client_group:
  assumes "account_facts rows" "e \<in> set (client_groups p rows)"
  shows "snd e = filter (\<lambda>r. sp_account r = fst e) (filter (\<lambda>r. p (sp_client r)) rows)" "snd e \<noteq> []"
    "r \<in> set (snd e) \<Longrightarrow> single_currency (snd e) = sp_currency r"
proof -
  from assms(2) have "e \<in> set (collect sp_account [] rows)" and p: "p (sp_client (hd (snd e)))" by (auto simp: client_groups_def)
  then have k: "fst e \<in> sp_account ` set rows" "snd e = filter (\<lambda>r. sp_account r = fst e) rows"
    using collect_entries [of "fst e" "snd e" sp_account rows] by simp_all
  then show ne: "snd e \<noteq> []" by (auto simp: filter_empty_conv)
  then have "hd (snd e) \<in> set (snd e)" by simp
  then have hd: "hd (snd e) \<in> set rows" "sp_account (hd (snd e)) = fst e" unfolding k(2) by auto
  note same = account_factsD [OF assms(1) _ hd(1), unfolded hd(2)]
  have "filter (\<lambda>r. sp_account r = fst e) rows = filter (\<lambda>r. p (sp_client r) \<and> sp_account r = fst e) rows"
    using same p by (intro filter_cong) auto
  then show "snd e = filter (\<lambda>r. sp_account r = fst e) (filter (\<lambda>r. p (sp_client r)) rows)" using k(2) by (simp add: conj_commute)
  have c: "sp_currency r = sp_currency (hd (snd e))" if "r \<in> set (snd e)" for r
  proof -
    from that have "r \<in> set rows" "sp_account r = fst e" unfolding k(2) by auto
    then show ?thesis using same by simp
  qed
  then have "single_currency (snd e) = sp_currency (hd (snd e))" by (rule single_currency_const [OF ne])
  then show "r \<in> set (snd e) \<Longrightarrow> single_currency (snd e) = sp_currency r" using c by simp
qed

lemma client_groups_distinct: "distinct (map fst (client_groups p rows))"
proof -
  have "distinct (map fst (collect sp_account [] rows))" by (rule collect_keys) simp
  then have "distinct (map fst (sort_key (\<lambda>e. group_text (fst e)) (collect sp_account [] rows)))"
    by (metis distinct_map distinct_sort set_sort)
  then show ?thesis unfolding client_groups_def by (rule distinct_map_filter)
qed

lemma client_groups_cover:
  assumes "account_facts rows" "r \<in> set rows" "p (sp_client r)"
  shows "\<exists>e \<in> set (client_groups p rows). fst e = sp_account r \<and> r \<in> set (snd e)"
proof -
  let ?e = "(sp_account r, filter (\<lambda>x. sp_account x = sp_account r) rows)"
  have "?e \<in> set (collect sp_account [] rows)" using collect_entries [of "sp_account r"] assms(2) by auto
  moreover have "hd (snd ?e) \<in> set (snd ?e)" using assms(2) by (intro hd_in_set) (auto simp: filter_empty_conv)
  then have "p (sp_client (hd (snd ?e)))" using account_factsD [OF assms(1,2), of "hd (snd ?e)"] assms(3) by auto
  ultimately have "?e \<in> set (client_groups p rows)" by (simp add: client_groups_def)
  then show ?thesis by (rule bexI [rotated]) (use assms(2) in simp)
qed

lemma client_groups_sum:
  assumes "account_facts rows"
  shows "sum_list (map (\<lambda>e. sum_list (map h (snd e))) (client_groups p rows))
    = (sum_list (map h (filter (\<lambda>r. p (sp_client r)) rows)) :: 'a::comm_monoid_add)"
proof -
  let ?rows = "filter (\<lambda>r. p (sp_client r)) rows" and ?gs = "client_groups p rows"
  have "map (\<lambda>e. sum_list (map h (snd e))) ?gs = map (\<lambda>e. sum_list (map h (filter (\<lambda>r. sp_account r = fst e) ?rows))) ?gs"
    using client_group(1) [OF assms] by (intro map_cong refl) metis
  then have "sum_list (map (\<lambda>e. sum_list (map h (snd e))) ?gs)
      = sum_list (map (\<lambda>k. sum_list (map h (filter (\<lambda>r. sp_account r = k) ?rows))) (map fst ?gs))"
    by (simp only: map_map o_def)
  also have "\<dots> = sum_list (map h (filter (\<lambda>r. sp_account r \<in> set (map fst ?gs)) ?rows))"
    by (rule sum_over_keys [OF client_groups_distinct])
  also have "filter (\<lambda>r. sp_account r \<in> set (map fst ?gs)) ?rows = ?rows"
    using client_groups_cover [OF assms] by (intro filter_True) force
  finally show ?thesis .
qed

theorem reaggregated:
  assumes "list_all daily_row rows" "account_facts rows"
    "sum_list (map spend_of (filter (\<lambda>r. p (sp_client r)) rows)) < 10 ^ 13"
    "sum_list (map conversions_of (filter (\<lambda>r. p (sp_client r)) rows)) < 10 ^ 13"
  shows "sum_metric_rows (totals_of_clients p rows) e = sum_metric_rows (filter (\<lambda>r. p (sp_client r)) rows) e"
proof -
  let ?rows = "filter (\<lambda>r. p (sp_client r)) rows" and ?gs = "client_groups p rows"
  note group = client_group [OF assms(2)] and sum = client_groups_sum [OF assms(2)]
  have daily: "list_all daily_row ?rows" using assms(1) by (simp add: list_all_iff)
  have sub: "set (snd g) \<subseteq> set ?rows" if "g \<in> set ?gs" for g using group(1) [OF that] by auto
  have part: "sum_list (map h (snd g)) \<le> sum_list (map h ?rows)"
    if "g \<in> set ?gs" "\<And>r. daily_row r \<Longrightarrow> 0 \<le> h r" for g and h :: "spend_row \<Rightarrow> rat"
  proof -
    have "0 \<le> sum_list (map h (filter (\<lambda>r. sp_account r \<noteq> fst g) ?rows))"
      using daily that(2) by (intro sum_list_nonneg) (auto simp: list_all_iff)
    then show ?thesis using sum_list_filter_split [of h "\<lambda>r. sp_account r = fst g" ?rows] group(1) [OF that(1)] by simp
  qed
  have amounts: "snd g \<noteq> []" "list_all daily_row (snd g)" "sum_list (map spend_of (snd g)) < 10 ^ 13"
    "sum_list (map conversions_of (snd g)) < 10 ^ 13" if "g \<in> set ?gs" for g
    using group(2) [OF that] daily sub [OF that] part [OF that, of spend_of] part [OF that, of conversions_of] assms(3,4)
      daily_amounts(2,4) by (auto simp: list_all_iff intro: le_less_trans)
  note row = total_row_amounts [OF amounts]
  have cur: "set (map sp_currency (map total_row ?gs)) = set (map sp_currency ?rows)"
  proof (intro equalityI subsetI)
    fix c assume "c \<in> set (map sp_currency (map total_row ?gs))"
    then obtain g where g: "g \<in> set ?gs" "c = single_currency (snd g)" using row(4) by auto
    then have "hd (snd g) \<in> set ?rows" "c = sp_currency (hd (snd g))"
      using group(3) [OF g(1), of "hd (snd g)"] sub [OF g(1)] hd_in_set [OF group(2) [OF g(1)]] by auto
    then show "c \<in> set (map sp_currency ?rows)" by auto
  next
    fix c assume "c \<in> set (map sp_currency ?rows)"
    then obtain r where r: "r \<in> set rows" "p (sp_client r)" "c = sp_currency r" by auto
    obtain g where g: "g \<in> set ?gs" "r \<in> set (snd g)" using client_groups_cover [OF assms(2) r(1), of p] r(2) by blast
    then have "c = sp_currency (total_row g)" using group(3) [OF g] row(4) [OF g(1)] r(3) by simp
    with g(1) show "c \<in> set (map sp_currency (map total_row ?gs))" by auto
  qed
  show ?thesis
    unfolding totals_of_clients_eq
  proof (rule sum_metric_rows_cong)
    show "map total_row ?gs = [] \<longleftrightarrow> ?rows = []" using cur by (metis list.map_disc_iff set_empty)
    show "set (map sp_currency (map total_row ?gs)) = set (map sp_currency ?rows)" by (rule cur)
    show "sum_list (map sp_impressions (map total_row ?gs)) = sum_list (map sp_impressions ?rows)"
      using sum [of sp_impressions p] row(5) by (simp add: o_def cong: map_cong)
    show "sum_list (map sp_clicks (map total_row ?gs)) = sum_list (map sp_clicks ?rows)"
      using sum [of sp_clicks p] row(6) by (simp add: o_def cong: map_cong)
    have eq: "map conversions_of (map total_row ?gs) = map (\<lambda>g. sum_list (map conversions_of (snd g))) ?gs" using row(3) by simp
    show "decimal_sum (map conversions_of (map total_row ?gs)) = decimal_sum (map conversions_of ?rows)"
      unfolding eq daily_sums(2) [OF daily assms(3,4)] sum [symmetric]
      using sum [of conversions_of p] assms(4) daily_sums(6,8) [OF amounts(2-4)] by (intro decimal_sum_exact) auto
  next
    assume one: "single_currency ?rows \<noteq> None"
    then have cg: "single_currency (snd g) = single_currency ?rows" if "g \<in> set ?gs" for g
    proof -
      obtain c where c: "single_currency ?rows = Some c" using one by blast
      have "hd (snd g) \<in> set (snd g)" using group(2) [OF that] by simp
      then have "single_currency (snd g) \<in> set (map sp_currency ?rows)" using group(3) [OF that] sub [OF that] by auto
      then show ?thesis unfolding single_currency_SomeD [OF c] c by simp
    qed
    show "(\<forall>r \<in> set (map total_row ?gs). sp_spend r \<noteq> None) \<longleftrightarrow> (\<forall>r \<in> set ?rows. sp_spend r \<noteq> None)"
      using row(1) cg one daily daily_amounts(5) by (auto simp: list_all_iff)
    have eq: "map spend_of (map total_row ?gs) = map (\<lambda>g. sum_list (map spend_of (snd g))) ?gs" using row(2) cg one by simp
    show "decimal_sum (map spend_of (map total_row ?gs)) = decimal_sum (map spend_of ?rows)"
      unfolding eq daily_sums(1) [OF daily assms(3,4)] sum [symmetric]
      using sum [of spend_of p] assms(3) daily_sums(5,7) [OF amounts(2-4)] by (intro decimal_sum_exact) auto
  qed
qed

end
