(* ===== verification/Statistics.thy ===== *)
theory Statistics
  imports Accounts_Laws Dictionaries Aggregation "HOL-Library.Product_Lexorder"
begin

text \<open>
  Daily statistics: \<open>SqliteAdStatsStore\<close> and \<open>InMemoryAdStatsStore\<close> of \<open>app/services/ad_stats.py\<close>,
  over the accounts of \<open>Accounts\<close>.  A \<open>NUMERIC\<close> column holds the double nearest to the decimal
  text it is given.  The digest of a payload is an argument, a function of its rows in canonical
  order; ids and dates are ordered as their texts are.
\<close>

section \<open>Data\<close>

record stat_write =
  sw_account :: uuid
  sw_date :: date
  sw_platform :: string
  sw_impressions :: int
  sw_clicks :: int
  sw_spend :: rat
  sw_conversions :: "rat option"

record stat =
  st_id :: uuid
  st_account :: uuid
  st_date :: date
  st_platform :: string
  st_impressions :: int
  st_clicks :: int
  st_spend :: rat
  st_conversions :: "rat option"
  st_created :: timestamp
  st_updated :: timestamp

text \<open>The validation of \<open>AdStatWrite\<close>: amounts of at most 14 digits, two of them decimals.\<close>

definition stat_amount_ok :: "rat \<Rightarrow> bool" where
  "stat_amount_ok x \<longleftrightarrow> 0 \<le> x \<and> cents x \<and> x < 10 ^ 12"

definition make_stat_write :: "stat_write \<Rightarrow> stat_write option" where
  "make_stat_write raw =
     (let platform = str_lower (str_strip (sw_platform raw)) in
      if platform \<noteq> [] \<and> 0 \<le> sw_impressions raw \<and> 0 \<le> sw_clicks raw \<and> stat_amount_ok (sw_spend raw)
         \<and> (case sw_conversions raw of None \<Rightarrow> True | Some c \<Rightarrow> stat_amount_ok c)
      then Some (raw\<lparr>sw_platform := platform\<rparr>) else None)"

definition valid_write :: "stat_write \<Rightarrow> bool" where
  "valid_write w \<longleftrightarrow> (\<exists>raw. make_stat_write raw = Some w)"

datatype stat_error =
    StatAccountMissing uuid
  | PlatformMismatch uuid string string
  | KeyReused
  | IntegerOverflow
  | DuplicateStatId

record ingest_response =
  ig_inserted :: nat
  ig_updated :: nat
  ig_total :: nat
  ig_idempotency :: "(string \<times> bool) option"

section \<open>Validation against the accounts\<close>

definition validate_row_account :: "account_db \<Rightarrow> stat_write \<Rightarrow> stat_error option" where
  "validate_row_account acc row =
     (case sql_account_get (sw_account row) acc of
        None \<Rightarrow> Some (StatAccountMissing (sw_account row))
      | Some a \<Rightarrow> raise_if (str_lower (str_strip (ac_platform a)) \<noteq> sw_platform row)
          (PlatformMismatch (ac_id a) (ac_platform a) (sw_platform row)))"

definition stat_key :: "stat \<Rightarrow> uuid \<times> date \<times> string" where
  "stat_key s = (st_account s, st_date s, st_platform s)"

definition write_key :: "stat_write \<Rightarrow> uuid \<times> date \<times> string" where
  "write_key w = (sw_account w, sw_date w, sw_platform w)"

definition payload_hash :: "(stat_write list \<Rightarrow> string) \<Rightarrow> stat_write list \<Rightarrow> string" where
  "payload_hash digest rows = digest (sort_key write_key rows)"

text \<open>An empty key is no key.\<close>

definition given_key :: "string option \<Rightarrow> string option" where
  "given_key key = (case key of None \<Rightarrow> None | Some k \<Rightarrow> if k = [] then None else Some k)"

section \<open>The SQL store\<close>

record stat_db =
  sd_stats :: "stat list"
  sd_idem :: "(string \<times> string \<times> ingest_response) list"

definition max_int64 :: int where "max_int64 = 2 ^ 63 - 1"

definition to_stat :: "stat \<Rightarrow> stat" where
  "to_stat r = r\<lparr>st_spend := q_money (float_decimal (st_spend r)),
     st_conversions := map_option (\<lambda>c. q_money (float_decimal c)) (st_conversions r)\<rparr>"

definition stat_values :: "stat_write \<Rightarrow> timestamp \<Rightarrow> stat \<Rightarrow> stat" where
  "stat_values w now r = r\<lparr>st_impressions := sw_impressions w, st_clicks := sw_clicks w, st_spend := float64 (q_money (sw_spend w)),
     st_conversions := map_option (\<lambda>c. float64 (q_money c)) (sw_conversions w), st_updated := now\<rparr>"

definition new_stat :: "stat_write \<Rightarrow> uuid \<Rightarrow> timestamp \<Rightarrow> stat" where
  "new_stat w i now = \<lparr>st_id = i, st_account = sw_account w, st_date = sw_date w, st_platform = sw_platform w,
     st_impressions = sw_impressions w, st_clicks = sw_clicks w, st_spend = float64 (q_money (sw_spend w)),
     st_conversions = map_option (\<lambda>c. float64 (q_money c)) (sw_conversions w), st_created = now, st_updated = now\<rparr>"

definition sql_upsert :: "account_db \<Rightarrow> timestamp \<Rightarrow> uuid \<Rightarrow> stat_write \<Rightarrow> stat list \<Rightarrow> stat_error + bool \<times> stat list" where
  "sql_upsert acc now i w stats =
     (case validate_row_account acc w of
        Some e \<Rightarrow> Inl e
      | None \<Rightarrow> if sw_impressions w > max_int64 \<or> sw_clicks w > max_int64 then Inl IntegerOverflow
          else (case find (\<lambda>s. stat_key s = write_key w) stats of
            Some old \<Rightarrow> Inr (True, update_rows (\<lambda>s. st_id s = st_id old) (stat_values w now) stats)
          | None \<Rightarrow> if i \<in> st_id ` set stats then Inl DuplicateStatId else Inr (False, stats @ [new_stat w i now])))"

text \<open>The rows in order, with the counters \<open>inserted\<close> and \<open>updated\<close>; \<open>ids\<close> are the ids generated row by row.\<close>

fun sql_ingest_rows ::
  "account_db \<Rightarrow> timestamp \<Rightarrow> (nat \<Rightarrow> uuid) \<Rightarrow> nat \<Rightarrow> stat_write list \<Rightarrow> nat \<times> nat \<Rightarrow> stat list \<Rightarrow> stat_error + (nat \<times> nat) \<times> stat list" where
  "sql_ingest_rows acc now ids n [] counts stats = Inr (counts, stats)"
| "sql_ingest_rows acc now ids n (w # ws) (ins, upd) stats =
     (case sql_upsert acc now (ids n) w stats of
        Inl e \<Rightarrow> Inl e
      | Inr (existed, stats') \<Rightarrow>
          sql_ingest_rows acc now ids (Suc n) ws (if existed then (ins, upd + 1) else (ins + 1, upd)) stats')"

definition ingest_reply :: "nat \<times> nat \<Rightarrow> string option \<Rightarrow> ingest_response" where
  "ingest_reply counts key = \<lparr>ig_inserted = fst counts, ig_updated = snd counts, ig_total = fst counts + snd counts,
     ig_idempotency = map_option (\<lambda>k. (k, False)) key\<rparr>"

definition replayed :: "string \<Rightarrow> ingest_response \<Rightarrow> ingest_response" where
  "replayed key r = r\<lparr>ig_idempotency := Some (key, True)\<rparr>"

definition sql_ingest ::
  "(stat_write list \<Rightarrow> string) \<Rightarrow> account_db \<Rightarrow> timestamp \<Rightarrow> (nat \<Rightarrow> uuid) \<Rightarrow> stat_write list \<Rightarrow> string option \<Rightarrow> stat_db
     \<Rightarrow> stat_error + ingest_response \<times> stat_db" where
  "sql_ingest digest acc now ids rows key db =
     (let hash = payload_hash digest rows; key = given_key key in
      case Option.bind key (map_of (sd_idem db)) of
        Some (h, prev) \<Rightarrow> if h \<noteq> hash then Inl KeyReused else Inr (replayed (the key) prev, db)
      | None \<Rightarrow>
          (case sql_ingest_rows acc now ids 0 rows (0, 0) (sd_stats db) of
             Inl e \<Rightarrow> Inl e
           | Inr (counts, stats) \<Rightarrow>
               (let response = ingest_reply counts key in
                Inr (response, \<lparr>sd_stats = stats,
                  sd_idem = sd_idem db @ (case key of None \<Rightarrow> [] | Some k \<Rightarrow> [(k, hash, response)])\<rparr>))))"

section \<open>The in-memory store\<close>

record stat_mem =
  sm_items :: "((uuid \<times> date \<times> string) \<times> stat) list"
  sm_idem :: "(string \<times> string \<times> ingest_response) list"

definition mem_stat_values :: "stat_write \<Rightarrow> timestamp \<Rightarrow> stat \<Rightarrow> stat" where
  "mem_stat_values w now r = r\<lparr>st_impressions := sw_impressions w, st_clicks := sw_clicks w, st_spend := q_money (sw_spend w),
     st_conversions := map_option q_money (sw_conversions w), st_updated := now\<rparr>"

definition mem_new_stat :: "stat_write \<Rightarrow> uuid \<Rightarrow> timestamp \<Rightarrow> stat" where
  "mem_new_stat w i now = \<lparr>st_id = i, st_account = sw_account w, st_date = sw_date w, st_platform = sw_platform w,
     st_impressions = sw_impressions w, st_clicks = sw_clicks w, st_spend = q_money (sw_spend w),
     st_conversions = map_option q_money (sw_conversions w), st_created = now, st_updated = now\<rparr>"

text \<open>A failing row leaves the rows before it in the dictionary.\<close>

fun mem_ingest_rows ::
  "account_db \<Rightarrow> (nat \<Rightarrow> timestamp) \<Rightarrow> (nat \<Rightarrow> uuid) \<Rightarrow> nat \<Rightarrow> stat_write list \<Rightarrow> nat \<times> nat
     \<Rightarrow> ((uuid \<times> date \<times> string) \<times> stat) list \<Rightarrow> (stat_error + nat \<times> nat) \<times> ((uuid \<times> date \<times> string) \<times> stat) list" where
  "mem_ingest_rows acc clock ids n [] counts items = (Inr counts, items)"
| "mem_ingest_rows acc clock ids n (w # ws) (ins, upd) items =
     (case validate_row_account acc w of
        Some e \<Rightarrow> (Inl e, items)
      | None \<Rightarrow>
          (case map_of items (write_key w) of
             Some prev \<Rightarrow> mem_ingest_rows acc clock ids (Suc n) ws (ins, upd + 1) (AList.update (write_key w) (mem_stat_values w (clock n) prev) items)
           | None \<Rightarrow> mem_ingest_rows acc clock ids (Suc n) ws (ins + 1, upd) (AList.update (write_key w) (mem_new_stat w (ids n) (clock n)) items)))"

definition mem_ingest ::
  "(stat_write list \<Rightarrow> string) \<Rightarrow> account_db \<Rightarrow> (nat \<Rightarrow> timestamp) \<Rightarrow> (nat \<Rightarrow> uuid) \<Rightarrow> stat_write list \<Rightarrow> string option \<Rightarrow> stat_mem
     \<Rightarrow> (stat_error + ingest_response) \<times> stat_mem" where
  "mem_ingest digest acc clock ids rows key s =
     (let hash = payload_hash digest rows; key = given_key key in
      case Option.bind key (map_of (sm_idem s)) of
        Some (h, prev) \<Rightarrow> if h \<noteq> hash then (Inl KeyReused, s) else (Inr (replayed (the key) prev), s)
      | None \<Rightarrow>
          (case mem_ingest_rows acc clock ids 0 rows (0, 0) (sm_items s) of
             (Inl e, items) \<Rightarrow> (Inl e, s\<lparr>sm_items := items\<rparr>)
           | (Inr counts, items) \<Rightarrow>
               (let response = ingest_reply counts key in
                (Inr response, \<lparr>sm_items = items,
                  sm_idem = (case key of None \<Rightarrow> sm_idem s | Some k \<Rightarrow> AList.update k (hash, response) (sm_idem s))\<rparr>))))"

section \<open>Listing\<close>

record stat_filter =
  sf_client :: "uuid option"
  sf_account :: "uuid option"
  sf_platform :: "string option"
  sf_from :: "date option"
  sf_to :: "date option"

definition explicit_historical :: "account_db \<Rightarrow> uuid option \<Rightarrow> uuid option \<Rightarrow> bool" where
  "explicit_historical acc client_id account_id =
     (let account = Option.bind account_id (\<lambda>i. sql_account_get i acc) in
      case account of
        Some a \<Rightarrow> ac_status a \<noteq> RActive \<or> (case sql_client_get (ac_client a) acc of None \<Rightarrow> False | Some c \<Rightarrow> cl_status c \<noteq> RActive)
      | None \<Rightarrow> (case client_id of None \<Rightarrow> False
          | Some i \<Rightarrow> (case sql_client_get i acc of None \<Rightarrow> False | Some c \<Rightarrow> cl_status c \<noteq> RActive)))"

text \<open>\<open>_active_parent_client_ids\<close>.\<close>

definition active_parents :: "account_db \<Rightarrow> uuid list" where
  "active_parents acc = map cl_id (sql_client_list (OnlyStatus RActive) acc)"

text \<open>An optional filter that is not given, or is an empty text, does not filter.\<close>

definition given :: "'a option \<Rightarrow> ('a \<Rightarrow> bool) \<Rightarrow> bool" where
  "given x p \<longleftrightarrow> (case x of None \<Rightarrow> True | Some v \<Rightarrow> p v)"

definition in_range :: "stat_filter \<Rightarrow> stat \<Rightarrow> bool" where
  "in_range f s \<longleftrightarrow> given (given_key (sf_platform f)) (\<lambda>p. st_platform s = p)
     \<and> given (sf_from f) (\<lambda>d. d \<le> st_date s) \<and> given (sf_to f) (\<lambda>d. st_date s \<le> d)"

definition sql_stat_list :: "account_db \<Rightarrow> stat_filter \<Rightarrow> stat_db \<Rightarrow> stat list" where
  "sql_stat_list acc f db =
     (let historical = explicit_historical acc (sf_client f) (sf_account f);
          joined = (\<lambda>s. \<exists>a \<in> set (ad_accounts acc). ac_id a = st_account s \<and> given (sf_client f) (\<lambda>c. ac_client a = c)
            \<and> (historical \<or> ac_status a = RActive \<and> client_active acc (ac_client a)));
          rows = sort_desc (\<lambda>s. (st_date s, st_updated s))
            (filter (\<lambda>s. joined s \<and> given (sf_account f) (\<lambda>i. st_account s = i) \<and> in_range f s) (sd_stats db))
      in map to_stat (filter (\<lambda>s. st_account s \<notin> set (active_assignment_conflict_ids acc)) rows))"

definition mem_stat_list :: "account_db \<Rightarrow> stat_filter \<Rightarrow> stat_mem \<Rightarrow> stat list" where
  "mem_stat_list acc f s =
     (let rows = map snd (sm_items s);
          eligible = map ac_id (filter (\<lambda>a. ac_client a \<in> set (active_parents acc)) (sql_account_list None (OnlyStatus RActive) acc));
          rows = (if explicit_historical acc (sf_client f) (sf_account f) then rows else filter (\<lambda>s. st_account s \<in> set eligible) rows);
          rows = filter (\<lambda>s. given (sf_client f) (\<lambda>c. case sql_account_get (st_account s) acc of None \<Rightarrow> False | Some a \<Rightarrow> ac_client a = c)) rows;
          rows = filter (\<lambda>s. given (sf_account f) (\<lambda>i. st_account s = i)) rows;
          rows = sort_desc (\<lambda>s. (st_date s, st_updated s)) (filter (in_range f) rows)
      in filter (\<lambda>s. st_account s \<notin> set (active_assignment_conflict_ids acc)) rows)"

end
