(* ===== verification/Statistics_Views.thy ===== *)
theory Statistics_Views
  imports Statistics
begin

text \<open>
  The aggregates of the statistics stores with their data quality: the second half of
  \<open>app/services/ad_stats.py\<close>.
\<close>

section \<open>Data quality\<close>

datatype quality_status = Fresh | Stale | Partial | Insufficient

record data_quality =
  dq_status :: quality_status
  dq_rows_present :: bool
  dq_row_count :: nat
  dq_latest :: "date option"
  dq_stale_days :: "int option"
  dq_stale_after :: int
  dq_stale_accounts :: nat
  dq_active_accounts :: nat
  dq_with_data :: nat
  dq_without_data :: nat
  dq_coverage :: rat

text \<open>\<open>AD_STATS_STALE_AFTER_DAYS\<close> as \<open>int\<close> reads it, \<open>None\<close> when it does not.\<close>

definition stale_after_days :: "int option \<Rightarrow> int" where
  "stale_after_days setting = (case setting of None \<Rightarrow> 3 | Some n \<Rightarrow> max 1 n)"

fun latest_by_account :: "(uuid \<times> date) list \<Rightarrow> stat list \<Rightarrow> (uuid \<times> date) list" where
  "latest_by_account m [] = m"
| "latest_by_account m (r # rs) = latest_by_account (case map_of m (st_account r) of
       None \<Rightarrow> AList.update (st_account r) (st_date r) m
     | Some d \<Rightarrow> if st_date r > d then AList.update (st_account r) (st_date r) m else m) rs"

definition least_of :: "'a::linorder list \<Rightarrow> 'a option" where
  "least_of xs = (case xs of [] \<Rightarrow> None | x # xs \<Rightarrow> Some (fold min xs x))"

definition greatest_of :: "'a::linorder list \<Rightarrow> 'a option" where
  "greatest_of xs = (case xs of [] \<Rightarrow> None | x # xs \<Rightarrow> Some (fold max xs x))"

text \<open>\<open>round(x, 2)\<close> of a double: the nearest decimal with two places, ties to even, as a double.\<close>

definition round2 :: "rat \<Rightarrow> rat" where
  "round2 x = float64 (of_int (round_half_even (x * 100)) / 100)"

definition coverage_percent :: "nat \<Rightarrow> nat \<Rightarrow> bool \<Rightarrow> rat" where
  "coverage_percent with_data active present =
     (if active \<noteq> 0 then round2 (float64 (float64 (of_nat with_data / of_nat active) * 100))
      else if present then 100 else 0)"

definition quality_of :: "int option \<Rightarrow> date \<Rightarrow> stat list \<Rightarrow> uuid list \<Rightarrow> data_quality" where
  "quality_of setting as_of rows scope =
     (let relevant = filter (\<lambda>r. st_account r \<in> set scope) rows;
          latest = latest_by_account [] relevant;
          active = length (remdups scope);
          with_data = length latest;
          present = (relevant \<noteq> []);
          after = stale_after_days setting;
          days = map (\<lambda>e. max 0 (as_of - snd e)) latest;
          stale = length (filter (\<lambda>d. d > after) days)
      in \<lparr>dq_status = (if \<not> present then Insufficient else if active \<noteq> 0 \<and> with_data < active then Partial
                       else if stale \<noteq> 0 then Stale else Fresh),
          dq_rows_present = present, dq_row_count = length relevant, dq_latest = least_of (map snd latest),
          dq_stale_days = greatest_of days, dq_stale_after = after, dq_stale_accounts = stale, dq_active_accounts = active,
          dq_with_data = with_data, dq_without_data = active - with_data, dq_coverage = coverage_percent with_data active present\<rparr>)"

section \<open>Aggregates of a store\<close>

definition accounts_for_scope :: "account_db \<Rightarrow> stat_filter \<Rightarrow> account list" where
  "accounts_for_scope acc f =
     (let historical = explicit_historical acc (sf_client f) (sf_account f);
          accounts = sql_account_list None (if historical then AllStatus else OnlyStatus RActive) acc;
          accounts = (if historical then accounts else filter (\<lambda>a. ac_client a \<in> set (active_parents acc)) accounts);
          accounts = filter (\<lambda>a. given (sf_client f) (\<lambda>c. ac_client a = c)) accounts;
          accounts = filter (\<lambda>a. given (sf_account f) (\<lambda>i. ac_id a = i)) accounts;
          accounts = filter (\<lambda>a. given (given_key (sf_platform f)) (\<lambda>p. ac_platform a = p)) accounts
      in filter (\<lambda>a. ac_id a \<notin> set (active_assignment_conflict_ids acc)) accounts)"

definition empty_scope_currency :: "account_db \<Rightarrow> account list \<Rightarrow> uuid option \<Rightarrow> string option" where
  "empty_scope_currency acc scope client_id =
     (case remdups (map ac_currency scope) of
        [c] \<Rightarrow> Some c
      | _ \<Rightarrow> if scope = [] then Option.bind client_id (\<lambda>i. map_option cl_currency (sql_client_get i acc)) else None)"

definition stat_metric_row :: "account_db \<Rightarrow> stat \<Rightarrow> spend_row" where
  "stat_metric_row acc s =
     (let account = find (\<lambda>a. ac_id a = st_account s) (sql_account_list None AllStatus acc) in
      \<lparr>sp_account = Some (str_uuid (st_account s)), sp_client = map_option (\<lambda>a. str_uuid (ac_client a)) account,
       sp_name = map_option ac_name account, sp_platform = Some (st_platform s), sp_currency = map_option ac_currency account,
       sp_spend = Some (Dec (st_spend s)), sp_impressions = st_impressions s, sp_clicks = st_clicks s,
       sp_conversions = map_option Dec (st_conversions s)\<rparr>)"

definition aggregate_rows :: "int option \<Rightarrow> account_db \<Rightarrow> stat_filter \<Rightarrow> date \<Rightarrow> stat list \<Rightarrow> data_quality \<times> aggregate" where
  "aggregate_rows setting acc f as_of rows =
     (let scope = accounts_for_scope acc f in
      (quality_of setting as_of rows (map ac_id scope),
       aggregate_metric_rows (map (stat_metric_row acc) rows) (empty_scope_currency acc scope (sf_client f))))"

text \<open>\<open>as_of_date or _utcnow().date()\<close>\<close>

definition as_of_or_today :: "date option \<Rightarrow> date \<Rightarrow> date" where
  "as_of_or_today as_of today = (case as_of of None \<Rightarrow> today | Some d \<Rightarrow> d)"

definition sql_stat_aggregate ::
  "int option \<Rightarrow> account_db \<Rightarrow> stat_filter \<Rightarrow> date option \<Rightarrow> date \<Rightarrow> stat_db \<Rightarrow> data_quality \<times> aggregate" where
  "sql_stat_aggregate setting acc f as_of today db = aggregate_rows setting acc f (as_of_or_today as_of today) (sql_stat_list acc f db)"

definition mem_stat_aggregate ::
  "int option \<Rightarrow> account_db \<Rightarrow> stat_filter \<Rightarrow> date option \<Rightarrow> date \<Rightarrow> stat_mem \<Rightarrow> data_quality \<times> aggregate" where
  "mem_stat_aggregate setting acc f as_of today s = aggregate_rows setting acc f (as_of_or_today as_of today) (mem_stat_list acc f s)"

end
