(* ===== verification/Overview.thy ===== *)
theory Overview
  imports Statistics_Views Budget_Sqlite Budget_Metrics
begin

text \<open>
  The dashboard and agency overviews of \<open>app/services/overview.py\<close>: the aggregates of the
  statistics, compared with the effective budget.  Ids in an overview are texts, amounts doubles.
\<close>

section \<open>The overviews\<close>

datatype no_budget_reason = MixedCurrencies | CurrencyMismatch

record budget_summary =
  bs_currency :: "string option"
  bs_unavailable :: "no_budget_reason option"
  bs_budget :: "rat option"
  bs_spend :: "rat option"
  bs_remaining :: "rat option"
  bs_usage :: "rat option"
  bs_expected :: "rat option"
  bs_forecast :: "rat option"
  bs_pace :: "pace option"
  bs_delta :: "rat option"
  bs_delta_percent :: "rat option"
  bs_source :: "budget_scope option"
  bs_budget_id :: "string option"

record overview =
  ov_as_of :: date
  ov_client :: "string option"
  ov_account :: "string option"
  ov_quality :: data_quality
  ov_spend :: metric_totals
  ov_currencies :: "group_row list"
  ov_budget :: budget_summary
  ov_platforms :: "group_row list"
  ov_accounts :: "group_row list"

record overview_query =
  oq_from :: date
  oq_to :: date
  oq_client :: "uuid option"
  oq_account :: "uuid option"
  oq_as_of :: "date option"

definition overview_client :: "account_db \<Rightarrow> overview_query \<Rightarrow> uuid option" where
  "overview_client acc q = (case (oq_account q, oq_client q) of
     (Some i, None) \<Rightarrow> map_option Accounts.ac_client (sql_account_get i acc) | _ \<Rightarrow> oq_client q)"

definition budget_unavailable :: "metric_totals \<Rightarrow> budget option \<Rightarrow> no_budget_reason option" where
  "budget_unavailable totals b =
     (if mt_spend totals = None then Some MixedCurrencies
      else case (b, mt_currency totals) of
        (Some x, Some c) \<Rightarrow> if c \<noteq> [] \<and> b_currency x \<noteq> c then Some CurrencyMismatch else None
      | _ \<Rightarrow> None)"

definition summary_of :: "metric_totals \<Rightarrow> no_budget_reason option \<Rightarrow> budget option \<Rightarrow> financial_metrics \<Rightarrow> budget_summary" where
  "summary_of totals reason b m =
     \<lparr>bs_currency = mt_currency totals, bs_unavailable = reason, bs_budget = map_option float64 (fm_budget m),
      bs_spend = (if mt_spend totals \<noteq> None then Some (float64 (fm_spend m)) else None),
      bs_remaining = map_option float64 (fm_remaining m), bs_usage = map_option float64 (fm_usage_percent m),
      bs_expected = map_option float64 (fm_expected m), bs_forecast = map_option float64 (fm_forecast m), bs_pace = fm_pace m,
      bs_delta = map_option float64 (fm_pace_delta m), bs_delta_percent = map_option float64 (fm_pace_delta_percent m),
      bs_source = map_option (\<lambda>x. if b_account x \<noteq> None then AccountScope else ClientScope) b,
      bs_budget_id = map_option (\<lambda>x. str_uuid (b_id x)) b\<rparr>"

definition dashboard_overview ::
  "int option \<Rightarrow> account_db \<Rightarrow> stat_db \<Rightarrow> budget_db \<Rightarrow> date \<Rightarrow> overview_query \<Rightarrow> overview" where
  "dashboard_overview setting acc stats bud today q =
     (let as_of = as_of_or_today (oq_as_of q) today; client_id = overview_client acc q in
      case sql_stat_aggregate setting acc \<lparr>sf_client = client_id, sf_account = oq_account q, sf_platform = None,
             sf_from = Some (oq_from q), sf_to = Some (oq_to q)\<rparr> (Some as_of) today stats of
        (quality, ag) \<Rightarrow>
          (let totals = ag_totals ag;
               spend = (case mt_spend totals of None \<Rightarrow> 0 | Some s \<Rightarrow> s);
               found = sql_resolve_effective client_id (oq_account q) (oq_from q) (oq_to q) bud;
               reason = budget_unavailable totals found;
               b = (if reason \<noteq> None then None else found);
               m = calculate_financial_metrics spend (map_option b_amount b)
                     (case b of None \<Rightarrow> oq_from q | Some x \<Rightarrow> b_start x) (case b of None \<Rightarrow> oq_to q | Some x \<Rightarrow> b_end x) as_of
           in \<lparr>ov_as_of = as_of, ov_client = map_option str_uuid client_id, ov_account = map_option str_uuid (oq_account q),
               ov_quality = quality, ov_spend = public_metrics totals, ov_currencies = ag_currency ag,
               ov_budget = summary_of totals reason b m, ov_platforms = ag_platform ag, ov_accounts = ag_account ag\<rparr>))"

definition allowed_client :: "uuid list \<Rightarrow> string option \<Rightarrow> bool" where
  "allowed_client ids c = (case c of None \<Rightarrow> False | Some t \<Rightarrow> t \<in> set (map str_uuid ids))"

text \<open>\<open>agency_overview\<close>: the account totals of the allowed clients, aggregated again.\<close>

definition agency_overview ::
  "int option \<Rightarrow> account_db \<Rightarrow> stat_db \<Rightarrow> date \<Rightarrow> date \<Rightarrow> date \<Rightarrow> uuid list option \<Rightarrow> aggregate" where
  "agency_overview setting acc stats today date_from date_to allowed =
     (let ag = snd (sql_stat_aggregate setting acc \<lparr>sf_client = None, sf_account = None, sf_platform = None,
                 sf_from = Some date_from, sf_to = Some date_to\<rparr> None today stats);
          rows = map account_total_row (ag_account ag);
          rows = (case allowed of None \<Rightarrow> rows
                  | Some ids \<Rightarrow> filter (\<lambda>r. allowed_client ids (sp_client r)) rows);
          scoped = aggregate_metric_rows rows (if allowed = None then mt_currency (ag_totals ag) else None)
      in scoped\<lparr>ag_totals := public_metrics (ag_totals scoped)\<rparr>)"

end
