(* ===== verification/Statistics_Laws.thy ===== *)
theory Statistics_Laws
  imports Statistics
begin

text \<open>
  The invariant of the statistics tables, what an ingest writes, and the agreement of the
  in-memory store.
\<close>

section \<open>Amounts survive the column\<close>

definition stored_stat :: "stat \<Rightarrow> stat" where
  "stored_stat s = s\<lparr>st_spend := float64 (st_spend s), st_conversions := map_option float64 (st_conversions s)\<rparr>"

definition stat_amounts_ok :: "stat \<Rightarrow> bool" where
  "stat_amounts_ok s \<longleftrightarrow> stat_amount_ok (st_spend s) \<and> (case st_conversions s of None \<Rightarrow> True | Some c \<Rightarrow> stat_amount_ok c)"

lemma stat_amount_roundtrip: "stat_amount_ok x \<Longrightarrow> q_money (float_decimal (float64 x)) = x"
  using float_decimal_cents [of x] by (simp add: stat_amount_ok_def)

lemma to_stat_stored: "stat_amounts_ok s \<Longrightarrow> to_stat (stored_stat s) = s"
  by (cases "st_conversions s") (simp_all add: to_stat_def stored_stat_def stat_amounts_ok_def stat_amount_roundtrip)

lemma stored_stat_simps [simp]:
  "st_id (stored_stat s) = st_id s" "st_account (stored_stat s) = st_account s" "st_date (stored_stat s) = st_date s"
  "st_platform (stored_stat s) = st_platform s" "st_updated (stored_stat s) = st_updated s" "stat_key (stored_stat s) = stat_key s"
  by (simp_all add: stored_stat_def stat_key_def)

lemma to_stat_simps [simp]:
  "st_id (to_stat s) = st_id s" "st_account (to_stat s) = st_account s" "st_date (to_stat s) = st_date s"
  "st_platform (to_stat s) = st_platform s" "stat_key (to_stat s) = stat_key s"
  by (simp_all add: to_stat_def stat_key_def)

lemma valid_write_amounts:
  assumes "valid_write w"
  shows "stat_amount_ok (sw_spend w)" "case sw_conversions w of None \<Rightarrow> True | Some c \<Rightarrow> stat_amount_ok c"
    "q_money (sw_spend w) = sw_spend w" "map_option q_money (sw_conversions w) = sw_conversions w"
proof -
  obtain raw where raw: "make_stat_write raw = Some w" using assms unfolding valid_write_def ..
  then have "sw_spend w = sw_spend raw" "sw_conversions w = sw_conversions raw"
    "stat_amount_ok (sw_spend raw)" "case sw_conversions raw of None \<Rightarrow> True | Some c \<Rightarrow> stat_amount_ok c"
    by (auto simp: make_stat_write_def Let_def split: if_splits)
  then show "stat_amount_ok (sw_spend w)" "case sw_conversions w of None \<Rightarrow> True | Some c \<Rightarrow> stat_amount_ok c"
    "q_money (sw_spend w) = sw_spend w" "map_option q_money (sw_conversions w) = sw_conversions w"
    by (auto simp: stat_amount_ok_def split: option.splits)
qed

section \<open>One row\<close>

text \<open>The two ways to write a row agree up to the column.\<close>

lemma stored_values: "valid_write w \<Longrightarrow> stat_values w now (stored_stat s) = stored_stat (mem_stat_values w now s)"
  by (cases "sw_conversions w")
    (simp_all add: stat_values_def mem_stat_values_def stored_stat_def)

lemma stored_new: "valid_write w \<Longrightarrow> new_stat w i now = stored_stat (mem_new_stat w i now)"
  by (cases "sw_conversions w") (simp_all add: new_stat_def mem_new_stat_def stored_stat_def)

lemma key_simps [simp]: "stat_key (mem_stat_values w now s) = stat_key s" "stat_key (mem_new_stat w i now) = write_key w"
    "st_id (mem_stat_values w now s) = st_id s" "st_id (mem_new_stat w i now) = i"
    "stat_key (stat_values w now s) = stat_key s" "st_id (stat_values w now s) = st_id s"
  by (simp_all add: stat_key_def mem_stat_values_def mem_new_stat_def write_key_def stat_values_def)

lemma written_ok: "valid_write w \<Longrightarrow> stat_amounts_ok (mem_stat_values w now s)" "valid_write w \<Longrightarrow> stat_amounts_ok (mem_new_stat w i now)"
  by (cases "sw_conversions w"; use valid_write_amounts [of w] in \<open>simp add: stat_amounts_ok_def mem_stat_values_def mem_new_stat_def\<close>)+

section \<open>The invariant\<close>

definition stats_rows_ok :: "stat list \<Rightarrow> bool" where
  "stats_rows_ok rows \<longleftrightarrow> distinct (map stat_key rows) \<and> distinct (map st_id rows) \<and> (\<forall>s \<in> set rows. \<exists>m. s = stored_stat m \<and> stat_amounts_ok m)"

definition stats_ok :: "stat_db \<Rightarrow> bool" where
  "stats_ok db \<longleftrightarrow> stats_rows_ok (sd_stats db) \<and> distinct (map fst (sd_idem db))"

text \<open>The update by id is an update by key.\<close>

lemma update_by_key:
  assumes "stats_rows_ok rows" "find (\<lambda>s. stat_key s = k) rows = Some old"
  shows "update_rows (\<lambda>s. st_id s = st_id old) f rows = update_rows (\<lambda>s. stat_key s = k) f rows"
proof -
  have old: "old \<in> set rows" "stat_key old = k" using find_SomeD [OF assms(2)] by auto
  have "st_id s = st_id old \<longleftrightarrow> stat_key s = k" if "s \<in> set rows" for s
    using assms(1) old that key_unique [of st_id rows s old] key_unique [of stat_key rows s old] by (auto simp: stats_rows_ok_def)
  then show ?thesis by (simp add: update_rows_def)
qed

lemma stat_upsert_cases:
  assumes "sql_upsert acc now i w rows = Inr (existed, rows')"
  obtains (new) "find (\<lambda>s. stat_key s = write_key w) rows = None" "\<not> existed" "rows' = rows @ [new_stat w i now]" "i \<notin> st_id ` set rows"
      "validate_row_account acc w = None"
    | (old) x where "find (\<lambda>s. stat_key s = write_key w) rows = Some x" "existed"
      "rows' = update_rows (\<lambda>s. st_id s = st_id x) (stat_values w now) rows" "validate_row_account acc w = None"
  using assms by (cases "validate_row_account acc w"; cases "find (\<lambda>s. stat_key s = write_key w) rows")
    (auto simp: sql_upsert_def split: if_splits)

lemma upsert_ok:
  assumes "stats_rows_ok rows" "valid_write w" "sql_upsert acc now i w rows = Inr (existed, rows')"
  shows "stats_rows_ok rows'"
  using assms(3)
proof (cases rule: stat_upsert_cases)
  case new
  have "\<exists>m. new_stat w i now = stored_stat m \<and> stat_amounts_ok m"
    using stored_new [OF assms(2)] written_ok(2) [OF assms(2)] by blast
  moreover have "stat_key (new_stat w i now) = write_key w" "st_id (new_stat w i now) = i"
    by (simp_all add: new_stat_def stat_key_def write_key_def)
  ultimately show ?thesis using assms(1) new by (auto simp: stats_rows_ok_def find_None_key)
next
  case (old x)
  then have r: "rows' = update_rows (\<lambda>s. stat_key s = write_key w) (stat_values w now) rows"
    using update_by_key [OF assms(1) old(1)] by simp
  have "map stat_key rows' = map stat_key rows" "map st_id rows' = map st_id rows"
    unfolding r by (auto simp: update_rows_def)
  moreover have "\<exists>m. s = stored_stat m \<and> stat_amounts_ok m" if "s \<in> set rows'" for s
  proof -
    from that obtain x where x: "x \<in> set rows" "s = x \<or> s = stat_values w now x" by (auto simp: r update_rows_def)
    then obtain m where m: "x = stored_stat m" "stat_amounts_ok m" using assms(1) by (auto simp: stats_rows_ok_def)
    show ?thesis using x(2) m stored_values [OF assms(2)] written_ok(1) [OF assms(2)] by auto
  qed
  ultimately show ?thesis using assms(1) by (simp add: stats_rows_ok_def)
qed

lemma ingest_rows_ok:
  "sql_ingest_rows acc now ids n ws counts rows = Inr (counts', rows') \<Longrightarrow> stats_rows_ok rows \<Longrightarrow> list_all valid_write ws \<Longrightarrow>
     stats_rows_ok rows'"
proof (induction acc now ids n ws counts rows rule: sql_ingest_rows.induct)
  case (2 acc now ids n w ws ins upd stats)
  then obtain existed stats' where u: "sql_upsert acc now (ids n) w stats = Inr (existed, stats')"
    by (auto split: sum.splits)
  show ?case using "2.IH" [OF u refl] "2.prems" u upsert_ok [OF _ _ u] by simp
qed simp

lemma ingest_ok:
  assumes "sql_ingest digest acc now ids rows key db = Inr (r, db')" "stats_ok db" "list_all valid_write rows"
  shows "stats_ok db'"
  using assms ingest_rows_ok [of acc now ids 0 rows "(0, 0)" "sd_stats db"]
  by (auto simp: sql_ingest_def Let_def stats_ok_def map_of_eq_None_iff split: option.splits sum.splits if_splits bind_splits)

inductive stat_step :: "(stat_write list \<Rightarrow> string) \<Rightarrow> stat_db \<Rightarrow> stat_db \<Rightarrow> bool" for digest where
  stat_ingest: "list_all valid_write rows \<Longrightarrow> sql_ingest digest acc now ids rows key db = Inr (r, db') \<Longrightarrow> stat_step digest db db'"

definition empty_stats :: "stat_db \<Rightarrow> bool" where
  "empty_stats db \<longleftrightarrow> sd_stats db = [] \<and> sd_idem db = []"

interpretation statistics: safe_system empty_stats "stat_step digest" stats_ok for digest
proof
  show "stats_ok db" if "empty_stats db" for db using that by (simp add: empty_stats_def stats_ok_def stats_rows_ok_def)
  show "stats_ok db'" if "stats_ok db" "stat_step digest db db'" for db db'
    using that(2) by cases (rule ingest_ok [OF _ that(1)])
qed

end
