(* ===== verification/Statistics_Theorems.thy ===== *)
theory Statistics_Theorems
  imports Statistics_Laws
begin

text \<open>
  What an ingest does, that an idempotency key is used once, and that the in-memory store agrees
  with the SQL store while the ingest succeeds.
\<close>

section \<open>What an ingest writes\<close>

definition find_stat :: "uuid \<times> date \<times> string \<Rightarrow> stat list \<Rightarrow> stat option" where
  "find_stat k rows = find (\<lambda>s. stat_key s = k) rows"

definition stat_data :: "stat \<Rightarrow> int \<times> int \<times> rat \<times> rat option" where
  "stat_data s = (st_impressions s, st_clicks s, st_spend (to_stat s), st_conversions (to_stat s))"

definition write_data :: "stat_write \<Rightarrow> int \<times> int \<times> rat \<times> rat option" where
  "write_data w = (sw_impressions w, sw_clicks w, sw_spend w, sw_conversions w)"

lemma written_data:
  assumes "valid_write w"
  shows "stat_data (stat_values w now s) = write_data w" "stat_data (new_stat w i now) = write_data w"
  using valid_write_amounts [OF assms] stat_amount_roundtrip
  by (cases "sw_conversions w"; simp add: stat_data_def write_data_def stat_values_def new_stat_def to_stat_def)+

lemma upsert_lookup:
  assumes "stats_rows_ok rows" "valid_write w" "sql_upsert acc now i w rows = Inr (existed, rows')"
  shows "map_option stat_data (find_stat k rows') = (if k = write_key w then Some (write_data w) else map_option stat_data (find_stat k rows))"
    "length rows' = (if existed then length rows else Suc (length rows))"
proof -
  have "map_option stat_data (find_stat k rows') = (if k = write_key w then Some (write_data w) else map_option stat_data (find_stat k rows))
      \<and> length rows' = (if existed then length rows else Suc (length rows))"
    using assms(3)
  proof (cases rule: stat_upsert_cases)
    case new
    have "stat_key (new_stat w i now) = write_key w" by (simp add: new_stat_def stat_key_def write_key_def)
    with new written_data(2) [OF assms(2)] show ?thesis
      by (auto simp: find_stat_def find_append split: option.split)
  next
    case (old x)
    then have r: "rows' = update_rows (\<lambda>s. stat_key s = write_key w) (stat_values w now) rows"
      using update_by_key [OF assms(1) old(1)] by simp
    have "find_stat k rows' = map_option (\<lambda>s. if stat_key s = write_key w then stat_values w now s else s) (find_stat k rows)"
      unfolding r find_stat_def by (rule find_update_rows) simp
    with old(1,2) r written_data(1) [OF assms(2)] find_SomeD [of _ rows] show ?thesis
      by (cases "find_stat k rows") (auto simp: find_stat_def)
  qed
  then show "map_option stat_data (find_stat k rows') = (if k = write_key w then Some (write_data w) else map_option stat_data (find_stat k rows))"
    "length rows' = (if existed then length rows else Suc (length rows))" by simp_all
qed

lemma ingest_rows_effect:
  "sql_ingest_rows acc now ids n ws (ins, upd) rows = Inr ((ins', upd'), rows') \<Longrightarrow> stats_rows_ok rows \<Longrightarrow> list_all valid_write ws \<Longrightarrow>
     map_option stat_data (find_stat k rows') = (case find (\<lambda>w. write_key w = k) (rev ws) of
         Some w \<Rightarrow> Some (write_data w) | None \<Rightarrow> map_option stat_data (find_stat k rows))
     \<and> ins' + upd' = ins + upd + length ws \<and> length rows' + ins = length rows + ins'"
proof (induction acc now ids n ws "(ins, upd)" rows arbitrary: ins upd rule: sql_ingest_rows.induct)
  case (2 acc now ids n w ws ins upd stats)
  then obtain existed stats' where u: "sql_upsert acc now (ids n) w stats = Inr (existed, stats')"
    by (auto split: sum.splits)
  have valid: "valid_write w" "list_all valid_write ws" using "2.prems"(3) by simp_all
  have ok: "stats_rows_ok stats'" by (rule upsert_ok [OF "2.prems"(2) valid(1) u])
  note look = upsert_lookup [OF "2.prems"(2) valid(1) u]
  have run: "sql_ingest_rows acc now ids (Suc n) ws (if existed then (ins, upd + 1) else (ins + 1, upd)) stats' = Inr ((ins', upd'), rows')"
    using "2.prems"(1) u by simp
  show ?case
  proof (cases existed)
    case True
    with run have "sql_ingest_rows acc now ids (Suc n) ws (ins, upd + 1) stats' = Inr ((ins', upd'), rows')" by simp
    from "2.hyps" [OF u refl _ this ok valid(2)] True look show ?thesis by (auto simp: find_append split: option.splits)
  next
    case False
    with run have "sql_ingest_rows acc now ids (Suc n) ws (ins + 1, upd) stats' = Inr ((ins', upd'), rows')" by simp
    from "2.hyps" [OF u refl _ this ok valid(2)] False look show ?thesis by (auto simp: find_append split: option.splits)
  qed
qed auto

text \<open>An accepted ingest leaves, under every key, the amounts of the last payload row with that key, exactly as they were
  sent, and every other row as it was; it counts every payload row once, and inserted rows are the new rows of the table.\<close>
theorem ingest_upserts:
  assumes "stats_ok db" "list_all valid_write rows" "sql_ingest digest acc now ids rows key db = Inr (r, db')"
    and "Option.bind (given_key key) (map_of (sd_idem db)) = None"
  shows "map_option stat_data (find_stat k (sd_stats db')) = (case find (\<lambda>w. write_key w = k) (rev rows) of
        Some w \<Rightarrow> Some (write_data w) | None \<Rightarrow> map_option stat_data (find_stat k (sd_stats db)))
    \<and> ig_total r = length rows \<and> length (sd_stats db') = length (sd_stats db) + ig_inserted r"
proof -
  obtain ins upd stats where run: "sql_ingest_rows acc now ids 0 rows (0, 0) (sd_stats db) = Inr ((ins, upd), stats)"
    and r: "r = ingest_reply (ins, upd) (given_key key)" "sd_stats db' = stats"
    using assms(3,4) by (auto simp: sql_ingest_def Let_def split: sum.splits)
  from ingest_rows_effect [OF run, of k] assms(1,2) r show ?thesis
    by (simp add: stats_ok_def ingest_reply_def)
qed

section \<open>A key is used once\<close>
lemma idem_kept:
  assumes "sql_ingest digest acc now ids rows key db = Inr (r, db')" "map_of (sd_idem db) k = Some e"
  shows "map_of (sd_idem db') k = Some e"
  using assms by (auto simp: sql_ingest_def Let_def split: option.splits sum.splits if_splits bind_splits)

lemma idem_kept_runs: "(stat_step digest)\<^sup>*\<^sup>* db db' \<Longrightarrow> map_of (sd_idem db) k = Some e \<Longrightarrow> map_of (sd_idem db') k = Some e"
  by (induction rule: rtranclp_induct) (auto elim!: stat_step.cases intro: idem_kept)


section \<open>The in-memory store\<close>

definition items_refine :: "((uuid \<times> date \<times> string) \<times> stat) list \<Rightarrow> stat list \<Rightarrow> bool" where
  "items_refine items rows \<longleftrightarrow> dict_keyed stat_key items \<and> map stored_stat (map snd items) = rows \<and> list_all stat_amounts_ok (map snd items)"

definition stats_refine :: "stat_mem \<Rightarrow> stat_db \<Rightarrow> bool" where
  "stats_refine s db \<longleftrightarrow> items_refine (sm_items s) (sd_stats db) \<and> sm_idem s = sd_idem db"

lemma find_map_key: "(\<And>x. k (g x) = k x) \<Longrightarrow> find (\<lambda>x. k x = i) (map g xs) = map_option g (find (\<lambda>x. k x = i) xs)"
  by (induction xs) auto

lemma items_lookup: "items_refine items rows \<Longrightarrow> find (\<lambda>s. stat_key s = k) rows = map_option stored_stat (map_of items k)"
  using dict_get [of stat_key items k] find_map_key [of stat_key stored_stat k "map snd items"] by (auto simp: items_refine_def)

lemma mem_upsert:
  assumes "items_refine items rows" "stats_rows_ok rows" "valid_write w" "sql_upsert acc now i w rows = Inr (existed, rows')"
  shows "validate_row_account acc w = None"
    "existed \<longleftrightarrow> map_of items (write_key w) \<noteq> None"
    "map_of items (write_key w) = Some prev \<Longrightarrow> items_refine (AList.update (write_key w) (mem_stat_values w now prev) items) rows'"
    "map_of items (write_key w) = None \<Longrightarrow> items_refine (AList.update (write_key w) (mem_new_stat w i now) items) rows'"
proof -
  show "validate_row_account acc w = None" using assms(4) by (cases rule: stat_upsert_cases) simp_all
  show "existed \<longleftrightarrow> map_of items (write_key w) \<noteq> None"
    using assms(4) items_lookup [OF assms(1)] by (cases rule: stat_upsert_cases) auto
  have keyed: "dict_keyed stat_key items" using assms(1) by (simp add: items_refine_def)
  show "items_refine (AList.update (write_key w) (mem_stat_values w now prev) items) rows'" if m: "map_of items (write_key w) = Some prev"
    using assms(4)
  proof (cases rule: stat_upsert_cases)
    case (old x)
    have prev: "(write_key w, prev) \<in> set items" by (rule map_of_SomeD [OF m])
    then have key: "stat_key prev = write_key w" "write_key w \<in> stat_key ` set (map snd items)"
      using keyed by (force simp: dict_keyed_def)+
    note upd = dict_update [OF keyed key(2), of "mem_stat_values w now prev"]
    have only: "s = prev" if "s \<in> set (map snd items)" "stat_key s = write_key w" for s
    proof (rule key_unique [of stat_key "map snd items"])
      show "distinct (map stat_key (map snd items))" unfolding dict_keys [OF keyed] using keyed by (simp add: dict_keyed_def)
      show "prev \<in> set (map snd items)" using prev by force
    qed (use that key(1) in simp_all)
    have vals: "map snd (AList.update (write_key w) (mem_stat_values w now prev) items)
        = update_rows (\<lambda>s. stat_key s = write_key w) (mem_stat_values w now) (map snd items)"
      unfolding upd(1) [OF key_simps(1) [of w now prev, unfolded key(1)]] update_rows_def using only by (intro map_cong) auto
    have rows: "rows' = update_rows (\<lambda>s. stat_key s = write_key w) (stat_values w now) (map stored_stat (map snd items))"
      using old(3) update_by_key [OF assms(2) old(1)] assms(1) by (simp add: items_refine_def)
    have "map stored_stat (map snd (AList.update (write_key w) (mem_stat_values w now prev) items)) = rows'"
      unfolding rows vals using stored_values [OF assms(3)] by (simp add: update_rows_def)
    moreover have "list_all stat_amounts_ok (map snd (AList.update (write_key w) (mem_stat_values w now prev) items))"
      unfolding vals using assms(1) written_ok(1) [OF assms(3)] by (auto simp: items_refine_def list_all_iff set_update_rows)
    ultimately show ?thesis using upd(2) key(1) by (simp add: items_refine_def)
  qed (use items_lookup [OF assms(1), of "write_key w"] m in simp)
  show "items_refine (AList.update (write_key w) (mem_new_stat w i now) items) rows'" if "map_of items (write_key w) = None"
    using assms(4)
  proof (cases rule: stat_upsert_cases)
    case new
    have "write_key w \<notin> stat_key ` set (map snd items)"
      using that dict_keys [OF keyed] by (metis map_of_eq_None_iff list.set_map)
    note ins = dict_insert [OF keyed this, of "mem_new_stat w i now", simplified]
    from new(3) assms(1) ins stored_new [OF assms(3)] written_ok(2) [OF assms(3)] show ?thesis by (simp add: items_refine_def)
  qed (use items_lookup [OF assms(1), of "write_key w"] that in simp)
qed

lemma mem_ingest_rows_agrees:
  "sql_ingest_rows acc now ids n ws counts rows = Inr (counts', rows') \<Longrightarrow> items_refine items rows \<Longrightarrow> stats_rows_ok rows \<Longrightarrow>
     list_all valid_write ws \<Longrightarrow>
     \<exists>items'. mem_ingest_rows acc (\<lambda>_. now) ids n ws counts items = (Inr counts', items') \<and> items_refine items' rows'"
proof (induction acc now ids n ws counts rows arbitrary: items rule: sql_ingest_rows.induct)
  case (2 acc now ids n w ws ins upd stats)
  then obtain existed stats' where u: "sql_upsert acc now (ids n) w stats = Inr (existed, stats')"
    by (auto split: sum.splits)
  have valid: "valid_write w" "list_all valid_write ws" using "2.prems"(4) by simp_all
  have ok: "stats_rows_ok stats'" by (rule upsert_ok [OF "2.prems"(3) valid(1) u])
  note mem = mem_upsert [OF "2.prems"(2,3) valid(1) u]
  show ?case
  proof (cases "map_of items (write_key w)")
    case None
    with "2.prems"(1) u mem(2) have "sql_ingest_rows acc now ids (Suc n) ws (if existed then (ins, upd + 1) else (ins + 1, upd)) stats'
      = Inr (counts', rows')" by simp
    from "2.IH" [OF u refl this mem(4) [OF None] ok valid(2)] None mem(1,2) show ?thesis by simp
  next
    case (Some prev)
    with "2.prems"(1) u mem(2) have "sql_ingest_rows acc now ids (Suc n) ws (if existed then (ins, upd + 1) else (ins + 1, upd)) stats'
      = Inr (counts', rows')" by simp
    from "2.IH" [OF u refl this mem(3) [OF Some] ok valid(2)] Some mem(1,2) show ?thesis by simp
  qed
qed auto

lemma dict_update_fresh: "k \<notin> fst ` set al \<Longrightarrow> AList.update k v al = al @ [(k, v)]"
  by (induction al) auto

lemma sort_desc_map: "sort_desc k (map g xs) = map g (sort_desc (\<lambda>x. k (g x)) xs)"
proof -
  have ins: "insort_key k (g x) (map g ys) = map g (insort_key (\<lambda>x. k (g x)) x ys)" for x ys by (induction ys) auto
  have "sort_key k (map g ys) = map g (sort_key (\<lambda>x. k (g x)) ys)" for ys by (induction ys) (simp_all add: ins)
  then show ?thesis by (simp add: sort_desc_def rev_map)
qed

lemma ex_by_key:
  "distinct (map k rows) \<Longrightarrow> (\<exists>a \<in> set rows. k a = i \<and> q a) \<longleftrightarrow> (case find (\<lambda>a. k a = i) rows of None \<Rightarrow> False | Some a \<Rightarrow> q a)"
  by (induction rows) (auto simp: image_iff)

definition in_scope :: "account_db \<Rightarrow> stat_filter \<Rightarrow> stat \<Rightarrow> bool" where
  "in_scope acc f s \<longleftrightarrow> (case find (\<lambda>a. ac_id a = st_account s) (ad_accounts acc) of
       None \<Rightarrow> False
     | Some a \<Rightarrow> given (sf_client f) (\<lambda>c. ac_client a = c)
         \<and> (explicit_historical acc (sf_client f) (sf_account f) \<or> ac_status a = RActive \<and> client_active acc (ac_client a)))
   \<and> given (sf_account f) (\<lambda>i. st_account s = i) \<and> in_range f s"

lemma sql_stat_list_eq:
  assumes "distinct (map ac_id (ad_accounts acc))"
  shows "sql_stat_list acc f db = map to_stat (filter (\<lambda>s. st_account s \<notin> set (active_assignment_conflict_ids acc))
    (sort_desc (\<lambda>s. (st_date s, st_updated s)) (filter (in_scope acc f) (sd_stats db))))"
  unfolding sql_stat_list_def Let_def ex_by_key [OF assms] in_scope_def by simp

lemma eligible_iff:
  assumes "distinct (map ac_id (ad_accounts acc))"
  shows "i \<in> ac_id ` {a \<in> set (sql_account_list None (OnlyStatus RActive) acc). ac_client a \<in> set (active_parents acc)}
    \<longleftrightarrow> (case find (\<lambda>a. ac_id a = i) (ad_accounts acc) of None \<Rightarrow> False | Some a \<Rightarrow> ac_status a = RActive \<and> client_active acc (ac_client a))"
proof -
  let ?S = "{a \<in> set (ad_accounts acc). ac_status a = RActive}"
  have "set (sql_account_list None (OnlyStatus RActive) acc) = to_account ` ?S" by (simp add: sql_account_list_def)
  moreover have "set (active_parents acc) = {c. client_active acc c}"
    by (auto simp: active_parents_def sql_client_list_def client_active_def)
  moreover have "ac_id ` {a \<in> to_account ` ?S. client_active acc (ac_client a)} = ac_id ` {a \<in> ?S. client_active acc (ac_client a)}"
  proof -
    have same: "ac_client (to_account a) = ac_client a" "ac_id (to_account a) = ac_id a" for a by (simp_all add: to_account_def)
    then have "{a \<in> to_account ` ?S. client_active acc (ac_client a)} = to_account ` {a \<in> ?S. client_active acc (ac_client a)}" by auto
    then show ?thesis by (simp add: image_image same)
  qed
  ultimately have "i \<in> ac_id ` {a \<in> set (sql_account_list None (OnlyStatus RActive) acc). ac_client a \<in> set (active_parents acc)}
      \<longleftrightarrow> (\<exists>a \<in> set (ad_accounts acc). ac_id a = i \<and> ac_status a = RActive \<and> client_active acc (ac_client a))"
    by (simp only: mem_Collect_eq image_iff) blast
  then show ?thesis unfolding ex_by_key [OF assms] .
qed

lemma mem_stat_list_eq:
  assumes "distinct (map ac_id (ad_accounts acc))"
  shows "mem_stat_list acc f s = filter (\<lambda>s. st_account s \<notin> set (active_assignment_conflict_ids acc))
    (sort_desc (\<lambda>s. (st_date s, st_updated s)) (filter (in_scope acc f) (map snd (sm_items s))))"
proof -
  have known: "find (\<lambda>a. ac_id a = i) (ad_accounts acc) \<noteq> None" if "explicit_historical acc None (Some i)" for i
    using that by (cases "find (\<lambda>a. ac_id a = i) (ad_accounts acc)") (auto simp: explicit_historical_def sql_account_get_def)
  have hist: "explicit_historical acc None None = False" by (simp add: explicit_historical_def)
  have scope: "in_scope acc f x \<longleftrightarrow> (explicit_historical acc (sf_client f) (sf_account f) \<or>
        st_account x \<in> ac_id ` {a \<in> set (sql_account_list None (OnlyStatus RActive) acc). ac_client a \<in> set (active_parents acc)})
      \<and> given (sf_client f) (\<lambda>c. case sql_account_get (st_account x) acc of None \<Rightarrow> False | Some a \<Rightarrow> ac_client a = c)
      \<and> given (sf_account f) (\<lambda>i. st_account x = i) \<and> in_range f x" for x
    unfolding eligible_iff [OF assms] in_scope_def
    using known [of "st_account x"] hist
    by (cases "find (\<lambda>a. ac_id a = st_account x) (ad_accounts acc)"; cases "sf_client f"; cases "sf_account f")
      (auto simp: given_def sql_account_get_def to_account_def)
  show ?thesis
    unfolding mem_stat_list_def Let_def
    by (cases "explicit_historical acc (sf_client f) (sf_account f)")
      (auto simp: scope conj_ac intro!: arg_cong [where f = "\<lambda>p. filter _ (sort_desc _ (filter p _))"])
qed

lemma mem_list_agrees:
  assumes "items_refine (sm_items s) (sd_stats db)" "distinct (map ac_id (ad_accounts acc))"
  shows "mem_stat_list acc f s = sql_stat_list acc f db"
proof -
  have rows: "sd_stats db = map stored_stat (map snd (sm_items s))" and ok: "list_all stat_amounts_ok (map snd (sm_items s))"
    using assms(1) by (auto simp: items_refine_def)
  have scope: "in_scope acc f (stored_stat x) = in_scope acc f x" for x by (simp add: in_scope_def in_range_def)
  show ?thesis
    unfolding mem_stat_list_eq [OF assms(2)] sql_stat_list_eq [OF assms(2)] rows sort_desc_map filter_map o_def scope stored_stat_simps map_map
    using ok to_stat_stored by (intro map_cong refl) (auto simp: list_all_iff)
qed


text \<open>A failing row ends the in-memory ingest after the rows before it were written; the SQL store keeps none of them.\<close>

lemma mem_ingest_keeps_prefix:
  assumes "mem_ingest_rows acc clock ids 0 ws (0, 0) (sm_items s) = (Inr counts, items)" "validate_row_account acc w = Some e"
    and "Option.bind (given_key key) (map_of (sm_idem s)) = None"
  shows "mem_ingest digest acc clock ids (ws @ [w]) key s = (Inl e, s\<lparr>sm_items := items\<rparr>)"
proof -
  have "mem_ingest_rows acc clock ids n (ws @ [w]) c its = (Inl e, its')"
    if "mem_ingest_rows acc clock ids n ws c its = (Inr c', its')" for n c its c' its'
    using that
  proof (induction ws arbitrary: n c its)
    case Nil
    obtain x y where c: "c = (x, y)" by (cases c)
    have "mem_ingest_rows acc clock ids n [w] (x, y) its = (Inl e, its)" using assms(2) by simp
    with Nil c show ?case by auto
  next
    case (Cons v ws)
    then show ?case by (cases c) (auto split: option.splits)
  qed
  from this [OF assms(1)] assms(3) show ?thesis by (simp add: mem_ingest_def Let_def)
qed

section \<open>Examples\<close>

definition stat_client :: client where
  "stat_client = \<lparr>cl_id = 1, cl_name = ''Acme'', cl_legal_name = None, cl_status = RActive, cl_currency = ''USD'', cl_timezone = None,
     cl_notes = None, cl_created = 0, cl_updated = 0\<rparr>"

definition stat_account :: account where
  "stat_account = \<lparr>ac_id = 10, ac_client = 1, ac_platform = ''meta'', ac_external = ''7'', ac_name = ''Main'', ac_currency = ''USD'',
     ac_timezone = None, ac_status = RActive, ac_meta = None, ac_created = 0, ac_updated = 0\<rparr>"

definition stat_accounts :: account_db where
  "stat_accounts = \<lparr>ad_clients = [stat_client], ad_accounts = [stat_account]\<rparr>"

definition stat_row :: stat_write where
  "stat_row = \<lparr>sw_account = 10, sw_date = 5, sw_platform = ''meta'', sw_impressions = 100, sw_clicks = 2, sw_spend = 25 / 2,
     sw_conversions = None\<rparr>"

abbreviation "no_stats \<equiv> \<lparr>sd_stats = [], sd_idem = []\<rparr>"

lemma valid_stat_row: "valid_write stat_row"
proof -
  have "25 / 2 = (of_int 1250 / 100 :: rat)" by simp
  then have "cents (25 / 2)" unfolding cents_iff by blast
  moreover have "str_lower (str_strip ''meta'') = ''meta''" by code_simp
  ultimately show ?thesis unfolding valid_write_def
    by (intro exI [of _ stat_row]) (simp add: make_stat_write_def stat_row_def stat_amount_ok_def)
qed

lemma stat_row_accepted: "validate_row_account stat_accounts stat_row = None" by code_simp

lemma demo_ingest:
  "sql_ingest digest stat_accounts 0 ids [stat_row] key no_stats = Inr (ingest_reply (1, 0) (given_key key),
     \<lparr>sd_stats = [new_stat stat_row (ids 0) 0], sd_idem = (case given_key key of None \<Rightarrow> []
        | Some k \<Rightarrow> [(k, payload_hash digest [stat_row], ingest_reply (1, 0) (given_key key))])\<rparr>)"
proof -
  have "sql_upsert stat_accounts 0 (ids 0) stat_row [] = Inr (False, [new_stat stat_row (ids 0) 0])"
    using stat_row_accepted by (simp add: sql_upsert_def) (simp add: stat_row_def max_int64_def)
  then show ?thesis by (cases "given_key key") (simp_all add: sql_ingest_def Let_def)
qed

lemma stats_ok_empty: "stats_ok no_stats"
  by (simp add: stats_ok_def stats_rows_ok_def)

theorem ingest_upserts_witness:
  "map_option stat_data (find_stat (10, 5, ''meta'') [new_stat stat_row 3 0]) = Some (100, 2, 25 / 2, None)"
  using ingest_upserts [OF stats_ok_empty _ demo_ingest [of "\<lambda>_. []" "\<lambda>_. 3" None], of "(10, 5, ''meta'')"] valid_stat_row
  by (simp add: given_key_def) (simp add: stat_row_def write_key_def write_data_def)



end
