(* ===== verification/Views_Laws.thy ===== *)
theory Views_Laws
  imports Statistics_Theorems Statistics_Views
begin

text \<open>
  When a scope counts as fresh, and that the rows of an aggregate are daily rows with one client and
  one currency per account.
\<close>

section \<open>The texts of ids\<close>

lemma hex_digit_inj: "d < 16 \<Longrightarrow> e < 16 \<Longrightarrow> hex_digit d = hex_digit e \<Longrightarrow> d = e"
proof -
  have "\<forall>d \<in> set [0..<16]. \<forall>e \<in> set [0..<16]. hex_digit d = hex_digit e \<longrightarrow> d = e" by code_simp
  then show "d < 16 \<Longrightarrow> e < 16 \<Longrightarrow> hex_digit d = hex_digit e \<Longrightarrow> d = e" by (simp del: upt_rec_numeral)
qed

lemma hex_digits_width [simp]: "length (hex_digits k n) = k"
  by (induction k arbitrary: n) simp_all

lemma hex_digits_inj: "hex_digits k n = hex_digits k m \<Longrightarrow> n < 16 ^ k \<Longrightarrow> m < 16 ^ k \<Longrightarrow> n = m"
proof (induction k arbitrary: n m)
  case (Suc k)
  then have "hex_digits k (n div 16) = hex_digits k (m div 16)" "n mod 16 = m mod 16"
    using hex_digit_inj [of "n mod 16" "m mod 16"] by simp_all
  moreover have "n div 16 < 16 ^ k" "m div 16 < 16 ^ k" using Suc.prems(2,3) by (simp_all add: less_mult_imp_div_less mult.commute)
  ultimately have "n div 16 = m div 16" "n mod 16 = m mod 16" using Suc.IH by blast+
  then show ?case by (metis div_mult_mod_eq)
qed simp

lemma str_uuid_inj:
  assumes "str_uuid u = str_uuid v" "u < 2 ^ 128" "v < 2 ^ 128"
  shows "u = v"
proof -
  have parts: "take 8 h @ take 4 (drop 8 h) @ take 4 (drop 12 h) @ take 4 (drop 16 h) @ drop 20 h = h" for h :: string
    using append_take_drop_id [of 4 "drop 16 h"] append_take_drop_id [of 4 "drop 12 h"] append_take_drop_id [of 4 "drop 8 h"]
    by (simp add: drop_drop)
  let ?h = "hex_digits 32 u" and ?g = "hex_digits 32 v"
  have "take 8 ?h = take 8 ?g \<and> take 4 (drop 8 ?h) = take 4 (drop 8 ?g) \<and> take 4 (drop 12 ?h) = take 4 (drop 12 ?g)
      \<and> take 4 (drop 16 ?h) = take 4 (drop 16 ?g) \<and> drop 20 ?h = drop 20 ?g"
    using assms(1) unfolding str_uuid_def Let_def by (simp add: append_eq_append_conv del: hex_digits.simps)
  then have "?h = ?g" using parts [of ?h] parts [of ?g] by metis
  moreover have "(16::nat) ^ 32 = 2 ^ 128" by simp
  ultimately show ?thesis using assms(2,3) hex_digits_inj [of 32 u v] by simp
qed

section \<open>Freshness\<close>

definition latest_step :: "(uuid \<times> date) list \<Rightarrow> stat \<Rightarrow> (uuid \<times> date) list" where
  "latest_step m r = (case map_of m (st_account r) of
       None \<Rightarrow> AList.update (st_account r) (st_date r) m
     | Some d \<Rightarrow> if st_date r > d then AList.update (st_account r) (st_date r) m else m)"

lemma latest_snoc: "latest_by_account m (rs @ [r]) = latest_step (latest_by_account m rs) r"
  by (induction rs arbitrary: m) (simp_all add: latest_step_def)

lemma latest_distinct: "distinct (map fst (latest_by_account [] rs))"
  by (induction rs rule: rev_induct)
    (auto simp: latest_snoc latest_step_def distinct_update split: option.split)

lemma latest_max:
  "map_of (latest_by_account [] rs) i = (if i \<in> st_account ` set rs then Some (Max (st_date ` {r \<in> set rs. st_account r = i})) else None)"
proof (induction rs rule: rev_induct)
  case (snoc r rs)
  have sub: "{x \<in> set (rs @ [r]). st_account x = i} = (if st_account r = i then insert r else id) {x \<in> set rs. st_account x = i}" by auto
  show ?case
  proof (cases "st_account r = i")
    case True
    show ?thesis
    proof (cases "i \<in> st_account ` set rs")
      case False
      then have none: "{x \<in> set rs. st_account x = i} = {}" by auto
      show ?thesis unfolding sub latest_snoc latest_step_def if_P [OF True] none using False True snoc by (simp add: update_conv')
    next
      case True
      then have ne: "{x \<in> set rs. st_account x = i} \<noteq> {}" by auto
      define M where "M = Max (st_date ` {x \<in> set rs. st_account x = i})"
      have ih: "map_of (latest_by_account [] rs) i = Some M" using snoc True by (simp add: M_def)
      have "Max (st_date ` insert r {x \<in> set rs. st_account x = i}) = max (st_date r) M"
        unfolding M_def image_insert using ne by (intro Max_insert) auto
      with ih \<open>st_account r = i\<close> show ?thesis unfolding sub latest_snoc latest_step_def by (simp add: update_conv' max_def)
    qed
  next
    case False
    then show ?thesis unfolding sub latest_snoc latest_step_def using snoc by (auto simp: update_conv' split: option.split)
  qed
qed simp

lemma latest_entry:
  "(i, d) \<in> set (latest_by_account [] rs) \<longleftrightarrow> i \<in> st_account ` set rs \<and> d = Max (st_date ` {r \<in> set rs. st_account r = i})"
  using map_of_eq_Some_iff [OF latest_distinct, of rs i d] by (auto simp: latest_max split: if_splits)

lemma latest_keys: "set (map fst (latest_by_account [] rs)) = st_account ` set rs"
proof -
  have "dom (map_of (latest_by_account [] rs)) = st_account ` set rs" by (auto simp: latest_max dom_def split: if_splits)
  then show ?thesis by (simp add: dom_map_of_conv_image_fst)
qed

text \<open>A scope counts as fresh exactly when it has accounts and each of them has a row at most the configured number of days old:
  a fresh account never hides a stale or an empty one.\<close>
theorem fresh_iff:
  "dq_status (quality_of setting as_of rows scope) = Fresh \<longleftrightarrow> scope \<noteq> [] \<and>
     (\<forall>i \<in> set scope. \<exists>r \<in> set rows. st_account r = i \<and> as_of - st_date r \<le> stale_after_days setting)"
proof -
  let ?rel = "filter (\<lambda>r. st_account r \<in> set scope) rows"
  let ?latest = "latest_by_account [] ?rel"
  have after: "0 \<le> stale_after_days setting" by (auto simp: stale_after_days_def split: option.split)
  have len: "length ?latest = card (st_account ` set ?rel)"
    using latest_distinct [of ?rel] latest_keys [of ?rel] by (metis distinct_card length_map)
  have sub: "st_account ` set ?rel \<subseteq> set scope" by auto
  have "dq_status (quality_of setting as_of rows scope) = Fresh \<longleftrightarrow>
      ?rel \<noteq> [] \<and> \<not> card (st_account ` set ?rel) < card (set scope)
      \<and> (\<forall>e \<in> set ?latest. max 0 (as_of - snd e) \<le> stale_after_days setting)"
  proof -
    have stale: "length (filter (\<lambda>d. d > stale_after_days setting) (map (\<lambda>e. max 0 (as_of - snd e)) ?latest)) = 0
        \<longleftrightarrow> (\<forall>e \<in> set ?latest. max 0 (as_of - snd e) \<le> stale_after_days setting)"
      by (simp only: length_0_conv filter_empty_conv set_map ball_simps not_less)
    have "card (set scope) \<noteq> 0" if "?rel \<noteq> []" using that by (auto simp: filter_empty_conv)
    then show ?thesis unfolding quality_of_def Let_def data_quality.select_convs stale len length_remdups_card_conv by simp
  qed
  also have "\<dots> \<longleftrightarrow> scope \<noteq> [] \<and> (\<forall>i \<in> set scope. \<exists>r \<in> set rows. st_account r = i \<and> as_of - st_date r \<le> stale_after_days setting)"
  proof (intro iffI conjI ballI)
    assume l: "?rel \<noteq> [] \<and> \<not> card (st_account ` set ?rel) < card (set scope)
      \<and> (\<forall>e \<in> set ?latest. max 0 (as_of - snd e) \<le> stale_after_days setting)"
    then show "scope \<noteq> []" by (auto simp: filter_empty_conv)
    fix i assume i: "i \<in> set scope"
    have "st_account ` set ?rel = set scope" using l sub card_subset_eq [OF _ sub] card_mono [OF _ sub] by simp
    then have "i \<in> st_account ` set ?rel" using i by simp
    then have "(i, Max (st_date ` {r \<in> set ?rel. st_account r = i})) \<in> set ?latest" by (simp only: latest_entry simp_thms)
    then have le: "as_of - Max (st_date ` {r \<in> set ?rel. st_account r = i}) \<le> stale_after_days setting" using l by fastforce
    have "Max (st_date ` {r \<in> set ?rel. st_account r = i}) \<in> st_date ` {r \<in> set ?rel. st_account r = i}"
      using \<open>i \<in> st_account ` set ?rel\<close> by (intro Max_in) auto
    with le show "\<exists>r \<in> set rows. st_account r = i \<and> as_of - st_date r \<le> stale_after_days setting" by auto
  next
    assume r: "scope \<noteq> [] \<and> (\<forall>i \<in> set scope. \<exists>r \<in> set rows. st_account r = i \<and> as_of - st_date r \<le> stale_after_days setting)"
    then have eq: "st_account ` set ?rel = set scope" by force
    then show "\<not> card (st_account ` set ?rel) < card (set scope)" by simp
    have "set scope \<noteq> {}" using r by simp
    then have "st_account ` set ?rel \<noteq> {}" unfolding eq .
    then show "?rel \<noteq> []" by (metis image_empty set_empty)
    fix e assume e: "e \<in> set ?latest"
    then have e': "fst e \<in> st_account ` set ?rel" "snd e = Max (st_date ` {r \<in> set ?rel. st_account r = fst e})"
      using latest_entry [of "fst e" "snd e" ?rel] by simp_all
    then obtain x where x: "x \<in> set rows" "st_account x = fst e" "as_of - st_date x \<le> stale_after_days setting"
      using r eq by auto
    have "st_date x \<le> snd e" unfolding e'(2) using x e'(1) eq by (intro Max_ge) auto
    then show "max 0 (as_of - snd e) \<le> stale_after_days setting" using x(3) after by simp
  qed
  finally show ?thesis .
qed

section \<open>Rows of an aggregate\<close>
lemma listed_scope: "s \<in> set (sql_stat_list acc f db) \<Longrightarrow> \<exists>a \<in> set (ad_accounts acc). ac_id a = st_account s"
  by (auto simp: sql_stat_list_def Let_def)

lemma listed_amounts:
  assumes "stats_ok db" "s \<in> set (sql_stat_list acc f db)"
  shows "stat_amounts_ok s"
proof -
  obtain m where "m \<in> set (sd_stats db)" "s = to_stat m" using assms(2) by (auto simp: sql_stat_list_def Let_def)
  with assms(1) show ?thesis by (auto simp: stats_ok_def stats_rows_ok_def to_stat_stored)
qed

lemma metric_row_amounts [simp]:
  "sp_spend (stat_metric_row acc s) = Some (Dec (st_spend s))" "spend_of (stat_metric_row acc s) = st_spend s"
  "conversions_of (stat_metric_row acc s) = (case st_conversions s of None \<Rightarrow> 0 | Some c \<Rightarrow> c)"
  by (simp_all add: stat_metric_row_def Let_def spend_of_def conversions_of_def split: option.split)

lemma metric_row_account:
  "find (\<lambda>a. ac_id a = st_account s) (sql_account_list None AllStatus acc) = Some a \<Longrightarrow>
     sp_client (stat_metric_row acc s) = Some (str_uuid (ac_client a)) \<and> sp_currency (stat_metric_row acc s) = Some (ac_currency a)"
  by (simp add: stat_metric_row_def Let_def)

lemma metric_row_daily: "stat_amounts_ok s \<Longrightarrow> daily_row (stat_metric_row acc s)"
  by (auto simp: stat_amounts_ok_def stat_amount_ok_def daily_row_def stat_metric_row_def Let_def split: option.splits)

lemma metric_rows_facts:
  assumes "\<And>s. s \<in> set rows \<Longrightarrow> st_account s < 2 ^ 128"
  shows "account_facts (map (stat_metric_row acc) rows)"
  using assms str_uuid_inj by (fastforce simp: account_facts_def stat_metric_row_def Let_def)

definition account_ids_ok :: "account_db \<Rightarrow> bool" where
  "account_ids_ok acc \<longleftrightarrow> (\<forall>a \<in> set (ad_accounts acc). ac_id a < 2 ^ 128)"

section \<open>Example\<close>

theorem fresh_iff_witness: "dq_status (quality_of None 6 [new_stat stat_row 3 0] [10]) = Fresh"
  using fresh_iff [of None 6 "[new_stat stat_row 3 0]" "[10]"]
  by (simp add: stale_after_days_def) (simp add: new_stat_def stat_row_def)

lemma stat_row_shown:
  "sp_client (stat_metric_row stat_accounts (to_stat (new_stat stat_row i now))) = Some (str_uuid 1)"
  "sp_currency (stat_metric_row stat_accounts (to_stat (new_stat stat_row i now))) = Some ''USD''"
proof -
  have f: "find (\<lambda>a. ac_id a = 10) (sql_account_list None AllStatus stat_accounts) = Some stat_account" by code_simp
  have "st_account (to_stat (new_stat stat_row i now)) = 10" by (simp add: new_stat_def stat_row_def)
  with f metric_row_account [of "to_stat (new_stat stat_row i now)" stat_accounts stat_account]
  show "sp_client (stat_metric_row stat_accounts (to_stat (new_stat stat_row i now))) = Some (str_uuid 1)"
    "sp_currency (stat_metric_row stat_accounts (to_stat (new_stat stat_row i now))) = Some ''USD''"
    by (simp_all add: stat_account_def)
qed

lemma stat_list_shown:
  assumes "sf_client f = None \<or> sf_client f = Some 1" "sf_account f = None" "sf_platform f = None" "sf_from f = Some 1" "sf_to f = Some 9"
  shows "sql_stat_list stat_accounts f \<lparr>sd_stats = [new_stat stat_row i now], sd_idem = []\<rparr> = [to_stat (new_stat stat_row i now)]"
proof -
  have c: "active_assignment_conflict_ids stat_accounts = []" "client_active stat_accounts 1" by code_simp+
  have "in_scope stat_accounts f (new_stat stat_row i now)"
    using assms c(2) by (auto simp: in_scope_def in_range_def given_def given_key_def stat_accounts_def stat_account_def new_stat_def stat_row_def)
  moreover have "distinct (map ac_id (ad_accounts stat_accounts))" by (simp add: stat_accounts_def)
  ultimately show ?thesis by (simp add: sql_stat_list_eq c(1) sort_desc_def)
qed

end
