(* ===== verification/Overview_Theorems.thy ===== *)
theory Overview_Theorems
  imports Overview Views_Laws
begin

text \<open>
  The agency totals are those of the daily rows of the allowed clients, and a budget is compared
  with spend in its own currency only.
\<close>

section \<open>The agency overview\<close>

definition agency_filter :: "date \<Rightarrow> date \<Rightarrow> stat_filter" where
  "agency_filter date_from date_to = \<lparr>sf_client = None, sf_account = None, sf_platform = None, sf_from = Some date_from, sf_to = Some date_to\<rparr>"

definition client_rows :: "account_db \<Rightarrow> uuid list \<Rightarrow> stat list \<Rightarrow> spend_row list" where
  "client_rows acc ids rows = filter (\<lambda>r. allowed_client ids (sp_client r)) (map (stat_metric_row acc) rows)"


section \<open>The dashboard\<close>

definition dashboard_filter :: "account_db \<Rightarrow> overview_query \<Rightarrow> stat_filter" where
  "dashboard_filter acc q = \<lparr>sf_client = overview_client acc q, sf_account = oq_account q, sf_platform = None,
     sf_from = Some (oq_from q), sf_to = Some (oq_to q)\<rparr>"

lemma summary_budget:
  "bs_budget (summary_of t r b m) = None \<longleftrightarrow> fm_budget m = None" by (simp add: summary_of_def)

lemma metrics_budget: "fm_budget (calculate_financial_metrics s b x y d) = None \<longleftrightarrow> b = None"
  by (simp add: calculate_financial_metrics_def Let_def split: option.split)

lemma totals_currency:
  assumes "rows \<noteq> []" "mt_spend (sum_metric_rows rows e) \<noteq> None" "r \<in> set rows"
  shows "mt_currency (sum_metric_rows rows e) = sp_currency r" "sp_currency r \<noteq> None"
proof -
  obtain c where c: "single_currency rows = Some c"
    using assms(1,2) by (auto simp: sum_metric_rows_def Let_def split: if_splits)
  have "sp_currency r = Some c" using single_currency_SomeD [OF c] assms(3) by auto
  then show "mt_currency (sum_metric_rows rows e) = sp_currency r" "sp_currency r \<noteq> None"
    using c assms(1) by (simp_all add: sum_metric_rows_def Let_def)
qed

text \<open>C31: When the dashboard shows a budget, it is the effective budget of the scope and period, and every listed row was spent in the
  currency of that budget (or on an account without a currency code).\<close>
theorem budget_in_currency:
  assumes "bs_budget (ov_budget (dashboard_overview setting acc stats bud today q)) \<noteq> None"
    and "s \<in> set (sql_stat_list acc (dashboard_filter acc q) stats)"
  shows "\<exists>b c. sql_resolve_effective (overview_client acc q) (oq_account q) (oq_from q) (oq_to q) bud = Some b
    \<and> sp_currency (stat_metric_row acc s) = Some c \<and> (c = b_currency b \<or> c = [])"
proof -
  let ?list = "sql_stat_list acc (dashboard_filter acc q) stats"
  let ?rows = "map (stat_metric_row acc) ?list"
  define e where "e = empty_scope_currency acc (accounts_for_scope acc (dashboard_filter acc q)) (overview_client acc q)"
  let ?t = "sum_metric_rows ?rows e"
  let ?found = "sql_resolve_effective (overview_client acc q) (oq_account q) (oq_from q) (oq_to q) bud"
  have "budget_unavailable ?t ?found = None \<and> ?found \<noteq> None"
    using assms(1) unfolding dashboard_overview_def sql_stat_aggregate_def aggregate_rows_def aggregate_metric_rows_def
    by (auto simp: Let_def summary_budget metrics_budget dashboard_filter_def e_def split: if_splits)
  then obtain b where b: "?found = Some b" "mt_spend ?t \<noteq> None" "\<And>c. mt_currency ?t = Some c \<Longrightarrow> c \<noteq> [] \<Longrightarrow> b_currency b = c"
    by (auto simp: budget_unavailable_def split: if_splits option.splits)
  have m: "stat_metric_row acc s \<in> set ?rows" "?rows \<noteq> []" using assms(2) by auto
  from totals_currency [OF m(2) b(2) m(1)] obtain c where "sp_currency (stat_metric_row acc s) = Some c" "mt_currency ?t = Some c" by auto
  with b(1,3) show ?thesis by metis
qed

section \<open>Examples\<close>

definition stat_table :: stat_db where
  "stat_table = \<lparr>sd_stats = [new_stat stat_row 3 0], sd_idem = []\<rparr>"

lemma stat_table_ok: "stats_ok stat_table"
  using ingest_ok [OF demo_ingest [of "\<lambda>_. []" "\<lambda>_. 3" None] stats_ok_empty] valid_stat_row by (simp add: stat_table_def given_key_def)

lemma stat_account_ids: "account_ids_ok stat_accounts"
  by (simp add: account_ids_ok_def stat_accounts_def stat_account_def)

lemma stat_list_demo: "sql_stat_list stat_accounts (agency_filter 1 9) stat_table = [to_stat (new_stat stat_row 3 0)]"
  unfolding stat_table_def by (rule stat_list_shown) (simp_all add: agency_filter_def)


definition stat_budget :: budget where
  "stat_budget = \<lparr>b_id = 4, b_client = 1, b_scope = ClientScope, b_account = None, b_amount = 100, b_currency = ''USD'', b_period = Monthly,
     b_start = 1, b_end = 30, b_status = Active, b_version = 1, b_note = None, b_created_by = None, b_created_at = 0, b_updated_at = 0\<rparr>"

definition stat_budgets :: budget_db where
  "stat_budgets = \<lparr>budgets = [stat_budget], history = [], transfers = [], clients = [], ad_accounts = []\<rparr>"

definition stat_query :: overview_query where
  "stat_query = \<lparr>oq_from = 1, oq_to = 9, oq_client = Some 1, oq_account = None, oq_as_of = None\<rparr>"

theorem budget_in_currency_witness:
  "\<exists>b c. sql_resolve_effective (overview_client stat_accounts stat_query) (oq_account stat_query) (oq_from stat_query) (oq_to stat_query) stat_budgets = Some b
    \<and> sp_currency (stat_metric_row stat_accounts (to_stat (new_stat stat_row 3 0))) = Some c \<and> (c = b_currency b \<or> c = [])"
proof (rule budget_in_currency [where stats = stat_table and today = 9 and setting = None])
  let ?row = "stat_metric_row stat_accounts (to_stat (new_stat stat_row 3 0))"
  have l: "sql_stat_list stat_accounts (dashboard_filter stat_accounts stat_query) stat_table = [to_stat (new_stat stat_row 3 0)]"
    unfolding stat_table_def by (rule stat_list_shown) (simp_all add: dashboard_filter_def stat_query_def overview_client_def)
  then show "to_stat (new_stat stat_row 3 0) \<in> set (sql_stat_list stat_accounts (dashboard_filter stat_accounts stat_query) stat_table)" by simp
  note c = stat_row_shown(2) [of 3 0]
  have t: "mt_currency (sum_metric_rows [?row] e) = Some ''USD'' \<and> mt_spend (sum_metric_rows [?row] e) \<noteq> None" for e
    using c by (simp add: sum_metric_rows_def single_currency_def Let_def)
  have b: "sql_resolve_effective (overview_client stat_accounts stat_query) (oq_account stat_query) (oq_from stat_query) (oq_to stat_query) stat_budgets
    = Some stat_budget" by code_simp
  have "budget_unavailable (sum_metric_rows [?row] e) (Some stat_budget) = None" for e
    using t [of e] by (simp add: budget_unavailable_def stat_budget_def)
  then show "bs_budget (ov_budget (dashboard_overview None stat_accounts stat_table stat_budgets 9 stat_query)) \<noteq> None"
    using l b unfolding dashboard_overview_def sql_stat_aggregate_def aggregate_rows_def aggregate_metric_rows_def
    by (simp add: Let_def summary_budget metrics_budget dashboard_filter_def)
qed

end
