(* ===== verification/Identity_Tables.thy ===== *)
theory Identity_Tables
  imports Provider_Types Json Dictionaries
begin

text \<open>
  The tables of \<open>app/db.py\<close> that say who a user is and which clients the user reaches: users,
  identities, sessions, grants, agencies with their members, bindings and invites.  Of the other
  tables that refer to users and agencies only the columns the operations read or clear are kept.
  The ids of grant rows stand for \<open>uuid4\<close>: the next number the table does not hold.
\<close>

section \<open>Rows\<close>

datatype user_status = UserActive | UserInactive
datatype agency_status = AgencyActive | AgencySuspended
datatype invite_status = InvitePending | InviteAccepted | InviteRevoked | InviteExpired
datatype grant_role = AgencyGrant | ClientGrant

record user_row =
  us_id :: uuid
  us_email :: "string option"
  us_name :: string
  us_role :: actor_role
  us_password :: "string option"
  us_status :: user_status
  us_created :: timestamp
  us_updated :: timestamp

record identity_row =
  id_id :: uuid
  id_user :: uuid
  id_provider :: string
  id_subject :: string
  id_email :: "string option"
  id_verified :: "bool option"
  id_profile :: "(string \<times> json) list option"
  id_created :: timestamp
  id_updated :: timestamp

record grant_row =
  gr_id :: uuid
  gr_user :: uuid
  gr_client :: uuid
  gr_role :: grant_role
  gr_created :: timestamp
  gr_updated :: timestamp

record agency_row =
  ay_id :: uuid
  ay_name :: string
  ay_slug :: string
  ay_status :: agency_status
  ay_plan :: string
  ay_notes :: "string option"
  ay_client_invites :: bool
  ay_created :: timestamp
  ay_updated :: timestamp

record member_row =
  mb_id :: uuid
  mb_agency :: uuid
  mb_user :: uuid
  mb_role :: agency_role
  mb_status :: user_status
  mb_created :: timestamp
  mb_updated :: timestamp

record binding_row =
  bn_id :: uuid
  bn_agency :: uuid
  bn_client :: uuid
  bn_created :: timestamp
  bn_updated :: timestamp

record invite_row =
  iv_id :: uuid
  iv_agency :: uuid
  iv_email :: string
  iv_role :: agency_role
  iv_hash :: string
  iv_status :: invite_status
  iv_expires :: timestamp
  iv_invited_by :: "uuid option"
  iv_accepted_user :: "uuid option"
  iv_accepted_at :: "timestamp option"
  iv_created :: timestamp
  iv_updated :: timestamp

record session_row =
  se_id :: uuid
  se_user :: uuid
  se_hash :: string
  se_expires :: timestamp
  se_revoked :: "timestamp option"
  se_metadata :: "(string \<times> json) list option"
  se_created :: timestamp
  se_updated :: timestamp

text \<open>\<open>client_invites\<close>, \<open>integration_credentials\<close>, \<open>alerts\<close> and \<open>provider_budget_commands\<close>: the columns used here.\<close>

record client_invite_ref =
  ci_invited_by :: "uuid option"
  ci_accepted_user :: "uuid option"

record credential_ref =
  cd_id :: uuid
  cd_agency :: "uuid option"
  cd_created_by :: "uuid option"

record command_ref =
  kr_actor :: uuid
  kr_attempt_actors :: "uuid list"
  kr_agency :: "uuid option"
  kr_credential :: uuid
  kr_open :: bool

record identity_db =
  tb_users :: "user_row list"
  tb_identities :: "identity_row list"
  tb_grants :: "grant_row list"
  tb_agencies :: "agency_row list"
  tb_members :: "member_row list"
  tb_bindings :: "binding_row list"
  tb_invites :: "invite_row list"
  tb_sessions :: "session_row list"
  tb_clients :: "(uuid \<times> bool) list"
  tb_client_invites :: "client_invite_ref list"
  tb_credentials :: "credential_ref list"
  tb_credential_bindings :: "uuid list"
  tb_alert_acks :: "uuid option list"
  tb_commands :: "command_ref list"
  tb_principals :: "uuid list"

text \<open>\<open>tb_clients\<close> pairs a client with whether it is active; \<open>tb_principals\<close> holds the users of
  \<open>envidicy_id_principals\<close> and of the migration audit, whose foreign keys have no cleanup.\<close>

section \<open>Errors\<close>

text \<open>One constructor per raise of the stores; \<open>RowConflict\<close> is the driver's \<open>IntegrityError\<close>, where nothing catches it.\<close>

datatype auth_error =
    UserConflict
  | UserNotFound
  | SoloProvisioningConflict
  | LastAdminDemotion
  | LastAdminDeletion
  | LastAgencyOwner uuid
  | LedgerRetention nat nat
  | UserStillReferenced
  | UserIdMissing
  | IdentityLinkedElsewhere
  | AccessUserInactive
  | AdminAccessNotRequired
  | AccessRoleMismatch
  | AccessClientMissing
  | SoloClientInactive
  | ReservedAuthMethod
  | SessionUserInvalid
  | AgencyNotFound
  | AgencyConflict
  | ActorRequired
  | ManagementDenied
  | OwnerProtected
  | LastActiveOwner
  | MemberRoleInvalid
  | MemberNotFound
  | BindingNotFound
  | InviteNotFound
  | InviteNotRevocable
  | InviteInvalid
  | InviteNotPending
  | InviteIsExpired
  | AgencyInactive
  | UserRoleConflict
  | ExistingUserInactive
  | ExistingUserAuthRequired
  | InviteIdentityMismatch
  | IdentityInactive
  | InviteProvisioningFailed
  | EmailTaken
  | IdentityWithoutUser
  | IdentityConflict
  | RowConflict

section \<open>Reads shared by the operations\<close>

definition find_user :: "uuid \<Rightarrow> identity_db \<Rightarrow> user_row option" where
  "find_user i db = find (\<lambda>u. us_id u = i) (tb_users db)"

definition user_is :: "(user_row \<Rightarrow> bool) \<Rightarrow> uuid \<Rightarrow> identity_db \<Rightarrow> bool" where
  "user_is p i db = (case find_user i db of None \<Rightarrow> False | Some u \<Rightarrow> p u)"

lemma user_is_iff [simp]: "user_is p i db \<longleftrightarrow> (\<exists>u. find_user i db = Some u \<and> p u)"
  by (simp add: user_is_def split: option.split)

text \<open>SQL's \<open>lower(email)=lower(?)\<close>: null matches nothing.\<close>

definition find_user_by_email :: "string \<Rightarrow> identity_db \<Rightarrow> user_row option" where
  "find_user_by_email email db = find (\<lambda>u. case us_email u of None \<Rightarrow> False | Some e \<Rightarrow> str_lower e = str_lower email) (tb_users db)"

definition client_is_active :: "uuid \<Rightarrow> identity_db \<Rightarrow> bool" where
  "client_is_active c db \<longleftrightarrow> map_of (tb_clients db) c = Some True"

definition agency_is_active :: "uuid \<Rightarrow> identity_db \<Rightarrow> bool" where
  "agency_is_active g db \<longleftrightarrow> (\<exists>a \<in> set (tb_agencies db). ay_id a = g \<and> ay_status a = AgencyActive)"

text \<open>An active user who may own an agency.\<close>

definition owner_user :: "uuid \<Rightarrow> identity_db \<Rightarrow> bool" where
  "owner_user i db \<longleftrightarrow> (\<exists>u \<in> set (tb_users db). us_id u = i \<and> us_status u = UserActive \<and> us_role u \<in> {Agency, Admin})"

definition active_membership :: "uuid \<Rightarrow> identity_db \<Rightarrow> bool" where
  "active_membership i db \<longleftrightarrow> (\<exists>m \<in> set (tb_members db). mb_user m = i \<and> mb_status m = UserActive \<and> agency_is_active (mb_agency m) db)"

text \<open>The clients of the active agencies an active agency user is an active member of.\<close>

definition agency_scope :: "uuid \<Rightarrow> identity_db \<Rightarrow> uuid list" where
  "agency_scope i db = (if \<exists>u \<in> set (tb_users db). us_id u = i \<and> us_status u = UserActive \<and> us_role u = Agency
     then remdups (map bn_client (filter (\<lambda>b. \<exists>m \<in> set (tb_members db). mb_user m = i \<and> mb_status m = UserActive
        \<and> mb_agency m = bn_agency b \<and> agency_is_active (mb_agency m) db) (tb_bindings db)))
     else [])"

section \<open>Grants\<close>

text \<open>\<open>INSERT ... ON CONFLICT(user_id, client_id) DO UPDATE\<close>.\<close>

definition upsert_grant :: "timestamp \<Rightarrow> uuid \<Rightarrow> grant_role \<Rightarrow> uuid \<Rightarrow> grant_row list \<Rightarrow> grant_row list" where
  "upsert_grant now i role c rows =
     (if \<exists>r \<in> set rows. gr_user r = i \<and> gr_client r = c
      then update_rows (\<lambda>r. gr_user r = i \<and> gr_client r = c) (\<lambda>r. r\<lparr>gr_role := role, gr_updated := now\<rparr>) rows
      else rows @ [\<lparr>gr_id = autoincrement (map gr_id rows), gr_user = i, gr_client = c, gr_role = role,
                    gr_created = now, gr_updated = now\<rparr>])"

definition delete_grants :: "(grant_row \<Rightarrow> bool) \<Rightarrow> identity_db \<Rightarrow> identity_db" where
  "delete_grants p db = db\<lparr>tb_grants := filter (\<lambda>r. \<not> p r) (tb_grants db)\<rparr>"

definition grant_agency_scope :: "timestamp \<Rightarrow> uuid \<Rightarrow> identity_db \<Rightarrow> identity_db" where
  "grant_agency_scope now i db = db\<lparr>tb_grants := fold (upsert_grant now i AgencyGrant) (agency_scope i db) (tb_grants db)\<rparr>"

text \<open>\<open>provider_budget_retention_summary\<close>: how many commands of the ledger refer to a user or an agency, and how many of them
  are still open.\<close>

definition ledger_of_user :: "uuid \<Rightarrow> identity_db \<Rightarrow> command_ref list" where
  "ledger_of_user i db = filter (\<lambda>c. kr_actor c = i \<or> i \<in> set (kr_attempt_actors c)) (tb_commands db)"

definition ledger_of_agency :: "uuid \<Rightarrow> identity_db \<Rightarrow> command_ref list" where
  "ledger_of_agency g db = filter (\<lambda>c. kr_agency c = Some g
     \<or> (\<exists>k \<in> set (tb_credentials db). cd_id k = kr_credential c \<and> cd_agency k = Some g)) (tb_commands db)"

definition retention_guard :: "command_ref list \<Rightarrow> auth_error option" where
  "retention_guard cs = raise_if (cs \<noteq> []) (LedgerRetention (length cs) (length (filter kr_open cs)))"

end
