(* ===== verification/Identity_Users.thy ===== *)
theory Identity_Users
  imports Identity_Tables
begin

text \<open>
  The users and grants of \<open>SqliteAuthStore\<close> (\<open>app/services/auth_arch.py\<close>).  Password hashing is the
  argument \<open>verify\<close>; a transaction is a function to an error or the new tables.
\<close>

section \<open>Users\<close>

record user_create =
  uc_email :: "string option"
  uc_name :: string
  uc_role :: actor_role
  uc_status :: user_status

text \<open>\<open>None\<close> is a field the request did not set; the email can be set to null.\<close>

record user_patch =
  up_email :: "string option option"
  up_name :: "string option"
  up_role :: "actor_role option"
  up_status :: "user_status option"

definition email_taken :: "string option \<Rightarrow> user_row list \<Rightarrow> bool" where
  "email_taken e rows \<longleftrightarrow> e \<noteq> None \<and> e \<in> us_email ` set rows"

definition create_user :: "user_create \<Rightarrow> uuid \<Rightarrow> timestamp \<Rightarrow> identity_db \<Rightarrow> auth_error + user_row \<times> identity_db" where
  "create_user p i now db =
     (let u = \<lparr>us_id = i, us_email = uc_email p, us_name = uc_name p, us_role = uc_role p, us_password = None,
               us_status = uc_status p, us_created = now, us_updated = now\<rparr> in
      if i \<in> us_id ` set (tb_users db) \<or> email_taken (uc_email p) (tb_users db) then Inl UserConflict
      else Inr (u, db\<lparr>tb_users := tb_users db @ [u]\<rparr>))"

definition list_users :: "identity_db \<Rightarrow> user_row list" where
  "list_users db = sort_desc us_updated (tb_users db)"

text \<open>\<open>_assert_agency_owner_exit_allowed\<close>.\<close>

definition other_owner :: "member_row \<Rightarrow> identity_db \<Rightarrow> bool" where
  "other_owner t db \<longleftrightarrow> (\<exists>o' \<in> set (tb_members db). mb_agency o' = mb_agency t \<and> mb_user o' \<noteq> mb_user t
     \<and> mb_role o' = Owner \<and> mb_status o' = UserActive \<and> owner_user (mb_user o') db)"

definition owner_exit_guard :: "uuid \<Rightarrow> identity_db \<Rightarrow> auth_error option" where
  "owner_exit_guard i db =
     map_option (\<lambda>t. LastAgencyOwner (mb_agency t))
       (find (\<lambda>t. mb_user t = i \<and> mb_role t = Owner \<and> mb_status t = UserActive \<and> \<not> other_owner t db) (tb_members db))"

definition last_admin :: "uuid \<Rightarrow> identity_db \<Rightarrow> bool" where
  "last_admin i db \<longleftrightarrow> \<not> (\<exists>u \<in> set (tb_users db). us_role u = Admin \<and> us_status u = UserActive \<and> us_id u \<noteq> i)"

definition solo_guard :: "uuid \<Rightarrow> identity_db \<Rightarrow> auth_error option" where
  "solo_guard i db = (let rows = filter (\<lambda>r. gr_user r = i) (tb_grants db) in
     raise_if (active_membership i db \<or> length rows > 1 \<or> (\<exists>r \<in> set rows. gr_role r \<noteq> ClientGrant)) SoloProvisioningConflict)"

text \<open>\<open>_rebuild_active_agency_access\<close>.\<close>

definition rebuild_active_agency_access :: "timestamp \<Rightarrow> uuid \<Rightarrow> identity_db \<Rightarrow> identity_db" where
  "rebuild_active_agency_access now i db = grant_agency_scope now i (delete_grants (\<lambda>r. gr_user r = i) db)"

definition upatch_empty :: "user_patch \<Rightarrow> bool" where
  "upatch_empty p \<longleftrightarrow> up_email p = None \<and> up_name p = None \<and> up_role p = None \<and> up_status p = None"

definition given_or :: "'a option \<Rightarrow> 'a \<Rightarrow> 'a" where
  "given_or x d = (case x of None \<Rightarrow> d | Some v \<Rightarrow> v)"

definition patched_user :: "user_patch \<Rightarrow> timestamp \<Rightarrow> user_row \<Rightarrow> user_row" where
  "patched_user p now u = u\<lparr>us_email := given_or (up_email p) (us_email u), us_name := given_or (up_name p) (us_name u),
     us_role := given_or (up_role p) (us_role u), us_status := given_or (up_status p) (us_status u), us_updated := now\<rparr>"

definition patch_user_guard :: "user_row \<Rightarrow> user_row \<Rightarrow> identity_db \<Rightarrow> auth_error option" where
  "patch_user_guard old new db = first_error
     [if us_role new = SoloClient \<and> us_status new = UserActive then solo_guard (us_id old) db else None,
      raise_if (us_role old = Admin \<and> us_status old = UserActive \<and> (us_role new \<noteq> Admin \<or> us_status new \<noteq> UserActive)
        \<and> last_admin (us_id old) db) LastAdminDemotion,
      if us_role old \<in> {Agency, Admin} \<and> us_status old = UserActive \<and> (us_role new \<notin> {Agency, Admin} \<or> us_status new \<noteq> UserActive)
      then owner_exit_guard (us_id old) db else None,
      raise_if (email_taken (us_email new) (filter (\<lambda>u. us_id u \<noteq> us_id old) (tb_users db))) UserConflict]"

text \<open>The grants after a change of role or status.\<close>

definition regrant :: "timestamp \<Rightarrow> user_row \<Rightarrow> user_row \<Rightarrow> identity_db \<Rightarrow> identity_db" where
  "regrant now old new db =
     (let i = us_id old; changed = (us_role new \<noteq> us_role old \<or> us_status new \<noteq> us_status old) in
      if us_role new = Agency \<and> changed then rebuild_active_agency_access now i db
      else if us_role new = Admin \<and> changed then delete_grants (\<lambda>r. gr_user r = i) db
      else if us_role new \<noteq> us_role old \<and> us_role old \<in> {Agency, Admin} then delete_grants (\<lambda>r. gr_user r = i) db
      else db)"

definition revoke_user_sessions :: "timestamp \<Rightarrow> uuid \<Rightarrow> identity_db \<Rightarrow> identity_db" where
  "revoke_user_sessions now i db = db\<lparr>tb_sessions := update_rows (\<lambda>s. se_user s = i \<and> se_revoked s = None)
     (\<lambda>s. s\<lparr>se_revoked := Some now, se_updated := now\<rparr>) (tb_sessions db)\<rparr>"

definition patch_user :: "uuid \<Rightarrow> user_patch \<Rightarrow> timestamp \<Rightarrow> identity_db \<Rightarrow> auth_error + user_row \<times> identity_db" where
  "patch_user i p now db =
     (case find_user i db of
        None \<Rightarrow> Inl UserNotFound
      | Some old \<Rightarrow>
          if upatch_empty p then Inr (old, db)
          else
            (let new = patched_user p now old in
             case patch_user_guard old new db of
               Some e \<Rightarrow> Inl e
             | None \<Rightarrow>
                 (let db1 = db\<lparr>tb_users := update_rows (\<lambda>u. us_id u = i) (\<lambda>_. new) (tb_users db)\<rparr>;
                      db2 = regrant now old new db1;
                      db3 = (if us_status new \<noteq> UserActive then revoke_user_sessions now i db2 else db2)
                  in Inr (new, db3))))"

definition clear_ref :: "uuid \<Rightarrow> uuid option \<Rightarrow> uuid option" where
  "clear_ref i r = (if r = Some i then None else r)"

text \<open>The clean-up of \<open>delete_user\<close>, table by table.\<close>

definition forget_user :: "uuid \<Rightarrow> identity_db \<Rightarrow> identity_db" where
  "forget_user i db = db\<lparr>
     tb_members := filter (\<lambda>m. mb_user m \<noteq> i) (tb_members db),
     tb_grants := filter (\<lambda>r. gr_user r \<noteq> i) (tb_grants db),
     tb_identities := filter (\<lambda>d. id_user d \<noteq> i) (tb_identities db),
     tb_sessions := filter (\<lambda>s. se_user s \<noteq> i) (tb_sessions db),
     tb_invites := map (\<lambda>v. v\<lparr>iv_invited_by := clear_ref i (iv_invited_by v), iv_accepted_user := clear_ref i (iv_accepted_user v)\<rparr>) (tb_invites db),
     tb_client_invites := map (\<lambda>v. v\<lparr>ci_invited_by := clear_ref i (ci_invited_by v), ci_accepted_user := clear_ref i (ci_accepted_user v)\<rparr>) (tb_client_invites db),
     tb_credentials := map (\<lambda>c. c\<lparr>cd_created_by := clear_ref i (cd_created_by c)\<rparr>) (tb_credentials db),
     tb_alert_acks := map (clear_ref i) (tb_alert_acks db),
     tb_users := filter (\<lambda>u. us_id u \<noteq> i) (tb_users db)\<rparr>"

definition delete_user :: "uuid \<Rightarrow> identity_db \<Rightarrow> auth_error + identity_db" where
  "delete_user i db =
     (case find_user i db of
        None \<Rightarrow> Inl UserNotFound
      | Some u \<Rightarrow>
          (case first_error
             [raise_if (us_role u = Admin \<and> us_status u = UserActive \<and> last_admin i db) LastAdminDeletion,
              if us_role u \<in> {Agency, Admin} \<and> us_status u = UserActive then owner_exit_guard i db else None,
              retention_guard (ledger_of_user i db),
              raise_if (i \<in> set (tb_principals db)) UserStillReferenced] of
             Some e \<Rightarrow> Inl e
           | None \<Rightarrow> Inr (forget_user i db)))"

section \<open>Passwords\<close>

definition set_password :: "(string \<Rightarrow> string) \<Rightarrow> uuid \<Rightarrow> string \<Rightarrow> timestamp \<Rightarrow> identity_db \<Rightarrow> auth_error + identity_db" where
  "set_password hash i password now db =
     (if find_user i db = None then Inl UserNotFound
      else Inr (db\<lparr>tb_users := update_rows (\<lambda>u. us_id u = i) (\<lambda>u. u\<lparr>us_password := Some (hash password), us_updated := now\<rparr>) (tb_users db)\<rparr>))"

definition authenticate_password :: "(string \<Rightarrow> string \<Rightarrow> bool) \<Rightarrow> string \<Rightarrow> string \<Rightarrow> identity_db \<Rightarrow> user_row option" where
  "authenticate_password verify email password db =
     (let norm = str_lower (str_strip email) in
      if norm = [] then None
      else case find_user_by_email norm db of
        None \<Rightarrow> None
      | Some u \<Rightarrow>
          (case us_password u of
             None \<Rightarrow> None
           | Some h \<Rightarrow> if h = [] \<or> \<not> verify password h then None else if us_status u \<noteq> UserActive then None else Some u))"

section \<open>External identities\<close>

record identity_link =
  il_user :: uuid
  il_provider :: string
  il_subject :: string
  il_email :: "string option"
  il_verified :: "bool option"
  il_profile :: "(string \<times> json) list option"

definition find_identity :: "string \<Rightarrow> string \<Rightarrow> identity_db \<Rightarrow> identity_row option" where
  "find_identity provider subject db = find (\<lambda>d. id_provider d = provider \<and> id_subject d = subject) (tb_identities db)"

definition stored_profile :: "(string \<times> json) list option \<Rightarrow> (string \<times> json) list option" where
  "stored_profile p = (if p = Some [] then None else p)"

definition link_identity :: "identity_link \<Rightarrow> uuid \<Rightarrow> timestamp \<Rightarrow> identity_db \<Rightarrow> auth_error + identity_row \<times> identity_db" where
  "link_identity p i now db =
     (if find_user (il_user p) db = None then Inl UserIdMissing
      else case find_identity (il_provider p) (il_subject p) db of
        Some d \<Rightarrow>
          if id_user d \<noteq> il_user p then Inl IdentityLinkedElsewhere
          else (let new = d\<lparr>id_email := il_email p, id_verified := il_verified p, id_profile := stored_profile (il_profile p), id_updated := now\<rparr> in
            Inr (new, db\<lparr>tb_identities := update_rows (\<lambda>x. id_id x = id_id d) (\<lambda>_. new) (tb_identities db)\<rparr>))
      | None \<Rightarrow>
          (let new = \<lparr>id_id = i, id_user = il_user p, id_provider = il_provider p, id_subject = il_subject p, id_email = il_email p,
                      id_verified = il_verified p, id_profile = stored_profile (il_profile p), id_created = now, id_updated = now\<rparr> in
           if i \<in> id_id ` set (tb_identities db) then Inl IdentityConflict
           else Inr (new, db\<lparr>tb_identities := tb_identities db @ [new]\<rparr>)))"

definition list_identities :: "uuid option \<Rightarrow> identity_db \<Rightarrow> identity_row list" where
  "list_identities i db = sort_desc id_updated (filter (\<lambda>d. i = None \<or> Some (id_user d) = i) (tb_identities db))"

section \<open>Grants\<close>

definition assign_guard :: "user_row \<Rightarrow> uuid \<Rightarrow> grant_role \<Rightarrow> identity_db \<Rightarrow> auth_error option" where
  "assign_guard u c role db =
     (let i = us_id u in first_error
       [raise_if (us_status u \<noteq> UserActive) AccessUserInactive,
        raise_if (us_role u = Admin) AdminAccessNotRequired,
        raise_if (role \<noteq> (if us_role u = Agency then AgencyGrant else ClientGrant)) AccessRoleMismatch,
        raise_if (map_of (tb_clients db) c = None) AccessClientMissing,
        if us_role u = SoloClient then first_error
          [raise_if (\<not> client_is_active c db) SoloClientInactive,
           raise_if ((\<exists>r \<in> set (tb_grants db). gr_user r = i \<and> gr_client r \<noteq> c) \<or> active_membership i db) SoloProvisioningConflict]
        else None])"

definition assign_client_access :: "uuid \<Rightarrow> uuid \<Rightarrow> grant_role \<Rightarrow> timestamp \<Rightarrow> identity_db \<Rightarrow> auth_error + identity_db" where
  "assign_client_access i c role now db =
     (case find_user i db of
        None \<Rightarrow> Inl UserIdMissing
      | Some u \<Rightarrow> (case assign_guard u c role db of
          Some e \<Rightarrow> Inl e
        | None \<Rightarrow> Inr (db\<lparr>tb_grants := upsert_grant now i role c (tb_grants db)\<rparr>)))"

definition list_client_access :: "uuid option \<Rightarrow> identity_db \<Rightarrow> grant_row list" where
  "list_client_access i db = sort_desc gr_updated (filter (\<lambda>r. i = None \<or> Some (gr_user r) = i) (tb_grants db))"

definition remove_client_access :: "uuid \<Rightarrow> uuid \<Rightarrow> identity_db \<Rightarrow> identity_db" where
  "remove_client_access i c db = delete_grants (\<lambda>r. gr_user r = i \<and> gr_client r = c) db"

end
