(* ===== verification/Identity_Agencies.thy ===== *)
theory Identity_Agencies
  imports Identity_Users
begin

text \<open>
  \<open>SqlitePlatformAdminStore\<close> of \<open>app/services/platform_admin.py\<close> without its invites: agencies,
  their members and the clients bound to them, and the grants rebuilt after every change.
\<close>

section \<open>Names\<close>

text \<open>\<open>re.sub(r"[^a-z0-9]+", "-", s)\<close>: a run of other characters becomes one dash.\<close>

definition slug_char :: "char \<Rightarrow> bool" where
  "slug_char c = (is_lower c \<or> is_digit c)"

fun dash_runs :: "bool \<Rightarrow> string \<Rightarrow> string" where
  "dash_runs in_run [] = []"
| "dash_runs in_run (c # cs) =
     (if slug_char c then c # dash_runs False cs
      else if in_run then dash_runs True cs else CHR ''-'' # dash_runs True cs)"

definition strip_dashes :: "string \<Rightarrow> string" where
  "strip_dashes s = rev (dropWhile (\<lambda>c. c = CHR ''-'') (rev (dropWhile (\<lambda>c. c = CHR ''-'') s)))"

text \<open>The second argument is the text generated when nothing is left.\<close>

definition slugify :: "string \<Rightarrow> string \<Rightarrow> string" where
  "slugify s generated =
     (let slug = strip_dashes (dash_runs False (str_lower (str_strip s))) in
      if slug = [] then ''agency-'' @ generated else slug)"

section \<open>Who may change members\<close>

datatype standing = PlatformStanding | MemberStanding agency_role | NoStanding

definition find_agency :: "uuid \<Rightarrow> identity_db \<Rightarrow> agency_row option" where
  "find_agency g db = find (\<lambda>a. ay_id a = g) (tb_agencies db)"

definition find_member :: "uuid \<Rightarrow> uuid \<Rightarrow> identity_db \<Rightarrow> member_row option" where
  "find_member g i db = find (\<lambda>m. mb_agency m = g \<and> mb_user m = i) (tb_members db)"

definition member_of_agency :: "uuid \<Rightarrow> uuid \<Rightarrow> identity_db \<Rightarrow> member_row option" where
  "member_of_agency g m db = find (\<lambda>r. mb_id r = m \<and> mb_agency r = g) (tb_members db)"

definition actor_member_role :: "uuid \<Rightarrow> uuid option \<Rightarrow> bool \<Rightarrow> bool \<Rightarrow> identity_db \<Rightarrow> auth_error + standing" where
  "actor_member_role g actor platform_admin require_actor db =
     (if platform_admin then Inr PlatformStanding
      else case actor of
        None \<Rightarrow> if require_actor then Inl ActorRequired else Inr NoStanding
      | Some i \<Rightarrow>
          (case find (\<lambda>m. mb_agency m = g \<and> mb_user m = i \<and> mb_status m = UserActive) (tb_members db) of
             None \<Rightarrow> Inl ManagementDenied
           | Some m \<Rightarrow> if mb_role m = Member then Inl ManagementDenied else Inr (MemberStanding (mb_role m))))"

definition active_owner :: "uuid \<Rightarrow> identity_db \<Rightarrow> member_row \<Rightarrow> bool" where
  "active_owner g db m \<longleftrightarrow> mb_agency m = g \<and> mb_role m = Owner \<and> mb_status m = UserActive \<and> owner_user (mb_user m) db"

definition active_owner_count :: "uuid \<Rightarrow> identity_db \<Rightarrow> nat" where
  "active_owner_count g db = length (filter (active_owner g db) (tb_members db))"

text \<open>\<open>_assert_member_mutation_allowed\<close>: the target row, if any, with its next role and status, if it stays.\<close>

definition owner_protected :: "standing \<Rightarrow> member_row option \<Rightarrow> agency_role option \<Rightarrow> bool" where
  "owner_protected s target next_role \<longleftrightarrow> s = MemberStanding Manager
     \<and> ((case target of None \<Rightarrow> False | Some t \<Rightarrow> mb_role t = Owner) \<or> next_role = Some Owner)"

definition loses_last_owner :: "uuid \<Rightarrow> member_row option \<Rightarrow> agency_role option \<Rightarrow> user_status option \<Rightarrow> identity_db \<Rightarrow> bool" where
  "loses_last_owner g target next_role next_status db =
     (case target of
        None \<Rightarrow> False
      | Some t \<Rightarrow> mb_role t = Owner \<and> mb_status t = UserActive \<and> \<not> (next_role = Some Owner \<and> next_status = Some UserActive)
          \<and> owner_user (mb_user t) db \<and> active_owner_count g db \<le> 1)"

definition member_guard ::
  "uuid \<Rightarrow> member_row option \<Rightarrow> agency_role option \<Rightarrow> user_status option \<Rightarrow> uuid option \<Rightarrow> bool \<Rightarrow> bool \<Rightarrow> identity_db \<Rightarrow> auth_error option" where
  "member_guard g target next_role next_status actor platform_admin require_actor db =
     (case actor_member_role g actor platform_admin require_actor db of
        Inl e \<Rightarrow> Some e
      | Inr s \<Rightarrow> first_error
          [raise_if (owner_protected s target next_role) OwnerProtected,
           raise_if (loses_last_owner g target next_role next_status db) LastActiveOwner])"

section \<open>Grants of the members\<close>

definition rebuild_user_access :: "timestamp \<Rightarrow> uuid \<Rightarrow> identity_db \<Rightarrow> identity_db" where
  "rebuild_user_access now i db =
     (case find_user i db of
        None \<Rightarrow> db
      | Some u \<Rightarrow>
          (case us_role u of
             Agency \<Rightarrow>
               (let cleared = delete_grants (\<lambda>r. gr_user r = i) db in
                if us_status u \<noteq> UserActive then cleared else grant_agency_scope now i cleared)
           | Admin \<Rightarrow> delete_grants (\<lambda>r. gr_user r = i) db
           | _ \<Rightarrow> delete_grants (\<lambda>r. gr_user r = i \<and> gr_role r = AgencyGrant) db))"

definition members_of :: "uuid \<Rightarrow> identity_db \<Rightarrow> uuid list" where
  "members_of g db = remdups (map mb_user (filter (\<lambda>m. mb_agency m = g) (tb_members db)))"

definition rebuild_members :: "timestamp \<Rightarrow> uuid list \<Rightarrow> identity_db \<Rightarrow> identity_db" where
  "rebuild_members now is db = fold (rebuild_user_access now) is db"

section \<open>Agencies\<close>

record agency_create =
  ag_name :: string
  ag_slug :: "string option"
  ag_status :: agency_status
  ag_plan :: string
  ag_notes :: "string option"
  ag_client_invites :: bool

record agency_patch =
  gp_name :: "string option"
  gp_slug :: "string option"
  gp_status :: "agency_status option"
  gp_plan :: "string option"
  gp_notes :: "string option option"
  gp_client_invites :: "bool option"

definition agency_taken :: "string \<Rightarrow> string \<Rightarrow> agency_row list \<Rightarrow> bool" where
  "agency_taken name slug rows \<longleftrightarrow> name \<in> ay_name ` set rows \<or> slug \<in> ay_slug ` set rows"

definition slug_source :: "agency_create \<Rightarrow> string" where
  "slug_source p = (case ag_slug p of None \<Rightarrow> ag_name p | Some s \<Rightarrow> if s = [] then ag_name p else s)"

definition create_agency :: "agency_create \<Rightarrow> uuid \<Rightarrow> string \<Rightarrow> timestamp \<Rightarrow> identity_db \<Rightarrow> auth_error + agency_row \<times> identity_db" where
  "create_agency p g generated now db =
     (let slug = slugify (slug_source p) generated;
          a = \<lparr>ay_id = g, ay_name = ag_name p, ay_slug = slug, ay_status = ag_status p, ay_plan = ag_plan p, ay_notes = ag_notes p,
               ay_client_invites = ag_client_invites p, ay_created = now, ay_updated = now\<rparr> in
      if g \<in> ay_id ` set (tb_agencies db) \<or> agency_taken (ag_name p) slug (tb_agencies db) then Inl AgencyConflict
      else Inr (a, db\<lparr>tb_agencies := tb_agencies db @ [a]\<rparr>))"

definition list_agencies :: "agency_status option \<Rightarrow> identity_db \<Rightarrow> agency_row list" where
  "list_agencies status db = sort_desc ay_updated (filter (\<lambda>a. status = None \<or> Some (ay_status a) = status) (tb_agencies db))"

definition gpatch_empty :: "agency_patch \<Rightarrow> bool" where
  "gpatch_empty p \<longleftrightarrow> gp_name p = None \<and> gp_slug p = None \<and> gp_status p = None \<and> gp_plan p = None \<and> gp_notes p = None
     \<and> gp_client_invites p = None"

definition patched_agency :: "agency_patch \<Rightarrow> string \<Rightarrow> timestamp \<Rightarrow> agency_row \<Rightarrow> agency_row" where
  "patched_agency p generated now a = a\<lparr>ay_name := given_or (gp_name p) (ay_name a),
     ay_slug := slugify (given_or (gp_slug p) (ay_slug a)) generated, ay_status := given_or (gp_status p) (ay_status a),
     ay_plan := given_or (gp_plan p) (ay_plan a), ay_notes := given_or (gp_notes p) (ay_notes a),
     ay_client_invites := given_or (gp_client_invites p) (ay_client_invites a), ay_updated := now\<rparr>"

definition patch_agency :: "uuid \<Rightarrow> agency_patch \<Rightarrow> string \<Rightarrow> timestamp \<Rightarrow> identity_db \<Rightarrow> auth_error + agency_row \<times> identity_db" where
  "patch_agency g p generated now db =
     (case find_agency g db of
        None \<Rightarrow> Inl AgencyNotFound
      | Some old \<Rightarrow>
          if gpatch_empty p then Inr (old, db)
          else
            (let new = patched_agency p generated now old in
             if agency_taken (ay_name new) (ay_slug new) (filter (\<lambda>a. ay_id a \<noteq> g) (tb_agencies db)) then Inl AgencyConflict
             else
               (let db1 = db\<lparr>tb_agencies := update_rows (\<lambda>a. ay_id a = g) (\<lambda>_. new) (tb_agencies db)\<rparr> in
                Inr (new, if ay_status new \<noteq> ay_status old then rebuild_members now (members_of g db) db1 else db1))))"

text \<open>Deleting an agency: its rows, then the grants and the role of every user who was a member.\<close>

definition forget_agency :: "uuid \<Rightarrow> identity_db \<Rightarrow> identity_db" where
  "forget_agency g db =
     (let gone = map cd_id (filter (\<lambda>c. cd_agency c = Some g) (tb_credentials db)) in
      db\<lparr>tb_invites := filter (\<lambda>v. iv_agency v \<noteq> g) (tb_invites db),
         tb_bindings := filter (\<lambda>b. bn_agency b \<noteq> g) (tb_bindings db),
         tb_members := filter (\<lambda>m. mb_agency m \<noteq> g) (tb_members db),
         tb_credential_bindings := filter (\<lambda>c. c \<notin> set gone) (tb_credential_bindings db),
         tb_credentials := filter (\<lambda>c. cd_agency c \<noteq> Some g) (tb_credentials db),
         tb_agencies := filter (\<lambda>a. ay_id a \<noteq> g) (tb_agencies db)\<rparr>)"

definition demote_if_unused :: "timestamp \<Rightarrow> uuid \<Rightarrow> identity_db \<Rightarrow> identity_db" where
  "demote_if_unused now i db =
     (case find_user i db of
        None \<Rightarrow> db
      | Some u \<Rightarrow>
          if us_role u = Agency \<and> \<not> active_membership i db
          then db\<lparr>tb_users := update_rows (\<lambda>u. us_id u = i) (\<lambda>u. u\<lparr>us_role := Client, us_updated := now\<rparr>) (tb_users db)\<rparr>
          else db)"

definition delete_agency :: "uuid \<Rightarrow> timestamp \<Rightarrow> identity_db \<Rightarrow> auth_error + identity_db" where
  "delete_agency g now db =
     (if find_agency g db = None then Inl AgencyNotFound
      else case retention_guard (ledger_of_agency g db) of
        Some e \<Rightarrow> Inl e
      | None \<Rightarrow> Inr (fold (\<lambda>i d. demote_if_unused now i (rebuild_user_access now i d)) (members_of g db) (forget_agency g db)))"

section \<open>Members\<close>

record member_write =
  mw_user :: uuid
  mw_role :: agency_role
  mw_status :: user_status

text \<open>Insert or update of one member row, as \<open>upsert_member\<close> and \<open>accept_invite\<close> do it.\<close>

definition put_member :: "uuid \<Rightarrow> member_write \<Rightarrow> uuid \<Rightarrow> timestamp \<Rightarrow> identity_db \<Rightarrow> auth_error + member_row \<times> identity_db" where
  "put_member g p m now db =
     (case find_member g (mw_user p) db of
        Some t \<Rightarrow>
          (let new = t\<lparr>mb_role := mw_role p, mb_status := mw_status p, mb_updated := now\<rparr> in
           Inr (new, db\<lparr>tb_members := update_rows (\<lambda>r. mb_id r = mb_id t) (\<lambda>_. new) (tb_members db)\<rparr>))
      | None \<Rightarrow>
          (let new = \<lparr>mb_id = m, mb_agency = g, mb_user = mw_user p, mb_role = mw_role p, mb_status = mw_status p,
                      mb_created = now, mb_updated = now\<rparr> in
           if m \<in> mb_id ` set (tb_members db) then Inl RowConflict
           else Inr (new, db\<lparr>tb_members := tb_members db @ [new]\<rparr>)))"

definition upsert_member ::
  "uuid \<Rightarrow> member_write \<Rightarrow> uuid option \<Rightarrow> bool \<Rightarrow> uuid \<Rightarrow> timestamp \<Rightarrow> identity_db \<Rightarrow> auth_error + member_row \<times> identity_db" where
  "upsert_member g p actor platform_admin m now db =
     (let existing = find_member g (mw_user p) db in
      case first_error
        [raise_if (find_agency g db = None) AgencyNotFound,
         raise_if (find_user (mw_user p) db = None) UserIdMissing,
         raise_if (\<not> user_is (\<lambda>u. us_role u \<in> {Agency, Admin}) (mw_user p) db) MemberRoleInvalid,
         member_guard g existing (Some (mw_role p)) (Some (mw_status p)) actor platform_admin (existing \<noteq> None) db] of
        Some e \<Rightarrow> Inl e
      | None \<Rightarrow>
          (case put_member g p m now db of
             Inl e \<Rightarrow> Inl e
           | Inr (row, db1) \<Rightarrow> Inr (row, rebuild_user_access now (mw_user p) db1)))"

definition list_members :: "uuid \<Rightarrow> identity_db \<Rightarrow> auth_error + member_row list" where
  "list_members g db = (if find_agency g db = None then Inl AgencyNotFound
     else Inr (sort_desc mb_updated (filter (\<lambda>m. mb_agency m = g) (tb_members db))))"

definition deactivate_member ::
  "uuid \<Rightarrow> uuid \<Rightarrow> uuid option \<Rightarrow> bool \<Rightarrow> timestamp \<Rightarrow> identity_db \<Rightarrow> auth_error + member_row \<times> identity_db" where
  "deactivate_member g m actor platform_admin now db =
     (if find_agency g db = None then Inl AgencyNotFound
      else case member_of_agency g m db of
        None \<Rightarrow> Inl MemberNotFound
      | Some t \<Rightarrow>
          (case member_guard g (Some t) (Some (mb_role t)) (Some UserInactive) actor platform_admin True db of
             Some e \<Rightarrow> Inl e
           | None \<Rightarrow>
               (let new = t\<lparr>mb_status := UserInactive, mb_updated := now\<rparr> in
                Inr (new, rebuild_user_access now (mb_user t)
                  (db\<lparr>tb_members := update_rows (\<lambda>r. mb_id r = m) (\<lambda>_. new) (tb_members db)\<rparr>)))))"

definition remove_member :: "uuid \<Rightarrow> uuid \<Rightarrow> uuid option \<Rightarrow> bool \<Rightarrow> timestamp \<Rightarrow> identity_db \<Rightarrow> auth_error + identity_db" where
  "remove_member g m actor platform_admin now db =
     (if find_agency g db = None then Inl AgencyNotFound
      else case member_of_agency g m db of
        None \<Rightarrow> Inl MemberNotFound
      | Some t \<Rightarrow>
          (case member_guard g (Some t) None None actor platform_admin True db of
             Some e \<Rightarrow> Inl e
           | None \<Rightarrow> Inr (rebuild_user_access now (mb_user t)
               (db\<lparr>tb_members := filter (\<lambda>r. mb_id r \<noteq> m) (tb_members db)\<rparr>))))"

section \<open>Clients of an agency\<close>

definition assign_client :: "uuid \<Rightarrow> uuid \<Rightarrow> uuid \<Rightarrow> timestamp \<Rightarrow> identity_db \<Rightarrow> auth_error + binding_row \<times> identity_db" where
  "assign_client g c b now db =
     (if find_agency g db = None then Inl AgencyNotFound
      else if map_of (tb_clients db) c = None then Inl AccessClientMissing
      else case find (\<lambda>x. bn_agency x = g \<and> bn_client x = c) (tb_bindings db) of
        Some x \<Rightarrow>
          (let new = x\<lparr>bn_updated := now\<rparr> in
           Inr (new, rebuild_members now (members_of g db)
             (db\<lparr>tb_bindings := update_rows (\<lambda>y. bn_id y = bn_id x) (\<lambda>_. new) (tb_bindings db)\<rparr>)))
      | None \<Rightarrow>
          (let new = \<lparr>bn_id = b, bn_agency = g, bn_client = c, bn_created = now, bn_updated = now\<rparr> in
           if b \<in> bn_id ` set (tb_bindings db) then Inl RowConflict
           else Inr (new, rebuild_members now (members_of g db) (db\<lparr>tb_bindings := tb_bindings db @ [new]\<rparr>))))"

definition list_agency_clients :: "uuid \<Rightarrow> identity_db \<Rightarrow> auth_error + binding_row list" where
  "list_agency_clients g db = (if find_agency g db = None then Inl AgencyNotFound
     else Inr (sort_desc bn_updated (filter (\<lambda>b. bn_agency b = g) (tb_bindings db))))"

definition revoke_client :: "uuid \<Rightarrow> uuid \<Rightarrow> timestamp \<Rightarrow> identity_db \<Rightarrow> auth_error + identity_db" where
  "revoke_client g b now db =
     (if find_agency g db = None then Inl AgencyNotFound
      else if \<not> (\<exists>x \<in> set (tb_bindings db). bn_id x = b \<and> bn_agency x = g) then Inl BindingNotFound
      else Inr (rebuild_members now (members_of g db) (db\<lparr>tb_bindings := filter (\<lambda>x. bn_id x \<noteq> b) (tb_bindings db)\<rparr>)))"

end
