(* ===== verification/Identity_Sessions.thy ===== *)
theory Identity_Sessions
  imports Identity_Agencies
begin

text \<open>
  Sessions of \<open>SqliteAuthStore\<close>, and the facade of \<open>app/services/auth_facade.py\<close> that turns a token
  into the context of a request.  The digest of a token is an argument, so are generated tokens and ids.
\<close>

section \<open>Sessions\<close>

record session_request =
  sq_user :: uuid
  sq_ttl :: int
  sq_metadata :: "(string \<times> json) list option"

record session_reply =
  sy_token :: string
  sy_session :: uuid
  sy_user :: uuid
  sy_expires :: timestamp

definition envidicy_method :: string where "envidicy_method = ''envidicy_id''"

definition minutes :: "int \<Rightarrow> int" where "minutes n = n * 60000000"

definition id_metadata :: "(string \<times> json) list option \<Rightarrow> bool" where
  "id_metadata metadata \<longleftrightarrow> Option.bind metadata (\<lambda>m. map_of m ''auth_method'') = Some (JStr envidicy_method)"

definition put_session ::
  "(string \<Rightarrow> string) \<Rightarrow> session_request \<Rightarrow> uuid \<Rightarrow> string \<Rightarrow> timestamp \<Rightarrow> identity_db \<Rightarrow> auth_error + session_reply \<times> identity_db" where
  "put_session digest p i token now db =
     (if \<not> user_is (\<lambda>u. us_status u = UserActive) (sq_user p) db then Inl SessionUserInvalid
      else if i \<in> se_id ` set (tb_sessions db) \<or> digest token \<in> se_hash ` set (tb_sessions db) then Inl RowConflict
      else
        (let expires = now + minutes (sq_ttl p) in
         Inr (\<lparr>sy_token = token, sy_session = i, sy_user = sq_user p, sy_expires = expires\<rparr>,
           db\<lparr>tb_sessions := tb_sessions db @ [\<lparr>se_id = i, se_user = sq_user p, se_hash = digest token, se_expires = expires,
             se_revoked = None, se_metadata = stored_profile (sq_metadata p), se_created = now, se_updated = now\<rparr>]\<rparr>)))"

definition issue_session ::
  "(string \<Rightarrow> string) \<Rightarrow> session_request \<Rightarrow> uuid \<Rightarrow> string \<Rightarrow> timestamp \<Rightarrow> identity_db \<Rightarrow> auth_error + session_reply \<times> identity_db" where
  "issue_session digest p i token now db =
     (if id_metadata (sq_metadata p) then Inl ReservedAuthMethod else put_session digest p i token now db)"

definition envidicy_ttl :: int where "envidicy_ttl = 15"

definition issue_envidicy_session ::
  "(string \<Rightarrow> string) \<Rightarrow> uuid \<Rightarrow> uuid \<Rightarrow> string \<Rightarrow> timestamp \<Rightarrow> identity_db \<Rightarrow> auth_error + session_reply \<times> identity_db" where
  "issue_envidicy_session digest u i token now db =
     put_session digest \<lparr>sq_user = u, sq_ttl = envidicy_ttl, sq_metadata = Some [(''auth_method'', JStr envidicy_method)]\<rparr> i token now db"

datatype refusal = SessionNotFound | SessionRevoked | ReauthenticationRequired | SessionExpired | SessionUserInactive | ContextUserMissing
  | IdentityUnlinked

record session_facts =
  sx_session :: uuid
  sx_user :: uuid
  sx_role :: actor_role
  sx_expires :: timestamp
  sx_id_method :: bool
  sx_issued :: timestamp

text \<open>An Envidicy session ends fifteen minutes after it was issued, whatever its row says.\<close>

definition bounded_expiry :: "timestamp \<Rightarrow> bool \<Rightarrow> timestamp \<Rightarrow> timestamp \<Rightarrow> timestamp option" where
  "bounded_expiry expires id_method issued now =
     (if \<not> id_method then Some expires
      else if issued > now + 5000000 then None
      else Some (min expires (issued + minutes envidicy_ttl)))"

definition find_session :: "string \<Rightarrow> identity_db \<Rightarrow> session_row option" where
  "find_session h db = find (\<lambda>s. se_hash s = h) (tb_sessions db)"

definition validate_session :: "(string \<Rightarrow> string) \<Rightarrow> string \<Rightarrow> timestamp \<Rightarrow> identity_db \<Rightarrow> refusal + session_facts" where
  "validate_session digest token now db =
     (case find_session (digest token) db of
        None \<Rightarrow> Inl SessionNotFound
      | Some s \<Rightarrow>
          if se_revoked s \<noteq> None then Inl SessionRevoked
          else case bounded_expiry (se_expires s) (id_metadata (se_metadata s)) (se_created s) now of
            None \<Rightarrow> Inl ReauthenticationRequired
          | Some expires \<Rightarrow>
              if expires \<le> now then Inl SessionExpired
              else case find_user (se_user s) db of
                None \<Rightarrow> Inl SessionUserInactive
              | Some u \<Rightarrow>
                  if us_status u \<noteq> UserActive then Inl SessionUserInactive
                  else Inr \<lparr>sx_session = se_id s, sx_user = se_user s, sx_role = us_role u, sx_expires = expires,
                            sx_id_method = id_metadata (se_metadata s), sx_issued = se_created s\<rparr>)"

text \<open>The reply says whether the token was found.\<close>

definition revoke_session :: "(string \<Rightarrow> string) \<Rightarrow> string \<Rightarrow> timestamp \<Rightarrow> identity_db \<Rightarrow> bool \<times> identity_db" where
  "revoke_session digest token now db =
     (case find_session (digest token) db of
        None \<Rightarrow> (False, db)
      | Some s \<Rightarrow> (True, db\<lparr>tb_sessions := update_rows (\<lambda>r. se_id r = se_id s)
          (\<lambda>r. r\<lparr>se_revoked := Some now, se_updated := now\<rparr>) (tb_sessions db)\<rparr>))"

text \<open>\<open>now2\<close> is the second reading of the clock.\<close>

definition refresh_session ::
  "(string \<Rightarrow> string) \<Rightarrow> string \<Rightarrow> int \<Rightarrow> timestamp \<Rightarrow> timestamp \<Rightarrow> identity_db \<Rightarrow> (refusal + session_facts) \<times> identity_db" where
  "refresh_session digest token ttl now now2 db =
     (case validate_session digest token now db of
        Inl r \<Rightarrow> (Inl r, db)
      | Inr f \<Rightarrow>
          if sx_id_method f then (Inl ReauthenticationRequired, db)
          else (Inr (f\<lparr>sx_expires := now2 + minutes ttl\<rparr>),
                db\<lparr>tb_sessions := update_rows (\<lambda>r. se_id r = sx_session f)
                  (\<lambda>r. r\<lparr>se_expires := now2 + minutes ttl, se_updated := now2\<rparr>) (tb_sessions db)\<rparr>))"

section \<open>The context of a session\<close>

text \<open>\<open>cx_source\<close> tells an Envidicy context, \<open>cx_authority\<close> what My said about it.\<close>

datatype access_state = Ready | NotGranted | ContextUnavailable | ProjectUnlinked

record authority_view =
  au_state :: access_state
  au_permissions :: "string list"
  au_redirect :: bool
  au_organization :: "string option"
  au_project :: "string option"
  au_names :: "(string \<times> string) option"
  au_until :: "timestamp option"
  au_revision :: "string option"

record session_context =
  cx_valid :: bool
  cx_reason :: "refusal option"
  cx_facts :: "session_facts option"
  cx_role :: actor_role
  cx_global :: bool
  cx_clients :: "uuid list"
  cx_source :: bool
  cx_authority :: "authority_view option"

definition refused_context :: "refusal \<Rightarrow> session_context" where
  "refused_context r = \<lparr>cx_valid = False, cx_reason = Some r, cx_facts = None, cx_role = Client, cx_global = False, cx_clients = [],
     cx_source = False, cx_authority = None\<rparr>"

text \<open>\<open>get_session_context\<close> validates in one connection and reads the user and the grants in two others: \<open>db1\<close>, \<open>db2\<close> and
  \<open>db3\<close> are the tables each of them sees.  The role of a refused context is the model's filler.\<close>

definition get_session_context ::
  "(session_context \<Rightarrow> session_context) \<Rightarrow> (string \<Rightarrow> string) \<Rightarrow> string \<Rightarrow> timestamp
     \<Rightarrow> identity_db \<Rightarrow> identity_db \<Rightarrow> identity_db \<Rightarrow> session_context" where
  "get_session_context resolver digest token now db1 db2 db3 =
     (case validate_session digest token now db1 of
        Inl r \<Rightarrow> refused_context r
      | Inr f \<Rightarrow>
          (case find_user (sx_user f) db2 of
             None \<Rightarrow> refused_context ContextUserMissing
           | Some u \<Rightarrow>
               if us_status u \<noteq> UserActive then refused_context SessionUserInactive
               else resolver \<lparr>cx_valid = True, cx_reason = None, cx_facts = Some f, cx_role = us_role u, cx_global = (us_role u = Admin),
                 cx_clients = (if us_role u = Admin then [] else map gr_client (list_client_access (Some (us_id u)) db3)),
                 cx_source = False, cx_authority = None\<rparr>))"

section \<open>External identities\<close>

record external_request =
  er_provider :: string
  er_subject :: string
  er_email :: "string option"
  er_verified :: "bool option"
  er_name :: "string option"
  er_profile :: "(string \<times> json) list option"
  er_default_role :: actor_role
  er_issue_session :: bool
  er_ttl :: int
  er_allow_merge :: bool

record generated =
  ge_user :: uuid
  ge_identity :: uuid
  ge_session :: uuid
  ge_token :: string

definition given_text :: "string option \<Rightarrow> string option" where
  "given_text t = (case t of None \<Rightarrow> None | Some s \<Rightarrow> if s = [] then None else Some s)"

definition external_name :: "external_request \<Rightarrow> string" where
  "external_name p = (case given_text (er_name p) of Some n \<Rightarrow> n
     | None \<Rightarrow> (case given_text (er_email p) of Some e \<Rightarrow> e | None \<Rightarrow> er_provider p @ '':'' @ er_subject p))"

text \<open>The user of an external identity: the linked one, else the one with the email if merging is allowed, else a new one.\<close>

definition external_user ::
  "external_request \<Rightarrow> uuid \<Rightarrow> timestamp \<Rightarrow> identity_db \<Rightarrow> auth_error + user_row \<times> identity_db" where
  "external_user p i now db =
     (case find_identity (er_provider p) (er_subject p) db of
        Some d \<Rightarrow> (case find_user (id_user d) db of None \<Rightarrow> Inl IdentityWithoutUser | Some u \<Rightarrow> Inr (u, db))
      | None \<Rightarrow>
          (let matched = Option.bind (given_text (er_email p)) (\<lambda>e. find_user_by_email e db) in
           if matched \<noteq> None \<and> \<not> er_allow_merge p then Inl EmailTaken
           else case matched of
             Some u \<Rightarrow> Inr (u, db)
           | None \<Rightarrow> create_user \<lparr>uc_email = er_email p, uc_name = external_name p, uc_role = er_default_role p, uc_status = UserActive\<rparr> i now db))"

text \<open>What was committed before a later step raises stays committed: the tables are returned with the error.\<close>

definition resolve_external ::
  "(string \<Rightarrow> string) \<Rightarrow> external_request \<Rightarrow> generated \<Rightarrow> (nat \<Rightarrow> timestamp) \<Rightarrow> identity_db
     \<Rightarrow> (auth_error + user_row \<times> identity_row \<times> session_reply option) \<times> identity_db" where
  "resolve_external digest p ge clock db =
     (case external_user p (ge_user ge) (clock 0) db of
        Inl e \<Rightarrow> (Inl e, db)
      | Inr (u, db1) \<Rightarrow>
          if us_status u \<noteq> UserActive then (Inl IdentityInactive, db1)
          else case link_identity \<lparr>il_user = us_id u, il_provider = er_provider p, il_subject = er_subject p, il_email = er_email p,
                    il_verified = er_verified p, il_profile = er_profile p\<rparr> (ge_identity ge) (clock 1) db1 of
            Inl e \<Rightarrow> (Inl e, db1)
          | Inr (d, db2) \<Rightarrow>
              if \<not> er_issue_session p then (Inr (u, d, None), db2)
              else case issue_session digest \<lparr>sq_user = us_id u, sq_ttl = er_ttl p,
                     sq_metadata = Some [(''provider'', JStr (er_provider p)), (''provider_user_id'', JStr (er_subject p))]\<rparr>
                     (ge_session ge) (ge_token ge) (clock 2) db2 of
                Inl e \<Rightarrow> (Inl e, db2)
              | Inr (s, db3) \<Rightarrow> (Inr (u, d, Some s), db3))"

end
