(* ===== verification/Envidicy_Authority.thy ===== *)
theory Envidicy_Authority
  imports Identity_Sessions Json_Loads
begin

text \<open>
  \<open>app/services/envidicy_bridge.py\<close> and \<open>envidicy_pilot.py\<close>: the check of an authority response of
  My, and the projection of a session that came from Envidicy ID.  The response is the JSON value
  the parser delivers; \<open>inst\<close> reads a timestamp with a time zone, \<open>None\<close> where \<open>_instant\<close> raises.  Every
  exception the validation can raise is caught by its only caller, and is \<open>None\<close> here.
\<close>

section \<open>Shapes\<close>

type_synonym fields = "(string \<times> json) list"

definition issuer_url :: string where "issuer_url = ''https://id.envidicy.com/realms/envidicy''"
definition dash_product :: string where "dash_product = ''dash.analytics''"

definition product_permissions :: "string list" where
  "product_permissions = [dash_product, dash_product @ ''.read'', dash_product @ ''.manage'']"

text \<open>\<open>identity_key\<close>: \<open>None\<close> where it raises.\<close>

definition identity_key :: "string \<Rightarrow> string \<Rightarrow> string option" where
  "identity_key issuer subject =
     (if issuer \<noteq> issuer_url \<or> \<not> (1 \<le> length subject \<and> length subject \<le> 512) \<or> (\<exists>c \<in> set subject. (of_char c :: nat) < 32) then None
      else Some (json_dumps (JList [JStr issuer, JStr subject])))"

text \<open>\<open>str(UUID(value)) == value\<close>: 36 characters, dashes in their places, lower case hexadecimal digits elsewhere.\<close>

definition lower_hex :: "char \<Rightarrow> bool" where
  "lower_hex c \<longleftrightarrow> is_digit c \<or> 97 \<le> (of_char c :: nat) \<and> (of_char c :: nat) \<le> 102"

definition canonical_uuid :: "string \<Rightarrow> bool" where
  "canonical_uuid s \<longleftrightarrow> length s = 36
     \<and> list_all (\<lambda>(i, c). if i \<in> {8, 13, 18, 23} then c = CHR ''-'' else lower_hex c) (enumerate 0 s)"

definition fields_of :: "json option \<Rightarrow> string list \<Rightarrow> fields option" where
  "fields_of v expected = (case v of Some (JObj al) \<Rightarrow> if set (map fst al) = set expected then Some al else None | _ \<Rightarrow> None)"

definition instant_of :: "(string \<Rightarrow> timestamp option) \<Rightarrow> json option \<Rightarrow> timestamp option" where
  "instant_of inst v = (case v of Some (JStr s) \<Rightarrow> inst s | _ \<Rightarrow> None)"

definition text_of :: "nat \<Rightarrow> json option \<Rightarrow> string option" where
  "text_of bound v = (case v of Some (JStr s) \<Rightarrow> if 1 \<le> length s \<and> length s \<le> bound then Some s else None | _ \<Rightarrow> None)"

definition uuid_of :: "json option \<Rightarrow> string option" where
  "uuid_of v = (case v of Some (JStr s) \<Rightarrow> if canonical_uuid s then Some s else None | _ \<Rightarrow> None)"

text \<open>\<open>_active_interval\<close>, with the check that the response does not outlive it: the end of the interval is returned.\<close>

definition active_interval :: "(string \<Rightarrow> timestamp option) \<Rightarrow> timestamp \<Rightarrow> fields \<Rightarrow> bool" where
  "active_interval inst now al =
     (map_of al ''status'' = Some (JStr ''active'')
      \<and> (case instant_of inst (map_of al ''valid_from'') of None \<Rightarrow> False | Some from_t \<Rightarrow> from_t \<le> now)
      \<and> (case instant_of inst (map_of al ''valid_until'') of None \<Rightarrow> False | Some to_t \<Rightarrow> now < to_t))"

definition within :: "(string \<Rightarrow> timestamp option) \<Rightarrow> timestamp \<Rightarrow> fields \<Rightarrow> bool" where
  "within inst until al = (case instant_of inst (map_of al ''valid_until'') of None \<Rightarrow> False | Some to_t \<Rightarrow> until \<le> to_t)"

definition roles_ok :: "json option \<Rightarrow> bool" where
  "roles_ok v = (case v of Some (JList rs) \<Rightarrow> rs \<noteq> [] \<and> length rs \<le> 16 \<and> list_all (\<lambda>r. text_of 64 (Some r) \<noteq> None) rs | _ \<Rightarrow> False)"

definition generation_ok :: "json option \<Rightarrow> bool" where
  "generation_ok v = (case v of Some (JInt n) \<Rightarrow> 1 \<le> n \<and> n \<le> 2 ^ 53 - 1 | _ \<Rightarrow> False)"

fun permission_texts :: "json list \<Rightarrow> string list option" where
  "permission_texts [] = Some []"
| "permission_texts (JStr p # ps) = (if p \<in> set product_permissions then map_option ((#) p) (permission_texts ps) else None)"
| "permission_texts (_ # ps) = None"

definition permissions_of :: "json option \<Rightarrow> string list option" where
  "permissions_of v = (case v of Some (JList ps) \<Rightarrow> Option.bind (permission_texts ps) (\<lambda>ts. if distinct ts then Some ts else None) | _ \<Rightarrow> None)"

section \<open>The authority response\<close>

definition base_fields :: "string list" where
  "base_fields = [''contract_version'', ''request_id'', ''decision'', ''principal'', ''evaluated_at'']"

definition allow_fields :: "string list" where
  "allow_fields = [''membership'', ''entitlements'', ''permissions'', ''valid_until'', ''authority_revision'', ''revocation'']"

definition membership_fields :: "string list" where
  "membership_fields = [''status'', ''kind'', ''organization_id'', ''organization_name'', ''project_id'', ''project_name'', ''brand_id'',
     ''brand_name'', ''timezone'', ''roles'', ''version'', ''valid_from'', ''valid_until'']"

definition grant_fields :: "string list" where
  "grant_fields = [''code'', ''status'', ''version'', ''valid_from'', ''valid_until'']"

definition no_authority :: "access_state \<Rightarrow> bool \<Rightarrow> authority_view" where
  "no_authority state redirect = \<lparr>au_state = state, au_permissions = [], au_redirect = redirect, au_organization = None, au_project = None,
     au_names = None, au_until = None, au_revision = None\<rparr>"

text \<open>The envelope: contract, request, principal and a recent evaluation, whose instant is returned.\<close>

definition check_envelope :: "(string \<Rightarrow> timestamp option) \<Rightarrow> string \<Rightarrow> string \<Rightarrow> string \<Rightarrow> timestamp \<Rightarrow> fields \<Rightarrow> timestamp option" where
  "check_envelope inst issuer subject request now al =
     (if map_of al ''contract_version'' \<noteq> Some (JStr ''envidicy.authority.v1'') \<or> map_of al ''request_id'' \<noteq> Some (JStr request) then None
      else Option.bind (fields_of (map_of al ''principal'') [''iss'', ''sub'']) (\<lambda>p.
        if map_of p ''iss'' \<noteq> Some (JStr issuer) \<or> map_of p ''sub'' \<noteq> Some (JStr subject) then None
        else Option.bind (instant_of inst (map_of al ''evaluated_at'')) (\<lambda>t.
          if now - 300000000 \<le> t \<and> t \<le> now + 30000000 then Some t else None)))"

definition check_membership :: "(string \<Rightarrow> timestamp option) \<Rightarrow> timestamp \<Rightarrow> timestamp \<Rightarrow> fields \<Rightarrow> (string \<times> string \<times> string \<times> string) option" where
  "check_membership inst now until m =
     (if map_of m ''kind'' \<noteq> Some (JStr ''direct'') then None
      else Option.bind (uuid_of (map_of m ''organization_id'')) (\<lambda>org.
        Option.bind (uuid_of (map_of m ''project_id'')) (\<lambda>project.
          if \<not> active_interval inst now m \<or> \<not> within inst until m then None
          else Option.bind (text_of 255 (map_of m ''organization_name'')) (\<lambda>org_name.
            Option.bind (text_of 255 (map_of m ''project_name'')) (\<lambda>project_name.
              if text_of 255 (map_of m ''timezone'') = None \<or> \<not> roles_ok (map_of m ''roles'') then None
              else Some (org, project, org_name, project_name))))))"

definition check_grant :: "(string \<Rightarrow> timestamp option) \<Rightarrow> timestamp \<Rightarrow> timestamp \<Rightarrow> json option \<Rightarrow> fields option" where
  "check_grant inst now until v =
     (case v of
        Some (JList [g]) \<Rightarrow> Option.bind (fields_of (Some g) grant_fields) (\<lambda>al.
          if map_of al ''code'' = Some (JStr dash_product) \<and> active_interval inst now al \<and> within inst until al then Some al else None)
      | _ \<Rightarrow> None)"

definition check_revocation :: "fields \<Rightarrow> fields \<Rightarrow> fields \<Rightarrow> bool" where
  "check_revocation al m g =
     (case fields_of (map_of al ''revocation'') [''membership_generation'', ''entitlement_generation'', ''checked_at''] of
        None \<Rightarrow> False
      | Some r \<Rightarrow> generation_ok (map_of m ''version'') \<and> generation_ok (map_of g ''version'')
          \<and> generation_ok (map_of r ''membership_generation'') \<and> generation_ok (map_of r ''entitlement_generation'')
          \<and> map_of r ''membership_generation'' = map_of m ''version'' \<and> map_of r ''entitlement_generation'' = map_of g ''version''
          \<and> map_of r ''checked_at'' = map_of al ''evaluated_at'')"

definition check_allow :: "(string \<Rightarrow> timestamp option) \<Rightarrow> timestamp \<Rightarrow> timestamp \<Rightarrow> fields \<Rightarrow> authority_view option" where
  "check_allow inst now evaluated al =
     Option.bind (instant_of inst (map_of al ''valid_until'')) (\<lambda>until.
       if \<not> (now < until \<and> until \<le> min now evaluated + 120000000) then None
       else Option.bind (fields_of (map_of al ''membership'') membership_fields) (\<lambda>m.
         Option.bind (check_membership inst now until m) (\<lambda>(org, project, org_name, project_name).
           Option.bind (check_grant inst now until (map_of al ''entitlements'')) (\<lambda>g.
             Option.bind (permissions_of (map_of al ''permissions'')) (\<lambda>perms.
               if \<not> check_revocation al m g then None
               else Option.bind (text_of 128 (map_of al ''authority_revision'')) (\<lambda>revision.
                 if dash_product \<notin> set perms \<or> dash_product @ ''.read'' \<notin> set perms then Some (no_authority NotGranted False)
                 else Some \<lparr>au_state = Ready, au_permissions = perms, au_redirect = False, au_organization = Some org,
                   au_project = Some project, au_names = Some (org_name, project_name), au_until = Some until,
                   au_revision = Some revision\<rparr>))))))"

definition validate_authority ::
  "(string \<Rightarrow> timestamp option) \<Rightarrow> string \<Rightarrow> string \<Rightarrow> string \<Rightarrow> timestamp \<Rightarrow> json \<Rightarrow> authority_view option" where
  "validate_authority inst issuer subject request now payload =
     (case payload of
        JObj al \<Rightarrow>
          (let deny = (map_of al ''decision'' = Some (JStr ''deny'')) in
           Option.bind (fields_of (Some payload) (base_fields @ (if deny then [''reason_code''] else allow_fields))) (\<lambda>al.
             Option.bind (check_envelope inst issuer subject request now al) (\<lambda>evaluated.
               if deny then map_option (\<lambda>_. no_authority NotGranted True) (text_of 100 (map_of al ''reason_code''))
               else if map_of al ''decision'' \<noteq> Some (JStr ''allow'') then None
               else check_allow inst now evaluated al)))
      | _ \<Rightarrow> None)"

section \<open>The pilot list\<close>

datatype pilot = PilotInvalid | PilotOff | PilotOnly "string list"

definition utf8_bytes :: "string \<Rightarrow> nat" where
  "utf8_bytes s = sum_list (map (\<lambda>c. if (of_char c :: nat) < 128 then 1 else 2) s)"

text \<open>White space, controls and the soft hyphen: what the code refuses of the first 256 characters.\<close>

definition pilot_char :: "char \<Rightarrow> bool" where
  "pilot_char c = (let n = (of_char c :: nat) in \<not> (n \<le> 32 \<or> 127 \<le> n \<and> n \<le> 160 \<or> n = 173))"

fun pilot_subjects :: "string list \<Rightarrow> json list \<Rightarrow> string list option" where
  "pilot_subjects acc [] = Some acc"
| "pilot_subjects acc (JStr s # vs) =
     (if 1 \<le> length s \<and> length s \<le> 512 \<and> list_all pilot_char s \<and> s \<notin> set acc then pilot_subjects (acc @ [s]) vs else None)"
| "pilot_subjects acc (_ # vs) = None"

definition validate_pilot_subjects :: "string \<Rightarrow> string list option" where
  "validate_pilot_subjects raw =
     (if length raw > 32768 \<or> utf8_bytes raw > 32768 then None
      else case json_loads raw of
        Some (JList vs) \<Rightarrow> if 1 \<le> length vs \<and> length vs \<le> 100 then pilot_subjects [] vs else None
      | _ \<Rightarrow> None)"

definition load_pilot_subjects :: "string option \<Rightarrow> pilot" where
  "load_pilot_subjects setting = (case setting of None \<Rightarrow> PilotOff
     | Some raw \<Rightarrow> (case validate_pilot_subjects raw of None \<Rightarrow> PilotInvalid | Some ss \<Rightarrow> PilotOnly ss))"

definition pilot_admits :: "string \<Rightarrow> string \<Rightarrow> string list option \<Rightarrow> bool" where
  "pilot_admits issuer subject subjects \<longleftrightarrow> issuer = issuer_url \<and> 1 \<le> length subject \<and> length subject \<le> 512
     \<and> (\<forall>c \<in> set subject. 32 \<le> (of_char c :: nat)) \<and> (case subjects of None \<Rightarrow> True | Some ss \<Rightarrow> subject \<in> set ss)"

section \<open>The projected session\<close>

text \<open>What the bridge reads: its principals, the setting, the answer of My, the bindings and the clients.\<close>

record bridge =
  br_principal :: "uuid \<Rightarrow> (string \<times> string) option"
  br_enabled :: bool
  br_pilot :: "string option"
  br_resolve :: "string \<Rightarrow> string \<Rightarrow> authority_view option"
  br_binding :: "string \<Rightarrow> string \<Rightarrow> uuid option"
  br_client_active :: "uuid \<Rightarrow> bool"

definition bound_client :: "bridge \<Rightarrow> authority_view \<Rightarrow> uuid option" where
  "bound_client br a = (case (au_organization a, au_project a) of (Some g, Some p) \<Rightarrow> br_binding br g p | _ \<Rightarrow> None)"

definition live_authority :: "bridge \<Rightarrow> string \<Rightarrow> string \<Rightarrow> authority_view \<times> uuid list" where
  "live_authority br issuer subject =
     (if \<not> br_enabled br then (no_authority ContextUnavailable False, [])
      else case load_pilot_subjects (br_pilot br) of
        PilotInvalid \<Rightarrow> (no_authority ContextUnavailable False, [])
      | p \<Rightarrow>
          if \<not> pilot_admits issuer subject (case p of PilotOnly ss \<Rightarrow> Some ss | _ \<Rightarrow> None) then (no_authority NotGranted False, [])
          else case br_resolve br issuer subject of
            None \<Rightarrow> (no_authority ContextUnavailable False, [])
          | Some a \<Rightarrow>
              if au_state a \<noteq> Ready then (a, [])
              else case bound_client br a of
                Some c \<Rightarrow> if br_client_active br c then (a, [c])
                          else (a\<lparr>au_state := ProjectUnlinked, au_permissions := [], au_redirect := False\<rparr>, [])
              | None \<Rightarrow> (a\<lparr>au_state := ProjectUnlinked, au_permissions := [], au_redirect := False\<rparr>, []))"

definition project_session :: "bridge \<Rightarrow> session_context \<Rightarrow> session_context" where
  "project_session br cx =
     (case cx_facts cx of
        None \<Rightarrow> cx
      | Some f \<Rightarrow>
          if \<not> cx_valid cx \<or> \<not> sx_id_method f then cx
          else case br_principal br (sx_user f) of
            None \<Rightarrow> cx\<lparr>cx_valid := False, cx_reason := Some IdentityUnlinked, cx_role := Client, cx_global := False, cx_clients := [],
                      cx_source := True, cx_authority := None\<rparr>
          | Some (issuer, subject) \<Rightarrow>
              (case live_authority br issuer subject of
                 (a, clients) \<Rightarrow> cx\<lparr>cx_role := Client, cx_global := False, cx_clients := clients, cx_source := True, cx_authority := Some a\<rparr>))"

end
