(* ===== verification/Access.thy ===== *)
theory Access
  imports Envidicy_Authority Accounts
begin

text \<open>
  Who a request is from and what it may reach: \<open>app/services/acl.py\<close>, \<open>app/services/auth_cutover.py\<close>
  and the context and scope helpers of \<open>app/main.py\<close>.  The environment is a function from a variable
  to its text; headers and cookies are optional texts.
\<close>

section \<open>Errors\<close>

text \<open>One constructor per raise; an error of the store behind a helper is wrapped.\<close>

datatype (plugins only: code size) access_error =
    AuthSchemeInvalid | BearerMissing | TokenMissing | SessionInvalid "refusal option"
  | CutoverInvalid | IdLoginRequired | LocalLoginClosed
  | AccessUnconfirmed access_state | AccessUnknown | OperationClosed
  | AdminRequired | ManagePermissionRequired | ClientReadOnly | TenantDenied uuid | AccountDenied uuid
  | SoloOwnerRequired | SoloAgencyConflict | SoloScopeInvalid nat | SoloScopeStale
  | AgencyDenied uuid | AgencySelection "uuid list" | AgencyUnbound | AgencyManageDenied uuid
  | AgencyRoleRequired | AgencyClientDenied uuid uuid | AgencyOwnerProtected | InvitesDisabled uuid
  | AgencyStore auth_error

section \<open>The login policy\<close>

type_synonym environment = "string \<Rightarrow> string option"

definition env_or :: "string \<Rightarrow> string \<Rightarrow> environment \<Rightarrow> string" where
  "env_or name d env = (case env name of None \<Rightarrow> d | Some v \<Rightarrow> v)"

definition flag_enabled :: "string \<Rightarrow> environment \<Rightarrow> access_error + bool" where
  "flag_enabled name env =
     (let raw = str_lower (str_strip (env_or name ''false'' env)) in
      if raw \<in> {''1'', ''true'', ''yes'', ''on''} then Inr True
      else if raw \<in> {''0'', ''false'', ''no'', ''off''} then Inr False
      else Inl CutoverInvalid)"

definition production :: "environment \<Rightarrow> bool" where
  "production env \<longleftrightarrow> str_lower (str_strip (env_or ''APP_ENV'' ''development'' env)) \<in> {''prod'', ''production''}"

definition id_only_enabled :: "environment \<Rightarrow> access_error + bool" where
  "id_only_enabled env =
     (case flag_enabled ''ENVIDICY_ID_ONLY_ENABLED'' env of
        Inl e \<Rightarrow> Inl e
      | Inr configured \<Rightarrow> Inr (production env \<or> configured))"

definition auto_login_enabled :: "environment \<Rightarrow> access_error + bool" where
  "auto_login_enabled env = flag_enabled ''ENVIDICY_ID_AUTO_LOGIN_ENABLED'' env"

definition rstrip_slash :: "string \<Rightarrow> string" where
  "rstrip_slash s = rev (dropWhile (\<lambda>c. c = CHR ''/'') (rev s))"

definition redirect_legacy_credentials :: "string \<Rightarrow> string \<Rightarrow> environment \<Rightarrow> access_error + bool" where
  "redirect_legacy_credentials method path env =
     (if method = ''POST'' \<and> rstrip_slash path \<in> {''/auth/password/login'', ''/auth/invites/accept''}
      then id_only_enabled env else Inr False)"

definition require_legacy_auth_enabled :: "environment \<Rightarrow> access_error option" where
  "require_legacy_auth_enabled env =
     (case id_only_enabled env of Inl e \<Rightarrow> Some e | Inr on \<Rightarrow> raise_if on LocalLoginClosed)"

definition from_id :: "session_context \<Rightarrow> bool" where
  "from_id cx \<longleftrightarrow> (case cx_facts cx of None \<Rightarrow> False | Some f \<Rightarrow> sx_id_method f)"

definition enforce_session_origin :: "environment \<Rightarrow> session_context \<Rightarrow> access_error option" where
  "enforce_session_origin env cx =
     (case id_only_enabled env of Inl e \<Rightarrow> Some e | Inr on \<Rightarrow> raise_if (on \<and> \<not> from_id cx) IdLoginRequired)"

section \<open>The context of a request\<close>

text \<open>\<open>rc_id\<close> says that \<open>auth_source\<close> is Envidicy ID.\<close>

record request_context =
  rc_user :: uuid
  rc_role :: actor_role
  rc_global :: bool
  rc_clients :: "uuid list"
  rc_id :: bool
  rc_permissions :: "string list"

record http_request =
  hr_method :: string
  hr_path :: string
  hr_authorization :: "string option"
  hr_session_header :: "string option"
  hr_cookie :: "string option"

definition starts_with :: "string \<Rightarrow> string \<Rightarrow> bool" where
  "starts_with s p \<longleftrightarrow> take (length p) s = p"

text \<open>The token, if any; \<open>required\<close> makes its absence an error.\<close>

definition get_session_token :: "bool \<Rightarrow> http_request \<Rightarrow> access_error + string option" where
  "get_session_token required r =
     (let v = str_strip (case hr_authorization r of None \<Rightarrow> [] | Some a \<Rightarrow> a) in
      if v \<noteq> [] then
        (if \<not> starts_with (str_lower v) ''bearer '' then Inl AuthSchemeInvalid
         else let token = str_strip (drop 7 v) in if token = [] then Inl BearerMissing else Inr (Some token))
      else case given_text (hr_session_header r) of
        Some t \<Rightarrow> Inr (Some (str_strip t))
      | None \<Rightarrow> (case given_text (hr_cookie r) of
          Some t \<Rightarrow> Inr (Some (str_strip t))
        | None \<Rightarrow> if required then Inl TokenMissing else Inr None))"

definition active_clients :: "account_db \<Rightarrow> uuid list" where
  "active_clients acc = map cl_id (sql_client_list (OnlyStatus RActive) acc)"

text \<open>A context that was refused carries no clients, so the restriction leaves it as it is.\<close>

definition restrict_archived_client_scope :: "account_db \<Rightarrow> session_context \<Rightarrow> session_context" where
  "restrict_archived_client_scope acc cx =
     (if cx_role cx \<notin> {Client, SoloClient} \<or> cx_global cx then cx
      else
        (let live = filter (\<lambda>c. c \<in> set (active_clients acc)) (cx_clients cx);
             scope = (if cx_role cx = SoloClient \<and> card (set live) \<noteq> 1 then [] else live)
         in cx\<lparr>cx_clients := scope\<rparr>))"

text \<open>\<open>re.fullmatch(r"/budgets(?:/[^/]+(?:/transfer)?)?", path)\<close>.\<close>

definition budget_path :: "string \<Rightarrow> bool" where
  "budget_path path \<longleftrightarrow> path = ''/budgets''
     \<or> starts_with path ''/budgets/'' \<and> takeWhile (\<lambda>c. c \<noteq> CHR ''/'') (drop 9 path) \<noteq> []
       \<and> dropWhile (\<lambda>c. c \<noteq> CHR ''/'') (drop 9 path) \<in> {[], ''/transfer''}"

definition manage_permission :: string where "manage_permission = dash_product @ ''.manage''"

definition context_permissions :: "session_context \<Rightarrow> string list" where
  "context_permissions cx = (case cx_authority cx of None \<Rightarrow> [] | Some a \<Rightarrow> au_permissions a)"

definition envidicy_request_context :: "environment \<Rightarrow> http_request \<Rightarrow> session_context \<Rightarrow> access_error option" where
  "envidicy_request_context env r cx =
     (case enforce_session_origin env cx of
        Some e \<Rightarrow> Some e
      | None \<Rightarrow>
          if \<not> cx_source cx then None
          else case cx_authority cx of
            None \<Rightarrow> Some AccessUnknown
          | Some a \<Rightarrow>
              if au_state a \<noteq> Ready then Some (AccessUnconfirmed (au_state a))
              else raise_if (hr_method r \<notin> {''GET'', ''HEAD'', ''OPTIONS''}
                \<and> (manage_permission \<notin> set (au_permissions a) \<or> \<not> budget_path (hr_path r))) OperationClosed)"

definition request_context_of :: "session_context \<Rightarrow> session_facts \<Rightarrow> request_context" where
  "request_context_of cx f = \<lparr>rc_user = sx_user f, rc_role = cx_role cx, rc_global = cx_global cx, rc_clients = cx_clients cx,
     rc_id = cx_source cx, rc_permissions = context_permissions cx\<rparr>"

text \<open>\<open>lookup\<close> is \<open>get_session_context\<close> of the facade.\<close>

definition auth_context ::
  "(string \<Rightarrow> session_context) \<Rightarrow> environment \<Rightarrow> account_db \<Rightarrow> http_request \<Rightarrow> access_error + request_context" where
  "auth_context lookup env acc r =
     (case get_session_token True r of
        Inl e \<Rightarrow> Inl e
      | Inr None \<Rightarrow> Inl TokenMissing
      | Inr (Some token) \<Rightarrow>
          (let cx = restrict_archived_client_scope acc (lookup token) in
           case cx_facts cx of
             None \<Rightarrow> Inl (SessionInvalid (cx_reason cx))
           | Some f \<Rightarrow>
               if \<not> cx_valid cx then Inl (SessionInvalid (cx_reason cx))
               else case envidicy_request_context env r cx of
                 Some e \<Rightarrow> Inl e
               | None \<Rightarrow> Inr (request_context_of cx f)))"

definition internal_admin_required :: "environment \<Rightarrow> string \<Rightarrow> access_error + bool" where
  "internal_admin_required env app_env =
     (case id_only_enabled env of Inl e \<Rightarrow> Inl e | Inr on \<Rightarrow> Inr (on \<or> str_lower app_env \<in> {''prod'', ''production''}))"

definition optional_auth_context ::
  "(string \<Rightarrow> session_context) \<Rightarrow> environment \<Rightarrow> string \<Rightarrow> account_db \<Rightarrow> http_request \<Rightarrow> access_error + request_context option" where
  "optional_auth_context lookup env app_env acc r =
     (case get_session_token False r of
        Inl e \<Rightarrow> Inl e
      | Inr t \<Rightarrow>
          (case given_text t of
             None \<Rightarrow> Inr None
           | Some token \<Rightarrow>
               (let cx = restrict_archived_client_scope acc (lookup token) in
                case (if cx_valid cx then cx_facts cx else None) of
                  None \<Rightarrow>
                    (case internal_admin_required env app_env of
                       Inl e \<Rightarrow> Inl e
                     | Inr required \<Rightarrow> if required then Inl (SessionInvalid (cx_reason cx)) else Inr None)
                | Some f \<Rightarrow>
                    (case envidicy_request_context env r cx of
                       Some e \<Rightarrow> Inl e
                     | None \<Rightarrow> Inr (Some (request_context_of cx f))))))"

text \<open>An invite context carries neither the source nor the permissions.\<close>

definition invite_optional_auth_context ::
  "(string \<Rightarrow> session_context) \<Rightarrow> environment \<Rightarrow> account_db \<Rightarrow> http_request \<Rightarrow> access_error + request_context option" where
  "invite_optional_auth_context lookup env acc r =
     (case get_session_token False r of
        Inl e \<Rightarrow> Inr None
      | Inr t \<Rightarrow>
          (case given_text t of
             None \<Rightarrow> Inr None
           | Some token \<Rightarrow>
               (let cx = restrict_archived_client_scope acc (lookup token) in
                case (if cx_valid cx then cx_facts cx else None) of
                  None \<Rightarrow> Inr None
                | Some f \<Rightarrow>
                    (case envidicy_request_context env r cx of
                       Some e \<Rightarrow> Inl e
                     | None \<Rightarrow> Inr (Some ((request_context_of cx f)\<lparr>rc_id := False, rc_permissions := []\<rparr>))))))"

section \<open>Guards\<close>

definition ensure_admin :: "request_context \<Rightarrow> access_error option" where
  "ensure_admin ctx = raise_if (rc_role ctx \<noteq> Admin) AdminRequired"

definition enforce_internal_admin :: "environment \<Rightarrow> string \<Rightarrow> request_context option \<Rightarrow> access_error option" where
  "enforce_internal_admin env app_env ctx =
     (case (case ctx of Some c \<Rightarrow> if rc_id c then ensure_admin c else None | None \<Rightarrow> None) of
        Some e \<Rightarrow> Some e
      | None \<Rightarrow>
          (case internal_admin_required env app_env of
             Inl e \<Rightarrow> Some e
           | Inr required \<Rightarrow>
               if \<not> required then None
               else case ctx of None \<Rightarrow> Some AdminRequired | Some c \<Rightarrow> ensure_admin c))"

definition ensure_tenant_write_access :: "request_context \<Rightarrow> access_error option" where
  "ensure_tenant_write_access ctx =
     (if rc_id ctx then raise_if (manage_permission \<notin> set (rc_permissions ctx)) ManagePermissionRequired
      else raise_if (rc_role ctx \<notin> {Admin, Agency}) ClientReadOnly)"

definition reaches :: "request_context \<Rightarrow> uuid \<Rightarrow> bool" where
  "reaches ctx c \<longleftrightarrow> rc_global ctx \<or> c \<in> set (rc_clients ctx)"

definition ensure_client_access :: "request_context \<Rightarrow> uuid \<Rightarrow> access_error option" where
  "ensure_client_access ctx c = raise_if (\<not> reaches ctx c) (TenantDenied c)"

definition ensure_account_access :: "request_context \<Rightarrow> uuid \<Rightarrow> access_error option" where
  "ensure_account_access ctx c = raise_if (\<not> reaches ctx c) (AccountDenied c)"

section \<open>Agencies of a request\<close>

definition active_agency_memberships :: "uuid \<Rightarrow> identity_db \<Rightarrow> (uuid \<times> member_row) list" where
  "active_agency_memberships i db =
     concat (map (\<lambda>a. case list_members (ay_id a) db of
          Inl e \<Rightarrow> []
        | Inr ms \<Rightarrow> (case find (\<lambda>m. mb_user m = i \<and> mb_status m = UserActive) ms of None \<Rightarrow> [] | Some m \<Rightarrow> [(ay_id a, m)]))
       (list_agencies (Some AgencyActive) db))"

definition live_access :: "uuid \<Rightarrow> identity_db \<Rightarrow> account_db \<Rightarrow> grant_row list" where
  "live_access i db acc = filter (\<lambda>r. case sql_client_get (gr_client r) acc of None \<Rightarrow> False | Some c \<Rightarrow> cl_status c = RActive)
     (list_client_access (Some i) db)"

definition solo_owner_client_id_for_user :: "uuid \<Rightarrow> uuid list option \<Rightarrow> identity_db \<Rightarrow> account_db \<Rightarrow> access_error + uuid" where
  "solo_owner_client_id_for_user i accessible db acc =
     (if \<not> user_is (\<lambda>u. us_status u = UserActive \<and> us_role u = SoloClient) i db then Inl SoloOwnerRequired
      else if active_agency_memberships i db \<noteq> [] then Inl SoloAgencyConflict
      else
        (let live = live_access i db acc; ids = remdups (map gr_client live);
             role_ok = (case live of [r] \<Rightarrow> gr_role r = ClientGrant | _ \<Rightarrow> False)
         in if length ids \<noteq> 1 \<or> \<not> role_ok then Inl (SoloScopeInvalid (length ids))
            else if (case accessible of None \<Rightarrow> False | Some cs \<Rightarrow> set cs \<noteq> {hd ids}) then Inl SoloScopeStale
            else Inr (hd ids)))"

definition solo_owner_client_id_for_context :: "request_context \<Rightarrow> identity_db \<Rightarrow> account_db \<Rightarrow> access_error + uuid" where
  "solo_owner_client_id_for_context ctx db acc =
     (if rc_role ctx \<noteq> SoloClient then Inl SoloOwnerRequired
      else solo_owner_client_id_for_user (rc_user ctx) (Some (rc_clients ctx)) db acc)"

definition ensure_budget_write_access :: "request_context \<Rightarrow> identity_db \<Rightarrow> account_db \<Rightarrow> access_error option" where
  "ensure_budget_write_access ctx db acc =
     (if rc_role ctx = SoloClient
      then (case solo_owner_client_id_for_context ctx db acc of Inl e \<Rightarrow> Some e | Inr c \<Rightarrow> None)
      else ensure_tenant_write_access ctx)"

definition resolve_agency_context_for_user :: "uuid \<Rightarrow> uuid option \<Rightarrow> bool \<Rightarrow> identity_db \<Rightarrow> access_error + uuid" where
  "resolve_agency_context_for_user i requested require_manage db =
     (let memberships = active_agency_memberships i db in
      case (case requested of
              Some g \<Rightarrow> (case find (\<lambda>r. fst r = g) memberships of None \<Rightarrow> Inl (AgencyDenied g) | Some r \<Rightarrow> Inr r)
            | None \<Rightarrow> (case memberships of
                [r] \<Rightarrow> Inr r
              | [] \<Rightarrow> Inl AgencyUnbound
              | _ \<Rightarrow> Inl (AgencySelection (map fst memberships)))) of
        Inl e \<Rightarrow> Inl e
      | Inr (g, m) \<Rightarrow> if require_manage \<and> mb_role m \<notin> {Owner, Manager} then Inl (AgencyManageDenied g) else Inr g)"

definition bound_to :: "uuid \<Rightarrow> uuid \<Rightarrow> identity_db \<Rightarrow> bool" where
  "bound_to g c db \<longleftrightarrow> (case list_agency_clients g db of Inl e \<Rightarrow> False | Inr bs \<Rightarrow> \<exists>b \<in> set bs. bn_client b = c)"

definition ensure_client_bound_to_agency :: "uuid \<Rightarrow> uuid \<Rightarrow> identity_db \<Rightarrow> access_error option" where
  "ensure_client_bound_to_agency g c db =
     (case list_agency_clients g db of
        Inl e \<Rightarrow> Some (AgencyStore e)
      | Inr bs \<Rightarrow> raise_if (\<not> (\<exists>b \<in> set bs. bn_client b = c)) (AgencyClientDenied g c))"

definition active_agency_backing_for_client :: "uuid \<Rightarrow> uuid \<Rightarrow> identity_db \<Rightarrow> uuid option" where
  "active_agency_backing_for_client i c db =
     map_option fst (find (\<lambda>r. bound_to (fst r) c db) (active_agency_memberships i db))"

definition ensure_client_invites_allowed :: "request_context \<Rightarrow> uuid \<Rightarrow> identity_db \<Rightarrow> access_error option" where
  "ensure_client_invites_allowed ctx c db =
     (if rc_role ctx \<noteq> Agency then None
      else map_option (\<lambda>r. InvitesDisabled (fst r))
        (find (\<lambda>r. case find_agency (fst r) db of None \<Rightarrow> False | Some a \<Rightarrow> bound_to (fst r) c db \<and> \<not> ay_client_invites a)
          (active_agency_memberships (rc_user ctx) db)))"

text \<open>\<open>None\<close> is an administrator, who needs no member row.\<close>

definition ensure_agency_member_access :: "request_context \<Rightarrow> uuid \<Rightarrow> bool \<Rightarrow> identity_db \<Rightarrow> access_error + member_row option" where
  "ensure_agency_member_access ctx g manage db =
     (if rc_role ctx = Admin then Inr None
      else if rc_role ctx \<noteq> Agency then Inl AgencyRoleRequired
      else case list_members g db of
        Inl e \<Rightarrow> Inl (AgencyStore e)
      | Inr ms \<Rightarrow>
          (case find (\<lambda>m. mb_user m = rc_user ctx \<and> mb_status m = UserActive) ms of
             None \<Rightarrow> Inl (AgencyDenied g)
           | Some m \<Rightarrow> if manage \<and> mb_role m \<notin> {Owner, Manager} then Inl (AgencyManageDenied g) else Inr (Some m)))"

definition ensure_agency_invite_role_access :: "request_context \<Rightarrow> uuid \<Rightarrow> agency_role \<Rightarrow> identity_db \<Rightarrow> access_error option" where
  "ensure_agency_invite_role_access ctx g role db =
     (case ensure_agency_member_access ctx g True db of
        Inl e \<Rightarrow> Some e
      | Inr actor \<Rightarrow> raise_if (role = Owner \<and> rc_role ctx \<noteq> Admin \<and> (case actor of None \<Rightarrow> True | Some m \<Rightarrow> mb_role m \<noteq> Owner))
          AgencyOwnerProtected)"

text \<open>The iteration order of the set of accessible clients does not matter: there is one candidate or no answer.\<close>

definition infer_single_tenant_client :: "request_context \<Rightarrow> account_db \<Rightarrow> uuid option" where
  "infer_single_tenant_client ctx acc =
     (if rc_global ctx then None
      else case remdups (filter (\<lambda>c. case sql_client_get c acc of None \<Rightarrow> False | Some r \<Rightarrow> cl_status r = RActive) (rc_clients ctx)) of
        [c] \<Rightarrow> Some c
      | _ \<Rightarrow> None)"

end
