(* ===== verification/Envidicy_Theorems.thy ===== *)
theory Envidicy_Theorems
  imports Envidicy_Authority
begin

text \<open>
  What a positive answer of My must say, and what a session that came from Envidicy ID can reach.
\<close>

named_theorems answer_simps "checks of an authority response, taken apart"

lemmas [answer_simps] = Option.bind_eq_Some_conv split_paired_Ex

lemma fields_ofD [answer_simps]: "fields_of v expected = Some al \<longleftrightarrow> v = Some (JObj al) \<and> set (map fst al) = set expected"
  by (auto simp: fields_of_def split: option.splits json.splits if_splits)

lemma instant_ofD: "instant_of inst v = Some t \<longleftrightarrow> (\<exists>s. v = Some (JStr s) \<and> inst s = Some t)"
  by (auto simp: instant_of_def split: option.splits json.splits)

lemma withinD: "within inst until al \<longleftrightarrow> (\<exists>s t. map_of al ''valid_until'' = Some (JStr s) \<and> inst s = Some t \<and> until \<le> t)"
  by (auto simp: within_def instant_of_def split: option.splits json.splits)

lemma permission_textsD: "permission_texts ps = Some ts \<Longrightarrow> set ts \<subseteq> set product_permissions"
  by (induction ps arbitrary: ts rule: permission_texts.induct) (auto split: if_splits)

lemma permissions_ofD: "permissions_of v = Some ts \<Longrightarrow> set ts \<subseteq> set product_permissions \<and> distinct ts"
  by (auto simp: permissions_of_def Option.bind_eq_Some_conv dest: permission_textsD split: option.splits json.splits if_splits)

lemma no_authority_state [simp]: "au_state (no_authority s r) = s" by (simp add: no_authority_def)

text \<open>A grant of the product that is active now and outlives the answer.\<close>

definition granted :: "(string \<Rightarrow> timestamp option) \<Rightarrow> timestamp \<Rightarrow> timestamp \<Rightarrow> fields \<Rightarrow> bool" where
  "granted inst now until al \<longleftrightarrow> (\<exists>g. map_of al ''entitlements'' = Some (JList [JObj g]) \<and> map_of g ''code'' = Some (JStr dash_product)
     \<and> active_interval inst now g \<and> within inst until g)"

definition member_of_project :: "(string \<Rightarrow> timestamp option) \<Rightarrow> timestamp \<Rightarrow> timestamp \<Rightarrow> string \<Rightarrow> string \<Rightarrow> fields \<Rightarrow> bool" where
  "member_of_project inst now until org project al \<longleftrightarrow> (\<exists>m. map_of al ''membership'' = Some (JObj m)
     \<and> map_of m ''organization_id'' = Some (JStr org) \<and> map_of m ''project_id'' = Some (JStr project)
     \<and> active_interval inst now m \<and> within inst until m)"

definition answers :: "string \<Rightarrow> string \<Rightarrow> string \<Rightarrow> fields \<Rightarrow> bool" where
  "answers issuer subject request al \<longleftrightarrow> map_of al ''request_id'' = Some (JStr request) \<and> map_of al ''decision'' = Some (JStr ''allow'')
     \<and> (\<exists>p. map_of al ''principal'' = Some (JObj p) \<and> map_of p ''iss'' = Some (JStr issuer) \<and> map_of p ''sub'' = Some (JStr subject))"

lemma check_grantD: "check_grant inst now until (map_of al ''entitlements'') = Some g \<Longrightarrow> granted inst now until al"
  by (auto simp: check_grant_def granted_def answer_simps split: option.splits json.splits list.splits if_splits)

lemma uuid_ofD: "uuid_of v = Some s \<Longrightarrow> v = Some (JStr s)"
  by (auto simp: uuid_of_def split: option.splits json.splits if_splits)

lemma check_membershipD:
  assumes "check_membership inst now until m = Some (org, project, names)" "map_of al ''membership'' = Some (JObj m)"
  shows "member_of_project inst now until org project al"
  using assms by (auto simp: check_membership_def member_of_project_def answer_simps dest!: uuid_ofD split: if_splits)

lemma check_allowD:
  assumes "check_allow inst now evaluated al = Some v" "au_state v = Ready"
  shows "\<exists>until org project. au_until v = Some until \<and> au_organization v = Some org \<and> au_project v = Some project
    \<and> now < until \<and> until \<le> now + 120000000 \<and> until \<le> evaluated + 120000000
    \<and> member_of_project inst now until org project al \<and> granted inst now until al
    \<and> set (au_permissions v) \<subseteq> set product_permissions \<and> dash_product @ ''.read'' \<in> set (au_permissions v)"
  using assms unfolding check_allow_def
  by (auto simp: answer_simps split: if_splits)
    (linarith | erule (1) check_membershipD | erule check_grantD | blast dest: permissions_ofD)+

lemma check_envelopeD:
  assumes "check_envelope inst issuer subject request now al = Some t" "map_of al ''decision'' = Some (JStr ''allow'')"
  shows "answers issuer subject request al \<and> t \<le> now + 30000000"
  using assms by (auto simp: check_envelope_def answers_def answer_simps split: if_splits)

text \<open>An answer is taken for a right only when it is for this request and this principal, its membership and its entitlement are active,
  outlive it, and it lasts two minutes at most; the permissions are the product's own.\<close>
lemma authority_ready:
  assumes "validate_authority inst issuer subject request now payload = Some v" "au_state v = Ready"
  shows "\<exists>al until org project. payload = JObj al \<and> answers issuer subject request al \<and> member_of_project inst now until org project al
    \<and> granted inst now until al \<and> now < until \<and> until \<le> now + 120000000 \<and> au_until v = Some until
    \<and> au_organization v = Some org \<and> au_project v = Some project
    \<and> set (au_permissions v) \<subseteq> set product_permissions \<and> dash_product @ ''.read'' \<in> set (au_permissions v)"
proof -
  obtain al where al: "payload = JObj al" using assms(1) by (auto simp: validate_authority_def split: json.splits)
  with assms obtain t where "check_envelope inst issuer subject request now al = Some t" "map_of al ''decision'' = Some (JStr ''allow'')"
    "check_allow inst now t al = Some v"
    by (auto simp: validate_authority_def Let_def answer_simps split: if_splits)
  then have "answers issuer subject request al" "au_state v = Ready" "check_allow inst now t al = Some v"
    using check_envelopeD assms(2) by blast+
  with al check_allowD [OF this(3,2)] show ?thesis by auto
qed

section \<open>Projected sessions\<close>

lemma live_authorityD:
  assumes "live_authority br issuer subject = (a, cs)" "c \<in> set cs"
  shows "cs = [c] \<and> br_resolve br issuer subject = Some a \<and> au_state a = Ready \<and> br_client_active br c
    \<and> (\<exists>g p. au_organization a = Some g \<and> au_project a = Some p \<and> br_binding br g p = Some c)"
  using assms by (auto simp: live_authority_def bound_client_def split: if_splits pilot.splits option.splits)


text \<open>A session of a user whom My lets into one project.\<close>

definition sample_inst :: "string \<Rightarrow> timestamp option" where
  "sample_inst s = (if s = ''old'' then Some 0 else if s = ''now'' then Some 1000 else if s = ''soon'' then Some 2000 else None)"

definition sample_uuid :: string where "sample_uuid = ''01234567-89ab-cdef-0123-456789abcdef''"

definition sample_answer :: json where
  "sample_answer = JObj
     [(''contract_version'', JStr ''envidicy.authority.v1''), (''request_id'', JStr ''r''), (''decision'', JStr ''allow''),
      (''principal'', JObj [(''iss'', JStr issuer_url), (''sub'', JStr ''s'')]), (''evaluated_at'', JStr ''now''),
      (''membership'', JObj [(''status'', JStr ''active''), (''kind'', JStr ''direct''), (''organization_id'', JStr sample_uuid),
        (''organization_name'', JStr ''o''), (''project_id'', JStr sample_uuid), (''project_name'', JStr ''p''), (''brand_id'', JNull),
        (''brand_name'', JNull), (''timezone'', JStr ''UTC''), (''roles'', JList [JStr ''owner'']), (''version'', JInt 1),
        (''valid_from'', JStr ''old''), (''valid_until'', JStr ''soon'')]),
      (''entitlements'', JList [JObj [(''code'', JStr dash_product), (''status'', JStr ''active''), (''version'', JInt 1),
        (''valid_from'', JStr ''old''), (''valid_until'', JStr ''soon'')]]),
      (''permissions'', JList [JStr dash_product, JStr (dash_product @ ''.read'')]), (''valid_until'', JStr ''soon''),
      (''authority_revision'', JStr ''1''), (''revocation'', JObj [(''membership_generation'', JInt 1), (''entitlement_generation'', JInt 1),
        (''checked_at'', JStr ''now'')])]"

definition sample_bridge :: bridge where
  "sample_bridge = \<lparr>br_principal = (\<lambda>i. if i = 3 then Some (issuer_url, ''s'') else None), br_enabled = True, br_pilot = None,
     br_resolve = (\<lambda>i s. validate_authority sample_inst i s ''r'' 1001 sample_answer), br_binding = (\<lambda>g p. if p = sample_uuid then Some 7 else None),
     br_client_active = (\<lambda>c. c = 7)\<rparr>"

definition sample_facts :: session_facts where
  "sample_facts = \<lparr>sx_session = 1, sx_user = 3, sx_role = Admin, sx_expires = 9000, sx_id_method = True, sx_issued = 900\<rparr>"

definition sample_context :: session_context where
  "sample_context = \<lparr>cx_valid = True, cx_reason = None, cx_facts = Some sample_facts, cx_role = Admin, cx_global = True, cx_clients = [],
     cx_source = False, cx_authority = None\<rparr>"


end
