(* ===== verification/Identity_Invites.thy ===== *)
theory Identity_Invites
  imports Identity_Sessions
begin

text \<open>
  The invites of an agency in \<open>app/services/platform_admin.py\<close>: issue, list, revoke, resend, and
  \<open>accept_invite\<close> with the compensation it runs when no session can be issued.
\<close>

section \<open>Issue and revoke\<close>

record invite_create =
  ic_email :: string
  ic_role :: agency_role
  ic_days :: int

record invite_reply =
  ir_invite :: invite_row
  ir_token :: string
  ir_url :: string

definition days :: "int \<Rightarrow> int" where "days n = n * 86400000000"

definition accept_url :: "string \<Rightarrow> string \<Rightarrow> string" where
  "accept_url base token = rev (dropWhile (\<lambda>c. c = CHR ''/'') (rev base)) @ ''/login?invite_token='' @ token"

text \<open>The older pending invites of the email are revoked first.\<close>

definition revoke_pending :: "uuid \<Rightarrow> string \<Rightarrow> timestamp \<Rightarrow> invite_row list \<Rightarrow> invite_row list" where
  "revoke_pending g email now rows = update_rows
     (\<lambda>v. iv_agency v = g \<and> str_lower (iv_email v) = str_lower email \<and> iv_status v = InvitePending)
     (\<lambda>v. v\<lparr>iv_status := InviteRevoked, iv_updated := now\<rparr>) rows"

definition invite_refs_ok :: "(string \<Rightarrow> string) \<Rightarrow> uuid \<Rightarrow> string \<Rightarrow> uuid option \<Rightarrow> identity_db \<Rightarrow> bool" where
  "invite_refs_ok digest v token invited_by db \<longleftrightarrow> v \<notin> iv_id ` set (tb_invites db) \<and> digest token \<notin> iv_hash ` set (tb_invites db)
     \<and> (case invited_by of None \<Rightarrow> True | Some i \<Rightarrow> find_user i db \<noteq> None)"

definition issue_invite ::
  "(string \<Rightarrow> string) \<Rightarrow> uuid \<Rightarrow> invite_create \<Rightarrow> uuid option \<Rightarrow> string \<Rightarrow> uuid \<Rightarrow> string \<Rightarrow> timestamp \<Rightarrow> identity_db
     \<Rightarrow> auth_error + invite_reply \<times> identity_db" where
  "issue_invite digest g p invited_by base v token now db =
     (if find_agency g db = None then Inl AgencyNotFound
      else if \<not> invite_refs_ok digest v token invited_by db then Inl RowConflict
      else
        (let email = str_lower (str_strip (ic_email p));
             row = \<lparr>iv_id = v, iv_agency = g, iv_email = email, iv_role = ic_role p, iv_hash = digest token, iv_status = InvitePending,
                    iv_expires = now + days (ic_days p), iv_invited_by = invited_by, iv_accepted_user = None, iv_accepted_at = None,
                    iv_created = now, iv_updated = now\<rparr>
         in Inr (\<lparr>ir_invite = row, ir_token = token, ir_url = accept_url base token\<rparr>,
                 db\<lparr>tb_invites := revoke_pending g email now (tb_invites db) @ [row]\<rparr>)))"

definition list_invites :: "uuid \<Rightarrow> invite_status option \<Rightarrow> identity_db \<Rightarrow> auth_error + invite_row list" where
  "list_invites g status db = (if find_agency g db = None then Inl AgencyNotFound
     else Inr (sort_desc iv_updated (filter (\<lambda>v. iv_agency v = g \<and> (status = None \<or> Some (iv_status v) = status)) (tb_invites db))))"

definition find_invite :: "uuid \<Rightarrow> uuid \<Rightarrow> identity_db \<Rightarrow> invite_row option" where
  "find_invite g v db = find (\<lambda>r. iv_id r = v \<and> iv_agency r = g) (tb_invites db)"

text \<open>One transaction: the row cannot change between the two statements, so the last guard of the code never fires.\<close>

definition revoke_invite :: "uuid \<Rightarrow> uuid \<Rightarrow> timestamp \<Rightarrow> identity_db \<Rightarrow> auth_error + invite_row \<times> identity_db" where
  "revoke_invite g v now db =
     (if find_agency g db = None then Inl AgencyNotFound
      else case find_invite g v db of
        None \<Rightarrow> Inl InviteNotFound
      | Some row \<Rightarrow>
          if iv_status row \<in> {InviteAccepted, InviteExpired} then Inl InviteNotRevocable
          else if iv_status row = InviteRevoked then Inr (row, db)
          else (let new = row\<lparr>iv_status := InviteRevoked, iv_updated := now\<rparr> in
            Inr (new, db\<lparr>tb_invites := update_rows (\<lambda>r. iv_id r = v) (\<lambda>_. new) (tb_invites db)\<rparr>)))"

text \<open>The revocation of a pending invite is committed before the new one is issued.\<close>

definition resend_invite ::
  "(string \<Rightarrow> string) \<Rightarrow> uuid \<Rightarrow> uuid \<Rightarrow> int \<Rightarrow> uuid option \<Rightarrow> string \<Rightarrow> uuid \<Rightarrow> string \<Rightarrow> timestamp \<Rightarrow> timestamp \<Rightarrow> identity_db
     \<Rightarrow> (auth_error + invite_reply) \<times> identity_db" where
  "resend_invite digest g v ttl_days invited_by base v2 token now now2 db =
     (if find_agency g db = None then (Inl AgencyNotFound, db)
      else case find_invite g v db of
        None \<Rightarrow> (Inl InviteNotFound, db)
      | Some row \<Rightarrow>
          (let db1 = (if iv_status row = InvitePending
             then db\<lparr>tb_invites := update_rows (\<lambda>r. iv_id r = v) (\<lambda>r. r\<lparr>iv_status := InviteRevoked, iv_updated := now\<rparr>) (tb_invites db)\<rparr>
             else db) in
           case issue_invite digest g \<lparr>ic_email = iv_email row, ic_role = iv_role row, ic_days = ttl_days\<rparr> invited_by base v2 token now2 db1 of
             Inl e \<Rightarrow> (Inl e, db1)
           | Inr (r, db2) \<Rightarrow> (Inr r, db2)))"

section \<open>Accept\<close>

record accept_request =
  ar_token :: string
  ar_name :: "string option"
  ar_password :: "string option"

record accept_reply =
  ax_invite :: invite_row
  ax_agency :: agency_row
  ax_member :: member_row
  ax_user :: user_row
  ax_session :: session_reply

record accept_gen =
  gn_user :: uuid
  gn_member :: uuid
  gn_session :: uuid
  gn_token :: string
  gn_password :: string

text \<open>\<open>str.title\<close>: a letter after a letter is lower case, any other letter upper case.\<close>

definition is_letter :: "char \<Rightarrow> bool" where "is_letter c = (is_upper c \<or> is_lower c)"

fun title_case :: "bool \<Rightarrow> string \<Rightarrow> string" where
  "title_case inside [] = []"
| "title_case inside (c # cs) = (if inside then lower_char c else upper_char c) # title_case (is_letter c) cs"

definition derive_name :: "string \<Rightarrow> string" where
  "derive_name email =
     (let local = map (\<lambda>c. if c \<in> {CHR ''.'', CHR ''_'', CHR ''-''} then CHR '' '' else c) (takeWhile (\<lambda>c. c \<noteq> CHR ''@'') email);
          name = title_case False (str_strip local)
      in if name = [] then ''Agency User'' else name)"

definition invited_name :: "accept_request \<Rightarrow> string \<Rightarrow> string" where
  "invited_name p email = (case given_text (ar_name p) of Some n \<Rightarrow> str_strip n | None \<Rightarrow> derive_name email)"

definition invited_password :: "accept_request \<Rightarrow> accept_gen \<Rightarrow> string" where
  "invited_password p ge = (let pw = str_strip (given_or (ar_password p) []) in
     if length pw < 8 then gn_password ge @ ''Aa1'' else pw)"

text \<open>The invited user: an active agency user who is signed in, or a new one when nobody is.\<close>

definition invited_user ::
  "(string \<Rightarrow> string) \<Rightarrow> accept_request \<Rightarrow> accept_gen \<Rightarrow> uuid option \<Rightarrow> (nat \<Rightarrow> timestamp) \<Rightarrow> string \<Rightarrow> identity_db
     \<Rightarrow> auth_error + bool \<times> user_row \<times> identity_db" where
  "invited_user pwhash p ge accepting clock email db =
     (case find_user_by_email email db of
        Some u \<Rightarrow>
          (case first_error [raise_if (us_role u \<noteq> Agency) UserRoleConflict, raise_if (us_status u \<noteq> UserActive) ExistingUserInactive,
             raise_if (accepting \<noteq> Some (us_id u)) ExistingUserAuthRequired] of
             Some e \<Rightarrow> Inl e
           | None \<Rightarrow> Inr (False, u, db))
      | None \<Rightarrow>
          if accepting \<noteq> None then Inl InviteIdentityMismatch
          else case create_user \<lparr>uc_email = Some email, uc_name = invited_name p email, uc_role = Agency, uc_status = UserActive\<rparr>
                 (gn_user ge) (clock 1) db of
            Inl e \<Rightarrow> Inl e
          | Inr (u, db1) \<Rightarrow>
              (case set_password pwhash (us_id u) (invited_password p ge) (clock 2) db1 of
                 Inl e \<Rightarrow> Inl e
               | Inr db2 \<Rightarrow> Inr (True, u, db2)))"

definition accepted_row :: "uuid \<Rightarrow> timestamp \<Rightarrow> invite_row \<Rightarrow> invite_row" where
  "accepted_row i now v = v\<lparr>iv_status := InviteAccepted, iv_accepted_user := Some i, iv_accepted_at := Some now, iv_updated := now\<rparr>"

definition accepted_tables :: "(nat \<Rightarrow> timestamp) \<Rightarrow> invite_row \<Rightarrow> uuid \<Rightarrow> identity_db \<Rightarrow> identity_db" where
  "accepted_tables clock row i db =
     (let db2 = rebuild_user_access (clock 3) i db in
      db2\<lparr>tb_invites := update_rows (\<lambda>r. iv_id r = iv_id row) (accepted_row i (clock 0)) (tb_invites db2)\<rparr>)"

text \<open>The invite, the member row and the grants as they were, after a session was refused.\<close>

definition restored_tables :: "uuid \<Rightarrow> uuid \<Rightarrow> timestamp \<Rightarrow> timestamp \<Rightarrow> member_row option \<Rightarrow> uuid \<Rightarrow> identity_db \<Rightarrow> identity_db" where
  "restored_tables v i now now2 before m db = rebuild_user_access now2 i
     (db\<lparr>tb_invites := update_rows
            (\<lambda>r. iv_id r = v \<and> iv_status r = InviteAccepted \<and> iv_accepted_user r = Some i \<and> iv_accepted_at r = Some now)
            (\<lambda>r. r\<lparr>iv_status := InvitePending, iv_accepted_user := None, iv_accepted_at := None, iv_updated := now\<rparr>) (tb_invites db),
         tb_members := (case before of
             Some t \<Rightarrow> update_rows (\<lambda>r. mb_id r = mb_id t)
               (\<lambda>r. r\<lparr>mb_role := mb_role t, mb_status := mb_status t, mb_updated := mb_updated t\<rparr>) (tb_members db)
           | None \<Rightarrow> filter (\<lambda>r. mb_id r \<noteq> m) (tb_members db))\<rparr>)"

definition undo_accept ::
  "uuid \<Rightarrow> uuid \<Rightarrow> timestamp \<Rightarrow> timestamp \<Rightarrow> member_row option \<Rightarrow> uuid \<Rightarrow> bool \<Rightarrow> identity_db \<Rightarrow> auth_error option \<times> identity_db" where
  "undo_accept v i now now2 before m created db =
     (let db3 = restored_tables v i now now2 before m db
      in if created then (case delete_user i db3 of Inl e \<Rightarrow> (Some e, db3) | Inr db4 \<Rightarrow> (None, db4)) else (None, db3))"

text \<open>The session has the only errors that are not an HTTP error: \<open>IntegrityError\<close> is replaced.\<close>

definition provisioning_error :: "auth_error \<Rightarrow> auth_error" where
  "provisioning_error e = (if e = RowConflict then InviteProvisioningFailed else e)"

definition finish_accept ::
  "(string \<Rightarrow> string) \<Rightarrow> accept_gen \<Rightarrow> int \<Rightarrow> (nat \<Rightarrow> timestamp) \<Rightarrow> invite_row \<Rightarrow> agency_row \<Rightarrow> bool \<Rightarrow> user_row \<Rightarrow> identity_db
     \<Rightarrow> (auth_error + accept_reply) \<times> identity_db" where
  "finish_accept digest ge ttl clock row a created u db =
     (let before = find_member (iv_agency row) (us_id u) db in
      case put_member (iv_agency row) \<lparr>mw_user = us_id u, mw_role = iv_role row, mw_status = UserActive\<rparr> (gn_member ge) (clock 0) db of
        Inl e \<Rightarrow> (Inl e, db)
      | Inr (member, db1) \<Rightarrow>
          (let db3 = accepted_tables clock row (us_id u) db1
           in case issue_session digest \<lparr>sq_user = us_id u, sq_ttl = ttl, sq_metadata = None\<rparr> (gn_session ge) (gn_token ge) (clock 4) db3 of
                Inr (s, db4) \<Rightarrow> (Inr \<lparr>ax_invite = accepted_row (us_id u) (clock 0) row, ax_agency = a, ax_member = member, ax_user = u,
                   ax_session = s\<rparr>, db4)
              | Inl e \<Rightarrow>
                  (case undo_accept (iv_id row) (us_id u) (clock 0) (clock 5) before (mb_id member) created db3 of
                     (Some e', db4) \<Rightarrow> (Inl e', db4)
                   | (None, db4) \<Rightarrow> (Inl (provisioning_error e), db4))))"

text \<open>\<open>clock 0\<close> is the \<open>now\<close> of the operation, the others are the readings of the operations it calls.  The row count of the
  final update of the invite is always one here: nothing interleaves with the transaction.\<close>

definition accept_invite ::
  "(string \<Rightarrow> string) \<Rightarrow> (string \<Rightarrow> string) \<Rightarrow> accept_request \<Rightarrow> int \<Rightarrow> uuid option \<Rightarrow> accept_gen \<Rightarrow> (nat \<Rightarrow> timestamp) \<Rightarrow> identity_db
     \<Rightarrow> (auth_error + accept_reply) \<times> identity_db" where
  "accept_invite digest pwhash p ttl accepting ge clock db =
     (case find (\<lambda>v. iv_hash v = digest (str_strip (ar_token p))) (tb_invites db) of
        None \<Rightarrow> (Inl InviteInvalid, db)
      | Some row \<Rightarrow>
          if iv_status row \<noteq> InvitePending then (Inl InviteNotPending, db)
          else if iv_expires row < clock 0
          then (Inl InviteIsExpired, db\<lparr>tb_invites := update_rows (\<lambda>r. iv_id r = iv_id row)
                  (\<lambda>r. r\<lparr>iv_status := InviteExpired, iv_updated := clock 0\<rparr>) (tb_invites db)\<rparr>)
          else case find_agency (iv_agency row) db of
            None \<Rightarrow> (Inl AgencyNotFound, db)
          | Some a \<Rightarrow>
              if ay_status a \<noteq> AgencyActive then (Inl AgencyInactive, db)
              else case invited_user pwhash p ge accepting clock (iv_email row) db of
                Inl e \<Rightarrow> (Inl e, db)
              | Inr (created, u, db1) \<Rightarrow> finish_accept digest ge ttl clock row a created u db1)"

end
