(* ===== verification/Client_Invites.thy ===== *)
theory Client_Invites
  imports Access Identity_Invites
begin

text \<open>
  The invites of a client's own users in \<open>app/main.py\<close>: issue, list, revoke, the revocation when a
  client is archived, and \<open>_accept_client_invite\<close> with the compensation it runs when the provisioning
  fails.  Digest, password hash, generated ids and tokens are arguments.
\<close>

section \<open>The table\<close>

record client_invite =
  vc_id :: uuid
  vc_client :: uuid
  vc_email :: string
  vc_hash :: string
  vc_status :: invite_status
  vc_expires :: timestamp
  vc_invited_by :: "uuid option"
  vc_accepted_user :: "uuid option"
  vc_accepted_at :: "timestamp option"
  vc_created :: timestamp
  vc_updated :: timestamp

datatype (plugins only: code size) client_invite_error =
    InviteEmailMissing | InviteClientMissing | InviteClientInactive | InviteRowConflict | ClientInviteMissing
  | InviteUnknown | InviteUsed | InviteWithdrawn | InviteTooLate | InviteNotClaimed | InviteUserRole | InviteUserInactive
  | InviteSignIn | InviteSignOut | InviteProvisioning | InviteStore auth_error

record client_invite_reply =
  vr_invite :: client_invite
  vr_token :: string
  vr_url :: string

definition withdrawn :: "timestamp \<Rightarrow> client_invite \<Rightarrow> client_invite" where
  "withdrawn now v = v\<lparr>vc_status := InviteRevoked, vc_updated := now\<rparr>"

definition issue_client_invite ::
  "(string \<Rightarrow> string) \<Rightarrow> uuid \<Rightarrow> string \<Rightarrow> int \<Rightarrow> uuid option \<Rightarrow> string \<Rightarrow> uuid \<Rightarrow> string \<Rightarrow> timestamp \<Rightarrow> account_db \<Rightarrow> identity_db
     \<Rightarrow> client_invite list \<Rightarrow> client_invite_error + client_invite_reply \<times> client_invite list" where
  "issue_client_invite digest c email ttl_days invited_by base v token now acc db rows =
     (let norm = str_lower (str_strip email) in
      if norm = [] then Inl InviteEmailMissing
      else case sql_client_get c acc of
        None \<Rightarrow> Inl InviteClientMissing
      | Some client \<Rightarrow>
          if cl_status client \<noteq> RActive then Inl InviteClientInactive
          else if v \<in> vc_id ` set rows \<or> digest token \<in> vc_hash ` set rows
            \<or> (case invited_by of None \<Rightarrow> False | Some i \<Rightarrow> find_user i db = None) then Inl InviteRowConflict
          else
            (let row = \<lparr>vc_id = v, vc_client = c, vc_email = norm, vc_hash = digest token, vc_status = InvitePending,
                        vc_expires = now + days (max 1 ttl_days), vc_invited_by = invited_by, vc_accepted_user = None,
                        vc_accepted_at = None, vc_created = now, vc_updated = now\<rparr>;
                 older = update_rows (\<lambda>r. vc_client r = c \<and> str_lower (vc_email r) = norm \<and> vc_status r = InvitePending) (withdrawn now) rows
             in Inr (\<lparr>vr_invite = row, vr_token = token, vr_url = accept_url base token\<rparr>, older @ [row])))"

text \<open>Listing a client's invites first marks the pending ones that have run out.\<close>

definition expire_invites :: "uuid \<Rightarrow> timestamp \<Rightarrow> client_invite list \<Rightarrow> client_invite list" where
  "expire_invites c now rows = update_rows (\<lambda>r. vc_client r = c \<and> vc_status r = InvitePending \<and> vc_expires r < now)
     (\<lambda>r. r\<lparr>vc_status := InviteExpired, vc_updated := now\<rparr>) rows"

definition list_client_invites ::
  "uuid \<Rightarrow> invite_status option \<Rightarrow> timestamp \<Rightarrow> client_invite list \<Rightarrow> client_invite list \<times> client_invite list" where
  "list_client_invites c status now rows =
     (let rows' = expire_invites c now rows
      in (sort_desc vc_updated (filter (\<lambda>r. vc_client r = c \<and> (status = None \<or> status = Some (vc_status r))) rows'), rows'))"

definition revoke_client_invite ::
  "uuid \<Rightarrow> uuid \<Rightarrow> timestamp \<Rightarrow> client_invite list \<Rightarrow> client_invite_error + client_invite \<times> client_invite list" where
  "revoke_client_invite c v now rows =
     (case find (\<lambda>r. vc_id r = v \<and> vc_client r = c) rows of
        None \<Rightarrow> Inl ClientInviteMissing
      | Some r \<Rightarrow>
          if vc_status r \<noteq> InvitePending then Inr (r, rows)
          else Inr (withdrawn now r, update_rows (\<lambda>x. vc_id x = v \<and> vc_status x = InvitePending) (withdrawn now) rows))"

definition revoke_pending_client_invites :: "uuid \<Rightarrow> timestamp \<Rightarrow> client_invite list \<Rightarrow> client_invite list" where
  "revoke_pending_client_invites c now rows =
     update_rows (\<lambda>r. vc_client r = c \<and> vc_status r = InvitePending) (withdrawn now) rows"

section \<open>Accept\<close>

definition client_user_name :: "string \<Rightarrow> string" where
  "client_user_name email =
     (let local = map (\<lambda>c. if c \<in> {CHR ''.'', CHR ''_'', CHR ''-''} then CHR '' '' else c) (takeWhile (\<lambda>c. c \<noteq> CHR ''@'') email);
          name = title_case False (str_strip local)
      in if name = [] then ''Client User'' else name)"

definition invited_client_name :: "accept_request \<Rightarrow> string \<Rightarrow> string" where
  "invited_client_name p email = (case given_text (map_option str_strip (ar_name p)) of Some n \<Rightarrow> n | None \<Rightarrow> client_user_name email)"

text \<open>The checks of the invite; an invite that has run out is marked, and the mark is committed with the error.\<close>

definition check_client_invite ::
  "string \<Rightarrow> timestamp \<Rightarrow> account_db \<Rightarrow> client_invite list \<Rightarrow> (client_invite_error + client_invite) \<times> client_invite list" where
  "check_client_invite h now acc rows =
     (case find (\<lambda>r. vc_hash r = h) rows of
        None \<Rightarrow> (Inl InviteUnknown, rows)
      | Some r \<Rightarrow>
          if vc_status r = InviteAccepted then (Inl InviteUsed, rows)
          else if vc_status r = InviteRevoked then (Inl InviteWithdrawn, rows)
          else if vc_expires r \<le> now
          then (Inl InviteTooLate, update_rows (\<lambda>x. vc_id x = vc_id r) (\<lambda>x. x\<lparr>vc_status := InviteExpired, vc_updated := now\<rparr>) rows)
          else case sql_client_get (vc_client r) acc of
            None \<Rightarrow> (Inl InviteClientMissing, rows)
          | Some c \<Rightarrow> if cl_status c \<noteq> RActive then (Inl InviteClientInactive, rows) else (Inr r, rows))"

definition invited_client_user ::
  "(string \<Rightarrow> string) \<Rightarrow> accept_request \<Rightarrow> accept_gen \<Rightarrow> uuid option \<Rightarrow> (nat \<Rightarrow> timestamp) \<Rightarrow> string \<Rightarrow> identity_db
     \<Rightarrow> client_invite_error + bool \<times> user_row \<times> identity_db" where
  "invited_client_user pwhash p ge accepting clock email db =
     (case find_user_by_email email db of
        Some u \<Rightarrow>
          (case first_error [raise_if (us_role u \<noteq> Client) InviteUserRole, raise_if (us_status u \<noteq> UserActive) InviteUserInactive,
             raise_if (accepting \<noteq> Some (us_id u)) InviteSignIn] of
             Some e \<Rightarrow> Inl e
           | None \<Rightarrow> Inr (False, u, db))
      | None \<Rightarrow>
          if accepting \<noteq> None then Inl InviteSignOut
          else case create_user \<lparr>uc_email = Some email, uc_name = invited_client_name p email, uc_role = Client, uc_status = UserActive\<rparr>
                 (gn_user ge) (clock 1) db of
            Inl e \<Rightarrow> Inl (InviteStore e)
          | Inr (u, db1) \<Rightarrow>
              (case set_password pwhash (us_id u) (invited_password p ge) (clock 2) db1 of
                 Inl e \<Rightarrow> Inl (InviteStore e)
               | Inr db2 \<Rightarrow> Inr (True, u, db2)))"

text \<open>Dropping a user that was created for the invite; its own error wins.\<close>

definition drop_created :: "bool \<Rightarrow> uuid \<Rightarrow> client_invite_error \<Rightarrow> identity_db \<Rightarrow> client_invite_error \<times> identity_db" where
  "drop_created created i e db =
     (if \<not> created then (e, db)
      else case delete_user i db of Inl e' \<Rightarrow> (InviteStore e', db) | Inr db' \<Rightarrow> (e, db'))"

definition claimed_invite :: "uuid \<Rightarrow> timestamp \<Rightarrow> client_invite \<Rightarrow> client_invite" where
  "claimed_invite i now r = r\<lparr>vc_status := InviteAccepted, vc_accepted_user := Some i, vc_accepted_at := Some now, vc_updated := now\<rparr>"

definition released_invite :: "timestamp \<Rightarrow> client_invite \<Rightarrow> client_invite" where
  "released_invite now r = r\<lparr>vc_status := InvitePending, vc_accepted_user := None, vc_accepted_at := None, vc_updated := now\<rparr>"

text \<open>The grant and the session; the tables are those of the moment of the error, if there is one.\<close>

definition provision_client ::
  "(string \<Rightarrow> string) \<Rightarrow> accept_gen \<Rightarrow> int \<Rightarrow> (nat \<Rightarrow> timestamp) \<Rightarrow> uuid \<Rightarrow> uuid \<Rightarrow> identity_db \<Rightarrow> (auth_error + session_reply) \<times> identity_db" where
  "provision_client digest ge ttl clock i c db =
     (case assign_client_access i c ClientGrant (clock 3) db of
        Inl e \<Rightarrow> (Inl e, db)
      | Inr db1 \<Rightarrow>
          (case issue_session digest \<lparr>sq_user = i, sq_ttl = ttl, sq_metadata = None\<rparr> (gn_session ge) (gn_token ge) (clock 4) db1 of
             Inl e \<Rightarrow> (Inl e, db1)
           | Inr (s, db2) \<Rightarrow> (Inr s, db2)))"

definition provision_error :: "auth_error \<Rightarrow> client_invite_error" where
  "provision_error e = (if e = RowConflict then InviteProvisioning else InviteStore e)"

record client_accept_reply =
  va_invite :: client_invite
  va_client :: client
  va_user :: user_row
  va_session :: session_reply

text \<open>The claim and what follows, for the user the invite is for.  Nothing interleaves here: the claim fails only for an invite that
  was marked as expired although it has not run out.\<close>

definition claim_client_invite ::
  "(string \<Rightarrow> string) \<Rightarrow> accept_gen \<Rightarrow> int \<Rightarrow> (nat \<Rightarrow> timestamp) \<Rightarrow> client_invite \<Rightarrow> bool \<Rightarrow> user_row \<Rightarrow> account_db \<Rightarrow> identity_db
     \<Rightarrow> client_invite list \<Rightarrow> (client_invite_error + client_accept_reply) \<times> client_invite list \<times> identity_db" where
  "claim_client_invite digest ge ttl clock r created u acc db rows =
     (let i = us_id u; c = vc_client r; now = clock 0;
          had = (\<exists>g \<in> set (list_client_access (Some i) db). gr_client g = c) in
      if vc_status r \<noteq> InvitePending then (case drop_created created i InviteNotClaimed db of (e, db') \<Rightarrow> (Inl e, rows, db'))
      else
        (let rows1 = update_rows (\<lambda>x. vc_id x = vc_id r \<and> vc_status x = InvitePending) (claimed_invite i now) rows in
         case provision_client digest ge ttl clock i c db of
           (Inr s, db1) \<Rightarrow>
             (case sql_client_get c acc of
                None \<Rightarrow> (Inl InviteClientMissing, rows1, db1)
              | Some client \<Rightarrow> (Inr \<lparr>va_invite = claimed_invite i now r, va_client = client, va_user = u, va_session = s\<rparr>, rows1, db1))
         | (Inl e, db1) \<Rightarrow>
             (let db2 = (if had then db1 else remove_client_access i c db1);
                  rows2 = update_rows (\<lambda>x. vc_id x = vc_id r \<and> vc_status x = InviteAccepted \<and> vc_accepted_user x = Some i
                    \<and> vc_accepted_at x = Some now) (released_invite now) rows1
              in case drop_created created i (provision_error e) db2 of (e', db3) \<Rightarrow> (Inl e', rows2, db3))))"

definition accept_client_invite ::
  "(string \<Rightarrow> string) \<Rightarrow> (string \<Rightarrow> string) \<Rightarrow> accept_request \<Rightarrow> int \<Rightarrow> uuid option \<Rightarrow> accept_gen \<Rightarrow> (nat \<Rightarrow> timestamp) \<Rightarrow> account_db
     \<Rightarrow> identity_db \<Rightarrow> client_invite list \<Rightarrow> (client_invite_error + client_accept_reply) \<times> client_invite list \<times> identity_db" where
  "accept_client_invite digest pwhash p ttl accepting ge clock acc db rows =
     (case check_client_invite (digest (str_strip (ar_token p))) (clock 0) acc rows of
        (Inl e, rows') \<Rightarrow> (Inl e, rows', db)
      | (Inr r, _) \<Rightarrow>
          (case invited_client_user pwhash p ge accepting clock (str_lower (str_strip (vc_email r))) db of
             Inl e \<Rightarrow> (Inl e, rows, db)
           | Inr (created, u, db1) \<Rightarrow> claim_client_invite digest ge ttl clock r created u acc db1 rows))"

end
