(* ===== verification/Identity_Laws.thy ===== *)
theory Identity_Laws
  imports Identity_Invites
begin

text \<open>
  The invariant of the identity tables, and that every operation of the stores keeps it: keys are
  unique, references resolve, a grant has the type of its user's role, and the sessions of an inactive
  user are revoked.
\<close>

section \<open>The invariant\<close>

definition grant_type :: "actor_role \<Rightarrow> grant_role" where
  "grant_type r = (if r = Agency then AgencyGrant else ClientGrant)"

definition grant_ok :: "user_row list \<Rightarrow> grant_row \<Rightarrow> bool" where
  "grant_ok us r \<longleftrightarrow> (\<exists>u \<in> set us. us_id u = gr_user r \<and> us_role u \<noteq> Admin \<and> gr_role r = grant_type (us_role u))"

definition grants_of :: "uuid \<Rightarrow> grant_row list \<Rightarrow> grant_row list" where
  "grants_of i gs = filter (\<lambda>r. gr_user r = i) gs"

definition solo_ok :: "grant_row list \<Rightarrow> user_row \<Rightarrow> bool" where
  "solo_ok gs u \<longleftrightarrow> (us_role u = SoloClient \<and> us_status u = UserActive \<longrightarrow> length (grants_of (us_id u) gs) \<le> 1)"

definition grants_ok :: "user_row list \<Rightarrow> grant_row list \<Rightarrow> bool" where
  "grants_ok us gs \<longleftrightarrow> distinct (map (\<lambda>r. (gr_user r, gr_client r)) gs) \<and> (\<forall>r \<in> set gs. grant_ok us r) \<and> (\<forall>u \<in> set us. solo_ok gs u)"

definition session_ok :: "user_row list \<Rightarrow> session_row \<Rightarrow> bool" where
  "session_ok us s \<longleftrightarrow> (\<exists>u \<in> set us. us_id u = se_user s \<and> (us_status u = UserActive \<or> se_revoked s \<noteq> None))"

definition sessions_ok :: "user_row list \<Rightarrow> session_row list \<Rightarrow> bool" where
  "sessions_ok us ss \<longleftrightarrow> distinct (map se_id ss) \<and> distinct (map se_hash ss) \<and> (\<forall>s \<in> set ss. session_ok us s)"

definition members_ok :: "user_row list \<Rightarrow> member_row list \<Rightarrow> bool" where
  "members_ok us ms \<longleftrightarrow> distinct (map mb_id ms) \<and> distinct (map (\<lambda>m. (mb_agency m, mb_user m)) ms)
     \<and> (\<forall>m \<in> set ms. mb_user m \<in> us_id ` set us)"

definition tables_ok :: "user_row list \<Rightarrow> grant_row list \<Rightarrow> session_row list \<Rightarrow> member_row list \<Rightarrow> bool" where
  "tables_ok us gs ss ms \<longleftrightarrow> distinct (map us_id us) \<and> grants_ok us gs \<and> sessions_ok us ss \<and> members_ok us ms"

definition identity_ok :: "identity_db \<Rightarrow> bool" where
  "identity_ok db \<longleftrightarrow> tables_ok (tb_users db) (tb_grants db) (tb_sessions db) (tb_members db)"

lemma find_user_iff:
  "distinct (map us_id (tb_users db)) \<Longrightarrow> find_user i db = Some u \<longleftrightarrow> u \<in> set (tb_users db) \<and> us_id u = i"
  unfolding find_user_def by (metis (mono_tags) find_SomeD find_key_unique)

lemma find_user_None: "find_user i db = None \<longleftrightarrow> i \<notin> us_id ` set (tb_users db)"
  by (auto simp: find_user_def find_None_key)

lemma find_userD: "find_user i db = Some u \<Longrightarrow> u \<in> set (tb_users db) \<and> us_id u = i"
  by (auto simp: find_user_def dest: find_SomeD)

section \<open>Grants\<close>

lemma grants_of_filter: "length (grants_of i (filter p gs)) \<le> length (grants_of i gs)"
  by (induction gs) (auto simp: grants_of_def)

lemma grants_filter:
  assumes "grants_ok us gs"
  shows "grants_ok us (filter p gs)"
proof -
  have "solo_ok (filter p gs) u" if "u \<in> set us" for u
    using assms that grants_of_filter [of "us_id u" p gs] by (auto simp: grants_ok_def solo_ok_def)
  with assms show ?thesis by (simp add: grants_ok_def distinct_map_filter)
qed

lemma grants_of_update: "(\<And>r. gr_user (f r) = gr_user r) \<Longrightarrow> length (grants_of i (update_rows p f gs)) = length (grants_of i gs)"
  by (induction gs) (auto simp: grants_of_def)

text \<open>A new or refreshed grant of the right type.\<close>

lemma grants_upsert:
  assumes "grants_ok us gs" "distinct (map us_id us)" "u \<in> set us" "us_role u \<noteq> Admin" "role = grant_type (us_role u)"
    and solo: "us_role u = SoloClient \<Longrightarrow> \<forall>r \<in> set gs. gr_user r = us_id u \<longrightarrow> gr_client r = c"
  shows "grants_ok us (upsert_grant now (us_id u) role c gs)"
proof (cases "\<exists>r \<in> set gs. gr_user r = us_id u \<and> gr_client r = c")
  case True
  let ?f = "\<lambda>r. r\<lparr>gr_role := role, gr_updated := now\<rparr>"
  let ?gs = "update_rows (\<lambda>r. gr_user r = us_id u \<and> gr_client r = c) ?f gs"
  have up: "upsert_grant now (us_id u) role c gs = ?gs" using True by (simp add: upsert_grant_def)
  have "map (\<lambda>r. (gr_user r, gr_client r)) ?gs = map (\<lambda>r. (gr_user r, gr_client r)) gs" by (rule map_update_rows_inv) simp
  moreover have "grant_ok us r" if "r \<in> set ?gs" for r
    using that assms(1,3-5) by (auto simp: set_update_rows grants_ok_def grant_ok_def)
  moreover have "solo_ok ?gs x" if "x \<in> set us" for x
    using that assms(1) grants_of_update [of ?f "us_id x"] by (simp add: grants_ok_def solo_ok_def)
  ultimately show ?thesis using assms(1) unfolding up grants_ok_def by (metis (no_types, lifting))
next
  case False
  define r where "r = \<lparr>gr_id = autoincrement (map gr_id gs), gr_user = us_id u, gr_client = c, gr_role = role, gr_created = now, gr_updated = now\<rparr>"
  have up: "upsert_grant now (us_id u) role c gs = gs @ [r]" unfolding upsert_grant_def r_def if_not_P [OF False] ..
  have "solo_ok (gs @ [r]) x" if x: "x \<in> set us" for x
  proof (cases "us_id x = us_id u")
    case True
    then have "x = u" using assms(2,3) x key_unique by metis
    have "grants_of (us_id u) gs = []" if "us_role u = SoloClient"
      using solo [OF that] False by (auto simp: grants_of_def filter_empty_conv)
    with \<open>x = u\<close> show ?thesis by (auto simp: solo_ok_def grants_of_def r_def)
  next
    case False
    then have "grants_of (us_id x) (gs @ [r]) = grants_of (us_id x) gs" by (simp add: grants_of_def r_def)
    with assms(1) x show ?thesis by (simp add: grants_ok_def solo_ok_def)
  qed
  moreover have "grant_ok us r" using assms(3-5) by (auto simp: grant_ok_def r_def)
  ultimately show ?thesis using assms(1) False unfolding up grants_ok_def by (auto simp: r_def)
qed

lemma grants_agency_fold:
  assumes "distinct (map us_id us)" "u \<in> set us" "us_role u = Agency"
  shows "grants_ok us gs \<Longrightarrow> grants_ok us (fold (upsert_grant now (us_id u) AgencyGrant) cs gs)"
proof (induction cs arbitrary: gs)
  case (Cons c cs)
  have "grants_ok us (upsert_grant now (us_id u) AgencyGrant c gs)"
    by (rule grants_upsert [OF Cons.prems assms(1,2)]) (simp_all add: assms(3) grant_type_def)
  with Cons.IH show ?case by simp
qed simp

lemma agency_scope_nonempty: "agency_scope i db \<noteq> [] \<Longrightarrow> \<exists>u \<in> set (tb_users db). us_id u = i \<and> us_status u = UserActive \<and> us_role u = Agency"
  by (auto simp: agency_scope_def split: if_splits)

section \<open>Frames\<close>

lemma identity_grants: "identity_ok db \<Longrightarrow> grants_ok (tb_users db) gs \<Longrightarrow> identity_ok (db\<lparr>tb_grants := gs\<rparr>)"
  by (simp add: identity_ok_def tables_ok_def)

lemma identity_delete_grants [intro]: "identity_ok db \<Longrightarrow> identity_ok (delete_grants p db)"
  unfolding delete_grants_def by (rule identity_grants) (auto simp: identity_ok_def tables_ok_def intro: grants_filter)

lemma identity_agency_scope [intro]: "identity_ok db \<Longrightarrow> identity_ok (grant_agency_scope now i db)"
proof (cases "agency_scope i db = []")
  case True
  then show "identity_ok db \<Longrightarrow> ?thesis" by (simp add: grant_agency_scope_def)
next
  case False
  assume ok: "identity_ok db"
  from agency_scope_nonempty [OF False] obtain u where u: "u \<in> set (tb_users db)" "us_id u = i" "us_role u = Agency" by blast
  show ?thesis unfolding grant_agency_scope_def
    by (rule identity_grants [OF ok]) (use ok u grants_agency_fold in \<open>auto simp: identity_ok_def tables_ok_def\<close>)
qed

lemma identity_rebuild [intro]: "identity_ok db \<Longrightarrow> identity_ok (rebuild_user_access now i db)"
  by (auto simp: rebuild_user_access_def Let_def split: option.splits actor_role.splits)

lemma identity_rebuild_members [intro]: "identity_ok db \<Longrightarrow> identity_ok (rebuild_members now is db)"
  unfolding rebuild_members_def by (induction "is" arbitrary: db) auto

section \<open>Users\<close>

text \<open>One user row replaced, with the grants of the user deleted or of an unchanged type.\<close>

lemma set_replace_user: "i \<in> us_id ` set us \<Longrightarrow> us_id new = i \<Longrightarrow>
    set (update_rows (\<lambda>u. us_id u = i) (\<lambda>_. new) us) = insert new {u \<in> set us. us_id u \<noteq> i}"
  by (auto simp: set_update_rows)

lemma map_replace_user: "us_id new = i \<Longrightarrow> map us_id (update_rows (\<lambda>u. us_id u = i) (\<lambda>_. new) us) = map us_id us"
  by (rule map_update_rows_inv) simp

lemma grants_cleared:
  assumes "grants_ok us gs" "i \<in> us_id ` set us" "us_id new = i"
  shows "grants_ok (update_rows (\<lambda>u. us_id u = i) (\<lambda>_. new) us) (filter (\<lambda>r. gr_user r \<noteq> i) gs)"
proof -
  let ?gs = "filter (\<lambda>r. gr_user r \<noteq> i) gs"
  have ok: "grants_ok us ?gs" by (rule grants_filter [OF assms(1)])
  have "grants_of i ?gs = []" by (simp add: grants_of_def filter_empty_conv)
  then have "solo_ok ?gs new" using assms(3) by (simp add: solo_ok_def)
  moreover have "grant_ok (update_rows (\<lambda>u. us_id u = i) (\<lambda>_. new) us) r" if "r \<in> set ?gs" for r
  proof -
    have "grant_ok us r" "gr_user r \<noteq> i" using that ok by (simp_all add: grants_ok_def)
    then show ?thesis unfolding grant_ok_def set_replace_user [OF assms(2,3)] by auto
  qed
  ultimately show ?thesis using ok unfolding grants_ok_def set_replace_user [OF assms(2,3)] by simp
qed

lemma grants_kept:
  assumes "grants_ok us gs" "distinct (map us_id us)" "old \<in> set us" "us_id new = us_id old"
    and "us_role new = us_role old \<or> us_role new \<noteq> Admin \<and> us_role old \<noteq> Admin \<and> grant_type (us_role new) = grant_type (us_role old)"
    and "solo_ok gs new"
  shows "grants_ok (update_rows (\<lambda>u. us_id u = us_id old) (\<lambda>_. new) us) gs"
proof -
  have set: "set (update_rows (\<lambda>u. us_id u = us_id old) (\<lambda>_. new) us) = insert new {u \<in> set us. us_id u \<noteq> us_id old}"
    by (rule set_replace_user) (use assms(3,4) in auto)
  have "grant_ok (update_rows (\<lambda>u. us_id u = us_id old) (\<lambda>_. new) us) r" if r: "r \<in> set gs" for r
  proof -
    obtain u where u: "u \<in> set us" "us_id u = gr_user r" "us_role u \<noteq> Admin" "gr_role r = grant_type (us_role u)"
      using assms(1) r by (auto simp: grants_ok_def grant_ok_def)
    show ?thesis
    proof (cases "us_id u = us_id old")
      case True
      with u(1) assms(2,3) have "u = old" by (metis key_unique)
      with u assms(4,5) set show ?thesis by (auto simp: grant_ok_def)
    next
      case False
      with u set show ?thesis by (auto simp: grant_ok_def)
    qed
  qed
  with assms(1,6) show ?thesis unfolding grants_ok_def set by auto
qed

lemma members_replaced: "members_ok us ms \<Longrightarrow> us_id ` set us = us_id ` set us' \<Longrightarrow> members_ok us' ms"
  by (simp add: members_ok_def)

lemma sessions_replaced:
  assumes "sessions_ok us ss" "distinct (map us_id us)" "old \<in> set us" "us_id new = us_id old"
    and "us_status new = UserActive \<or> us_status new = us_status old"
  shows "sessions_ok (update_rows (\<lambda>u. us_id u = us_id old) (\<lambda>_. new) us) ss"
proof -
  have set: "set (update_rows (\<lambda>u. us_id u = us_id old) (\<lambda>_. new) us) = insert new {u \<in> set us. us_id u \<noteq> us_id old}"
    by (rule set_replace_user) (use assms(3,4) in auto)
  have "session_ok (update_rows (\<lambda>u. us_id u = us_id old) (\<lambda>_. new) us) s" if "s \<in> set ss" for s
  proof -
    obtain u where u: "u \<in> set us" "us_id u = se_user s" "us_status u = UserActive \<or> se_revoked s \<noteq> None"
      using assms(1) \<open>s \<in> set ss\<close> by (auto simp: sessions_ok_def session_ok_def)
    show ?thesis
    proof (cases "us_id u = us_id old")
      case True
      with u(1) assms(2,3) have "u = old" by (metis key_unique)
      with u assms(4,5) show ?thesis unfolding session_ok_def set by auto
    next
      case False
      with u show ?thesis unfolding session_ok_def set by auto
    qed
  qed
  with assms(1) show ?thesis by (simp add: sessions_ok_def)
qed

lemma sessions_revoked:
  assumes "sessions_ok us ss" "old \<in> set us" "us_id new = us_id old"
  shows "sessions_ok (update_rows (\<lambda>u. us_id u = us_id old) (\<lambda>_. new) us)
    (update_rows (\<lambda>s. se_user s = us_id old \<and> se_revoked s = None) (\<lambda>s. s\<lparr>se_revoked := Some now, se_updated := now\<rparr>) ss)"
proof -
  have set: "set (update_rows (\<lambda>u. us_id u = us_id old) (\<lambda>_. new) us) = insert new {u \<in> set us. us_id u \<noteq> us_id old}"
    by (rule set_replace_user) (use assms(2,3) in auto)
  show ?thesis using assms(1,3) unfolding sessions_ok_def session_ok_def set
    by (auto simp: set_update_rows map_update_rows_inv) (metis option.distinct(1))+
qed

section \<open>Operations on users\<close>

text \<open>Tables the invariant does not read.\<close>

lemma identity_frame [simp]:
  "identity_ok (db\<lparr>tb_invites := vs\<rparr>) = identity_ok db"
  "identity_ok (db\<lparr>tb_bindings := bs\<rparr>) = identity_ok db"
  "identity_ok (db\<lparr>tb_agencies := as\<rparr>) = identity_ok db"
  "identity_ok (db\<lparr>tb_identities := ds\<rparr>) = identity_ok db"
  by (simp_all add: identity_ok_def)

lemma grants_user: "grants_ok us gs \<Longrightarrow> i \<notin> us_id ` set us \<Longrightarrow> grants_of i gs = []"
  unfolding grants_ok_def grant_ok_def grants_of_def filter_empty_conv by (metis imageI)

lemma create_user_ok:
  assumes "identity_ok db" "create_user p i now db = Inr (u, db')"
  shows "identity_ok db'"
proof -
  have fresh: "i \<notin> us_id ` set (tb_users db)" and u: "us_id u = i" and db': "db' = db\<lparr>tb_users := tb_users db @ [u]\<rparr>"
    using assms(2) by (auto simp: create_user_def Let_def split: if_splits)
  have g: "grants_ok (tb_users db) (tb_grants db)" using assms(1) by (simp add: identity_ok_def tables_ok_def)
  have "solo_ok (tb_grants db) u" by (simp add: solo_ok_def u grants_user [OF g fresh])
  with g have "grants_ok (tb_users db @ [u]) (tb_grants db)" unfolding grants_ok_def grant_ok_def by auto
  moreover have "sessions_ok (tb_users db @ [u]) (tb_sessions db)" "members_ok (tb_users db @ [u]) (tb_members db)"
    using assms(1) unfolding identity_ok_def tables_ok_def sessions_ok_def session_ok_def members_ok_def by auto
  ultimately show ?thesis using assms(1) fresh u by (simp add: db' identity_ok_def tables_ok_def)
qed

text \<open>An update of user rows that leaves id, role and status alone.\<close>

lemma users_like:
  assumes "map (\<lambda>u. (us_id u, us_role u, us_status u)) us' = map (\<lambda>u. (us_id u, us_role u, us_status u)) us"
  shows "tables_ok us' gs ss ms = tables_ok us gs ss ms"
proof -
  let ?t = "\<lambda>u. (us_id u, us_role u, us_status u)"
  have img: "?t ` set us' = ?t ` set us" using arg_cong [OF assms, of set] by simp
  have ids: "map us_id us' = map us_id us" using arg_cong [OF assms, of "map fst"] by (simp add: comp_def)
  have ex: "(\<exists>u \<in> set us'. P (?t u)) = (\<exists>u \<in> set us. P (?t u))" for P using img by (metis (no_types, lifting) image_iff)
  have all: "(\<forall>u \<in> set us'. P (?t u)) = (\<forall>u \<in> set us. P (?t u))" for P using ex [of "\<lambda>t. \<not> P t"] by blast
  have 1: "grant_ok us' r = grant_ok us r" for r
    using ex [of "\<lambda>(i, ro, st). i = gr_user r \<and> ro \<noteq> Admin \<and> gr_role r = grant_type ro"] by (simp add: grant_ok_def)
  have 2: "(\<forall>u \<in> set us'. solo_ok gs u) = (\<forall>u \<in> set us. solo_ok gs u)"
    using all [of "\<lambda>(i, ro, st). ro = SoloClient \<and> st = UserActive \<longrightarrow> length (grants_of i gs) \<le> 1"] by (simp add: solo_ok_def)
  have 3: "session_ok us' s = session_ok us s" for s
    using ex [of "\<lambda>(i, ro, st). i = se_user s \<and> (st = UserActive \<or> se_revoked s \<noteq> None)"] by (simp add: session_ok_def)
  have 4: "us_id ` set us' = us_id ` set us" using arg_cong [OF ids, of set] by simp
  show ?thesis unfolding tables_ok_def grants_ok_def sessions_ok_def members_ok_def 1 2 3 4 ids ..
qed

lemma set_password_ok: "identity_ok db \<Longrightarrow> set_password h i pw now db = Inr db' \<Longrightarrow> identity_ok db'"
  by (auto simp: set_password_def identity_ok_def users_like [of "update_rows _ _ _"] map_update_rows_inv split: if_splits)

lemma patch_user_ok:
  assumes "identity_ok db" "patch_user i p now db = Inr (new, db')"
  shows "identity_ok db'"
proof -
  obtain old where old: "find_user i db = Some old" using assms(2) by (auto simp: patch_user_def split: option.splits)
  show ?thesis
  proof (cases "upatch_empty p")
    case True
    with assms old show ?thesis by (simp add: patch_user_def)
  next
    case False
    let ?us = "update_rows (\<lambda>u. us_id u = i) (\<lambda>_. new) (tb_users db)"
    let ?db1 = "db\<lparr>tb_users := ?us\<rparr>"
    have new: "new = patched_user p now old" and g: "patch_user_guard old new db = None"
      and db': "db' = (if us_status new \<noteq> UserActive then revoke_user_sessions now i (regrant now old new ?db1) else regrant now old new ?db1)"
      using assms(2) old False by (auto simp: patch_user_def Let_def split: option.splits)
    have mem: "old \<in> set (tb_users db)" and id: "us_id old = i" "us_id new = i"
      using find_userD [OF old] by (simp_all add: new patched_user_def)
    have u: "distinct (map us_id (tb_users db))" and gr: "grants_ok (tb_users db) (tb_grants db)" and se: "sessions_ok (tb_users db) (tb_sessions db)"
      and me: "members_ok (tb_users db) (tb_members db)" using assms(1) by (simp_all add: identity_ok_def tables_ok_def)
    have us: "distinct (map us_id ?us)" by (simp only: map_replace_user [OF id(2)] u)
    have m: "members_ok ?us (tb_members db)"
      using members_replaced [OF me] arg_cong [OF map_replace_user [OF id(2), of "tb_users db"], of set] by simp
    have cleared: "grants_ok ?us (filter (\<lambda>r. gr_user r \<noteq> i) (tb_grants db))"
      by (rule grants_cleared [OF gr _ id(2)]) (use mem id in auto)
    have solo: "solo_ok (tb_grants db) new"
      using g id by (auto simp: solo_ok_def patch_user_guard_def solo_guard_def first_error_None grants_of_def Let_def split: if_splits)
    have reg: "tb_users (regrant now old new ?db1) = ?us" "tb_sessions (regrant now old new ?db1) = tb_sessions db"
      "tb_members (regrant now old new ?db1) = tb_members db"
      by (auto simp: regrant_def Let_def rebuild_active_agency_access_def grant_agency_scope_def delete_grants_def)
    have "grants_ok ?us (tb_grants (regrant now old new ?db1))"
    proof (cases "us_role new = Agency \<and> (us_role new \<noteq> us_role old \<or> us_status new \<noteq> us_status old)")
      case True
      let ?d = "delete_grants (\<lambda>r. gr_user r = i) ?db1"
      have "grants_ok ?us (fold (upsert_grant now (us_id new) AgencyGrant) (agency_scope i ?d) (tb_grants ?d))"
        by (rule grants_agency_fold [OF us]) (use True cleared mem id in \<open>auto simp: delete_grants_def set_replace_user\<close>)
      with True id show ?thesis by (simp add: regrant_def rebuild_active_agency_access_def grant_agency_scope_def)
    next
      case False
      show ?thesis
      proof (cases "us_role new = Admin \<and> (us_role new \<noteq> us_role old \<or> us_status new \<noteq> us_status old)
          \<or> us_role new \<noteq> us_role old \<and> us_role old \<in> {Agency, Admin}")
        case True
        with False id(1) have "regrant now old new ?db1 = delete_grants (\<lambda>r. gr_user r = i) ?db1"
          unfolding regrant_def Let_def by (cases "us_role new = us_role old") auto
        with cleared show ?thesis by (simp add: delete_grants_def)
      next
        case no: False
        have "us_role new = us_role old \<or> us_role new \<noteq> Admin \<and> us_role old \<noteq> Admin \<and> grant_type (us_role new) = grant_type (us_role old)"
          using no False by (auto simp: grant_type_def)
        then have "grants_ok ?us (tb_grants db)" using grants_kept [OF gr u mem, of new] solo id by simp
        moreover have "regrant now old new ?db1 = ?db1"
          using no False id(1) unfolding regrant_def Let_def by (cases "us_role new = us_role old") auto
        ultimately show ?thesis by simp
      qed
    qed
    then show ?thesis
      using us m reg sessions_replaced [OF se u mem, of new] sessions_revoked [OF se mem, of new now] id
      by (auto simp: db' identity_ok_def tables_ok_def revoke_user_sessions_def)
  qed
qed

lemma grants_deleted:
  assumes "grants_ok us gs"
  shows "grants_ok (filter (\<lambda>u. us_id u \<noteq> i) us) (filter (\<lambda>r. gr_user r \<noteq> i) gs)"
proof -
  have "grants_ok us (filter (\<lambda>r. gr_user r \<noteq> i) gs)" by (rule grants_filter [OF assms])
  moreover have "grant_ok (filter (\<lambda>u. us_id u \<noteq> i) us) r" if "grant_ok us r" "gr_user r \<noteq> i" for r
    using that by (auto simp: grant_ok_def)
  ultimately show ?thesis by (simp add: grants_ok_def)
qed

lemma sessions_deleted:
  assumes "sessions_ok us ss"
  shows "sessions_ok (filter (\<lambda>u. us_id u \<noteq> i) us) (filter (\<lambda>s. se_user s \<noteq> i) ss)"
proof -
  have "session_ok (filter (\<lambda>u. us_id u \<noteq> i) us) s" if s: "session_ok us s" "se_user s \<noteq> i" for s
  proof -
    obtain u where "u \<in> set us" "us_id u = se_user s" "us_status u = UserActive \<or> se_revoked s \<noteq> None"
      using s(1) unfolding session_ok_def by blast
    with s(2) show ?thesis unfolding session_ok_def by (intro bexI [of _ u]) auto
  qed
  with assms show ?thesis by (simp add: sessions_ok_def distinct_map_filter)
qed

lemma members_deleted: "members_ok us ms \<Longrightarrow> members_ok (filter (\<lambda>u. us_id u \<noteq> i) us) (filter (\<lambda>m. mb_user m \<noteq> i) ms)"
  by (auto simp: members_ok_def distinct_map_filter)

lemma forget_user_ok: "identity_ok db \<Longrightarrow> identity_ok (forget_user i db)"
  by (simp add: identity_ok_def tables_ok_def forget_user_def distinct_map_filter grants_deleted sessions_deleted members_deleted)

lemma delete_user_ok: "identity_ok db \<Longrightarrow> delete_user i db = Inr db' \<Longrightarrow> identity_ok db'"
  by (auto simp: delete_user_def forget_user_ok split: option.splits)

lemma assign_access_ok:
  assumes "identity_ok db" "assign_client_access i c role now db = Inr db'"
  shows "identity_ok db'"
proof -
  obtain u where u: "find_user i db = Some u" "assign_guard u c role db = None" "db' = db\<lparr>tb_grants := upsert_grant now i role c (tb_grants db)\<rparr>"
    using assms(2) by (auto simp: assign_client_access_def split: option.splits)
  have id: "u \<in> set (tb_users db)" "us_id u = i" using find_userD [OF u(1)] by simp_all
  have g: "grants_ok (tb_users db) (tb_grants db)" and d: "distinct (map us_id (tb_users db))"
    using assms(1) by (simp_all add: identity_ok_def tables_ok_def)
  have guard: "us_role u \<noteq> Admin" "role = grant_type (us_role u)"
    and solo: "us_role u = SoloClient \<Longrightarrow> \<forall>r \<in> set (tb_grants db). gr_user r = i \<longrightarrow> gr_client r = c"
    using u(2) id(2) by (auto simp: assign_guard_def grant_type_def first_error_None Let_def split: if_splits)
  show ?thesis unfolding u(3) id(2) [symmetric]
    by (rule identity_grants [OF assms(1) grants_upsert [OF g d id(1) guard]]) (use solo id(2) in simp)
qed

section \<open>Operations on sessions\<close>

lemma identity_sessions: "identity_ok db \<Longrightarrow> sessions_ok (tb_users db) ss \<Longrightarrow> identity_ok (db\<lparr>tb_sessions := ss\<rparr>)"
  by (simp add: identity_ok_def tables_ok_def)

lemma sessions_update:
  assumes "sessions_ok us ss" "\<And>s. se_id (f s) = se_id s" "\<And>s. se_hash (f s) = se_hash s" "\<And>s. se_user (f s) = se_user s"
    and "\<And>s. se_revoked s \<noteq> None \<Longrightarrow> se_revoked (f s) \<noteq> None"
  shows "sessions_ok us (update_rows p f ss)"
proof -
  have "map se_id (update_rows p f ss) = map se_id ss" "map se_hash (update_rows p f ss) = map se_hash ss"
    by (rule map_update_rows_inv, simp add: assms)+
  moreover have "session_ok us (f s)" if "session_ok us s" for s using that assms(4,5) by (auto simp: session_ok_def)
  ultimately show ?thesis using assms(1) by (auto simp: sessions_ok_def set_update_rows)
qed

lemma put_session_ok:
  assumes "identity_ok db" "put_session digest p i t now db = Inr (r, db')"
  shows "identity_ok db'"
proof -
  obtain u where u: "find_user (sq_user p) db = Some u" "us_status u = UserActive"
    using assms(2) by (auto simp: put_session_def split: if_splits)
  obtain s where s: "db' = db\<lparr>tb_sessions := tb_sessions db @ [s]\<rparr>" "se_user s = sq_user p"
    "se_id s \<notin> se_id ` set (tb_sessions db)" "se_hash s \<notin> se_hash ` set (tb_sessions db)"
    using assms(2) by (auto simp: put_session_def Let_def split: if_splits)
  have "session_ok (tb_users db) s" using find_userD [OF u(1)] u(2) s(2) by (auto simp: session_ok_def)
  then show ?thesis unfolding s(1)
    by (intro identity_sessions [OF assms(1)]) (use assms(1) s(3,4) in \<open>auto simp: identity_ok_def tables_ok_def sessions_ok_def\<close>)
qed

lemma issue_session_ok: "identity_ok db \<Longrightarrow> issue_session digest p i t now db = Inr (r, db') \<Longrightarrow> identity_ok db'"
  by (auto simp: issue_session_def put_session_ok split: if_splits)

lemma revoke_session_ok: "identity_ok db \<Longrightarrow> identity_ok (snd (revoke_session digest t now db))"
  by (auto simp: revoke_session_def identity_ok_def tables_ok_def split: option.splits intro!: sessions_update)

lemma refresh_session_ok: "identity_ok db \<Longrightarrow> identity_ok (snd (refresh_session digest t ttl now now2 db))"
  by (auto simp: refresh_session_def identity_ok_def tables_ok_def split: sum.splits intro!: sessions_update)

section \<open>Operations on agencies and members\<close>

lemma identity_members: "identity_ok db \<Longrightarrow> members_ok (tb_users db) ms \<Longrightarrow> identity_ok (db\<lparr>tb_members := ms\<rparr>)"
  by (simp add: identity_ok_def tables_ok_def)

lemma identity_membersD: "identity_ok db \<Longrightarrow> members_ok (tb_users db) (tb_members db)"
  by (simp add: identity_ok_def tables_ok_def)

lemma members_filter: "members_ok us ms \<Longrightarrow> members_ok us (filter p ms)"
  by (auto simp: members_ok_def distinct_map_filter)

lemma members_update:
  assumes "members_ok us ms" "t \<in> set ms" "mb_id new = mb_id t" "mb_agency new = mb_agency t" "mb_user new = mb_user t"
  shows "members_ok us (update_rows (\<lambda>r. mb_id r = mb_id t) (\<lambda>_. new) ms)"
proof -
  have same: "r = t" if "r \<in> set ms" "mb_id r = mb_id t" for r
    using that assms(1,2) unfolding members_ok_def by (metis key_unique)
  have "map (\<lambda>m. (mb_agency m, mb_user m)) (update_rows (\<lambda>r. mb_id r = mb_id t) (\<lambda>_. new) ms) = map (\<lambda>m. (mb_agency m, mb_user m)) ms"
    using same assms(4,5) by (simp add: update_rows_def comp_def) (metis)
  moreover have "map mb_id (update_rows (\<lambda>r. mb_id r = mb_id t) (\<lambda>_. new) ms) = map mb_id ms"
    by (rule map_update_rows_inv) (simp add: assms(3))
  ultimately show ?thesis using assms unfolding members_ok_def by (auto simp: set_update_rows)
qed

lemma find_memberD: "find_member g i db = Some t \<Longrightarrow> t \<in> set (tb_members db) \<and> mb_agency t = g \<and> mb_user t = i"
  by (auto simp: find_member_def dest: find_SomeD)

lemma put_member_ok:
  assumes "identity_ok db" "put_member g p m now db = Inr (r, db')" "mw_user p \<in> us_id ` set (tb_users db)"
  shows "identity_ok db'"
proof (cases "find_member g (mw_user p) db")
  case None
  have f: "(g, mw_user p) \<notin> (\<lambda>m. (mb_agency m, mb_user m)) ` set (tb_members db)"
    using None by (auto simp: find_member_def find_None_iff)
  have m: "mb_id r = m" "mb_agency r = g" "mb_user r = mw_user p" "m \<notin> mb_id ` set (tb_members db)" "db' = db\<lparr>tb_members := tb_members db @ [r]\<rparr>"
    using assms(2) None by (auto simp: put_member_def Let_def split: if_splits)
  show ?thesis unfolding m(5)
    by (rule identity_members [OF assms(1)])
      (use identity_membersD [OF assms(1)] f m(1-4) assms(3) in \<open>auto simp: members_ok_def\<close>)
next
  case (Some t)
  then show ?thesis using assms(2) find_memberD [OF Some] members_update [OF identity_membersD [OF assms(1)], of t]
    by (auto simp: put_member_def Let_def intro!: identity_members [OF assms(1)])
qed

lemma upsert_member_ok: "identity_ok db \<Longrightarrow> upsert_member g p actor adm m now db = Inr (r, db') \<Longrightarrow> identity_ok db'"
  by (auto simp: upsert_member_def Let_def first_error_None find_user_None split: option.splits sum.splits intro!: identity_rebuild elim: put_member_ok)

lemma member_of_agencyD: "member_of_agency g m db = Some t \<Longrightarrow> t \<in> set (tb_members db) \<and> mb_id t = m \<and> mb_agency t = g"
  by (auto simp: member_of_agency_def dest: find_SomeD)

lemma deactivate_member_ok:
  assumes "identity_ok db" "deactivate_member g m actor adm now db = Inr (r, db')"
  shows "identity_ok db'"
proof -
  obtain t where t: "member_of_agency g m db = Some t" "r = t\<lparr>mb_status := UserInactive, mb_updated := now\<rparr>"
    "db' = rebuild_user_access now (mb_user t) (db\<lparr>tb_members := update_rows (\<lambda>r. mb_id r = m) (\<lambda>_. r) (tb_members db)\<rparr>)"
    using assms(2) by (auto simp: deactivate_member_def Let_def split: option.splits if_splits)
  have "members_ok (tb_users db) (update_rows (\<lambda>r. mb_id r = mb_id t) (\<lambda>_. r) (tb_members db))"
    by (rule members_update [OF identity_membersD [OF assms(1)]]) (use member_of_agencyD [OF t(1)] t(2) in auto)
  with member_of_agencyD [OF t(1)] show ?thesis unfolding t(3) by (auto intro!: identity_rebuild identity_members [OF assms(1)])
qed

lemma remove_member_ok: "identity_ok db \<Longrightarrow> remove_member g m actor adm now db = Inr db' \<Longrightarrow> identity_ok db'"
  by (auto simp: remove_member_def split: option.splits if_splits intro!: identity_rebuild identity_members members_filter identity_membersD)

lemma agency_ops_ok:
  assumes "identity_ok db"
  shows "create_agency p g s now db = Inr (a, db') \<Longrightarrow> identity_ok db'"
    "patch_agency g q s now db = Inr (a, db') \<Longrightarrow> identity_ok db'"
    "assign_client g c b now db = Inr (x, db') \<Longrightarrow> identity_ok db'"
    "revoke_client g b now db = Inr db' \<Longrightarrow> identity_ok db'"
  using assms by (auto simp: create_agency_def patch_agency_def assign_client_def revoke_client_def Let_def
      split: if_splits option.splits)

lemma update_rows_const:
  assumes "distinct (map us_id us)" "u \<in> set us"
  shows "update_rows (\<lambda>x. us_id x = us_id u) f us = update_rows (\<lambda>x. us_id x = us_id u) (\<lambda>_. f u) us"
  unfolding update_rows_def by (rule map_cong [OF refl]) (metis assms key_unique)

lemma rebuild_tables [simp]:
  "tb_users (rebuild_user_access now i db) = tb_users db" "tb_members (rebuild_user_access now i db) = tb_members db"
  "tb_agencies (rebuild_user_access now i db) = tb_agencies db" "tb_bindings (rebuild_user_access now i db) = tb_bindings db"
  "tb_sessions (rebuild_user_access now i db) = tb_sessions db" "tb_invites (rebuild_user_access now i db) = tb_invites db"
  "tb_clients (rebuild_user_access now i db) = tb_clients db" "tb_credentials (rebuild_user_access now i db) = tb_credentials db"
  "tb_commands (rebuild_user_access now i db) = tb_commands db" "tb_principals (rebuild_user_access now i db) = tb_principals db"
  by (auto simp: rebuild_user_access_def delete_grants_def grant_agency_scope_def Let_def split: option.split actor_role.split)

lemma active_membership_rebuild [simp]: "active_membership j (rebuild_user_access now i db) = active_membership j db"
  by (simp add: active_membership_def agency_is_active_def)

lemma agency_scope_unused: "\<not> active_membership i db \<Longrightarrow> agency_scope i db = []"
  by (auto simp: agency_scope_def active_membership_def filter_empty_conv)

lemma rebuild_unused:
  assumes "find_user i db = Some u" "us_role u = Agency" "\<not> active_membership i db"
  shows "tb_grants (rebuild_user_access now i db) = filter (\<lambda>r. gr_user r \<noteq> i) (tb_grants db)"
proof -
  let ?c = "delete_grants (\<lambda>r. gr_user r = i) db"
  have "agency_scope i ?c = []" by (rule agency_scope_unused) (use assms(3) in \<open>simp add: active_membership_def agency_is_active_def delete_grants_def\<close>)
  with assms show ?thesis by (simp add: rebuild_user_access_def Let_def grant_agency_scope_def delete_grants_def)
qed

lemma demote_ok:
  assumes "identity_ok db"
  shows "identity_ok (demote_if_unused now i (rebuild_user_access now i db))"
proof (cases "\<exists>u. find_user i db = Some u \<and> us_role u = Agency \<and> \<not> active_membership i db")
  case True
  then obtain u where u: "find_user i db = Some u" "us_role u = Agency" "\<not> active_membership i db" by blast
  let ?d = "rebuild_user_access now i db" and ?f = "\<lambda>u. u\<lparr>us_role := Client, us_updated := now\<rparr>"
  have mem: "u \<in> set (tb_users db)" and id: "us_id u = i" using find_userD [OF u(1)] by simp_all
  have ok: "distinct (map us_id (tb_users db))" "grants_ok (tb_users db) (tb_grants db)" "sessions_ok (tb_users db) (tb_sessions db)"
    "members_ok (tb_users db) (tb_members db)" using assms by (simp_all add: identity_ok_def tables_ok_def)
  have us: "update_rows (\<lambda>u. us_id u = i) ?f (tb_users db) = update_rows (\<lambda>u. us_id u = i) (\<lambda>_. ?f u) (tb_users db)"
    using update_rows_const [OF ok(1) mem, of ?f] id by simp
  have map: "map us_id (update_rows (\<lambda>u. us_id u = i) (\<lambda>_. ?f u) (tb_users db)) = map us_id (tb_users db)"
    by (rule map_replace_user) (simp add: id)
  have "find_user i ?d = Some u" using u(1) by (simp add: find_user_def)
  then have d: "demote_if_unused now i ?d = ?d\<lparr>tb_users := update_rows (\<lambda>u. us_id u = i) (\<lambda>_. ?f u) (tb_users db)\<rparr>"
    using u by (simp add: demote_if_unused_def us)
  have "grants_ok (update_rows (\<lambda>u. us_id u = i) (\<lambda>_. ?f u) (tb_users db)) (tb_grants ?d)"
    unfolding rebuild_unused [OF u] by (rule grants_cleared [OF ok(2)]) (use mem id in auto)
  moreover have "sessions_ok (update_rows (\<lambda>u. us_id u = i) (\<lambda>_. ?f u) (tb_users db)) (tb_sessions db)"
    using sessions_replaced [OF ok(3,1) mem, of "?f u"] id by simp
  moreover have "members_ok (update_rows (\<lambda>u. us_id u = i) (\<lambda>_. ?f u) (tb_users db)) (tb_members db)"
    using members_replaced [OF ok(4)] arg_cong [OF map, of set] by simp
  moreover have "distinct (map us_id (update_rows (\<lambda>u. us_id u = i) (\<lambda>_. ?f u) (tb_users db)))" by (simp only: map ok(1))
  ultimately show ?thesis by (simp add: d identity_ok_def tables_ok_def)
next
  case False
  then have "demote_if_unused now i (rebuild_user_access now i db) = rebuild_user_access now i db"
    by (auto simp: demote_if_unused_def find_user_def split: option.split)
  then show ?thesis by (simp add: identity_rebuild [OF assms])
qed

lemma forget_agency_ok: "identity_ok db \<Longrightarrow> identity_ok (forget_agency g db)"
  using members_filter [OF identity_membersD, of db "\<lambda>m. mb_agency m \<noteq> g"] by (simp add: forget_agency_def Let_def identity_ok_def tables_ok_def)

lemma delete_agency_ok: "identity_ok db \<Longrightarrow> delete_agency g now db = Inr db' \<Longrightarrow> identity_ok db'"
proof -
  have "identity_ok d \<Longrightarrow> identity_ok (fold (\<lambda>i d. demote_if_unused now i (rebuild_user_access now i d)) is d)" for "is" d
    by (induction "is" arbitrary: d) (auto intro: demote_ok)
  then show "identity_ok db \<Longrightarrow> delete_agency g now db = Inr db' \<Longrightarrow> identity_ok db'"
    by (auto simp: delete_agency_def forget_agency_ok split: if_splits option.splits)
qed

section \<open>Invites\<close>

lemma invite_ops_ok:
  assumes "identity_ok db"
  shows "issue_invite digest g p b base v t now db = Inr (r, db') \<Longrightarrow> identity_ok db'"
    "revoke_invite g v now db = Inr (row, db') \<Longrightarrow> identity_ok db'"
    "identity_ok (snd (resend_invite digest g v ttl b base v2 t now now2 db))"
  using assms by (auto simp: issue_invite_def revoke_invite_def resend_invite_def Let_def split: if_splits option.splits sum.splits)

lemma undo_accept_ok:
  assumes "identity_ok db"
  shows "identity_ok (snd (undo_accept v i now now2 before m created db))"
proof -
  define ms where "ms = (case before of
             Some t \<Rightarrow> update_rows (\<lambda>r. mb_id r = mb_id t) (\<lambda>r. r\<lparr>mb_role := mb_role t, mb_status := mb_status t, mb_updated := mb_updated t\<rparr>) (tb_members db)
           | None \<Rightarrow> filter (\<lambda>r. mb_id r \<noteq> m) (tb_members db))"
  have "members_ok (tb_users db) ms"
    using identity_membersD [OF assms] unfolding ms_def
    by (cases before) (auto simp: members_ok_def map_update_rows_inv set_update_rows distinct_map_filter)
  then have "identity_ok (restored_tables v i now now2 before m db)"
    using assms unfolding restored_tables_def ms_def [symmetric] by (intro identity_rebuild) (simp add: identity_ok_def tables_ok_def)
  then show ?thesis by (auto simp: undo_accept_def Let_def split: sum.split dest: delete_user_ok)
qed

lemma invited_user_ok:
  assumes "identity_ok db" "invited_user pwhash p ge acc clock email db = Inr (created, u, db')"
  shows "identity_ok db'" "us_id u \<in> us_id ` set (tb_users db')"
proof -
  have "identity_ok db' \<and> us_id u \<in> us_id ` set (tb_users db')"
  proof (cases "find_user_by_email email db")
    case None
    then obtain db1 where c: "create_user \<lparr>uc_email = Some email, uc_name = invited_name p email, uc_role = Agency, uc_status = UserActive\<rparr>
        (gn_user ge) (clock 1) db = Inr (u, db1)" and s: "set_password pwhash (us_id u) (invited_password p ge) (clock 2) db1 = Inr db'"
      using assms(2) by (auto simp: invited_user_def split: if_splits sum.splits)
    have "u \<in> set (tb_users db1)" using c by (auto simp: create_user_def Let_def split: if_splits)
    moreover have "map us_id (tb_users db') = map us_id (tb_users db1)"
      using s by (auto simp: set_password_def map_update_rows_inv split: if_splits)
    ultimately have "us_id u \<in> us_id ` set (tb_users db')" by (metis imageI list.set_map)
    with set_password_ok [OF create_user_ok [OF assms(1) c] s] show ?thesis by simp
  next
    case (Some x)
    with assms show ?thesis by (auto simp: invited_user_def find_user_by_email_def dest: find_SomeD split: option.splits)
  qed
  then show "identity_ok db'" "us_id u \<in> us_id ` set (tb_users db')" by simp_all
qed

lemma finish_accept_ok:
  assumes "identity_ok db" "us_id u \<in> us_id ` set (tb_users db)"
  shows "identity_ok (snd (finish_accept digest ge ttl clock row a created u db))"
proof (cases "put_member (iv_agency row) \<lparr>mw_user = us_id u, mw_role = iv_role row, mw_status = UserActive\<rparr> (gn_member ge) (clock 0) db")
  case (Inl e)
  with assms(1) show ?thesis by (simp add: finish_accept_def)
next
  case (Inr x)
  obtain member db1 where x: "x = (member, db1)" by (cases x)
  have "identity_ok db1" by (rule put_member_ok [OF assms(1) Inr [unfolded x]]) (simp add: assms(2))
  then have ok: "identity_ok (accepted_tables clock row (us_id u) db1)" by (simp add: accepted_tables_def Let_def identity_rebuild del: rebuild_tables)
  show ?thesis
  proof (cases "issue_session digest \<lparr>sq_user = us_id u, sq_ttl = ttl, sq_metadata = None\<rparr> (gn_session ge) (gn_token ge) (clock 4)
      (accepted_tables clock row (us_id u) db1)")
    case err: (Inl e)
    obtain eo db4 where un: "undo_accept (iv_id row) (us_id u) (clock 0) (clock 5) (find_member (iv_agency row) (us_id u) db) (mb_id member) created
        (accepted_tables clock row (us_id u) db1) = (eo, db4)" by fastforce
    with undo_accept_ok [OF ok] have "identity_ok db4" by (metis snd_conv)
    then show ?thesis using Inr err un by (simp add: finish_accept_def x Let_def split: option.split)
  next
    case issued: (Inr y)
    with issue_session_ok [OF ok] have "identity_ok (snd y)" by (cases y) simp
    then show ?thesis using Inr issued by (cases y) (simp add: finish_accept_def x Let_def)
  qed
qed

lemma accept_invite_ok: "identity_ok db \<Longrightarrow> identity_ok (snd (accept_invite digest pwhash p ttl acc ge clock db))"
  by (auto simp: accept_invite_def dest: invited_user_ok intro!: finish_accept_ok split: option.split sum.split)

lemma link_identity_ok: "identity_ok db \<Longrightarrow> link_identity p i now db = Inr (d, db') \<Longrightarrow> identity_ok db'"
  by (auto simp: link_identity_def Let_def split: if_splits option.splits)

lemma external_user_ok: "identity_ok db \<Longrightarrow> external_user p i now db = Inr (u, db') \<Longrightarrow> identity_ok db'"
  by (auto simp: external_user_def Let_def split: if_splits option.splits dest: create_user_ok)

lemma resolve_external_ok:
  assumes "identity_ok db"
  shows "identity_ok (snd (resolve_external digest p ge clock db))"
proof (cases "external_user p (ge_user ge) (clock 0) db")
  case (Inl e)
  with assms show ?thesis by (simp add: resolve_external_def)
next
  case (Inr x)
  obtain u db1 where x: "x = (u, db1)" by (cases x)
  have ok1: "identity_ok db1" by (rule external_user_ok [OF assms Inr [unfolded x]])
  let ?l = "\<lparr>il_user = us_id u, il_provider = er_provider p, il_subject = er_subject p, il_email = er_email p,
                    il_verified = er_verified p, il_profile = er_profile p\<rparr>"
  show ?thesis
  proof (cases "link_identity ?l (ge_identity ge) (clock 1) db1")
    case (Inl e)
    with Inr ok1 show ?thesis by (simp add: resolve_external_def x)
  next
    case l: (Inr y)
    obtain d db2 where y: "y = (d, db2)" by (cases y)
    have ok2: "identity_ok db2" by (rule link_identity_ok [OF ok1 l [unfolded y]])
    let ?q = "\<lparr>sq_user = us_id u, sq_ttl = er_ttl p,
                     sq_metadata = Some [(''provider'', JStr (er_provider p)), (''provider_user_id'', JStr (er_subject p))]\<rparr>"
    have "identity_ok db3" if "issue_session digest ?q (ge_session ge) (ge_token ge) (clock 2) db2 = Inr (r, db3)" for r db3
      by (rule issue_session_ok [OF ok2 that])
    then show ?thesis using Inr l ok1 ok2 by (simp add: resolve_external_def x y split: sum.split prod.split)
  qed
qed

section \<open>Runs\<close>

text \<open>
  One request to the stores.  \<open>identity_step digest used db db'\<close>: the tokens it generates are none of
  \<open>used\<close>, the digests ever issued (the generator never repeats a token), and \<open>used'\<close> adds its own.
\<close>

type_synonym identity_state = "identity_db \<times> string set"

inductive identity_step :: "(string \<Rightarrow> string) \<Rightarrow> identity_state \<Rightarrow> identity_state \<Rightarrow> bool" for digest where
  s_create_user: "create_user p i now db = Inr (u, db') \<Longrightarrow> identity_step digest (db, used) (db', used)"
| s_patch_user: "patch_user i up now db = Inr (u, db') \<Longrightarrow> identity_step digest (db, used) (db', used)"
| s_delete_user: "delete_user i db = Inr db' \<Longrightarrow> identity_step digest (db, used) (db', used)"
| s_set_password: "set_password h i pw now db = Inr db' \<Longrightarrow> identity_step digest (db, used) (db', used)"
| s_link_identity: "link_identity l i now db = Inr (d, db') \<Longrightarrow> identity_step digest (db, used) (db', used)"
| s_assign_access: "assign_client_access i c role now db = Inr db' \<Longrightarrow> identity_step digest (db, used) (db', used)"
| s_remove_access: "identity_step digest (db, used) (remove_client_access i c db, used)"
| s_issue_session: "issue_session digest q i t now db = Inr (r, db') \<Longrightarrow> digest t \<notin> used \<Longrightarrow> identity_step digest (db, used) (db', insert (digest t) used)"
| s_issue_envidicy: "issue_envidicy_session digest j i t now db = Inr (r, db') \<Longrightarrow> digest t \<notin> used
    \<Longrightarrow> identity_step digest (db, used) (db', insert (digest t) used)"
| s_revoke_session: "identity_step digest (db, used) (snd (revoke_session digest t now db), used)"
| s_refresh_session: "identity_step digest (db, used) (snd (refresh_session digest t ttl now now2 db), used)"
| s_resolve_external: "digest (ge_token ge) \<notin> used
    \<Longrightarrow> identity_step digest (db, used) (snd (resolve_external digest e ge clock db), insert (digest (ge_token ge)) used)"
| s_create_agency: "create_agency a g gen now db = Inr (x, db') \<Longrightarrow> identity_step digest (db, used) (db', used)"
| s_patch_agency: "patch_agency g ap gen now db = Inr (x, db') \<Longrightarrow> identity_step digest (db, used) (db', used)"
| s_delete_agency: "delete_agency g now db = Inr db' \<Longrightarrow> identity_step digest (db, used) (db', used)"
| s_upsert_member: "upsert_member g mw actor adm m now db = Inr (y, db') \<Longrightarrow> identity_step digest (db, used) (db', used)"
| s_deactivate_member: "deactivate_member g m actor adm now db = Inr (y, db') \<Longrightarrow> identity_step digest (db, used) (db', used)"
| s_remove_member: "remove_member g m actor adm now db = Inr db' \<Longrightarrow> identity_step digest (db, used) (db', used)"
| s_assign_client: "assign_client g c b now db = Inr (z, db') \<Longrightarrow> identity_step digest (db, used) (db', used)"
| s_revoke_client: "revoke_client g b now db = Inr db' \<Longrightarrow> identity_step digest (db, used) (db', used)"
| s_issue_invite: "issue_invite digest g ic by base v t now db = Inr (w, db') \<Longrightarrow> identity_step digest (db, used) (db', used)"
| s_revoke_invite: "revoke_invite g v now db = Inr (x, db') \<Longrightarrow> identity_step digest (db, used) (db', used)"
| s_resend_invite: "identity_step digest (db, used) (snd (resend_invite digest g v d by base v2 t now now2 db), used)"
| s_accept_invite: "digest (gn_token gn) \<notin> used
    \<Longrightarrow> identity_step digest (db, used) (snd (accept_invite digest pwhash ar ttl acc gn clock db), insert (digest (gn_token gn)) used)"

lemma issue_envidicy_ok: "identity_ok db \<Longrightarrow> issue_envidicy_session digest j i t now db = Inr (r, db') \<Longrightarrow> identity_ok db'"
  by (auto simp: issue_envidicy_session_def intro: put_session_ok)

theorem identity_step_ok: "identity_step digest s s' \<Longrightarrow> identity_ok (fst s) \<Longrightarrow> identity_ok (fst s')"
  by (induction rule: identity_step.induct)
    (auto simp: remove_client_access_def dest: create_user_ok patch_user_ok delete_user_ok set_password_ok link_identity_ok assign_access_ok
      issue_session_ok issue_envidicy_ok agency_ops_ok delete_agency_ok upsert_member_ok deactivate_member_ok remove_member_ok invite_ops_ok(1,2)
      intro: invite_ops_ok(3) accept_invite_ok resolve_external_ok revoke_session_ok refresh_session_ok)

definition empty_identity :: "identity_db \<Rightarrow> bool" where
  "empty_identity db \<longleftrightarrow> tb_users db = [] \<and> tb_grants db = [] \<and> tb_sessions db = [] \<and> tb_members db = []"

lemma empty_identity_ok: "empty_identity db \<Longrightarrow> identity_ok db"
  by (simp add: empty_identity_def identity_ok_def tables_ok_def grants_ok_def sessions_ok_def members_ok_def)

interpretation identity: safe_system "\<lambda>s. empty_identity (fst s)" "identity_step digest" "\<lambda>s. identity_ok (fst s)" for digest
  by unfold_locales (auto intro: empty_identity_ok identity_step_ok)

end
