(* ===== verification/Identity_Samples.thy ===== *)
theory Identity_Samples
  imports Identity_Laws
begin

text \<open>
  A small run of the identity stores: two owners of one agency, an administrator, one client bound to
  the agency.  The examples of the theorems on identities start from its tables.
\<close>

definition sample_empty :: identity_db where
  "sample_empty = \<lparr>tb_users = [], tb_identities = [], tb_grants = [], tb_agencies = [], tb_members = [], tb_bindings = [], tb_invites = [],
     tb_sessions = [], tb_clients = [(7, True)], tb_client_invites = [], tb_credentials = [], tb_credential_bindings = [], tb_alert_acks = [],
     tb_commands = [], tb_principals = []\<rparr>"

definition after :: "'e + 'r \<times> 'd \<Rightarrow> 'd" where "after x = snd (projr x)"

definition sample_user :: "string \<Rightarrow> actor_role \<Rightarrow> user_create" where
  "sample_user e r = \<lparr>uc_email = Some e, uc_name = e, uc_role = r, uc_status = UserActive\<rparr>"

definition sample_agency :: "string \<Rightarrow> agency_create" where
  "sample_agency n = \<lparr>ag_name = n, ag_slug = None, ag_status = AgencyActive, ag_plan = ''starter'', ag_notes = None, ag_client_invites = True\<rparr>"

definition sample_owner :: "uuid \<Rightarrow> member_write" where
  "sample_owner i = \<lparr>mw_user = i, mw_role = Owner, mw_status = UserActive\<rparr>"

definition sample_users :: identity_db where
  "sample_users = after (create_user (sample_user ''root@x'' Admin) 3 0
     (after (create_user (sample_user ''b@x'' Agency) 2 0 (after (create_user (sample_user ''a@x'' Agency) 1 0 sample_empty)))))"

definition sample_members :: identity_db where
  "sample_members = after (upsert_member 1 (sample_owner 2) None True 2 1
     (after (upsert_member 1 (sample_owner 1) None True 1 1 (after (create_agency (sample_agency ''Acme'') 1 [] 1 sample_users)))))"

definition sample_bound :: identity_db where
  "sample_bound = after (assign_client 1 7 1 2 sample_members)"

lemma stepped: "\<lbrakk>reachable I (identity_step digest) (db, used); \<not> isl (f db);
    \<And>r db'. f db = Inr (r, db') \<Longrightarrow> identity_step digest (db, used) (db', used)\<rbrakk>
  \<Longrightarrow> reachable I (identity_step digest) (after (f db), used)"
  by (cases "f db") (auto simp: after_def intro: reach_step)

lemma reachable_empty: "reachable (\<lambda>s. empty_identity (fst s)) (identity_step digest) (sample_empty, {})"
  by (rule reach_init) (simp add: empty_identity_def sample_empty_def)

lemma reachable_users: "reachable (\<lambda>s. empty_identity (fst s)) (identity_step digest) (sample_users, {})"
  unfolding sample_users_def
  by (rule stepped [where f = "create_user _ _ _"], rule stepped [where f = "create_user _ _ _"], rule stepped [where f = "create_user _ _ _"],
      rule reachable_empty) (rule s_create_user, assumption | code_simp)+

lemma reachable_members: "reachable (\<lambda>s. empty_identity (fst s)) (identity_step digest) (sample_members, {})"
  unfolding sample_members_def
  by (rule stepped [where f = "upsert_member _ _ _ _ _ _"], rule stepped [where f = "upsert_member _ _ _ _ _ _"],
      rule stepped [where f = "create_agency _ _ _ _"], rule reachable_users)
    (rule s_create_agency, assumption | rule s_upsert_member, assumption | code_simp)+

lemma reachable_bound: "reachable (\<lambda>s. empty_identity (fst s)) (identity_step digest) (sample_bound, {})"
  unfolding sample_bound_def
  by (rule stepped [where f = "assign_client _ _ _ _"], rule reachable_members) (rule s_assign_client, assumption | code_simp)+

text \<open>A session of the administrator, under a digest that keeps the token as it is.\<close>

definition sample_session :: identity_db where
  "sample_session = after (issue_session (\<lambda>t. t) \<lparr>sq_user = 3, sq_ttl = 60, sq_metadata = None\<rparr> 1 ''tok'' 3 sample_users)"

lemma reachable_session: "reachable (\<lambda>s. empty_identity (fst s)) (identity_step (\<lambda>t. t)) (sample_session, {''tok''})"
proof -
  let ?x = "issue_session (\<lambda>t. t) \<lparr>sq_user = 3, sq_ttl = 60, sq_metadata = None\<rparr> 1 ''tok'' 3 sample_users"
  have "?x = Inr (fst (projr ?x), after ?x)" by code_simp
  from s_issue_session [where digest = "\<lambda>t. t", OF this, of "{}"] show ?thesis
    by (auto simp: sample_session_def intro: reach_step [OF reachable_users])
qed

end
