(* ===== verification/Identity_Theorems.thy ===== *)
theory Identity_Theorems
  imports Identity_Samples
begin

text \<open>
  What the identity stores guarantee over any run: revocation is final, an Envidicy session stays
  short, and an active administrator remains.
\<close>

section \<open>Sessions over a run\<close>

text \<open>A session row of a later state is an old one, no less revoked and of the same origin, or was issued since.\<close>

definition same_session :: "session_row \<Rightarrow> session_row \<Rightarrow> bool" where
  "same_session s s' \<longleftrightarrow> se_hash s' = se_hash s \<and> se_user s' = se_user s \<and> se_created s' = se_created s \<and> se_metadata s' = se_metadata s
     \<and> (se_revoked s \<noteq> None \<longrightarrow> se_revoked s' \<noteq> None)"

definition sessions_follow :: "string set \<Rightarrow> string set \<Rightarrow> session_row list \<Rightarrow> session_row list \<Rightarrow> bool" where
  "sessions_follow used used' ss ss' \<longleftrightarrow> used \<subseteq> used'
     \<and> (\<forall>s' \<in> set ss'. (\<exists>s \<in> set ss. same_session s s') \<or> se_hash s' \<in> used' - used)"

lemma same_session_refl [simp]: "same_session s s" by (simp add: same_session_def)

lemma same_session_mem: "s \<in> set ss \<Longrightarrow> \<exists>s0 \<in> set ss. same_session s0 s"
  by (rule bexI [where x = s]) simp_all

lemma follow_refl [simp]: "sessions_follow used used ss ss"
  by (auto simp: sessions_follow_def intro: same_session_mem)

lemma follow_filter: "sessions_follow used used ss (filter p ss)"
  by (auto simp: sessions_follow_def intro: same_session_mem)

lemma follow_update: "(\<And>s. same_session s (f s)) \<Longrightarrow> sessions_follow used used ss (update_rows p f ss)"
  unfolding sessions_follow_def set_update_rows using same_session_refl by blast

lemma follow_widen: "sessions_follow used used ss ss' \<Longrightarrow> sessions_follow used (insert h used) ss ss'"
  by (auto simp: sessions_follow_def)

lemma follow_append: "se_hash x = h \<Longrightarrow> h \<notin> used \<Longrightarrow> sessions_follow used (insert h used) ss (ss @ [x])"
  unfolding sessions_follow_def using same_session_mem [of _ ss] by auto

lemma follow_issue: "put_session digest p i t now db = Inr (r, db') \<Longrightarrow> digest t \<notin> used
    \<Longrightarrow> sessions_follow used (insert (digest t) used) (tb_sessions db) (tb_sessions db')"
  by (auto simp: put_session_def Let_def intro!: follow_append split: if_splits)

lemma rebuild_members_tables [simp]:
  "tb_sessions (rebuild_members now is db) = tb_sessions db" "tb_users (rebuild_members now is db) = tb_users db"
  "tb_members (rebuild_members now is db) = tb_members db" "tb_bindings (rebuild_members now is db) = tb_bindings db"
  "tb_agencies (rebuild_members now is db) = tb_agencies db"
  unfolding rebuild_members_def by (induction "is" arbitrary: db) simp_all

lemma demote_sessions [simp]: "tb_sessions (demote_if_unused now i db) = tb_sessions db"
  by (simp add: demote_if_unused_def split: option.split)

lemma delete_agency_sessions: "delete_agency g now db = Inr db' \<Longrightarrow> tb_sessions db' = tb_sessions db"
proof -
  have "tb_sessions (fold (\<lambda>i d. demote_if_unused now i (rebuild_user_access now i d)) is d) = tb_sessions d" for "is" d
    by (induction "is" arbitrary: d) simp_all
  then show "delete_agency g now db = Inr db' \<Longrightarrow> tb_sessions db' = tb_sessions db"
    by (auto simp: delete_agency_def forget_agency_def Let_def split: if_splits option.splits)
qed

lemma patch_user_sessions: "patch_user i p now db = Inr (u, db') \<Longrightarrow> sessions_follow used used (tb_sessions db) (tb_sessions db')"
proof -
  have reg: "tb_sessions (regrant now old new d) = tb_sessions d" for old new d
    by (auto simp: regrant_def Let_def rebuild_active_agency_access_def grant_agency_scope_def delete_grants_def)
  have rev: "sessions_follow used used ss (update_rows p (\<lambda>s. s\<lparr>se_revoked := Some now, se_updated := now\<rparr>) ss)" for p ss
    by (rule follow_update) (simp add: same_session_def)
  show "patch_user i p now db = Inr (u, db') \<Longrightarrow> sessions_follow used used (tb_sessions db) (tb_sessions db')"
    by (auto simp: patch_user_def Let_def reg rev revoke_user_sessions_def split: option.splits if_splits)
qed

lemma delete_user_sessions: "delete_user i db = Inr db' \<Longrightarrow> tb_sessions db' = filter (\<lambda>s. se_user s \<noteq> i) (tb_sessions db)"
  by (auto simp: delete_user_def forget_user_def split: option.splits)

lemma put_member_sessions: "put_member g p m now db = Inr (r, db') \<Longrightarrow> tb_sessions db' = tb_sessions db"
  by (auto simp: put_member_def Let_def split: option.splits if_splits)

lemma invited_user_sessions: "invited_user pwhash p ge acc clock email db = Inr (c, u, db') \<Longrightarrow> tb_sessions db' = tb_sessions db"
  by (auto simp: invited_user_def create_user_def set_password_def Let_def split: option.splits if_splits sum.splits)

lemma undo_sessions: "sessions_follow used used (tb_sessions db) (tb_sessions (snd (undo_accept v i now now2 b m c db)))"
  by (auto simp: undo_accept_def restored_tables_def Let_def follow_filter split: sum.split dest!: delete_user_sessions)

lemma finish_accept_sessions:
  assumes "digest (gn_token ge) \<notin> used"
  shows "sessions_follow used (insert (digest (gn_token ge)) used) (tb_sessions db)
    (tb_sessions (snd (finish_accept digest ge ttl clock row a created u db)))"
proof (cases "put_member (iv_agency row) \<lparr>mw_user = us_id u, mw_role = iv_role row, mw_status = UserActive\<rparr> (gn_member ge) (clock 0) db")
  case (Inl e)
  then show ?thesis by (simp add: finish_accept_def follow_widen)
next
  case (Inr x)
  obtain member db1 where x: "x = (member, db1)" by (cases x)
  let ?t = "accepted_tables clock row (us_id u) db1"
  let ?i = "issue_session digest \<lparr>sq_user = us_id u, sq_ttl = ttl, sq_metadata = None\<rparr> (gn_session ge) (gn_token ge) (clock 4) ?t"
  have t: "tb_sessions ?t = tb_sessions db"
    using put_member_sessions [OF Inr [unfolded x]] by (simp add: accepted_tables_def Let_def)
  show ?thesis
  proof (cases ?i)
    case err: (Inl e)
    obtain eo db4 where un: "undo_accept (iv_id row) (us_id u) (clock 0) (clock 5) (find_member (iv_agency row) (us_id u) db) (mb_id member) created
        ?t = (eo, db4)" by fastforce
    then have "sessions_follow used used (tb_sessions db) (tb_sessions db4)" using undo_sessions [of used ?t] t by (metis snd_conv)
    then show ?thesis using Inr err un by (simp add: finish_accept_def x Let_def follow_widen split: option.split)
  next
    case issued: (Inr y)
    then have "sessions_follow used (insert (digest (gn_token ge)) used) (tb_sessions ?t) (tb_sessions (snd y))"
      using assms by (cases y) (auto simp: issue_session_def intro: follow_issue split: if_splits)
    then show ?thesis using Inr issued t by (cases y) (simp add: finish_accept_def x Let_def)
  qed
qed

lemma accept_invite_sessions:
  assumes "digest (gn_token ge) \<notin> used"
  shows "sessions_follow used (insert (digest (gn_token ge)) used) (tb_sessions db)
    (tb_sessions (snd (accept_invite digest pwhash p ttl acc ge clock db)))"
proof -
  have "sessions_follow used (insert (digest (gn_token ge)) used) (tb_sessions db)
      (tb_sessions (snd (finish_accept digest ge ttl clock row a created u db1)))" if "tb_sessions db1 = tb_sessions db" for row a created u db1
    using finish_accept_sessions [where digest = digest and ge = ge and db = db1, OF assms] that by simp
  then show ?thesis by (auto simp: accept_invite_def follow_widen dest!: invited_user_sessions split: option.split sum.split)
qed

lemma external_user_sessions: "external_user p i now db = Inr (u, db') \<Longrightarrow> tb_sessions db' = tb_sessions db"
  by (auto simp: external_user_def create_user_def Let_def split: if_splits option.splits)

lemma link_identity_sessions: "link_identity p i now db = Inr (d, db') \<Longrightarrow> tb_sessions db' = tb_sessions db"
  by (auto simp: link_identity_def Let_def split: if_splits option.splits)

lemma resolve_external_sessions:
  assumes "digest (ge_token ge) \<notin> used"
  shows "sessions_follow used (insert (digest (ge_token ge)) used) (tb_sessions db) (tb_sessions (snd (resolve_external digest p ge clock db)))"
proof (cases "external_user p (ge_user ge) (clock 0) db")
  case (Inl e)
  then show ?thesis by (simp add: resolve_external_def follow_widen)
next
  case (Inr x)
  obtain u db1 where x: "x = (u, db1)" by (cases x)
  have ss1: "tb_sessions db1 = tb_sessions db" by (rule external_user_sessions [OF Inr [unfolded x]])
  let ?l = "\<lparr>il_user = us_id u, il_provider = er_provider p, il_subject = er_subject p, il_email = er_email p,
                    il_verified = er_verified p, il_profile = er_profile p\<rparr>"
  show ?thesis
  proof (cases "link_identity ?l (ge_identity ge) (clock 1) db1")
    case (Inl e)
    with Inr ss1 show ?thesis by (simp add: resolve_external_def x follow_widen)
  next
    case l: (Inr y)
    obtain d db2 where y: "y = (d, db2)" by (cases y)
    have ss2: "tb_sessions db2 = tb_sessions db" using link_identity_sessions [OF l [unfolded y]] ss1 by simp
    let ?q = "\<lparr>sq_user = us_id u, sq_ttl = er_ttl p,
                     sq_metadata = Some [(''provider'', JStr (er_provider p)), (''provider_user_id'', JStr (er_subject p))]\<rparr>"
    have "sessions_follow used (insert (digest (ge_token ge)) used) (tb_sessions db) (tb_sessions db3)"
      if "issue_session digest ?q (ge_session ge) (ge_token ge) (clock 2) db2 = Inr (r, db3)" for r db3
      using that assms unfolding ss2 [symmetric] by (auto simp: issue_session_def intro: follow_issue split: if_splits)
    then show ?thesis using Inr l ss1 ss2 by (simp add: resolve_external_def x y follow_widen split: sum.split prod.split)
  qed
qed

lemma step_sessions:
  "identity_step digest s s' \<Longrightarrow> sessions_follow (snd s) (snd s') (tb_sessions (fst s)) (tb_sessions (fst s'))"
proof (induction rule: identity_step.induct)
  case (s_issue_session q i t now db r db' used)
  then show ?case by (auto simp: issue_session_def intro: follow_issue split: if_splits)
next
  case (s_issue_envidicy j i t now db r db' used)
  then show ?case by (auto simp: issue_envidicy_session_def intro: follow_issue)
next
  case (s_revoke_session db used t now)
  have "sessions_follow used used ss (update_rows p (\<lambda>s. s\<lparr>se_revoked := Some now, se_updated := now\<rparr>) ss)" for p ss
    by (rule follow_update) (simp add: same_session_def)
  then show ?case by (simp add: revoke_session_def split: option.split)
next
  case (s_refresh_session db used t ttl now now2)
  have "sessions_follow used used ss (update_rows p (\<lambda>s. s\<lparr>se_expires := e, se_updated := now2\<rparr>) ss)" for p ss e
    by (rule follow_update) (simp add: same_session_def)
  then show ?case by (simp add: refresh_session_def split: sum.split)
next
  case (s_upsert_member g mw actor adm m now db y db' used)
  then show ?case by (auto simp: upsert_member_def Let_def dest!: put_member_sessions split: option.splits sum.splits)
qed (auto simp: create_user_def patch_user_sessions set_password_def link_identity_sessions assign_client_access_def remove_client_access_def
      delete_grants_def resolve_external_sessions create_agency_def patch_agency_def delete_agency_sessions deactivate_member_def remove_member_def
      assign_client_def revoke_client_def issue_invite_def revoke_invite_def resend_invite_def accept_invite_sessions follow_filter Let_def
    dest!: delete_user_sessions split: if_splits option.splits sum.splits)

section \<open>Revocation is final\<close>

lemma followD:
  assumes "sessions_follow used used' ss ss'"
  shows "used \<subseteq> used'" "x' \<in> set ss' \<Longrightarrow> (\<exists>x \<in> set ss. same_session x x') \<or> se_hash x' \<in> used' - used"
  using assms unfolding sessions_follow_def by blast+

abbreviation "identity_init \<equiv> (\<lambda>s::identity_state. empty_identity (fst s))"

definition hashes_used :: "identity_state \<Rightarrow> bool" where
  "hashes_used s \<longleftrightarrow> se_hash ` set (tb_sessions (fst s)) \<subseteq> snd s"

lemma reachable_hashes: "reachable identity_init (identity_step digest) s \<Longrightarrow> hashes_used s"
proof (induction rule: reachable.induct)
  case (reach_init s)
  then show ?case by (simp add: empty_identity_def hashes_used_def)
next
  case (reach_step s s')
  with step_sessions [OF reach_step.hyps(2)] show ?case
    by (auto simp: hashes_used_def sessions_follow_def same_session_def) (metis (no_types, lifting) DiffD1 image_subset_iff subsetD)
qed

text \<open>No live session has the digest, and none can be issued with it.\<close>

definition dead :: "string \<Rightarrow> identity_state \<Rightarrow> bool" where
  "dead h s \<longleftrightarrow> h \<in> snd s \<and> (\<forall>x \<in> set (tb_sessions (fst s)). se_hash x = h \<longrightarrow> se_revoked x \<noteq> None)"

lemma dead_runs: "(identity_step digest)\<^sup>*\<^sup>* s s' \<Longrightarrow> dead h s \<Longrightarrow> dead h s'"
proof (induction rule: rtranclp_induct)
  case (step s1 s2)
  have d: "h \<in> snd s1" "\<And>x. x \<in> set (tb_sessions (fst s1)) \<Longrightarrow> se_hash x = h \<Longrightarrow> se_revoked x \<noteq> None"
    using step.IH step.prems by (auto simp: dead_def)
  note f = followD [OF step_sessions [OF step.hyps(2)]]
  show ?case unfolding dead_def
  proof (intro conjI ballI impI)
    show "h \<in> snd s2" using d(1) f(1) by blast
    fix x' assume x': "x' \<in> set (tb_sessions (fst s2))" "se_hash x' = h"
    then obtain x where "x \<in> set (tb_sessions (fst s1))" "same_session x x'" using f(2) d(1) by blast
    with d(2) x'(2) show "se_revoked x' \<noteq> None" by (simp add: same_session_def)
  qed
qed

lemma find_sessionD: "find_session h db = Some s \<Longrightarrow> s \<in> set (tb_sessions db) \<and> se_hash s = h"
  by (auto simp: find_session_def dest: find_SomeD)

lemma dead_refused: "dead (digest t) (db, used) \<Longrightarrow> validate_session digest t now db \<noteq> Inr f"
  by (auto simp: validate_session_def dead_def dest!: find_sessionD split: option.split)

lemma validD:
  assumes "validate_session digest t now db = Inr f"
  shows "\<exists>s u. find_session (digest t) db = Some s \<and> se_user s = sx_user f \<and> se_id s = sx_session f \<and> se_created s = sx_issued f
    \<and> se_revoked s = None \<and> sx_id_method f = id_metadata (se_metadata s)
    \<and> bounded_expiry (se_expires s) (id_metadata (se_metadata s)) (se_created s) now = Some (sx_expires f) \<and> now < sx_expires f
    \<and> find_user (se_user s) db = Some u \<and> us_status u = UserActive \<and> us_role u = sx_role f"
  using assms by (auto simp: validate_session_def split: option.splits if_splits)

lemma one_session:
  assumes "identity_ok db" "find_session h db = Some s" "x \<in> set (tb_sessions db)" "se_hash x = h"
  shows "x = s"
  using assms find_sessionD [OF assms(2)] key_unique [of se_hash "tb_sessions db" x s]
  by (simp add: identity_ok_def tables_ok_def sessions_ok_def)

lemma revoke_session_kills:
  assumes ok: "identity_ok db" "find_session (digest t) db = Some s"
    and x: "x \<in> set (tb_sessions (snd (revoke_session digest t n db)))" "se_hash x = digest t"
  shows "se_revoked x \<noteq> None"
proof -
  let ?f = "\<lambda>r. r\<lparr>se_revoked := Some n, se_updated := n\<rparr>"
  have "x \<in> ?f ` {r \<in> set (tb_sessions db). se_id r = se_id s} \<or> x \<in> set (tb_sessions db) \<and> se_id x \<noteq> se_id s"
    using x(1) by (auto simp: revoke_session_def ok(2) set_update_rows)
  with one_session [OF ok _ x(2)] show ?thesis by auto
qed

lemma regrant_sessions: "tb_sessions (regrant now old new d) = tb_sessions d"
  by (auto simp: regrant_def Let_def rebuild_active_agency_access_def grant_agency_scope_def delete_grants_def)

lemma deactivation_kills:
  assumes ok: "identity_ok db" "find_session h db = Some s" and u: "find_user (se_user s) db = Some u" "us_status u = UserActive"
    and p: "patch_user (se_user s) p n db = Inr (new, db1)" "us_status new \<noteq> UserActive"
    and x: "x \<in> set (tb_sessions db1)" "se_hash x = h"
  shows "se_revoked x \<noteq> None"
proof -
  have "\<not> upatch_empty p" using p u by (auto simp: patch_user_def)
  with p u have "tb_sessions db1 = update_rows (\<lambda>r. se_user r = se_user s \<and> se_revoked r = None)
      (\<lambda>r. r\<lparr>se_revoked := Some n, se_updated := n\<rparr>) (tb_sessions db)"
    by (auto simp: patch_user_def Let_def regrant_sessions revoke_user_sessions_def split: option.splits)
  with x(1) obtain r where r: "r \<in> set (tb_sessions db)"
    "x = (if se_user r = se_user s \<and> se_revoked r = None then r\<lparr>se_revoked := Some n, se_updated := n\<rparr> else r)"
    by (auto simp: update_rows_def)
  then have "r = s" using x(2) one_session [OF ok r(1)] by (simp split: if_splits)
  with r(2) show ?thesis by simp
qed

lemma deletion_kills:
  "\<lbrakk>identity_ok db; find_session h db = Some s; delete_user (se_user s) db = Inr db1; x \<in> set (tb_sessions db1)\<rbrakk> \<Longrightarrow> se_hash x \<noteq> h"
  using one_session by (fastforce simp: delete_user_sessions)

text \<open>C19: A live session that is revoked, or whose user is deactivated or deleted, is never valid again, whatever happens later.\<close>
theorem revocation_final:
  assumes "reachable identity_init (identity_step digest) (db, used)" "validate_session digest t now db = Inr f"
    and "db1 = snd (revoke_session digest t n db) \<or> patch_user (sx_user f) p n db = Inr (new, db1) \<and> us_status new \<noteq> UserActive
      \<or> delete_user (sx_user f) db = Inr db1"
    and "(identity_step digest)\<^sup>*\<^sup>* (db1, used) (db2, used2)"
  shows "\<exists>r. validate_session digest t n2 db2 = Inl r"
proof -
  obtain s u where s: "find_session (digest t) db = Some s" "se_user s = sx_user f" and u: "find_user (se_user s) db = Some u" "us_status u = UserActive"
    using validD [OF assms(2)] by blast
  have ok: "identity_ok db" using identity.reachable_inv [OF assms(1)] by simp
  have "digest t \<in> used" using reachable_hashes [OF assms(1)] find_sessionD [OF s(1)] by (auto simp: hashes_used_def)
  moreover have "se_revoked x \<noteq> None" if "x \<in> set (tb_sessions db1)" "se_hash x = digest t" for x
  proof -
    from assms(3) consider "db1 = snd (revoke_session digest t n db)"
      | "patch_user (se_user s) p n db = Inr (new, db1)" "us_status new \<noteq> UserActive"
      | "delete_user (se_user s) db = Inr db1" unfolding s(2) by blast
    then show ?thesis
      using revoke_session_kills [where digest = digest and t = t, OF ok s(1)] deactivation_kills [OF ok s(1) u] deletion_kills [OF ok s(1)] that
      by cases blast+
  qed
  ultimately have "dead (digest t) (db1, used)" by (simp add: dead_def)
  then have "dead (digest t) (db2, used2)" by (rule dead_runs [OF assms(4)])
  then have "validate_session digest t n2 db2 \<noteq> Inr f'" for f' by (rule dead_refused)
  then show ?thesis by (metis sum.exhaust)
qed

lemma revocation_final_witness:
  "\<exists>r. validate_session (\<lambda>t. t) ''tok'' 6 (snd (revoke_session (\<lambda>t. t) ''tok'' 5 sample_session)) = Inl r"
proof -
  have "validate_session (\<lambda>t. t) ''tok'' 4 sample_session = Inr (projr (validate_session (\<lambda>t. t) ''tok'' 4 sample_session))" by code_simp
  from revocation_final [OF reachable_session this disjI1 [OF refl] rtranclp.rtrancl_refl] show ?thesis .
qed

text \<open>A session issued by Envidicy ID belongs to its user and is valid for less than fifteen minutes after it was issued,
  however often it is refreshed.\<close>
theorem envidicy_session_short:
  assumes "issue_envidicy_session digest j i t now db = Inr (r, db1)" "digest t \<in> used"
    and "(identity_step digest)\<^sup>*\<^sup>* (db1, used) (db2, used2)" "validate_session digest t n2 db2 = Inr f"
  shows "sx_user f = j \<and> sx_id_method f \<and> n2 < now + 15 * 60 * 1000000"
proof -
  define orig where "orig s \<longleftrightarrow> digest t \<in> snd s \<and> (\<forall>x \<in> set (tb_sessions (fst s)). se_hash x = digest t
      \<longrightarrow> se_user x = j \<and> se_created x = now \<and> id_metadata (se_metadata x))" for s :: identity_state
  have runs: "(identity_step digest)\<^sup>*\<^sup>* s s' \<Longrightarrow> orig s \<Longrightarrow> orig s'" for s s'
  proof (induction rule: rtranclp_induct)
    case (step s1 s2)
    have d: "digest t \<in> snd s1" "\<And>x. x \<in> set (tb_sessions (fst s1)) \<Longrightarrow> se_hash x = digest t \<Longrightarrow> se_user x = j \<and> se_created x = now \<and> id_metadata (se_metadata x)"
      using step.IH step.prems unfolding orig_def by blast+
    note f = followD [OF step_sessions [OF step.hyps(2)]]
    show ?case unfolding orig_def
    proof (intro conjI [OF _ ballI] impI)
      show "digest t \<in> snd s2" using d(1) f(1) by blast
      fix x' assume x': "x' \<in> set (tb_sessions (fst s2))" "se_hash x' = digest t"
      obtain x where "x \<in> set (tb_sessions (fst s1))" "same_session x x'" using f(2) [OF x'(1)] x'(2) d(1) by auto
      with d(2) x'(2) show "se_user x' = j \<and> se_created x' = now \<and> id_metadata (se_metadata x')" by (simp add: same_session_def)
    qed
  qed simp
  have "orig (db1, used)"
    using assms(1,2) unfolding orig_def
    by (auto simp: issue_envidicy_session_def put_session_def Let_def id_metadata_def stored_profile_def split: if_splits) (metis imageI)+
  from runs [OF assms(3) this] have o2: "orig (db2, used2)" .
  obtain s where s: "find_session (digest t) db2 = Some s" "se_user s = sx_user f" "sx_id_method f = id_metadata (se_metadata s)"
    "bounded_expiry (se_expires s) (id_metadata (se_metadata s)) (se_created s) n2 = Some (sx_expires f)" "n2 < sx_expires f"
    using validD [OF assms(4)] by blast
  from o2 find_sessionD [OF s(1)] have "se_user s = j" "se_created s = now" "id_metadata (se_metadata s)" by (auto simp: orig_def)
  with s(2-5) show ?thesis by (auto simp: bounded_expiry_def minutes_def envidicy_ttl_def split: if_splits)
qed

lemma envidicy_session_short_witness:
  "\<exists>f. validate_session (\<lambda>t. t) ''tok'' 4 (after (issue_envidicy_session (\<lambda>t. t) 3 1 ''tok'' 3 sample_users)) = Inr f
     \<and> sx_user f = 3 \<and> sx_id_method f \<and> (4::int) < 3 + 15 * 60 * 1000000"
proof -
  let ?x = "issue_envidicy_session (\<lambda>t. t) 3 1 ''tok'' 3 sample_users"
  have "?x = Inr (fst (projr ?x), after ?x)" by code_simp
  moreover have "validate_session (\<lambda>t. t) ''tok'' 4 (after ?x) = Inr (projr (validate_session (\<lambda>t. t) ''tok'' 4 (after ?x)))" by code_simp
  moreover have "(\<lambda>t. t) ''tok'' \<in> {''tok''}" by simp
  ultimately show ?thesis using envidicy_session_short [where used = "{''tok''}", OF _ _ rtranclp.rtrancl_refl] by blast
qed

section \<open>An active administrator remains\<close>

definition has_admin :: "user_row list \<Rightarrow> bool" where
  "has_admin us \<longleftrightarrow> (\<exists>u \<in> set us. us_role u = Admin \<and> us_status u = UserActive)"

lemma has_admin_like:
  assumes "\<And>u. us_role (f u) = us_role u" "\<And>u. us_status (f u) = us_status u"
  shows "has_admin us \<Longrightarrow> has_admin (update_rows p f us)"
proof -
  assume "has_admin us"
  then obtain u where u: "u \<in> set us" "us_role u = Admin" "us_status u = UserActive" by (auto simp: has_admin_def)
  have "(if p u then f u else u) \<in> set (update_rows p f us)" using u(1) by (auto simp: update_rows_def)
  with u(2,3) assms show ?thesis unfolding has_admin_def by (metis (full_types))
qed

lemma create_user_admin: "create_user p i now db = Inr (u, db') \<Longrightarrow> has_admin (tb_users db) \<Longrightarrow> has_admin (tb_users db')"
  by (auto simp: create_user_def Let_def has_admin_def split: if_splits)

lemma set_password_admin: "set_password h i pw now db = Inr db' \<Longrightarrow> has_admin (tb_users db) \<Longrightarrow> has_admin (tb_users db')"
  by (auto simp: set_password_def has_admin_like split: if_splits)

lemma last_admin_other: "\<not> last_admin i db \<Longrightarrow> \<exists>u \<in> set (tb_users db). us_role u = Admin \<and> us_status u = UserActive \<and> us_id u \<noteq> i"
  by (auto simp: last_admin_def)

lemma admin_elsewhere:
  assumes "identity_ok db" "find_user i db = Some old" "has_admin (tb_users db)" "us_role old \<noteq> Admin \<or> us_status old \<noteq> UserActive"
  shows "\<exists>u \<in> set (tb_users db). us_role u = Admin \<and> us_status u = UserActive \<and> us_id u \<noteq> i"
proof -
  have d: "distinct (map us_id (tb_users db))" using assms(1) by (simp add: identity_ok_def tables_ok_def)
  obtain a where a: "a \<in> set (tb_users db)" "us_role a = Admin" "us_status a = UserActive" using assms(3) by (auto simp: has_admin_def)
  have "us_id a \<noteq> i" using key_unique [OF d a(1)] find_userD [OF assms(2)] a(2,3) assms(4) by metis
  with a show ?thesis by blast
qed

lemma patch_user_admin:
  assumes "identity_ok db" "patch_user i p now db = Inr (new, db')" "has_admin (tb_users db)"
  shows "has_admin (tb_users db')"
proof -
  obtain old where old: "find_user i db = Some old" using assms(2) by (auto simp: patch_user_def split: option.splits)
  show ?thesis
  proof (cases "upatch_empty p")
    case True
    with assms old show ?thesis by (simp add: patch_user_def)
  next
    case False
    have reg: "tb_users (regrant now old new d) = tb_users d" for old new d
      by (auto simp: regrant_def Let_def rebuild_active_agency_access_def grant_agency_scope_def delete_grants_def)
    have new: "new = patched_user p now old" "patch_user_guard old new db = None"
      and us: "tb_users db' = update_rows (\<lambda>u. us_id u = i) (\<lambda>_. new) (tb_users db)"
      using assms(2) old False by (auto simp: patch_user_def Let_def reg revoke_user_sessions_def split: option.splits)
    have mem: "old \<in> set (tb_users db)" "us_id old = i" using find_userD [OF old] by simp_all
    show ?thesis
    proof (cases "us_role new = Admin \<and> us_status new = UserActive")
      case True
      with mem show ?thesis by (auto simp: us has_admin_def set_update_rows)
    next
      case no: False
      have "\<exists>u \<in> set (tb_users db). us_role u = Admin \<and> us_status u = UserActive \<and> us_id u \<noteq> i"
      proof (cases "us_role old = Admin \<and> us_status old = UserActive")
        case True
        with new(2) no mem(2) have "\<not> last_admin i db" by (auto simp: patch_user_guard_def first_error_None)
        then show ?thesis by (rule last_admin_other)
      next
        case False
        then show ?thesis using admin_elsewhere [OF assms(1) old assms(3)] by blast
      qed
      then show ?thesis by (auto simp: us has_admin_def set_update_rows)
    qed
  qed
qed

lemma delete_user_admin:
  assumes "identity_ok db" "delete_user i db = Inr db'" "has_admin (tb_users db)"
  shows "has_admin (tb_users db')"
proof -
  obtain u where u: "find_user i db = Some u" "us_role u = Admin \<and> us_status u = UserActive \<longrightarrow> \<not> last_admin i db"
    and us: "tb_users db' = filter (\<lambda>u. us_id u \<noteq> i) (tb_users db)"
    using assms(2) by (auto simp: delete_user_def first_error_None forget_user_def split: option.splits)
  have "\<exists>u \<in> set (tb_users db). us_role u = Admin \<and> us_status u = UserActive \<and> us_id u \<noteq> i"
    using u(2) last_admin_other admin_elsewhere [OF assms(1) u(1) assms(3)] by blast
  then show ?thesis by (auto simp: us has_admin_def)
qed

lemma demote_admin:
  assumes "identity_ok db" "has_admin (tb_users db)"
  shows "has_admin (tb_users (demote_if_unused now i db))"
proof (cases "\<exists>u. find_user i db = Some u \<and> us_role u = Agency \<and> \<not> active_membership i db")
  case True
  then obtain u where u: "find_user i db = Some u" "us_role u = Agency" "\<not> active_membership i db" by blast
  from admin_elsewhere [OF assms(1) u(1) assms(2)] u(2) have "\<exists>a \<in> set (tb_users db). us_role a = Admin \<and> us_status a = UserActive \<and> us_id a \<noteq> i" by simp
  with u show ?thesis by (auto simp: demote_if_unused_def has_admin_def set_update_rows)
next
  case False
  with assms(2) show ?thesis by (auto simp: demote_if_unused_def split: option.split)
qed

lemma delete_agency_admin:
  assumes "identity_ok db" "delete_agency g now db = Inr db'" "has_admin (tb_users db)"
  shows "has_admin (tb_users db')"
proof -
  have "identity_ok d \<Longrightarrow> has_admin (tb_users d) \<Longrightarrow> has_admin (tb_users (fold (\<lambda>i d. demote_if_unused now i (rebuild_user_access now i d)) is d))" for "is" d
  proof (induction "is" arbitrary: d)
    case (Cons i js)
    then show ?case using demote_ok [of d now i] demote_admin [of "rebuild_user_access now i d" now i] identity_rebuild [of d now i] by simp
  qed simp
  then show ?thesis using assms forget_agency_ok [OF assms(1), of g]
    by (auto simp: delete_agency_def forget_agency_def Let_def split: if_splits option.splits)
qed

lemma undo_admin:
  assumes "identity_ok db" "has_admin (tb_users db)"
  shows "has_admin (tb_users (snd (undo_accept v i now now2 b m c db)))"
proof -
  have "undo_accept v i now now2 b m False db = (None, restored_tables v i now now2 b m db)" by (simp add: undo_accept_def Let_def)
  with undo_accept_ok [OF assms(1), of v i now now2 b m False] have ok: "identity_ok (restored_tables v i now now2 b m db)" by simp
  have "has_admin (tb_users (restored_tables v i now now2 b m db))" using assms(2) by (simp add: restored_tables_def)
  then show ?thesis using delete_user_admin [OF ok] by (auto simp: undo_accept_def Let_def split: sum.split)
qed

lemma finish_accept_admin:
  assumes "identity_ok db" "us_id u \<in> us_id ` set (tb_users db)" "has_admin (tb_users db)"
  shows "has_admin (tb_users (snd (finish_accept digest ge ttl clock row a created u db)))"
proof (cases "put_member (iv_agency row) \<lparr>mw_user = us_id u, mw_role = iv_role row, mw_status = UserActive\<rparr> (gn_member ge) (clock 0) db")
  case (Inl e)
  with assms(3) show ?thesis by (simp add: finish_accept_def)
next
  case (Inr x)
  obtain member db1 where x: "x = (member, db1)" by (cases x)
  let ?t = "accepted_tables clock row (us_id u) db1"
  have "identity_ok db1" by (rule put_member_ok [OF assms(1) Inr [unfolded x]]) (simp add: assms(2))
  then have ok: "identity_ok ?t" by (simp add: accepted_tables_def Let_def identity_rebuild del: rebuild_tables)
  have "tb_users db1 = tb_users db" using Inr x by (auto simp: put_member_def Let_def split: option.splits if_splits)
  then have adm: "has_admin (tb_users ?t)" using assms(3) by (simp add: accepted_tables_def Let_def)
  show ?thesis
  proof (cases "issue_session digest \<lparr>sq_user = us_id u, sq_ttl = ttl, sq_metadata = None\<rparr> (gn_session ge) (gn_token ge) (clock 4) ?t")
    case err: (Inl e)
    obtain eo db4 where un: "undo_accept (iv_id row) (us_id u) (clock 0) (clock 5) (find_member (iv_agency row) (us_id u) db) (mb_id member) created
        ?t = (eo, db4)" by fastforce
    with undo_admin [OF ok adm] have "has_admin (tb_users db4)" by (metis snd_conv)
    then show ?thesis using Inr err un by (simp add: finish_accept_def x Let_def split: option.split)
  next
    case issued: (Inr y)
    then have "tb_users (snd y) = tb_users ?t" by (cases y) (auto simp: issue_session_def put_session_def Let_def split: if_splits)
    then show ?thesis using Inr issued adm by (cases y) (simp add: finish_accept_def x Let_def)
  qed
qed

lemma invited_user_admin: "invited_user pwhash p ge acc clock email db = Inr (c, u, db') \<Longrightarrow> has_admin (tb_users db) \<Longrightarrow> has_admin (tb_users db')"
  by (auto simp: invited_user_def intro: set_password_admin [OF _ create_user_admin] split: option.splits if_splits sum.splits)

lemma accept_invite_admin:
  assumes "identity_ok db" "has_admin (tb_users db)"
  shows "has_admin (tb_users (snd (accept_invite digest pwhash p ttl acc ge clock db)))"
proof -
  have "has_admin (tb_users (snd (finish_accept digest ge ttl clock row a c u db')))"
    if "invited_user pwhash p ge acc clock email db = Inr (c, u, db')" for email c u db' row a
    using finish_accept_admin invited_user_ok [OF assms(1) that] invited_user_admin [OF that assms(2)] by blast
  with assms(2) show ?thesis by (auto simp: accept_invite_def split: option.split sum.split)
qed

lemma resolve_external_admin:
  assumes "has_admin (tb_users db)"
  shows "has_admin (tb_users (snd (resolve_external digest p ge clock db)))"
proof -
  have link: "tb_users db' = tb_users d" if "link_identity l i now d = Inr (x, db')" for l i now d x db'
    using that by (auto simp: link_identity_def Let_def split: if_splits option.splits)
  have issue: "tb_users db' = tb_users d" if "issue_session digest q i t now d = Inr (x, db')" for q i t now d x db'
    using that by (auto simp: issue_session_def put_session_def Let_def split: if_splits)
  have "has_admin (tb_users db')" if "external_user p i now db = Inr (u, db')" for i now u db'
    using that assms by (auto simp: external_user_def Let_def dest: create_user_admin split: if_splits option.splits)
  with assms show ?thesis by (auto simp: resolve_external_def dest!: link issue split: sum.split)
qed

lemma step_admin: "identity_step digest s s' \<Longrightarrow> identity_ok (fst s) \<Longrightarrow> has_admin (tb_users (fst s)) \<Longrightarrow> has_admin (tb_users (fst s'))"
proof (induction rule: identity_step.induct)
  case (s_upsert_member g mw actor adm m now db y db' used)
  have "put_member g p i n d = Inr (r, d') \<Longrightarrow> tb_users d' = tb_users d" for p i n d r d'
    by (auto simp: put_member_def Let_def split: option.splits if_splits)
  with s_upsert_member show ?case by (fastforce simp: upsert_member_def Let_def split: option.splits sum.splits)
qed (auto simp: link_identity_def assign_client_access_def remove_client_access_def delete_grants_def issue_session_def issue_envidicy_session_def
      put_session_def revoke_session_def refresh_session_def create_agency_def patch_agency_def deactivate_member_def remove_member_def
      assign_client_def revoke_client_def issue_invite_def revoke_invite_def resend_invite_def Let_def resolve_external_admin accept_invite_admin
    dest: create_user_admin patch_user_admin delete_user_admin set_password_admin delete_agency_admin
    split: if_splits option.splits sum.splits)

text \<open>C21: The platform keeps an active administrator: no sequence of requests removes the last one.\<close>
theorem admin_remains:
  assumes "reachable identity_init (identity_step digest) s" "(identity_step digest)\<^sup>*\<^sup>* s s'"
    and "\<exists>u \<in> set (tb_users (fst s)). us_role u = Admin \<and> us_status u = UserActive"
  shows "\<exists>u \<in> set (tb_users (fst s')). us_role u = Admin \<and> us_status u = UserActive"
proof -
  have "identity_ok (fst s') \<and> has_admin (tb_users (fst s'))"
    using assms(2)
  proof (induction rule: rtranclp_induct)
    case base
    show ?case using identity.reachable_inv [OF assms(1)] assms(3) by (simp add: has_admin_def)
  next
    case (step x y)
    then show ?case using identity_step_ok step_admin by blast
  qed
  then show ?thesis by (simp add: has_admin_def)
qed

lemma admin_remains_witness: "\<exists>u \<in> set (tb_users sample_users). us_role u = Admin \<and> us_status u = UserActive"
proof -
  have "\<exists>u \<in> set (tb_users (fst (sample_users, {} :: string set))). us_role u = Admin \<and> us_status u = UserActive" by code_simp
  from admin_remains [OF reachable_users rtranclp.rtrancl_refl this] show ?thesis by simp
qed

end
