(* ===== verification/Identity_Agency_Theorems.thy ===== *)
theory Identity_Agency_Theorems
  imports Identity_Theorems
begin

text \<open>
  Agencies: the owner guard, the grants that follow the bindings, and two operations that reach the
  same tables without the guard.
\<close>

section \<open>Owners\<close>

lemma identity_okD:
  assumes "identity_ok db"
  shows "distinct (map us_id (tb_users db))" "grants_ok (tb_users db) (tb_grants db)" "distinct (map mb_id (tb_members db))"
    "distinct (map (\<lambda>m. (mb_agency m, mb_user m)) (tb_members db))"
  using assms by (simp_all add: identity_ok_def tables_ok_def members_ok_def)

lemma another_row:
  assumes "distinct (map k rows)" "t \<in> set rows" "2 \<le> length (filter p rows)"
  shows "\<exists>r \<in> set rows. p r \<and> k r \<noteq> k t"
proof (rule ccontr)
  assume "\<not> ?thesis"
  then have "set (filter p rows) \<subseteq> {t}" using key_unique [OF assms(1)] assms(2) by auto
  then have "card (set (filter p rows)) \<le> 1" using card_mono [of "{t}" "set (filter p rows)"] by simp
  moreover have "distinct (filter p rows)" using assms(1) by (simp add: distinct_map)
  ultimately show False using assms(3) distinct_card by fastforce
qed

text \<open>One member row replaced or removed, with the guard passed.\<close>

lemma owner_after_member:
  assumes ok: "identity_ok db" and t: "t \<in> set (tb_members db)" "mb_agency t = g'"
    and guard: "\<not> loses_last_owner g' (Some t) next_role next_status db"
    and rows: "\<And>m. m \<in> set (tb_members db) \<Longrightarrow> mb_id m \<noteq> mb_id t \<Longrightarrow> m \<in> set ms"
      "next_role = Some Owner \<Longrightarrow> next_status = Some UserActive \<Longrightarrow>
        \<exists>n \<in> set ms. mb_agency n = g' \<and> mb_user n = mb_user t \<and> mb_role n = Owner \<and> mb_status n = UserActive"
    and own: "\<exists>m \<in> set (tb_members db). active_owner g db m"
  shows "\<exists>m \<in> set ms. active_owner g db m"
proof -
  obtain m where m: "m \<in> set (tb_members db)" "active_owner g db m" using own by blast
  show ?thesis
  proof (cases "mb_id m = mb_id t")
    case False
    with m rows(1) show ?thesis by blast
  next
    case True
    then have mt: "m = t" using key_unique [OF identity_okD(3) [OF ok] m(1) t(1)] by simp
    show ?thesis
    proof (cases "next_role = Some Owner \<and> next_status = Some UserActive")
      case True
      with rows(2) m(2) t(2) mt show ?thesis by (fastforce simp: active_owner_def)
    next
      case False
      with guard m(2) mt t(2) have "2 \<le> length (filter (active_owner g db) (tb_members db))"
        by (auto simp: loses_last_owner_def active_owner_def active_owner_count_def)
      from another_row [OF identity_okD(3) [OF ok] t(1) this] rows(1) show ?thesis by blast
    qed
  qed
qed

lemma active_owner_users: "tb_users db' = tb_users db \<Longrightarrow> active_owner g db' = active_owner g db"
  by (simp add: active_owner_def owner_user_def fun_eq_iff)

lemma member_guardD: "member_guard g t r st actor adm req db = None \<Longrightarrow> \<not> loses_last_owner g t r st db"
  by (auto simp: member_guard_def first_error_None split: sum.splits)

lemma upsert_member_owner:
  assumes "identity_ok db" "upsert_member g' p actor adm m now db = Inr (y, db')" "\<exists>o' \<in> set (tb_members db). active_owner g db o'"
  shows "\<exists>o' \<in> set (tb_members db'). active_owner g db' o'"
proof -
  obtain db1 where guard: "member_guard g' (find_member g' (mw_user p) db) (Some (mw_role p)) (Some (mw_status p)) actor adm
      (find_member g' (mw_user p) db \<noteq> None) db = None"
    and put: "put_member g' p m now db = Inr (y, db1)" and db': "db' = rebuild_user_access now (mw_user p) db1"
    using assms(2) by (auto simp: upsert_member_def Let_def first_error_None split: option.splits sum.splits)
  have us: "tb_users db1 = tb_users db" using put by (auto simp: put_member_def Let_def split: option.splits if_splits)
  have "\<exists>o' \<in> set (tb_members db1). active_owner g db o'"
  proof (cases "find_member g' (mw_user p) db")
    case None
    with put assms(3) show ?thesis by (auto simp: put_member_def Let_def split: if_splits)
  next
    case (Some t)
    have ms: "tb_members db1 = update_rows (\<lambda>r. mb_id r = mb_id t) (\<lambda>_. y) (tb_members db)"
      and y: "y = t\<lparr>mb_role := mw_role p, mb_status := mw_status p, mb_updated := now\<rparr>"
      using put Some by (auto simp: put_member_def Let_def)
    have t: "t \<in> set (tb_members db)" "mb_agency t = g'" using find_memberD [OF Some] by simp_all
    have "y \<in> set (tb_members db1)" using t by (auto simp: ms set_update_rows)
    then show ?thesis
      by (intro owner_after_member [OF assms(1) t member_guardD [OF guard [unfolded Some]] _ _ assms(3)])
        (use t y in \<open>auto simp: ms set_update_rows intro!: bexI [of _ y]\<close>)
  qed
  moreover have "active_owner g db' = active_owner g db" by (rule active_owner_users) (simp add: db' us)
  ultimately show ?thesis by (simp add: db')
qed

lemma deactivate_member_owner:
  assumes "identity_ok db" "deactivate_member g' m actor adm now db = Inr (y, db')" "\<exists>o' \<in> set (tb_members db). active_owner g db o'"
  shows "\<exists>o' \<in> set (tb_members db'). active_owner g db' o'"
proof -
  obtain t where t: "member_of_agency g' m db = Some t" "y = t\<lparr>mb_status := UserInactive, mb_updated := now\<rparr>"
    and guard: "member_guard g' (Some t) (Some (mb_role t)) (Some UserInactive) actor adm True db = None"
    and db': "db' = rebuild_user_access now (mb_user t) (db\<lparr>tb_members := update_rows (\<lambda>r. mb_id r = m) (\<lambda>_. y) (tb_members db)\<rparr>)"
    using assms(2) by (auto simp: deactivate_member_def Let_def split: option.splits if_splits)
  have tm: "t \<in> set (tb_members db)" "mb_agency t = g'" and id: "mb_id t = m" using member_of_agencyD [OF t(1)] by simp_all
  have "\<exists>o' \<in> set (update_rows (\<lambda>r. mb_id r = m) (\<lambda>_. y) (tb_members db)). active_owner g db o'"
    by (rule owner_after_member [OF assms(1) tm member_guardD [OF guard] _ _ assms(3)]) (use id in \<open>auto simp: set_update_rows\<close>)
  moreover have "active_owner g db' = active_owner g db" by (rule active_owner_users) (simp add: db')
  ultimately show ?thesis by (simp add: db')
qed

lemma remove_member_owner:
  assumes "identity_ok db" "remove_member g' m actor adm now db = Inr db'" "\<exists>o' \<in> set (tb_members db). active_owner g db o'"
  shows "\<exists>o' \<in> set (tb_members db'). active_owner g db' o'"
proof -
  obtain t where t: "member_of_agency g' m db = Some t" and guard: "member_guard g' (Some t) None None actor adm True db = None"
    and db': "db' = rebuild_user_access now (mb_user t) (db\<lparr>tb_members := filter (\<lambda>r. mb_id r \<noteq> m) (tb_members db)\<rparr>)"
    using assms(2) by (auto simp: remove_member_def split: option.splits if_splits)
  have tm: "t \<in> set (tb_members db)" "mb_agency t = g'" and id: "mb_id t = m" using member_of_agencyD [OF t] by simp_all
  have "\<exists>o' \<in> set (filter (\<lambda>r. mb_id r \<noteq> m) (tb_members db)). active_owner g db o'"
    by (rule owner_after_member [OF assms(1) tm member_guardD [OF guard] _ _ assms(3)]) (use id in auto)
  moreover have "active_owner g db' = active_owner g db" by (rule active_owner_users) (simp add: db')
  ultimately show ?thesis by (simp add: db')
qed

text \<open>The owner of an agency by a user other than \<open>i\<close>, or by \<open>i\<close> with the exit guard passed.\<close>

lemma owner_exit:
  assumes "owner_exit_guard i db = None" "\<exists>m \<in> set (tb_members db). active_owner g db m"
  shows "\<exists>m \<in> set (tb_members db). active_owner g db m \<and> mb_user m \<noteq> i"
proof -
  obtain m where m: "m \<in> set (tb_members db)" "active_owner g db m" using assms(2) by blast
  show ?thesis
  proof (cases "mb_user m = i")
    case True
    with m assms(1) have "other_owner m db" by (auto simp: owner_exit_guard_def find_None_iff active_owner_def)
    then obtain m' where "m' \<in> set (tb_members db)" "mb_agency m' = mb_agency m" "mb_user m' \<noteq> mb_user m" "mb_role m' = Owner"
      "mb_status m' = UserActive" "owner_user (mb_user m') db" unfolding other_owner_def by blast
    with m(2) True show ?thesis by (intro bexI [of _ m']) (simp_all add: active_owner_def)
  qed (use m in blast)
qed

lemma patch_user_owner:
  assumes "identity_ok db" "patch_user i p now db = Inr (new, db')" "\<exists>o' \<in> set (tb_members db). active_owner g db o'"
  shows "\<exists>o' \<in> set (tb_members db'). active_owner g db' o'"
proof -
  obtain old where old: "find_user i db = Some old" using assms(2) by (auto simp: patch_user_def split: option.splits)
  show ?thesis
  proof (cases "upatch_empty p")
    case True
    with assms old show ?thesis by (simp add: patch_user_def)
  next
    case False
    have reg: "tb_users (regrant now old new d) = tb_users d" "tb_members (regrant now old new d) = tb_members d" for old new d
      by (auto simp: regrant_def Let_def rebuild_active_agency_access_def grant_agency_scope_def delete_grants_def)
    have new: "new = patched_user p now old" "patch_user_guard old new db = None"
      and us: "tb_users db' = update_rows (\<lambda>u. us_id u = i) (\<lambda>_. new) (tb_users db)" "tb_members db' = tb_members db"
      using assms(2) old False by (auto simp: patch_user_def Let_def reg revoke_user_sessions_def split: option.splits)
    have mem: "old \<in> set (tb_users db)" "us_id old = i" "us_id new = i" using find_userD [OF old] by (simp_all add: new patched_user_def)
    have others: "owner_user j db' = owner_user j db" if "j \<noteq> i" for j
      using that mem by (auto simp: owner_user_def us set_update_rows)
    have old_owner: "owner_user i db \<longleftrightarrow> us_status old = UserActive \<and> us_role old \<in> {Agency, Admin}"
      unfolding owner_user_def using mem(1,2) key_unique [OF identity_okD(1) [OF assms(1)]] by (metis)
    show ?thesis
    proof (cases "us_status old = UserActive \<and> us_role old \<in> {Agency, Admin} \<and> \<not> (us_status new = UserActive \<and> us_role new \<in> {Agency, Admin})")
      case True
      with new(2) mem(2) have "owner_exit_guard i db = None" by (auto simp: patch_user_guard_def first_error_None)
      from owner_exit [OF this assms(3)] obtain m where "m \<in> set (tb_members db)" "active_owner g db m" "mb_user m \<noteq> i" by blast
      with others show ?thesis unfolding us by (intro bexI [of _ m]) (simp_all add: active_owner_def)
    next
      case no: False
      have "owner_user i db \<longrightarrow> owner_user i db'"
        using no mem old_owner by (auto simp: owner_user_def us set_update_rows)
      moreover obtain m where "m \<in> set (tb_members db)" "active_owner g db m" using assms(3) by blast
      ultimately have "m \<in> set (tb_members db)" "active_owner g db' m"
        using others by (cases "mb_user m = i"; simp add: active_owner_def)+
      then show ?thesis unfolding us by blast
    qed
  qed
qed

lemma delete_user_owner:
  assumes "identity_ok db" "delete_user i db = Inr db'" "\<exists>o' \<in> set (tb_members db). active_owner g db o'"
  shows "\<exists>o' \<in> set (tb_members db'). active_owner g db' o'"
proof -
  obtain u where u: "find_user i db = Some u" "us_role u \<in> {Agency, Admin} \<and> us_status u = UserActive \<longrightarrow> owner_exit_guard i db = None"
    and db': "db' = forget_user i db"
    using assms(2) by (auto simp: delete_user_def first_error_None split: option.splits if_splits)
  have "\<exists>m \<in> set (tb_members db). active_owner g db m \<and> mb_user m \<noteq> i"
  proof (cases "us_role u \<in> {Agency, Admin} \<and> us_status u = UserActive")
    case True
    with u(2) owner_exit [OF _ assms(3)] show ?thesis by blast
  next
    case False
    have "\<not> owner_user i db"
      unfolding owner_user_def using False find_userD [OF u(1)] key_unique [OF identity_okD(1) [OF assms(1)]] by metis
    with assms(3) show ?thesis by (auto simp: active_owner_def)
  qed
  then obtain m where m: "m \<in> set (tb_members db)" "active_owner g db m" "mb_user m \<noteq> i" by blast
  then have "owner_user (mb_user m) db' = owner_user (mb_user m) db" by (auto simp: db' forget_user_def owner_user_def)
  with m show ?thesis by (auto simp: db' forget_user_def active_owner_def intro!: bexI [of _ m])
qed



section \<open>Grants follow roles and bindings\<close>

text \<open>C13: In every reachable database an administrator holds no grant, every grant has the type of its user's role, and an active
  solo client reaches at most one client.\<close>
theorem grants_match_roles:
  assumes "reachable identity_init (identity_step digest) (db, used)" "find_user i db = Some u"
  shows "(us_role u = Admin \<longrightarrow> list_client_access (Some i) db = [])
    \<and> (us_role u = SoloClient \<and> us_status u = UserActive \<longrightarrow> length (list_client_access (Some i) db) \<le> 1)
    \<and> (\<forall>r \<in> set (list_client_access (Some i) db). gr_role r = grant_type (us_role u))"
proof -
  have ok: "identity_ok db" using identity.reachable_inv [OF assms(1)] by simp
  have u: "u \<in> set (tb_users db)" "us_id u = i" using find_userD [OF assms(2)] by simp_all
  have list: "list_client_access (Some i) db = sort_desc gr_updated (grants_of i (tb_grants db))"
    by (simp add: list_client_access_def grants_of_def)
  have grant: "us_role u \<noteq> Admin \<and> gr_role r = grant_type (us_role u)" if r: "r \<in> set (grants_of i (tb_grants db))" for r
  proof -
    obtain x where x: "x \<in> set (tb_users db)" "us_id x = i" "us_role x \<noteq> Admin" "gr_role r = grant_type (us_role x)"
      using identity_okD(2) [OF ok] r by (auto simp: grants_ok_def grant_ok_def grants_of_def)
    then have "x = u" using u key_unique [OF identity_okD(1) [OF ok]] by simp
    with x show ?thesis by simp
  qed
  have "solo_ok (tb_grants db) u" using identity_okD(2) [OF ok] u(1) by (simp add: grants_ok_def)
  then have "us_role u = SoloClient \<and> us_status u = UserActive \<longrightarrow> length (list_client_access (Some i) db) \<le> 1"
    by (simp add: solo_ok_def u(2) list sort_desc_def)
  moreover have "us_role u = Admin \<longrightarrow> list_client_access (Some i) db = []"
    using grant by (cases "grants_of i (tb_grants db)") (auto simp: list sort_desc_def)
  ultimately show ?thesis using grant by (simp add: list)
qed

lemma grants_match_roles_witness:
  "list_client_access (Some 3) sample_bound = [] \<and> find_user 3 sample_bound \<noteq> None"
proof -
  obtain u where u: "find_user 3 sample_bound = Some u" "us_role u = Admin" by (rule that [of "the (find_user 3 sample_bound)"]) code_simp+
  from grants_match_roles [OF reachable_bound u(1)] u show ?thesis by simp
qed

lemma grants_of_upsert_other: "j \<noteq> i \<Longrightarrow> grants_of j (upsert_grant now i role c gs) = grants_of j gs"
proof -
  assume "j \<noteq> i"
  then have "grants_of j (update_rows (\<lambda>r. gr_user r = i \<and> gr_client r = c) f gs) = grants_of j gs" if "\<And>r. gr_user (f r) = gr_user r" for f
    using that by (induction gs) (auto simp: grants_of_def)
  with \<open>j \<noteq> i\<close> show ?thesis by (simp add: upsert_grant_def) (simp add: grants_of_def)
qed

lemma clients_upsert: "gr_client ` set (grants_of i (upsert_grant now i role c gs)) = insert c (gr_client ` set (grants_of i gs))"
proof (cases "\<exists>r \<in> set gs. gr_user r = i \<and> gr_client r = c")
  case True
  then have up: "upsert_grant now i role c gs = update_rows (\<lambda>r. gr_user r = i \<and> gr_client r = c) (\<lambda>r. r\<lparr>gr_role := role, gr_updated := now\<rparr>) gs"
    by (simp add: upsert_grant_def)
  have "map gr_client (grants_of i (update_rows p (\<lambda>r. r\<lparr>gr_role := role, gr_updated := now\<rparr>) gs)) = map gr_client (grants_of i gs)" for p
    by (induction gs) (auto simp: grants_of_def)
  then have "gr_client ` set (grants_of i (upsert_grant now i role c gs)) = gr_client ` set (grants_of i gs)" unfolding up by (metis list.set_map)
  moreover have "c \<in> gr_client ` set (grants_of i gs)" using True by (auto simp: grants_of_def)
  ultimately show ?thesis by blast
next
  case False
  then show ?thesis unfolding upsert_grant_def if_not_P [OF False] by (auto simp: grants_of_def)
qed

lemma clients_fold: "gr_client ` set (grants_of i (fold (upsert_grant now i role) cs gs)) = set cs \<union> gr_client ` set (grants_of i gs)"
  by (induction cs arbitrary: gs) (auto simp: clients_upsert)

lemma grants_of_fold_other: "j \<noteq> i \<Longrightarrow> grants_of j (fold (upsert_grant now i role) cs gs) = grants_of j gs"
  by (induction cs arbitrary: gs) (simp_all add: grants_of_upsert_other)

lemma others_deleted:
  assumes "\<And>r. p r \<Longrightarrow> gr_user r = i" "j \<noteq> i"
  shows "grants_of j (tb_grants (delete_grants p db)) = grants_of j (tb_grants db)"
  using assms unfolding delete_grants_def grants_of_def by (auto simp: filter_filter intro!: filter_cong)

lemma own_deleted: "grants_of i (tb_grants (delete_grants (\<lambda>r. gr_user r = i) db)) = []"
  by (simp add: delete_grants_def grants_of_def filter_empty_conv)

lemma agency_scope_cong:
  assumes "tb_users a = tb_users b" "tb_members a = tb_members b" "tb_bindings a = tb_bindings b" "tb_agencies a = tb_agencies b"
  shows "agency_scope i a = agency_scope i b"
  unfolding agency_scope_def agency_is_active_def by (simp only: assms)

lemma scope_delete [simp]: "agency_scope i (delete_grants p db) = agency_scope i db"
  by (rule agency_scope_cong) (simp_all add: delete_grants_def)

lemma rebuild_other:
  assumes "j \<noteq> i"
  shows "grants_of j (tb_grants (rebuild_user_access now i db)) = grants_of j (tb_grants db)"
proof -
  have d: "grants_of j (tb_grants (delete_grants (\<lambda>r. gr_user r = i) db)) = grants_of j (tb_grants db)"
    "grants_of j (tb_grants (delete_grants (\<lambda>r. gr_user r = i \<and> gr_role r = AgencyGrant) db)) = grants_of j (tb_grants db)"
    using assms by (intro others_deleted [where i = i]; simp)+
  show ?thesis
    using assms by (auto simp: rebuild_user_access_def Let_def grant_agency_scope_def grants_of_fold_other d
        split: option.split actor_role.split)
qed

lemma rebuild_self:
  assumes "identity_ok db" "find_user i db = Some u" "us_role u = Agency"
  shows "gr_client ` set (grants_of i (tb_grants (rebuild_user_access now i db))) = set (agency_scope i db)"
proof (cases "us_status u = UserActive")
  case True
  with assms show ?thesis by (simp add: rebuild_user_access_def Let_def grant_agency_scope_def clients_fold own_deleted)
next
  case False
  have "agency_scope i db = []"
    using agency_scope_nonempty [of i db] find_userD [OF assms(2)] False key_unique [OF identity_okD(1) [OF assms(1)]] by metis
  with False assms show ?thesis by (simp add: rebuild_user_access_def Let_def own_deleted)
qed

lemma rebuild_members_self:
  assumes "identity_ok db" "find_user i db = Some u" "us_role u = Agency" "i \<in> set js"
  shows "gr_client ` set (grants_of i (tb_grants (rebuild_members now js db))) = set (agency_scope i db)"
  using assms(4)
proof (induction js rule: rev_induct)
  case (snoc j js)
  let ?d = "rebuild_members now js db"
  have ok: "identity_ok ?d" using identity_rebuild_members [OF assms(1)] .
  have u: "find_user i ?d = Some u" using assms(2) by (simp add: find_user_def)
  have scope: "agency_scope i ?d = agency_scope i db" by (rule agency_scope_cong) simp_all
  have last: "rebuild_members now (js @ [j]) db = rebuild_user_access now j ?d" by (simp add: rebuild_members_def)
  show ?case
  proof (cases "j = i")
    case True
    show ?thesis unfolding True unfolding last [unfolded True] unfolding scope [symmetric] by (rule rebuild_self [OF ok u assms(3)])
  next
    case False
    with snoc show ?thesis by (simp add: last rebuild_other)
  qed
qed simp

lemma rebuilt_all:
  assumes "identity_ok d" "find_user i d = Some u" "us_role u = Agency" "i \<in> set js"
  shows "gr_client ` set (list_client_access (Some i) (rebuild_members now js d)) = set (agency_scope i (rebuild_members now js d))"
proof -
  have "agency_scope i (rebuild_members now js d) = agency_scope i d" by (rule agency_scope_cong) simp_all
  with rebuild_members_self [OF assms] show ?thesis by (simp add: list_client_access_def grants_of_def)
qed

lemma rebuilt_one:
  assumes "identity_ok d" "find_user i d = Some u" "us_role u = Agency"
  shows "gr_client ` set (list_client_access (Some i) (rebuild_user_access now i d)) = set (agency_scope i (rebuild_user_access now i d))"
  using rebuilt_all [OF assms, of "[i]"] by (simp add: rebuild_members_def)



section \<open>External identities\<close>

text \<open>C20: An unlinked external identity never signs in as an existing user by its email, unless merging is allowed: the user it gets is new
  and holds no grant.\<close>
theorem no_email_takeover:
  assumes "reachable identity_init (identity_step digest) (db, used)" "resolve_external digest p ge clock db = (Inr (u, d, s), db')"
    and "find_identity (er_provider p) (er_subject p) db = None" "\<not> er_allow_merge p"
  shows "find_user (us_id u) db = None \<and> us_role u = er_default_role p \<and> list_client_access (Some (us_id u)) db' = []"
proof -
  have ok: "identity_ok db" using identity.reachable_inv [OF assms(1)] by simp
  obtain db1 db2 where ex: "external_user p (ge_user ge) (clock 0) db = Inr (u, db1)"
    and li: "link_identity \<lparr>il_user = us_id u, il_provider = er_provider p, il_subject = er_subject p, il_email = er_email p,
                    il_verified = er_verified p, il_profile = er_profile p\<rparr> (ge_identity ge) (clock 1) db1 = Inr (d, db2)"
    and fin: "tb_grants db' = tb_grants db2"
    using assms(2) by (auto simp: resolve_external_def issue_session_def put_session_def Let_def split: sum.splits if_splits)
  have c: "us_id u \<notin> us_id ` set (tb_users db)" "us_role u = er_default_role p" "tb_grants db1 = tb_grants db"
    using ex assms(3,4) by (auto simp: external_user_def create_user_def Let_def split: option.splits if_splits)
  have "tb_grants db2 = tb_grants db1" using li by (auto simp: link_identity_def Let_def split: option.splits if_splits)
  with fin c(3) grants_user [OF identity_okD(2) [OF ok] c(1)] have "list_client_access (Some (us_id u)) db' = []"
    by (simp add: list_client_access_def grants_of_def sort_desc_def)
  with c show ?thesis by (simp add: find_user_None)
qed

definition sample_external :: external_request where
  "sample_external = \<lparr>er_provider = ''google'', er_subject = ''s'', er_email = Some ''new@x'', er_verified = None, er_name = None, er_profile = None,
     er_default_role = Client, er_issue_session = True, er_ttl = 60, er_allow_merge = False\<rparr>"

definition sample_generated :: generated where
  "sample_generated = \<lparr>ge_user = 9, ge_identity = 1, ge_session = 1, ge_token = ''tok''\<rparr>"

lemma no_email_takeover_witness:
  "\<exists>u d s db'. resolve_external (\<lambda>t. t) sample_external sample_generated (\<lambda>_. 4) sample_bound = (Inr (u, d, s), db')
     \<and> find_user (us_id u) sample_bound = None \<and> us_role u = Client \<and> list_client_access (Some (us_id u)) db' = []"
proof -
  let ?x = "resolve_external (\<lambda>t. t) sample_external sample_generated (\<lambda>_. 4) sample_bound"
  obtain u d s db' where x: "?x = (Inr (u, d, s), db')"
    by (rule that [of "fst (projr (fst ?x))" "fst (snd (projr (fst ?x)))" "snd (snd (projr (fst ?x)))" "snd ?x"]) code_simp
  have "find_identity (er_provider sample_external) (er_subject sample_external) sample_bound = None" by code_simp
  from no_email_takeover [OF reachable_bound x this] x show ?thesis by (simp add: sample_external_def) 
qed

section \<open>Where the owner guard is missing\<close>

text \<open>\<open>delete_agency\<close> makes a client of every member without another active agency, also of the only owner of a suspended
  one: when that agency is activated again nobody owns it.\<close>

definition suspended_second :: identity_db where
  "suspended_second = (let db1 = after (create_agency (sample_agency ''Second'') 2 [] 3 sample_bound);
      db2 = after (upsert_member 2 (sample_owner 1) None True 3 4 db1);
      off = \<lparr>gp_name = None, gp_slug = None, gp_status = Some AgencySuspended, gp_plan = None, gp_notes = None, gp_client_invites = None\<rparr>
    in after (patch_agency 2 off [] 5 db2))"

lemma delete_agency_orphans_another:
  "active_owner_count 2 suspended_second = 1 \<and> active_owner_count 2 (projr (delete_agency 1 6 suspended_second)) = 0
     \<and> find_agency 2 (projr (delete_agency 1 6 suspended_second)) \<noteq> None" by code_simp

text \<open>\<open>accept_invite\<close> writes the role of the invite into the member row of a signed-in member, without the guard that
  \<open>upsert_member\<close> runs: the only owner who accepts an invite as a member leaves the agency without an owner.\<close>

definition sole_owner :: identity_db where
  "sole_owner = (let db1 = projr (remove_member 1 2 None True 3 sample_bound) in
     after (issue_invite (\<lambda>t. t) 1 \<lparr>ic_email = ''a@x'', ic_role = Member, ic_days = 7\<rparr> (Some 3) ''u'' 1 ''inv'' 4 db1))"

definition own_invite :: "(auth_error + accept_reply) \<times> identity_db" where
  "own_invite = accept_invite (\<lambda>t. t) (\<lambda>p. p) \<lparr>ar_token = ''inv'', ar_name = None, ar_password = None\<rparr> 60 (Some 1)
     \<lparr>gn_user = 9, gn_member = 9, gn_session = 1, gn_token = ''tok'', gn_password = []\<rparr> (\<lambda>_. 5) sole_owner"

lemma accepted_invite_demotes_owner:
  "active_owner_count 1 sole_owner = 1 \<and> \<not> isl (fst own_invite) \<and> active_owner_count 1 (snd own_invite) = 0" by code_simp

end
