(* ===== verification/Client_Invite_Theorems.thy ===== *)
theory Client_Invite_Theorems
  imports Client_Invites Accounts_Laws Identity_Agency_Theorems
begin

text \<open>
  Accepting an invite of a client: either everything happens, once, or nothing of it stays.
\<close>

section \<open>The parts of an acceptance\<close>

definition grant_pair :: "grant_row \<Rightarrow> uuid \<times> uuid" where
  "grant_pair r = (gr_user r, gr_client r)"

definition grant_pairs :: "identity_db \<Rightarrow> (uuid \<times> uuid) set" where
  "grant_pairs db = set (map grant_pair (tb_grants db))"

lemma grant_pairs_upsert: "grant_pairs (db\<lparr>tb_grants := upsert_grant now i role c (tb_grants db)\<rparr>) = insert (i, c) (grant_pairs db)"
proof (cases "\<exists>r \<in> set (tb_grants db). gr_user r = i \<and> gr_client r = c")
  case True
  then have "(i, c) \<in> grant_pairs db" by (auto simp: grant_pairs_def grant_pair_def)
  moreover have "map grant_pair (upsert_grant now i role c (tb_grants db)) = map grant_pair (tb_grants db)"
    using True by (simp add: upsert_grant_def map_update_rows_inv grant_pair_def)
  ultimately show ?thesis by (simp add: grant_pairs_def insert_absorb)
next
  case False
  then show ?thesis by (simp only: grant_pairs_def upsert_grant_def if_not_P) (simp add: grant_pair_def)
qed

lemma grant_pairs_remove: "grant_pairs (remove_client_access i c db) = grant_pairs db - {(i, c)}"
  by (auto simp: grant_pairs_def grant_pair_def remove_client_access_def delete_grants_def)

lemma had_access: "(\<exists>g \<in> set (list_client_access (Some i) db). gr_client g = c) \<longleftrightarrow> (i, c) \<in> grant_pairs db"
  by (auto simp: list_client_access_def grant_pairs_def grant_pair_def)

text \<open>The user an invite is for: an existing one, or one just created, with a password.\<close>

definition joined :: "uuid option \<Rightarrow> bool \<Rightarrow> user_row \<Rightarrow> identity_db \<Rightarrow> identity_db \<Rightarrow> bool" where
  "joined accepting created u db db1 \<longleftrightarrow> us_role u = Client \<and> us_status u = UserActive \<and> db1 = db\<lparr>tb_users := tb_users db1\<rparr>
     \<and> filter (\<lambda>x. us_id x \<noteq> us_id u) (tb_users db1) = filter (\<lambda>x. us_id x \<noteq> us_id u) (tb_users db)
     \<and> (\<exists>v. find_user (us_id u) db1 = Some v \<and> us_role v = Client)
     \<and> (if created then accepting = None \<and> us_id u \<notin> us_id ` set (tb_users db)
        else accepting = Some (us_id u) \<and> u \<in> set (tb_users db) \<and> db1 = db)"

lemma invited_client_userD:
  assumes "invited_client_user pwhash p ge accepting clock email db = Inr (created, u, db1)" "identity_ok db"
  shows "joined accepting created u db db1 \<and> (created \<longrightarrow> us_id u = gn_user ge)
    \<and> (\<exists>e. us_email u = Some e \<and> str_lower e = str_lower email)"
proof (cases "find_user_by_email email db")
  case (Some v)
  then have "v \<in> set (tb_users db)" "\<exists>e. us_email v = Some e \<and> str_lower e = str_lower email"
    by (auto simp: find_user_by_email_def dest!: find_SomeD split: option.splits)
  moreover from this(1) have "find_user (us_id v) db = Some v" by (simp add: find_user_iff [OF identity_okD(1) [OF assms(2)]])
  ultimately show ?thesis using assms Some
    by (auto simp: invited_client_user_def joined_def first_error_None split: option.splits)
next
  case None
  let ?i = "gn_user ge"
  obtain db0 where c: "accepting = None" "created"
      "create_user \<lparr>uc_email = Some email, uc_name = invited_client_name p email, uc_role = Client, uc_status = UserActive\<rparr> ?i (clock 1) db = Inr (u, db0)"
      "set_password pwhash (us_id u) (invited_password p ge) (clock 2) db0 = Inr db1"
    using assms(1) None by (auto simp: invited_client_user_def split: if_splits sum.splits)
  then have u: "us_id u = ?i" "us_role u = Client" "us_status u = UserActive" "us_email u = Some email" "?i \<notin> us_id ` set (tb_users db)"
      "db0 = db\<lparr>tb_users := tb_users db @ [u]\<rparr>"
    by (auto simp: create_user_def Let_def split: if_splits)
  let ?f = "\<lambda>x. x\<lparr>us_password := Some (pwhash (invited_password p ge)), us_updated := clock 2\<rparr>"
  let ?p = "\<lambda>x. us_id x = ?i"
  have "update_rows ?p ?f (tb_users db) = tb_users db" using u(5) by (intro update_rows_id) (auto simp: image_iff)
  then have "update_rows ?p ?f (tb_users db @ [u]) = tb_users db @ [?f u]" using u(1) by (simp add: update_rows_def)
  moreover have "db1 = db\<lparr>tb_users := update_rows ?p ?f (tb_users db @ [u])\<rparr>"
    using c(4) u(1,6) by (simp add: set_password_def split: if_splits)
  ultimately have "db1 = db\<lparr>tb_users := tb_users db @ [?f u]\<rparr>" by simp
  moreover have "find_user ?i (db\<lparr>tb_users := tb_users db @ [?f u]\<rparr>) = Some (?f u)"
    using find_user_None [of ?i db] u(1,5) by (simp add: find_user_def find_append)
  ultimately show ?thesis using c u by (auto simp: joined_def)
qed

lemma drop_created_undoes:
  assumes ok: "identity_ok db" and j: "joined accepting created u db db1"
    and fresh: "created \<Longrightarrow> ledger_of_user (us_id u) db = [] \<and> us_id u \<notin> set (tb_principals db)"
    and d: "d = db1\<lparr>tb_grants := gs\<rparr>" "grant_pairs d = grant_pairs db"
    and drop: "drop_created created (us_id u) e d = (e', d')"
  shows "e' = e \<and> tb_users d' = tb_users db \<and> tb_sessions d' = tb_sessions db \<and> grant_pairs d' = grant_pairs db"
proof (cases created)
  case False
  then have "db1 = db" "d' = d" "e' = e" using j drop by (simp_all add: joined_def drop_created_def)
  with d show ?thesis by simp
next
  case True
  let ?i = "us_id u"
  have i: "?i \<notin> us_id ` set (tb_users db)" and same: "db1 = db\<lparr>tb_users := tb_users db1\<rparr>"
    using True j by (simp_all add: joined_def)
  obtain v where v: "find_user ?i d = Some v" "us_role v = Client" using j d(1) by (auto simp: joined_def find_user_def)
  have "tb_commands d = tb_commands db" "tb_principals d = tb_principals db" "tb_sessions d = tb_sessions db"
    unfolding d(1) by (subst same, simp)+
  note eqs = this
  have "delete_user ?i d = Inr (forget_user ?i d)" using v eqs fresh [OF True]
    by (simp add: delete_user_def ledger_of_user_def retention_guard_def)
  with drop True have d': "e' = e" "d' = forget_user ?i d" by (simp_all add: drop_created_def)
  have "us_id x \<noteq> ?i" if "x \<in> set (tb_users db)" for x using i imageI [OF that, of us_id] by auto
  then have "filter (\<lambda>x. us_id x \<noteq> ?i) (tb_users db) = tb_users db" by (simp add: filter_id_conv)
  then have "tb_users d' = tb_users db" using j d(1) unfolding d'(2) joined_def forget_user_def by simp
  moreover have "session_ok (tb_users db) x" if "x \<in> set (tb_sessions db)" for x
    using ok that by (simp add: identity_ok_def tables_ok_def sessions_ok_def)
  then have "se_user x \<noteq> ?i" if "x \<in> set (tb_sessions db)" for x using i that by (metis session_ok_def imageI)
  then have "tb_sessions d' = tb_sessions db" unfolding d'(2) forget_user_def by (simp add: eqs filter_id_conv)
  moreover have "grant_pairs d' = {x \<in> grant_pairs d. fst x \<noteq> ?i}"
    unfolding d'(2) by (auto simp: grant_pairs_def grant_pair_def forget_user_def)
  moreover have "fst x \<noteq> ?i" if "x \<in> grant_pairs db" for x
    using grants_user [OF identity_okD(2) [OF ok] i] that by (auto simp: grant_pairs_def grant_pair_def grants_of_def filter_empty_conv)
  ultimately show ?thesis using d'(1) d(2) by auto
qed

lemma provision_failed:
  assumes "provision_client digest ge ttl clock i c d = (Inl e, d')"
  shows "d' = d \<or> d' = d\<lparr>tb_grants := upsert_grant (clock 3) i ClientGrant c (tb_grants d)\<rparr>"
  using assms by (auto simp: provision_client_def assign_client_access_def split: sum.splits option.splits)

lemma provision_done:
  assumes "provision_client digest ge ttl clock i c d = (Inr s, d')"
  shows "sy_user s = i \<and> tb_users d' = tb_users d \<and> grant_pairs d' = insert (i, c) (grant_pairs d)
    \<and> (\<exists>x. tb_sessions d' = tb_sessions d @ [x] \<and> se_user x = i)"
proof -
  obtain d1 where a: "assign_client_access i c ClientGrant (clock 3) d = Inr d1"
      "issue_session digest \<lparr>sq_user = i, sq_ttl = ttl, sq_metadata = None\<rparr> (gn_session ge) (gn_token ge) (clock 4) d1 = Inr (s, d')"
    using assms by (auto simp: provision_client_def split: sum.splits)
  have d1: "d1 = d\<lparr>tb_grants := upsert_grant (clock 3) i ClientGrant c (tb_grants d)\<rparr>"
    using a(1) by (auto simp: assign_client_access_def split: option.splits)
  have "sy_user s = i \<and> tb_users d' = tb_users d1 \<and> tb_grants d' = tb_grants d1 \<and> (\<exists>x. tb_sessions d' = tb_sessions d1 @ [x] \<and> se_user x = i)"
    using a(2) by (auto simp: issue_session_def put_session_def Let_def split: if_splits)
  moreover from this have "grant_pairs d' = grant_pairs d1" by (simp add: grant_pairs_def)
  ultimately show ?thesis unfolding d1 grant_pairs_upsert by simp
qed

section \<open>All or nothing\<close>

text \<open>No row of the table is accepted that was not.\<close>

definition none_accepted :: "client_invite list \<Rightarrow> client_invite list \<Rightarrow> bool" where
  "none_accepted rows rows' \<longleftrightarrow> (\<forall>r \<in> set rows'. vc_status r = InviteAccepted \<longrightarrow> r \<in> set rows)"

lemma none_accepted_update: "(\<And>r. vc_status (f r) \<noteq> InviteAccepted) \<Longrightarrow> none_accepted rows (update_rows p f rows)"
  by (auto simp: none_accepted_def set_update_rows)

lemma none_accepted_released:
  "none_accepted rows (update_rows (\<lambda>x. vc_id x = v \<and> vc_status x = InviteAccepted \<and> vc_accepted_user x = Some i \<and> vc_accepted_at x = Some now)
     (released_invite now) (update_rows (\<lambda>x. vc_id x = v \<and> vc_status x = InvitePending) (claimed_invite i now) rows))"
  by (auto simp: none_accepted_def update_rows_def released_invite_def claimed_invite_def split: if_splits)

lemma check_client_inviteD:
  "check_client_invite h now acc rows = (Inr r, rows') \<Longrightarrow> find (\<lambda>x. vc_hash x = h) rows = Some r \<and> vc_status r \<notin> {InviteAccepted, InviteRevoked}
     \<and> now < vc_expires r \<and> (\<exists>c. sql_client_get (vc_client r) acc = Some c \<and> cl_status c = RActive)"
  "check_client_invite h now acc rows = (Inl e, rows') \<Longrightarrow> none_accepted rows rows'"
  by (auto simp: check_client_invite_def none_accepted_def set_update_rows split: option.splits if_splits)

lemma joined_grants: "joined accepting created u db db1 \<Longrightarrow> tb_grants db1 = tb_grants db"
  unfolding joined_def by (metis (no_types, lifting) identity_db.select_convs(3) identity_db.surjective identity_db.update_convs(1))

lemma claim_failed:
  assumes ok: "identity_ok db" and j: "joined accepting created u db db1"
    and fresh: "created \<Longrightarrow> ledger_of_user (us_id u) db = [] \<and> us_id u \<notin> set (tb_principals db)"
    and client: "sql_client_get (vc_client r) acc = Some client"
    and claim: "claim_client_invite digest ge ttl clock r created u acc db1 rows = (Inl e, rows', db')"
  shows "tb_users db' = tb_users db \<and> tb_sessions db' = tb_sessions db \<and> grant_pairs db' = grant_pairs db \<and> none_accepted rows rows'"
proof (cases "vc_status r = InvitePending")
  case False
  then have "rows' = rows" "drop_created created (us_id u) InviteNotClaimed db1 = (e, db')"
    using claim by (auto simp: claim_client_invite_def Let_def split: prod.splits)
  with drop_created_undoes [OF ok j fresh, of db1 "tb_grants db1"] joined_grants [OF j] show ?thesis
    by (simp add: none_accepted_def grant_pairs_def)
next
  case True
  let ?i = "us_id u" and ?c = "vc_client r"
  obtain x d1 where prov: "provision_client digest ge ttl clock ?i ?c db1 = (x, d1)" by fastforce
  obtain e1 where x: "x = Inl e1" using claim True prov client by (cases x) (auto simp: claim_client_invite_def Let_def)
  define d2 where "d2 = (if (?i, ?c) \<in> grant_pairs db1 then d1 else remove_client_access ?i ?c d1)"
  have drop: "drop_created created ?i (provision_error e1) d2 = (e, db')" and na: "none_accepted rows rows'"
    using claim True prov none_accepted_released by (auto simp: claim_client_invite_def Let_def x had_access d2_def split: prod.splits)
  have d1: "d1 = db1 \<or> d1 = db1\<lparr>tb_grants := upsert_grant (clock 3) ?i ClientGrant ?c (tb_grants db1)\<rparr>"
    using prov unfolding x by (rule provision_failed)
  then have "grant_pairs d1 = grant_pairs db1 \<or> grant_pairs d1 = insert (?i, ?c) (grant_pairs db1)" using grant_pairs_upsert by metis
  moreover have same: "grant_pairs db1 = grant_pairs db" using joined_grants [OF j] by (simp add: grant_pairs_def)
  ultimately have pairs: "grant_pairs d2 = grant_pairs db" by (auto simp: d2_def grant_pairs_remove)
  have "d2 = db1\<lparr>tb_grants := tb_grants d2\<rparr>" using d1 by (auto simp: d2_def remove_client_access_def delete_grants_def)
  from drop_created_undoes [OF ok j fresh this pairs drop] na show ?thesis by simp
qed

lemma accept_cases:
  assumes "accept_client_invite digest pwhash p ttl accepting ge clock acc db rows = (res, rows', db')"
  obtains (refused) e where "res = Inl e" "db' = db" "none_accepted rows rows'"
  | (claimed) r created u db1 client where "find (\<lambda>x. vc_hash x = digest (str_strip (ar_token p))) rows = Some r" "clock 0 < vc_expires r"
      "sql_client_get (vc_client r) acc = Some client" "cl_status client = RActive"
      "invited_client_user pwhash p ge accepting clock (str_lower (str_strip (vc_email r))) db = Inr (created, u, db1)"
      "claim_client_invite digest ge ttl clock r created u acc db1 rows = (res, rows', db')"
proof -
  obtain x rows1 where c: "check_client_invite (digest (str_strip (ar_token p))) (clock 0) acc rows = (x, rows1)" by fastforce
  show ?thesis
  proof (cases x)
    case (Inl e1)
    with c assms check_client_inviteD(2) refused show ?thesis by (auto simp: accept_client_invite_def)
  next
    case (Inr r)
    note r = this and check = check_client_inviteD(1) [OF c [unfolded Inr]]
    show ?thesis
    proof (cases "invited_client_user pwhash p ge accepting clock (str_lower (str_strip (vc_email r))) db")
      case (Inl e1)
      with c r assms have "res = Inl e1" "db' = db" "rows' = rows" by (simp_all add: accept_client_invite_def)
      with refused show ?thesis by (simp add: none_accepted_def)
    next
      case (Inr y)
      obtain created u db1 where y: "y = (created, u, db1)" by (cases y)
      with c r Inr assms have "claim_client_invite digest ge ttl clock r created u acc db1 rows = (res, rows', db')"
        by (simp add: accept_client_invite_def)
      with check claimed Inr y show ?thesis by blast
    qed
  qed
qed

text \<open>C17: An acceptance that fails leaves the users, the sessions and the reach of every user as they were, and accepts no invite: also when the
  grant or the session fails after the invite was claimed and the user created.\<close>
theorem client_invite_clean:
  assumes "reachable identity_init (identity_step digest) (db, used)"
    and "ledger_of_user (gn_user ge) db = []" "gn_user ge \<notin> set (tb_principals db)"
    and "accept_client_invite digest pwhash p ttl accepting ge clock acc db rows = (Inl e, rows', db')"
  shows "tb_users db' = tb_users db \<and> tb_sessions db' = tb_sessions db \<and> grant_pairs db' = grant_pairs db \<and> none_accepted rows rows'"
  using assms(4)
proof (cases rule: accept_cases)
  case (claimed r created u db1 client)
  have ok: "identity_ok db" using identity.reachable_inv [OF assms(1)] by simp
  note user = invited_client_userD [OF claimed(5) ok]
  show ?thesis by (rule claim_failed [OF ok _ _ claimed(3,6)]) (use user assms(2,3) in auto)
qed simp

section \<open>Once\<close>

text \<open>The operations on the table of invites, in any order.\<close>

inductive invite_step :: "(string \<Rightarrow> string) \<Rightarrow> client_invite list \<Rightarrow> client_invite list \<Rightarrow> bool" for digest where
  i_issue: "issue_client_invite digest c email n who base v token now acc db rows = Inr (a, rows') \<Longrightarrow> invite_step digest rows rows'"
| i_list: "list_client_invites c status now rows = (rs, rows') \<Longrightarrow> invite_step digest rows rows'"
| i_revoke: "revoke_client_invite c v now rows = Inr (a, rows') \<Longrightarrow> invite_step digest rows rows'"
| i_withdraw: "invite_step digest rows (revoke_pending_client_invites c now rows)"
| i_accept: "accept_client_invite digest pwhash p ttl accepting ge clock acc db rows = (res, rows', db') \<Longrightarrow> invite_step digest rows rows'"

definition rows_ok :: "client_invite list \<Rightarrow> bool" where
  "rows_ok rows \<longleftrightarrow> distinct (map vc_id rows) \<and> distinct (map vc_hash rows)"

definition kept :: "client_invite list \<Rightarrow> client_invite list \<Rightarrow> bool" where
  "kept rows rows' \<longleftrightarrow> rows_ok rows' \<and> (\<forall>r \<in> set rows. vc_status r = InviteAccepted \<longrightarrow> r \<in> set rows')"

lemma kept_refl: "rows_ok rows \<Longrightarrow> kept rows rows"
  by (simp add: kept_def)

lemma kept_trans: "kept rows rows' \<Longrightarrow> kept rows' rows'' \<Longrightarrow> kept rows rows''"
  by (auto simp: kept_def)

lemma kept_update:
  assumes "rows_ok rows" "\<And>r. vc_id (f r) = vc_id r \<and> vc_hash (f r) = vc_hash r" "\<And>r. \<lbrakk>r \<in> set rows; vc_status r = InviteAccepted\<rbrakk> \<Longrightarrow> \<not> p r"
  shows "kept rows (update_rows p f rows)"
  using assms by (auto simp: kept_def rows_ok_def map_update_rows_inv set_update_rows)

lemma kept_append: "kept rows rows' \<Longrightarrow> vc_id r \<notin> vc_id ` set rows' \<Longrightarrow> vc_hash r \<notin> vc_hash ` set rows' \<Longrightarrow> kept rows (rows' @ [r])"
  by (auto simp: kept_def rows_ok_def)

lemma kept_check:
  assumes "rows_ok rows" "check_client_invite h now acc rows = (x, rows')"
  shows "kept rows rows'"
proof (cases "rows' = rows")
  case False
  then obtain r where r: "find (\<lambda>x. vc_hash x = h) rows = Some r" "vc_status r \<noteq> InviteAccepted"
      "rows' = update_rows (\<lambda>x. vc_id x = vc_id r) (\<lambda>x. x\<lparr>vc_status := InviteExpired, vc_updated := now\<rparr>) rows"
    using assms(2) by (auto simp: check_client_invite_def split: option.splits if_splits)
  show ?thesis unfolding r(3)
    by (rule kept_update [OF assms(1)]) (use r(1,2) find_SomeD [OF r(1)] key_unique [of vc_id rows _ r] assms(1) in \<open>auto simp: rows_ok_def\<close>)
qed (use assms(1) kept_refl in simp)

lemma kept_claim:
  assumes ok: "rows_ok rows" and r: "r \<in> set rows" "vc_status r = InvitePending"
  shows "kept rows (update_rows (\<lambda>x. vc_id x = vc_id r \<and> vc_status x = InvitePending) (claimed_invite i now) rows)"
    and "kept rows (update_rows (\<lambda>x. vc_id x = vc_id r \<and> vc_status x = InviteAccepted \<and> vc_accepted_user x = Some i \<and> vc_accepted_at x = Some now)
      (released_invite now) (update_rows (\<lambda>x. vc_id x = vc_id r \<and> vc_status x = InvitePending) (claimed_invite i now) rows))"
proof -
  let ?rows1 = "update_rows (\<lambda>x. vc_id x = vc_id r \<and> vc_status x = InvitePending) (claimed_invite i now) rows"
  show k1: "kept rows ?rows1" by (rule kept_update [OF ok]) (simp_all add: claimed_invite_def)
  let ?q = "\<lambda>x. vc_id x = vc_id r \<and> vc_status x = InviteAccepted \<and> vc_accepted_user x = Some i \<and> vc_accepted_at x = Some now"
  have "rows_ok (update_rows ?q (released_invite now) ?rows1)"
    using k1 by (simp add: kept_def rows_ok_def map_update_rows_inv released_invite_def)
  moreover have "x \<in> set (update_rows ?q (released_invite now) ?rows1)" if x: "x \<in> set rows" "vc_status x = InviteAccepted" for x
  proof -
    have "x \<in> set ?rows1" using k1 x by (simp add: kept_def)
    moreover have "\<not> ?q x" using key_unique [of vc_id rows x r] ok r x by (auto simp: rows_ok_def)
    ultimately show ?thesis by (auto simp: set_update_rows)
  qed
  ultimately show "kept rows (update_rows ?q (released_invite now) ?rows1)" by (simp add: kept_def)
qed

lemma claim_rows:
  assumes "claim_client_invite digest ge ttl clock r created u acc db rows = (res, rows', db')" "rows_ok rows" "r \<in> set rows"
  shows "kept rows rows'"
proof (cases "vc_status r = InvitePending")
  case True
  obtain x d1 where "provision_client digest ge ttl clock (us_id u) (vc_client r) db = (x, d1)" by fastforce
  with assms(1) True kept_claim [OF assms(2,3) True] show ?thesis
    by (cases x) (auto simp: claim_client_invite_def Let_def split: option.splits prod.splits)
next
  case False
  with assms kept_refl [OF assms(2)] show ?thesis by (auto simp: claim_client_invite_def Let_def split: prod.splits)
qed

lemma kept_accept:
  assumes ok: "rows_ok rows" and a: "accept_client_invite digest pwhash p ttl accepting ge clock acc db rows = (res, rows', db')"
  shows "kept rows rows'"
proof -
  obtain x rows1 where c: "check_client_invite (digest (str_strip (ar_token p))) (clock 0) acc rows = (x, rows1)" by fastforce
  show ?thesis
  proof (cases x)
    case (Inl e)
    with a c kept_check [OF ok c] show ?thesis by (simp add: accept_client_invite_def)
  next
    case (Inr r)
    have "r \<in> set rows" using check_client_inviteD(1) [OF c [unfolded Inr]] by (auto dest: find_SomeD)
    with a c Inr kept_refl [OF ok] claim_rows [OF _ ok] show ?thesis
      by (fastforce simp: accept_client_invite_def split: sum.splits prod.splits)
  qed
qed

lemma invite_step_kept: "invite_step digest rows rows' \<Longrightarrow> rows_ok rows \<Longrightarrow> kept rows rows'"
proof (induction rule: invite_step.induct)
  case (i_issue c email n who base v token now acc db rows a rows')
  let ?older = "update_rows (\<lambda>r. vc_client r = c \<and> str_lower (vc_email r) = str_lower (str_strip email) \<and> vc_status r = InvitePending) (withdrawn now) rows"
  obtain r where r: "rows' = ?older @ [r]" "vc_id r \<notin> vc_id ` set rows" "vc_hash r \<notin> vc_hash ` set rows"
    using i_issue.hyps by (auto simp: issue_client_invite_def Let_def split: if_splits option.splits)
  have "kept rows ?older" by (rule kept_update [OF i_issue.prems]) (simp_all add: withdrawn_def)
  moreover have "vc_id ` set ?older = vc_id ` set rows" "vc_hash ` set ?older = vc_hash ` set rows"
    by (simp_all flip: set_map add: map_update_rows_inv withdrawn_def)
  ultimately show ?case unfolding r(1) using r(2,3) by (auto intro: kept_append)
next
  case (i_list c status now rows rs rows')
  then have "rows' = expire_invites c now rows" by (simp add: list_client_invites_def Let_def)
  then show ?case unfolding expire_invites_def by (auto intro!: kept_update [OF i_list.prems])
next
  case (i_revoke c v now rows a rows')
  then show ?case
    by (auto simp: revoke_client_invite_def withdrawn_def split: option.splits if_splits intro!: kept_update kept_refl)
next
  case (i_withdraw rows c now)
  then show ?case by (auto simp: revoke_pending_client_invites_def withdrawn_def intro!: kept_update)
qed (rule kept_accept)

lemma invite_steps_kept: "(invite_step digest)\<^sup>*\<^sup>* rows rows' \<Longrightarrow> rows_ok rows \<Longrightarrow> kept rows rows'"
  by (induction rule: rtranclp_induct) (auto intro: kept_refl kept_trans dest!: invite_step_kept simp: kept_def)

lemma used_refused:
  assumes "rows_ok rows" "r \<in> set rows" "vc_status r = InviteAccepted" "vc_hash r = digest (str_strip (ar_token p))"
  shows "fst (accept_client_invite digest pwhash p ttl accepting ge clock acc db rows) = Inl InviteUsed"
proof -
  have "find (\<lambda>x. vc_hash x = digest (str_strip (ar_token p))) rows = Some r"
    using find_key_unique [of vc_hash rows r] assms by (simp add: rows_ok_def)
  with assms(3) show ?thesis by (simp add: accept_client_invite_def check_client_invite_def)
qed

lemma claim_done:
  assumes "claim_client_invite digest ge ttl clock r created u acc db rows = (Inr a, rows', db')"
  shows "vc_status r = InvitePending \<and> va_user a = u \<and> sy_user (va_session a) = us_id u
    \<and> rows' = update_rows (\<lambda>x. vc_id x = vc_id r \<and> vc_status x = InvitePending) (claimed_invite (us_id u) (clock 0)) rows
    \<and> grant_pairs db' = insert (us_id u, vc_client r) (grant_pairs db)"
  using assms
  by (auto simp: claim_client_invite_def Let_def split: if_splits prod.splits sum.splits option.splits dest!: provision_done)

text \<open>C16: An accepted invite was pending, had not run out and was for an active client; its user is the one who is signed in or a new one, has the
  email of the invite and gains the reach of that client and no other.  The token is never accepted again, whatever happens to the invites.\<close>
theorem client_invite_once:
  assumes "reachable identity_init (identity_step digest) (db, used)" "(invite_step digest)\<^sup>*\<^sup>* [] rows"
    and "accept_client_invite digest pwhash p ttl accepting ge clock acc db rows = (Inr a, rows', db')"
    and "(invite_step digest)\<^sup>*\<^sup>* rows' rows2" "digest (str_strip (ar_token p2)) = digest (str_strip (ar_token p))"
  shows "fst (accept_client_invite digest pwhash2 p2 ttl2 accepting2 ge2 clock2 acc2 db2 rows2) = Inl InviteUsed
    \<and> (\<exists>r \<in> set rows. vc_hash r = digest (str_strip (ar_token p)) \<and> vc_status r = InvitePending \<and> clock 0 < vc_expires r
      \<and> (\<exists>c. sql_client_get (vc_client r) acc = Some c \<and> cl_status c = RActive)
      \<and> (\<exists>e. us_email (va_user a) = Some e \<and> str_lower e = str_lower (str_strip (vc_email r)))
      \<and> (if accepting = None then us_id (va_user a) \<notin> us_id ` set (tb_users db)
         else accepting = Some (us_id (va_user a)) \<and> va_user a \<in> set (tb_users db))
      \<and> sy_user (va_session a) = us_id (va_user a)
      \<and> grant_pairs db' = insert (us_id (va_user a), vc_client r) (grant_pairs db))"
  using assms(3)
proof (cases rule: accept_cases)
  case (claimed r created u db1 client)
  have ok: "identity_ok db" using identity.reachable_inv [OF assms(1)] by simp
  note user = invited_client_userD [OF claimed(5) ok] and fin = claim_done [OF claimed(6)] and r = find_SomeD [OF claimed(1)]
  have rows: "rows_ok rows" using invite_steps_kept [OF assms(2)] by (simp add: kept_def rows_ok_def)
  have kept': "kept rows rows'" using r by (intro claim_rows [OF claimed(6) rows]) simp
  let ?r = "claimed_invite (us_id u) (clock 0) r"
  have "?r \<in> set rows'" using fin r by (auto simp: set_update_rows)
  then have "?r \<in> set rows2" "rows_ok rows2"
    using invite_steps_kept [OF assms(4)] kept' by (auto simp: kept_def claimed_invite_def)
  moreover have "vc_hash ?r = digest (str_strip (ar_token p2))" using r assms(5) by (simp add: claimed_invite_def)
  ultimately have "fst (accept_client_invite digest pwhash2 p2 ttl2 accepting2 ge2 clock2 acc2 db2 rows2) = Inl InviteUsed"
    by (intro used_refused [of rows2 ?r]) (simp_all add: claimed_invite_def)
  moreover have "grant_pairs db1 = grant_pairs db" using joined_grants [OF conjunct1 [OF user]] by (simp add: grant_pairs_def)
  moreover have "str_lower (str_lower s) = str_lower s" for s by (simp add: str_lower_def)
  ultimately show ?thesis using user fin r claimed(2-4) by (intro conjI bexI [of _ r]) (auto simp: joined_def split: if_splits)
qed simp

section \<open>Examples\<close>

definition sample_acc :: account_db where
  "sample_acc = account_db.make [\<lparr>cl_id = 7, cl_name = ''Acme'', cl_legal_name = None, cl_status = RActive, cl_currency = ''USD'', cl_timezone = None,
     cl_notes = None, cl_created = 0, cl_updated = 0\<rparr>] []"

definition sample_rows :: "client_invite list" where
  "sample_rows = snd (projr (issue_client_invite (\<lambda>t. t) 7 ''new@x'' 7 (Some 3) ''u'' 1 ''inv'' 4 sample_acc sample_users []))"

definition sample_accept :: "identity_db \<Rightarrow> client_invite list \<Rightarrow> (client_invite_error + client_accept_reply) \<times> client_invite list \<times> identity_db" where
  "sample_accept db rows = accept_client_invite (\<lambda>t. t) (\<lambda>p. p) \<lparr>ar_token = ''inv'', ar_name = None, ar_password = None\<rparr> 60 None
     \<lparr>gn_user = 9, gn_member = 9, gn_session = 1, gn_token = ''t2'', gn_password = []\<rparr> (\<lambda>_. 5) sample_acc db rows"

lemma client_invite_clean_witness:
  "fst (sample_accept sample_session sample_rows) = Inl InviteProvisioning
     \<and> tb_users (snd (snd (sample_accept sample_session sample_rows))) = tb_users sample_session"
proof -
  have f: "fst (sample_accept sample_session sample_rows) = Inl InviteProvisioning" by code_simp
  then have x: "sample_accept sample_session sample_rows = (Inl InviteProvisioning, fst (snd (sample_accept sample_session sample_rows)),
      snd (snd (sample_accept sample_session sample_rows)))" by (metis prod.collapse)
  have g: "ledger_of_user 9 sample_session = []" "9 \<notin> set (tb_principals sample_session)" by code_simp+
  from client_invite_clean [OF reachable_session _ _ x [unfolded sample_accept_def [of sample_session sample_rows]]] g f
  show ?thesis by (simp add: sample_accept_def)
qed

lemma client_invite_once_witness:
  "\<exists>a rows' db'. sample_accept sample_users sample_rows = (Inr a, rows', db') \<and> fst (sample_accept db' rows') = Inl InviteUsed"
proof -
  let ?x = "sample_accept sample_users sample_rows"
  obtain a rows' db' where x: "?x = (Inr a, rows', db')"
    by (rule that [of "projr (fst ?x)" "fst (snd ?x)" "snd (snd ?x)"]) code_simp
  have "issue_client_invite (\<lambda>t. t) 7 ''new@x'' 7 (Some 3) ''u'' 1 ''inv'' 4 sample_acc sample_users [] = Inr (fst (projr
      (issue_client_invite (\<lambda>t. t) 7 ''new@x'' 7 (Some 3) ''u'' 1 ''inv'' 4 sample_acc sample_users [])), sample_rows)" by code_simp
  then have "invite_step (\<lambda>t. t) [] sample_rows" by (rule i_issue)
  then have "(invite_step (\<lambda>t. t))\<^sup>*\<^sup>* [] sample_rows" by blast
  from client_invite_once [where digest = "\<lambda>t. t", OF reachable_users this x [unfolded sample_accept_def] rtranclp.rtrancl_refl refl] x
  show ?thesis by (auto simp: sample_accept_def)
qed

end
