(* ===== verification/Access_Theorems.thy ===== *)
theory Access_Theorems
  imports Access Envidicy_Theorems Client_Invite_Theorems
begin

text \<open>
  What the context of a request rests on: a valid session of an active user, the user's grants, and for a session
  from Envidicy ID the one client of its project.
\<close>

lemma restrict_keeps [simp]:
  "cx_facts (restrict_archived_client_scope acc cx) = cx_facts cx" "cx_valid (restrict_archived_client_scope acc cx) = cx_valid cx"
  "cx_role (restrict_archived_client_scope acc cx) = cx_role cx" "cx_global (restrict_archived_client_scope acc cx) = cx_global cx"
  "cx_source (restrict_archived_client_scope acc cx) = cx_source cx"
  by (simp_all add: restrict_archived_client_scope_def Let_def)

lemma restrict_subset: "set (cx_clients (restrict_archived_client_scope acc cx)) \<subseteq> set (cx_clients cx)"
  by (auto simp: restrict_archived_client_scope_def Let_def)

lemma restrict_live:
  assumes "cx_role cx \<in> {Client, SoloClient}" "\<not> cx_global cx"
  shows "set (cx_clients (restrict_archived_client_scope acc cx)) \<subseteq> set (active_clients acc)"
    and "cx_role cx = SoloClient \<Longrightarrow> card (set (cx_clients (restrict_archived_client_scope acc cx))) \<le> 1"
  using assms by (auto simp: restrict_archived_client_scope_def Let_def)

lemma auth_contextD:
  assumes "auth_context lookup env acc r = Inr ctx"
  shows "\<exists>token f. get_session_token True r = Inr (Some token) \<and> cx_facts (lookup token) = Some f \<and> cx_valid (lookup token)
    \<and> (id_only_enabled env = Inr False \<or> sx_id_method f)
    \<and> ctx = request_context_of (restrict_archived_client_scope acc (lookup token)) f"
  using assms
  by (auto simp: auth_context_def envidicy_request_context_def enforce_session_origin_def from_id_def Let_def raise_if_def
    split: sum.splits option.splits if_splits)

text \<open>What the facade resolves before it projects.\<close>

definition local_context :: "session_facts \<Rightarrow> user_row \<Rightarrow> identity_db \<Rightarrow> session_context" where
  "local_context f u db = \<lparr>cx_valid = True, cx_reason = None, cx_facts = Some f, cx_role = us_role u, cx_global = (us_role u = Admin),
     cx_clients = (if us_role u = Admin then [] else map gr_client (list_client_access (Some (us_id u)) db)), cx_source = False, cx_authority = None\<rparr>"

lemma session_contextD:
  assumes "cx_valid (get_session_context resolver digest token now db1 db2 db3)"
  shows "\<exists>f u. validate_session digest token now db1 = Inr f \<and> find_user (sx_user f) db2 = Some u \<and> us_status u = UserActive
    \<and> get_session_context resolver digest token now db1 db2 db3 = resolver (local_context f u db3)"
  using assms by (auto simp: get_session_context_def refused_context_def local_context_def split: sum.splits option.splits if_splits)

lemma project_facts: "cx_facts (project_session br cx) = cx_facts cx"
  by (auto simp: project_session_def split: option.splits prod.splits)

lemma project_local: "\<not> sx_id_method f \<Longrightarrow> project_session br (local_context f u db) = local_context f u db"
  by (simp add: project_session_def local_context_def)

lemma project_id:
  assumes "sx_id_method f" "cx_valid (project_session br (local_context f u db))"
  shows "cx_role (project_session br (local_context f u db)) = Client \<and> \<not> cx_global (project_session br (local_context f u db))
    \<and> cx_source (project_session br (local_context f u db)) \<and> card (set (cx_clients (project_session br (local_context f u db)))) \<le> 1"
  using assms
  by (auto simp: project_session_def local_context_def live_authority_def Let_def split: option.splits prod.splits if_splits pilot.splits)

lemma local_request:
  assumes "ctx = request_context_of (restrict_archived_client_scope acc (local_context f u db)) f"
  shows "rc_role ctx = us_role u \<and> rc_global ctx = (us_role u = Admin) \<and> \<not> rc_id ctx
    \<and> set (rc_clients ctx) \<subseteq> gr_client ` set (list_client_access (Some (us_id u)) db)
    \<and> (rc_role ctx = Agency \<or> rc_global ctx \<or> set (rc_clients ctx) \<subseteq> set (active_clients acc))
    \<and> (rc_role ctx = SoloClient \<longrightarrow> card (set (rc_clients ctx)) \<le> 1)"
proof -
  let ?cx = "local_context f u db"
  have c: "rc_clients ctx = cx_clients (restrict_archived_client_scope acc ?cx)" "rc_role ctx = us_role u"
    "rc_global ctx = (us_role u = Admin)" "\<not> rc_id ctx"
    by (simp_all add: assms request_context_of_def local_context_def)
  have cx: "cx_role ?cx = us_role u" "cx_global ?cx = (us_role u = Admin)"
    "set (cx_clients ?cx) \<subseteq> gr_client ` set (list_client_access (Some (us_id u)) db)"
    by (simp_all add: local_context_def)
  have "set (rc_clients ctx) \<subseteq> set (cx_clients ?cx)" unfolding c(1) by (rule restrict_subset)
  moreover have "us_role u = Agency \<or> us_role u = Admin \<or> us_role u = Client \<or> us_role u = SoloClient" by (cases "us_role u") simp_all
  ultimately show ?thesis using c cx(3) restrict_live [of ?cx acc] unfolding c cx by auto
qed

text \<open>C15: A request context rests on a valid session of an active user, read from three states of the tables.  Only an administrator is global.
  A user of a client reaches only active clients among the user's grants, a solo client at most one; a session from Envidicy ID is a client's,
  reaches at most one client and cannot come from a local login; and where only that login is allowed, no other session is accepted.\<close>
theorem context_from_session:
  assumes "auth_context (\<lambda>token. get_session_context (project_session br) digest token now db1 db2 db3) env acc r = Inr ctx"
  shows "\<exists>token f u. get_session_token True r = Inr (Some token) \<and> validate_session digest token now db1 = Inr f
    \<and> sx_user f = rc_user ctx \<and> find_user (rc_user ctx) db2 = Some u \<and> us_status u = UserActive
    \<and> rc_id ctx = sx_id_method f \<and> (id_only_enabled env = Inr False \<or> rc_id ctx)
    \<and> (if rc_id ctx then rc_role ctx = Client \<and> \<not> rc_global ctx \<and> card (set (rc_clients ctx)) \<le> 1
       else rc_role ctx = us_role u \<and> rc_global ctx = (us_role u = Admin)
         \<and> set (rc_clients ctx) \<subseteq> gr_client ` set (list_client_access (Some (rc_user ctx)) db3)
         \<and> (rc_role ctx = Agency \<or> rc_global ctx \<or> set (rc_clients ctx) \<subseteq> set (active_clients acc))
         \<and> (rc_role ctx = SoloClient \<longrightarrow> card (set (rc_clients ctx)) \<le> 1))"
proof -
  from auth_contextD [OF assms] obtain token f where t: "get_session_token True r = Inr (Some token)"
      and g: "cx_facts (get_session_context (project_session br) digest token now db1 db2 db3) = Some f"
        "cx_valid (get_session_context (project_session br) digest token now db1 db2 db3)" "id_only_enabled env = Inr False \<or> sx_id_method f"
      and ctx: "ctx = request_context_of (restrict_archived_client_scope acc (get_session_context (project_session br) digest token now db1 db2 db3)) f"
    by blast
  from session_contextD [OF g(2)] obtain f' u where u: "validate_session digest token now db1 = Inr f'" "find_user (sx_user f') db2 = Some u"
      "us_status u = UserActive" and s: "get_session_context (project_session br) digest token now db1 db2 db3 = project_session br (local_context f' u db3)"
    by blast
  have f: "f' = f" using g(1) unfolding s project_facts by (simp add: local_context_def)
  let ?cx = "project_session br (local_context f u db3)"
  have id: "us_id u = sx_user f" using find_userD [OF u(2)] f by simp
  show ?thesis
  proof (cases "sx_id_method f")
    case True
    note p = project_id [OF True g(2) [unfolded s f]]
    have "card (set (rc_clients ctx)) \<le> card (set (cx_clients ?cx))"
      unfolding ctx s f request_context_of_def by (simp add: card_mono restrict_subset)
    with p True t u f g(3) ctx s show ?thesis by (intro exI [of _ token] exI [of _ f] exI [of _ u]) (simp add: request_context_of_def)
  next
    case False
    then have "ctx = request_context_of (restrict_archived_client_scope acc (local_context f u db3)) f"
      using ctx s f project_local by simp
    note c = local_request [OF this] and this
    moreover from this(2) have "rc_user ctx = sx_user f" by (simp add: request_context_of_def)
    ultimately show ?thesis using False t u f g(3) id
      by (intro exI [of _ token] exI [of _ f] exI [of _ u]) auto
  qed
qed

definition agency_session :: identity_db where
  "agency_session = after (issue_session (\<lambda>t. t) \<lparr>sq_user = 1, sq_ttl = 60, sq_metadata = None\<rparr> 1 ''tok'' 3 sample_bound)"

definition bearer_request :: http_request where
  "bearer_request = \<lparr>hr_method = ''GET'', hr_path = ''/clients'', hr_authorization = Some ''Bearer tok'', hr_session_header = None, hr_cookie = None\<rparr>"

lemma context_from_session_witness:
  "\<exists>ctx. auth_context (\<lambda>token. get_session_context (project_session sample_bridge) (\<lambda>t. t) token 4 agency_session agency_session agency_session)
       (\<lambda>_. None) sample_acc bearer_request = Inr ctx
     \<and> rc_user ctx = 1 \<and> \<not> rc_global ctx \<and> rc_clients ctx = [7] \<and> rc_role ctx = Agency
     \<and> gr_client ` set (list_client_access (Some 1) agency_session) \<supseteq> set (rc_clients ctx)"
proof -
  let ?lookup = "\<lambda>token. get_session_context (project_session sample_bridge) (\<lambda>t. t) token 4 agency_session agency_session agency_session"
  let ?x = "auth_context ?lookup (\<lambda>_. None) sample_acc bearer_request"
  obtain ctx where x: "?x = Inr ctx" and c: "rc_user ctx = 1" "\<not> rc_global ctx" "rc_clients ctx = [7]" "rc_role ctx = Agency" "\<not> rc_id ctx"
    by (rule that [of "projr ?x"]) code_simp+
  from context_from_session [OF x] c show ?thesis by (intro exI [of _ ctx] conjI x) auto
qed

end
