(* ===== verification/Security_Gate.thy ===== *)
theory Security_Gate
  imports Access Accounts_Laws Decimals
begin

text \<open>
  The gate before every route: \<open>InMemoryRateLimiter\<close> of \<open>app/services/rate_limit.py\<close> and the checks of
  \<open>auth_security_middleware\<close> of \<open>app/main.py\<close>.  The clock is a rational number of seconds.
\<close>

section \<open>The rate limiter\<close>

record decision =
  dc_allowed :: bool
  dc_retry :: int

type_synonym buckets = "string \<Rightarrow> rat list"

text \<open>\<open>int\<close> cuts towards zero.\<close>

definition whole :: "rat \<Rightarrow> int" where
  "whole x = (if 0 \<le> x then \<lfloor>x\<rfloor> else \<lceil>x\<rceil>)"

definition live_calls :: "rat \<Rightarrow> int \<Rightarrow> rat list \<Rightarrow> rat list" where
  "live_calls now window b = dropWhile (\<lambda>t. t \<le> now - of_int window) b"

definition retry_after :: "rat \<Rightarrow> int \<Rightarrow> rat list \<Rightarrow> int" where
  "retry_after now window b = (case b of [] \<Rightarrow> window | t # _ \<Rightarrow> max 1 (whole (t + of_int window - now)))"

definition allow :: "string \<Rightarrow> int \<Rightarrow> int \<Rightarrow> rat \<Rightarrow> buckets \<Rightarrow> decision \<times> buckets" where
  "allow key max_requests window now bs =
     (let b = live_calls now window (bs key) in
      if max_requests \<le> int (length b) then (\<lparr>dc_allowed = False, dc_retry = retry_after now window b\<rparr>, bs(key := b))
      else (\<lparr>dc_allowed = True, dc_retry = 0\<rparr>, bs(key := b @ [now])))"

section \<open>The middleware\<close>

record gate_settings =
  gs_rate_enabled :: bool
  gs_invite_max :: int
  gs_auth_max :: int
  gs_admin_max :: int
  gs_window :: int
  gs_csrf_enforced :: bool
  gs_test_endpoints :: bool

datatype gate_result = Preflight | RateLimited int | IdRedirect | PolicyInvalid access_error | CsrfFailed | Proceed

definition path_mentions :: "string \<Rightarrow> string \<Rightarrow> bool" where
  "path_mentions s p \<longleftrightarrow> (\<exists>i \<in> set [0..<Suc (length s)]. starts_with (drop i s) p)"

text \<open>The bucket of a path, with its limit.\<close>

definition rate_bucket :: "gate_settings \<Rightarrow> string \<Rightarrow> (string \<times> int) option" where
  "rate_bucket gs path =
     (if starts_with path ''/auth/invites/accept'' then Some (''auth-invite'', gs_invite_max gs)
      else if starts_with path ''/auth/'' then Some (''auth'', gs_auth_max gs)
      else if starts_with path ''/platform/agencies/'' \<and> path_mentions path ''/invites'' then Some (''admin-invite'', gs_admin_max gs)
      else None)"

definition csrf_exempt :: "gate_settings \<Rightarrow> string list" where
  "csrf_exempt gs = [''/auth/invites/accept'', ''/auth/password/login'', ''/auth/logout'', ''/auth/internal/sessions/issue'',
     ''/auth/internal/sessions/validate'', ''/auth/internal/sessions/revoke'']
     @ (if gs_test_endpoints gs then [''/_testing/use-inmemory-stores''] else [])"

record csrf_pair =
  cs_cookie :: "string option"
  cs_header :: "string option"

text \<open>\<open>hr_cookie\<close> is the session cookie; an absent and an empty header are the same to the code.\<close>

definition csrf_ok :: "gate_settings \<Rightarrow> http_request \<Rightarrow> csrf_pair \<Rightarrow> bool" where
  "csrf_ok gs r c \<longleftrightarrow>
     (gs_csrf_enforced gs \<and> hr_method r \<in> {''POST'', ''PATCH'', ''PUT'', ''DELETE''} \<and> hr_path r \<notin> set (csrf_exempt gs) \<longrightarrow>
        given_text (hr_cookie r) \<noteq> None
        \<and> \<not> starts_with (str_lower (case hr_authorization r of None \<Rightarrow> [] | Some a \<Rightarrow> a)) ''bearer ''
        \<and> given_text (hr_session_header r) = None \<longrightarrow>
        given_text (cs_cookie c) \<noteq> None \<and> given_text (cs_cookie c) = given_text (cs_header c))"

definition gate_after_limit :: "gate_settings \<Rightarrow> environment \<Rightarrow> http_request \<Rightarrow> csrf_pair \<Rightarrow> gate_result" where
  "gate_after_limit gs env r c =
     (case redirect_legacy_credentials (hr_method r) (hr_path r) env of
        Inl e \<Rightarrow> PolicyInvalid e
      | Inr True \<Rightarrow> IdRedirect
      | Inr False \<Rightarrow> if csrf_ok gs r c then Proceed else CsrfFailed)"

text \<open>\<open>hr_method\<close> is in upper case already.\<close>

definition security_gate ::
  "gate_settings \<Rightarrow> environment \<Rightarrow> string \<Rightarrow> rat \<Rightarrow> http_request \<Rightarrow> csrf_pair \<Rightarrow> buckets \<Rightarrow> gate_result \<times> buckets" where
  "security_gate gs env ip now r c bs =
     (if hr_method r = ''OPTIONS'' then (Preflight, bs)
      else case (if gs_rate_enabled gs then rate_bucket gs (hr_path r) else None) of
        None \<Rightarrow> (gate_after_limit gs env r c, bs)
      | Some (bucket, limit) \<Rightarrow>
          (case allow (bucket @ '':'' @ ip) limit (gs_window gs) now bs of
             (d, bs') \<Rightarrow> (if dc_allowed d then gate_after_limit gs env r c else RateLimited (dc_retry d), bs')))"

section \<open>The session cookie\<close>

lemma stripped_blank: "str_strip s = [] \<Longrightarrow> \<forall>c \<in> set s. is_space c"
proof -
  assume "str_strip s = []"
  then have "\<forall>c \<in> set (dropWhile is_space s). is_space c" by (simp add: str_strip_def)
  then have "dropWhile is_space s = []" using hd_dropWhile [of is_space s] by (metis list.set_sel(1))
  then show ?thesis by simp
qed

lemma blank_no_bearer: "str_strip s = [] \<Longrightarrow> \<not> starts_with (str_lower s) ''bearer ''"
proof
  assume "str_strip s = []" "starts_with (str_lower s) ''bearer ''"
  then obtain c cs where "s = c # cs" "lower_char c = CHR ''b''" "is_space c"
    using stripped_blank [of s] by (cases s) (auto simp: starts_with_def str_lower_def)
  then show False using is_space_lower [of c] by (simp add: is_space_def)
qed

text \<open>C22: A changing request that a gate with CSRF enforced lets through, outside the exempt paths, names its session in a header or sends
  the CSRF token of its cookie a second time: the session cookie alone never acts.\<close>
theorem cookie_needs_csrf:
  assumes "security_gate gs env ip now r c bs = (Proceed, bs')" "gs_csrf_enforced gs" "hr_path r \<notin> set (csrf_exempt gs)"
    and "hr_method r \<in> {''POST'', ''PATCH'', ''PUT'', ''DELETE''}" "get_session_token True r = Inr (Some token)"
  shows "str_strip (case hr_authorization r of None \<Rightarrow> [] | Some a \<Rightarrow> a) \<noteq> [] \<or> given_text (hr_session_header r) \<noteq> None
    \<or> given_text (cs_cookie c) \<noteq> None \<and> given_text (cs_cookie c) = given_text (cs_header c)"
proof (rule ccontr)
  let ?a = "case hr_authorization r of None \<Rightarrow> [] | Some a \<Rightarrow> a"
  assume no: "\<not> ?thesis"
  then have none: "str_strip ?a = []" "given_text (hr_session_header r) = None" by auto
  have ok: "csrf_ok gs r c" using assms(1)
    by (auto simp: security_gate_def gate_after_limit_def split: if_splits option.splits sum.splits bool.splits prod.splits)
  have "given_text (hr_cookie r) \<noteq> None"
    using assms(5) none unfolding get_session_token_def Let_def none by (auto split: option.splits)
  with ok assms(2-4) none(2) blank_no_bearer [OF none(1)]
  have "given_text (cs_cookie c) \<noteq> None \<and> given_text (cs_cookie c) = given_text (cs_header c)" unfolding csrf_ok_def by blast
  with no show False by blast
qed

definition sample_settings :: gate_settings where
  "sample_settings = \<lparr>gs_rate_enabled = True, gs_invite_max = 5, gs_auth_max = 20, gs_admin_max = 10, gs_window = 60,
     gs_csrf_enforced = True, gs_test_endpoints = False\<rparr>"

definition cookie_request :: http_request where
  "cookie_request = \<lparr>hr_method = ''POST'', hr_path = ''/budgets'', hr_authorization = None, hr_session_header = None, hr_cookie = Some ''tok''\<rparr>"

theorem cookie_needs_csrf_witness:
  "fst (security_gate sample_settings (\<lambda>_. None) ''ip'' 0 cookie_request \<lparr>cs_cookie = Some ''x'', cs_header = Some ''x''\<rparr> (\<lambda>_. [])) = Proceed
   \<and> given_text (cs_cookie \<lparr>cs_cookie = Some ''x'', cs_header = Some ''x''\<rparr>) = given_text (cs_header \<lparr>cs_cookie = Some ''x'', cs_header = Some ''x''\<rparr>)"
proof -
  let ?c = "\<lparr>cs_cookie = Some ''x'', cs_header = Some ''x''\<rparr>"
  let ?g = "security_gate sample_settings (\<lambda>_. None) ''ip'' 0 cookie_request ?c (\<lambda>_. [])"
  have p: "fst ?g = Proceed" by code_simp
  have g: "?g = (Proceed, snd ?g)" using p by (metis prod.collapse)
  have "gs_csrf_enforced sample_settings" "hr_path cookie_request \<notin> set (csrf_exempt sample_settings)"
    "hr_method cookie_request \<in> {''POST'', ''PATCH'', ''PUT'', ''DELETE''}" "get_session_token True cookie_request = Inr (Some ''tok'')"
    by code_simp+
  from cookie_needs_csrf [OF g this] p show ?thesis
    by (simp add: cookie_request_def str_strip_def given_text_def)
qed

section \<open>The sliding window\<close>

text \<open>The calls that were allowed, in their order.\<close>

fun calls_allowed :: "int \<Rightarrow> int \<Rightarrow> (string \<times> rat) list \<Rightarrow> buckets \<Rightarrow> (string \<times> rat) list" where
  "calls_allowed m w [] bs = []"
| "calls_allowed m w ((k, t) # cs) bs =
     (case allow k m w t bs of (d, bs') \<Rightarrow> (if dc_allowed d then [(k, t)] else []) @ calls_allowed m w cs bs')"

definition in_window :: "int \<Rightarrow> rat \<Rightarrow> rat \<Rightarrow> bool" where
  "in_window w t a \<longleftrightarrow> t - of_int w < a \<and> a \<le> t"

definition calls_of :: "string \<Rightarrow> (string \<times> rat) list \<Rightarrow> rat list" where
  "calls_of k cs = map snd (filter (\<lambda>c. fst c = k) cs)"

text \<open>What the bucket of a key knows of the calls \<open>h\<close> allowed up to \<open>seen\<close>.\<close>

definition bucket_ok :: "int \<Rightarrow> int \<Rightarrow> rat \<Rightarrow> rat list \<Rightarrow> rat list \<Rightarrow> bool" where
  "bucket_ok m w seen h b \<longleftrightarrow> sorted h \<and> (\<forall>a \<in> set h. a \<le> seen) \<and> filter (\<lambda>a. seen - of_int w < a) h = filter (\<lambda>a. seen - of_int w < a) b
     \<and> sorted b \<and> (\<forall>t. int (length (filter (in_window w t) h)) \<le> m)"

lemma live_calls_sorted: "sorted b \<Longrightarrow> live_calls now w b = filter (\<lambda>a. now - of_int w < a) b"
  by (induction b) (auto simp: live_calls_def filter_empty_conv not_le intro!: filter_True [symmetric])

lemma filter_later: "filter p h = filter p b \<Longrightarrow> (\<And>a. q a \<Longrightarrow> p a) \<Longrightarrow> filter q h = filter q b"
proof -
  assume "filter p h = filter p b" "\<And>a. q a \<Longrightarrow> p a"
  then have "filter q (filter p h) = filter q (filter p b)" "(\<lambda>a. q a \<and> p a) = q" by auto
  then show ?thesis by (simp add: filter_filter conj_commute)
qed

lemma bucket_step:
  assumes "bucket_ok m w seen h b" "seen \<le> now"
  shows "bucket_ok m w now h (live_calls now w b)"
    and "int (length (live_calls now w b)) < m \<Longrightarrow> bucket_ok m w now (h @ [now]) (live_calls now w b @ [now])"
proof -
  have old: "filter (\<lambda>a. seen - of_int w < a) h = filter (\<lambda>a. seen - of_int w < a) b" "sorted b" "sorted h" "\<forall>a \<in> set h. a \<le> seen"
    "\<forall>t. int (length (filter (in_window w t) h)) \<le> m" using assms(1) by (simp_all add: bucket_ok_def)
  have live: "live_calls now w b = filter (\<lambda>a. now - of_int w < a) h"
    using filter_later [OF old(1)] assms(2) live_calls_sorted [OF old(2)] by simp
  have upto: "\<forall>a \<in> set h. a \<le> now" using old(4) assms(2) by force
  show "bucket_ok m w now h (live_calls now w b)"
    using old upto unfolding live by (simp add: bucket_ok_def filter_filter sorted_wrt_filter)
  assume short: "int (length (live_calls now w b)) < m"
  have window: "int (length (filter (in_window w t) (h @ [now]))) \<le> m" for t
  proof (cases "in_window w t now")
    case True
    have "length (filter (in_window w t) h) \<le> length (filter (\<lambda>a. now - of_int w < a) h)"
    proof -
      have "filter (in_window w t) h = filter (in_window w t) (filter (\<lambda>a. now - of_int w < a) h)"
        unfolding filter_filter by (rule filter_cong [OF refl]) (use True in \<open>auto simp: in_window_def\<close>)
      then show ?thesis by (metis length_filter_le)
    qed
    with short live True show ?thesis by simp
  next
    case False
    with old(5) show ?thesis by simp
  qed
  with upto old(3) show "bucket_ok m w now (h @ [now]) (live_calls now w b @ [now])"
    unfolding live bucket_ok_def by (simp add: filter_filter sorted_append sorted_wrt_filter)
qed

lemma window_run:
  assumes "\<And>k. bucket_ok m w seen (h k) (bs k)" "sorted (map snd cs)" "\<And>c. c \<in> set cs \<Longrightarrow> seen \<le> snd c"
  shows "int (length (filter (in_window w t) (h k @ calls_of k (calls_allowed m w cs bs)))) \<le> m"
  using assms
proof (induction cs arbitrary: bs h seen)
  case Nil
  then show ?case by (simp add: calls_of_def bucket_ok_def)
next
  case (Cons c cs)
  obtain k0 now where c: "c = (k0, now)" by fastforce
  have later: "seen \<le> now" "\<And>c. c \<in> set cs \<Longrightarrow> now \<le> snd c" "sorted (map snd cs)"
    using Cons.prems(3) [of c] Cons.prems(2) c by simp_all
  let ?b = "live_calls now w (bs k0)"
  note step = bucket_step [OF Cons.prems(1) later(1)]
  have keep: "bucket_ok m w now (h k) (bs k)" for k
    using Cons.prems(1) [of k] later(1) filter_later [of "\<lambda>a. seen - of_int w < a" "h k" "bs k" "\<lambda>a. now - of_int w < a"]
    unfolding bucket_ok_def by force
  show ?case
  proof (cases "m \<le> int (length ?b)")
    case True
    then have "calls_allowed m w (c # cs) bs = calls_allowed m w cs (bs(k0 := ?b))" by (simp add: c allow_def Let_def)
    moreover have "bucket_ok m w now (h k) ((bs(k0 := ?b)) k)" for k using step(1) keep by simp
    ultimately show ?thesis using Cons.IH later(2,3) by metis
  next
    case False
    let ?h = "h(k0 := h k0 @ [now])"
    have "calls_allowed m w (c # cs) bs = (k0, now) # calls_allowed m w cs (bs(k0 := ?b @ [now]))" using False by (simp add: c allow_def Let_def)
    moreover have "bucket_ok m w now (?h k) ((bs(k0 := ?b @ [now])) k)" for k using step(2) keep False by simp
    then have "int (length (filter (in_window w t) (?h k @ calls_of k (calls_allowed m w cs (bs(k0 := ?b @ [now])))))) \<le> m"
      by (rule Cons.IH [OF _ later(3,2)])
    ultimately show ?thesis by (cases "k = k0") (simp_all add: calls_of_def)
  qed
qed

text \<open>C23: While the clock does not run backwards, at most the configured number of requests of one caller passes in any window.\<close>
theorem window_bound:
  assumes "sorted (map snd cs)" "0 \<le> m"
  shows "int (length (filter (in_window w t) (calls_of k (calls_allowed m w cs (\<lambda>_. []))))) \<le> m"
proof (cases cs)
  case Nil
  with assms(2) show ?thesis by (simp add: calls_of_def)
next
  case (Cons c cs')
  have "bucket_ok m w (snd c) [] []" using assms(2) by (simp add: bucket_ok_def)
  with assms(1) Cons window_run [of m w "snd c" "\<lambda>_. []" "\<lambda>_. []" cs t k] show ?thesis by auto
qed

theorem window_bound_witness:
  "int (length (filter (in_window 60 30) (calls_of ''k'' (calls_allowed 2 60 [(''k'', 0), (''k'', 10), (''k'', 20)] (\<lambda>_. []))))) \<le> 2"
  by (rule window_bound) simp_all

end
