(* ===== verification/App_State.thy ===== *)
theory App_State
  imports Client_Invites Overview Identity_Invites
begin

text \<open>
  The database the routes of \<open>app/main.py\<close> share, and the guards that read more than one of its tables.
  The models of the stores keep the tables they read next to their own: here one copy exists, and the
  others are views of it.
\<close>

section \<open>The state\<close>

text \<open>The audit row without its id, payload and clock.\<close>

record audit_row =
  lg_event :: string
  lg_type :: string
  lg_resource :: "string option"
  lg_actor :: "uuid option"
  lg_role :: "actor_role option"
  lg_tenant :: "uuid option"

record app_state =
  as_accounts :: account_db
  as_budgets :: budget_db
  as_stats :: stat_db
  as_identity :: identity_db
  as_invites :: "client_invite list"
  as_audit :: "audit_row list"

fun status_row :: "record_status \<Rightarrow> row_status" where
  "status_row RActive = RowActive"
| "status_row RInactive = RowInactive"
| "status_row RArchived = RowArchived"

definition budget_view :: "app_state \<Rightarrow> budget_db" where
  "budget_view st = (as_budgets st)\<lparr>
     clients := map (\<lambda>c. client_row.make (Accounts.cl_id c) (status_row (Accounts.cl_status c)) (Accounts.cl_currency c))
       (ad_clients (as_accounts st)),
     Budget_Sqlite.ad_accounts := map (\<lambda>a. account_row.make (Accounts.ac_id a) (Accounts.ac_client a) (status_row (Accounts.ac_status a))
         (Accounts.ac_currency a)) (Accounts.ad_accounts (as_accounts st))\<rparr>"

definition identity_view :: "app_state \<Rightarrow> identity_db" where
  "identity_view st = (as_identity st)\<lparr>tb_clients := map (\<lambda>c. (Accounts.cl_id c, Accounts.cl_status c = RActive)) (ad_clients (as_accounts st))\<rparr>"

section \<open>Errors\<close>

datatype (plugins only: code size) http_error =
    Refused access_error | RouteForbidden | AgencyNotApplicable | ClientAbsent | AccountAbsent | BudgetAbsent
  | ClientIdInvalid | ClientNotLive uuid | CurrencyRefused string string | ClientCurrencyConflict nat nat
  | RestoreAssignment uuid | MetadataReserved "string list" | AccountHasBudgets nat | AccountCurrencyConflict nat
  | AccountForeign | AccountNotLive | AccountCurrency | RowPlatform uuid | TenantScopeRequired | SoloNoAgency
  | InviteRefused client_invite_error | AuthRefused auth_error | AccountRefused account_error
  | BudgetRefused budget_error | StatsRefused stat_error

text \<open>The answer of a route, with the state it leaves: what is committed before an error stays.\<close>

type_synonym 'r outcome = "(http_error + 'r) \<times> app_state"

definition denied :: "access_error option \<Rightarrow> http_error option" where
  "denied g = map_option Refused g"

section \<open>Shared guards\<close>

definition client_of :: "uuid \<Rightarrow> app_state \<Rightarrow> client option" where
  "client_of c st = sql_client_get c (as_accounts st)"

definition account_of :: "uuid \<Rightarrow> app_state \<Rightarrow> account option" where
  "account_of a st = sql_account_get a (as_accounts st)"

definition normal_code :: "string \<Rightarrow> string" where
  "normal_code s = str_upper (str_strip s)"

definition ensure_client_currency :: "uuid \<Rightarrow> string \<Rightarrow> app_state \<Rightarrow> http_error option" where
  "ensure_client_currency c currency st =
     (case client_of c st of
        None \<Rightarrow> Some ClientIdInvalid
      | Some r \<Rightarrow> first_error
          [raise_if (Accounts.cl_status r \<noteq> RActive) (ClientNotLive c),
           raise_if (normal_code currency \<noteq> normal_code (Accounts.cl_currency r))
             (CurrencyRefused (normal_code (Accounts.cl_currency r)) (normal_code currency))])"

definition ensure_restore_available :: "uuid \<Rightarrow> app_state \<Rightarrow> http_error option" where
  "ensure_restore_available c st =
     (let acc = as_accounts st;
          own = sql_account_list (Some c) (OnlyStatus RActive) acc;
          others = filter (\<lambda>a. Accounts.ac_client a \<noteq> c \<and> Accounts.ac_client a \<in> set (active_clients acc))
            (sql_account_list None (OnlyStatus RActive) acc)
      in map_option (\<lambda>a. RestoreAssignment (Accounts.ac_id a))
           (find (\<lambda>a. \<exists>o' \<in> set others. account_identity o' = account_identity a) own))"

section \<open>Server-managed metadata\<close>

definition managed_key :: "string \<Rightarrow> bool" where
  "managed_key key \<longleftrightarrow>
     (let k = str_lower (str_strip key) in
      k \<in> {''integration_credential_id'', ''last_data_at'', ''latest_data_date'', ''meta_rediscovery_required''}
      \<or> (\<exists>p \<in> set [''__'', ''discovery_'', ''history_backfill_'', ''last_sync_'', ''meta_connection_'', ''sync_'']. starts_with k p))"

definition reject_managed :: "metadata \<Rightarrow> http_error option" where
  "reject_managed m =
     (let reserved = sort (filter managed_key (map fst (case m of None \<Rightarrow> [] | Some al \<Rightarrow> al)))
      in raise_if (reserved \<noteq> []) (MetadataReserved reserved))"

definition managed_metadata :: "metadata \<Rightarrow> (string \<times> json) list" where
  "managed_metadata m = filter (\<lambda>e. managed_key (fst e)) (case m of None \<Rightarrow> [] | Some al \<Rightarrow> al)"

text \<open>\<open>{**a, **b}\<close>.\<close>

definition merge_dicts :: "('k \<times> 'v) list \<Rightarrow> ('k \<times> 'v) list \<Rightarrow> ('k \<times> 'v) list" where
  "merge_dicts a b = fold (\<lambda>e. AList.update (fst e) (snd e)) b a"

end
