(* ===== verification/Tenant_Routes.thy ===== *)
theory Tenant_Routes
  imports App_State
begin

text \<open>
  The routes of \<open>app/main.py\<close> for clients, their invites and their advertising accounts, on the SQL
  stores.  Generated ids and readings of the clock are arguments; requests are valid for their schemas.
\<close>

section \<open>Clients\<close>

text \<open>The agency a new client is assigned to.\<close>

definition creating_agency :: "request_context \<Rightarrow> uuid option \<Rightarrow> app_state \<Rightarrow> http_error + uuid option" where
  "creating_agency ctx agency_id st =
     (if rc_role ctx = Agency
      then (case resolve_agency_context_for_user (rc_user ctx) agency_id True (identity_view st) of
              Inl e \<Rightarrow> Inl (Refused e) | Inr g \<Rightarrow> Inr (Some g))
      else if agency_id \<noteq> None then Inl AgencyNotApplicable
      else Inr None)"

definition create_client ::
  "request_context \<Rightarrow> client_create \<Rightarrow> uuid option \<Rightarrow> uuid \<Rightarrow> uuid \<Rightarrow> timestamp \<Rightarrow> timestamp \<Rightarrow> app_state \<Rightarrow> client outcome" where
  "create_client ctx p agency_id i b now now2 st =
     (case denied (ensure_tenant_write_access ctx) of
        Some e \<Rightarrow> (Inl e, st)
      | None \<Rightarrow>
          (case creating_agency ctx agency_id st of
             Inl e \<Rightarrow> (Inl e, st)
           | Inr agency \<Rightarrow>
               (case sql_client_create p i now (as_accounts st) of
                  Inl e \<Rightarrow> (Inl (AccountRefused e), st)
                | Inr (c, acc) \<Rightarrow>
                    (let st1 = st\<lparr>as_accounts := acc\<rparr> in
                     case agency of
                       None \<Rightarrow> (Inr c, st1)
                     | Some g \<Rightarrow>
                         (case assign_client g (Accounts.cl_id c) b now2 (identity_view st1) of
                            Inl e \<Rightarrow> (Inl (AuthRefused e), st1)
                          | Inr (_, db) \<Rightarrow> (Inr c, st1\<lparr>as_identity := db\<rparr>))))))"

definition list_clients :: "request_context \<Rightarrow> status_arg \<Rightarrow> app_state \<Rightarrow> client list" where
  "list_clients ctx status st =
     (let items = sql_client_list status (as_accounts st)
      in if rc_global ctx then items else filter (\<lambda>c. Accounts.cl_id c \<in> set (rc_clients ctx)) items)"

definition get_client :: "request_context \<Rightarrow> uuid \<Rightarrow> app_state \<Rightarrow> http_error + client" where
  "get_client ctx c st =
     (case denied (ensure_client_access ctx c) of
        Some e \<Rightarrow> Inl e
      | None \<Rightarrow> (case client_of c st of None \<Rightarrow> Inl ClientAbsent | Some r \<Rightarrow> Inr r))"

text \<open>A currency can change only when every account and every budget of the client has the new one.\<close>

definition client_currency_guard :: "uuid \<Rightarrow> client \<Rightarrow> string option \<Rightarrow> app_state \<Rightarrow> http_error option" where
  "client_currency_guard c existing currency st =
     (case given_text currency of
        None \<Rightarrow> None
      | Some target \<Rightarrow>
          if target = Accounts.cl_currency existing then None
          else
            (let accounts = filter (\<lambda>a. Accounts.ac_currency a \<noteq> target) (sql_account_list (Some c) AllStatus (as_accounts st));
                 rows = filter (\<lambda>b. b_currency b \<noteq> target) (sql_list (Some c) None (Some StatusAll) None None (budget_view st))
             in raise_if (accounts \<noteq> [] \<or> rows \<noteq> []) (ClientCurrencyConflict (length accounts) (length rows))))"

definition withdraw_invites :: "uuid \<Rightarrow> timestamp \<Rightarrow> app_state \<Rightarrow> app_state" where
  "withdraw_invites c now st = st\<lparr>as_invites := revoke_pending_client_invites c now (as_invites st)\<rparr>"

definition patch_client :: "request_context \<Rightarrow> uuid \<Rightarrow> client_patch \<Rightarrow> timestamp \<Rightarrow> timestamp \<Rightarrow> app_state \<Rightarrow> client outcome" where
  "patch_client ctx c p now now2 st =
     (case denied (first_error [ensure_tenant_write_access ctx, ensure_client_access ctx c]) of
        Some e \<Rightarrow> (Inl e, st)
      | None \<Rightarrow>
          (case client_of c st of
             None \<Rightarrow> (Inl ClientAbsent, st)
           | Some existing \<Rightarrow>
               (case first_error
                  [client_currency_guard c existing (cp_currency p) st,
                   if cp_status p = Some RActive \<and> Accounts.cl_status existing \<noteq> RActive then ensure_restore_available c st else None] of
                  Some e \<Rightarrow> (Inl e, st)
                | None \<Rightarrow>
                    (case sql_client_patch c p now (as_accounts st) of
                       Inl e \<Rightarrow> (Inl (AccountRefused e), st)
                     | Inr (r, acc) \<Rightarrow>
                         (let st1 = st\<lparr>as_accounts := acc\<rparr>
                          in (Inr r, if Accounts.cl_status r = RArchived then withdraw_invites c now2 st1 else st1))))))"

definition archive_client :: "request_context \<Rightarrow> uuid \<Rightarrow> timestamp \<Rightarrow> timestamp \<Rightarrow> app_state \<Rightarrow> client outcome" where
  "archive_client ctx c now now2 st =
     (case denied (first_error [ensure_tenant_write_access ctx, ensure_client_access ctx c]) of
        Some e \<Rightarrow> (Inl e, st)
      | None \<Rightarrow>
          (case sql_client_archive c now (as_accounts st) of
             Inl e \<Rightarrow> (Inl (AccountRefused e), st)
           | Inr (r, acc) \<Rightarrow> (Inr r, withdraw_invites c now2 (st\<lparr>as_accounts := acc\<rparr>))))"

section \<open>Client invites\<close>

definition invite_guard :: "request_context \<Rightarrow> uuid \<Rightarrow> app_state \<Rightarrow> http_error option" where
  "invite_guard ctx c st = first_error
     [raise_if (rc_role ctx \<notin> {Admin, Agency}) RouteForbidden, denied (ensure_client_access ctx c),
      denied (ensure_client_invites_allowed ctx c (identity_view st))]"

record invite_gen =
  vg_id :: uuid
  vg_token :: string
  vg_base :: string

definition issue_invite_route ::
  "(string \<Rightarrow> string) \<Rightarrow> request_context \<Rightarrow> uuid \<Rightarrow> string \<Rightarrow> int \<Rightarrow> invite_gen \<Rightarrow> timestamp \<Rightarrow> app_state \<Rightarrow> client_invite_reply outcome" where
  "issue_invite_route digest ctx c email ttl_days gen now st =
     (case invite_guard ctx c st of
        Some e \<Rightarrow> (Inl e, st)
      | None \<Rightarrow>
          (case issue_client_invite digest c email ttl_days (Some (rc_user ctx)) (vg_base gen) (vg_id gen) (vg_token gen) now
                  (as_accounts st) (identity_view st) (as_invites st) of
             Inl e \<Rightarrow> (Inl (InviteRefused e), st)
           | Inr (r, rows) \<Rightarrow> (Inr r, st\<lparr>as_invites := rows\<rparr>)))"

definition list_invites_route ::
  "request_context \<Rightarrow> uuid \<Rightarrow> invite_status option \<Rightarrow> timestamp \<Rightarrow> app_state \<Rightarrow> client_invite list outcome" where
  "list_invites_route ctx c status now st =
     (case invite_guard ctx c st of
        Some e \<Rightarrow> (Inl e, st)
      | None \<Rightarrow> (case list_client_invites c status now (as_invites st) of (rs, rows) \<Rightarrow> (Inr rs, st\<lparr>as_invites := rows\<rparr>)))"

text \<open>The old invite stays revoked when the new one cannot be issued.\<close>

definition resend_invite_route ::
  "(string \<Rightarrow> string) \<Rightarrow> request_context \<Rightarrow> uuid \<Rightarrow> uuid \<Rightarrow> int \<Rightarrow> invite_gen \<Rightarrow> (nat \<Rightarrow> timestamp) \<Rightarrow> app_state \<Rightarrow> client_invite_reply outcome" where
  "resend_invite_route digest ctx c v ttl_days gen clock st =
     (case invite_guard ctx c st of
        Some e \<Rightarrow> (Inl e, st)
      | None \<Rightarrow>
          (case list_client_invites c None (clock 0) (as_invites st) of
             (rs, rows) \<Rightarrow>
               (case find (\<lambda>r. vc_id r = v) rs of
                  None \<Rightarrow> (Inl (InviteRefused ClientInviteMissing), st\<lparr>as_invites := rows\<rparr>)
                | Some target \<Rightarrow>
                    (case revoke_client_invite c v (clock 1) rows of
                       Inl e \<Rightarrow> (Inl (InviteRefused e), st\<lparr>as_invites := rows\<rparr>)
                     | Inr (_, rows1) \<Rightarrow>
                         (case issue_client_invite digest c (vc_email target) ttl_days (Some (rc_user ctx)) (vg_base gen) (vg_id gen)
                                 (vg_token gen) (clock 2) (as_accounts st) (identity_view st) rows1 of
                            Inl e \<Rightarrow> (Inl (InviteRefused e), st\<lparr>as_invites := rows1\<rparr>)
                          | Inr (r, rows2) \<Rightarrow> (Inr r, st\<lparr>as_invites := rows2\<rparr>))))))"

definition revoke_invite_route :: "request_context \<Rightarrow> uuid \<Rightarrow> uuid \<Rightarrow> timestamp \<Rightarrow> app_state \<Rightarrow> client_invite outcome" where
  "revoke_invite_route ctx c v now st =
     (case invite_guard ctx c st of
        Some e \<Rightarrow> (Inl e, st)
      | None \<Rightarrow>
          (case revoke_client_invite c v now (as_invites st) of
             Inl e \<Rightarrow> (Inl (InviteRefused e), st)
           | Inr (r, rows) \<Rightarrow> (Inr r, st\<lparr>as_invites := rows\<rparr>)))"

text \<open>\<open>POST /auth/invites/accept\<close>: an agency invite, and a client invite where the agency store answers that the token is unknown or that
  the invite is expired.\<close>

definition accept_invite_route ::
  "(string \<Rightarrow> string) \<Rightarrow> (string \<Rightarrow> string) \<Rightarrow> environment \<Rightarrow> accept_request \<Rightarrow> int \<Rightarrow> request_context option \<Rightarrow> accept_gen
     \<Rightarrow> (nat \<Rightarrow> timestamp) \<Rightarrow> app_state \<Rightarrow> (accept_reply + client_accept_reply) outcome" where
  "accept_invite_route digest pwhash env p ttl ctx ge clock st =
     (case denied (require_legacy_auth_enabled env) of
        Some e \<Rightarrow> (Inl e, st)
      | None \<Rightarrow>
          (case accept_invite digest pwhash p ttl (map_option rc_user ctx) ge clock (identity_view st) of
             (Inr r, db) \<Rightarrow> (Inr (Inl r), st\<lparr>as_identity := db\<rparr>)
           | (Inl e, db) \<Rightarrow>
               if e \<notin> {InviteInvalid, InviteIsExpired} then (Inl (AuthRefused e), st\<lparr>as_identity := db\<rparr>)
               else
                 (case accept_client_invite digest pwhash p ttl (map_option rc_user ctx) ge clock (as_accounts st)
                         (identity_view (st\<lparr>as_identity := db\<rparr>)) (as_invites st) of
                    (Inl e', rows, db') \<Rightarrow> (Inl (InviteRefused e'), st\<lparr>as_identity := db', as_invites := rows\<rparr>)
                  | (Inr r, rows, db') \<Rightarrow> (Inr (Inr r), st\<lparr>as_identity := db', as_invites := rows\<rparr>))))"

section \<open>Advertising accounts\<close>

definition create_account :: "request_context \<Rightarrow> account_create \<Rightarrow> uuid \<Rightarrow> timestamp \<Rightarrow> app_state \<Rightarrow> account outcome" where
  "create_account ctx p i now st =
     (case first_error
        [denied (ensure_tenant_write_access ctx), denied (ensure_client_access ctx (an_client p)),
         reject_managed (an_meta p), ensure_client_currency (an_client p) (an_currency p) st] of
        Some e \<Rightarrow> (Inl e, st)
      | None \<Rightarrow>
          (case sql_account_create p i now (as_accounts st) of
             Inl e \<Rightarrow> (Inl (AccountRefused e), st)
           | Inr (a, acc) \<Rightarrow> (Inr a, st\<lparr>as_accounts := acc\<rparr>)))"

definition list_accounts :: "request_context \<Rightarrow> uuid option \<Rightarrow> status_arg \<Rightarrow> app_state \<Rightarrow> http_error + account list" where
  "list_accounts ctx client_id status st =
     (case (case client_id of None \<Rightarrow> None | Some c \<Rightarrow> denied (ensure_client_access ctx c)) of
        Some e \<Rightarrow> Inl e
      | None \<Rightarrow>
          (let items = sql_account_list client_id status (as_accounts st);
               items = (if client_id = None \<and> status = OnlyStatus RActive
                        then filter (\<lambda>a. Accounts.ac_client a \<in> set (active_clients (as_accounts st))) items else items);
               items = (if \<not> rc_global ctx \<and> client_id = None
                        then filter (\<lambda>a. Accounts.ac_client a \<in> set (rc_clients ctx)) items else items)
           in Inr items))"

definition get_account :: "request_context \<Rightarrow> uuid \<Rightarrow> app_state \<Rightarrow> http_error + account" where
  "get_account ctx a st =
     (case account_of a st of
        None \<Rightarrow> Inl AccountAbsent
      | Some r \<Rightarrow> (case denied (ensure_account_access ctx (Accounts.ac_client r)) of Some e \<Rightarrow> Inl e | None \<Rightarrow> Inr r))"

text \<open>The budgets that refer to the account hold its client and its currency.\<close>

definition account_budget_guard :: "account \<Rightarrow> account_patch \<Rightarrow> app_state \<Rightarrow> http_error option" where
  "account_budget_guard a p st =
     (let target = given_or (ap_client p) (Accounts.ac_client a); currency = given_or (given_text (ap_currency p)) (Accounts.ac_currency a) in
      if ap_client p = None \<and> ap_currency p = None \<and> ap_status p \<noteq> Some RActive then None
      else
        (let rows = sql_list None (Some (Accounts.ac_id a)) (Some StatusAll) None None (budget_view st);
             other = filter (\<lambda>b. b_currency b \<noteq> currency) rows
         in first_error
             [ensure_client_currency target currency st,
              raise_if (ap_client p \<noteq> None \<and> target \<noteq> Accounts.ac_client a \<and> rows \<noteq> []) (AccountHasBudgets (length rows)),
              raise_if (other \<noteq> []) (AccountCurrencyConflict (length other))]))"

definition dropped_meta_key :: "string \<Rightarrow> bool" where
  "dropped_meta_key key \<longleftrightarrow> (let k = str_lower (str_strip key) in
     k = ''integration_credential_id'' \<or> k = ''meta_rediscovery_required'' \<or> starts_with k ''meta_connection_'')"

text \<open>The metadata a patch writes, \<open>None\<close> if it writes none.\<close>

definition patched_metadata :: "account \<Rightarrow> account_patch \<Rightarrow> metadata option" where
  "patched_metadata a p =
     (let written = (case ap_meta p of None \<Rightarrow> None
            | Some m \<Rightarrow> Some (merge_dicts (managed_metadata (Accounts.ac_meta a)) (case m of None \<Rightarrow> [] | Some al \<Rightarrow> al)));
          moved = (ap_client p \<noteq> None \<and> ap_client p \<noteq> Some (Accounts.ac_client a));
          platform = normalize_account_platform (given_or (given_text (ap_platform p)) (Accounts.ac_platform a))
      in if moved \<and> ''meta'' \<in> {normalize_account_platform (Accounts.ac_platform a), platform} then
           (let kept = filter (\<lambda>e. \<not> dropped_meta_key (fst e))
                  (case written of Some al \<Rightarrow> al | None \<Rightarrow> (case Accounts.ac_meta a of None \<Rightarrow> [] | Some al \<Rightarrow> al))
            in Some (Some (if platform = ''meta''
                 then merge_dicts kept [(''meta_rediscovery_required'', JBool True), (''meta_connection_status'', JStr ''error''),
                        (''meta_connection_diagnostic_code'', JStr ''meta_client_changed_rediscovery_required'')]
                 else kept)))
         else map_option Some written)"

definition patch_account :: "request_context \<Rightarrow> uuid \<Rightarrow> account_patch \<Rightarrow> timestamp \<Rightarrow> app_state \<Rightarrow> account outcome" where
  "patch_account ctx i p now st =
     (case denied (ensure_tenant_write_access ctx) of
        Some e \<Rightarrow> (Inl e, st)
      | None \<Rightarrow>
          (case account_of i st of
             None \<Rightarrow> (Inl AccountAbsent, st)
           | Some a \<Rightarrow>
               (case first_error
                  [denied (ensure_account_access ctx (Accounts.ac_client a)),
                   (case ap_meta p of None \<Rightarrow> None | Some m \<Rightarrow> reject_managed m),
                   (case ap_client p of None \<Rightarrow> None | Some c \<Rightarrow> denied (ensure_client_access ctx c)),
                   account_budget_guard a p st] of
                  Some e \<Rightarrow> (Inl e, st)
                | None \<Rightarrow>
                    (case sql_account_patch i (p\<lparr>ap_meta := patched_metadata a p\<rparr>) now (as_accounts st) of
                       Inl e \<Rightarrow> (Inl (AccountRefused e), st)
                     | Inr (r, acc) \<Rightarrow> (Inr r, st\<lparr>as_accounts := acc\<rparr>)))))"

definition archive_account :: "request_context \<Rightarrow> uuid \<Rightarrow> timestamp \<Rightarrow> app_state \<Rightarrow> account outcome" where
  "archive_account ctx i now st =
     (case denied (ensure_tenant_write_access ctx) of
        Some e \<Rightarrow> (Inl e, st)
      | None \<Rightarrow>
          (case account_of i st of
             None \<Rightarrow> (Inl AccountAbsent, st)
           | Some a \<Rightarrow>
               (case denied (ensure_account_access ctx (Accounts.ac_client a)) of
                  Some e \<Rightarrow> (Inl e, st)
                | None \<Rightarrow>
                    (case sql_account_archive i now (as_accounts st) of
                       Inl e \<Rightarrow> (Inl (AccountRefused e), st)
                     | Inr (r, acc) \<Rightarrow> (Inr r, st\<lparr>as_accounts := acc\<rparr>)))))"

end
