(* ===== verification/Money_Routes.thy ===== *)
theory Money_Routes
  imports Tenant_Routes
begin

text \<open>
  The routes of \<open>app/main.py\<close> for budgets, daily statistics and the overviews.
\<close>

section \<open>Budgets\<close>

text \<open>\<open>_audit_event\<close>: the write never fails the request.\<close>

definition audit :: "request_context \<Rightarrow> string \<Rightarrow> string \<Rightarrow> uuid \<Rightarrow> uuid \<Rightarrow> app_state \<Rightarrow> app_state" where
  "audit ctx event resource_type i tenant st = st\<lparr>as_audit := as_audit st @
     [\<lparr>lg_event = event, lg_type = resource_type, lg_resource = Some (str_uuid i), lg_actor = Some (rc_user ctx),
       lg_role = Some (rc_role ctx), lg_tenant = Some tenant\<rparr>]\<rparr>"

text \<open>A solo client and a user from Envidicy ID sign what they write.\<close>

definition signs :: "request_context \<Rightarrow> bool" where
  "signs ctx \<longleftrightarrow> rc_role ctx = SoloClient \<or> rc_id ctx"

definition budget_write_guard :: "request_context \<Rightarrow> app_state \<Rightarrow> http_error option" where
  "budget_write_guard ctx st = denied (ensure_budget_write_access ctx (identity_view st) (as_accounts st))"

definition create_account_guard :: "request_context \<Rightarrow> budget_create \<Rightarrow> app_state \<Rightarrow> http_error option" where
  "create_account_guard ctx p st =
     (case c_account p of
        None \<Rightarrow> None
      | Some i \<Rightarrow>
          (case account_of i st of
             None \<Rightarrow> Some AccountAbsent
           | Some a \<Rightarrow> first_error
               [denied (ensure_account_access ctx (Accounts.ac_client a)),
                raise_if (Accounts.ac_client a \<noteq> c_client p) AccountForeign,
                raise_if (Accounts.ac_status a \<noteq> RActive) AccountNotLive,
                raise_if (Accounts.ac_currency a \<noteq> c_currency p) AccountCurrency]))"

definition create_budget :: "request_context \<Rightarrow> budget_create \<Rightarrow> uuid \<Rightarrow> timestamp \<Rightarrow> app_state \<Rightarrow> budget outcome" where
  "create_budget ctx p i now st =
     (let p = (if signs ctx then p\<lparr>c_created_by := Some (rc_user ctx)\<rparr> else p) in
      case first_error
        [budget_write_guard ctx st, denied (ensure_client_access ctx (c_client p)),
         ensure_client_currency (c_client p) (c_currency p) st, create_account_guard ctx p st] of
        Some e \<Rightarrow> (Inl e, st)
      | None \<Rightarrow>
          (case sql_create i now p (budget_view st) of
             Inl e \<Rightarrow> (Inl (BudgetRefused e), st)
           | Inr (b, db) \<Rightarrow> (Inr b, audit ctx ''budget.created'' ''budget'' (b_id b) (b_client b) (st\<lparr>as_budgets := db\<rparr>))))"

definition account_filter_guard :: "request_context \<Rightarrow> uuid option \<Rightarrow> app_state \<Rightarrow> http_error option" where
  "account_filter_guard ctx account_id st =
     (case account_id of
        None \<Rightarrow> None
      | Some i \<Rightarrow> (case account_of i st of
          None \<Rightarrow> Some AccountAbsent | Some a \<Rightarrow> denied (ensure_account_access ctx (Accounts.ac_client a))))"

definition client_filter_guard :: "request_context \<Rightarrow> uuid option \<Rightarrow> http_error option" where
  "client_filter_guard ctx client_id = (case client_id of None \<Rightarrow> None | Some c \<Rightarrow> denied (ensure_client_access ctx c))"

definition list_budgets ::
  "request_context \<Rightarrow> uuid option \<Rightarrow> uuid option \<Rightarrow> status_filter \<Rightarrow> date option \<Rightarrow> date option \<Rightarrow> app_state \<Rightarrow> http_error + budget list" where
  "list_budgets ctx client_id account_id status date_from date_to st =
     (case first_error [client_filter_guard ctx client_id, account_filter_guard ctx account_id st] of
        Some e \<Rightarrow> Inl e
      | None \<Rightarrow>
          (let rows = sql_list client_id account_id (Some status) date_from date_to (budget_view st);
               open_scope = (client_id = None \<and> account_id = None);
               rows = (if open_scope \<and> status = StatusIs Active
                       then filter (\<lambda>b. b_client b \<in> set (active_clients (as_accounts st))) rows else rows);
               rows = (if \<not> rc_global ctx \<and> open_scope then filter (\<lambda>b. b_client b \<in> set (rc_clients ctx)) rows else rows)
           in Inr rows))"

text \<open>The budget of a route, once its client is in reach.\<close>

definition budget_in_reach :: "request_context \<Rightarrow> uuid \<Rightarrow> app_state \<Rightarrow> http_error + budget" where
  "budget_in_reach ctx i st =
     (case sql_get i (budget_view st) of
        None \<Rightarrow> Inl BudgetAbsent
      | Some b \<Rightarrow> (case denied (ensure_client_access ctx (b_client b)) of Some e \<Rightarrow> Inl e | None \<Rightarrow> Inr b))"

definition get_budget :: "request_context \<Rightarrow> uuid \<Rightarrow> app_state \<Rightarrow> http_error + budget" where
  "get_budget ctx i st = budget_in_reach ctx i st"

definition get_budget_history :: "request_context \<Rightarrow> uuid \<Rightarrow> app_state \<Rightarrow> http_error + budget_history list" where
  "get_budget_history ctx i st =
     (case budget_in_reach ctx i st of Inl e \<Rightarrow> Inl e | Inr b \<Rightarrow> Inr (sql_history i (budget_view st)))"

definition get_budget_transfers :: "request_context \<Rightarrow> uuid \<Rightarrow> string \<Rightarrow> int \<Rightarrow> app_state \<Rightarrow> http_error + budget_transfer list" where
  "get_budget_transfers ctx i direction limit st =
     (case budget_in_reach ctx i st of Inl e \<Rightarrow> Inl e | Inr b \<Rightarrow> Inr (sql_list_transfers i direction limit (budget_view st)))"

definition patch_target_guard :: "request_context \<Rightarrow> budget \<Rightarrow> budget_patch \<Rightarrow> app_state \<Rightarrow> http_error option" where
  "patch_target_guard ctx b p st =
     (let target_account = (case p_account p of Some (Some a) \<Rightarrow> Some a | _ \<Rightarrow> b_account b);
          target_client = given_or (p_client p) (b_client b); target_currency = given_or (p_currency p) (b_currency b);
          target_status = given_or (p_status p) (b_status b); live = (\<not> patch_empty p \<and> target_status = Active)
      in first_error
        [if live then ensure_client_currency target_client target_currency st else None,
         (case target_account of
            None \<Rightarrow> None
          | Some i \<Rightarrow>
              (case account_of i st of
                 None \<Rightarrow> Some AccountAbsent
               | Some a \<Rightarrow> first_error
                   [denied (ensure_account_access ctx (Accounts.ac_client a)),
                    raise_if (Accounts.ac_client a \<noteq> target_client) AccountForeign,
                    raise_if (live \<and> Accounts.ac_status a \<noteq> RActive) AccountNotLive,
                    raise_if (Accounts.ac_currency a \<noteq> target_currency) AccountCurrency]))])"

definition patch_budget :: "request_context \<Rightarrow> uuid \<Rightarrow> budget_patch \<Rightarrow> timestamp \<Rightarrow> app_state \<Rightarrow> budget outcome" where
  "patch_budget ctx i p now st =
     (let p = (if signs ctx then p\<lparr>p_changed_by := Some (rc_user ctx)\<rparr> else p) in
      case budget_write_guard ctx st of
        Some e \<Rightarrow> (Inl e, st)
      | None \<Rightarrow>
          (case budget_in_reach ctx i st of
             Inl e \<Rightarrow> (Inl e, st)
           | Inr b \<Rightarrow>
               (case first_error [client_filter_guard ctx (p_client p), patch_target_guard ctx b p st] of
                  Some e \<Rightarrow> (Inl e, st)
                | None \<Rightarrow>
                    (case sql_patch now i p (budget_view st) of
                       Inl e \<Rightarrow> (Inl (BudgetRefused e), st)
                     | Inr (r, db) \<Rightarrow> (Inr r, audit ctx ''budget.updated'' ''budget'' (b_id r) (b_client r) (st\<lparr>as_budgets := db\<rparr>))))))"

definition delete_budget :: "request_context \<Rightarrow> uuid \<Rightarrow> timestamp \<Rightarrow> app_state \<Rightarrow> budget outcome" where
  "delete_budget ctx i now st =
     (case budget_write_guard ctx st of
        Some e \<Rightarrow> (Inl e, st)
      | None \<Rightarrow>
          (case budget_in_reach ctx i st of
             Inl e \<Rightarrow> (Inl e, st)
           | Inr b \<Rightarrow>
               (case sql_archive now i (budget_view st) of
                  Inl e \<Rightarrow> (Inl (BudgetRefused e), st)
                | Inr (r, db) \<Rightarrow> (Inr r, audit ctx ''budget.archived'' ''budget'' (b_id r) (b_client r) (st\<lparr>as_budgets := db\<rparr>)))))"

definition transfer_guard :: "request_context \<Rightarrow> budget \<Rightarrow> transfer_request \<Rightarrow> app_state \<Rightarrow> http_error option" where
  "transfer_guard ctx src p st = first_error
     [ensure_client_currency (b_client src) (b_currency src) st,
      (case b_account src of
         None \<Rightarrow> None
       | Some i \<Rightarrow>
           (case account_of i st of
              None \<Rightarrow> Some AccountAbsent
            | Some a \<Rightarrow> first_error
                [denied (ensure_account_access ctx (b_client src)), raise_if (Accounts.ac_status a \<noteq> RActive) AccountNotLive])),
      (case account_of (t_target_account p) st of
         None \<Rightarrow> Some AccountAbsent
       | Some a \<Rightarrow> first_error
           [denied (ensure_account_access ctx (Accounts.ac_client a)),
            raise_if (Accounts.ac_client a \<noteq> b_client src) AccountForeign,
            raise_if (Accounts.ac_status a \<noteq> RActive) AccountNotLive,
            raise_if (Accounts.ac_currency a \<noteq> b_currency src) AccountCurrency])]"

definition transfer_budget ::
  "request_context \<Rightarrow> uuid \<Rightarrow> transfer_request \<Rightarrow> uuid \<Rightarrow> timestamp \<Rightarrow> app_state \<Rightarrow> transfer_response outcome" where
  "transfer_budget ctx i p new_id now st =
     (let p = (if signs ctx then p\<lparr>t_changed_by := Some (rc_user ctx)\<rparr> else p) in
      case budget_write_guard ctx st of
        Some e \<Rightarrow> (Inl e, st)
      | None \<Rightarrow>
          (case budget_in_reach ctx i st of
             Inl e \<Rightarrow> (Inl e, st)
           | Inr src \<Rightarrow>
               (case transfer_guard ctx src p st of
                  Some e \<Rightarrow> (Inl e, st)
                | None \<Rightarrow>
                    (case sql_transfer new_id now i p (budget_view st) of
                       Inl e \<Rightarrow> (Inl (BudgetRefused e), st)
                     | Inr (r, db) \<Rightarrow> (Inr r, audit ctx ''budget.transferred'' ''budget_transfer'' (b_id (source_budget r))
                         (b_client (source_budget r)) (st\<lparr>as_budgets := db\<rparr>))))))"

section \<open>Daily statistics\<close>

definition stat_row_guard :: "request_context \<Rightarrow> app_state \<Rightarrow> stat_write \<Rightarrow> http_error option" where
  "stat_row_guard ctx st w =
     (case account_of (sw_account w) st of
        None \<Rightarrow> Some AccountAbsent
      | Some a \<Rightarrow> first_error
          [denied (ensure_account_access ctx (Accounts.ac_client a)),
           raise_if (str_lower (str_strip (Accounts.ac_platform a)) \<noteq> sw_platform w) (RowPlatform (Accounts.ac_id a))])"

definition ingest_ad_stats ::
  "(stat_write list \<Rightarrow> string) \<Rightarrow> request_context \<Rightarrow> stat_write list \<Rightarrow> string option \<Rightarrow> (nat \<Rightarrow> uuid) \<Rightarrow> timestamp \<Rightarrow> app_state
     \<Rightarrow> ingest_response outcome" where
  "ingest_ad_stats digest ctx rows key ids now st =
     (case first_error (denied (ensure_tenant_write_access ctx) # map (stat_row_guard ctx st) rows) of
        Some e \<Rightarrow> (Inl e, st)
      | None \<Rightarrow>
          (case sql_ingest digest (as_accounts st) now ids rows key (as_stats st) of
             Inl e \<Rightarrow> (Inl (StatsRefused e), st)
           | Inr (r, db) \<Rightarrow> (Inr r, st\<lparr>as_stats := db\<rparr>)))"

definition stat_scope_guard :: "request_context \<Rightarrow> uuid option \<Rightarrow> uuid option \<Rightarrow> app_state \<Rightarrow> http_error option" where
  "stat_scope_guard ctx client_id account_id st = first_error
     [client_filter_guard ctx client_id, account_filter_guard ctx account_id st,
      (case (client_id, account_id) of
         (Some c, Some i) \<Rightarrow> (case account_of i st of None \<Rightarrow> None | Some a \<Rightarrow> raise_if (c \<noteq> Accounts.ac_client a) AccountForeign)
       | _ \<Rightarrow> None)]"

definition list_ad_stats :: "request_context \<Rightarrow> stat_filter \<Rightarrow> app_state \<Rightarrow> http_error + stat list" where
  "list_ad_stats ctx f st =
     (case stat_scope_guard ctx (sf_client f) (sf_account f) st of
        Some e \<Rightarrow> Inl e
      | None \<Rightarrow>
          (let items = sql_stat_list (as_accounts st) f (as_stats st);
               allowed = map Accounts.ac_id (filter (\<lambda>a. Accounts.ac_client a \<in> set (rc_clients ctx))
                 (sql_account_list None AllStatus (as_accounts st)))
           in Inr (if \<not> rc_global ctx \<and> sf_client f = None \<and> sf_account f = None
                   then filter (\<lambda>s. st_account s \<in> set allowed) items else items)))"

section \<open>Overviews\<close>

text \<open>The client an overview is about, \<open>None\<close> for all of them.\<close>

definition overview_scope :: "request_context \<Rightarrow> uuid option \<Rightarrow> uuid option \<Rightarrow> app_state \<Rightarrow> http_error + uuid option" where
  "overview_scope ctx client_id account_id st =
     (case stat_scope_guard ctx client_id account_id st of
        Some e \<Rightarrow> Inl e
      | None \<Rightarrow>
          (let of_account = (case (client_id, account_id) of
                 (None, Some i) \<Rightarrow> map_option Accounts.ac_client (account_of i st) | _ \<Rightarrow> client_id);
               client = (if \<not> rc_global ctx \<and> of_account = None then infer_single_tenant_client ctx (as_accounts st) else of_account)
           in if \<not> rc_global ctx \<and> client = None then Inl TenantScopeRequired else Inr client))"

definition insights_overview :: "int option \<Rightarrow> request_context \<Rightarrow> overview_query \<Rightarrow> date \<Rightarrow> app_state \<Rightarrow> http_error + overview" where
  "insights_overview setting ctx q today st =
     (case overview_scope ctx (oq_client q) (oq_account q) st of
        Inl e \<Rightarrow> Inl e
      | Inr client \<Rightarrow>
          Inr (dashboard_overview setting (as_accounts st) (as_stats st) (budget_view st) today (q\<lparr>oq_client := client\<rparr>)))"

definition agency_overview_route :: "int option \<Rightarrow> request_context \<Rightarrow> date \<Rightarrow> date \<Rightarrow> date \<Rightarrow> app_state \<Rightarrow> http_error + aggregate" where
  "agency_overview_route setting ctx date_from date_to today st =
     (if rc_role ctx = SoloClient then Inl SoloNoAgency
      else
        (let allowed = filter (\<lambda>c. rc_global ctx \<or> c \<in> set (rc_clients ctx)) (active_clients (as_accounts st))
         in Inr (agency_overview setting (as_accounts st) (as_stats st) today date_from date_to (Some allowed))))"

end
