(* ===== verification/Routes_Laws.thy ===== *)
theory Routes_Laws
  imports Money_Routes
begin

text \<open>
  What the routes of a request keep: every budget and account agrees with its client, and rows of
  clients out of reach are left alone.
\<close>

section \<open>Keyed writes\<close>

definition put_by :: "('r \<Rightarrow> 'k) \<Rightarrow> 'r \<Rightarrow> 'r list \<Rightarrow> 'r list" where
  "put_by k r rows = (if k r \<in> k ` set rows then update_rows (\<lambda>x. k x = k r) (\<lambda>_. r) rows else rows @ [r])"

text \<open>A sequence of writes whose rows satisfy \<open>P\<close>, and replace only rows that satisfy it.\<close>

inductive puts :: "('r \<Rightarrow> 'k) \<Rightarrow> ('r \<Rightarrow> bool) \<Rightarrow> 'r list \<Rightarrow> 'r list \<Rightarrow> bool" for k P where
  puts_none [simp, intro!]: "puts k P rows rows"
| puts_one: "puts k P rows rows1 \<Longrightarrow> P r \<Longrightarrow> (\<And>x. x \<in> set rows1 \<Longrightarrow> k x = k r \<Longrightarrow> P x) \<Longrightarrow> puts k P rows (put_by k r rows1)"

lemma put_by_new: "k r \<notin> k ` set rows \<Longrightarrow> put_by k r rows = rows @ [r]"
  by (simp add: put_by_def)

lemma put_by_old: "x \<in> set rows \<Longrightarrow> k x = i \<Longrightarrow> k r = i \<Longrightarrow> update_rows (\<lambda>x. k x = i) (\<lambda>_. r) rows = put_by k r rows"
  by (auto simp: put_by_def)

lemma set_put_by: "set (put_by k r rows) = insert r {x \<in> set rows. k x \<noteq> k r}"
  by (auto simp: put_by_def set_update_rows image_iff)

lemma keys_put_by: "map k (put_by k r rows) = (if k r \<in> k ` set rows then map k rows else map k rows @ [k r])"
  by (auto simp: put_by_def intro!: map_update_rows_inv)

lemma key_set_put_by: "k ` set (put_by k r rows) = insert (k r) (k ` set rows)"
  unfolding list.set_map [symmetric] keys_put_by by auto

lemma puts_append:
  assumes "P r" "k r \<notin> k ` set rows"
  shows "puts k P rows (rows @ [r])"
  unfolding put_by_new [OF assms(2), symmetric]
  by (rule puts_one [OF puts_none]) (use assms in \<open>auto simp: image_iff\<close>)

lemma puts_update:
  assumes "distinct (map k rows)" "x \<in> set rows" "k x = i" "k r = i" "P x" "P r"
  shows "puts k P rows (update_rows (\<lambda>x. k x = i) (\<lambda>_. r) rows)"
proof -
  have "P y" if "y \<in> set rows" "k y = k r" for y
    using key_unique [OF assms(1) that(1) assms(2)] that(2) assms(3-5) by simp
  with puts_one [where k = k and P = P and r = r, OF puts_none] assms(2-6) show ?thesis by (simp add: put_by_old)
qed

lemma puts_distinct: "puts k P rows rows' \<Longrightarrow> distinct (map k rows) \<Longrightarrow> distinct (map k rows')"
  by (induction rule: puts.induct) (auto simp: keys_put_by)

lemma puts_mem: "puts k P rows rows' \<Longrightarrow> r \<in> set rows' \<Longrightarrow> r \<in> set rows \<or> P r"
  by (induction rule: puts.induct) (auto simp: set_put_by)

lemma puts_keys: "puts k P rows rows' \<Longrightarrow> k ` set rows \<subseteq> k ` set rows'"
  by (induction rule: puts.induct) (auto simp: key_set_put_by)

lemma puts_others:
  assumes "puts k P rows rows'" "\<And>r. P r \<Longrightarrow> Q r"
  shows "filter (\<lambda>r. \<not> Q r) rows' = filter (\<lambda>r. \<not> Q r) rows"
  using assms(1)
proof (induction rule: puts.induct)
  case (puts_one rows rows1 r)
  have "filter (\<lambda>r. \<not> Q r) (update_rows (\<lambda>x. k x = k r) (\<lambda>_. r) rows1) = filter (\<lambda>r. \<not> Q r) rows1"
    using puts_one.hyps(3) assms(2) puts_one.hyps(2) by (induction rows1) (auto simp: update_rows_def)
  with puts_one assms(2) show ?case by (simp add: put_by_def)
qed simp

lemma puts_keep: "puts k P rows rows' \<Longrightarrow> (\<And>r. P r \<Longrightarrow> Q r) \<Longrightarrow> r \<in> set rows \<Longrightarrow> \<not> Q r \<Longrightarrow> r \<in> set rows'"
proof -
  assume "puts k P rows rows'" "\<And>r. P r \<Longrightarrow> Q r" "r \<in> set rows" "\<not> Q r"
  then have "r \<in> set (filter (\<lambda>r. \<not> Q r) rows)" "filter (\<lambda>r. \<not> Q r) rows' = filter (\<lambda>r. \<not> Q r) rows" using puts_others by force+
  then show ?thesis by (metis filter_is_subset subsetD)
qed

lemma puts_trans: "puts k P b c \<Longrightarrow> puts k P a b \<Longrightarrow> puts k P a c"
  by (induction rule: puts.induct) (auto intro: puts_one)

section \<open>The tables agree\<close>

definition account_fits :: "client list \<Rightarrow> account \<Rightarrow> bool" where
  "account_fits cs a \<longleftrightarrow> (\<exists>c \<in> set cs. Accounts.cl_id c = Accounts.ac_client a
     \<and> normal_code (Accounts.cl_currency c) = normal_code (Accounts.ac_currency a))"

definition paired :: "account \<Rightarrow> budget \<Rightarrow> bool" where
  "paired a b \<longleftrightarrow> b_account b = Some (Accounts.ac_id a) \<and> Accounts.ac_client a = b_client b \<and> Accounts.ac_currency a = b_currency b"

definition budget_fits :: "account_db \<Rightarrow> budget \<Rightarrow> bool" where
  "budget_fits acc b \<longleftrightarrow>
     (b_status b = Active \<longrightarrow> (\<exists>c \<in> set (ad_clients acc). Accounts.cl_id c = b_client b
        \<and> normal_code (Accounts.cl_currency c) = normal_code (b_currency b)))
     \<and> (b_account b \<noteq> None \<longrightarrow> (\<exists>a \<in> set (Accounts.ad_accounts acc). paired a b))"

definition coherent_tables :: "account_db \<Rightarrow> budget list \<Rightarrow> bool" where
  "coherent_tables acc bs \<longleftrightarrow> distinct (map Accounts.cl_id (ad_clients acc)) \<and> distinct (map Accounts.ac_id (Accounts.ad_accounts acc))
     \<and> distinct (map b_id bs) \<and> (\<forall>a \<in> set (Accounts.ad_accounts acc). account_fits (ad_clients acc) a) \<and> (\<forall>b \<in> set bs. budget_fits acc b)"

definition coherent :: "app_state \<Rightarrow> bool" where
  "coherent st \<longleftrightarrow> coherent_tables (as_accounts st) (budgets (as_budgets st)) \<and> distinct (map st_id (sd_stats (as_stats st)))"

lemma coherentD:
  assumes "coherent st"
  shows "distinct (map Accounts.cl_id (ad_clients (as_accounts st)))" "distinct (map Accounts.ac_id (Accounts.ad_accounts (as_accounts st)))"
    "distinct (map b_id (budgets (as_budgets st)))" "a \<in> set (Accounts.ad_accounts (as_accounts st)) \<Longrightarrow> account_fits (ad_clients (as_accounts st)) a"
    "b \<in> set (budgets (as_budgets st)) \<Longrightarrow> budget_fits (as_accounts st) b" "distinct (map st_id (sd_stats (as_stats st)))"
  using assms by (simp_all add: coherent_def coherent_tables_def)

lemma to_account_core [simp]: "Accounts.ac_id (to_account a) = Accounts.ac_id a" "Accounts.ac_client (to_account a) = Accounts.ac_client a"
  "Accounts.ac_currency (to_account a) = Accounts.ac_currency a" "Accounts.ac_status (to_account a) = Accounts.ac_status a"
  by (simp_all add: to_account_def)

lemma client_ofD: "client_of c st = Some r \<Longrightarrow> r \<in> set (ad_clients (as_accounts st)) \<and> Accounts.cl_id r = c"
  by (auto simp: client_of_def sql_client_get_def dest: find_SomeD)

lemma account_ofD: "account_of i st = Some a \<Longrightarrow> \<exists>x \<in> set (Accounts.ad_accounts (as_accounts st)). a = to_account x \<and> Accounts.ac_id x = i"
  by (auto simp: account_of_def sql_account_get_def dest!: find_SomeD)

lemma currencyD: "ensure_client_currency c cur st = None \<Longrightarrow>
    \<exists>r \<in> set (ad_clients (as_accounts st)). Accounts.cl_id r = c \<and> Accounts.cl_status r = RActive \<and> normal_code (Accounts.cl_currency r) = normal_code cur"
  by (auto simp: ensure_client_currency_def first_error_None dest!: client_ofD split: option.splits)

lemma deniedD [simp]: "denied (ensure_client_access ctx c) = None \<longleftrightarrow> reaches ctx c" "denied (ensure_account_access ctx c) = None \<longleftrightarrow> reaches ctx c"
  by (simp_all add: denied_def ensure_client_access_def ensure_account_access_def)

lemma budget_view_rows [simp]: "budgets (budget_view st) = budgets (as_budgets st)" by (simp add: budget_view_def)

section \<open>Writes of budgets\<close>

definition own_budget :: "request_context \<Rightarrow> app_state \<Rightarrow> budget \<Rightarrow> bool" where
  "own_budget ctx st b \<longleftrightarrow> reaches ctx (b_client b) \<and> budget_fits (as_accounts st) b"

abbreviation "budget_puts ctx st st' \<equiv> puts b_id (own_budget ctx st) (budgets (as_budgets st)) (budgets (as_budgets st'))"

lemma budget_in_reachD:
  "budget_in_reach ctx i st = Inr b \<Longrightarrow> sql_get i (budget_view st) = Some b \<and> b \<in> set (budgets (as_budgets st)) \<and> b_id b = i \<and> reaches ctx (b_client b)"
  by (auto simp: budget_in_reach_def sql_get_def dest: find_SomeD split: option.splits)

lemma own_old: "coherent st \<Longrightarrow> b \<in> set (budgets (as_budgets st)) \<Longrightarrow> reaches ctx (b_client b) \<Longrightarrow> own_budget ctx st b"
  by (simp add: own_budget_def coherentD)

lemma audit_tables [simp]: "as_accounts (audit ctx e t i c st) = as_accounts st" "as_budgets (audit ctx e t i c st) = as_budgets st"
  "as_stats (audit ctx e t i c st) = as_stats st" "as_identity (audit ctx e t i c st) = as_identity st" "as_invites (audit ctx e t i c st) = as_invites st"
  by (simp_all add: audit_def)

lemma create_account_guardD:
  assumes "create_account_guard ctx p st = None" "c_account p = Some i"
  shows "\<exists>a \<in> set (Accounts.ad_accounts (as_accounts st)). Accounts.ac_id a = i \<and> Accounts.ac_client a = c_client p \<and> Accounts.ac_currency a = c_currency p"
  using assms by (auto simp: create_account_guard_def first_error_None dest!: account_ofD split: option.splits)

lemma sql_create_row: "sql_create i now p db = Inr (b, db') \<Longrightarrow>
    b = new_budget_row i now p \<and> i \<notin> b_id ` set (budgets db) \<and> budgets db' = budgets db @ [b]"
  by (auto simp: sql_create_def insert_budget_def new_budget_row_def split: option.splits sum.splits if_splits)

lemma create_budget_puts:
  assumes "create_budget ctx p i now st = (r, st')" "coherent st"
  shows "budget_puts ctx st st'"
proof (cases r)
  case (Inl e)
  with assms(1) show ?thesis by (auto simp: create_budget_def Let_def split: option.splits sum.splits prod.splits if_splits)
next
  case (Inr b)
  define q where "q = (if signs ctx then p\<lparr>c_created_by := Some (rc_user ctx)\<rparr> else p)"
  have q: "c_client q = c_client p" "c_currency q = c_currency p" "c_account q = c_account p" by (simp_all add: q_def)
  have g: "reaches ctx (c_client q)" "ensure_client_currency (c_client q) (c_currency q) st = None" "create_account_guard ctx q st = None"
    and w: "sql_create i now q (budget_view st) = Inr (b, as_budgets st')"
    using assms(1) Inr unfolding create_budget_def q_def [symmetric] Let_def
    by (auto simp: first_error_None split: option.splits sum.splits)
  note row = sql_create_row [OF w]
  have "own_budget ctx st b"
    using g(1) currencyD [OF g(2)] create_account_guardD [OF g(3)] row
    by (auto simp: own_budget_def budget_fits_def paired_def new_budget_row_def)
  with row show ?thesis by (auto simp: new_budget_row_def intro!: puts_append)
qed

lemma own_client_filter: "client_filter_guard ctx c = None \<Longrightarrow> c = Some x \<Longrightarrow> reaches ctx x"
  by (simp add: client_filter_guard_def)

lemma patch_target_guardD:
  assumes "patch_target_guard ctx b p st = None" "\<not> patch_empty p" "own_budget ctx st b" "client_filter_guard ctx (p_client p) = None"
  shows "own_budget ctx st (patched_row now b p)"
proof -
  let ?n = "patched_row now b p"
  have n: "b_client ?n = given_or (p_client p) (b_client b)" "b_currency ?n = given_or (p_currency p) (b_currency b)"
    "b_status ?n = given_or (p_status p) (b_status b)" "b_account ?n = given_or (p_account p) (b_account b)"
    by (simp_all add: patched_row_def merge_patch_def given_or_def split: option.split)
  have reach: "reaches ctx (b_client ?n)"
    using assms(3,4) by (auto simp: n(1) given_or_def own_budget_def dest: own_client_filter split: option.split)
  have live: "b_status ?n = Active \<Longrightarrow> ensure_client_currency (b_client ?n) (b_currency ?n) st = None"
    using assms(1,2) by (simp add: patch_target_guard_def Let_def first_error_None n)
  have acc: "\<exists>a \<in> set (Accounts.ad_accounts (as_accounts st)). paired a ?n" if "b_account ?n = Some i" for i
  proof -
    have "(case p_account p of Some (Some a) \<Rightarrow> Some a | _ \<Rightarrow> b_account b) = Some i"
      using that by (auto simp: n(4) given_or_def split: option.splits)
    then obtain a where "account_of i st = Some a" "Accounts.ac_client a = b_client ?n" "Accounts.ac_currency a = b_currency ?n"
      using assms(1) by (auto simp: patch_target_guard_def Let_def first_error_None n split: option.splits)
    with that show ?thesis by (auto simp: paired_def dest!: account_ofD)
  qed
  have "b_status ?n = Active \<Longrightarrow> \<exists>c \<in> set (ad_clients (as_accounts st)). Accounts.cl_id c = b_client ?n
      \<and> normal_code (Accounts.cl_currency c) = normal_code (b_currency ?n)"
    using currencyD [OF live] by blast
  with reach acc show ?thesis unfolding own_budget_def budget_fits_def by blast
qed

lemma sql_patch_row:
  assumes "sql_patch now i p db = Inr (r, db')" "sql_get i db = Some b"
  shows "budgets db' = budgets db \<or> \<not> patch_empty p \<and> r = patched_row now b p \<and> budgets db' = update_rows (\<lambda>x. b_id x = i) (\<lambda>_. r) (budgets db)"
  using assms by (auto simp: sql_patch_def Let_def update_budget_def insert_history_def split: option.splits sum.splits if_splits)

lemma patch_budget_puts:
  assumes "patch_budget ctx i p now st = (r, st')" "coherent st"
  shows "budget_puts ctx st st'"
proof (cases r)
  case (Inl e)
  with assms(1) show ?thesis by (auto simp: patch_budget_def Let_def split: option.splits sum.splits prod.splits if_splits)
next
  case (Inr n)
  define q where "q = (if signs ctx then p\<lparr>p_changed_by := Some (rc_user ctx)\<rparr> else p)"
  obtain b where b: "budget_in_reach ctx i st = Inr b" and g: "client_filter_guard ctx (p_client q) = None" "patch_target_guard ctx b q st = None"
    and w: "sql_patch now i q (budget_view st) = Inr (n, as_budgets st')"
    using assms(1) Inr unfolding patch_budget_def q_def [symmetric] Let_def
    by (auto simp: first_error_None split: option.splits sum.splits)
  note old = budget_in_reachD [OF b]
  have own: "own_budget ctx st b" using own_old [OF assms(2)] old by blast
  from sql_patch_row [OF w, of b] old show ?thesis
    using patch_target_guardD [OF g(2) _ own g(1)] puts_update [OF coherentD(3) [OF assms(2)], of b i n "own_budget ctx st"] own
    by (auto simp: patched_row_def)
qed

lemma delete_budget_puts:
  assumes "delete_budget ctx i now st = (r, st')" "coherent st"
  shows "budget_puts ctx st st'"
proof (cases "as_budgets st' = as_budgets st")
  case False
  with assms(1) obtain b where b: "budget_in_reach ctx i st = Inr b"
    and w: "budgets (as_budgets st') = update_rows (\<lambda>x. b_id x = i) (archived_row now) (budgets (as_budgets st))"
    by (auto simp: delete_budget_def sql_archive_def split: option.splits sum.splits)
  note old = budget_in_reachD [OF b]
  have own: "own_budget ctx st b" using own_old [OF assms(2)] old by blast
  then have new: "own_budget ctx st (archived_row now b)" by (auto simp: own_budget_def budget_fits_def archived_row_def paired_def)
  have "update_rows (\<lambda>x. b_id x = i) (archived_row now) (budgets (as_budgets st)) = update_rows (\<lambda>x. b_id x = i) (\<lambda>_. archived_row now b) (budgets (as_budgets st))"
    unfolding update_rows_def using key_unique [OF coherentD(3) [OF assms(2)], of _ b] old by (intro map_cong) auto
  with puts_update [OF coherentD(3) [OF assms(2)] _ _ _ own new, of i] old w show ?thesis by (simp add: archived_row_def)
qed simp

lemma own_moved [simp]: "own_budget ctx st (moved_row a now n b) = own_budget ctx st b"
  by (auto simp: own_budget_def budget_fits_def moved_row_def paired_def)

lemma transfer_rows_step:
  assumes "sql_transfer new_id now i p db = Inr (r, db')" "sql_get i db = Some src"
  obtains a rows1 where "rows1 = update_rows (\<lambda>x. b_id x = i) (\<lambda>_. moved_row a now (t_note p) src) (budgets db)"
    and "(\<exists>tgt a2. tgt \<in> set (budgets db) \<and> b_client tgt = b_client src \<and> budgets db' = update_rows (\<lambda>x. b_id x = b_id tgt) (\<lambda>_. moved_row a2 now (t_note p) tgt) rows1)
      \<or> (\<exists>a2. new_id \<notin> b_id ` set rows1 \<and> budgets db' = rows1 @ [transfer_new_target new_id now a2 p src])"
proof -
  let ?t = "q_money (t_amount p)"
  let ?a = "q_money (q_money (b_amount src) - ?t)"
  obtain db1 db2 u where d1: "update_budget i (\<lambda>r. moved_row ?a now (t_note p) src) db = Inr db1"
    and d2: "sql_credit_target new_id now p ?t src (transfer_target_row (budgets db) src (t_target_account p))
       (insert_history i now (t_changed_by p) src (moved_row ?a now (t_note p) src) db1) = Inr (u, db2)" and d': "budgets db' = budgets db2"
    using assms by (auto simp: sql_transfer_def Let_def insert_transfer_def split: option.splits sum.splits if_splits)
  have r1: "budgets db1 = update_rows (\<lambda>x. b_id x = i) (\<lambda>_. moved_row ?a now (t_note p) src) (budgets db)"
    using d1 by (auto simp: update_budget_def split: if_splits)
  have tgt: "t \<in> set (budgets db) \<and> b_client t = b_client src" if "transfer_target_row (budgets db) src (t_target_account p) = Some t" for t
  proof -
    let ?xs = "sort_desc (\<lambda>r. (b_version r, b_updated_at r)) (filter (\<lambda>r. b_status r = Active \<and> b_scope r = AccountScope \<and> b_client r = b_client src
        \<and> b_account r = Some (t_target_account p) \<and> b_start r \<le> b_end src \<and> b_end r \<ge> b_start src) (budgets db))"
    have "t \<in> set ?xs" using that by (cases ?xs) (auto simp: transfer_target_row_def fetchone_def)
    then show ?thesis by (simp add: sort_desc_def)
  qed
  show ?thesis
  proof (rule that [OF r1], cases "transfer_target_row (budgets db) src (t_target_account p)")
    case None
    with d2 d' have "\<exists>a2. new_id \<notin> b_id ` set (budgets db1) \<and> budgets db' = budgets db1 @ [transfer_new_target new_id now a2 p src]"
      by (auto simp: sql_credit_target_def Let_def insert_budget_def insert_history_def transfer_new_target_def split: option.splits if_splits)
    then show "(\<exists>tgt a2. tgt \<in> set (budgets db) \<and> b_client tgt = b_client src \<and> budgets db' = update_rows (\<lambda>x. b_id x = b_id tgt) (\<lambda>_. moved_row a2 now (t_note p) tgt) (budgets db1))
      \<or> (\<exists>a2. new_id \<notin> b_id ` set (budgets db1) \<and> budgets db' = budgets db1 @ [transfer_new_target new_id now a2 p src])" by blast
  next
    case (Some t)
    have "budgets db' = update_rows (\<lambda>x. b_id x = b_id t)
        (\<lambda>_. moved_row (q_money (q_money (b_amount t) + ?t)) now (t_note p) t) (budgets db1)"
      using d2 d' Some by (auto simp: sql_credit_target_def Let_def update_budget_def insert_history_def split: option.splits sum.splits if_splits)
    with tgt [OF Some] show "(\<exists>tgt a2. tgt \<in> set (budgets db) \<and> b_client tgt = b_client src \<and> budgets db' = update_rows (\<lambda>x. b_id x = b_id tgt) (\<lambda>_. moved_row a2 now (t_note p) tgt) (budgets db1))
      \<or> (\<exists>a2. new_id \<notin> b_id ` set (budgets db1) \<and> budgets db' = budgets db1 @ [transfer_new_target new_id now a2 p src])" by blast
  qed
qed

lemma transfer_guardD:
  assumes "transfer_guard ctx src p st = None" "reaches ctx (b_client src)"
  shows "own_budget ctx st (transfer_new_target i now a p src)"
proof -
  obtain x where x: "account_of (t_target_account p) st = Some x" "Accounts.ac_client x = b_client src" "Accounts.ac_currency x = b_currency src"
    using assms(1) by (auto simp: transfer_guard_def first_error_None split: option.splits)
  have "ensure_client_currency (b_client src) (b_currency src) st = None" using assms(1) by (simp add: transfer_guard_def first_error_None)
  note c = currencyD [OF this]
  obtain y where "y \<in> set (Accounts.ad_accounts (as_accounts st))" "x = to_account y" "Accounts.ac_id y = t_target_account p"
    using account_ofD [OF x(1)] by blast
  with x(2,3) have "\<exists>y \<in> set (Accounts.ad_accounts (as_accounts st)). paired y (transfer_new_target i now a p src)"
    by (intro bexI [of _ y]) (simp_all add: paired_def transfer_new_target_def)
  with c assms(2) show ?thesis by (auto simp: own_budget_def budget_fits_def transfer_new_target_def)
qed

lemma transfer_budget_puts:
  assumes "transfer_budget ctx i p new_id now st = (r, st')" "coherent st"
  shows "budget_puts ctx st st'"
proof (cases r)
  case (Inl e)
  with assms(1) show ?thesis by (auto simp: transfer_budget_def Let_def split: option.splits sum.splits prod.splits if_splits)
next
  case (Inr n)
  define q where "q = (if signs ctx then p\<lparr>t_changed_by := Some (rc_user ctx)\<rparr> else p)"
  obtain src where b: "budget_in_reach ctx i st = Inr src" and g: "transfer_guard ctx src q st = None"
    and w: "sql_transfer new_id now i q (budget_view st) = Inr (n, as_budgets st')"
    using assms(1) Inr unfolding transfer_budget_def q_def [symmetric] Let_def by (auto split: option.splits sum.splits)
  note old = budget_in_reachD [OF b]
  have own: "own_budget ctx st src" using own_old [OF assms(2)] old by blast
  obtain a rows1 where rows1: "rows1 = update_rows (\<lambda>x. b_id x = i) (\<lambda>_. moved_row a now (t_note q) src) (budgets (as_budgets st))"
    and rest: "(\<exists>tgt a2. tgt \<in> set (budgets (as_budgets st)) \<and> b_client tgt = b_client src \<and> budgets (as_budgets st') = update_rows (\<lambda>x. b_id x = b_id tgt) (\<lambda>_. moved_row a2 now (t_note q) tgt) rows1)
      \<or> (\<exists>a2. new_id \<notin> b_id ` set rows1 \<and> budgets (as_budgets st') = rows1 @ [transfer_new_target new_id now a2 q src])"
    by (rule transfer_rows_step [OF w, of src, unfolded budget_view_rows]) (simp add: old, rule that, assumption+)
  have first: "puts b_id (own_budget ctx st) (budgets (as_budgets st)) rows1"
    unfolding rows1 by (rule puts_update [OF coherentD(3) [OF assms(2)], of src]) (use old own in \<open>simp_all add: moved_row_def [symmetric]\<close>, simp add: moved_row_def)
  have dist: "distinct (map b_id rows1)" by (rule puts_distinct [OF first coherentD(3) [OF assms(2)]])
  from rest show ?thesis
  proof (elim disjE exE conjE)
    fix tgt a2
    assume t: "tgt \<in> set (budgets (as_budgets st))" "b_client tgt = b_client src"
      and rows: "budgets (as_budgets st') = update_rows (\<lambda>x. b_id x = b_id tgt) (\<lambda>_. moved_row a2 now (t_note q) tgt) rows1"
    have ot: "own_budget ctx st tgt" using own_old [OF assms(2) t(1)] t(2) old by simp
    obtain x where x: "x \<in> set rows1" "b_id x = b_id tgt" using puts_keys [OF first] t(1) by (metis image_eqI imageE subsetD)
    then have "own_budget ctx st x"
      using puts_mem [OF first x(1)] key_unique [OF coherentD(3) [OF assms(2)] _ t(1) x(2)] ot by blast
    then have "puts b_id (own_budget ctx st) rows1 (budgets (as_budgets st'))"
      unfolding rows by (intro puts_update [OF dist x]) (use ot in \<open>simp_all\<close>, simp add: moved_row_def)
    with first show ?thesis using puts_trans by blast
  next
    fix a2
    assume n: "new_id \<notin> b_id ` set rows1" "budgets (as_budgets st') = rows1 @ [transfer_new_target new_id now a2 q src]"
    have "puts b_id (own_budget ctx st) rows1 (budgets (as_budgets st'))"
      unfolding n(2) by (rule puts_append) (use transfer_guardD [OF g] old n(1) in \<open>auto simp: transfer_new_target_def\<close>)
    with first show ?thesis using puts_trans by blast
  qed
qed

section \<open>Writes of accounts\<close>

definition own_account :: "request_context \<Rightarrow> app_state \<Rightarrow> account \<Rightarrow> bool" where
  "own_account ctx st a \<longleftrightarrow> reaches ctx (Accounts.ac_client a) \<and> account_fits (ad_clients (as_accounts st)) a
     \<and> (\<forall>b \<in> set (budgets (as_budgets st)). b_account b = Some (Accounts.ac_id a) \<longrightarrow> paired a b)"

abbreviation "account_puts ctx st st' \<equiv>
  puts Accounts.ac_id (own_account ctx st) (Accounts.ad_accounts (as_accounts st)) (Accounts.ad_accounts (as_accounts st'))"

lemma own_account_old:
  assumes "coherent st" "a \<in> set (Accounts.ad_accounts (as_accounts st))" "reaches ctx (Accounts.ac_client a)"
  shows "own_account ctx st a"
proof -
  have "paired a b" if b: "b \<in> set (budgets (as_budgets st))" "b_account b = Some (Accounts.ac_id a)" for b
  proof -
    obtain x where x: "x \<in> set (Accounts.ad_accounts (as_accounts st))" "paired x b"
      using coherentD(5) [OF assms(1) b(1)] b(2) by (auto simp: budget_fits_def)
    with b(2) have "Accounts.ac_id x = Accounts.ac_id a" by (simp add: paired_def)
    with x key_unique [OF coherentD(2) [OF assms(1)] x(1) assms(2)] show ?thesis by simp
  qed
  with assms show ?thesis by (simp add: own_account_def coherentD(4))
qed

lemma account_fitsI: "ensure_client_currency c cur st = None \<Longrightarrow> Accounts.ac_client a = c \<Longrightarrow> Accounts.ac_currency a = cur
    \<Longrightarrow> account_fits (ad_clients (as_accounts st)) a"
  by (auto simp: account_fits_def dest!: currencyD)

lemma sql_account_create_row:
  assumes "sql_account_create p i now acc = Inr (a, acc')"
  shows "\<exists>row. ad_clients acc' = ad_clients acc \<and> Accounts.ad_accounts acc' = Accounts.ad_accounts acc @ [row] \<and> Accounts.ac_id row = i
    \<and> i \<notin> Accounts.ac_id ` set (Accounts.ad_accounts acc) \<and> Accounts.ac_client row = an_client p \<and> Accounts.ac_currency row = an_currency p"
  using assms by (auto simp: sql_account_create_def Let_def split: option.splits if_splits)

lemma create_account_puts:
  assumes "create_account ctx p i now st = (r, st')" "coherent st"
  shows "account_puts ctx st st' \<and> ad_clients (as_accounts st') = ad_clients (as_accounts st)"
proof (cases r)
  case (Inl e)
  with assms(1) show ?thesis by (auto simp: create_account_def split: option.splits sum.splits prod.splits)
next
  case (Inr a)
  have g: "reaches ctx (an_client p)" "ensure_client_currency (an_client p) (an_currency p) st = None"
    and w: "sql_account_create p i now (as_accounts st) = Inr (a, as_accounts st')"
    using assms(1) Inr by (auto simp: create_account_def first_error_None split: option.splits sum.splits)
  from sql_account_create_row [OF w] obtain row where row: "ad_clients (as_accounts st') = ad_clients (as_accounts st)"
    "Accounts.ad_accounts (as_accounts st') = Accounts.ad_accounts (as_accounts st) @ [row]" "Accounts.ac_id row = i"
    "i \<notin> Accounts.ac_id ` set (Accounts.ad_accounts (as_accounts st))" "Accounts.ac_client row = an_client p" "Accounts.ac_currency row = an_currency p"
    by blast
  have "b_account b \<noteq> Some i" if "b \<in> set (budgets (as_budgets st))" for b
    using coherentD(5) [OF assms(2) that] row(4) by (auto simp: budget_fits_def paired_def)
  then have "own_account ctx st row" using g(1) row account_fitsI [OF g(2), of row] by (auto simp: own_account_def)
  with row show ?thesis by (auto intro: puts_append)
qed

lemma sql_account_patch_row:
  assumes "sql_account_patch i p now acc = Inr (r, acc')" "find (\<lambda>a. Accounts.ac_id a = i) (Accounts.ad_accounts acc) = Some x"
  shows "ad_clients acc' = ad_clients acc \<and> (Accounts.ad_accounts acc' = Accounts.ad_accounts acc
    \<or> Accounts.ad_accounts acc' = update_rows (\<lambda>a. Accounts.ac_id a = i) (\<lambda>_. patched_account p now x) (Accounts.ad_accounts acc))"
  using assms by (auto simp: sql_account_patch_def Let_def split: option.splits if_splits)

lemma in_scope_budgets:
  "b \<in> set (sql_list None (Some i) (Some StatusAll) None None (budget_view st)) \<longleftrightarrow> b \<in> set (budgets (as_budgets st)) \<and> b_account b = Some i"
  "b \<in> set (sql_list (Some c) None (Some StatusAll) None None (budget_view st)) \<longleftrightarrow> b \<in> set (budgets (as_budgets st)) \<and> b_client b = c"
  by (auto simp: sql_list_def sort_desc_def)

lemma set_or_given [simp]: "set_or = given_or"
  by (simp add: fun_eq_iff set_or_def given_or_def)

lemma patched_core [simp]: "Accounts.ac_id (patched_account (p\<lparr>ap_meta := m\<rparr>) now x) = Accounts.ac_id x"
  "Accounts.ac_client (patched_account (p\<lparr>ap_meta := m\<rparr>) now x) = given_or (ap_client p) (Accounts.ac_client x)"
  "Accounts.ac_currency (patched_account (p\<lparr>ap_meta := m\<rparr>) now x) = given_or (ap_currency p) (Accounts.ac_currency x)"
  by (simp_all add: patched_account_def)

lemma patched_account_own:
  assumes "account_budget_guard (to_account x) p st = None" "own_account ctx st x" "ap_currency p \<noteq> Some []"
    and "\<And>c. ap_client p = Some c \<Longrightarrow> reaches ctx c"
  shows "own_account ctx st (patched_account (p\<lparr>ap_meta := m\<rparr>) now x)"
proof -
  let ?n = "patched_account (p\<lparr>ap_meta := m\<rparr>) now x"
  have cur: "given_text (ap_currency p) = ap_currency p" using assms(3) by (auto simp: given_text_def split: option.split)
  have reach: "reaches ctx (Accounts.ac_client ?n)" using assms(2,4) by (auto simp: own_account_def given_or_def split: option.split)
  show ?thesis
  proof (cases "ap_client p = None \<and> ap_currency p = None")
    case True
    with assms(2) show ?thesis by (auto simp: own_account_def account_fits_def paired_def given_or_def)
  next
    case False
    with assms(1) have g: "ensure_client_currency (Accounts.ac_client ?n) (Accounts.ac_currency ?n) st = None"
      "ap_client p \<noteq> None \<and> Accounts.ac_client ?n \<noteq> Accounts.ac_client x \<longrightarrow> sql_list None (Some (Accounts.ac_id x)) (Some StatusAll) None None (budget_view st) = []"
      "\<forall>b \<in> set (sql_list None (Some (Accounts.ac_id x)) (Some StatusAll) None None (budget_view st)). b_currency b = Accounts.ac_currency ?n"
      by (auto simp: account_budget_guard_def Let_def first_error_None cur filter_empty_conv)
    have "paired ?n b" if b: "b \<in> set (budgets (as_budgets st))" "b_account b = Some (Accounts.ac_id x)" for b
    proof -
      have mem: "b \<in> set (sql_list None (Some (Accounts.ac_id x)) (Some StatusAll) None None (budget_view st))" using b by (simp add: in_scope_budgets)
      then have "Accounts.ac_client ?n = Accounts.ac_client x" using g(2) by (cases "ap_client p") (auto simp: given_or_def)
      moreover have "paired x b" using assms(2) b by (simp add: own_account_def)
      ultimately show ?thesis using g(3) mem b by (simp add: paired_def)
    qed
    with reach account_fitsI [OF g(1)] show ?thesis by (simp add: own_account_def)
  qed
qed

lemma patch_account_puts:
  assumes "patch_account ctx i p now st = (r, st')" "coherent st" "ap_currency p \<noteq> Some []"
  shows "account_puts ctx st st' \<and> ad_clients (as_accounts st') = ad_clients (as_accounts st)"
proof (cases r)
  case (Inl e)
  with assms(1) show ?thesis by (auto simp: patch_account_def split: option.splits sum.splits prod.splits)
next
  case (Inr n)
  obtain a where a: "account_of i st = Some a" "reaches ctx (Accounts.ac_client a)" "account_budget_guard a p st = None"
    "\<And>c. ap_client p = Some c \<Longrightarrow> reaches ctx c"
    and w: "sql_account_patch i (p\<lparr>ap_meta := patched_metadata a p\<rparr>) now (as_accounts st) = Inr (n, as_accounts st')"
    using assms(1) Inr by (auto simp: patch_account_def first_error_None split: option.splits sum.splits)
  obtain x where x: "find (\<lambda>a. Accounts.ac_id a = i) (Accounts.ad_accounts (as_accounts st)) = Some x" "a = to_account x"
    using a(1) by (auto simp: account_of_def sql_account_get_def)
  have mem: "x \<in> set (Accounts.ad_accounts (as_accounts st))" "Accounts.ac_id x = i" using find_SomeD [OF x(1)] by simp_all
  have own: "own_account ctx st x" using own_account_old [OF assms(2) mem(1)] a(2) x(2) by simp
  note new = patched_account_own [OF a(3) [unfolded x(2)] own assms(3) a(4)]
  from sql_account_patch_row [OF w x(1)] show ?thesis
    using puts_update [OF coherentD(2) [OF assms(2)] mem _ own new] mem(2) by auto
qed

lemma archive_account_puts:
  assumes "archive_account ctx i now st = (r, st')" "coherent st"
  shows "account_puts ctx st st' \<and> ad_clients (as_accounts st') = ad_clients (as_accounts st)"
proof (cases r)
  case (Inl e)
  with assms(1) show ?thesis by (auto simp: archive_account_def split: option.splits sum.splits prod.splits)
next
  case (Inr n)
  obtain a where a: "account_of i st = Some a" "reaches ctx (Accounts.ac_client a)"
    and w: "sql_account_archive i now (as_accounts st) = Inr (n, as_accounts st')"
    using assms(1) Inr by (auto simp: archive_account_def split: option.splits sum.splits)
  obtain x where x: "find (\<lambda>a. Accounts.ac_id a = i) (Accounts.ad_accounts (as_accounts st)) = Some x" "a = to_account x"
    using a(1) by (auto simp: account_of_def sql_account_get_def)
  have mem: "x \<in> set (Accounts.ad_accounts (as_accounts st))" "Accounts.ac_id x = i" using find_SomeD [OF x(1)] by simp_all
  have own: "own_account ctx st x" using own_account_old [OF assms(2) mem(1)] a(2) x(2) by simp
  have new: "own_account ctx st (x\<lparr>Accounts.ac_status := RArchived, ac_updated := now\<rparr>)"
    using own by (auto simp: own_account_def account_fits_def paired_def)
  have "as_accounts st' = (as_accounts st)\<lparr>Accounts.ad_accounts := update_rows (\<lambda>a. Accounts.ac_id a = i)
      (\<lambda>_. x\<lparr>Accounts.ac_status := RArchived, ac_updated := now\<rparr>) (Accounts.ad_accounts (as_accounts st))\<rparr>"
    using w x(1) by (auto simp: sql_account_archive_def Let_def)
  with puts_update [OF coherentD(2) [OF assms(2)] mem _ own new] mem(2) show ?thesis by simp
qed

end
