(* ===== verification/Tenant_Theorems.thy ===== *)
theory Tenant_Theorems
  imports Routes_Laws Identity_Samples Statistics_Laws
begin

text \<open>
  Runs of requests: the tables stay coherent, a request leaves the rows of clients out of its reach
  alone, and shows none of them.
\<close>

section \<open>Writes of clients\<close>

definition client_agrees :: "app_state \<Rightarrow> client \<Rightarrow> bool" where
  "client_agrees st c \<longleftrightarrow>
     (\<forall>a \<in> set (Accounts.ad_accounts (as_accounts st)). Accounts.ac_client a = Accounts.cl_id c
        \<longrightarrow> normal_code (Accounts.ac_currency a) = normal_code (Accounts.cl_currency c))
     \<and> (\<forall>b \<in> set (budgets (as_budgets st)). b_client b = Accounts.cl_id c \<and> b_status b = Active
        \<longrightarrow> normal_code (b_currency b) = normal_code (Accounts.cl_currency c))"

lemma client_agrees_old:
  assumes "coherent st" "c \<in> set (ad_clients (as_accounts st))"
  shows "client_agrees st c"
proof -
  have same: "x = c" if "x \<in> set (ad_clients (as_accounts st))" "Accounts.cl_id x = Accounts.cl_id c" for x
    by (rule key_unique [OF coherentD(1) [OF assms(1)] that(1) assms(2) that(2)])
  have "normal_code (Accounts.ac_currency a) = normal_code (Accounts.cl_currency c)"
    if "a \<in> set (Accounts.ad_accounts (as_accounts st))" "Accounts.ac_client a = Accounts.cl_id c" for a
    using coherentD(4) [OF assms(1) that(1)] that(2) same unfolding account_fits_def by metis
  moreover have "normal_code (b_currency b) = normal_code (Accounts.cl_currency c)"
    if "b \<in> set (budgets (as_budgets st))" "b_client b = Accounts.cl_id c" "b_status b = Active" for b
    using coherentD(5) [OF assms(1) that(1)] that(2,3) same unfolding budget_fits_def by metis
  ultimately show ?thesis by (simp add: client_agrees_def)
qed

lemma client_agrees_like: "client_agrees st c \<Longrightarrow> Accounts.cl_id c' = Accounts.cl_id c \<Longrightarrow> Accounts.cl_currency c' = Accounts.cl_currency c
    \<Longrightarrow> client_agrees st c'"
  by (simp add: client_agrees_def)

abbreviation "client_puts P st st' \<equiv> puts Accounts.cl_id P (ad_clients (as_accounts st)) (ad_clients (as_accounts st'))"

lemma create_client_puts:
  assumes "create_client ctx p g i b now now2 st = (r, st')" "coherent st"
  shows "client_puts (client_agrees st) st st' \<and> Accounts.ad_accounts (as_accounts st') = Accounts.ad_accounts (as_accounts st)
    \<and> as_budgets st' = as_budgets st \<and> as_stats st' = as_stats st \<and> set (ad_clients (as_accounts st)) \<subseteq> set (ad_clients (as_accounts st'))"
proof -
  have "as_accounts st' = as_accounts st \<or> i \<notin> Accounts.cl_id ` set (ad_clients (as_accounts st))
      \<and> as_accounts st' = (as_accounts st)\<lparr>ad_clients := ad_clients (as_accounts st) @ [new_client p i now]\<rparr>"
    and same: "as_budgets st' = as_budgets st" "as_stats st' = as_stats st"
    using assms(1) by (auto simp: create_client_def sql_client_create_def Let_def split: option.splits sum.splits prod.splits if_splits)
  then show ?thesis
  proof (elim disjE conjE)
    assume n: "i \<notin> Accounts.cl_id ` set (ad_clients (as_accounts st))"
      "as_accounts st' = (as_accounts st)\<lparr>ad_clients := ad_clients (as_accounts st) @ [new_client p i now]\<rparr>"
    have "client_agrees st (new_client p i now)"
      using n(1) coherentD(4,5) [OF assms(2)] by (fastforce simp: client_agrees_def new_client_def account_fits_def budget_fits_def image_iff)
    then have "puts Accounts.cl_id (client_agrees st) (ad_clients (as_accounts st)) (ad_clients (as_accounts st) @ [new_client p i now])"
      using n(1) by (intro puts_append) (simp_all add: new_client_def)
    with n(2) same show ?thesis by auto
  qed (simp add: same)
qed

definition own_client :: "request_context \<Rightarrow> app_state \<Rightarrow> client \<Rightarrow> bool" where
  "own_client ctx st c \<longleftrightarrow> reaches ctx (Accounts.cl_id c) \<and> client_agrees st c"

lemma patch_client_puts:
  assumes "patch_client ctx i p now now2 st = (r, st')" "coherent st" "cp_currency p \<noteq> Some []"
  shows "client_puts (own_client ctx st) st st' \<and> Accounts.ad_accounts (as_accounts st') = Accounts.ad_accounts (as_accounts st)
    \<and> as_budgets st' = as_budgets st \<and> as_stats st' = as_stats st"
proof (cases r)
  case (Inl e)
  with assms(1) show ?thesis by (auto simp: patch_client_def Let_def split: option.splits sum.splits prod.splits if_splits)
next
  case (Inr n)
  obtain c acc where c: "client_of i st = Some c" and reach: "reaches ctx i" and guard: "client_currency_guard i c (cp_currency p) st = None"
    and w: "sql_client_patch i p now (as_accounts st) = Inr (n, acc)" and st': "as_accounts st' = acc" "as_budgets st' = as_budgets st" "as_stats st' = as_stats st"
    using assms(1) Inr by (auto simp: patch_client_def first_error_None Let_def denied_def ensure_client_access_def withdraw_invites_def split: option.splits sum.splits if_splits)
  note mem = client_ofD [OF c]
  have old: "client_agrees st c" using client_agrees_old [OF assms(2)] mem by blast
  have "client_agrees st (patched_client p now c)"
  proof (cases "cp_currency p = None \<or> cp_currency p = Some (Accounts.cl_currency c)")
    case True
    then show ?thesis by (intro client_agrees_like [OF old]) (auto simp: patched_client_def given_or_def)
  next
    case False
    then obtain t where t: "cp_currency p = Some t" "t \<noteq> Accounts.cl_currency c" by auto
    then have "given_text (cp_currency p) = Some t" using assms(3) by (simp add: given_text_def)
    with guard t(2) have g: "\<forall>a \<in> set (sql_account_list (Some i) AllStatus (as_accounts st)). Accounts.ac_currency a = t"
      "\<forall>b \<in> set (sql_list (Some i) None (Some StatusAll) None None (budget_view st)). b_currency b = t"
      by (auto simp: client_currency_guard_def Let_def filter_empty_conv)
    have "Accounts.ac_currency a = t" if "a \<in> set (Accounts.ad_accounts (as_accounts st))" "Accounts.ac_client a = i" for a
      using g(1) that by (force simp: sql_account_list_def sort_desc_def)
    with g(2) t(1) mem show ?thesis by (auto simp: client_agrees_def patched_client_def in_scope_budgets given_or_def)
  qed
  then have own: "own_client ctx st c" "own_client ctx st (patched_client p now c)"
    using reach mem old by (auto simp: own_client_def patched_client_def)
  have id: "Accounts.cl_id (patched_client p now c) = i" using mem by (simp add: patched_client_def)
  have "ad_clients acc = ad_clients (as_accounts st) \<or> ad_clients acc = update_rows (\<lambda>c. Accounts.cl_id c = i) (\<lambda>_. patched_client p now c) (ad_clients (as_accounts st))"
    and "Accounts.ad_accounts acc = Accounts.ad_accounts (as_accounts st)"
    using w c by (auto simp: sql_client_patch_def client_of_def Let_def split: if_splits)
  with puts_update [OF coherentD(1) [OF assms(2)] _ _ id own] mem st' show ?thesis by auto
qed

lemma archive_client_puts:
  assumes "archive_client ctx i now now2 st = (r, st')" "coherent st"
  shows "client_puts (own_client ctx st) st st' \<and> Accounts.ad_accounts (as_accounts st') = Accounts.ad_accounts (as_accounts st)
    \<and> as_budgets st' = as_budgets st \<and> as_stats st' = as_stats st"
proof (cases r)
  case (Inl e)
  with assms(1) show ?thesis by (auto simp: archive_client_def Let_def split: option.splits sum.splits prod.splits if_splits)
next
  case (Inr n)
  obtain acc where reach: "reaches ctx i" and w: "sql_client_archive i now (as_accounts st) = Inr (n, acc)"
    and st': "as_accounts st' = acc" "as_budgets st' = as_budgets st" "as_stats st' = as_stats st"
    using assms(1) Inr by (auto simp: archive_client_def first_error_None Let_def denied_def ensure_client_access_def withdraw_invites_def split: option.splits sum.splits if_splits)
  obtain c where c: "client_of i st = Some c" and rows: "acc = (as_accounts st)\<lparr>ad_clients := update_rows (\<lambda>c. Accounts.cl_id c = i)
      (\<lambda>_. c\<lparr>Accounts.cl_status := RArchived, cl_updated := now\<rparr>) (ad_clients (as_accounts st))\<rparr>"
    using w by (auto simp: sql_client_archive_def client_of_def Let_def split: option.splits)
  note mem = client_ofD [OF c]
  have old: "client_agrees st c" using client_agrees_old [OF assms(2)] mem by blast
  have own: "own_client ctx st c" "own_client ctx st (c\<lparr>Accounts.cl_status := RArchived, cl_updated := now\<rparr>)"
    using reach mem old client_agrees_like [OF old, of "c\<lparr>Accounts.cl_status := RArchived, cl_updated := now\<rparr>"] by (auto simp: own_client_def)
  from puts_update [OF coherentD(1) [OF assms(2)] _ _ _ own] mem st' rows show ?thesis by auto
qed

section \<open>Writes of daily statistics\<close>

definition own_stat :: "request_context \<Rightarrow> app_state \<Rightarrow> stat \<Rightarrow> bool" where
  "own_stat ctx st s \<longleftrightarrow> (\<exists>a \<in> set (Accounts.ad_accounts (as_accounts st)). Accounts.ac_id a = st_account s \<and> reaches ctx (Accounts.ac_client a))"

abbreviation "stat_puts ctx st st' \<equiv> puts st_id (own_stat ctx st) (sd_stats (as_stats st)) (sd_stats (as_stats st'))"

lemma upsert_puts:
  assumes "sql_upsert acc now i w rows = Inr (e, rows')" "distinct (map st_id rows)" "\<And>s. st_account s = sw_account w \<Longrightarrow> P s"
  shows "puts st_id P rows rows'"
proof (cases "find (\<lambda>s. stat_key s = write_key w) rows")
  case None
  with assms(1) have "rows' = rows @ [new_stat w i now]" "i \<notin> st_id ` set rows" by (auto simp: sql_upsert_def split: option.splits if_splits)
  with assms(3) show ?thesis by (auto simp: new_stat_def intro!: puts_append)
next
  case (Some old)
  have old: "old \<in> set rows" "stat_key old = write_key w" using find_SomeD [OF Some] by simp_all
  have "rows' = update_rows (\<lambda>s. st_id s = st_id old) (stat_values w now) rows"
    using Some assms(1) by (auto simp: sql_upsert_def split: option.splits if_splits)
  moreover have "update_rows (\<lambda>s. st_id s = st_id old) (stat_values w now) rows = update_rows (\<lambda>s. st_id s = st_id old) (\<lambda>_. stat_values w now old) rows"
    unfolding update_rows_def using key_unique [OF assms(2) _ old(1)] by (intro map_cong) auto
  moreover have "P old" "P (stat_values w now old)" using old(2) assms(3) by (simp_all add: stat_key_def write_key_def stat_values_def)
  ultimately show ?thesis using puts_update [OF assms(2) old(1) refl _ \<open>P old\<close> \<open>P (stat_values w now old)\<close>] by (simp add: stat_values_def)
qed

lemma ingest_rows_puts:
  "sql_ingest_rows acc now ids n ws counts rows = Inr (counts', rows') \<Longrightarrow> distinct (map st_id rows)
    \<Longrightarrow> (\<And>w s. w \<in> set ws \<Longrightarrow> st_account s = sw_account w \<Longrightarrow> P s) \<Longrightarrow> puts st_id P rows rows'"
proof (induction acc now ids n ws counts rows rule: sql_ingest_rows.induct)
  case (2 acc now ids n w ws ins upd stats)
  obtain e stats' where u: "sql_upsert acc now (ids n) w stats = Inr (e, stats')"
    and rest: "sql_ingest_rows acc now ids (Suc n) ws (if e then (ins, upd + 1) else (ins + 1, upd)) stats' = Inr (counts', rows')"
    using "2.prems"(1) by (auto split: sum.splits)
  have one: "puts st_id P stats stats'" by (rule upsert_puts [OF u "2.prems"(2)]) (rule "2.prems"(3), simp_all)
  have "puts st_id P stats' rows'"
    by (rule "2.IH" [OF u refl rest puts_distinct [OF one "2.prems"(2)]]) (rule "2.prems"(3), simp_all)
  from puts_trans [OF this one] show ?case .
qed simp

lemma sql_ingest_stats: "sql_ingest digest acc now ids ws key db = Inr (n, db') \<Longrightarrow>
    db' = db \<or> (\<exists>counts. sql_ingest_rows acc now ids 0 ws (0, 0) (sd_stats db) = Inr (counts, sd_stats db'))"
  by (auto simp: sql_ingest_def Let_def split: option.splits sum.splits if_splits)

lemma ingest_puts:
  assumes "ingest_ad_stats digest ctx ws key ids now st = (r, st')" "coherent st"
  shows "stat_puts ctx st st' \<and> as_accounts st' = as_accounts st \<and> as_budgets st' = as_budgets st"
proof (cases r)
  case (Inl e)
  with assms(1) show ?thesis by (auto simp: ingest_ad_stats_def split: option.splits sum.splits prod.splits)
next
  case (Inr n)
  have g: "\<And>w. w \<in> set ws \<Longrightarrow> stat_row_guard ctx st w = None"
    and w: "sql_ingest digest (as_accounts st) now ids ws key (as_stats st) = Inr (n, as_stats st')"
    and same: "as_accounts st' = as_accounts st" "as_budgets st' = as_budgets st"
    using assms(1) Inr by (auto simp: ingest_ad_stats_def first_error_None split: option.splits sum.splits)
  have own: "own_stat ctx st s" if m: "v \<in> set ws" "st_account s = sw_account v" for v s
  proof -
    obtain a where "account_of (sw_account v) st = Some a" "reaches ctx (Accounts.ac_client a)"
      using g [OF m(1)] by (auto simp: stat_row_guard_def first_error_None split: option.splits)
    with m(2) show ?thesis by (auto simp: own_stat_def dest!: account_ofD)
  qed
  have "as_stats st' = as_stats st \<or> (\<exists>counts. sql_ingest_rows (as_accounts st) now ids 0 ws (0, 0) (sd_stats (as_stats st)) = Inr (counts, sd_stats (as_stats st')))"
    by (rule sql_ingest_stats [OF w])
  then have "stat_puts ctx st st'"
  proof (elim disjE exE)
    fix counts
    assume "sql_ingest_rows (as_accounts st) now ids 0 ws (0, 0) (sd_stats (as_stats st)) = Inr (counts, sd_stats (as_stats st'))"
    from ingest_rows_puts [OF this coherentD(6) [OF assms(2)] own] show ?thesis .
  qed simp
  with same show ?thesis by simp
qed

section \<open>Runs\<close>

text \<open>The requests of a context that change something, with the schema's bound on a currency.\<close>

inductive tenant_step :: "request_context \<Rightarrow> app_state \<Rightarrow> app_state \<Rightarrow> bool" for ctx where
  t_create_client: "create_client ctx cc g i b n n2 st = (r, st') \<Longrightarrow> tenant_step ctx st st'"
| t_patch_client: "patch_client ctx i cp n n2 st = (r, st') \<Longrightarrow> cp_currency cp \<noteq> Some [] \<Longrightarrow> tenant_step ctx st st'"
| t_archive_client: "archive_client ctx i n n2 st = (r, st') \<Longrightarrow> tenant_step ctx st st'"
| t_issue_invite: "issue_invite_route digest ctx c email d gen n st = (v, st') \<Longrightarrow> tenant_step ctx st st'"
| t_list_invites: "list_invites_route ctx c status n st = (vs, st') \<Longrightarrow> tenant_step ctx st st'"
| t_resend_invite: "resend_invite_route digest ctx c vi d gen clock st = (v, st') \<Longrightarrow> tenant_step ctx st st'"
| t_revoke_invite: "revoke_invite_route ctx c vi n st = (w, st') \<Longrightarrow> tenant_step ctx st st'"
| t_create_account: "create_account ctx an i n st = (a, st') \<Longrightarrow> tenant_step ctx st st'"
| t_patch_account: "patch_account ctx i ap n st = (a, st') \<Longrightarrow> ap_currency ap \<noteq> Some [] \<Longrightarrow> tenant_step ctx st st'"
| t_archive_account: "archive_account ctx i n st = (a, st') \<Longrightarrow> tenant_step ctx st st'"
| t_create_budget: "create_budget ctx bc i n st = (x, st') \<Longrightarrow> tenant_step ctx st st'"
| t_patch_budget: "patch_budget ctx i bp n st = (x, st') \<Longrightarrow> tenant_step ctx st st'"
| t_delete_budget: "delete_budget ctx i n st = (x, st') \<Longrightarrow> tenant_step ctx st st'"
| t_transfer_budget: "transfer_budget ctx i tr j n st = (y, st') \<Longrightarrow> tenant_step ctx st st'"
| t_ingest: "ingest_ad_stats digest ctx ws key ids n st = (z, st') \<Longrightarrow> tenant_step ctx st st'"

text \<open>What one request writes, table by table.\<close>

definition request_writes :: "request_context \<Rightarrow> app_state \<Rightarrow> app_state \<Rightarrow> bool" where
  "request_writes ctx st st' \<longleftrightarrow>
     as_accounts st' = as_accounts st \<and> as_budgets st' = as_budgets st \<and> as_stats st' = as_stats st
   \<or> as_accounts st' = as_accounts st \<and> budget_puts ctx st st' \<and> as_stats st' = as_stats st
   \<or> ad_clients (as_accounts st') = ad_clients (as_accounts st) \<and> account_puts ctx st st' \<and> as_budgets st' = as_budgets st \<and> as_stats st' = as_stats st
   \<or> Accounts.ad_accounts (as_accounts st') = Accounts.ad_accounts (as_accounts st) \<and> client_puts (client_agrees st) st st'
      \<and> as_budgets st' = as_budgets st \<and> as_stats st' = as_stats st
      \<and> (\<forall>c \<in> set (ad_clients (as_accounts st)). reaches ctx (Accounts.cl_id c) \<or> c \<in> set (ad_clients (as_accounts st')))
   \<or> as_accounts st' = as_accounts st \<and> as_budgets st' = as_budgets st \<and> stat_puts ctx st st'"

lemma puts_mono: "puts k P a b \<Longrightarrow> (\<And>r. P r \<Longrightarrow> Q r) \<Longrightarrow> puts k Q a b"
  by (induction rule: puts.induct) (auto intro: puts_one)

lemma budget_frame:
  "create_budget ctx bc i n st = (x, st') \<Longrightarrow> as_accounts st' = as_accounts st \<and> as_stats st' = as_stats st"
  "patch_budget ctx i bp n st = (x, st') \<Longrightarrow> as_accounts st' = as_accounts st \<and> as_stats st' = as_stats st"
  "delete_budget ctx i n st = (x, st') \<Longrightarrow> as_accounts st' = as_accounts st \<and> as_stats st' = as_stats st"
  "transfer_budget ctx i tr j n st = (y, st') \<Longrightarrow> as_accounts st' = as_accounts st \<and> as_stats st' = as_stats st"
  by (auto simp: create_budget_def patch_budget_def delete_budget_def transfer_budget_def Let_def split: option.splits sum.splits prod.splits if_splits)

lemma account_frame:
  "create_account ctx an i n st = (a, st') \<Longrightarrow> as_budgets st' = as_budgets st \<and> as_stats st' = as_stats st"
  "patch_account ctx i ap n st = (a, st') \<Longrightarrow> as_budgets st' = as_budgets st \<and> as_stats st' = as_stats st"
  "archive_account ctx i n st = (a, st') \<Longrightarrow> as_budgets st' = as_budgets st \<and> as_stats st' = as_stats st"
  by (auto simp: create_account_def patch_account_def archive_account_def split: option.splits sum.splits prod.splits)

lemma invite_frame:
  "issue_invite_route digest ctx c email d gen n st = (v, st') \<Longrightarrow> as_accounts st' = as_accounts st \<and> as_budgets st' = as_budgets st \<and> as_stats st' = as_stats st"
  "list_invites_route ctx c status n st = (vs, st') \<Longrightarrow> as_accounts st' = as_accounts st \<and> as_budgets st' = as_budgets st \<and> as_stats st' = as_stats st"
  "resend_invite_route digest ctx c vi d gen clock st = (v, st') \<Longrightarrow> as_accounts st' = as_accounts st \<and> as_budgets st' = as_budgets st \<and> as_stats st' = as_stats st"
  "revoke_invite_route ctx c vi n st = (w, st') \<Longrightarrow> as_accounts st' = as_accounts st \<and> as_budgets st' = as_budgets st \<and> as_stats st' = as_stats st"
  by (auto simp: issue_invite_route_def list_invites_route_def resend_invite_route_def revoke_invite_route_def split: option.splits sum.splits prod.splits)

lemma own_client_writes:
  assumes "client_puts (own_client ctx st) st st'"
  shows "client_puts (client_agrees st) st st'"
    and "\<forall>c \<in> set (ad_clients (as_accounts st)). reaches ctx (Accounts.cl_id c) \<or> c \<in> set (ad_clients (as_accounts st'))"
  using puts_mono [OF assms, of "client_agrees st"] puts_keep [OF assms, of "\<lambda>c. reaches ctx (Accounts.cl_id c)"] by (auto simp: own_client_def)

lemma tenant_writes:
  assumes "tenant_step ctx st st'" "coherent st"
  shows "request_writes ctx st st'"
  using assms(1)
proof cases
  case t_create_client
  from create_client_puts [OF this assms(2)] show ?thesis unfolding request_writes_def by blast
next
  case t_patch_client
  from patch_client_puts [OF this(1) assms(2) this(2)] own_client_writes show ?thesis unfolding request_writes_def by blast
next
  case t_archive_client
  from archive_client_puts [OF this assms(2)] own_client_writes show ?thesis unfolding request_writes_def by blast
next
  case t_issue_invite
  from invite_frame(1) [OF this] show ?thesis unfolding request_writes_def by blast
next
  case t_list_invites
  from invite_frame(2) [OF this] show ?thesis unfolding request_writes_def by blast
next
  case t_resend_invite
  from invite_frame(3) [OF this] show ?thesis unfolding request_writes_def by blast
next
  case t_revoke_invite
  from invite_frame(4) [OF this] show ?thesis unfolding request_writes_def by blast
next
  case t_create_account
  from create_account_puts [OF this assms(2)] account_frame(1) [OF this] show ?thesis unfolding request_writes_def by blast
next
  case t_patch_account
  from patch_account_puts [OF this(1) assms(2) this(2)] account_frame(2) [OF this(1)] show ?thesis unfolding request_writes_def by blast
next
  case t_archive_account
  from archive_account_puts [OF this assms(2)] account_frame(3) [OF this] show ?thesis unfolding request_writes_def by blast
next
  case t_create_budget
  from create_budget_puts [OF this assms(2)] budget_frame(1) [OF this] show ?thesis unfolding request_writes_def by blast
next
  case t_patch_budget
  from patch_budget_puts [OF this assms(2)] budget_frame(2) [OF this] show ?thesis unfolding request_writes_def by blast
next
  case t_delete_budget
  from delete_budget_puts [OF this assms(2)] budget_frame(3) [OF this] show ?thesis unfolding request_writes_def by blast
next
  case t_transfer_budget
  from transfer_budget_puts [OF this assms(2)] budget_frame(4) [OF this] show ?thesis unfolding request_writes_def by blast
next
  case t_ingest
  from ingest_puts [OF this assms(2)] show ?thesis unfolding request_writes_def by blast
qed

section \<open>Coherence\<close>

lemma key_at:
  assumes "puts k P rows rows'" "distinct (map k rows)" "x \<in> set rows"
  shows "\<exists>y \<in> set rows'. k y = k x \<and> (y = x \<or> P y)"
proof -
  obtain y where y: "y \<in> set rows'" "k y = k x" using puts_keys [OF assms(1)] assms(3) by (metis image_eqI imageE subsetD)
  with puts_mem [OF assms(1) y(1)] key_unique [OF assms(2) _ assms(3) y(2)] show ?thesis by blast
qed

lemma accounts_coherent:
  assumes "coherent st" "account_puts ctx st st'" "ad_clients (as_accounts st') = ad_clients (as_accounts st)"
    and "as_budgets st' = as_budgets st" "as_stats st' = as_stats st"
  shows "coherent st'"
proof -
  have "account_fits (ad_clients (as_accounts st')) a" if "a \<in> set (Accounts.ad_accounts (as_accounts st'))" for a
    using puts_mem [OF assms(2) that] coherentD(4) [OF assms(1)] assms(3) by (auto simp: own_account_def)
  moreover have "budget_fits (as_accounts st') b" if b: "b \<in> set (budgets (as_budgets st'))" for b
  proof -
    have old: "b \<in> set (budgets (as_budgets st))" "budget_fits (as_accounts st) b" using b assms(4) coherentD(5) [OF assms(1)] by simp_all
    have "\<exists>a \<in> set (Accounts.ad_accounts (as_accounts st')). paired a b" if none: "b_account b \<noteq> None"
    proof -
      obtain a where a: "a \<in> set (Accounts.ad_accounts (as_accounts st))" "paired a b" using old(2) none by (auto simp: budget_fits_def)
      obtain y where y: "y \<in> set (Accounts.ad_accounts (as_accounts st'))" "Accounts.ac_id y = Accounts.ac_id a" "y = a \<or> own_account ctx st y"
        using key_at [OF assms(2) coherentD(2) [OF assms(1)] a(1)] by blast
      with a(2) old(1) have "paired y b" by (auto simp: own_account_def paired_def)
      with y(1) show ?thesis by blast
    qed
    with old(2) assms(3) show ?thesis by (auto simp: budget_fits_def)
  qed
  ultimately show ?thesis
    using assms puts_distinct [OF assms(2) coherentD(2) [OF assms(1)]] coherentD(1,3,6) [OF assms(1)] by (simp add: coherent_def coherent_tables_def)
qed

lemma clients_coherent:
  assumes "coherent st" "client_puts (client_agrees st) st st'" "Accounts.ad_accounts (as_accounts st') = Accounts.ad_accounts (as_accounts st)"
    and "as_budgets st' = as_budgets st" "as_stats st' = as_stats st"
  shows "coherent st'"
proof -
  have "account_fits (ad_clients (as_accounts st')) a" if a: "a \<in> set (Accounts.ad_accounts (as_accounts st'))" for a
  proof -
    have old: "a \<in> set (Accounts.ad_accounts (as_accounts st))" using a assms(3) by simp
    then obtain c where c: "c \<in> set (ad_clients (as_accounts st))" "Accounts.cl_id c = Accounts.ac_client a"
      "normal_code (Accounts.cl_currency c) = normal_code (Accounts.ac_currency a)"
      using coherentD(4) [OF assms(1)] by (auto simp: account_fits_def)
    from key_at [OF assms(2) coherentD(1) [OF assms(1)] c(1)] obtain y where
      y: "y \<in> set (ad_clients (as_accounts st'))" "Accounts.cl_id y = Accounts.cl_id c" "y = c \<or> client_agrees st y" by blast
    with c old show ?thesis unfolding account_fits_def by (intro bexI [OF _ y(1)]) (auto simp: client_agrees_def)
  qed
  moreover have "budget_fits (as_accounts st') b" if b: "b \<in> set (budgets (as_budgets st'))" for b
  proof -
    have old: "b \<in> set (budgets (as_budgets st))" "budget_fits (as_accounts st) b" using b assms(4) coherentD(5) [OF assms(1)] by simp_all
    have "\<exists>c \<in> set (ad_clients (as_accounts st')). Accounts.cl_id c = b_client b \<and> normal_code (Accounts.cl_currency c) = normal_code (b_currency b)"
      if live: "b_status b = Active"
    proof -
      obtain c where c: "c \<in> set (ad_clients (as_accounts st))" "Accounts.cl_id c = b_client b" "normal_code (Accounts.cl_currency c) = normal_code (b_currency b)"
        using old(2) live by (auto simp: budget_fits_def)
      from key_at [OF assms(2) coherentD(1) [OF assms(1)] c(1)] obtain y where
        y: "y \<in> set (ad_clients (as_accounts st'))" "Accounts.cl_id y = Accounts.cl_id c" "y = c \<or> client_agrees st y" by blast
      with c old(1) live show ?thesis by (intro bexI [OF _ y(1)]) (auto simp: client_agrees_def)
    qed
    with old(2) assms(3) show ?thesis by (auto simp: budget_fits_def)
  qed
  ultimately show ?thesis
    using assms puts_distinct [OF assms(2) coherentD(1) [OF assms(1)]] coherentD(2,3,6) [OF assms(1)] by (simp add: coherent_def coherent_tables_def)
qed

lemma writes_coherent:
  assumes "coherent st" "request_writes ctx st st'"
  shows "coherent st'"
  using assms(2) unfolding request_writes_def
proof (elim disjE conjE)
  assume b: "as_accounts st' = as_accounts st" "budget_puts ctx st st'" "as_stats st' = as_stats st"
  have "budget_fits (as_accounts st) x" if "x \<in> set (budgets (as_budgets st'))" for x
    using puts_mem [OF b(2) that] coherentD(5) [OF assms(1)] by (auto simp: own_budget_def)
  with b puts_distinct [OF b(2) coherentD(3) [OF assms(1)]] assms(1) show ?thesis by (simp add: coherent_def coherent_tables_def)
next
  assume s: "as_accounts st' = as_accounts st" "as_budgets st' = as_budgets st" "stat_puts ctx st st'"
  with puts_distinct [OF s(3) coherentD(6) [OF assms(1)]] assms(1) show ?thesis by (simp add: coherent_def)
next
  assume "as_accounts st' = as_accounts st" "as_budgets st' = as_budgets st" "as_stats st' = as_stats st"
  with assms(1) show ?thesis by (simp add: coherent_def)
next
  assume "ad_clients (as_accounts st') = ad_clients (as_accounts st)" "account_puts ctx st st'" "as_budgets st' = as_budgets st" "as_stats st' = as_stats st"
  with accounts_coherent [OF assms(1)] show ?thesis by blast
next
  assume "Accounts.ad_accounts (as_accounts st') = Accounts.ad_accounts (as_accounts st)" "client_puts (client_agrees st) st st'"
    "as_budgets st' = as_budgets st" "as_stats st' = as_stats st"
  with clients_coherent [OF assms(1)] show ?thesis by blast
qed

definition no_rows :: "app_state \<Rightarrow> bool" where
  "no_rows st \<longleftrightarrow> ad_clients (as_accounts st) = [] \<and> Accounts.ad_accounts (as_accounts st) = [] \<and> budgets (as_budgets st) = []
     \<and> sd_stats (as_stats st) = []"

definition any_request :: "app_state \<Rightarrow> app_state \<Rightarrow> bool" where
  "any_request st st' \<longleftrightarrow> (\<exists>ctx. tenant_step ctx st st')"

interpretation tenants: safe_system no_rows any_request coherent
proof unfold_locales
  fix st show "no_rows st \<Longrightarrow> coherent st" by (simp add: no_rows_def coherent_def coherent_tables_def)
next
  fix st st' show "coherent st \<Longrightarrow> any_request st st' \<Longrightarrow> coherent st'"
    unfolding any_request_def using tenant_writes writes_coherent by blast
qed

text \<open>C6: Whatever the requests and whoever makes them: an active budget has the currency of its client, a budget of an account belongs to the
  account's client and has the account's currency, and an account has the currency of its client.\<close>
theorem tenant_tables_coherent:
  assumes "reachable no_rows any_request st"
  shows "(\<forall>b \<in> set (budgets (as_budgets st)).
      (b_status b = Active \<longrightarrow> (\<exists>c. client_of (b_client b) st = Some c \<and> normal_code (Accounts.cl_currency c) = normal_code (b_currency b)))
      \<and> (\<forall>i. b_account b = Some i \<longrightarrow> (\<exists>a. account_of i st = Some a \<and> Accounts.ac_client a = b_client b \<and> Accounts.ac_currency a = b_currency b)))
    \<and> (\<forall>a \<in> set (sql_account_list None AllStatus (as_accounts st)). \<exists>c. client_of (Accounts.ac_client a) st = Some c
      \<and> normal_code (Accounts.cl_currency c) = normal_code (Accounts.ac_currency a))"
proof -
  have ok: "coherent st" by (rule tenants.reachable_inv [OF assms])
  have client: "client_of (Accounts.cl_id c) st = Some c" if "c \<in> set (ad_clients (as_accounts st))" for c
    unfolding client_of_def sql_client_get_def by (rule find_key_unique [OF coherentD(1) [OF ok] that refl])
  have account: "account_of (Accounts.ac_id a) st = Some (to_account a)" if "a \<in> set (Accounts.ad_accounts (as_accounts st))" for a
    unfolding account_of_def sql_account_get_def using find_key_unique [OF coherentD(2) [OF ok] that refl] by simp
  have "\<exists>c. client_of (b_client b) st = Some c \<and> normal_code (Accounts.cl_currency c) = normal_code (b_currency b)"
    if "b \<in> set (budgets (as_budgets st))" "b_status b = Active" for b
    using coherentD(5) [OF ok that(1)] that(2) client by (fastforce simp: budget_fits_def)
  moreover have "\<exists>a. account_of i st = Some a \<and> Accounts.ac_client a = b_client b \<and> Accounts.ac_currency a = b_currency b"
    if "b \<in> set (budgets (as_budgets st))" "b_account b = Some i" for b i
    using coherentD(5) [OF ok that(1)] that(2) account by (fastforce simp: budget_fits_def paired_def)
  moreover have "\<exists>c. client_of (Accounts.ac_client a) st = Some c \<and> normal_code (Accounts.cl_currency c) = normal_code (Accounts.ac_currency a)"
    if "a \<in> set (Accounts.ad_accounts (as_accounts st))" for a
    using coherentD(4) [OF ok that] client by (fastforce simp: account_fits_def)
  ultimately show ?thesis by (auto simp: sql_account_list_def sort_desc_def)
qed

section \<open>Confinement\<close>

text \<open>C5: A request without global access leaves every budget, account, client and daily row of a client out of its reach as it was.\<close>
theorem writes_confined:
  assumes "reachable no_rows any_request st" "tenant_step ctx st st'" "\<not> rc_global ctx"
  shows "filter (\<lambda>b. b_client b \<notin> set (rc_clients ctx)) (budgets (as_budgets st')) = filter (\<lambda>b. b_client b \<notin> set (rc_clients ctx)) (budgets (as_budgets st))
    \<and> filter (\<lambda>a. Accounts.ac_client a \<notin> set (rc_clients ctx)) (Accounts.ad_accounts (as_accounts st'))
      = filter (\<lambda>a. Accounts.ac_client a \<notin> set (rc_clients ctx)) (Accounts.ad_accounts (as_accounts st))
    \<and> {c \<in> set (ad_clients (as_accounts st)). Accounts.cl_id c \<notin> set (rc_clients ctx)} \<subseteq> set (ad_clients (as_accounts st'))
    \<and> filter (\<lambda>s. \<not> own_stat ctx st s) (sd_stats (as_stats st')) = filter (\<lambda>s. \<not> own_stat ctx st s) (sd_stats (as_stats st))"
proof -
  have ok: "coherent st" by (rule tenants.reachable_inv [OF assms(1)])
  have r: "reaches ctx c \<longleftrightarrow> c \<in> set (rc_clients ctx)" for c using assms(3) by (simp add: reaches_def)
  from tenant_writes [OF assms(2) ok] show ?thesis unfolding request_writes_def r
  proof (elim disjE conjE)
    assume b: "as_accounts st' = as_accounts st" "budget_puts ctx st st'" "as_stats st' = as_stats st"
    with puts_others [OF b(2), of "\<lambda>b. b_client b \<in> set (rc_clients ctx)"] show ?thesis by (auto simp: own_budget_def r)
  next
    assume a: "ad_clients (as_accounts st') = ad_clients (as_accounts st)" "account_puts ctx st st'" "as_budgets st' = as_budgets st" "as_stats st' = as_stats st"
    with puts_others [OF a(2), of "\<lambda>a. Accounts.ac_client a \<in> set (rc_clients ctx)"] show ?thesis by (auto simp: own_account_def r)
  next
    assume s: "as_accounts st' = as_accounts st" "as_budgets st' = as_budgets st" "stat_puts ctx st st'"
    with puts_others [OF s(3), of "own_stat ctx st"] show ?thesis by auto
  qed auto
qed

lemma no_global: "\<not> rc_global ctx \<Longrightarrow> reaches ctx c \<longleftrightarrow> c \<in> set (rc_clients ctx)"
  by (simp add: reaches_def)

lemma account_known:
  "coherent st \<Longrightarrow> a \<in> set (Accounts.ad_accounts (as_accounts st)) \<Longrightarrow> account_of (Accounts.ac_id a) st = Some (to_account a)"
  unfolding account_of_def sql_account_get_def using find_key_unique [OF coherentD(2)] by simp

lemma filtered_account:
  "account_filter_guard ctx (Some j) st = None \<Longrightarrow> account_of j st = Some a \<Longrightarrow> reaches ctx (Accounts.ac_client a)"
  by (simp add: account_filter_guard_def)

lemma list_accounts_confined:
  assumes "list_accounts ctx client_id status st = Inr as" "a \<in> set as"
  shows "reaches ctx (Accounts.ac_client a)"
  using assms
  by (cases client_id) (auto simp: list_accounts_def Let_def sql_account_list_def sort_desc_def reaches_def split: option.splits if_splits)

lemma list_budgets_confined:
  assumes ok: "coherent st" and l: "list_budgets ctx client_id account_id bst d1 d2 st = Inr bs" "b \<in> set bs"
  shows "reaches ctx (b_client b)"
proof -
  have g: "client_filter_guard ctx client_id = None" "account_filter_guard ctx account_id st = None"
    using l(1) by (auto simp: list_budgets_def first_error_None split: option.splits)
  have mem: "b \<in> set (sql_list client_id account_id (Some bst) d1 d2 (budget_view st))"
    and open_scope: "client_id = None \<and> account_id = None \<longrightarrow> reaches ctx (b_client b)"
    using l by (auto simp: list_budgets_def Let_def reaches_def split: option.splits if_splits)
  show ?thesis
  proof (cases client_id)
    case (Some c)
    with mem g(1) show ?thesis by (auto simp: sql_list_def sort_desc_def client_filter_guard_def)
  next
    case none: None
    show ?thesis
    proof (cases account_id)
      case (Some j)
      with mem have b: "b \<in> set (budgets (as_budgets st))" "b_account b = Some j" by (auto simp: sql_list_def sort_desc_def none)
      then obtain a where a: "a \<in> set (Accounts.ad_accounts (as_accounts st))" "paired a b"
        using coherentD(5) [OF ok b(1)] by (auto simp: budget_fits_def)
      with b(2) account_known [OF ok a(1)] filtered_account [of ctx j st "to_account a"] g(2) Some show ?thesis by (simp add: paired_def)
    qed (use none open_scope in simp)
  qed
qed

lemma list_stats_confined:
  assumes ok: "coherent st" and l: "list_ad_stats ctx f st = Inr ss" "s \<in> set ss"
  shows "\<exists>a. account_of (st_account s) st = Some a \<and> reaches ctx (Accounts.ac_client a)"
proof -
  have g: "client_filter_guard ctx (sf_client f) = None" "account_filter_guard ctx (sf_account f) st = None"
    using l(1) by (auto simp: list_ad_stats_def stat_scope_guard_def first_error_None split: option.splits)
  have mem: "s \<in> set (sql_stat_list (as_accounts st) f (as_stats st))" using l by (auto simp: list_ad_stats_def Let_def split: option.splits if_splits)
  then obtain a where a: "a \<in> set (Accounts.ad_accounts (as_accounts st))" "Accounts.ac_id a = st_account s" "given (sf_client f) (\<lambda>c. Accounts.ac_client a = c)"
    "given (sf_account f) (\<lambda>i. st_account s = i)"
    by (auto simp: sql_stat_list_def Let_def)
  note at = account_known [OF ok a(1), unfolded a(2)]
  consider (client) c where "sf_client f = Some c" | (account) j where "sf_client f = None" "sf_account f = Some j"
    | (all) "sf_client f = None" "sf_account f = None" by (cases "sf_client f"; cases "sf_account f") auto
  then have "reaches ctx (Accounts.ac_client a)"
  proof cases
    case (client c)
    with g(1) a(3) show ?thesis by (simp add: client_filter_guard_def given_def)
  next
    case (account j)
    with g(2) a(4) at filtered_account [of ctx j st "to_account a"] show ?thesis by (simp add: given_def)
  next
    case all
    with l have "rc_global ctx \<or> (\<exists>x \<in> set (Accounts.ad_accounts (as_accounts st)). Accounts.ac_id x = st_account s \<and> Accounts.ac_client x \<in> set (rc_clients ctx))"
      by (force simp: list_ad_stats_def Let_def sql_account_list_def sort_desc_def split: option.splits if_splits)
    with key_unique [OF coherentD(2) [OF ok] _ a(1)] a(2) show ?thesis by (auto simp: reaches_def)
  qed
  with at show ?thesis by simp
qed

text \<open>C4: A request without global access is shown only rows of clients in its reach, whatever it filters by.\<close>
theorem reads_confined:
  assumes "reachable no_rows any_request st" "\<not> rc_global ctx"
  shows "(\<forall>c \<in> set (list_clients ctx status st). Accounts.cl_id c \<in> set (rc_clients ctx))
    \<and> (\<forall>as. list_accounts ctx client_id status st = Inr as \<longrightarrow> (\<forall>a \<in> set as. Accounts.ac_client a \<in> set (rc_clients ctx)))
    \<and> (\<forall>a. get_account ctx i st = Inr a \<longrightarrow> Accounts.ac_client a \<in> set (rc_clients ctx))
    \<and> (\<forall>bs. list_budgets ctx client_id account_id bst d1 d2 st = Inr bs \<longrightarrow> (\<forall>b \<in> set bs. b_client b \<in> set (rc_clients ctx)))
    \<and> (\<forall>b. get_budget ctx i st = Inr b \<longrightarrow> b_client b \<in> set (rc_clients ctx))
    \<and> (\<forall>ss. list_ad_stats ctx f st = Inr ss \<longrightarrow> (\<forall>s \<in> set ss. \<exists>a. account_of (st_account s) st = Some a \<and> Accounts.ac_client a \<in> set (rc_clients ctx)))"
proof (intro conjI allI impI ballI)
  note r = no_global [OF assms(2), symmetric] and ok = tenants.reachable_inv [OF assms(1)]
  show "Accounts.cl_id c \<in> set (rc_clients ctx)" if "c \<in> set (list_clients ctx status st)" for c
    using that assms(2) by (simp add: list_clients_def Let_def)
  show "Accounts.ac_client a \<in> set (rc_clients ctx)" if "list_accounts ctx client_id status st = Inr as" "a \<in> set as" for as a
    unfolding r by (rule list_accounts_confined [OF that])
  show "Accounts.ac_client a \<in> set (rc_clients ctx)" if "get_account ctx i st = Inr a" for a
    using that by (auto simp: get_account_def r split: option.splits)
  show "b_client b \<in> set (rc_clients ctx)" if "get_budget ctx i st = Inr b" for b
    using budget_in_reachD [of ctx i st b] that by (simp add: get_budget_def r)
  show "b_client b \<in> set (rc_clients ctx)" if "list_budgets ctx client_id account_id bst d1 d2 st = Inr bs" "b \<in> set bs" for bs b
    unfolding r by (rule list_budgets_confined [OF ok that])
  show "\<exists>a. account_of (st_account s) st = Some a \<and> Accounts.ac_client a \<in> set (rc_clients ctx)" if "list_ad_stats ctx f st = Inr ss" "s \<in> set ss" for ss s
    unfolding r by (rule list_stats_confined [OF ok that])
qed

text \<open>A client's own user changes nothing through these routes.\<close>
theorem clients_read_only:
  assumes "tenant_step ctx st st'" "rc_role ctx = Client" "\<not> rc_id ctx"
  shows "st' = st"
proof -
  have w: "ensure_tenant_write_access ctx = Some ClientReadOnly" using assms(2,3) by (simp add: ensure_tenant_write_access_def)
  have b: "budget_write_guard ctx st = Some (Refused ClientReadOnly)" using assms(2) w
    by (simp add: budget_write_guard_def ensure_budget_write_access_def denied_def)
  have v: "invite_guard ctx c st = Some RouteForbidden" for c using assms(2) by (simp add: invite_guard_def)
  from assms(1) show ?thesis
    by cases (auto simp: create_client_def patch_client_def archive_client_def issue_invite_route_def list_invites_route_def
      resend_invite_route_def revoke_invite_route_def create_account_def patch_account_def archive_account_def create_budget_def
      patch_budget_def delete_budget_def transfer_budget_def ingest_ad_stats_def Let_def w b v denied_def)
qed

section \<open>Example\<close>

text \<open>An administrator creates two clients, an account and a budget of the first.\<close>

definition empty_state :: app_state where
  "empty_state = \<lparr>as_accounts = account_db.make [] [],
     as_budgets = budget_db.make [] [] [] [] [],
     as_stats = \<lparr>sd_stats = [], sd_idem = []\<rparr>, as_identity = sample_empty, as_invites = [], as_audit = []\<rparr>"

definition admin_context :: request_context where
  "admin_context = \<lparr>rc_user = 3, rc_role = Admin, rc_global = True, rc_clients = [], rc_id = False, rc_permissions = []\<rparr>"

definition agency_context :: request_context where
  "agency_context = \<lparr>rc_user = 1, rc_role = Agency, rc_global = False, rc_clients = [1], rc_id = False, rc_permissions = []\<rparr>"

definition new_client_named :: "string \<Rightarrow> client_create" where
  "new_client_named n = \<lparr>cc_name = n, cc_legal_name = None, cc_status = RActive, cc_currency = ''USD'', cc_timezone = None, cc_notes = None\<rparr>"

definition new_account :: account_create where
  "new_account = \<lparr>an_client = 1, an_platform = ''meta'', an_external = ''77'', an_name = ''a'', an_currency = ''USD'', an_timezone = None,
     an_status = RActive, an_meta = None\<rparr>"

definition new_budget :: "budget_scope \<Rightarrow> uuid option \<Rightarrow> budget_create" where
  "new_budget scope a = \<lparr>c_client = 1, c_scope = scope, c_account = a, c_amount = 100, c_currency = ''USD'', c_period = Monthly, c_start = 0,
     c_end = 30, c_note = None, c_created_by = None\<rparr>"

definition seeded_clients :: app_state where
  "seeded_clients = snd (create_client admin_context (new_client_named ''two'') None 2 0 1 1 (snd (create_client admin_context (new_client_named ''one'') None 1 0 0 0 empty_state)))"

definition tenant_demo :: app_state where
  "tenant_demo = snd (create_budget admin_context (new_budget AccountScope (Some 10)) 20 3 (snd (create_account admin_context new_account 10 2 seeded_clients)))"

lemma step_to: "reachable no_rows any_request st \<Longrightarrow> tenant_step ctx st st' \<Longrightarrow> reachable no_rows any_request st'"
  by (rule reach_step) (auto simp: any_request_def)

lemma reachable_tenant_demo: "reachable no_rows any_request tenant_demo"
proof -
  have "reachable no_rows any_request empty_state" by (rule reach_init) (simp add: no_rows_def empty_state_def account_db.make_def budget_db.make_def)
  then have "reachable no_rows any_request seeded_clients"
    unfolding seeded_clients_def by (intro step_to [OF _ t_create_client [OF surjective_pairing]])
  then show ?thesis unfolding tenant_demo_def
    by (intro step_to [OF _ t_create_budget [OF surjective_pairing]] step_to [OF _ t_create_account [OF surjective_pairing]])
qed

lemma demo_budget: "map b_id (budgets (as_budgets tenant_demo)) = [20] \<and> map b_account (budgets (as_budgets tenant_demo)) = [Some 10]
   \<and> map b_client (budgets (as_budgets tenant_demo)) = [1]" by code_simp

theorem tenant_tables_coherent_witness: "\<exists>b a. b \<in> set (budgets (as_budgets tenant_demo)) \<and> account_of 10 tenant_demo = Some a \<and> Accounts.ac_client a = b_client b
   \<and> Accounts.ac_currency a = b_currency b"
proof -
  obtain b where b: "budgets (as_budgets tenant_demo) = [b]" "b_account b = Some 10" using demo_budget by auto
  with tenant_tables_coherent [OF reachable_tenant_demo] show ?thesis by auto
qed

theorem writes_confined_witness:
  "filter (\<lambda>b. b_client b \<notin> set (rc_clients agency_context)) (budgets (as_budgets (snd (delete_budget agency_context 20 5 tenant_demo))))
    = filter (\<lambda>b. b_client b \<notin> set (rc_clients agency_context)) (budgets (as_budgets tenant_demo)) \<and> \<not> isl (fst (delete_budget agency_context 20 5 tenant_demo))"
proof -
  have "tenant_step agency_context tenant_demo (snd (delete_budget agency_context 20 5 tenant_demo))"
    by (rule t_delete_budget [OF surjective_pairing])
  moreover have "\<not> rc_global agency_context" by (simp add: agency_context_def)
  moreover have "\<not> isl (fst (delete_budget agency_context 20 5 tenant_demo))" by code_simp
  ultimately show ?thesis using writes_confined [OF reachable_tenant_demo] by blast
qed

theorem reads_confined_witness:
  "\<exists>bs. list_budgets agency_context None (Some 10) StatusAll None None tenant_demo = Inr bs \<and> map b_id bs = [20]
     \<and> b_client (hd bs) \<in> set (rc_clients agency_context)"
proof -
  let ?l = "list_budgets agency_context None (Some 10) StatusAll None None tenant_demo"
  obtain bs where l: "?l = Inr bs" and ids: "map b_id bs = [20]" by (rule that [of "projr ?l"]) code_simp+
  have h: "hd bs \<in> set bs" using ids by (cases bs) simp_all
  have n: "\<not> rc_global agency_context" by (simp add: agency_context_def)
  have "\<forall>bs. ?l = Inr bs \<longrightarrow> (\<forall>b \<in> set bs. b_client b \<in> set (rc_clients agency_context))"
    by (rule reads_confined [OF reachable_tenant_demo n, THEN conjunct2, THEN conjunct2, THEN conjunct2, THEN conjunct1])
  from this [rule_format, OF l h] show ?thesis by (intro exI [of _ bs] conjI) (rule l, rule ids, assumption)
qed

theorem clients_read_only_witness:
  "snd (archive_client (admin_context\<lparr>rc_role := Client\<rparr>) 1 5 6 tenant_demo) = tenant_demo"
  by (rule clients_read_only [OF t_archive_client [OF surjective_pairing]]) (simp_all add: admin_context_def)

end
